(* ===== verification/Go_Prelude.thy ===== *)
theory Go_Prelude
  imports Main "HOL-Library.AList"
begin

text \<open>
  Shared base of the development: what every component needs of the Go language.
  A Go function that may panic returns a value of type \<open>'a go\<close>: \<open>Inl\<close> is the panic,
  \<open>Inr\<close> the result. A pointer is a \<open>ptr\<close>: \<open>None\<close> is \<open>nil\<close> and \<open>Some a\<close> the
  object at address \<open>a\<close> of a heap, a list that only grows. Go strings are byte
  sequences, which is what \<^typ>\<open>string\<close> (a list of 8-bit characters) is.
\<close>

section \<open>Panics and sequencing\<close>

datatype go_panic =
    IndexOutOfRange
  | NilDereference
  | TypeAssertion
  | PanicWith string
  | NoReturn \<comment> \<open>a loop that does not end\<close>

type_synonym 'a go = "go_panic + 'a"
type_synonym ptr = "nat option"

named_theorems go_defs \<open>operations of the Go runtime\<close>

definition go_bind :: "'a go \<Rightarrow> ('a \<Rightarrow> 'b go) \<Rightarrow> 'b go" where
  "go_bind m f = (case m of Inl e \<Rightarrow> Inl e | Inr x \<Rightarrow> f x)"

lemma go_bind_simps [simp]:
  "go_bind (Inl e) f = Inl e"
  "go_bind (Inr x) f = f x"
  by (simp_all add: go_bind_def)

lemma go_bind_Inr_iff [simp]:
  "go_bind m f = Inr y \<longleftrightarrow> (\<exists>x. m = Inr x \<and> f x = Inr y)"
  by (cases m) auto

lemma go_bind_Inr_iff' [simp]:
  "Inr y = go_bind m f \<longleftrightarrow> (\<exists>x. m = Inr x \<and> f x = Inr y)"
  by (cases m) auto

lemma go_bind_assoc: "go_bind (go_bind m f) g = go_bind m (\<lambda>x. go_bind (f x) g)"
  by (cases m) auto

lemma go_bind_cong [fundef_cong]:
  "m = m' \<Longrightarrow> (\<And>x. m' = Inr x \<Longrightarrow> f x = f' x) \<Longrightarrow> go_bind m f = go_bind m' f'"
  by (cases m') auto

text \<open>A loop over a slice that collects results and stops at the first panic.\<close>

fun go_map :: "('a \<Rightarrow> 'b go) \<Rightarrow> 'a list \<Rightarrow> 'b list go" where
  "go_map f [] = Inr []"
| "go_map f (x # xs) = go_bind (f x) (\<lambda>y. go_bind (go_map f xs) (\<lambda>ys. Inr (y # ys)))"

lemma go_map_cong [fundef_cong]:
  "xs = ys \<Longrightarrow> (\<And>x. x \<in> set ys \<Longrightarrow> f x = g x) \<Longrightarrow> go_map f xs = go_map g ys"
  by (induction ys arbitrary: xs) auto

lemma go_map_Inr [simp]: "go_map (\<lambda>x. Inr (f x)) xs = Inr (map f xs)"
  by (induction xs) auto

lemma go_map_map [simp]: "go_map f (map g xs) = go_map (\<lambda>x. f (g x)) xs"
  by (induction xs) auto

lemma go_map_Inr_iff: "go_map f xs = Inr ys \<longleftrightarrow> list_all2 (\<lambda>x y. f x = Inr y) xs ys"
  by (induction xs arbitrary: ys) (auto simp: list_all2_Cons1)

lemma go_map_total:
  "(\<And>x. x \<in> set xs \<Longrightarrow> f x = Inr (g x)) \<Longrightarrow> go_map f xs = Inr (map g xs)"
  by (induction xs) auto

lemma go_map_length: "go_map f xs = Inr ys \<Longrightarrow> length ys = length xs"
  by (auto simp: go_map_Inr_iff dest: list_all2_lengthD)

section \<open>Slices\<close>

definition go_index :: "'a list \<Rightarrow> int \<Rightarrow> 'a go" where
  [go_defs]: "go_index xs i =
     (if 0 \<le> i \<and> i < int (length xs) then Inr (xs ! nat i) else Inl IndexOutOfRange)"

definition go_store :: "'a list \<Rightarrow> int \<Rightarrow> 'a \<Rightarrow> 'a list go" where
  [go_defs]: "go_store xs i v =
     (if 0 \<le> i \<and> i < int (length xs) then Inr (xs[nat i := v]) else Inl IndexOutOfRange)"

text \<open>\<open>copy(dst, src)\<close>: the first \<open>min\<close> elements of \<open>dst\<close> are overwritten.\<close>

definition go_copy :: "'a list \<Rightarrow> 'a list \<Rightarrow> 'a list" where
  [go_defs]: "go_copy dst src = take (length dst) src @ drop (length src) dst"

lemma go_index_nat [simp]: "i < length xs \<Longrightarrow> go_index xs (int i) = Inr (xs ! i)"
  by (simp add: go_index_def)

lemma go_index_Inr_iff: "go_index xs i = Inr x \<longleftrightarrow> 0 \<le> i \<and> i < int (length xs) \<and> x = xs ! nat i"
  by (auto simp: go_index_def)

lemma go_store_Inr_iff:
  "go_store xs i v = Inr ys \<longleftrightarrow> 0 \<le> i \<and> i < int (length xs) \<and> ys = xs[nat i := v]"
  by (auto simp: go_store_def)

lemma go_copy_same_length [simp]: "length src = length dst \<Longrightarrow> go_copy dst src = src"
  by (simp add: go_copy_def)

lemma length_go_copy [simp]: "length (go_copy dst src) = length dst"
  by (auto simp: go_copy_def)

section \<open>Heaps\<close>

definition deref :: "'a list \<Rightarrow> ptr \<Rightarrow> 'a go" where
  [go_defs]: "deref h p =
     (case p of None \<Rightarrow> Inl NilDereference
      | Some a \<Rightarrow> if a < length h then Inr (h ! a) else Inl NilDereference)"

definition valid_ptr :: "'a list \<Rightarrow> ptr \<Rightarrow> bool" where
  "valid_ptr h p = (case p of None \<Rightarrow> False | Some a \<Rightarrow> a < length h)"

lemma valid_ptr_simps [simp]:
  "\<not> valid_ptr h None"
  "valid_ptr h (Some a) \<longleftrightarrow> a < length h"
  by (simp_all add: valid_ptr_def)

lemma deref_Some [simp]: "a < length h \<Longrightarrow> deref h (Some a) = Inr (h ! a)"
  by (simp add: deref_def)

lemma deref_None [simp]: "deref h None = Inl NilDereference"
  by (simp add: deref_def)

lemma deref_Inr_iff: "deref h p = Inr x \<longleftrightarrow> (\<exists>a. p = Some a \<and> a < length h \<and> x = h ! a)"
  by (auto simp: deref_def split: option.splits)

lemma deref_append [simp]: "valid_ptr h p \<Longrightarrow> deref (h @ h') p = deref h p"
  by (cases p) (auto simp: deref_def nth_append)

lemma valid_ptr_append [intro]: "valid_ptr h p \<Longrightarrow> valid_ptr (h @ h') p"
  by (cases p) auto

section \<open>JavaScript objects\<close>

text \<open>A JavaScript object is an association list; \<open>o.Set(k, v)\<close> replaces or adds.\<close>

type_synonym 'v jsobj = "(string \<times> 'v) list"

definition obj_set :: "string \<Rightarrow> 'v \<Rightarrow> 'v jsobj \<Rightarrow> 'v jsobj" where
  "obj_set k v o1 = AList.update k v o1"

definition obj_get :: "'v jsobj \<Rightarrow> string \<Rightarrow> 'v option" where
  "obj_get o1 k = map_of o1 k"

lemma obj_get_set [simp]:
  "obj_get (obj_set k v o1) k' = (if k' = k then Some v else obj_get o1 k')"
  by (simp add: obj_get_def obj_set_def update_conv)

lemma obj_get_Nil [simp]: "obj_get [] k = None"
  by (simp add: obj_get_def)

end
