(* ===== verification/Go_Rand.thy ===== *)
theory Go_Rand
  imports Go_Prelude
begin

text \<open>
  What the client uses of Go's \<open>math/rand\<close>: \<open>Rand.Intn\<close> over a source of 63-bit values.
  The values of a seeded source are a parameter of the model, a function from the number of
  values already drawn. Under GopherJS an \<open>int\<close> has 32 bits, so \<open>Intn\<close> always takes its
  \<open>Int31n\<close> branch. \<open>Int31n\<close> draws again while the value falls into the incomplete last
  block, so it may not return on a source that never leaves it.
\<close>

unbundle bit_operations_syntax

section \<open>Drawing\<close>

record Rand =
  src :: "nat \<Rightarrow> nat"
  pos :: nat

definition new_Rand :: "(int \<Rightarrow> nat \<Rightarrow> nat) \<Rightarrow> int \<Rightarrow> Rand" where
  "new_Rand NewSource seed = \<lparr>src = NewSource seed, pos = 0\<rparr>"

definition Int63 :: "Rand \<Rightarrow> nat \<times> Rand" where
  "Int63 r = (src r (pos r), r\<lparr>pos := Suc (pos r)\<rparr>)"

definition Int31 :: "Rand \<Rightarrow> nat \<times> Rand" where
  "Int31 r = (case Int63 r of (v, r') \<Rightarrow> (v div 2 ^ 32, r'))"

partial_function (option) int31n_loop :: "nat \<Rightarrow> Rand \<Rightarrow> (nat \<times> Rand) option" where
  "int31n_loop mx r =
     (case Int31 r of (v, r') \<Rightarrow> if mx < v then int31n_loop mx r' else Some (v, r'))"

definition int31n_max :: "nat \<Rightarrow> nat" where
  "int31n_max n = 2 ^ 31 - 1 - 2 ^ 31 mod n"

definition Int31n :: "int \<Rightarrow> Rand \<Rightarrow> (int \<times> Rand) go" where
  "Int31n n r =
     (if n \<le> 0 then Inl (PanicWith ''invalid argument to Int31n'')
      else if n AND (n - 1) = 0
      then (case Int31 r of (v, r') \<Rightarrow> Inr (int v AND (n - 1), r'))
      else (case int31n_loop (int31n_max (nat n)) r of
              None \<Rightarrow> Inl NoReturn
            | Some (v, r') \<Rightarrow> Inr (int (v mod nat n), r')))"

definition Intn :: "int \<Rightarrow> Rand \<Rightarrow> (int \<times> Rand) go" where
  "Intn n r = (if n \<le> 0 then Inl (PanicWith ''invalid argument to Intn'') else Int31n n r)"

section \<open>Range\<close>

lemma Intn_range: "Intn n r = Inr (v, r') \<Longrightarrow> 0 \<le> v \<and> v < n"
proof -
  assume *: "Intn n r = Inr (v, r')"
  then have n: "0 < n" by (auto simp: Intn_def split: if_splits)
  show ?thesis
  proof (cases "n AND (n - 1) = 0")
    case True
    with * n obtain u where "v = int u AND (n - 1)"
      by (auto simp: Intn_def Int31n_def split: prod.splits)
    with n show ?thesis using AND_upper2 [of "n - 1" "int u"] by (auto simp: AND_lower)
  next
    case False
    with * n show ?thesis
      by (auto simp: Intn_def Int31n_def zmod_int split: option.splits)
  qed
qed

lemma int31n_loop_src:
  assumes "int31n_loop mx r = Some y"
  shows "src (snd y) = src r"
proof (rule int31n_loop.raw_induct [OF _ assms, where P = "\<lambda>mx r y. src (snd y) = src r"])
  fix f mx r y
  assume IH: "\<And>mx r y. f mx r = Some y \<Longrightarrow> src (snd y) = src r"
    and step: "(case Int31 r of (v, r') \<Rightarrow> if mx < v then f mx r' else Some (v, r')) = Some y"
  obtain v where v: "Int31 r = (v, r\<lparr>pos := Suc (pos r)\<rparr>)" by (simp add: Int31_def Int63_def)
  show "src (snd y) = src r"
  proof (cases "mx < v")
    case True
    with step v have "f mx (r\<lparr>pos := Suc (pos r)\<rparr>) = Some y" by simp
    from IH [OF this] show ?thesis by simp
  qed (use step v in auto)
qed

lemma Intn_src:
  assumes "Intn n r = Inr (v, r')"
  shows "src r' = src r"
proof (cases "n AND (n - 1) = 0")
  case True
  with assms show ?thesis by (auto simp: Intn_def Int31n_def Int31_def Int63_def split: if_splits)
next
  case False
  with assms obtain u where "int31n_loop (int31n_max (nat n)) r = Some (u, r')"
    by (auto simp: Intn_def Int31n_def split: if_splits option.splits)
  then show ?thesis using int31n_loop_src by fastforce
qed

section \<open>The loop ends\<close>

text \<open>A source is fair when, from any point on, it still yields a value in the lower half of
  its range. More than half of the range is accepted whatever \<open>n\<close> is.\<close>

definition fair :: "(nat \<Rightarrow> nat) \<Rightarrow> bool" where
  "fair f \<longleftrightarrow> (\<forall>m. \<exists>k \<ge> m. f k < 2 ^ 62)"

lemma int31n_max_half:
  assumes "0 < n" and "n < 2 ^ 31"
  shows "2 ^ 30 - 1 \<le> int31n_max n"
proof -
  have "2 * (2 ^ 31 mod n) < 2 ^ 31 + (1 :: nat)"
  proof (cases "n \<le> 2 ^ 30")
    case True
    with mod_less_divisor [OF assms(1), of "2 ^ 31"] have "2 ^ 31 mod n < 2 ^ 30"
      by (rule less_le_trans)
    then have "2 * (2 ^ 31 mod n) < 2 * 2 ^ 30" by (rule mult_strict_left_mono) simp
    also have "\<dots> < 2 ^ 31 + 1" by simp
    finally show ?thesis .
  next
    case False
    with assms(2) have "2 ^ 31 mod n = 2 ^ 31 - n" using mod_if [of "2 ^ 31" n] by simp
    with False assms(2) show ?thesis by simp
  qed
  then show ?thesis by (simp add: int31n_max_def)
qed

lemma int31n_loop_total:
  "src r k < 2 ^ 62 \<Longrightarrow> pos r \<le> k \<Longrightarrow> 2 ^ 30 - 1 \<le> mx \<Longrightarrow> \<exists>v r'. int31n_loop mx r = Some (v, r')"
proof (induction "k - pos r" arbitrary: r)
  case 0
  then have "src r (pos r) div 2 ^ 32 \<le> mx"
    by (simp add: div_le_mono [of "src r k" "2 ^ 62 - 1", THEN order_trans])
  then show ?case by (subst int31n_loop.simps) (simp add: Int31_def Int63_def)
next
  case (Suc d)
  then have "\<exists>v r'. int31n_loop mx (r\<lparr>pos := Suc (pos r)\<rparr>) = Some (v, r')" by simp
  then show ?case by (subst int31n_loop.simps) (auto simp: Int31_def Int63_def)
qed

lemma Intn_total:
  assumes "fair (src r)" and "0 < n" and "n < 2 ^ 31"
  shows "\<exists>v r'. Intn n r = Inr (v, r')"
proof -
  obtain k where k: "pos r \<le> k" "src r k < 2 ^ 62"
    using assms(1) unfolding fair_def by blast
  have "2 ^ 30 - 1 \<le> int31n_max (nat n)"
    using assms(2,3) by (intro int31n_max_half) auto
  with int31n_loop_total [of r k] k obtain v r' where "int31n_loop (int31n_max (nat n)) r = Some (v, r')"
    by blast
  with assms(2) show ?thesis by (auto simp: Intn_def Int31n_def split: prod.split)
qed

section \<open>No value is favoured\<close>

text \<open>The accepted values fall into complete blocks of \<open>n\<close>, so each result has equally many.\<close>

lemma card_mod_block:
  assumes "v < n"
  shows "card {x. x < q * n \<and> x mod n = v} = (q :: nat)"
proof -
  have "{x. x < q * n \<and> x mod n = v} = (\<lambda>i. i * n + v) ` {..<q}"
  proof (intro set_eqI iffI)
    fix x assume "x \<in> {x. x < q * n \<and> x mod n = v}"
    then have x: "x < q * n" "x mod n = v" by auto
    then have "x = x div n * n + v" "x div n < q"
      by (auto simp: less_mult_imp_div_less)
    then show "x \<in> (\<lambda>i. i * n + v) ` {..<q}" by blast
  next
    fix x assume "x \<in> (\<lambda>i. i * n + v) ` {..<q}"
    then obtain i where i: "x = i * n + v" "i < q" by blast
    then have "Suc i * n \<le> q * n" by (simp only: mult_le_mono1 Suc_leI)
    with i assms show "x \<in> {x. x < q * n \<and> x mod n = v}" by auto
  qed
  moreover have "inj_on (\<lambda>i. i * n + v) {..<q}" using assms by (auto simp: inj_on_def)
  ultimately show ?thesis by (simp add: card_image)
qed

lemma int31n_max_blocks:
  assumes "0 < n" and "n < 2 ^ 31"
  shows "Suc (int31n_max n) = 2 ^ 31 div n * n"
proof -
  have "(2 ^ 31 :: nat) = 2 ^ 31 div n * n + 2 ^ 31 mod n" by simp
  moreover have "2 ^ 31 mod n < (2 ^ 31 :: nat)" using assms mod_less_divisor [of n "2 ^ 31"] by linarith
  ultimately show ?thesis unfolding int31n_max_def by linarith
qed

lemma int31n_unbiased:
  assumes "v < n" and "n < 2 ^ 31"
  shows "card {x. x \<le> int31n_max n \<and> x mod n = v} = 2 ^ 31 div n"
  using card_mod_block [OF assms(1), of "2 ^ 31 div n"] int31n_max_blocks [of n] assms
  by (simp add: less_Suc_eq_le [symmetric])

section \<open>Every result can come out\<close>

lemma power_of_two:
  "0 < n \<Longrightarrow> n AND (n - 1) = 0 \<Longrightarrow> \<exists>k. n = (2 :: int) ^ k"
proof (induction "nat n" arbitrary: n rule: less_induct)
  case less
  show ?case
  proof (cases "even n")
    case True
    then obtain m where m: "n = 2 * m" by (elim evenE)
    with less.prems(1) have "0 < m" by simp
    have "(n - 1) div 2 = m - 1" using m by linarith
    then have "n AND (n - 1) = 2 * (m AND (m - 1))"
      using m and_int_rec [of n "n - 1"] by simp
    with less.prems(2) have "m AND (m - 1) = 0" by simp
    with less.hyps [of m] \<open>0 < m\<close> m obtain k where "m = 2 ^ k" by auto
    with m have "n = 2 ^ Suc k" by simp
    then show ?thesis ..
  next
    case False
    then obtain m where m: "n = 2 * m + 1" by (elim oddE)
    then have "n AND (n - 1) = 2 * m" using and_int_rec [of n "n - 1"] by simp
    with less.prems(2) m have "n = 2 ^ 0" by simp
    then show ?thesis ..
  qed
qed

lemma int31n_max_ge: "0 < n \<Longrightarrow> n < 2 ^ 31 \<Longrightarrow> n - 1 \<le> int31n_max n"
proof -
  assume n: "0 < n" "n < 2 ^ 31"
  then have "1 \<le> 2 ^ 31 div n" using div_le_mono [of n "2 ^ 31" n] by simp
  then have "1 * n \<le> 2 ^ 31 div n * n" by (rule mult_le_mono1)
  then have "n \<le> Suc (int31n_max n)" unfolding int31n_max_blocks [OF n] by (simp only: mult_1)
  then show ?thesis by simp
qed

lemma Intn_draws:
  assumes "u < n" and "n < 2 ^ 31" and "src r (pos r) = u * 2 ^ 32"
  shows "Intn (int n) r = Inr (int u, r\<lparr>pos := Suc (pos r)\<rparr>)"
proof -
  have v: "Int31 r = (u, r\<lparr>pos := Suc (pos r)\<rparr>)" by (simp add: Int31_def Int63_def assms(3))
  show ?thesis
  proof (cases "int n AND (int n - 1) = 0")
    case True
    with power_of_two [of "int n"] assms(1) obtain k where k: "int n = 2 ^ k" by auto
    then have "int u AND (int n - 1) = take_bit k (int u)" by (simp add: take_bit_eq_mask mask_eq_exp_minus_1)
    also have "\<dots> = int u" using assms(1) k by (simp add: take_bit_int_eq_self_iff flip: k)
    finally show ?thesis using True v assms(1) by (simp add: Intn_def Int31n_def)
  next
    case False
    have "u \<le> int31n_max n" using int31n_max_ge [of n] assms(1,2) by simp
    then have "int31n_loop (int31n_max n) r = Some (u, r\<lparr>pos := Suc (pos r)\<rparr>)"
      using v by (subst int31n_loop.simps) simp
    with False assms(1) show ?thesis by (simp add: Intn_def Int31n_def)
  qed
qed

end
