(* ===== verification/Go_Strings.thy ===== *)
theory Go_Strings
  imports Go_Prelude
begin

text \<open>
  The functions of Go's packages \<open>strings\<close>, \<open>strconv\<close> and \<open>path/filepath\<close> that
  the client and the jsx package call, on byte strings.
\<close>

section \<open>Prefixes, splitting and joining\<close>

definition HasPrefix :: "string \<Rightarrow> string \<Rightarrow> bool" where
  "HasPrefix s p \<longleftrightarrow> take (length p) s = p"

definition TrimPrefix :: "string \<Rightarrow> string \<Rightarrow> string" where
  "TrimPrefix s p = (if HasPrefix s p then drop (length p) s else s)"

text \<open>\<open>strings.Split\<close> with a separator of one byte: there is always one part more than
  there are separators.\<close>

fun Split :: "char \<Rightarrow> string \<Rightarrow> string list" where
  "Split c [] = [[]]"
| "Split c (x # xs) =
     (if x = c then [] # Split c xs
      else (case Split c xs of [] \<Rightarrow> [[x]] | p # ps \<Rightarrow> (x # p) # ps))"

fun Join :: "string \<Rightarrow> string list \<Rightarrow> string" where
  "Join sep [] = []"
| "Join sep [p] = p"
| "Join sep (p # q # ps) = p @ sep @ Join sep (q # ps)"

lemma Split_neq_Nil [simp]: "Split c s \<noteq> []"
  by (induction s) (auto split: list.splits)

lemma Join_Split [simp]: "Join [c] (Split c s) = s"
proof (induction s)
  case (Cons x xs)
  then show ?case
    by (cases "Split c xs") (auto, metis Join.simps(2,3) neq_Nil_conv append_Cons)
qed simp

lemma Split_no_sep: "p \<in> set (Split c s) \<Longrightarrow> c \<notin> set p"
  by (induction s arbitrary: p) (fastforce split: list.splits if_splits)+

lemma Split_no_occ: "c \<notin> set s \<Longrightarrow> Split c s = [s]"
  by (induction s) auto

lemma Split_append_sep: "c \<notin> set p \<Longrightarrow> Split c (p @ c # s) = p # Split c s"
  by (induction p) auto

lemma Split_Join:
  "ps \<noteq> [] \<Longrightarrow> \<forall>p \<in> set ps. c \<notin> set p \<Longrightarrow> Split c (Join [c] ps) = ps"
  by (induction "[c]" ps rule: Join.induct) (auto simp: Split_no_occ Split_append_sep)

lemma length_Split: "length (Split c s) = Suc (count_list s c)"
  by (induction s) (auto split: list.splits)

section \<open>Trimming\<close>

text \<open>
  \<open>strings.TrimSpace\<close> strips the runes for which \<open>unicode.IsSpace\<close> holds. In UTF-8
  these are the byte sequences below; a leading or trailing rune is a space exactly when the
  string starts or ends with one of them.
\<close>

definition space_runes :: "string list" where
  "space_runes =
     [[CHR 0x09], [CHR 0x0A], [CHR 0x0B], [CHR 0x0C], [CHR 0x0D], [CHR 0x20],
      [CHR 0xC2, CHR 0x85], [CHR 0xC2, CHR 0xA0], [CHR 0xE1, CHR 0x9A, CHR 0x80],
      [CHR 0xE2, CHR 0x80, CHR 0x80], [CHR 0xE2, CHR 0x80, CHR 0x81],
      [CHR 0xE2, CHR 0x80, CHR 0x82], [CHR 0xE2, CHR 0x80, CHR 0x83],
      [CHR 0xE2, CHR 0x80, CHR 0x84], [CHR 0xE2, CHR 0x80, CHR 0x85],
      [CHR 0xE2, CHR 0x80, CHR 0x86], [CHR 0xE2, CHR 0x80, CHR 0x87],
      [CHR 0xE2, CHR 0x80, CHR 0x88], [CHR 0xE2, CHR 0x80, CHR 0x89],
      [CHR 0xE2, CHR 0x80, CHR 0x8A], [CHR 0xE2, CHR 0x80, CHR 0xA8],
      [CHR 0xE2, CHR 0x80, CHR 0xA9], [CHR 0xE2, CHR 0x80, CHR 0xAF],
      [CHR 0xE2, CHR 0x81, CHR 0x9F], [CHR 0xE3, CHR 0x80, CHR 0x80]]"

function trim_runes :: "string list \<Rightarrow> string \<Rightarrow> string" where
  "trim_runes rs s =
     (case find (\<lambda>r. r \<noteq> [] \<and> HasPrefix s r) rs of
        None \<Rightarrow> s
      | Some r \<Rightarrow> trim_runes rs (drop (length r) s))"
  by pat_completeness auto
termination
  by (relation "measure (\<lambda>(rs, s). length s)")
    (auto simp: find_Some_iff HasPrefix_def, metis diff_less length_greater_0_conv take_Nil)

declare trim_runes.simps [simp del]

definition TrimSpace :: "string \<Rightarrow> string" where
  "TrimSpace s = rev (trim_runes (map rev space_runes) (rev (trim_runes space_runes s)))"

text \<open>\<open>strings.Trim(s, cutset)\<close> for a cutset of ASCII bytes.\<close>

definition Trim :: "char list \<Rightarrow> string \<Rightarrow> string" where
  "Trim cs s = rev (dropWhile (\<lambda>c. c \<in> set cs) (rev (dropWhile (\<lambda>c. c \<in> set cs) s)))"

lemma trim_runes_stop:
  "\<forall>r \<in> set rs. r \<noteq> [] \<longrightarrow> \<not> HasPrefix s r \<Longrightarrow> trim_runes rs s = s"
  by (subst trim_runes.simps) (auto split: option.splits simp: find_Some_iff)

lemma trim_runes_step:
  "find (\<lambda>r. r \<noteq> [] \<and> HasPrefix s r) rs = Some r \<Longrightarrow>
   trim_runes rs s = trim_runes rs (drop (length r) s)"
  by (subst trim_runes.simps) simp

text \<open>Nothing is left to trim after trimming.\<close>

lemma trim_runes_done:
  "r \<in> set rs \<Longrightarrow> r \<noteq> [] \<Longrightarrow> \<not> HasPrefix (trim_runes rs s) r"
proof (induction rs s rule: trim_runes.induct)
  case (1 rs s)
  show ?case
  proof (cases "find (\<lambda>r. r \<noteq> [] \<and> HasPrefix s r) rs")
    case None
    then have "trim_runes rs s = s" by (subst trim_runes.simps) simp
    with None "1.prems" show ?thesis by (auto simp: find_None_iff)
  next
    case (Some q)
    with "1.IH" "1.prems" show ?thesis by (simp add: trim_runes_step)
  qed
qed

lemma trim_runes_suffix: "\<exists>p. s = p @ trim_runes rs s"
proof (induction rs s rule: trim_runes.induct)
  case (1 rs s)
  show ?case
  proof (cases "find (\<lambda>r. r \<noteq> [] \<and> HasPrefix s r) rs")
    case None
    then show ?thesis by (subst trim_runes.simps) simp
  next
    case (Some q)
    with "1.IH" obtain p where "drop (length q) s = p @ trim_runes rs (drop (length q) s)"
      by blast
    then have "s = (take (length q) s @ p) @ trim_runes rs (drop (length q) s)"
      by (metis append.assoc append_take_drop_id)
    with trim_runes_step [OF Some] show ?thesis by metis
  qed
qed

text \<open>What \<open>TrimSpace\<close> returns is a contiguous part of its argument.\<close>

lemma TrimSpace_infix: "\<exists>p q. s = p @ TrimSpace s @ q"
proof -
  obtain p where p: "s = p @ trim_runes space_runes s"
    using trim_runes_suffix by blast
  obtain q where "rev (trim_runes space_runes s) =
      q @ trim_runes (map rev space_runes) (rev (trim_runes space_runes s))"
    using trim_runes_suffix by blast
  then have "trim_runes space_runes s = TrimSpace s @ rev q"
    unfolding TrimSpace_def by (metis rev_append rev_rev_ident)
  with p show ?thesis by metis
qed

lemma TrimSpace_Nil [simp]: "TrimSpace [] = []"
  using TrimSpace_infix [of "[]"] by simp

section \<open>strconv.ParseBool\<close>

definition ParseBool :: "string \<Rightarrow> bool option" where
  "ParseBool s =
     (if s \<in> set [''1'', ''t'', ''T'', ''true'', ''TRUE'', ''True''] then Some True
      else if s \<in> set [''0'', ''f'', ''F'', ''false'', ''FALSE'', ''False''] then Some False
      else None)"

section \<open>path/filepath on a slash-separated system\<close>

text \<open>
  \<open>filepath.Clean\<close>: empty and \<open>.\<close> elements go, \<open>..\<close> removes the element before it
  (nothing at the root of a rooted path, itself in a relative path that has nothing left).
\<close>

fun clean_step :: "bool \<Rightarrow> string list \<Rightarrow> string \<Rightarrow> string list" where
  "clean_step rooted acc e =
     (if e = [] \<or> e = ''.'' then acc
      else if e = ''..'' then
        (case acc of
           [] \<Rightarrow> if rooted then [] else [''..'']
         | a # as \<Rightarrow> if a = ''..'' then ''..'' # acc else as)
      else e # acc)"

definition Clean :: "string \<Rightarrow> string" where
  "Clean path =
     (let rooted = HasPrefix path ''/'';
          es = rev (foldl (clean_step rooted) [] (Split (CHR ''/'') path));
          out = (if rooted then ''/'' else []) @ Join ''/'' es
      in if out = [] then ''.'' else out)"

definition filepath_Join :: "string list \<Rightarrow> string" where
  "filepath_Join es =
     (case dropWhile (\<lambda>e. e = []) es of [] \<Rightarrow> [] | e # es' \<Rightarrow> Clean (Join ''/'' (e # es')))"

text \<open>A path element that \<open>Clean\<close> keeps as it is.\<close>

definition plain_elem :: "string \<Rightarrow> bool" where
  "plain_elem e \<longleftrightarrow> e \<noteq> [] \<and> e \<noteq> ''.'' \<and> e \<noteq> ''..'' \<and> CHR ''/'' \<notin> set e"

lemma foldl_clean_plain:
  "list_all plain_elem es \<Longrightarrow> foldl (clean_step rooted) acc es = rev es @ acc"
  by (induction es arbitrary: acc) (auto simp: plain_elem_def)

text \<open>\<open>Clean\<close> is the identity on relative paths of plain elements, so joining them only
  puts slashes between them.\<close>

lemma Clean_plain:
  assumes "es \<noteq> []" and "list_all plain_elem es"
  shows "Clean (Join ''/'' es) = Join ''/'' es"
proof -
  have "\<forall>e \<in> set es. CHR ''/'' \<notin> set e"
    using assms(2) by (auto simp: list_all_iff plain_elem_def)
  then have split: "Split (CHR ''/'') (Join ''/'' es) = es"
    using assms(1) by (rule Split_Join [rotated])
  obtain e es' where es: "es = e # es'" using assms(1) by (cases es) auto
  with assms(2) have e: "plain_elem e" by simp
  obtain x xs where x: "e = x # xs" "x \<noteq> CHR ''/''"
    using e by (cases e) (auto simp: plain_elem_def)
  have "\<exists>ys. Join ''/'' es = x # ys" using es x by (cases es') auto
  then have "\<not> HasPrefix (Join ''/'' es) ''/''" and "Join ''/'' es \<noteq> []"
    using x(2) by (auto simp: HasPrefix_def)
  then show ?thesis
    using assms(2) by (simp add: Clean_def Let_def split foldl_clean_plain)
qed

end
