(* ===== verification/React_Core.thy ===== *)
theory React_Core
  imports Go_Prelude
begin

text \<open>
  The Go bindings of React (\<^verbatim>\<open>myitcv.io/react\<close>: \<open>react.go\<close>, \<open>custom_elements.go\<close>,
  \<open>gen_react_cssGen.go\<close>): elements, style objects, the props every HTML element shares,
  and the life of a component instance. An element is what \<open>React.createElement\<close> was given;
  the type parameter \<open>'h\<close> is the type of event handlers and \<open>'c\<close> the type of
  component elements (a component class together with its props).
\<close>

section \<open>Elements\<close>

datatype elem_type = Tag string | FragmentSymbol

datatype 'h jsval =
    JBool bool
  | JString string
  | JNull
  | JObject "string jsobj"
  | JFunc 'h

datatype (dead 'h, 'c) element =
    S string
  | Elem elem_type "'h jsval jsobj option" "('h, 'c) element list"
  | Comp 'c

definition createElement ::
  "elem_type \<Rightarrow> 'h jsval jsobj option \<Rightarrow> ('h, 'c) element list \<Rightarrow> ('h, 'c) element" where
  "createElement t props children = Elem t props children"

definition Fragment :: "('h, 'c) element list \<Rightarrow> ('h, 'c) element" where
  "Fragment children = createElement FragmentSymbol None children"

definition NewDangerousInnerHTML :: "string \<Rightarrow> string jsobj" where
  "NewDangerousInnerHTML s = obj_set ''__html'' s []"

section \<open>Styles\<close>

record CSS =
  Float :: string
  FontSize :: string
  FontStyle :: string
  Height :: string
  Left :: string
  MarginTop :: string
  MaxHeight :: string
  MinHeight :: string
  Overflow :: string
  OverflowY :: string
  Position :: string
  Resize :: string
  Top :: string
  Width :: string
  ZIndex :: string

definition new_CSS :: CSS where
  "new_CSS = \<lparr>Float = [], FontSize = [], FontStyle = [], Height = [], Left = [], MarginTop = [],
     MaxHeight = [], MinHeight = [], Overflow = [], OverflowY = [], Position = [], Resize = [],
     Top = [], Width = [], ZIndex = []\<rparr>"

definition hack :: "CSS option \<Rightarrow> 'h jsval" where
  "hack c =
     (case c of
        None \<Rightarrow> JNull
      | Some c \<Rightarrow> JObject
          (obj_set ''zIndex'' (ZIndex c)
          (obj_set ''width'' (Width c)
          (obj_set ''top'' (Top c)
          (obj_set ''resize'' (Resize c)
          (obj_set ''position'' (Position c)
          (obj_set ''overflowY'' (OverflowY c)
          (obj_set ''overflow'' (Overflow c)
          (obj_set ''minHeight'' (MinHeight c)
          (obj_set ''maxHeight'' (MaxHeight c)
          (obj_set ''marginTop'' (MarginTop c)
          (obj_set ''left'' (Left c)
          (obj_set ''height'' (Height c)
          (obj_set ''fontStyle'' (FontStyle c)
          (obj_set ''fontSize'' (FontSize c)
          (obj_set ''float'' (Float c) []))))))))))))))))"

section \<open>The props every HTML element has\<close>

record 'h ElemProps =
  AriaExpanded :: bool
  AriaHasPopup :: bool
  AriaLabelledBy :: string
  ClassName :: string
  DangerouslySetInnerHTML :: "string jsobj option"
  DataSet :: "(string \<times> string) list option"
  ID :: string
  Key :: string
  OnChange :: "'h option"
  OnClick :: "'h option"
  Ref :: "'h option"
  Role :: string
  Style :: "CSS option"

definition new_ElemProps :: "'h ElemProps" where
  "new_ElemProps = \<lparr>AriaExpanded = False, AriaHasPopup = False, AriaLabelledBy = [], ClassName = [],
     DangerouslySetInnerHTML = None, DataSet = None, ID = [], Key = [], OnChange = None,
     OnClick = None, Ref = None, Role = [], Style = None\<rparr>"

fun set_data :: "(string \<times> string) list \<Rightarrow> 'h jsval jsobj \<Rightarrow> 'h jsval jsobj" where
  "set_data [] o1 = o1"
| "set_data ((dk, dv) # ds) o1 = set_data ds (obj_set (''data-'' @ dk) (JString dv) o1)"

definition set_nonempty :: "string \<Rightarrow> string \<Rightarrow> 'h jsval jsobj \<Rightarrow> 'h jsval jsobj" where
  "set_nonempty k v o1 = (if v \<noteq> [] then obj_set k (JString v) o1 else o1)"

definition set_handler :: "string \<Rightarrow> 'h option \<Rightarrow> 'h jsval jsobj \<Rightarrow> 'h jsval jsobj" where
  "set_handler k v o1 = (case v of Some f \<Rightarrow> obj_set k (JFunc f) o1 | None \<Rightarrow> o1)"

text \<open>
  The assignments every element function makes to its props object, in the order of the
  code (the element's own attributes are set between them, under keys of their own).
\<close>

definition set_html_props :: "('h, 'z) ElemProps_scheme \<Rightarrow> 'h jsval jsobj \<Rightarrow> 'h jsval jsobj" where
  "set_html_props p o0 =
     (let o1 = obj_set ''aria-expanded'' (JBool (AriaExpanded p)) o0;
          o2 = obj_set ''aria-haspopup'' (JBool (AriaHasPopup p)) o1;
          o3 = obj_set ''aria-labelledby'' (JString (AriaLabelledBy p)) o2;
          o4 = obj_set ''className'' (JString (ClassName p)) o3;
          o5 = obj_set ''dangerouslySetInnerHTML''
                 (case DangerouslySetInnerHTML p of None \<Rightarrow> JNull | Some d \<Rightarrow> JObject d) o4;
          o6 = (case DataSet p of None \<Rightarrow> o5 | Some ds \<Rightarrow> set_data ds o5);
          o7 = set_nonempty ''id'' (ID p) o6;
          o8 = set_nonempty ''key'' (Key p) o7;
          o9 = set_handler ''onChange'' (OnChange p) o8;
          o10 = set_handler ''onClick'' (OnClick p) o9;
          o11 = set_handler ''ref'' (Ref p) o10;
          o12 = obj_set ''role'' (JString (Role p)) o11
      in obj_set ''style'' (hack (Style p)) o12)"

text \<open>An element function applied to \<open>nil\<close> props sets nothing; to props, the shared ones and
  then the element's own.\<close>

definition rprops_of ::
  "('p \<Rightarrow> 'h jsval jsobj \<Rightarrow> 'h jsval jsobj) \<Rightarrow> 'p option \<Rightarrow> 'h jsval jsobj option" where
  "rprops_of setp props = Some (case props of None \<Rightarrow> [] | Some p \<Rightarrow> setp p [])"

lemma obj_get_set_data_other:
  "\<not> (\<exists>d. k = ''data-'' @ d) \<Longrightarrow> obj_get (set_data ds o1) k = obj_get o1 k"
  by (induction ds o1 rule: set_data.induct) auto

lemma obj_get_set_data:
  "distinct (map fst ds) \<Longrightarrow>
   obj_get (set_data ds o1) (''data-'' @ d) =
     (case map_of ds d of Some v \<Rightarrow> Some (JString v) | None \<Rightarrow> obj_get o1 (''data-'' @ d))"
proof (induction ds o1 rule: set_data.induct)
  case (2 dk dv ds o1)
  then have fresh: "map_of ds dk = None" and IH: "obj_get (set_data ds
      (obj_set (''data-'' @ dk) (JString dv) o1)) (''data-'' @ d) =
      (case map_of ds d of Some v \<Rightarrow> Some (JString v)
       | None \<Rightarrow> obj_get (obj_set (''data-'' @ dk) (JString dv) o1) (''data-'' @ d))"
    by (simp_all add: map_of_eq_None_iff)
  then show ?case by (cases "d = dk") (simp_all split: option.splits)
qed simp

lemma obj_get_set_nonempty:
  "obj_get (set_nonempty k v o1) k' =
     (if k' = k \<and> v \<noteq> [] then Some (JString v) else obj_get o1 k')"
  by (simp add: set_nonempty_def)

lemma obj_get_set_handler:
  "obj_get (set_handler k v o1) k' =
     (case v of Some f \<Rightarrow> if k' = k then Some (JFunc f) else obj_get o1 k' | None \<Rightarrow> obj_get o1 k')"
  by (simp add: set_handler_def split: option.splits)

lemmas obj_get_simps = obj_get_set_data_other obj_get_set_nonempty obj_get_set_handler

lemma set_html_props_plain_keys:
  assumes "\<And>d. k \<noteq> ''data-'' @ d"
  shows "obj_get (set_html_props p o1) k =
    (if k = ''style'' then Some (hack (Style p))
     else if k = ''role'' then Some (JString (Role p))
     else if k = ''ref'' \<and> Ref p \<noteq> None then map_option JFunc (Ref p)
     else if k = ''onClick'' \<and> OnClick p \<noteq> None then map_option JFunc (OnClick p)
     else if k = ''onChange'' \<and> OnChange p \<noteq> None then map_option JFunc (OnChange p)
     else if k = ''key'' \<and> Key p \<noteq> [] then Some (JString (Key p))
     else if k = ''id'' \<and> ID p \<noteq> [] then Some (JString (ID p))
     else if k = ''dangerouslySetInnerHTML'' then
       Some (case DangerouslySetInnerHTML p of None \<Rightarrow> JNull | Some d \<Rightarrow> JObject d)
     else if k = ''className'' then Some (JString (ClassName p))
     else if k = ''aria-labelledby'' then Some (JString (AriaLabelledBy p))
     else if k = ''aria-haspopup'' then Some (JBool (AriaHasPopup p))
     else if k = ''aria-expanded'' then Some (JBool (AriaExpanded p))
     else obj_get o1 k)"
  using assms
  by (simp add: set_html_props_def Let_def obj_get_simps split: option.split)

text \<open>The click handler of the props object is the one of the props.\<close>

lemma set_html_props_onClick:
  "obj_get (set_html_props p o1) ''onClick'' =
     (case OnClick p of Some f \<Rightarrow> Some (JFunc f) | None \<Rightarrow> obj_get o1 ''onClick'')"
  by (subst set_html_props_plain_keys) (simp_all split: option.split)

section \<open>Component classes\<close>

text \<open>
  \<open>CreateElement\<close> keeps one React class per Go component type in \<open>compMap\<close> and builds
  it on first use; a class is identified by its position among the classes created.
\<close>

record react_state =
  compMap :: "(string \<times> nat) list"
  classes :: "string list"

definition buildReactComponent :: "string \<Rightarrow> react_state \<Rightarrow> nat \<times> react_state" where
  "buildReactComponent typ rs = (length (classes rs), rs\<lparr>classes := classes rs @ [typ]\<rparr>)"

definition component_class :: "string \<Rightarrow> react_state \<Rightarrow> nat \<times> react_state" where
  "component_class typ rs =
     (case map_of (compMap rs) typ of
        Some c \<Rightarrow> (c, rs)
      | None \<Rightarrow> (case buildReactComponent typ rs of
                   (c, rs') \<Rightarrow> (c, rs'\<lparr>compMap := AList.update typ c (compMap rs')\<rparr>)))"

text \<open>\<open>compMap\<close> and the created classes agree.\<close>

definition comp_inv :: "react_state \<Rightarrow> bool" where
  "comp_inv rs \<longleftrightarrow> distinct (classes rs) \<and>
     (\<forall>typ c. map_of (compMap rs) typ = Some c \<longleftrightarrow> c < length (classes rs) \<and> classes rs ! c = typ)"

lemma comp_inv_init: "comp_inv \<lparr>compMap = [], classes = []\<rparr>"
  by (simp add: comp_inv_def)

lemma comp_inv_lookup:
  "comp_inv rs \<Longrightarrow> map_of (compMap rs) typ = None \<Longrightarrow> typ \<notin> set (classes rs)"
  unfolding comp_inv_def in_set_conv_nth by (metis option.distinct(1))

lemma component_class_inv:
  assumes inv: "comp_inv rs" and step: "component_class typ rs = (c, rs')"
  shows "comp_inv rs'" and "map_of (compMap rs') typ = Some c"
    and "\<And>t d. map_of (compMap rs) t = Some d \<Longrightarrow> map_of (compMap rs') t = Some d"
proof -
  have "comp_inv rs' \<and> map_of (compMap rs') typ = Some c \<and>
    (\<forall>t d. map_of (compMap rs) t = Some d \<longrightarrow> map_of (compMap rs') t = Some d)"
  proof (cases "map_of (compMap rs) typ")
    case None
    with inv have fresh: "typ \<notin> set (classes rs)" by (rule comp_inv_lookup)
    from None step have c: "c = length (classes rs)" and
      rs': "rs' = rs\<lparr>classes := classes rs @ [typ], compMap := AList.update typ c (compMap rs)\<rparr>"
      by (auto simp: component_class_def buildReactComponent_def)
    have "map_of (compMap rs') t = Some d \<longleftrightarrow> d < length (classes rs') \<and> classes rs' ! d = t" for t d
      using inv fresh None unfolding comp_inv_def rs' c
      by (auto simp: update_conv nth_append less_Suc_eq in_set_conv_nth)
    moreover have "distinct (classes rs')"
      using inv fresh by (simp add: rs' comp_inv_def)
    ultimately have "comp_inv rs'" by (simp add: comp_inv_def)
    then show ?thesis using None by (auto simp: rs' update_conv)
  next
    case (Some d)
    with step inv show ?thesis by (auto simp: component_class_def)
  qed
  then show "comp_inv rs'" and "map_of (compMap rs') typ = Some c"
    and "\<And>t d. map_of (compMap rs) t = Some d \<Longrightarrow> map_of (compMap rs') t = Some d"
    by auto
qed

section \<open>Component instances\<close>

text \<open>
  The JavaScript object behind a \<open>ComponentDef\<close>: \<open>js_props\<close> is the \<open>_props\<close> entry
  of its \<open>props\<close> (\<open>None\<close> when the element was created without props), \<open>lastState\<close>
  the \<open>__lastState\<close> entry of \<open>state._state\<close> (\<open>None\<close> when the component has no state).
\<close>

record ('p, 's) js_inst =
  js_props :: "'p option"
  lastState :: "'s option"

definition getInitialState :: "'s option \<Rightarrow> 'p option \<Rightarrow> ('p, 's) js_inst" where
  "getInitialState init props = \<lparr>js_props = props, lastState = init\<rparr>"

definition comp_Props :: "('p, 's) js_inst \<Rightarrow> 'p go" where
  "comp_Props c = (case js_props c of None \<Rightarrow> Inl NilDereference | Some p \<Rightarrow> Inr p)"

definition comp_State :: "('p, 's) js_inst \<Rightarrow> 's go" where
  "comp_State c = (case lastState c of None \<Rightarrow> Inl NilDereference | Some s \<Rightarrow> Inr s)"

text \<open>\<open>SetState\<close> compares with \<open>EqualsIntf\<close>; the second component of the result says
  whether \<open>forceUpdate\<close> was called.\<close>

definition comp_SetState ::
  "('s \<Rightarrow> 's \<Rightarrow> bool) \<Rightarrow> 's \<Rightarrow> ('p, 's) js_inst \<Rightarrow> (('p, 's) js_inst \<times> bool) go" where
  "comp_SetState equals i c =
     (case lastState c of
        None \<Rightarrow> Inl NilDereference
      | Some cur \<Rightarrow> if equals i cur then Inr (c, False)
                    else Inr (c\<lparr>lastState := Some i\<rparr>, True))"

definition shouldComponentUpdate ::
  "('p \<Rightarrow> 'p \<Rightarrow> bool) \<Rightarrow> ('p, 's) js_inst \<Rightarrow> 'p option \<Rightarrow> bool go" where
  "shouldComponentUpdate equals this next =
     (case js_props this of
        None \<Rightarrow> Inr False
      | Some curProps \<Rightarrow>
          (case next of
             None \<Rightarrow> Inl TypeAssertion
           | Some nextProps \<Rightarrow> Inr (\<not> equals curProps nextProps)))"

text \<open>
  React's side of an update: a forced update always renders, any other asks
  \<open>shouldComponentUpdate\<close>; either way the instance takes the new props.
\<close>

definition updateClassInstance ::
  "('p \<Rightarrow> 'p \<Rightarrow> bool) \<Rightarrow> bool \<Rightarrow> 'p option \<Rightarrow> ('p, 's) js_inst \<Rightarrow> (bool \<times> ('p, 's) js_inst) go" where
  "updateClassInstance equals forced next c =
     go_bind (if forced then Inr True else shouldComponentUpdate equals c next)
       (\<lambda>su. Inr (su, c\<lparr>js_props := next\<rparr>))"

section \<open>What the binding promises\<close>

text \<open>C26. However often components are created, in whatever order, every component type has exactly
  one React class, the same for all its elements; so React can match an element with the
  instance that is there already.\<close>

theorem one_class_per_type:
  assumes "fold (\<lambda>typ rs. snd (component_class typ rs)) typs \<lparr>compMap = [], classes = []\<rparr> = rs"
    and "typ \<in> set typs"
  shows "distinct (classes rs) \<and>
    (\<exists>c < length (classes rs). classes rs ! c = typ \<and> component_class typ rs = (c, rs))"
proof -
  have keep: "comp_inv (fold (\<lambda>typ rs. snd (component_class typ rs)) ts rs0) \<and>
      (\<forall>t. t \<in> set ts \<or> map_of (compMap rs0) t \<noteq> None \<longrightarrow>
        map_of (compMap (fold (\<lambda>typ rs. snd (component_class typ rs)) ts rs0)) t \<noteq> None)"
    if "comp_inv rs0" for ts rs0
    using that
  proof (induction ts arbitrary: rs0)
    case (Cons t ts)
    obtain c rs1 where c: "component_class t rs0 = (c, rs1)" by (cases "component_class t rs0")
    note inv = component_class_inv [OF Cons.prems c]
    from Cons.IH [OF inv(1)] inv(2,3) c show ?case by fastforce
  qed simp
  from keep [OF comp_inv_init, of typs] assms obtain c where
    rs: "comp_inv rs" and c: "map_of (compMap rs) typ = Some c" by fastforce
  then have "component_class typ rs = (c, rs)" by (simp add: component_class_def)
  with rs c show ?thesis by (auto simp: comp_inv_def)
qed

theorem one_class_per_type_witness:
  "\<exists>c. component_class ''PanelDef''
     (fold (\<lambda>typ rs. snd (component_class typ rs)) [''OuterDef'', ''PanelDef'', ''PanelDef''] \<lparr>compMap = [], classes = []\<rparr>) =
     (c, fold (\<lambda>typ rs. snd (component_class typ rs)) [''OuterDef'', ''PanelDef'', ''PanelDef''] \<lparr>compMap = [], classes = []\<rparr>)"
  using one_class_per_type [OF refl, of "''PanelDef''" "[''OuterDef'', ''PanelDef'', ''PanelDef'']"] by auto

end
