(* ===== verification/React_Elements.thy ===== *)
theory React_Elements
  imports React_Core
begin

text \<open>
  \<^verbatim>\<open>myitcv.io/react/gen_react_coreGen.go\<close>: one function per HTML element. Each takes
  \<open>nil\<close> or the element's props, fills a JavaScript object with the shared props
  (\<open>set_html_props\<close>) and the element's own attributes, and calls \<open>createElement\<close>.
  The own attributes have keys of their own, so the order of the assignments does not matter
  for the object that results.
\<close>

section \<open>Props with attributes of their own\<close>

record 'h AProps = "'h ElemProps" +
  Href :: string
  Target :: string
  Title :: string

definition new_AProps :: "'h AProps" where
  "new_AProps = \<lparr>AriaExpanded = False, AriaHasPopup = False, AriaLabelledBy = [], ClassName = [],
     DangerouslySetInnerHTML = None, DataSet = None, ID = [], Key = [], OnChange = None,
     OnClick = None, Ref = None, Role = [], Style = None,
     Href = [], Target = [], Title = []\<rparr>"

definition set_AProps :: "'h AProps \<Rightarrow> 'h jsval jsobj \<Rightarrow> 'h jsval jsobj" where
  "set_AProps p o1 = obj_set ''title'' (JString (AProps.Title p)) (obj_set ''target'' (JString (AProps.Target p)) (obj_set ''href'' (JString (AProps.Href p)) (set_html_props p o1)))"

record 'h ButtonProps = "'h ElemProps" +
  Type :: string

definition new_ButtonProps :: "'h ButtonProps" where
  "new_ButtonProps = \<lparr>AriaExpanded = False, AriaHasPopup = False, AriaLabelledBy = [], ClassName = [],
     DangerouslySetInnerHTML = None, DataSet = None, ID = [], Key = [], OnChange = None,
     OnClick = None, Ref = None, Role = [], Style = None,
     Type = []\<rparr>"

definition set_ButtonProps :: "'h ButtonProps \<Rightarrow> 'h jsval jsobj \<Rightarrow> 'h jsval jsobj" where
  "set_ButtonProps p o1 = obj_set ''type'' (JString (ButtonProps.Type p)) (set_html_props p o1)"

record 'h IFrameProps = "'h ElemProps" +
  SrcDoc :: string

definition new_IFrameProps :: "'h IFrameProps" where
  "new_IFrameProps = \<lparr>AriaExpanded = False, AriaHasPopup = False, AriaLabelledBy = [], ClassName = [],
     DangerouslySetInnerHTML = None, DataSet = None, ID = [], Key = [], OnChange = None,
     OnClick = None, Ref = None, Role = [], Style = None,
     SrcDoc = []\<rparr>"

definition set_IFrameProps :: "'h IFrameProps \<Rightarrow> 'h jsval jsobj \<Rightarrow> 'h jsval jsobj" where
  "set_IFrameProps p o1 = obj_set ''srcDoc'' (JString (IFrameProps.SrcDoc p)) (set_html_props p o1)"

record 'h ImgProps = "'h ElemProps" +
  Alt :: string
  Src :: string

definition new_ImgProps :: "'h ImgProps" where
  "new_ImgProps = \<lparr>AriaExpanded = False, AriaHasPopup = False, AriaLabelledBy = [], ClassName = [],
     DangerouslySetInnerHTML = None, DataSet = None, ID = [], Key = [], OnChange = None,
     OnClick = None, Ref = None, Role = [], Style = None,
     Alt = [], Src = []\<rparr>"

definition set_ImgProps :: "'h ImgProps \<Rightarrow> 'h jsval jsobj \<Rightarrow> 'h jsval jsobj" where
  "set_ImgProps p o1 = obj_set ''src'' (JString (ImgProps.Src p)) (obj_set ''alt'' (JString (ImgProps.Alt p)) (set_html_props p o1))"

record 'h InputProps = "'h ElemProps" +
  Placeholder :: string
  Type :: string
  Value :: string

definition new_InputProps :: "'h InputProps" where
  "new_InputProps = \<lparr>AriaExpanded = False, AriaHasPopup = False, AriaLabelledBy = [], ClassName = [],
     DangerouslySetInnerHTML = None, DataSet = None, ID = [], Key = [], OnChange = None,
     OnClick = None, Ref = None, Role = [], Style = None,
     Placeholder = [], Type = [], Value = []\<rparr>"

definition set_InputProps :: "'h InputProps \<Rightarrow> 'h jsval jsobj \<Rightarrow> 'h jsval jsobj" where
  "set_InputProps p o1 = obj_set ''value'' (JString (InputProps.Value p)) (obj_set ''type'' (JString (InputProps.Type p)) (obj_set ''placeholder'' (JString (InputProps.Placeholder p)) (set_html_props p o1)))"

record 'h LabelProps = "'h ElemProps" +
  For :: string

definition new_LabelProps :: "'h LabelProps" where
  "new_LabelProps = \<lparr>AriaExpanded = False, AriaHasPopup = False, AriaLabelledBy = [], ClassName = [],
     DangerouslySetInnerHTML = None, DataSet = None, ID = [], Key = [], OnChange = None,
     OnClick = None, Ref = None, Role = [], Style = None,
     For = []\<rparr>"

definition set_LabelProps :: "'h LabelProps \<Rightarrow> 'h jsval jsobj \<Rightarrow> 'h jsval jsobj" where
  "set_LabelProps p o1 = obj_set ''htmlFor'' (JString (LabelProps.For p)) (set_html_props p o1)"

record 'h OptionProps = "'h ElemProps" +
  Value :: string

definition new_OptionProps :: "'h OptionProps" where
  "new_OptionProps = \<lparr>AriaExpanded = False, AriaHasPopup = False, AriaLabelledBy = [], ClassName = [],
     DangerouslySetInnerHTML = None, DataSet = None, ID = [], Key = [], OnChange = None,
     OnClick = None, Ref = None, Role = [], Style = None,
     Value = []\<rparr>"

definition set_OptionProps :: "'h OptionProps \<Rightarrow> 'h jsval jsobj \<Rightarrow> 'h jsval jsobj" where
  "set_OptionProps p o1 = obj_set ''value'' (JString (OptionProps.Value p)) (set_html_props p o1)"

record 'h SelectProps = "'h ElemProps" +
  Value :: string

definition new_SelectProps :: "'h SelectProps" where
  "new_SelectProps = \<lparr>AriaExpanded = False, AriaHasPopup = False, AriaLabelledBy = [], ClassName = [],
     DangerouslySetInnerHTML = None, DataSet = None, ID = [], Key = [], OnChange = None,
     OnClick = None, Ref = None, Role = [], Style = None,
     Value = []\<rparr>"

definition set_SelectProps :: "'h SelectProps \<Rightarrow> 'h jsval jsobj \<Rightarrow> 'h jsval jsobj" where
  "set_SelectProps p o1 = obj_set ''value'' (JString (SelectProps.Value p)) (set_html_props p o1)"

record 'h TextAreaProps = "'h ElemProps" +
  Placeholder :: string
  Value :: string

definition new_TextAreaProps :: "'h TextAreaProps" where
  "new_TextAreaProps = \<lparr>AriaExpanded = False, AriaHasPopup = False, AriaLabelledBy = [], ClassName = [],
     DangerouslySetInnerHTML = None, DataSet = None, ID = [], Key = [], OnChange = None,
     OnClick = None, Ref = None, Role = [], Style = None,
     Placeholder = [], Value = []\<rparr>"

definition set_TextAreaProps :: "'h TextAreaProps \<Rightarrow> 'h jsval jsobj \<Rightarrow> 'h jsval jsobj" where
  "set_TextAreaProps p o1 = obj_set ''value'' (JString (TextAreaProps.Value p)) (obj_set ''placeholder'' (JString (TextAreaProps.Placeholder p)) (set_html_props p o1))"

section \<open>The element functions\<close>

definition react_A :: "'h AProps option \<Rightarrow> ('h, 'c) element list \<Rightarrow> ('h, 'c) element" where
  "react_A props children = createElement (Tag ''a'') (rprops_of set_AProps props) children"

definition react_Abbr :: "'h ElemProps option \<Rightarrow> ('h, 'c) element list \<Rightarrow> ('h, 'c) element" where
  "react_Abbr props children = createElement (Tag ''abbr'') (rprops_of set_html_props props) children"

definition react_Article :: "'h ElemProps option \<Rightarrow> ('h, 'c) element list \<Rightarrow> ('h, 'c) element" where
  "react_Article props children = createElement (Tag ''article'') (rprops_of set_html_props props) children"

definition react_Aside :: "'h ElemProps option \<Rightarrow> ('h, 'c) element list \<Rightarrow> ('h, 'c) element" where
  "react_Aside props children = createElement (Tag ''aside'') (rprops_of set_html_props props) children"

definition react_B :: "'h ElemProps option \<Rightarrow> ('h, 'c) element list \<Rightarrow> ('h, 'c) element" where
  "react_B props children = createElement (Tag ''b'') (rprops_of set_html_props props) children"

definition react_Br :: "'h ElemProps option \<Rightarrow> ('h, 'c) element list \<Rightarrow> ('h, 'c) element" where
  "react_Br props children = createElement (Tag ''br'') (rprops_of set_html_props props) children"

definition react_Button :: "'h ButtonProps option \<Rightarrow> ('h, 'c) element list \<Rightarrow> ('h, 'c) element" where
  "react_Button props children = createElement (Tag ''button'') (rprops_of set_ButtonProps props) children"

definition react_Caption :: "'h ElemProps option \<Rightarrow> ('h, 'c) element list \<Rightarrow> ('h, 'c) element" where
  "react_Caption props children = createElement (Tag ''caption'') (rprops_of set_html_props props) children"

definition react_Code :: "'h ElemProps option \<Rightarrow> ('h, 'c) element list \<Rightarrow> ('h, 'c) element" where
  "react_Code props children = createElement (Tag ''code'') (rprops_of set_html_props props) children"

definition react_Div :: "'h ElemProps option \<Rightarrow> ('h, 'c) element list \<Rightarrow> ('h, 'c) element" where
  "react_Div props children = createElement (Tag ''div'') (rprops_of set_html_props props) children"

definition react_Em :: "'h ElemProps option \<Rightarrow> ('h, 'c) element list \<Rightarrow> ('h, 'c) element" where
  "react_Em props children = createElement (Tag ''em'') (rprops_of set_html_props props) children"

definition react_Footer :: "'h ElemProps option \<Rightarrow> ('h, 'c) element list \<Rightarrow> ('h, 'c) element" where
  "react_Footer props children = createElement (Tag ''footer'') (rprops_of set_html_props props) children"

definition react_Form :: "'h ElemProps option \<Rightarrow> ('h, 'c) element list \<Rightarrow> ('h, 'c) element" where
  "react_Form props children = createElement (Tag ''form'') (rprops_of set_html_props props) children"

definition react_H1 :: "'h ElemProps option \<Rightarrow> ('h, 'c) element list \<Rightarrow> ('h, 'c) element" where
  "react_H1 props children = createElement (Tag ''h1'') (rprops_of set_html_props props) children"

definition react_H2 :: "'h ElemProps option \<Rightarrow> ('h, 'c) element list \<Rightarrow> ('h, 'c) element" where
  "react_H2 props children = createElement (Tag ''h2'') (rprops_of set_html_props props) children"

definition react_H3 :: "'h ElemProps option \<Rightarrow> ('h, 'c) element list \<Rightarrow> ('h, 'c) element" where
  "react_H3 props children = createElement (Tag ''h3'') (rprops_of set_html_props props) children"

definition react_H4 :: "'h ElemProps option \<Rightarrow> ('h, 'c) element list \<Rightarrow> ('h, 'c) element" where
  "react_H4 props children = createElement (Tag ''h4'') (rprops_of set_html_props props) children"

definition react_H5 :: "'h ElemProps option \<Rightarrow> ('h, 'c) element list \<Rightarrow> ('h, 'c) element" where
  "react_H5 props children = createElement (Tag ''h5'') (rprops_of set_html_props props) children"

definition react_H6 :: "'h ElemProps option \<Rightarrow> ('h, 'c) element list \<Rightarrow> ('h, 'c) element" where
  "react_H6 props children = createElement (Tag ''h6'') (rprops_of set_html_props props) children"

definition react_Header :: "'h ElemProps option \<Rightarrow> ('h, 'c) element list \<Rightarrow> ('h, 'c) element" where
  "react_Header props children = createElement (Tag ''header'') (rprops_of set_html_props props) children"

definition react_Hr :: "'h ElemProps option \<Rightarrow> ('h, 'c) element" where
  "react_Hr props = createElement (Tag ''hr'') (rprops_of set_html_props props) []"

definition react_I :: "'h ElemProps option \<Rightarrow> ('h, 'c) element list \<Rightarrow> ('h, 'c) element" where
  "react_I props children = createElement (Tag ''i'') (rprops_of set_html_props props) children"

definition react_IFrame :: "'h IFrameProps option \<Rightarrow> ('h, 'c) element list \<Rightarrow> ('h, 'c) element" where
  "react_IFrame props children = createElement (Tag ''iframe'') (rprops_of set_IFrameProps props) children"

definition react_Img :: "'h ImgProps option \<Rightarrow> ('h, 'c) element list \<Rightarrow> ('h, 'c) element" where
  "react_Img props children = createElement (Tag ''img'') (rprops_of set_ImgProps props) children"

definition react_Input :: "'h InputProps option \<Rightarrow> ('h, 'c) element list \<Rightarrow> ('h, 'c) element" where
  "react_Input props children = createElement (Tag ''input'') (rprops_of set_InputProps props) children"

definition react_Label :: "'h LabelProps option \<Rightarrow> ('h, 'c) element list \<Rightarrow> ('h, 'c) element" where
  "react_Label props children = createElement (Tag ''label'') (rprops_of set_LabelProps props) children"

definition react_Li :: "'h ElemProps option \<Rightarrow> ('h, 'c) element list \<Rightarrow> ('h, 'c) element" where
  "react_Li props children = createElement (Tag ''li'') (rprops_of set_html_props props) children"

definition react_Main :: "'h ElemProps option \<Rightarrow> ('h, 'c) element list \<Rightarrow> ('h, 'c) element" where
  "react_Main props children = createElement (Tag ''main'') (rprops_of set_html_props props) children"

definition react_Nav :: "'h ElemProps option \<Rightarrow> ('h, 'c) element list \<Rightarrow> ('h, 'c) element" where
  "react_Nav props children = createElement (Tag ''nav'') (rprops_of set_html_props props) children"

definition react_Option :: "'h OptionProps option \<Rightarrow> ('h, 'c) element list \<Rightarrow> ('h, 'c) element" where
  "react_Option props children = createElement (Tag ''option'') (rprops_of set_OptionProps props) children"

definition react_P :: "'h ElemProps option \<Rightarrow> ('h, 'c) element list \<Rightarrow> ('h, 'c) element" where
  "react_P props children = createElement (Tag ''p'') (rprops_of set_html_props props) children"

definition react_Pre :: "'h ElemProps option \<Rightarrow> ('h, 'c) element list \<Rightarrow> ('h, 'c) element" where
  "react_Pre props children = createElement (Tag ''pre'') (rprops_of set_html_props props) children"

definition react_Select :: "'h SelectProps option \<Rightarrow> ('h, 'c) element list \<Rightarrow> ('h, 'c) element" where
  "react_Select props children = createElement (Tag ''select'') (rprops_of set_SelectProps props) children"

definition react_Span :: "'h ElemProps option \<Rightarrow> ('h, 'c) element list \<Rightarrow> ('h, 'c) element" where
  "react_Span props children = createElement (Tag ''span'') (rprops_of set_html_props props) children"

definition react_Strike :: "'h ElemProps option \<Rightarrow> ('h, 'c) element list \<Rightarrow> ('h, 'c) element" where
  "react_Strike props children = createElement (Tag ''s'') (rprops_of set_html_props props) children"

definition react_Sup :: "'h ElemProps option \<Rightarrow> ('h, 'c) element list \<Rightarrow> ('h, 'c) element" where
  "react_Sup props children = createElement (Tag ''sup'') (rprops_of set_html_props props) children"

definition react_Table :: "'h ElemProps option \<Rightarrow> ('h, 'c) element list \<Rightarrow> ('h, 'c) element" where
  "react_Table props children = createElement (Tag ''table'') (rprops_of set_html_props props) children"

definition react_Tbody :: "'h ElemProps option \<Rightarrow> ('h, 'c) element list \<Rightarrow> ('h, 'c) element" where
  "react_Tbody props children = createElement (Tag ''tbody'') (rprops_of set_html_props props) children"

definition react_Td :: "'h ElemProps option \<Rightarrow> ('h, 'c) element list \<Rightarrow> ('h, 'c) element" where
  "react_Td props children = createElement (Tag ''td'') (rprops_of set_html_props props) children"

definition react_TextArea :: "'h TextAreaProps option \<Rightarrow> ('h, 'c) element list \<Rightarrow> ('h, 'c) element" where
  "react_TextArea props children = createElement (Tag ''textarea'') (rprops_of set_TextAreaProps props) children"

definition react_Th :: "'h ElemProps option \<Rightarrow> ('h, 'c) element list \<Rightarrow> ('h, 'c) element" where
  "react_Th props children = createElement (Tag ''th'') (rprops_of set_html_props props) children"

definition react_Thead :: "'h ElemProps option \<Rightarrow> ('h, 'c) element list \<Rightarrow> ('h, 'c) element" where
  "react_Thead props children = createElement (Tag ''thead'') (rprops_of set_html_props props) children"

definition react_Tr :: "'h ElemProps option \<Rightarrow> ('h, 'c) element list \<Rightarrow> ('h, 'c) element" where
  "react_Tr props children = createElement (Tag ''tr'') (rprops_of set_html_props props) children"

definition react_Ul :: "'h ElemProps option \<Rightarrow> ('h, 'c) element list \<Rightarrow> ('h, 'c) element" where
  "react_Ul props children = createElement (Tag ''ul'') (rprops_of set_html_props props) children"

lemmas react_elem_defs =
  react_A_def react_Abbr_def react_Article_def react_Aside_def
  react_B_def react_Br_def react_Button_def react_Caption_def
  react_Code_def react_Div_def react_Em_def react_Footer_def
  react_Form_def react_H1_def react_H2_def react_H3_def
  react_H4_def react_H5_def react_H6_def react_Header_def
  react_Hr_def react_I_def react_IFrame_def react_Img_def
  react_Input_def react_Label_def react_Li_def react_Main_def
  react_Nav_def react_Option_def react_P_def react_Pre_def
  react_Select_def react_Span_def react_Strike_def react_Sup_def
  react_Table_def react_Tbody_def react_Td_def react_TextArea_def
  react_Th_def react_Thead_def react_Tr_def react_Ul_def

lemmas set_props_defs =
  set_AProps_def set_ButtonProps_def set_IFrameProps_def set_ImgProps_def
  set_InputProps_def set_LabelProps_def set_OptionProps_def set_SelectProps_def
  set_TextAreaProps_def

text \<open>The attributes of their own leave the click handler alone.\<close>

lemma set_props_onClick:
  "obj_get (set_AProps p0 o1) ''onClick'' =
     (case OnClick p0 of Some f \<Rightarrow> Some (JFunc f) | None \<Rightarrow> obj_get o1 ''onClick'')"
  "obj_get (set_ButtonProps p1 o1) ''onClick'' =
     (case OnClick p1 of Some f \<Rightarrow> Some (JFunc f) | None \<Rightarrow> obj_get o1 ''onClick'')"
  "obj_get (set_IFrameProps p2 o1) ''onClick'' =
     (case OnClick p2 of Some f \<Rightarrow> Some (JFunc f) | None \<Rightarrow> obj_get o1 ''onClick'')"
  "obj_get (set_ImgProps p3 o1) ''onClick'' =
     (case OnClick p3 of Some f \<Rightarrow> Some (JFunc f) | None \<Rightarrow> obj_get o1 ''onClick'')"
  "obj_get (set_InputProps p4 o1) ''onClick'' =
     (case OnClick p4 of Some f \<Rightarrow> Some (JFunc f) | None \<Rightarrow> obj_get o1 ''onClick'')"
  "obj_get (set_LabelProps p5 o1) ''onClick'' =
     (case OnClick p5 of Some f \<Rightarrow> Some (JFunc f) | None \<Rightarrow> obj_get o1 ''onClick'')"
  "obj_get (set_OptionProps p6 o1) ''onClick'' =
     (case OnClick p6 of Some f \<Rightarrow> Some (JFunc f) | None \<Rightarrow> obj_get o1 ''onClick'')"
  "obj_get (set_SelectProps p7 o1) ''onClick'' =
     (case OnClick p7 of Some f \<Rightarrow> Some (JFunc f) | None \<Rightarrow> obj_get o1 ''onClick'')"
  "obj_get (set_TextAreaProps p8 o1) ''onClick'' =
     (case OnClick p8 of Some f \<Rightarrow> Some (JFunc f) | None \<Rightarrow> obj_get o1 ''onClick'')"
  by (simp_all add: set_props_defs set_html_props_onClick)

end
