(* ===== verification/Html_Atom.thy ===== *)
theory Html_Atom
  imports Go_Prelude "HOL-Library.Word"
begin

text \<open>
  \<^verbatim>\<open>golang.org/x/net/html/atom\<close>: integer codes for the strings that occur often in HTML.
  An atom packs the offset and the length of its name in \<open>atomText\<close>; \<open>Lookup\<close> finds
  the atom of a name in a table with two hash positions. The tables are those of
  \<^verbatim>\<open>table.go\<close>. The lemmas show that the packed table and the two probes together are
  the finite map from the names of the declared atoms to the atoms.
\<close>

unbundle bit_operations_syntax

section \<open>The tables\<close>

type_synonym Atom = "32 word"

definition hash0 :: "32 word" where
  "hash0 = 0x81cdf10e"

definition maxAtomLen :: nat where
  "maxAtomLen = 25"

text \<open>The atoms by the identifier they have in the Go source, in its order.\<close>

definition atoms_A1 :: "(string \<times> Atom) list" where
  "atoms_A1 =
     [(''A'', 0x1), (''Abbr'', 0x4), (''Accept'', 0x1a06), (''AcceptCharset'', 0x1a0e),
      (''Accesskey'', 0x2c09), (''Acronym'', 0xaa07), (''Action'', 0x27206), (''Address'', 0x6f307),
      (''Align'', 0xb105), (''Allowfullscreen'', 0x2080f), (''Allowpaymentrequest'', 0xc113), (''Allowusermedia'', 0xdd0e),
      (''Alt'', 0xf303), (''Annotation'', 0x1c90a), (''AnnotationXml'', 0x1c90e), (''Applet'', 0x31906),
      (''Area'', 0x35604), (''Article'', 0x3fc07), (''As'', 0x3c02), (''Aside'', 0x10705)]"

definition atoms_A2 :: "(string \<times> Atom) list" where
  "atoms_A2 =
     [(''Async'', 0xff05), (''Audio'', 0x11505), (''Autocomplete'', 0x2780c), (''Autofocus'', 0x12109),
      (''Autoplay'', 0x13c08)]"

definition atoms_B :: "(string \<times> Atom) list" where
  "atoms_B =
     [(''B'', 0x101), (''Base'', 0x3b04), (''Basefont'', 0x3b08), (''Bdi'', 0xba03),
      (''Bdo'', 0x14b03), (''Bgsound'', 0x15e07), (''Big'', 0x17003), (''Blink'', 0x17305),
      (''Blockquote'', 0x1870a), (''Body'', 0x2804), (''Br'', 0x202), (''Button'', 0x19106)]"

definition atoms_C :: "(string \<times> Atom) list" where
  "atoms_C =
     [(''Canvas'', 0x10306), (''Caption'', 0x23107), (''Center'', 0x22006), (''Challenge'', 0x29b09),
      (''Charset'', 0x2107), (''Checked'', 0x47907), (''Cite'', 0x19c04), (''Class'', 0x56405),
      (''Code'', 0x5c504), (''Col'', 0x1ab03), (''Colgroup'', 0x1ab08), (''Color'', 0x1bf05),
      (''Cols'', 0x1c404), (''Colspan'', 0x1c407), (''Command'', 0x1d707), (''Content'', 0x58b07),
      (''Contenteditable'', 0x58b0f), (''Contextmenu'', 0x3800b), (''Controls'', 0x1de08), (''Coords'', 0x1ea06),
      (''Crossorigin'', 0x1fb0b)]"

definition atoms_D :: "(string \<times> Atom) list" where
  "atoms_D =
     [(''Data'', 0x4a504), (''Datalist'', 0x4a508), (''Datetime'', 0x2b808), (''Dd'', 0x2d702),
      (''Default'', 0x10a07), (''Defer'', 0x5c705), (''Del'', 0x45203), (''Desc'', 0x56104),
      (''Details'', 0x7207), (''Dfn'', 0x8703), (''Dialog'', 0xbb06), (''Dir'', 0x9303),
      (''Dirname'', 0x9307), (''Disabled'', 0x16408), (''Div'', 0x16b03), (''Dl'', 0x5e602),
      (''Download'', 0x46308), (''Draggable'', 0x17a09), (''Dropzone'', 0x40508), (''Dt'', 0x64b02)]"

definition atoms_E :: "(string \<times> Atom) list" where
  "atoms_E =
     [(''Em'', 0x6e02), (''Embed'', 0x6e05), (''Enctype'', 0x28d07)]"

definition atoms_F :: "(string \<times> Atom) list" where
  "atoms_F =
     [(''Face'', 0x21e04), (''Fieldset'', 0x22608), (''Figcaption'', 0x22e0a), (''Figure'', 0x24806),
      (''Font'', 0x3f04), (''Footer'', 0xf606), (''For'', 0x25403), (''ForeignObject'', 0x2540d),
      (''Foreignobject'', 0x2610d), (''Form'', 0x26e04), (''Formaction'', 0x26e0a), (''Formenctype'', 0x2890b),
      (''Formmethod'', 0x2a40a), (''Formnovalidate'', 0x2ae0e), (''Formtarget'', 0x2c00a), (''Frame'', 0x8b05),
      (''Frameset'', 0x8b08)]"

definition atoms_H :: "(string \<times> Atom) list" where
  "atoms_H =
     [(''H1'', 0x15c02), (''H2'', 0x2de02), (''H3'', 0x30d02), (''H4'', 0x34502),
      (''H5'', 0x34f02), (''H6'', 0x64d02), (''Head'', 0x33104), (''Header'', 0x33106),
      (''Headers'', 0x33107), (''Height'', 0x5206), (''Hgroup'', 0x2ca06), (''Hidden'', 0x2d506),
      (''High'', 0x2db04), (''Hr'', 0x15702), (''Href'', 0x2e004), (''Hreflang'', 0x2e008),
      (''Html'', 0x5604), (''HttpEquiv'', 0x2e80a)]"

definition atoms_I :: "(string \<times> Atom) list" where
  "atoms_I =
     [(''I'', 0x601), (''Icon'', 0x58a04), (''Id'', 0x10902), (''Iframe'', 0x2fc06),
      (''Image'', 0x30205), (''Img'', 0x30703), (''Input'', 0x44b05), (''Inputmode'', 0x44b09),
      (''Ins'', 0x20403), (''Integrity'', 0x23f09), (''Is'', 0x16502), (''Isindex'', 0x30f07),
      (''Ismap'', 0x31605), (''Itemid'', 0x38b06), (''Itemprop'', 0x19d08), (''Itemref'', 0x3cd07),
      (''Itemscope'', 0x67109), (''Itemtype'', 0x31f08)]"

definition atoms_K :: "(string \<times> Atom) list" where
  "atoms_K =
     [(''Kbd'', 0xb903), (''Keygen'', 0x3206), (''Keytype'', 0xd607), (''Kind'', 0x17704)]"

definition atoms_L :: "(string \<times> Atom) list" where
  "atoms_L =
     [(''Label'', 0x5905), (''Lang'', 0x2e404), (''Legend'', 0x18106), (''Li'', 0xb202),
      (''Link'', 0x17404), (''List'', 0x4a904), (''Listing'', 0x4a907), (''Loop'', 0x5d04),
      (''Low'', 0xc303)]"

definition atoms_M1 :: "(string \<times> Atom) list" where
  "atoms_M1 =
     [(''Main'', 0x1004), (''Malignmark'', 0xb00a), (''Manifest'', 0x6d708), (''Map'', 0x31803),
      (''Mark'', 0xb604), (''Marquee'', 0x32707), (''Math'', 0x32e04), (''Max'', 0x33d03),
      (''Maxlength'', 0x33d09), (''Media'', 0xe605), (''Mediagroup'', 0xe60a), (''Menu'', 0x38704),
      (''Menuitem'', 0x38708), (''Meta'', 0x4b804), (''Meter'', 0x9805), (''Method'', 0x2a806),
      (''Mglyph'', 0x30806), (''Mi'', 0x34702), (''Min'', 0x34703), (''Minlength'', 0x34709)]"

definition atoms_M2 :: "(string \<times> Atom) list" where
  "atoms_M2 =
     [(''Mn'', 0x2b102), (''Mo'', 0xa402), (''Ms'', 0x67402), (''Mtext'', 0x35105),
      (''Multiple'', 0x35f08), (''Muted'', 0x36705)]"

definition atoms_N :: "(string \<times> Atom) list" where
  "atoms_N =
     [(''Name'', 0x9604), (''Nav'', 0x1303), (''Nobr'', 0x3704), (''Noembed'', 0x6c07),
      (''Noframes'', 0x8908), (''Nomodule'', 0xa208), (''Nonce'', 0x1a605), (''Noscript'', 0x21608),
      (''Novalidate'', 0x2b20a)]"

definition atoms_O1 :: "(string \<times> Atom) list" where
  "atoms_O1 =
     [(''Object'', 0x26806), (''Ol'', 0x13702), (''Onabort'', 0x19507), (''Onafterprint'', 0x2360c),
      (''Onautocomplete'', 0x2760e), (''Onautocompleteerror'', 0x27613), (''Onauxclick'', 0x61f0a), (''Onbeforeprint'', 0x69e0d),
      (''Onbeforeunload'', 0x6e70e), (''Onblur'', 0x56d06), (''Oncancel'', 0x11908), (''Oncanplay'', 0x14d09),
      (''Oncanplaythrough'', 0x14d10), (''Onchange'', 0x41b08), (''Onclick'', 0x2f507), (''Onclose'', 0x36c07),
      (''Oncontextmenu'', 0x37e0d), (''Oncopy'', 0x39106), (''Oncuechange'', 0x3970b), (''Oncut'', 0x3a205)]"

definition atoms_O2 :: "(string \<times> Atom) list" where
  "atoms_O2 =
     [(''Ondblclick'', 0x3a70a), (''Ondrag'', 0x3b106), (''Ondragend'', 0x3b109), (''Ondragenter'', 0x3ba0b),
      (''Ondragexit'', 0x3c50a), (''Ondragleave'', 0x3df0b), (''Ondragover'', 0x3ea0a), (''Ondragstart'', 0x3f40b),
      (''Ondrop'', 0x40306), (''Ondurationchange'', 0x41310), (''Onemptied'', 0x40a09), (''Onended'', 0x42307),
      (''Onerror'', 0x42a07), (''Onfocus'', 0x43107), (''Onhashchange'', 0x43d0c), (''Oninput'', 0x44907),
      (''Oninvalid'', 0x45509), (''Onkeydown'', 0x45e09), (''Onkeypress'', 0x46b0a), (''Onkeyup'', 0x48007)]"

definition atoms_O3 :: "(string \<times> Atom) list" where
  "atoms_O3 =
     [(''Onlanguagechange'', 0x48d10), (''Onload'', 0x49d06), (''Onloadeddata'', 0x49d0c), (''Onloadedmetadata'', 0x4b010),
      (''Onloadend'', 0x4c609), (''Onloadstart'', 0x4cf0b), (''Onmessage'', 0x4da09), (''Onmessageerror'', 0x4da0e),
      (''Onmousedown'', 0x4e80b), (''Onmouseenter'', 0x4f30c), (''Onmouseleave'', 0x4ff0c), (''Onmousemove'', 0x50b0b),
      (''Onmouseout'', 0x5160a), (''Onmouseover'', 0x5230b), (''Onmouseup'', 0x52e09), (''Onmousewheel'', 0x53c0c),
      (''Onoffline'', 0x54809), (''Ononline'', 0x55108), (''Onpagehide'', 0x5590a), (''Onpageshow'', 0x5730a)]"

definition atoms_O4 :: "(string \<times> Atom) list" where
  "atoms_O4 =
     [(''Onpaste'', 0x57f07), (''Onpause'', 0x59a07), (''Onplay'', 0x5a406), (''Onplaying'', 0x5a409),
      (''Onpopstate'', 0x5ad0a), (''Onprogress'', 0x5b70a), (''Onratechange'', 0x5cc0c), (''Onrejectionhandled'', 0x5d812),
      (''Onreset'', 0x5ea07), (''Onresize'', 0x5f108), (''Onscroll'', 0x60008), (''Onsecuritypolicyviolation'', 0x60819),
      (''Onseeked'', 0x62908), (''Onseeking'', 0x63109), (''Onselect'', 0x63a08), (''Onshow'', 0x64406),
      (''Onsort'', 0x64f06), (''Onstalled'', 0x65909), (''Onstorage'', 0x66209), (''Onsubmit'', 0x66b08)]"

definition atoms_O5 :: "(string \<times> Atom) list" where
  "atoms_O5 =
     [(''Onsuspend'', 0x67b09), (''Ontimeupdate'', 0x400c), (''Ontoggle'', 0x68408), (''Onunhandledrejection'', 0x68c14),
      (''Onunload'', 0x6ab08), (''Onvolumechange'', 0x6b30e), (''Onwaiting'', 0x6c109), (''Onwheel'', 0x6ca07),
      (''Open'', 0x1a304), (''Optgroup'', 0x5f08), (''Optimum'', 0x6d107), (''Option'', 0x6e306),
      (''Output'', 0x51d06)]"

definition atoms_P :: "(string \<times> Atom) list" where
  "atoms_P =
     [(''P'', 0xc01), (''Param'', 0xc05), (''Pattern'', 0x6607), (''Picture'', 0x7b07),
      (''Ping'', 0xef04), (''Placeholder'', 0x1310b), (''Plaintext'', 0x1b209), (''Playsinline'', 0x1400b),
      (''Poster'', 0x2cf06), (''Pre'', 0x47003), (''Preload'', 0x48607), (''Progress'', 0x5b908),
      (''Prompt'', 0x53606), (''Public'', 0x58606)]"

definition atoms_Q :: "(string \<times> Atom) list" where
  "atoms_Q =
     [(''Q'', 0xcf01)]"

definition atoms_R :: "(string \<times> Atom) list" where
  "atoms_R =
     [(''Radiogroup'', 0x30a), (''Rb'', 0x3a02), (''Readonly'', 0x35708), (''Referrerpolicy'', 0x3d10e),
      (''Rel'', 0x48703), (''Required'', 0x24c08), (''Reversed'', 0x8008), (''Rows'', 0x9c04),
      (''Rowspan'', 0x9c07), (''Rp'', 0x23c02), (''Rt'', 0x19a02), (''Rtc'', 0x19a03),
      (''Ruby'', 0xfb04)]"

definition atoms_S1 :: "(string \<times> Atom) list" where
  "atoms_S1 =
     [(''S'', 0x2501), (''Samp'', 0x7804), (''Sandbox'', 0x12907), (''Scope'', 0x67505),
      (''Scoped'', 0x67506), (''Script'', 0x21806), (''Seamless'', 0x37108), (''Section'', 0x56807),
      (''Select'', 0x63c06), (''Selected'', 0x63c08), (''Shape'', 0x1e505), (''Size'', 0x5f504),
      (''Sizes'', 0x5f505), (''Slot'', 0x1ef04), (''Small'', 0x20605), (''Sortable'', 0x65108),
      (''Sorted'', 0x33706), (''Source'', 0x37806), (''Spacer'', 0x43706), (''Span'', 0x9f04)]"

definition atoms_S2 :: "(string \<times> Atom) list" where
  "atoms_S2 =
     [(''Spellcheck'', 0x4740a), (''Src'', 0x5c003), (''Srcdoc'', 0x5c006), (''Srclang'', 0x5f907),
      (''Srcset'', 0x6f906), (''Start'', 0x3fa05), (''Step'', 0x58304), (''Strike'', 0xd206),
      (''Strong'', 0x6dd06), (''Style'', 0x6ff05), (''Sub'', 0x66d03), (''Summary'', 0x70407),
      (''Sup'', 0x70b03), (''Svg'', 0x70e03), (''System'', 0x71106)]"

definition atoms_T :: "(string \<times> Atom) list" where
  "atoms_T =
     [(''Tabindex'', 0x4be08), (''Table'', 0x59505), (''Target'', 0x2c406), (''Tbody'', 0x2705),
      (''Td'', 0x9202), (''Template'', 0x71408), (''Textarea'', 0x35208), (''Tfoot'', 0xf505),
      (''Th'', 0x15602), (''Thead'', 0x33005), (''Time'', 0x4204), (''Title'', 0x11005),
      (''Tr'', 0xcc02), (''Track'', 0x1ba05), (''Translate'', 0x1f209), (''Tt'', 0x6802),
      (''Type'', 0xd904), (''Typemustmatch'', 0x2900d)]"

definition atoms_U :: "(string \<times> Atom) list" where
  "atoms_U =
     [(''U'', 0xb01), (''Ul'', 0xa702), (''Updateviacache'', 0x460e), (''Usemap'', 0x59e06)]"

definition atoms_V :: "(string \<times> Atom) list" where
  "atoms_V =
     [(''Value'', 0x1505), (''Var'', 0x16d03), (''Video'', 0x2f105)]"

definition atoms_W :: "(string \<times> Atom) list" where
  "atoms_W =
     [(''Wbr'', 0x57c03), (''Width'', 0x64905), (''Workertype'', 0x71c0a), (''Wrap'', 0x72604)]"

definition atoms_X :: "(string \<times> Atom) list" where
  "atoms_X =
     [(''Xmp'', 0x12f03)]"

definition atom_constants :: "(string \<times> Atom) list" where
  "atom_constants =
     atoms_A1 @ atoms_A2 @ atoms_B @ atoms_C @ atoms_D @ atoms_E @
     atoms_F @ atoms_H @ atoms_I @ atoms_K @ atoms_L @ atoms_M1 @
     atoms_M2 @ atoms_N @ atoms_O1 @ atoms_O2 @ atoms_O3 @ atoms_O4 @
     atoms_O5 @ atoms_P @ atoms_Q @ atoms_R @ atoms_S1 @ atoms_S2 @
     atoms_T @ atoms_U @ atoms_V @ atoms_W @ atoms_X"

text \<open>The keyed entries of the array \<open>table\<close>; its other elements are zero.\<close>

definition table_00 :: "(32 word \<times> Atom) list" where
  "table_00 =
     [(0x1, 0xe60a), (0x2, 0x2e404), (0x4, 0x2c09), (0x5, 0x8b08), (0x7, 0x63a08), (0x8, 0x71106),
      (0xa, 0x64905), (0xc, 0x2890b), (0xd, 0x13702), (0xe, 0x3970b)]"

definition table_01 :: "(32 word \<times> Atom) list" where
  "table_01 =
     [(0x10, 0x14b03), (0x11, 0x11505), (0x12, 0x17a09), (0x14, 0x2f105), (0x15, 0x2b102), (0x16, 0x38704),
      (0x17, 0x2cf06), (0x19, 0xf606), (0x1a, 0x2a806), (0x1b, 0x2b808), (0x1c, 0x19507), (0x1d, 0x460e),
      (0x1e, 0xff05), (0x1f, 0x49d06)]"

definition table_02 :: "(32 word \<times> Atom) list" where
  "table_02 =
     [(0x21, 0x11908), (0x22, 0x62908), (0x23, 0x30205), (0x24, 0x5d812), (0x26, 0x17404), (0x27, 0x51d06),
      (0x28, 0x33104), (0x29, 0x4ff0c), (0x2a, 0x57f07), (0x2b, 0x5a409), (0x2c, 0x1c407), (0x2f, 0x1bf05)]"

definition table_03 :: "(32 word \<times> Atom) list" where
  "table_03 =
     [(0x30, 0x5f504), (0x31, 0x2e80a), (0x33, 0x601), (0x34, 0x5590a), (0x35, 0x68c14), (0x37, 0x42a07),
      (0x3a, 0x3b08), (0x3f, 0x1303)]"

definition table_04 :: "(32 word \<times> Atom) list" where
  "table_04 =
     [(0x40, 0x17704), (0x41, 0x35708), (0x42, 0x30806), (0x44, 0xb202), (0x46, 0x2d506), (0x47, 0x70e03),
      (0x48, 0x58304), (0x49, 0x23f09), (0x4a, 0x58606), (0x4c, 0x1ab03), (0x4d, 0x1870a), (0x4e, 0x34f02)]"

definition table_05 :: "(32 word \<times> Atom) list" where
  "table_05 =
     [(0x50, 0x5b908), (0x51, 0x5f505), (0x52, 0x34502), (0x56, 0x33005), (0x57, 0xd607), (0x58, 0x5b70a),
      (0x59, 0x44b09), (0x5a, 0x3b109), (0x5d, 0x3a205), (0x5e, 0x43706), (0x5f, 0x1ab08)]"

definition table_06 :: "(32 word \<times> Atom) list" where
  "table_06 =
     [(0x62, 0x16502), (0x65, 0x3c02), (0x66, 0x54809), (0x67, 0x33706), (0x69, 0x48d10), (0x6c, 0x43d0c),
      (0x6d, 0x9604), (0x6e, 0xf505), (0x6f, 0x56104)]"

definition table_07 :: "(32 word \<times> Atom) list" where
  "table_07 =
     [(0x70, 0x33d03), (0x72, 0x1ea06), (0x73, 0x30d02), (0x74, 0x6e70e), (0x75, 0x9c04), (0x76, 0x63c06),
      (0x77, 0x9805), (0x78, 0x38b06), (0x79, 0x53c0c), (0x7a, 0x5c006), (0x7d, 0x1ba05), (0x7f, 0x31f08)]"

definition table_08 :: "(32 word \<times> Atom) list" where
  "table_08 =
     [(0x82, 0xa402), (0x83, 0x41b08), (0x84, 0x33107), (0x85, 0x5cc0c), (0x86, 0x60819), (0x88, 0x4a508),
      (0x89, 0x4e80b), (0x8a, 0x1ef04), (0x8b, 0x4b010), (0x8c, 0x1a06), (0x8d, 0x26806)]"

definition table_09 :: "(32 word \<times> Atom) list" where
  "table_09 =
     [(0x91, 0x6b30e), (0x92, 0x2107), (0x93, 0x27613), (0x94, 0xc113), (0x95, 0x2804), (0x96, 0x10a07),
      (0x97, 0x63c08), (0x98, 0x21e04), (0x99, 0x1e505), (0x9b, 0x68408), (0x9e, 0x64b02), (0x9f, 0xb604)]"

definition table_0a :: "(32 word \<times> Atom) list" where
  "table_0a =
     [(0xa1, 0xb01), (0xa4, 0x6ab08), (0xa5, 0x5d04), (0xa6, 0x16408), (0xaa, 0x42307), (0xab, 0xb00a),
      (0xad, 0x67b09), (0xae, 0x35105), (0xaf, 0x64f06)]"

definition table_0b :: "(32 word \<times> Atom) list" where
  "table_0b =
     [(0xb0, 0x19d08), (0xb3, 0x67109), (0xb4, 0x17305), (0xb6, 0x3b106), (0xb7, 0xa702), (0xb8, 0x26e04),
      (0xb9, 0x12907), (0xba, 0x8b05), (0xbb, 0x1505), (0xbc, 0x66209), (0xbf, 0xaa07)]"

definition table_0c :: "(32 word \<times> Atom) list" where
  "table_0c =
     [(0xc0, 0x19a02), (0xc2, 0x202), (0xc3, 0x22608), (0xc4, 0x2900d), (0xc5, 0xa208), (0xc6, 0x6c07),
      (0xc7, 0x69e0d), (0xc8, 0x19106), (0xc9, 0x2f507), (0xca, 0x70407), (0xcd, 0xfb04), (0xce, 0x56405),
      (0xcf, 0x3f40b)]"

definition table_0d :: "(32 word \<times> Atom) list" where
  "table_0d =
     [(0xd0, 0x23107), (0xd4, 0xdd0e), (0xd5, 0x4cf0b), (0xd9, 0x16b03), (0xda, 0x4a904), (0xdb, 0x32e04),
      (0xdc, 0x44b05), (0xdf, 0x3ea0a)]"

definition table_0e :: "(32 word \<times> Atom) list" where
  "table_0e =
     [(0xe0, 0x2de02), (0xe2, 0x1b209), (0xe4, 0x4f30c), (0xe7, 0x47907), (0xe8, 0x47003), (0xea, 0x35f08),
      (0xeb, 0xba03), (0xec, 0x33d09), (0xed, 0xcf01), (0xee, 0x61f0a)]"

definition table_0f :: "(32 word \<times> Atom) list" where
  "table_0f =
     [(0xf0, 0x57c03), (0xf2, 0x3b04), (0xf3, 0x6e306), (0xf5, 0x41310), (0xf7, 0x8908), (0xf9, 0x40508),
      (0xfb, 0x67505), (0xfc, 0x8008), (0xfd, 0x3ba0b), (0xfe, 0x3fa05), (0xff, 0x12f03)]"

definition table_10 :: "(32 word \<times> Atom) list" where
  "table_10 =
     [(0x100, 0x5f907), (0x101, 0x30703), (0x104, 0x101), (0x105, 0x25403), (0x106, 0x10705), (0x107, 0x44907),
      (0x108, 0x35604), (0x109, 0x2a40a), (0x10a, 0x72604), (0x10c, 0x23c02), (0x10d, 0x46b0a), (0x10e, 0x6802)]"

definition table_11 :: "(32 word \<times> Atom) list" where
  "table_11 =
     [(0x110, 0x34702), (0x111, 0x36705), (0x112, 0xf303), (0x113, 0x5c504), (0x114, 0x6e02), (0x115, 0x3c50a),
      (0x117, 0x9f04), (0x119, 0x6d708), (0x11a, 0x38708), (0x11b, 0x58b07), (0x11d, 0x6c109), (0x11f, 0x4c609)]"

definition table_12 :: "(32 word \<times> Atom) list" where
  "table_12 =
     [(0x121, 0x37e0d), (0x123, 0x56d06), (0x124, 0x3fc07), (0x125, 0x9303), (0x126, 0xef04), (0x127, 0x24c08),
      (0x128, 0x45509), (0x129, 0xb105), (0x12b, 0x58a04), (0x12c, 0x64d02), (0x12d, 0x1c404), (0x12e, 0x22e0a),
      (0x12f, 0x45e09)]"

definition table_13 :: "(32 word \<times> Atom) list" where
  "table_13 =
     [(0x130, 0x66b08), (0x131, 0x14d09), (0x132, 0x70b03), (0x133, 0xc01), (0x135, 0x40a09), (0x136, 0x39106),
      (0x137, 0x19c04), (0x138, 0x3a70a), (0x13a, 0x50b0b), (0x13c, 0x66d03), (0x13d, 0x48703), (0x13e, 0x5f08)]"

definition table_14 :: "(32 word \<times> Atom) list" where
  "table_14 =
     [(0x142, 0x9c07), (0x143, 0x37806), (0x144, 0x21608), (0x145, 0x1a304), (0x146, 0x20403), (0x147, 0x2540d),
      (0x148, 0x5ad0a), (0x14a, 0x28d07), (0x14b, 0x2760e), (0x14c, 0x35208), (0x14e, 0x2780c), (0x14f, 0x15702)]"

definition table_15 :: "(32 word \<times> Atom) list" where
  "table_15 =
     [(0x150, 0x1de08), (0x151, 0x10902), (0x153, 0x2360c), (0x155, 0x2610d), (0x156, 0x32707), (0x157, 0x59a07),
      (0x158, 0x5e602), (0x159, 0x5206), (0x15a, 0x34703), (0x15b, 0x9307), (0x15c, 0x1f209), (0x15d, 0x5604),
      (0x15e, 0x34709), (0x15f, 0x48607)]"

definition table_16 :: "(32 word \<times> Atom) list" where
  "table_16 =
     [(0x160, 0x71408), (0x161, 0x3df0b), (0x162, 0x3a02), (0x164, 0x5c003), (0x165, 0x6dd06), (0x167, 0x7804),
      (0x168, 0x6f307), (0x169, 0x55108), (0x16b, 0x1310b), (0x16c, 0x2c406), (0x16d, 0x20605), (0x16e, 0x6ca07),
      (0x16f, 0x1c90a)]"

definition table_17 :: "(32 word \<times> Atom) list" where
  "table_17 =
     [(0x170, 0x4740a), (0x171, 0x7207), (0x172, 0x10306), (0x173, 0x12109), (0x174, 0xc05), (0x176, 0x46308),
      (0x177, 0x45203), (0x178, 0x36c07), (0x179, 0xb903), (0x17a, 0x31906), (0x17b, 0x2e004), (0x17c, 0x5f108),
      (0x17e, 0x49d0c)]"

definition table_18 :: "(32 word \<times> Atom) list" where
  "table_18 =
     [(0x180, 0xcc02), (0x181, 0x2c00a), (0x182, 0x11005), (0x183, 0x6ff05), (0x184, 0xd206), (0x185, 0x59e06),
      (0x186, 0x2fc06), (0x187, 0x1004), (0x189, 0x7b07), (0x18c, 0x31605), (0x18e, 0x4a504), (0x18f, 0x5905)]"

definition table_19 :: "(32 word \<times> Atom) list" where
  "table_19 =
     [(0x191, 0x3d10e), (0x192, 0x15602), (0x194, 0x53606), (0x195, 0x56807), (0x197, 0x6d107), (0x198, 0x2db04),
      (0x199, 0x15c02), (0x19a, 0x65909), (0x19b, 0x16d03), (0x19c, 0x4204), (0x19e, 0x67402), (0x19f, 0x33106)]"

definition table_1a :: "(32 word \<times> Atom) list" where
  "table_1a =
     [(0x1a0, 0x4da09), (0x1a1, 0x1a605), (0x1a2, 0x26e0a), (0x1a3, 0x22006), (0x1a4, 0x3704), (0x1a5, 0x59505),
      (0x1a6, 0x4a907), (0x1a7, 0x18106), (0x1a9, 0x29b09), (0x1aa, 0x24806), (0x1ab, 0xe605), (0x1ae, 0xd904),
      (0x1af, 0x3f04)]"

definition table_1b :: "(32 word \<times> Atom) list" where
  "table_1b =
     [(0x1b0, 0x4da0e), (0x1b1, 0x37108), (0x1b2, 0x8703), (0x1b3, 0x5c705), (0x1b4, 0xc303), (0x1b5, 0x19a03),
      (0x1b6, 0x5230b), (0x1b7, 0x2b20a), (0x1b8, 0x71c0a), (0x1ba, 0x3cd07), (0x1bd, 0x1), (0x1be, 0x31803),
      (0x1bf, 0x400c)]"

definition table_1c :: "(32 word \<times> Atom) list" where
  "table_1c =
     [(0x1c0, 0x15e07), (0x1c1, 0x3206), (0x1c2, 0x2705), (0x1c5, 0x64406), (0x1c7, 0x2501), (0x1c8, 0x6607),
      (0x1cc, 0x14d10), (0x1ce, 0x2d702), (0x1cf, 0x6f906)]"

definition table_1d :: "(32 word \<times> Atom) list" where
  "table_1d =
     [(0x1d0, 0x17003), (0x1d2, 0x65108), (0x1d3, 0x48007), (0x1d5, 0x5a406), (0x1d7, 0x4b804), (0x1d8, 0x40306),
      (0x1da, 0x60008), (0x1db, 0x1fb0b), (0x1dc, 0x5730a), (0x1dd, 0x4), (0x1de, 0x9202), (0x1df, 0x58b0f)]"

definition table_1e :: "(32 word \<times> Atom) list" where
  "table_1e =
     [(0x1e0, 0x27206), (0x1e1, 0x1400b), (0x1e2, 0x43107), (0x1e3, 0x2e008), (0x1e5, 0x5160a), (0x1e6, 0x5ea07),
      (0x1e7, 0x13c08), (0x1e8, 0x63109), (0x1ea, 0x67506), (0x1ec, 0x30a), (0x1ee, 0x3800b), (0x1ef, 0x52e09)]"

definition table_1f :: "(32 word \<times> Atom) list" where
  "table_1f =
     [(0x1f1, 0x2ca06), (0x1f2, 0x2080f), (0x1f3, 0x4be08), (0x1f6, 0x30f07), (0x1f7, 0x1a0e), (0x1f8, 0x2ae0e),
      (0x1fb, 0x1c90e), (0x1fc, 0x6e05), (0x1fd, 0x21806), (0x1fe, 0xbb06), (0x1ff, 0x1d707)]"

definition table_entries :: "(32 word \<times> Atom) list" where
  "table_entries =
     table_00 @ table_01 @ table_02 @ table_03 @ table_04 @ table_05 @
     table_06 @ table_07 @ table_08 @ table_09 @ table_0a @ table_0b @
     table_0c @ table_0d @ table_0e @ table_0f @ table_10 @ table_11 @
     table_12 @ table_13 @ table_14 @ table_15 @ table_16 @ table_17 @
     table_18 @ table_19 @ table_1a @ table_1b @ table_1c @ table_1d @
     table_1e @ table_1f"

text \<open>The lines of the text that holds the names.\<close>

definition atomText_00 :: string where
  "atomText_00 = ''abbradiogrouparamainavalueaccept-charsetbodyaccesskeygenobrb''"

definition atomText_01 :: string where
  "atomText_01 = ''asefontimeupdateviacacheightmlabelooptgroupatternoembedetail''"

definition atomText_02 :: string where
  "atomText_02 = ''sampictureversedfnoframesetdirnameterowspanomoduleacronymali''"

definition atomText_03 :: string where
  "atomText_03 = ''gnmarkbdialogallowpaymentrequestrikeytypeallowusermediagroup''"

definition atomText_04 :: string where
  "atomText_04 = ''ingaltfooterubyasyncanvasidefaultitleaudioncancelautofocusan''"

definition atomText_05 :: string where
  "atomText_05 = ''dboxmplaceholderautoplaysinlinebdoncanplaythrough1bgsoundisa''"

definition atomText_06 :: string where
  "atomText_06 = ''bledivarbigblinkindraggablegendblockquotebuttonabortcitempro''"

definition atomText_07 :: string where
  "atomText_07 = ''penoncecolgrouplaintextrackcolorcolspannotation-xmlcommandco''"

definition atomText_08 :: string where
  "atomText_08 = ''ntrolshapecoordslotranslatecrossoriginsmallowfullscreenoscri''"

definition atomText_09 :: string where
  "atomText_09 = ''ptfacenterfieldsetfigcaptionafterprintegrityfigurequiredfore''"

definition atomText_10 :: string where
  "atomText_10 = ''ignObjectforeignobjectformactionautocompleteerrorformenctype''"

definition atomText_11 :: string where
  "atomText_11 = ''mustmatchallengeformmethodformnovalidatetimeformtargethgroup''"

definition atomText_12 :: string where
  "atomText_12 = ''osterhiddenhigh2hreflanghttp-equivideonclickiframeimageimgly''"

definition atomText_13 :: string where
  "atomText_13 = ''ph3isindexismappletitemtypemarqueematheadersortedmaxlength4m''"

definition atomText_14 :: string where
  "atomText_14 = ''inlength5mtextareadonlymultiplemutedoncloseamlessourceoncont''"

definition atomText_15 :: string where
  "atomText_15 = ''extmenuitemidoncopyoncuechangeoncutondblclickondragendondrag''"

definition atomText_16 :: string where
  "atomText_16 = ''enterondragexitemreferrerpolicyondragleaveondragoverondragst''"

definition atomText_17 :: string where
  "atomText_17 = ''articleondropzonemptiedondurationchangeonendedonerroronfocus''"

definition atomText_18 :: string where
  "atomText_18 = ''paceronhashchangeoninputmodeloninvalidonkeydownloadonkeypres''"

definition atomText_19 :: string where
  "atomText_19 = ''spellcheckedonkeyupreloadonlanguagechangeonloadeddatalisting''"

definition atomText_20 :: string where
  "atomText_20 = ''onloadedmetadatabindexonloadendonloadstartonmessageerroronmo''"

definition atomText_21 :: string where
  "atomText_21 = ''usedownonmouseenteronmouseleaveonmousemoveonmouseoutputonmou''"

definition atomText_22 :: string where
  "atomText_22 = ''seoveronmouseupromptonmousewheelonofflineononlineonpagehides''"

definition atomText_23 :: string where
  "atomText_23 = ''classectionbluronpageshowbronpastepublicontenteditableonpaus''"

definition atomText_24 :: string where
  "atomText_24 = ''emaponplayingonpopstateonprogressrcdocodeferonratechangeonre''"

definition atomText_25 :: string where
  "atomText_25 = ''jectionhandledonresetonresizesrclangonscrollonsecuritypolicy''"

definition atomText_26 :: string where
  "atomText_26 = ''violationauxclickonseekedonseekingonselectedonshowidth6onsor''"

definition atomText_27 :: string where
  "atomText_27 = ''tableonstalledonstorageonsubmitemscopedonsuspendontoggleonun''"

definition atomText_28 :: string where
  "atomText_28 = ''handledrejectionbeforeprintonunloadonvolumechangeonwaitingon''"

definition atomText_29 :: string where
  "atomText_29 = ''wheeloptimumanifestrongoptionbeforeunloaddressrcsetstylesumm''"

definition atomText_30 :: string where
  "atomText_30 = ''arysupsvgsystemplateworkertypewrap''"

definition atomText :: string where
  "atomText =
     atomText_00 @ atomText_01 @ atomText_02 @ atomText_03 @ atomText_04 @
     atomText_05 @ atomText_06 @ atomText_07 @ atomText_08 @ atomText_09 @
     atomText_10 @ atomText_11 @ atomText_12 @ atomText_13 @ atomText_14 @
     atomText_15 @ atomText_16 @ atomText_17 @ atomText_18 @ atomText_19 @
     atomText_20 @ atomText_21 @ atomText_22 @ atomText_23 @ atomText_24 @
     atomText_25 @ atomText_26 @ atomText_27 @ atomText_28 @ atomText_29 @
     atomText_30"

section \<open>Operations\<close>

text \<open>A slice of a string; Go panics unless \<open>lo \<le> hi \<le> len(s)\<close>.\<close>

definition go_slice :: "'a list \<Rightarrow> nat \<Rightarrow> nat \<Rightarrow> 'a list go" where
  "go_slice s lo hi =
     (if lo \<le> hi \<and> hi \<le> length s then Inr (take (hi - lo) (drop lo s)) else Inl IndexOutOfRange)"

definition atom_start :: "Atom \<Rightarrow> 32 word" where
  "atom_start a = drop_bit 8 a"

definition atom_len :: "Atom \<Rightarrow> 32 word" where
  "atom_len a = a AND 0xff"

definition Atom_String :: "Atom \<Rightarrow> string go" where
  "Atom_String a =
     (let start = atom_start a; n = atom_len a
      in if of_nat (length atomText) < start + n then Inr []
         else go_slice atomText (unat start) (unat (start + n)))"

definition Atom_string :: "Atom \<Rightarrow> string go" where
  "Atom_string a = go_slice atomText (unat (atom_start a)) (unat (atom_start a + atom_len a))"

fun fnv :: "32 word \<Rightarrow> string \<Rightarrow> 32 word" where
  "fnv h [] = h"
| "fnv h (c # s) = fnv ((h XOR of_char c) * 16777619) s"

text \<open>\<open>match\<close> indexes \<open>s\<close> by the positions of \<open>t\<close>.\<close>

fun match_from :: "nat \<Rightarrow> string \<Rightarrow> string \<Rightarrow> bool go" where
  "match_from i s [] = Inr True"
| "match_from i s (c # t) =
     go_bind (go_index s (int i)) (\<lambda>d. if d \<noteq> c then Inr False else match_from (Suc i) s t)"

definition atom_match :: "string \<Rightarrow> string \<Rightarrow> bool go" where
  "atom_match s t = match_from 0 s t"

definition atom_table :: "32 word \<Rightarrow> Atom" where
  "atom_table i = (case map_of table_entries i of Some a \<Rightarrow> a | None \<Rightarrow> 0)"

text \<open>One probe: whether the atom at a table position has the name \<open>s\<close>.\<close>

definition probe :: "32 word \<Rightarrow> string \<Rightarrow> bool go" where
  "probe i s =
     (let a = atom_table i
      in if unat (atom_len a) = length s
         then go_bind (Atom_string a) (\<lambda>t. atom_match t s) else Inr False)"

definition Lookup :: "string \<Rightarrow> Atom go" where
  "Lookup s =
     (if length s = 0 \<or> maxAtomLen < length s then Inr 0
      else
        let h = fnv hash0 s; i = h AND (512 - 1); j = drop_bit 16 h AND (512 - 1)
        in go_bind (probe i s) (\<lambda>hit.
             if hit then Inr (atom_table i)
             else go_bind (probe j s) (\<lambda>hit.
               if hit then Inr (atom_table j) else Inr 0)))"

definition String :: "string \<Rightarrow> string go" where
  "String s = go_bind (Lookup s) (\<lambda>a. if a \<noteq> 0 then Atom_String a else Inr s)"

section \<open>The names of the atoms\<close>

text \<open>The name an atom packs, and the positions of the names in one pass over the text.\<close>

definition atom_name :: "Atom \<Rightarrow> string" where
  "atom_name a = take (unat (atom_len a)) (drop (unat (atom_start a)) atomText)"

section \<open>The tables in blocks\<close>

text \<open>The array in blocks of sixteen positions and the text line by line, so that a
  position is found without walking through the whole table.\<close>

definition table_block :: "int \<Rightarrow> (32 word \<times> Atom) list" where
  "table_block k =
    (if k = 0 then table_00 else if k = 1 then table_01 else if k = 2 then table_02 else
     if k = 3 then table_03 else if k = 4 then table_04 else if k = 5 then table_05 else
     if k = 6 then table_06 else if k = 7 then table_07 else if k = 8 then table_08 else
     if k = 9 then table_09 else if k = 10 then table_0a else if k = 11 then table_0b else
     if k = 12 then table_0c else if k = 13 then table_0d else if k = 14 then table_0e else
     if k = 15 then table_0f else if k = 16 then table_10 else if k = 17 then table_11 else
     if k = 18 then table_12 else if k = 19 then table_13 else if k = 20 then table_14 else
     if k = 21 then table_15 else if k = 22 then table_16 else if k = 23 then table_17 else
     if k = 24 then table_18 else if k = 25 then table_19 else if k = 26 then table_1a else
     if k = 27 then table_1b else if k = 28 then table_1c else if k = 29 then table_1d else
     if k = 30 then table_1e else if k = 31 then table_1f else [])"

definition text_block :: "int \<Rightarrow> string" where
  "text_block k =
    (if k = 0 then atomText_00 else if k = 1 then atomText_01 else
     if k = 2 then atomText_02 else if k = 3 then atomText_03 else
     if k = 4 then atomText_04 else if k = 5 then atomText_05 else
     if k = 6 then atomText_06 else if k = 7 then atomText_07 else
     if k = 8 then atomText_08 else if k = 9 then atomText_09 else
     if k = 10 then atomText_10 else if k = 11 then atomText_11 else
     if k = 12 then atomText_12 else if k = 13 then atomText_13 else
     if k = 14 then atomText_14 else if k = 15 then atomText_15 else
     if k = 16 then atomText_16 else if k = 17 then atomText_17 else
     if k = 18 then atomText_18 else if k = 19 then atomText_19 else
     if k = 20 then atomText_20 else if k = 21 then atomText_21 else
     if k = 22 then atomText_22 else if k = 23 then atomText_23 else
     if k = 24 then atomText_24 else if k = 25 then atomText_25 else
     if k = 26 then atomText_26 else if k = 27 then atomText_27 else
     if k = 28 then atomText_28 else if k = 29 then atomText_29 else
     if k = 30 then atomText_30 else [])"

lemma map_of_blocks:
  assumes "\<forall>k \<in> set ks. \<forall>x \<in> set (B k). f (fst x) = k"
  shows "map_of (concat (map B ks)) i = (if f i \<in> set ks then map_of (B (f i)) i else None)"
  using assms
proof (induction ks)
  case (Cons k ks)
  have "map_of (B k) i = None" if "f i \<noteq> k"
    using that Cons.prems by (auto simp: map_of_eq_None_iff)
  then show ?case
    using Cons by (cases "f i = k") (auto simp: map_add_def split: option.split)
qed simp

lemma drop_blocks:
  assumes "\<And>j. j < m \<Longrightarrow> length (B j) = w" and "k \<le> m"
  shows "drop (w * k) (concat (map B [0..<Suc m])) = concat (map B [k..<Suc m])"
  using assms(2)
proof (induction k)
  case (Suc k)
  have "drop (w * Suc k) (concat (map B [0..<Suc m])) = drop w (drop (w * k) (concat (map B [0..<Suc m])))"
    by (simp add: drop_drop add.commute del: upt_Suc)
  also have "\<dots> = drop w (B k @ concat (map B [Suc k..<Suc m]))"
    using Suc by (simp add: upt_rec [of k] del: upt_Suc)
  finally show ?case using assms(1) [of k] Suc.prems by (simp del: upt_Suc)
qed simp

lemma table_entries_blocks: "table_entries = concat (map table_block [0..31])"
  by (simp add: table_entries_def upto_rec1 table_block_def)

lemma atomText_blocks: "atomText = concat (map (\<lambda>k. text_block (int k)) [0..<Suc 30])"
  by (simp add: atomText_def text_block_def upt_conv_Cons del: upt_Suc)

lemma table_block_keys: "list_all (\<lambda>k. list_all (\<lambda>(i, a). uint i div 16 = k) (table_block k)) [0..31]"
  by code_simp

lemma text_block_length: "list_all (\<lambda>k. length (text_block k) = 60) [0..29]"
  by code_simp

lemma length_table_entries: "length table_entries = 368"
  by (simp add: table_entries_def table_00_def table_01_def table_02_def table_03_def table_04_def table_05_def table_06_def table_07_def table_08_def table_09_def table_0a_def table_0b_def table_0c_def table_0d_def table_0e_def table_0f_def table_10_def table_11_def table_12_def table_13_def table_14_def table_15_def table_16_def table_17_def table_18_def table_19_def table_1a_def table_1b_def table_1c_def table_1d_def table_1e_def table_1f_def)

section \<open>Arithmetic on atoms\<close>

lemma uint_drop_bit:
  fixes w :: "32 word"
  shows "uint (drop_bit n w) = uint w div 2 ^ n"
proof -
  have "take_bit 32 (uint w) = uint w"
    using uint_lt2p [of w] by (intro take_bit_int_eq_self) auto
  then have "uint (drop_bit n w) = drop_bit n (uint w)"
    by (simp add: unsigned_drop_bit_eq)
  then show ?thesis by (simp only: drop_bit_eq_div)
qed

lemma uint_atom_start: "uint (atom_start a) = uint a div 256"
  by (simp add: atom_start_def uint_drop_bit)

lemma uint_drop_16: "uint (drop_bit 16 w :: 32 word) = uint w div 65536"
  by (simp add: uint_drop_bit)

lemma uint_mask:
  fixes w :: "32 word"
  shows "n \<le> 32 \<Longrightarrow> uint (w AND mask n) = uint w mod 2 ^ n"
  by (simp add: take_bit_eq_mask [symmetric] unsigned_take_bit_eq take_bit_eq_mod [where a = "uint w"])

lemma uint_atom_len: "uint (atom_len a) = uint a mod 256"
  using uint_mask [of 8 a] by (simp add: atom_len_def mask_eq_exp_minus_1)

lemma uint_and_511: "uint (h AND 511 :: 32 word) = uint h mod 512"
  using uint_mask [of 9 h] by (simp add: mask_eq_exp_minus_1)

fun fnv_int :: "int \<Rightarrow> string \<Rightarrow> int" where
  "fnv_int h [] = h"
| "fnv_int h (c # s) = fnv_int (((h XOR of_char c) * 16777619) mod 4294967296) s"

lemma uint_of_char: "uint (of_char c :: 32 word) = of_char c"
proof -
  have "(of_char c :: nat) < 4294967296"
    by (rule less_trans [OF nat_of_char_less_256]) simp
  then have "uint (of_nat (of_char c) :: 32 word) = int (of_char c)"
    by (simp add: uint_nat unat_of_nat)
  then show ?thesis by (simp only: of_nat_of_char)
qed

lemma uint_fnv: "uint (fnv h s) = fnv_int (uint h) s"
  by (induction s arbitrary: h) (simp_all add: uint_word_ariths uint_xor uint_of_char)

lemma table_block_keysD: "k \<in> {0..31} \<Longrightarrow> (i, a) \<in> set (table_block k) \<Longrightarrow> uint i div 16 = k"
  using table_block_keys by (fastforce simp: list_all_iff)

lemma table_block_outside: "k \<notin> {0..31} \<Longrightarrow> table_block k = []"
  by (auto simp: table_block_def)

lemma atom_table_blocks:
  "atom_table i = (case map_of (table_block (uint i div 16)) i of Some a \<Rightarrow> a | None \<Rightarrow> 0)"
proof -
  have "\<forall>k \<in> set [0..31]. \<forall>x \<in> set (table_block k). uint (fst x) div 16 = k"
    using table_block_keysD by force
  then show ?thesis
    using map_of_blocks [of "[0..31]" table_block "\<lambda>i. uint i div 16" i] table_block_outside
    by (auto simp: atom_table_def table_entries_blocks)
qed

section \<open>Every declared atom is found\<close>

text \<open>The name of an atom read from the line it starts on and the next one.\<close>

definition name_at :: "int \<Rightarrow> string" where
  "name_at x =
     (let s = x div 256; k = s div 60
      in take (nat (x mod 256)) (drop (nat (s mod 60)) (text_block k @ text_block (k + 1))))"

text \<open>The Go identifier of an atom: its name with a capital at the start and in place of
  each hyphen.\<close>

definition upper_letter :: "char \<Rightarrow> char" where
  "upper_letter c =
     (if 97 \<le> (of_char c :: int) \<and> (of_char c :: int) \<le> 122 then char_of (of_char c - 32 :: int) else c)"

fun camel :: "bool \<Rightarrow> string \<Rightarrow> string" where
  "camel up [] = []"
| "camel up (c # s) =
     (if c = CHR ''-'' then camel True s else (if up then upper_letter c else c) # camel False s)"

definition holds :: "int \<Rightarrow> Atom \<Rightarrow> bool" where
  "holds i a \<longleftrightarrow> map_of (table_block (i div 16)) (word_of_int i) = Some a"

definition hash_ok :: "Atom \<Rightarrow> int \<Rightarrow> bool" where
  "hash_ok a h \<longleftrightarrow> holds (h mod 512) a \<or> holds ((h div 65536) mod 512) a"

definition name_ok :: "string \<Rightarrow> Atom \<Rightarrow> int \<Rightarrow> string \<Rightarrow> bool" where
  "name_ok ident a x n \<longleftrightarrow> n \<noteq> [] \<and> x div 256 < 1860 \<and> length n = nat (x mod 256) \<and>
     x mod 256 \<le> 25 \<and> camel True n = ident \<and> hash_ok a (fnv_int 0x81cdf10e n)"

fun row_ok :: "string \<times> Atom \<Rightarrow> bool" where
  "row_ok (ident, a) = name_ok ident a (uint a) (name_at (uint a))"

lemma atoms_A1_ok: "list_all row_ok atoms_A1"
  by code_simp

lemma atoms_A2_ok: "list_all row_ok atoms_A2"
  by code_simp

lemma atoms_B_ok: "list_all row_ok atoms_B"
  by code_simp

lemma atoms_C_ok: "list_all row_ok atoms_C"
  by code_simp

lemma atoms_D_ok: "list_all row_ok atoms_D"
  by code_simp

lemma atoms_E_ok: "list_all row_ok atoms_E"
  by code_simp

lemma atoms_F_ok: "list_all row_ok atoms_F"
  by code_simp

lemma atoms_H_ok: "list_all row_ok atoms_H"
  by code_simp

lemma atoms_I_ok: "list_all row_ok atoms_I"
  by code_simp

lemma atoms_K_ok: "list_all row_ok atoms_K"
  by code_simp

lemma atoms_L_ok: "list_all row_ok atoms_L"
  by code_simp

lemma atoms_M1_ok: "list_all row_ok atoms_M1"
  by code_simp

lemma atoms_M2_ok: "list_all row_ok atoms_M2"
  by code_simp

lemma atoms_N_ok: "list_all row_ok atoms_N"
  by code_simp

lemma atoms_O1_ok: "list_all row_ok atoms_O1"
  by code_simp

lemma atoms_O2_ok: "list_all row_ok atoms_O2"
  by code_simp

lemma atoms_O3_ok: "list_all row_ok atoms_O3"
  by code_simp

lemma atoms_O4_ok: "list_all row_ok atoms_O4"
  by code_simp

lemma atoms_O5_ok: "list_all row_ok atoms_O5"
  by code_simp

lemma atoms_P_ok: "list_all row_ok atoms_P"
  by code_simp

lemma atoms_Q_ok: "list_all row_ok atoms_Q"
  by code_simp

lemma atoms_R_ok: "list_all row_ok atoms_R"
  by code_simp

lemma atoms_S1_ok: "list_all row_ok atoms_S1"
  by code_simp

lemma atoms_S2_ok: "list_all row_ok atoms_S2"
  by code_simp

lemma atoms_T_ok: "list_all row_ok atoms_T"
  by code_simp

lemma atoms_U_ok: "list_all row_ok atoms_U"
  by code_simp

lemma atoms_V_ok: "list_all row_ok atoms_V"
  by code_simp

lemma atoms_W_ok: "list_all row_ok atoms_W"
  by code_simp

lemma atoms_X_ok: "list_all row_ok atoms_X"
  by code_simp

lemma atom_constants_ok: "list_all row_ok atom_constants"
  by (simp add: atom_constants_def atoms_A1_ok atoms_A2_ok atoms_B_ok atoms_C_ok atoms_D_ok atoms_E_ok atoms_F_ok
    atoms_H_ok atoms_I_ok atoms_K_ok atoms_L_ok atoms_M1_ok atoms_M2_ok atoms_N_ok
    atoms_O1_ok atoms_O2_ok atoms_O3_ok atoms_O4_ok atoms_O5_ok atoms_P_ok atoms_Q_ok
    atoms_R_ok atoms_S1_ok atoms_S2_ok atoms_T_ok atoms_U_ok atoms_V_ok atoms_W_ok
    atoms_X_ok)

lemma holds_eq: "0 \<le> i \<Longrightarrow> i < 512 \<Longrightarrow> holds i a \<Longrightarrow> atom_table (word_of_int i) = a"
  by (simp add: holds_def atom_table_blocks uint_word_of_int)

lemma text_block_lengthD: "j < 30 \<Longrightarrow> length (text_block (int j)) = 60"
  using text_block_length by (simp add: list_all_iff)

lemma drop_atomText:
  assumes "k \<le> 30"
  shows "drop (60 * k) atomText =
    text_block (int k) @ text_block (int k + 1) @ concat (map (\<lambda>j. text_block (int j)) [k + 2..<31])"
proof -
  have "drop (60 * k) atomText = concat (map (\<lambda>j. text_block (int j)) [k..<Suc 30])"
    unfolding atomText_blocks using text_block_lengthD assms by (intro drop_blocks) auto
  moreover have "text_block (int k + 1) = []" if "\<not> Suc k < 31"
    using that by (simp add: text_block_def)
  ultimately show ?thesis
    using assms by (cases "Suc k < 31") (simp_all add: upt_conv_Cons add.commute del: upt_Suc)
qed

lemma length_atomText: "length atomText = 1834"
  by (simp add: atomText_def atomText_00_def atomText_01_def atomText_02_def atomText_03_def atomText_04_def
    atomText_05_def atomText_06_def atomText_07_def atomText_08_def atomText_09_def
    atomText_10_def atomText_11_def atomText_12_def atomText_13_def atomText_14_def
    atomText_15_def atomText_16_def atomText_17_def atomText_18_def atomText_19_def
    atomText_20_def atomText_21_def atomText_22_def atomText_23_def atomText_24_def
    atomText_25_def atomText_26_def atomText_27_def atomText_28_def atomText_29_def
    atomText_30_def)

lemma name_at_eq:
  assumes "uint a div 256 < 1860" and "name_at (uint a) \<noteq> []" and "length (name_at (uint a)) = nat (uint a mod 256)"
  shows "atom_name a = name_at (uint a)"
    and "unat (atom_start a) + unat (atom_len a) \<le> length atomText"
proof -
  define s where "s = unat (atom_start a)"
  define n where "n = unat (atom_len a)"
  define k where "k = s div 60"
  define B where "B = text_block (int k) @ text_block (int k + 1)"
  define R where "R = concat (map (\<lambda>j. text_block (int j)) [k + 2..<31])"
  have s: "s = nat (uint a div 256)" and n: "n = nat (uint a mod 256)"
    by (simp_all add: s_def n_def unat_eq_nat_uint uint_atom_start uint_atom_len)
  have at: "name_at (uint a) = take n (drop (s mod 60) B)"
    by (simp add: name_at_def Let_def s n k_def B_def zdiv_int nat_mod_distrib)
  have "k \<le> 30" using assms(1) by (simp add: k_def s)
  then have "drop (60 * k) atomText = B @ R" 
    by (simp add: drop_atomText B_def R_def)
  then have d: "drop s atomText = drop (s mod 60) (B @ R)"
    by (metis add.commute drop_drop k_def mult_div_mod_eq)
  have len: "n \<le> length (drop (s mod 60) B)"
    using assms(3) unfolding at n [symmetric] by simp
  then show "atom_name a = name_at (uint a)"
    by (simp add: atom_name_def s_def [symmetric] n_def [symmetric] d at)
  have "n \<le> length (drop s atomText)" using len d by simp
  moreover have "0 < n" using assms(2) at by auto
  ultimately show "unat (atom_start a) + unat (atom_len a) \<le> length atomText"
    by (simp add: s_def [symmetric] n_def [symmetric]) 
qed

text \<open>What the checked rows say of a declared atom.\<close>

lemma declared:
  assumes "(ident, a) \<in> set atom_constants"
  shows "atom_name a \<noteq> []" and "length (atom_name a) = unat (atom_len a)"
    and "length (atom_name a) \<le> maxAtomLen" and "camel True (atom_name a) = ident"
    and "Atom_string a = Inr (atom_name a)" and "Atom_String a = Inr (atom_name a)"
    and "atom_table (fnv hash0 (atom_name a) AND 511) = a \<or>
         atom_table (drop_bit 16 (fnv hash0 (atom_name a)) AND 511) = a"
proof -
  have row: "name_ok ident a (uint a) (name_at (uint a))"
    using atom_constants_ok assms by (auto simp: list_all_iff)
  then have n: "atom_name a = name_at (uint a)" 
    and fits: "unat (atom_start a) + unat (atom_len a) \<le> length atomText"
    using name_at_eq [of a] by (auto simp: name_ok_def)
  show nonempty: "atom_name a \<noteq> []" and "camel True (atom_name a) = ident"
    using row n by (auto simp: name_ok_def)
  have "nat (uint a mod 256) = unat (atom_len a)"
    by (simp add: unat_eq_nat_uint uint_atom_len)
  then show len: "length (atom_name a) = unat (atom_len a)" and "length (atom_name a) \<le> maxAtomLen"
    using row n by (auto simp: name_ok_def maxAtomLen_def)
  have sum: "unat (atom_start a + atom_len a) = unat (atom_start a) + unat (atom_len a)"
    using fits by (simp add: length_atomText unat_word_ariths)
  then show "Atom_string a = Inr (atom_name a)"
    using fits by (simp add: Atom_string_def go_slice_def atom_name_def)
  then show "Atom_String a = Inr (atom_name a)"
    using fits sum by (simp add: Atom_String_def Atom_string_def Let_def length_atomText word_less_nat_alt)
  define h where "h = fnv hash0 (atom_name a)"
  have h: "uint h = fnv_int 0x81cdf10e (atom_name a)"
    by (simp add: h_def uint_fnv hash0_def)
  have "holds (uint h mod 512) a \<or> holds ((uint h div 65536) mod 512) a"
    using row n h by (auto simp: name_ok_def hash_ok_def)
  moreover have "word_of_int (uint h mod 512) = h AND 511"
    using uint_and_511 [of h] by (metis word_of_int_uint)
  moreover have "word_of_int ((uint h div 65536) mod 512) = drop_bit 16 h AND 511"
    using uint_and_511 [of "drop_bit 16 h"] by (metis uint_drop_16 word_of_int_uint)
  ultimately show "atom_table (fnv hash0 (atom_name a) AND 511) = a \<or>
         atom_table (drop_bit 16 (fnv hash0 (atom_name a)) AND 511) = a"
    using holds_eq [of "uint h mod 512" a] holds_eq [of "(uint h div 65536) mod 512" a]
    by (auto simp: h_def)
qed

text \<open>The constants are declared in alphabetical order, so no identifier occurs twice.\<close>

fun str_less :: "string \<Rightarrow> string \<Rightarrow> bool" where
  "str_less [] t = (t \<noteq> [])"
| "str_less (c # s) [] = False"
| "str_less (c # s) (d # t) = ((of_char c :: int) < of_char d \<or> c = d \<and> str_less s t)"

fun ascending :: "string list \<Rightarrow> bool" where
  "ascending (s # t # ss) = (str_less s t \<and> ascending (t # ss))"
| "ascending ss = True"

lemma str_less_trans: "str_less s t \<Longrightarrow> str_less t u \<Longrightarrow> str_less s u"
proof (induction s t arbitrary: u rule: str_less.induct)
  case (1 t)
  then show ?case by (cases t; cases u) auto
next
  case (3 c s d t)
  then show ?case by (cases u) auto
qed simp

lemma str_less_irrefl: "\<not> str_less s s"
  by (induction s) auto

lemma ascending_less: "ascending (s # ss) \<Longrightarrow> t \<in> set ss \<Longrightarrow> str_less s t"
  by (induction "s # ss" arbitrary: s ss rule: ascending.induct) (auto dest: str_less_trans)

lemma ascending_distinct: "ascending ss \<Longrightarrow> distinct ss"
proof (induction ss rule: ascending.induct)
  case (1 s t ss)
  then show ?case using ascending_less str_less_irrefl by fastforce
qed auto

lemma atom_constants_ascending: "ascending (map fst atom_constants)"
  by code_simp

lemma length_atom_constants: "length atom_constants = 368"
  by (simp add: atom_constants_def atoms_A1_def atoms_A2_def atoms_B_def atoms_C_def atoms_D_def atoms_E_def atoms_F_def
    atoms_H_def atoms_I_def atoms_K_def atoms_L_def atoms_M1_def atoms_M2_def atoms_N_def
    atoms_O1_def atoms_O2_def atoms_O3_def atoms_O4_def atoms_O5_def atoms_P_def
    atoms_Q_def atoms_R_def atoms_S1_def atoms_S2_def atoms_T_def atoms_U_def atoms_V_def
    atoms_W_def atoms_X_def)

lemma declared_inj: "(i, a) \<in> set atom_constants \<Longrightarrow> (j, b) \<in> set atom_constants \<Longrightarrow> 
  atom_name a = atom_name b \<Longrightarrow> i = j \<and> a = b"
  using ascending_distinct [OF atom_constants_ascending] declared(4)
  by (metis eq_key_imp_eq_value)

lemma table_is_declared: "snd ` set table_entries = snd ` set atom_constants"
proof -
  have 1: "snd ` set atom_constants \<subseteq> snd ` set table_entries"
  proof
    fix a assume "a \<in> snd ` set atom_constants"
    then obtain i where a: "(i, a) \<in> set atom_constants" by auto
    then have "a \<noteq> 0"
      using declared(1,2) [OF a] by (auto simp: atom_len_def)
    then show "a \<in> snd ` set table_entries"
      using declared(7) [OF a] by (force simp: atom_table_def dest: map_of_SomeD split: option.splits)
  qed
  have "inj_on snd (set atom_constants)"
    using declared_inj by (intro inj_onI) (metis prod.collapse)
  then have "card (snd ` set atom_constants) = 368"
    using ascending_distinct [OF atom_constants_ascending] length_atom_constants
    by (metis card_image distinct_card distinct_map)
  moreover have "card (snd ` set table_entries) \<le> 368"
    using length_table_entries by (metis card_length length_map list.set_map)
  ultimately show ?thesis
    using 1 by (metis card_seteq finite_imageI finite_set)
qed

definition declared_atoms :: "(string \<times> Atom) list" where
  "declared_atoms = map (\<lambda>(ident, a). (atom_name a, a)) atom_constants"

lemma distinct_declared_atoms: "distinct (map fst declared_atoms)"
proof -
  have "distinct atom_constants"
    using ascending_distinct [OF atom_constants_ascending] by (simp add: distinct_map)
  moreover have "inj_on (fst \<circ> (\<lambda>(ident, a). (atom_name a, a))) (set atom_constants)"
    using declared_inj by (fastforce simp: inj_on_def)
  ultimately show ?thesis by (simp add: declared_atoms_def distinct_map)
qed

lemma declared_atoms_iff:
  "map_of declared_atoms s = Some a \<longleftrightarrow> s = atom_name a \<and> a \<in> snd ` set atom_constants"
  using distinct_declared_atoms
  by (force simp: declared_atoms_def dest: map_of_SomeD intro: map_of_is_SomeI)

section \<open>Lookup is the map of the declared atoms\<close>

lemma match_from_eq:
  "i + length t = length s \<Longrightarrow> match_from i s t = Inr (drop i s = t)"
proof (induction t arbitrary: i)
  case (Cons c t)
  then have "drop i s = s ! i # drop (Suc i) s" by (simp add: Cons_nth_drop_Suc)
  with Cons show ?case by auto
qed simp

lemma atom_match_eq: "length s = length t \<Longrightarrow> atom_match s t = Inr (s = t)"
  by (simp add: atom_match_def match_from_eq)

lemma atom_table_cases: "atom_table i = 0 \<or> atom_table i \<in> snd ` set atom_constants"
  unfolding table_is_declared [symmetric] atom_table_def
  by (force dest: map_of_SomeD split: option.splits)

lemma probe_eq:
  assumes "s \<noteq> []"
  shows "probe i s = Inr (map_of declared_atoms s = Some (atom_table i))"
proof (cases "atom_table i = 0")
  case True
  have "0 \<notin> snd ` set atom_constants"
    using declared(1,2) by (fastforce simp: atom_len_def)
  with True assms show ?thesis
    by (simp add: probe_def atom_len_def declared_atoms_iff)
next
  case False
  then obtain ident where a: "(ident, atom_table i) \<in> set atom_constants"
    using atom_table_cases [of i] by auto
  then have "atom_table i \<in> snd ` set atom_constants" by force
  with a show ?thesis
    using declared [OF a] atom_match_eq [of "atom_name (atom_table i)" s]
    by (auto simp: probe_def Let_def declared_atoms_iff)
qed

lemma Lookup_declared:
  "Lookup s = Inr (case map_of declared_atoms s of Some a \<Rightarrow> a | None \<Rightarrow> 0)"
proof (cases "map_of declared_atoms s")
  case None
  then show ?thesis by (simp add: Lookup_def probe_eq Let_def)
next
  case (Some a)
  then obtain ident where a: "(ident, a) \<in> set atom_constants" and s: "s = atom_name a"
    by (auto simp: declared_atoms_iff)
  then have "s \<noteq> []" and "length s \<le> maxAtomLen" using declared [OF a] by auto
  then show ?thesis
    using Some declared(7) [OF a] s by (auto simp: Lookup_def Let_def probe_eq)
qed

lemma String_id: "String s = Inr s"
proof (cases "map_of declared_atoms s")
  case (Some a)
  then have "Atom_String a = Inr s"
    using declared(6) by (auto simp: declared_atoms_iff)
  with Some show ?thesis by (simp add: String_def Lookup_declared)
qed (simp add: String_def Lookup_declared)

text \<open>C39. Looking up a string in the packed table never panics and gives exactly the atom
  declared with that name, or zero when there is none; converting through the table returns
  the string itself. Every declared atom is non-zero, prints its name, is found under it,
  and is declared under the identifier its name spells.\<close>

theorem Lookup_exactly:
  "Lookup s = Inr (case map_of declared_atoms s of Some a \<Rightarrow> a | None \<Rightarrow> 0) \<and>
   String s = Inr s \<and> distinct (map fst declared_atoms) \<and>
   list_all (\<lambda>(ident, a). a \<noteq> 0 \<and> Atom_String a = Inr (atom_name a) \<and>
     Lookup (atom_name a) = Inr a \<and> camel True (atom_name a) = ident) atom_constants"
proof -
  have "a \<noteq> 0 \<and> Atom_String a = Inr (atom_name a) \<and> Lookup (atom_name a) = Inr a \<and>
      camel True (atom_name a) = ident" if a: "(ident, a) \<in> set atom_constants" for ident a
  proof -
    have "map_of declared_atoms (atom_name a) = Some a"
      using a by (force simp: declared_atoms_iff)
    then show ?thesis
      using declared [OF a] by (auto simp: Lookup_declared atom_len_def)
  qed
  then show ?thesis
    by (auto simp: Lookup_declared String_id distinct_declared_atoms list_all_iff)
qed

end
