(* ===== verification/Html_Node.thy ===== *)
theory Html_Node
  imports Html_Atom
begin

text \<open>
  \<^verbatim>\<open>golang.org/x/net/html/node.go\<close>: the mutable node tree and the parser's stacks. Nodes
  live in a memory from addresses to nodes; a pointer is \<open>nil\<close> (\<open>None\<close>) or an address.
  The abstract view is a map \<open>K\<close> from each node to the list of its children, and
  \<open>wf_dom\<close> says that the five pointer fields of every node spell out that map. Each
  operation on pointers is shown to do the corresponding operation on the lists.
\<close>

section \<open>Nodes and memory\<close>

datatype NodeType =
  ErrorNode | TextNode | DocumentNode | ElementNode | CommentNode | DoctypeNode | ScopeMarkerNode

record Attribute =
  attr_Namespace :: string
  attr_Key :: string
  attr_Val :: string

record Node =
  Parent :: ptr
  FirstChild :: ptr
  LastChild :: ptr
  PrevSibling :: ptr
  NextSibling :: ptr
  NType :: NodeType
  DataAtom :: Atom
  Data :: string
  Namespace :: string
  Attr :: "Attribute list"

type_synonym memory = "nat \<Rightarrow> Node"

text \<open>A memory together with the first address not handed out yet.\<close>

record dom_store =
  mem :: memory
  brk :: nat

definition new_Node :: Node where
  "new_Node = \<lparr>Parent = None, FirstChild = None, LastChild = None, PrevSibling = None,
     NextSibling = None, NType = ErrorNode, DataAtom = 0, Data = [], Namespace = [], Attr = []\<rparr>"

definition scopeMarker :: Node where
  "scopeMarker = new_Node\<lparr>NType := ScopeMarkerNode\<rparr>"

definition upd :: "nat \<Rightarrow> (Node \<Rightarrow> Node) \<Rightarrow> memory \<Rightarrow> memory" where
  "upd a f m = m(a := f (m a))"

section \<open>Operations on the tree\<close>

definition InsertBefore :: "nat \<Rightarrow> nat \<Rightarrow> ptr \<Rightarrow> memory \<Rightarrow> memory go" where
  "InsertBefore n newChild oldChild m =
     (if Parent (m newChild) \<noteq> None \<or> PrevSibling (m newChild) \<noteq> None \<or>
         NextSibling (m newChild) \<noteq> None
      then Inl (PanicWith ''html: InsertBefore called for an attached child Node'')
      else
        let (prev, next) =
              (case oldChild of
                 Some oc \<Rightarrow> (PrevSibling (m oc), Some oc)
               | None \<Rightarrow> (LastChild (m n), None));
            m1 = (case prev of
                    Some p \<Rightarrow> upd p (\<lambda>x. x\<lparr>NextSibling := Some newChild\<rparr>) m
                  | None \<Rightarrow> upd n (\<lambda>x. x\<lparr>FirstChild := Some newChild\<rparr>) m);
            m2 = (case next of
                    Some q \<Rightarrow> upd q (\<lambda>x. x\<lparr>PrevSibling := Some newChild\<rparr>) m1
                  | None \<Rightarrow> upd n (\<lambda>x. x\<lparr>LastChild := Some newChild\<rparr>) m1)
        in Inr (upd newChild
             (\<lambda>x. x\<lparr>Parent := Some n, PrevSibling := prev, NextSibling := next\<rparr>) m2))"

definition AppendChild :: "nat \<Rightarrow> nat \<Rightarrow> memory \<Rightarrow> memory go" where
  "AppendChild n c m =
     (if Parent (m c) \<noteq> None \<or> PrevSibling (m c) \<noteq> None \<or> NextSibling (m c) \<noteq> None
      then Inl (PanicWith ''html: AppendChild called for an attached child Node'')
      else
        let lst = LastChild (m n);
            m1 = (case lst of
                    Some l \<Rightarrow> upd l (\<lambda>x. x\<lparr>NextSibling := Some c\<rparr>) m
                  | None \<Rightarrow> upd n (\<lambda>x. x\<lparr>FirstChild := Some c\<rparr>) m);
            m2 = upd n (\<lambda>x. x\<lparr>LastChild := Some c\<rparr>) m1
        in Inr (upd c (\<lambda>x. x\<lparr>Parent := Some n, PrevSibling := lst\<rparr>) m2))"

definition RemoveChild :: "nat \<Rightarrow> nat \<Rightarrow> memory \<Rightarrow> memory go" where
  "RemoveChild n c m =
     (if Parent (m c) \<noteq> Some n
      then Inl (PanicWith ''html: RemoveChild called for a non-child Node'')
      else
        let m1 = (if FirstChild (m n) = Some c
                  then upd n (\<lambda>x. x\<lparr>FirstChild := NextSibling (m c)\<rparr>) m else m);
            m2 = (case NextSibling (m1 c) of
                    Some s \<Rightarrow> upd s (\<lambda>x. x\<lparr>PrevSibling := PrevSibling (m1 c)\<rparr>) m1
                  | None \<Rightarrow> m1);
            m3 = (if LastChild (m2 n) = Some c
                  then upd n (\<lambda>x. x\<lparr>LastChild := PrevSibling (m2 c)\<rparr>) m2 else m2);
            m4 = (case PrevSibling (m3 c) of
                    Some s \<Rightarrow> upd s (\<lambda>x. x\<lparr>NextSibling := NextSibling (m3 c)\<rparr>) m3
                  | None \<Rightarrow> m3)
        in Inr (upd c (\<lambda>x. x\<lparr>Parent := None, PrevSibling := None, NextSibling := None\<rparr>) m4))"

text \<open>The loop of \<open>reparentChildren\<close> ends only when \<open>src\<close> has no child left, so it may
  run forever on a broken list: \<open>None\<close> is "does not return".\<close>

partial_function (option) reparentChildren :: "nat \<Rightarrow> nat \<Rightarrow> memory \<Rightarrow> memory go option" where
  "reparentChildren dst src m =
     (case FirstChild (m src) of
        None \<Rightarrow> Some (Inr m)
      | Some child \<Rightarrow>
          (case RemoveChild src child m of
             Inl e \<Rightarrow> Some (Inl e)
           | Inr m1 \<Rightarrow>
               (case AppendChild dst child m1 of
                  Inl e \<Rightarrow> Some (Inl e)
                | Inr m2 \<Rightarrow> reparentChildren dst src m2)))"

definition clone :: "nat \<Rightarrow> dom_store \<Rightarrow> nat \<times> dom_store" where
  "clone n s =
     (let x = mem s n;
          c = new_Node\<lparr>NType := NType x, DataAtom := DataAtom x, Data := Data x,
                Attr := go_copy
                  (replicate (length (Attr x)) \<lparr>attr_Namespace = [], attr_Key = [], attr_Val = []\<rparr>)
                  (Attr x)\<rparr>
      in (brk s, \<lparr>mem = (mem s)(brk s := c), brk = Suc (brk s)\<rparr>))"

section \<open>The parser's stacks\<close>

definition stack_pop :: "'a list \<Rightarrow> ('a \<times> 'a list) go" where
  "stack_pop s =
     go_bind (go_index s (int (length s) - 1)) (\<lambda>n. Inr (n, take (length s - 1) s))"

definition stack_top :: "'a list \<Rightarrow> 'a option" where
  "stack_top s = (if 0 < length s then Some (s ! (length s - 1)) else None)"

fun index_loop :: "nat \<Rightarrow> 'a list \<Rightarrow> 'a \<Rightarrow> int" where
  "index_loop 0 s n = -1"
| "index_loop (Suc i) s n = (if s ! i = n then int i else index_loop i s n)"

definition stack_index :: "'a list \<Rightarrow> 'a \<Rightarrow> int" where
  "stack_index s n = index_loop (length s) s n"

fun stack_contains :: "memory \<Rightarrow> ptr list \<Rightarrow> Atom \<Rightarrow> bool go" where
  "stack_contains m [] a = Inr False"
| "stack_contains m (n # s) a =
     (case n of
        None \<Rightarrow> Inl NilDereference
      | Some x \<Rightarrow> if DataAtom (m x) = a then Inr True else stack_contains m s a)"

definition stack_insert :: "'a \<Rightarrow> 'a list \<Rightarrow> nat \<Rightarrow> 'a \<Rightarrow> 'a list go" where
  "stack_insert nil s i n =
     (let s1 = s @ [nil]
      in if length s1 < Suc i then Inl IndexOutOfRange
         else go_store (take (Suc i) s1 @ go_copy (drop (Suc i) s1) (drop i s1)) (int i) n)"

definition stack_remove :: "'a \<Rightarrow> 'a list \<Rightarrow> 'a \<Rightarrow> 'a list" where
  "stack_remove nil s n =
     (let i = stack_index s n
      in if i = -1 then s
         else let k = nat i;
                  s1 = take k s @ go_copy (drop k s) (drop (Suc k) s);
                  j = length s1 - 1
              in take j (s1[j := nil]))"

section \<open>Sibling lists\<close>

definition first_of :: "nat list \<Rightarrow> ptr \<Rightarrow> ptr" where
  "first_of cs d = (case cs of [] \<Rightarrow> d | c # _ \<Rightarrow> Some c)"

definition last_of :: "ptr \<Rightarrow> nat list \<Rightarrow> ptr" where
  "last_of d cs = (if cs = [] then d else Some (last cs))"

lemma first_of_simps [simp]: "first_of [] d = d" "first_of (c # cs) d = Some c"
  by (simp_all add: first_of_def)

lemma last_of_simps [simp]: "last_of d [] = d" "last_of d (cs @ [c]) = Some c"
  "last_of d (c # cs) = last_of (Some c) cs"
  by (auto simp: last_of_def)

lemma first_of_append [simp]: "first_of (cs @ ds) d = first_of cs (first_of ds d)"
  by (cases cs) auto

lemma last_of_append [simp]: "last_of d (cs @ ds) = last_of (last_of d cs) ds"
  by (induction ds rule: rev_induct) (auto simp flip: append_assoc)

text \<open>\<open>linked m p prev cs next\<close>: the nodes \<open>cs\<close> are chained in both directions between
  \<open>prev\<close> and \<open>next\<close> and have the parent \<open>p\<close>.\<close>

primrec linked :: "memory \<Rightarrow> nat \<Rightarrow> ptr \<Rightarrow> nat list \<Rightarrow> ptr \<Rightarrow> bool" where
  "linked m p prev [] next \<longleftrightarrow> True"
| "linked m p prev (c # cs) next \<longleftrightarrow>
     Parent (m c) = Some p \<and> PrevSibling (m c) = prev \<and> NextSibling (m c) = first_of cs next \<and>
     linked m p (Some c) cs next"

lemma linked_append [simp]:
  "linked m p prev (cs @ ds) next \<longleftrightarrow>
     linked m p prev cs (first_of ds next) \<and> linked m p (last_of prev cs) ds next"
  by (induction cs arbitrary: prev) auto

lemma linked_cong:
  "(\<And>c. c \<in> set cs \<Longrightarrow> Parent (m' c) = Parent (m c) \<and> PrevSibling (m' c) = PrevSibling (m c) \<and>
      NextSibling (m' c) = NextSibling (m c)) \<Longrightarrow>
   linked m' p prev cs next = linked m p prev cs next"
  by (induction cs arbitrary: prev) auto

lemma linked_Parent: "linked m p prev cs next \<Longrightarrow> c \<in> set cs \<Longrightarrow> Parent (m c) = Some p"
  by (induction cs arbitrary: prev) auto

text \<open>Relinking the end or the start of a chain.\<close>

lemma linked_new_next:
  "linked m p prev (cs @ [c]) next \<Longrightarrow> c \<notin> set cs \<Longrightarrow>
   (\<And>x. x \<in> set cs \<Longrightarrow> Parent (m' x) = Parent (m x) \<and> PrevSibling (m' x) = PrevSibling (m x) \<and>
      NextSibling (m' x) = NextSibling (m x)) \<Longrightarrow>
   Parent (m' c) = Parent (m c) \<Longrightarrow> PrevSibling (m' c) = PrevSibling (m c) \<Longrightarrow>
   NextSibling (m' c) = next' \<Longrightarrow> linked m' p prev (cs @ [c]) next'"
  using linked_cong [of cs m' m p prev "Some c"] by auto

section \<open>The abstract tree\<close>

text \<open>
  \<open>wf_dom m K\<close>: the pointer fields represent the child lists \<open>K\<close>. The children of a
  node are distinct, none is the node itself, first and last child are the ends of the list,
  the list is chained; a node without a parent has no siblings, and a node with a parent is in
  the parent's list (so the lists of different nodes are disjoint).
\<close>

definition wf_dom :: "memory \<Rightarrow> (nat \<Rightarrow> nat list) \<Rightarrow> bool" where
  "wf_dom m K \<longleftrightarrow>
     (\<forall>n. distinct (K n) \<and> n \<notin> set (K n) \<and> FirstChild (m n) = first_of (K n) None \<and>
          LastChild (m n) = last_of None (K n) \<and> linked m n None (K n) None) \<and>
     (\<forall>c. Parent (m c) = None \<longrightarrow> PrevSibling (m c) = None \<and> NextSibling (m c) = None) \<and>
     (\<forall>c n. Parent (m c) = Some n \<longrightarrow> c \<in> set (K n))"

definition detached :: "memory \<Rightarrow> nat \<Rightarrow> bool" where
  "detached m c \<longleftrightarrow> Parent (m c) = None \<and> PrevSibling (m c) = None \<and> NextSibling (m c) = None"

definition same_payload :: "memory \<Rightarrow> memory \<Rightarrow> bool" where
  "same_payload m m' \<longleftrightarrow> (\<forall>a. NType (m' a) = NType (m a) \<and> DataAtom (m' a) = DataAtom (m a) \<and>
     Data (m' a) = Data (m a) \<and> Namespace (m' a) = Namespace (m a) \<and> Attr (m' a) = Attr (m a))"

lemma wf_dom_Parent: "wf_dom m K \<Longrightarrow> Parent (m c) = Some n \<longleftrightarrow> c \<in> set (K n)"
  unfolding wf_dom_def by (metis linked_Parent)

lemma wf_dom_node:
  assumes "wf_dom m K"
  shows "distinct (K n)" and "n \<notin> set (K n)" and "FirstChild (m n) = first_of (K n) None"
    and "LastChild (m n) = last_of None (K n)" and "linked m n None (K n) None"
  using assms by (simp_all add: wf_dom_def)

lemma wf_dom_disjoint: "wf_dom m K \<Longrightarrow> c \<in> set (K n) \<Longrightarrow> c \<in> set (K n') \<Longrightarrow> n = n'"
  by (metis wf_dom_Parent option.inject)

lemma wf_dom_detached: "wf_dom m K \<Longrightarrow> detached m c \<longleftrightarrow> (\<forall>n. c \<notin> set (K n))"
  unfolding detached_def by (metis wf_dom_Parent wf_dom_def not_None_eq)


lemma upd_same [simp]: "upd a f m a = f (m a)"
  by (simp add: upd_def)

lemma upd_other [simp]: "x \<noteq> a \<Longrightarrow> upd a f m x = m x"
  by (simp add: upd_def)

text \<open>Assigning one pointer field of one node leaves the other fields of every node alone.\<close>

lemma upd_field [simp]:
  "FirstChild (upd a (FirstChild_update f) m x) = (if x = a then f (FirstChild (m a)) else FirstChild (m x))"
  "LastChild (upd a (LastChild_update f) m x) = (if x = a then f (LastChild (m a)) else LastChild (m x))"
  "PrevSibling (upd a (PrevSibling_update f) m x) = (if x = a then f (PrevSibling (m a)) else PrevSibling (m x))"
  "NextSibling (upd a (NextSibling_update f) m x) = (if x = a then f (NextSibling (m a)) else NextSibling (m x))"
  by (simp_all add: upd_def)

lemma upd_frame [simp]:
  "Parent (upd a (FirstChild_update f) m x) = Parent (m x)"
  "LastChild (upd a (FirstChild_update f) m x) = LastChild (m x)"
  "PrevSibling (upd a (FirstChild_update f) m x) = PrevSibling (m x)"
  "NextSibling (upd a (FirstChild_update f) m x) = NextSibling (m x)"
  "Parent (upd a (LastChild_update f) m x) = Parent (m x)"
  "FirstChild (upd a (LastChild_update f) m x) = FirstChild (m x)"
  "PrevSibling (upd a (LastChild_update f) m x) = PrevSibling (m x)"
  "NextSibling (upd a (LastChild_update f) m x) = NextSibling (m x)"
  "Parent (upd a (PrevSibling_update f) m x) = Parent (m x)"
  "FirstChild (upd a (PrevSibling_update f) m x) = FirstChild (m x)"
  "LastChild (upd a (PrevSibling_update f) m x) = LastChild (m x)"
  "NextSibling (upd a (PrevSibling_update f) m x) = NextSibling (m x)"
  "Parent (upd a (NextSibling_update f) m x) = Parent (m x)"
  "FirstChild (upd a (NextSibling_update f) m x) = FirstChild (m x)"
  "LastChild (upd a (NextSibling_update f) m x) = LastChild (m x)"
  "PrevSibling (upd a (NextSibling_update f) m x) = PrevSibling (m x)"
  by (simp_all add: upd_def)

lemma same_payload_refl [simp]: "same_payload m m"
  by (simp add: same_payload_def)

lemma same_payload_trans: "same_payload m1 m2 \<Longrightarrow> same_payload m2 m3 \<Longrightarrow> same_payload m1 m3"
  by (simp add: same_payload_def)

lemma same_payload_upd [simp]:
  "same_payload m (upd a (Parent_update f) m1) = same_payload m m1"
  "same_payload m (upd a (FirstChild_update f) m1) = same_payload m m1"
  "same_payload m (upd a (LastChild_update f) m1) = same_payload m m1"
  "same_payload m (upd a (PrevSibling_update f) m1) = same_payload m m1"
  "same_payload m (upd a (NextSibling_update f) m1) = same_payload m m1"
  by (auto simp: same_payload_def upd_def)

definition unlinked :: "nat \<Rightarrow> nat \<Rightarrow> memory \<Rightarrow> memory \<Rightarrow> bool" where
  "unlinked n c m m' \<longleftrightarrow> same_payload m m' \<and> detached m' c \<and>
     (\<forall>x. FirstChild (m' x) =
        (if x = n \<and> FirstChild (m n) = Some c then NextSibling (m c) else FirstChild (m x))) \<and>
     (\<forall>x. LastChild (m' x) =
        (if x = n \<and> LastChild (m n) = Some c then PrevSibling (m c) else LastChild (m x))) \<and>
     (\<forall>x. x \<noteq> c \<longrightarrow> Parent (m' x) = Parent (m x) \<and>
        PrevSibling (m' x) =
          (if NextSibling (m c) = Some x then PrevSibling (m c) else PrevSibling (m x)) \<and>
        NextSibling (m' x) =
          (if PrevSibling (m c) = Some x then NextSibling (m c) else NextSibling (m x)))"

lemma RemoveChild_unlinked:
  assumes "Parent (m c) = Some n" and "n \<noteq> c"
    and "PrevSibling (m c) \<noteq> Some c" and "NextSibling (m c) \<noteq> Some c"
  shows "\<exists>m'. RemoveChild n c m = Inr m' \<and> unlinked n c m m'"
proof -
  define m1 where "m1 = (if FirstChild (m n) = Some c
    then upd n (\<lambda>x. x\<lparr>FirstChild := NextSibling (m c)\<rparr>) m else m)"
  define m2 where "m2 = (case NextSibling (m1 c) of
    Some s \<Rightarrow> upd s (\<lambda>x. x\<lparr>PrevSibling := PrevSibling (m1 c)\<rparr>) m1 | None \<Rightarrow> m1)"
  define m3 where "m3 = (if LastChild (m2 n) = Some c
    then upd n (\<lambda>x. x\<lparr>LastChild := PrevSibling (m2 c)\<rparr>) m2 else m2)"
  define m4 where "m4 = (case PrevSibling (m3 c) of
    Some s \<Rightarrow> upd s (\<lambda>x. x\<lparr>NextSibling := NextSibling (m3 c)\<rparr>) m3 | None \<Rightarrow> m3)"
  have 1: "FirstChild (m1 x) = (if x = n \<and> FirstChild (m n) = Some c then NextSibling (m c) else FirstChild (m x))"
    "LastChild (m1 x) = LastChild (m x)" "Parent (m1 x) = Parent (m x)"
    "PrevSibling (m1 x) = PrevSibling (m x)" "NextSibling (m1 x) = NextSibling (m x)"
    "same_payload m m1" for x
    by (simp_all add: m1_def)
  have 2: "FirstChild (m2 x) = FirstChild (m1 x)" "LastChild (m2 x) = LastChild (m x)" "Parent (m2 x) = Parent (m x)"
    "PrevSibling (m2 x) = (if NextSibling (m c) = Some x then PrevSibling (m c) else PrevSibling (m x))"
    "NextSibling (m2 x) = NextSibling (m x)" "same_payload m m2" for x
    using assms(4) by (auto simp: m2_def 1 split: option.splits)
  have 3: "FirstChild (m3 x) = FirstChild (m1 x)" "Parent (m3 x) = Parent (m x)"
    "LastChild (m3 x) = (if x = n \<and> LastChild (m n) = Some c then PrevSibling (m c) else LastChild (m x))"
    "PrevSibling (m3 x) = PrevSibling (m2 x)" "NextSibling (m3 x) = NextSibling (m x)" "same_payload m m3" for x
    using assms(4) by (simp_all add: m3_def 2)
  have 4: "FirstChild (m4 x) = FirstChild (m1 x)" "Parent (m4 x) = Parent (m x)"
    "LastChild (m4 x) = LastChild (m3 x)" "PrevSibling (m4 x) = PrevSibling (m2 x)"
    "NextSibling (m4 x) = (if PrevSibling (m c) = Some x then NextSibling (m c) else NextSibling (m x))"
    "same_payload m m4" for x
    using assms(3,4) by (auto simp: m4_def 3 2 split: option.splits)
  have "RemoveChild n c m =
      Inr (upd c (\<lambda>x. x\<lparr>Parent := None, PrevSibling := None, NextSibling := None\<rparr>) m4)"
    unfolding RemoveChild_def Let_def m4_def m3_def m2_def m1_def
    by (simp only: assms(1) simp_thms if_False)
  moreover have "same_payload m
      (upd c (\<lambda>x. x\<lparr>Parent := None, PrevSibling := None, NextSibling := None\<rparr>) m4)"
    using 4(6) by (simp add: same_payload_def upd_def)
  ultimately show ?thesis
    by (simp add: unlinked_def upd_def detached_def 1 2 3 4)
qed


lemma linked_neighbours:
  "linked m p prev (xs @ c # ys) next \<Longrightarrow>
   Parent (m c) = Some p \<and> PrevSibling (m c) = last_of prev xs \<and> NextSibling (m c) = first_of ys next"
  by simp

lemma last_of_None_iff: "last_of d xs = None \<longleftrightarrow> d = None \<and> xs = []"
  by (auto simp: last_of_def)

lemma first_of_None_iff: "first_of xs d = None \<longleftrightarrow> d = None \<and> xs = []"
  by (cases xs) auto

lemma last_of_mem: "last_of None xs = Some x \<Longrightarrow> x \<in> set xs"
  by (auto simp: last_of_def split: if_splits)

lemma first_of_mem: "first_of xs None = Some x \<Longrightarrow> x \<in> set xs"
  by (cases xs) auto

lemma unlinked_keep:
  assumes "unlinked n c m m'" and "x \<noteq> c"
  shows "Parent (m' x) = Parent (m x)"
    and "NextSibling (m c) \<noteq> Some x \<Longrightarrow> PrevSibling (m' x) = PrevSibling (m x)"
    and "PrevSibling (m c) \<noteq> Some x \<Longrightarrow> NextSibling (m' x) = NextSibling (m x)"
    and "NextSibling (m c) = Some x \<Longrightarrow> PrevSibling (m' x) = PrevSibling (m c)"
    and "PrevSibling (m c) = Some x \<Longrightarrow> NextSibling (m' x) = NextSibling (m c)"
  using assms by (simp_all add: unlinked_def)

text \<open>Removing a node from the middle of a chain leaves a chain.\<close>

lemma linked_remove:
  assumes lnk: "linked m p None (xs @ c # ys) None" and dist: "distinct (xs @ c # ys)"
    and un: "unlinked p c m m'"
  shows "linked m' p None (xs @ ys) None"
proof -
  have c: "PrevSibling (m c) = last_of None xs" "NextSibling (m c) = first_of ys None"
    using lnk by auto
  have keepP: "PrevSibling (m' x) = PrevSibling (m x)" if "x \<noteq> c" "x \<notin> set ys" for x
    using unlinked_keep(2) [OF un that(1)] c(2) that(2) first_of_mem by metis
  have keepN: "NextSibling (m' x) = NextSibling (m x)" if "x \<noteq> c" "x \<notin> set xs" for x
    using unlinked_keep(3) [OF un that(1)] c(1) that(2) last_of_mem by metis
  have left: "linked m' p None xs (first_of ys None)"
  proof (cases xs rule: rev_cases)
    case (snoc zs b)
    have zs: "x \<noteq> c \<and> x \<notin> set ys \<and> x \<noteq> b" if "x \<in> set zs" for x
      using that dist snoc by auto
    have b: "b \<noteq> c" "b \<notin> set ys" "b \<notin> set zs" "PrevSibling (m c) = Some b"
      using dist snoc c by auto
    have "NextSibling (m' x) = NextSibling (m x)" if "x \<in> set zs" for x
      using unlinked_keep(3) [OF un] zs [OF that] b(4) by simp
    moreover have "linked m p None (zs @ [b]) (Some c)" using lnk snoc by auto
    ultimately show ?thesis
      using linked_new_next [of m p None zs b "Some c" m' "first_of ys None"]
        unlinked_keep(1,5) [OF un] keepP zs b c snoc by simp
  qed simp
  have right: "linked m' p (last_of None xs) ys None"
  proof (cases ys)
    case (Cons d zs)
    have zs: "x \<noteq> c \<and> x \<notin> set xs \<and> x \<noteq> d" if "x \<in> set zs" for x
      using that dist Cons by auto
    have "PrevSibling (m' x) = PrevSibling (m x)" if "x \<in> set zs" for x
      using unlinked_keep(2) [OF un] zs [OF that] c(2) Cons by simp
    then have "linked m' p (Some d) zs None = linked m p (Some d) zs None"
      by (intro linked_cong) (simp add: zs unlinked_keep(1) [OF un] keepN)
    moreover have "d \<noteq> c" "d \<notin> set xs" using dist Cons by auto
    ultimately show ?thesis
      using lnk Cons unlinked_keep(1,4) [OF un, of d] keepN [of d] c by simp
  qed simp
  from left right show ?thesis by simp
qed

text \<open>Sibling lists that do not hold the node are untouched.\<close>

lemma linked_remove_other:
  assumes "unlinked n c m m'" and "\<And>x. x \<in> set cs \<Longrightarrow> x \<noteq> c \<and> PrevSibling (m c) \<noteq> Some x \<and> NextSibling (m c) \<noteq> Some x"
  shows "linked m' p prev cs next = linked m p prev cs next"
  by (rule linked_cong) (simp add: assms(2) unlinked_keep [OF assms(1)])

lemma unlinked_loose:
  assumes wf: "wf_dom m K" and mem: "c \<in> set (K n)" and un: "unlinked n c m m'"
    and "Parent (m' x) = None"
  shows "PrevSibling (m' x) = None \<and> NextSibling (m' x) = None"
proof (cases "x = c")
  case True
  with un show ?thesis by (simp add: unlinked_def detached_def)
next
  case False
  obtain xs ys where split: "K n = xs @ c # ys" using mem by (meson split_list)
  have c: "PrevSibling (m c) = last_of None xs" "NextSibling (m c) = first_of ys None"
    using wf_dom_node(5) [OF wf, of n] split by auto
  have "Parent (m x) = None" using assms(4) unlinked_keep(1) [OF un False] by simp
  moreover from this have "x \<notin> set (K n)" using wf_dom_Parent [OF wf, of x n] by simp
  ultimately show ?thesis
    using unlinked_keep(2,3) [OF un False] wf split c last_of_mem first_of_mem
    unfolding wf_dom_def by fastforce
qed

lemma unlinked_wf_dom:
  assumes wf: "wf_dom m K" and split: "K n = xs @ c # ys" and un: "unlinked n c m m'"
  shows "wf_dom m' (K(n := xs @ ys))"
  unfolding wf_dom_def
proof (intro conjI allI impI)
  note n = wf_dom_node [OF wf, of n]
  have c: "PrevSibling (m c) = last_of None xs" "NextSibling (m c) = first_of ys None"
    using n(5) split by auto
  fix k
  show "distinct ((K(n := xs @ ys)) k)" "k \<notin> set ((K(n := xs @ ys)) k)"
    using n(1,2) wf_dom_node(1,2) [OF wf, of k] split by auto
  show "FirstChild (m' k) = first_of ((K(n := xs @ ys)) k) None"
    "LastChild (m' k) = last_of None ((K(n := xs @ ys)) k)"
    using un wf_dom_node(3,4) [OF wf, of k] n(1) split c unfolding unlinked_def
    by (cases xs; cases ys rule: rev_cases; auto)+
  show "linked m' k None ((K(n := xs @ ys)) k) None"
  proof (cases "k = n")
    case True
    then show ?thesis using linked_remove [OF _ _ un, of xs ys] n(1,5) split by simp
  next
    case False
    then have "x \<notin> set (K n)" if "x \<in> set (K k)" for x
      using wf_dom_disjoint [OF wf that] by blast
    then have "linked m' k None (K k) None = linked m k None (K k) None"
      using split c last_of_mem first_of_mem by (intro linked_remove_other [OF un]) fastforce
    then show ?thesis using False wf_dom_node(5) [OF wf, of k] by simp
  qed
next
  fix x
  assume "Parent (m' x) = None"
  then show "PrevSibling (m' x) = None" "NextSibling (m' x) = None"
    using unlinked_loose [OF wf _ un] split by auto
next
  fix x k
  assume x: "Parent (m' x) = Some k"
  then have "x \<noteq> c" using un by (auto simp: unlinked_def detached_def)
  then have "x \<in> set (K k)" using x unlinked_keep(1) [OF un] wf_dom_Parent [OF wf] by simp
  with \<open>x \<noteq> c\<close> split show "x \<in> set ((K(n := xs @ ys)) k)" by auto
qed

lemma RemoveChild_wf:
  assumes wf: "wf_dom m K" and mem: "c \<in> set (K n)"
  obtains m' where "RemoveChild n c m = Inr m'" and "wf_dom m' (K(n := remove1 c (K n)))"
    and "detached m' c" and "same_payload m m'"
proof -
  obtain xs ys where split: "K n = xs @ c # ys" using mem by (meson split_list)
  note n = wf_dom_node [OF wf, of n]
  have c: "Parent (m c) = Some n" "PrevSibling (m c) = last_of None xs" "NextSibling (m c) = first_of ys None"
    using n(5) split by auto
  have "n \<noteq> c" "PrevSibling (m c) \<noteq> Some c" "NextSibling (m c) \<noteq> Some c"
    using n(1,2) split c last_of_mem first_of_mem by fastforce+
  with c(1) obtain m' where m': "RemoveChild n c m = Inr m'" and un: "unlinked n c m m'"
    using RemoveChild_unlinked by blast
  have "remove1 c (K n) = xs @ ys"
    using n(1) split by (simp add: remove1_append)
  with that [OF m'] unlinked_wf_dom [OF wf split un] un show thesis
    by (simp add: unlinked_def)
qed

text \<open>What the memory is after \<open>InsertBefore\<close>, field by field.\<close>

definition inserted :: "nat \<Rightarrow> nat \<Rightarrow> ptr \<Rightarrow> ptr \<Rightarrow> memory \<Rightarrow> memory \<Rightarrow> bool" where
  "inserted n c prev next m m' \<longleftrightarrow> same_payload m m' \<and>
     Parent (m' c) = Some n \<and> PrevSibling (m' c) = prev \<and> NextSibling (m' c) = next \<and>
     (\<forall>x. FirstChild (m' x) = (if x = n \<and> prev = None then Some c else FirstChild (m x))) \<and>
     (\<forall>x. LastChild (m' x) = (if x = n \<and> next = None then Some c else LastChild (m x))) \<and>
     (\<forall>x. x \<noteq> c \<longrightarrow> Parent (m' x) = Parent (m x) \<and>
        PrevSibling (m' x) = (if next = Some x then Some c else PrevSibling (m x)) \<and>
        NextSibling (m' x) = (if prev = Some x then Some c else NextSibling (m x)))"

lemma InsertBefore_inserted:
  assumes "detached m c"
    and pn: "(prev, next) = (case old of Some oc \<Rightarrow> (PrevSibling (m oc), Some oc) | None \<Rightarrow> (LastChild (m n), None))"
  shows "\<exists>m'. InsertBefore n c old m = Inr m' \<and> inserted n c prev next m m'"
proof -
  define m1 where "m1 = (case prev of Some p \<Rightarrow> upd p (\<lambda>x. x\<lparr>NextSibling := Some c\<rparr>) m
    | None \<Rightarrow> upd n (\<lambda>x. x\<lparr>FirstChild := Some c\<rparr>) m)"
  define m2 where "m2 = (case next of Some q \<Rightarrow> upd q (\<lambda>x. x\<lparr>PrevSibling := Some c\<rparr>) m1
    | None \<Rightarrow> upd n (\<lambda>x. x\<lparr>LastChild := Some c\<rparr>) m1)"
  have 1: "FirstChild (m1 x) = (if x = n \<and> prev = None then Some c else FirstChild (m x))"
    "LastChild (m1 x) = LastChild (m x)" "Parent (m1 x) = Parent (m x)"
    "PrevSibling (m1 x) = PrevSibling (m x)"
    "NextSibling (m1 x) = (if prev = Some x then Some c else NextSibling (m x))" "same_payload m m1" for x
    by (auto simp: m1_def split: option.splits)
  have 2: "FirstChild (m2 x) = FirstChild (m1 x)" "Parent (m2 x) = Parent (m x)"
    "LastChild (m2 x) = (if x = n \<and> next = None then Some c else LastChild (m x))"
    "PrevSibling (m2 x) = (if next = Some x then Some c else PrevSibling (m x))"
    "NextSibling (m2 x) = NextSibling (m1 x)" "same_payload m m2" for x
    by (auto simp: m2_def 1 split: option.splits)
  have "InsertBefore n c old m =
      Inr (upd c (\<lambda>x. x\<lparr>Parent := Some n, PrevSibling := prev, NextSibling := next\<rparr>) m2)"
    using assms(1) unfolding InsertBefore_def Let_def pn [symmetric] m2_def m1_def detached_def
    by simp
  moreover have "same_payload m
      (upd c (\<lambda>x. x\<lparr>Parent := Some n, PrevSibling := prev, NextSibling := next\<rparr>) m2)"
    using 2(6) by (simp add: same_payload_def upd_def)
  ultimately show ?thesis
    by (auto simp: inserted_def upd_def 1 2)
qed

lemma inserted_keep:
  assumes "inserted n c prev next m m'" and "x \<noteq> c"
  shows "Parent (m' x) = Parent (m x)"
    and "next \<noteq> Some x \<Longrightarrow> PrevSibling (m' x) = PrevSibling (m x)"
    and "prev \<noteq> Some x \<Longrightarrow> NextSibling (m' x) = NextSibling (m x)"
    and "next = Some x \<Longrightarrow> PrevSibling (m' x) = Some c"
    and "prev = Some x \<Longrightarrow> NextSibling (m' x) = Some c"
  using assms by (simp_all add: inserted_def)

lemma linked_insert:
  assumes lnk: "linked m p None (xs @ ys) None" and dist: "distinct (xs @ ys)"
    and c: "c \<notin> set (xs @ ys)"
    and ins: "inserted p c (last_of None xs) (first_of ys None) m m'"
  shows "linked m' p None (xs @ c # ys) None"
proof -
  have keepP: "PrevSibling (m' x) = PrevSibling (m x)" if "x \<in> set xs" for x
    using inserted_keep(2) [OF ins] that c dist first_of_mem by fastforce
  have keepN: "NextSibling (m' x) = NextSibling (m x)" if "x \<in> set ys" for x
    using inserted_keep(3) [OF ins] that c dist last_of_mem by fastforce
  have keepA: "Parent (m' x) = Parent (m x)" if "x \<in> set (xs @ ys)" for x
    using inserted_keep(1) [OF ins] that c by metis
  have left: "linked m' p None xs (Some c)"
  proof (cases xs rule: rev_cases)
    case (snoc zs b)
    have b: "b \<noteq> c" "b \<notin> set zs" "last_of None xs = Some b" using dist snoc c by auto
    have "NextSibling (m' x) = NextSibling (m x)" if "x \<in> set zs" for x
      using inserted_keep(3) [OF ins, of x] that b c snoc by auto
    moreover have "linked m p None (zs @ [b]) (first_of ys None)" using lnk snoc by auto
    ultimately show ?thesis
      using linked_new_next [of m p None zs b "first_of ys None" m' "Some c"]
        inserted_keep(5) [OF ins b(1,3)] keepP keepA b snoc by simp
  qed simp
  have right: "linked m' p (Some c) ys None"
  proof (cases ys)
    case (Cons d zs)
    have "PrevSibling (m' x) = PrevSibling (m x)" if "x \<in> set zs" for x
      using inserted_keep(2) [OF ins, of x] that c dist Cons by auto
    then have "linked m' p (Some d) zs None = linked m p (Some d) zs None"
      using keepA keepN Cons by (intro linked_cong) auto
    then show ?thesis
      using lnk Cons inserted_keep(4) [OF ins, of d] keepA [of d] keepN [of d] c by auto
  qed simp
  have "Parent (m' c) = Some p \<and> PrevSibling (m' c) = last_of None xs \<and> NextSibling (m' c) = first_of ys None"
    using ins by (simp add: inserted_def)
  with left right show ?thesis by simp
qed

lemma linked_insert_other:
  assumes "inserted n c prev next m m'"
    and "\<And>x. x \<in> set cs \<Longrightarrow> x \<noteq> c \<and> prev \<noteq> Some x \<and> next \<noteq> Some x"
  shows "linked m' p d cs e = linked m p d cs e"
  by (rule linked_cong) (simp add: assms(2) inserted_keep [OF assms(1)])

lemma inserted_wf_dom:
  assumes wf: "wf_dom m K" and split: "K n = xs @ ys" and cn: "c \<noteq> n" and det: "detached m c"
    and ins: "inserted n c (last_of None xs) (first_of ys None) m m'"
  shows "wf_dom m' (K(n := xs @ c # ys))"
  unfolding wf_dom_def
proof (intro conjI allI impI)
  have c: "c \<notin> set (K k)" for k using det wf_dom_detached [OF wf] by blast
  fix k
  show "distinct ((K(n := xs @ c # ys)) k)" "k \<notin> set ((K(n := xs @ c # ys)) k)"
    using wf_dom_node(1,2) [OF wf, of n] wf_dom_node(1,2) [OF wf, of k] c [of n] cn split by auto
  have "FirstChild (m' k) = (if k = n \<and> xs = [] then Some c else FirstChild (m k))"
    using ins by (simp add: inserted_def last_of_None_iff)
  then show "FirstChild (m' k) = first_of ((K(n := xs @ c # ys)) k) None"
    using wf_dom_node(3) [OF wf, of k] split by (cases xs) auto
  have "LastChild (m' k) = (if k = n \<and> ys = [] then Some c else LastChild (m k))"
    using ins by (simp add: inserted_def first_of_None_iff)
  then show "LastChild (m' k) = last_of None ((K(n := xs @ c # ys)) k)"
    using wf_dom_node(4) [OF wf, of k] split by (cases ys rule: rev_cases) auto
  show "linked m' k None ((K(n := xs @ c # ys)) k) None"
  proof (cases "k = n")
    case True
    then show ?thesis
      using linked_insert [OF _ _ _ ins] wf_dom_node(1,5) [OF wf, of n] c [of n] split by simp
  next
    case False
    then have "x \<notin> set (K n)" if "x \<in> set (K k)" for x
      using wf_dom_disjoint [OF wf that] by blast
    then have "linked m' k None (K k) None = linked m k None (K k) None"
      using split c last_of_mem first_of_mem by (intro linked_insert_other [OF ins]) fastforce
    then show ?thesis using False wf by (simp add: wf_dom_def)
  qed
next
  fix x
  assume "Parent (m' x) = None"
  then have "x \<noteq> c" using ins by (auto simp: inserted_def)
  with \<open>Parent (m' x) = None\<close> have "Parent (m x) = None" using inserted_keep(1) [OF ins] by simp
  moreover from this have "x \<notin> set (K n)" using wf_dom_Parent [OF wf, of x n] by simp
  then have "first_of ys None \<noteq> Some x" "last_of None xs \<noteq> Some x"
    using split last_of_mem first_of_mem by fastforce+
  ultimately show "PrevSibling (m' x) = None" "NextSibling (m' x) = None"
    using inserted_keep(2,3) [OF ins \<open>x \<noteq> c\<close>] wf by (auto simp: wf_dom_def)
next
  fix x k
  assume "Parent (m' x) = Some k"
  then show "x \<in> set ((K(n := xs @ c # ys)) k)"
    using ins wf_dom_Parent [OF wf, of x k] split by (cases "x = c") (auto simp: inserted_def)
qed

lemma InsertBefore_wf:
  assumes wf: "wf_dom m K" and det: "detached m c" and "c \<noteq> n"
    and split: "K n = xs @ ys" and old: "old = first_of ys None"
  obtains m' where "InsertBefore n c old m = Inr m'" and "wf_dom m' (K(n := xs @ c # ys))"
    and "same_payload m m'"
proof -
  note n = wf_dom_node [OF wf, of n]
  have "(last_of None xs, first_of ys None) =
      (case old of Some oc \<Rightarrow> (PrevSibling (m oc), Some oc) | None \<Rightarrow> (LastChild (m n), None))"
    using n(4,5) split old by (cases ys) auto
  from InsertBefore_inserted [OF det this] obtain m' where
    m': "InsertBefore n c old m = Inr m'" and ins: "inserted n c (last_of None xs) (first_of ys None) m m'"
    by blast
  with that [OF m' inserted_wf_dom [OF wf split \<open>c \<noteq> n\<close> det ins]] show thesis
    by (auto simp: inserted_def)
qed

text \<open>\<open>AppendChild\<close> is \<open>InsertBefore\<close> with no node to insert before.\<close>

lemma AppendChild_InsertBefore:
  assumes "detached m c" and "LastChild (m n) \<noteq> Some c"
  shows "AppendChild n c m = InsertBefore n c None m"
  using assms
  by (auto simp: AppendChild_def InsertBefore_def detached_def Let_def upd_def fun_eq_iff split: option.splits)

lemma AppendChild_wf:
  assumes wf: "wf_dom m K" and det: "detached m c" and "c \<noteq> n"
  obtains m' where "AppendChild n c m = Inr m'" and "wf_dom m' (K(n := K n @ [c]))"
    and "same_payload m m'"
proof -
  have "c \<notin> set (K n)" using wf_dom_detached [OF wf] det by blast
  then have "LastChild (m n) \<noteq> Some c"
    using wf_dom_node(4) [OF wf, of n] last_of_mem by fastforce
  with det have "AppendChild n c m = InsertBefore n c None m" by (rule AppendChild_InsertBefore)
  then show thesis
    using InsertBefore_wf [OF wf det \<open>c \<noteq> n\<close>, of "K n" "[]" None] that by auto
qed

section \<open>The interface of the tree\<close>

text \<open>
  What the parser and the jsx package rely on: a memory that represents a map of child lists,
  and two operations that do on it what \<open>remove1\<close> and appending do on the lists. A client
  that only removes and appends needs nothing else.
\<close>

locale child_lists =
  fixes rep :: "'m \<Rightarrow> (nat \<Rightarrow> nat list) \<Rightarrow> bool"
    and loose :: "'m \<Rightarrow> nat \<Rightarrow> bool"
    and same :: "'m \<Rightarrow> 'm \<Rightarrow> bool"
    and remove_child :: "nat \<Rightarrow> nat \<Rightarrow> 'm \<Rightarrow> 'm go"
    and append_child :: "nat \<Rightarrow> nat \<Rightarrow> 'm \<Rightarrow> 'm go"
  assumes remove_law: "rep m K \<Longrightarrow> c \<in> set (K n) \<Longrightarrow>
      \<exists>m'. remove_child n c m = Inr m' \<and> rep m' (K(n := remove1 c (K n))) \<and> loose m' c \<and> same m m'"
    and append_law: "rep m K \<Longrightarrow> loose m c \<Longrightarrow> c \<noteq> n \<Longrightarrow>
      \<exists>m'. append_child n c m = Inr m' \<and> rep m' (K(n := K n @ [c])) \<and> same m m'"
    and same_comp: "same m1 m2 \<Longrightarrow> same m2 m3 \<Longrightarrow> same m1 m3"
begin

lemma move_child:
  assumes "rep m K" and "c \<in> set (K src)" and "c \<noteq> dst" and "dst \<noteq> src"
  shows "\<exists>m1 m2. remove_child src c m = Inr m1 \<and> append_child dst c m1 = Inr m2 \<and>
    rep m2 (K(src := remove1 c (K src), dst := K dst @ [c])) \<and> same m m2"
proof -
  obtain m1 where m1: "remove_child src c m = Inr m1" "rep m1 (K(src := remove1 c (K src)))"
      "loose m1 c" "same m m1"
    using remove_law [OF assms(1,2)] by blast
  obtain m2 where "append_child dst c m1 = Inr m2"
      "rep m2 (K(src := remove1 c (K src), dst := (K(src := remove1 c (K src))) dst @ [c]))" "same m1 m2"
    using append_law [OF m1(2,3) assms(3)] by blast
  with m1 assms(4) same_comp show ?thesis by fastforce
qed

end

interpretation node: child_lists wf_dom detached same_payload RemoveChild AppendChild
proof
  show "\<exists>m'. RemoveChild n c m = Inr m' \<and> wf_dom m' (K(n := remove1 c (K n))) \<and> detached m' c \<and>
      same_payload m m'" if "wf_dom m K" and "c \<in> set (K n)" for m K c n
    using RemoveChild_wf [OF that] by metis
  show "\<exists>m'. AppendChild n c m = Inr m' \<and> wf_dom m' (K(n := K n @ [c])) \<and> same_payload m m'"
    if "wf_dom m K" and "detached m c" and "c \<noteq> n" for m K c n
    using AppendChild_wf [OF that] by metis
qed (rule same_payload_trans)

text \<open>\<open>reparentChildren\<close> ends and moves the children in order.\<close>

lemma reparentChildren_wf:
  assumes "wf_dom m K" and "dst \<noteq> src" and "dst \<notin> set (K src)"
  shows "\<exists>m'. reparentChildren dst src m = Some (Inr m') \<and>
    wf_dom m' (K(src := [], dst := K dst @ K src)) \<and> same_payload m m'"
  using assms
proof (induction "K src" arbitrary: m K)
  case Nil
  then have "FirstChild (m src) = None" using wf_dom_node(3) [OF Nil.prems(1), of src] by simp
  moreover have "K(src := [], dst := K dst @ K src) = K" using Nil by auto
  ultimately show ?case using Nil.prems(1) by (simp add: reparentChildren.simps del: fun_upd_apply)
next
  case (Cons c cs)
  have first: "FirstChild (m src) = Some c"
    using wf_dom_node(3) [OF Cons.prems(1), of src] Cons.hyps(2) [symmetric] by simp
  have "c \<in> set (K src)" "c \<noteq> dst" "remove1 c (K src) = cs"
    using Cons.hyps(2) [symmetric] Cons.prems(3) by auto
  with node.move_child [OF Cons.prems(1)] Cons.prems(2) obtain m1 m2 where
    m1: "RemoveChild src c m = Inr m1" and m2: "AppendChild dst c m1 = Inr m2"
      "wf_dom m2 (K(src := cs, dst := K dst @ [c]))" "same_payload m m2"
    by metis
  have "\<exists>m'. reparentChildren dst src m2 = Some (Inr m') \<and>
      wf_dom m' (K(src := [], dst := (K dst @ [c]) @ cs)) \<and> same_payload m2 m'"
    using Cons.hyps(1) [of "K(src := cs, dst := K dst @ [c])" m2] m2(2) Cons.prems(2,3) Cons.hyps(2) [symmetric]
    by (auto simp: fun_upd_twist)
  then show ?case
    using first m1 m2 Cons.hyps(2) [symmetric]
    by (auto simp: reparentChildren.simps [of dst src m] intro: same_payload_trans)
qed

section \<open>Facts about the stacks\<close>

lemma stack_pop_snoc: "stack_pop (s @ [n]) = Inr (n, s)"
  by (simp add: stack_pop_def go_index_def nth_append)

lemma index_loop_bound: "i \<le> length s \<Longrightarrow> -1 \<le> index_loop i s n \<and> index_loop i s n < int i"
  by (induction i s n rule: index_loop.induct) auto

lemma index_loop_none: "i \<le> length s \<Longrightarrow> index_loop i s n = -1 \<longleftrightarrow> n \<notin> set (take i s)"
  by (induction i s n rule: index_loop.induct) (auto simp: take_Suc_conv_app_nth)

lemma index_loop_topmost:
  "index_loop (length (xs @ n # ys)) (xs @ n # ys) n = int (length xs)" if "n \<notin> set ys" for xs :: "'a list"
proof -
  have "index_loop (Suc (length xs) + j) (xs @ n # ys) n = int (length xs)" if "j \<le> length ys" for j
    using that
  proof (induction j)
    case (Suc j)
    then have "(xs @ n # ys) ! (Suc (length xs) + j) \<noteq> n"
      using \<open>n \<notin> set ys\<close> by (auto simp: nth_append in_set_conv_nth)
    with Suc show ?case by simp
  qed (simp add: nth_append)
  from this [of "length ys"] show ?thesis by simp
qed

lemma stack_index_topmost: "n \<notin> set ys \<Longrightarrow> stack_index (xs @ n # ys) n = int (length xs)"
  unfolding stack_index_def by (rule index_loop_topmost)

lemma stack_index_absent: "stack_index s n = -1 \<longleftrightarrow> n \<notin> set s"
  unfolding stack_index_def using index_loop_none [of "length s" s n] by simp

lemma stack_insert_spec: "stack_insert nil (xs @ ys) (length xs) n = Inr (xs @ n # ys)"
proof -
  have "take (Suc (length xs)) (xs @ ys @ [nil]) @
      go_copy (drop (Suc (length xs)) (xs @ ys @ [nil])) (ys @ [nil]) =
      xs @ (hd (ys @ [nil])) # ys"
    by (cases ys) (simp_all add: go_copy_def)
  then show ?thesis
    by (simp add: stack_insert_def Let_def go_store_def)
qed

lemma stack_remove_spec: "n \<notin> set ys \<Longrightarrow> stack_remove nil (xs @ n # ys) n = xs @ ys"
  by (simp add: stack_remove_def Let_def stack_index_topmost go_copy_def)

lemma stack_remove_absent: "n \<notin> set s \<Longrightarrow> stack_remove nil s n = s"
  by (simp add: stack_remove_def stack_index_absent [symmetric])

section \<open>What the operations on nodes promise\<close>

text \<open>C32. Inserting a detached node before a child of \<open>n\<close>, or at the end, is inserting it into the
  list of children there: the five pointers of every node stay consistent, no other list of
  children changes, nor what any node contains. A node that is attached already makes it
  panic.\<close>

theorem InsertBefore_refines:
  assumes "wf_dom m K" and "c \<noteq> n" and "K n = xs @ ys" and "old = first_of ys None"
  shows "if detached m c
    then \<exists>m'. InsertBefore n c old m = Inr m' \<and> wf_dom m' (K(n := xs @ c # ys)) \<and> same_payload m m'
    else InsertBefore n c old m = Inl (PanicWith ''html: InsertBefore called for an attached child Node'')"
proof (cases "detached m c")
  case True
  then show ?thesis using InsertBefore_wf [OF assms(1) True assms(2-4)] by auto
next
  case False
  then show ?thesis by (auto simp: InsertBefore_def detached_def)
qed

theorem InsertBefore_refines_witness:
  "\<exists>m'. InsertBefore 0 1 None (\<lambda>_. new_Node) = Inr m' \<and> wf_dom m' ((\<lambda>_. [])(0 := [1]))"
proof -
  have "wf_dom (\<lambda>_. new_Node) (\<lambda>_. [])" by (simp add: wf_dom_def new_Node_def)
  from InsertBefore_refines [OF this, of 1 0 "[]" "[]" None]
  show ?thesis by (auto simp: detached_def new_Node_def)
qed

text \<open>C33. Removing a child takes it out of its parent's list and detaches it; a node that is not a
  child of \<open>n\<close> makes it panic and nothing else does.\<close>

theorem RemoveChild_refines:
  assumes "wf_dom m K"
  shows "if c \<in> set (K n)
    then \<exists>m'. RemoveChild n c m = Inr m' \<and> wf_dom m' (K(n := remove1 c (K n))) \<and> detached m' c \<and> same_payload m m'
    else RemoveChild n c m = Inl (PanicWith ''html: RemoveChild called for a non-child Node'')"
proof (cases "c \<in> set (K n)")
  case True
  then show ?thesis using RemoveChild_wf [OF assms True] by auto
next
  case False
  then show ?thesis using wf_dom_Parent [OF assms, of c n] by (simp add: RemoveChild_def)
qed

theorem RemoveChild_refines_witness:
  "RemoveChild 0 1 (\<lambda>_. new_Node) = Inl (PanicWith ''html: RemoveChild called for a non-child Node'')"
proof -
  have "wf_dom (\<lambda>_. new_Node) (\<lambda>_. [])" by (simp add: wf_dom_def new_Node_def)
  from RemoveChild_refines [OF this, of 1 0] show ?thesis by simp
qed

text \<open>\<open>AppendChild\<close> puts a detached node at the end of the list of children, and does the same
  as inserting it before no node.\<close>

theorem AppendChild_refines:
  assumes "wf_dom m K" and "detached m c" and "c \<noteq> n"
  shows "\<exists>m'. AppendChild n c m = Inr m' \<and> InsertBefore n c None m = Inr m' \<and>
    wf_dom m' (K(n := K n @ [c])) \<and> same_payload m m'"
proof -
  have "c \<notin> set (K n)" using assms wf_dom_detached by blast
  then have "LastChild (m n) \<noteq> Some c"
    using wf_dom_node(4) [OF assms(1), of n] last_of_mem [of "K n" c] by auto
  with AppendChild_InsertBefore [OF assms(2)] AppendChild_wf [OF assms] show ?thesis by metis
qed

theorem AppendChild_refines_witness:
  "\<exists>m'. AppendChild 0 1 (\<lambda>_. new_Node) = Inr m' \<and> wf_dom m' ((\<lambda>_. [])(0 := [1]))"
proof -
  have "wf_dom (\<lambda>_. new_Node) (\<lambda>_. [])" by (simp add: wf_dom_def new_Node_def)
  from AppendChild_refines [OF this, of 1 0] show ?thesis by (auto simp: detached_def new_Node_def)
qed

text \<open>C34. \<open>reparentChildren\<close> returns, and appends all children of \<open>src\<close> to those of \<open>dst\<close> in
  their order, provided \<open>dst\<close> is neither \<open>src\<close> nor one of its children.\<close>

theorem reparentChildren_moves_all:
  assumes "wf_dom m K" and "dst \<noteq> src" and "dst \<notin> set (K src)"
  shows "\<exists>m'. reparentChildren dst src m = Some (Inr m') \<and>
    wf_dom m' (K(src := [], dst := K dst @ K src)) \<and> same_payload m m'"
  by (rule reparentChildren_wf) (fact assms)+

theorem reparentChildren_moves_all_witness:
  "\<exists>m m'. wf_dom m ((\<lambda>_. [])(0 := [1])) \<and> reparentChildren 2 0 m = Some (Inr m') \<and>
     wf_dom m' ((\<lambda>_. [])(0 := [], 2 := [1]))"
proof -
  have "wf_dom (\<lambda>_. new_Node) (\<lambda>_. [])" "detached (\<lambda>_. new_Node) 1"
    by (simp_all add: wf_dom_def new_Node_def detached_def)
  from AppendChild_wf [OF this, of 0] obtain m where m: "wf_dom m ((\<lambda>_. [])(0 := [1]))" by auto
  with reparentChildren_moves_all [OF m, of 2 0] show ?thesis by auto
qed

text \<open>The stack of open elements: \<open>index\<close> finds the topmost occurrence, \<open>remove\<close> takes
  exactly that one out and keeps the order of the rest, \<open>insert\<close> puts an element in at its
  position, and \<open>pop\<close> undoes a push.\<close>

theorem stack_operations:
  assumes "n \<notin> set ys"
  shows "stack_index (xs @ n # ys) n = int (length xs) \<and> stack_remove nil (xs @ n # ys) n = xs @ ys \<and>
    stack_insert nil (xs @ ys) (length xs) n = Inr (xs @ n # ys) \<and> stack_pop (xs @ [n]) = Inr (n, xs)"
  by (intro conjI stack_index_topmost [OF assms] stack_remove_spec [OF assms] stack_insert_spec stack_pop_snoc)

theorem stack_operations_witness:
  "stack_remove 0 [1, 2, 1, (3::nat)] 1 = [1, 2, 3]"
  using stack_operations [of 1 "[3::nat]" "[1, 2]" 0] by simp

end
