(* ===== verification/Jsx_Parse.thy ===== *)
theory Jsx_Parse
  imports Go_Strings React_Elements Html_Node
begin

text \<open>
  The package \<^verbatim>\<open>myitcv.io/react/jsx\<close>, first half: \<open>parseBool\<close> (\<open>util.go\<close>),
  \<open>parseCSS\<close> (\<open>gen_jsx_cssGen.go\<close>) and the functions \<open>parse\<close>, \<open>parseA\<close>, \dots,
  \<open>parseUl\<close> (\<open>gen_jsx_coreGen.go\<close>) that turn a parsed HTML node into a React element.
  A panic carries the format string of its message; the operands are dropped. The last
  section gives a structural reading of \<open>parse\<close> on trees and says exactly which HTML it
  accepts.
\<close>

section \<open>Attribute values\<close>

definition parseBool :: "string \<Rightarrow> bool" where
  "parseBool s = (case ParseBool s of None \<Rightarrow> False | Some v \<Rightarrow> v)"

text \<open>The \<open>switch\<close> of \<open>parseCSS\<close>: the field a CSS key assigns.\<close>

definition css_field :: "string \<Rightarrow> string \<Rightarrow> CSS \<Rightarrow> CSS option" where
  "css_field k v res =
     (if k = ''float'' then Some (res\<lparr>Float := v\<rparr>)
      else if k = ''font-size'' then Some (res\<lparr>FontSize := v\<rparr>)
      else if k = ''font-style'' then Some (res\<lparr>FontStyle := v\<rparr>)
      else if k = ''height'' then Some (res\<lparr>Height := v\<rparr>)
      else if k = ''left'' then Some (res\<lparr>Left := v\<rparr>)
      else if k = ''margin-top'' then Some (res\<lparr>MarginTop := v\<rparr>)
      else if k = ''max-height'' then Some (res\<lparr>MaxHeight := v\<rparr>)
      else if k = ''min-height'' then Some (res\<lparr>MinHeight := v\<rparr>)
      else if k = ''overflow'' then Some (res\<lparr>Overflow := v\<rparr>)
      else if k = ''overflow-y'' then Some (res\<lparr>OverflowY := v\<rparr>)
      else if k = ''position'' then Some (res\<lparr>Position := v\<rparr>)
      else if k = ''resize'' then Some (res\<lparr>Resize := v\<rparr>)
      else if k = ''top'' then Some (res\<lparr>Top := v\<rparr>)
      else if k = ''width'' then Some (res\<lparr>Width := v\<rparr>)
      else if k = ''z-index'' then Some (res\<lparr>ZIndex := v\<rparr>)
      else None)"

definition css_part :: "string \<Rightarrow> CSS \<Rightarrow> CSS go" where
  "css_part p res =
     (case Split (CHR '':'') p of
        [k, v] \<Rightarrow>
          (case css_field (TrimSpace k) (Trim [CHR 0x22] (TrimSpace v)) res of
             Some res' \<Rightarrow> Inr res'
           | None \<Rightarrow> Inl (PanicWith ''unknown CSS key %q in %q''))
      | _ \<Rightarrow> Inl (PanicWith ''invalid key-val %q in %q''))"

fun css_loop :: "string list \<Rightarrow> CSS \<Rightarrow> CSS go" where
  "css_loop [] res = Inr res"
| "css_loop (p # parts) res = go_bind (css_part p res) (css_loop parts)"

definition parseCSS :: "string \<Rightarrow> CSS go" where
  "parseCSS s = css_loop (Split (CHR '';'') s) new_CSS"

section \<open>Attributes\<close>

text \<open>The cases every element function has.\<close>

definition elem_attr ::
  "string \<Rightarrow> string \<Rightarrow> ('h, 'z) ElemProps_scheme \<Rightarrow> ('h, 'z) ElemProps_scheme go option" where
  "elem_attr k v vp =
     (if k = ''aria-expanded'' then Some (Inr (vp\<lparr>AriaExpanded := parseBool v\<rparr>))
      else if k = ''aria-haspopup'' then Some (Inr (vp\<lparr>AriaHasPopup := parseBool v\<rparr>))
      else if k = ''aria-labelledby'' then Some (Inr (vp\<lparr>AriaLabelledBy := v\<rparr>))
      else if k = ''class'' then Some (Inr (vp\<lparr>ClassName := v\<rparr>))
      else if k = ''id'' then Some (Inr (vp\<lparr>ID := v\<rparr>))
      else if k = ''key'' then Some (Inr (vp\<lparr>Key := v\<rparr>))
      else if k = ''role'' then Some (Inr (vp\<lparr>Role := v\<rparr>))
      else if k = ''style'' then Some (go_bind (parseCSS v) (\<lambda>c. Inr (vp\<lparr>Style := Some c\<rparr>)))
      else None)"

definition ds_put :: "string \<Rightarrow> string \<Rightarrow> (string \<times> string) list option \<Rightarrow> (string \<times> string) list option" where
  "ds_put k v ds = Some (AList.update k v (case ds of None \<Rightarrow> [] | Some m \<Rightarrow> m))"

text \<open>The loop over \<open>n.Attr\<close>: \<open>own\<close> are the element's own cases, \<open>tag\<close> is the name in
  the panic message.\<close>

fun attr_loop ::
  "string \<Rightarrow> (string \<Rightarrow> string \<Rightarrow> ('h, 'z) ElemProps_scheme \<Rightarrow> ('h, 'z) ElemProps_scheme option) \<Rightarrow>
   Attribute list \<Rightarrow> ('h, 'z) ElemProps_scheme \<Rightarrow> (string \<times> string) list option \<Rightarrow>
   (('h, 'z) ElemProps_scheme \<times> (string \<times> string) list option) go" where
  "attr_loop tag own [] vp ds = Inr (vp, ds)"
| "attr_loop tag own (a # as) vp ds =
     (case elem_attr (attr_Key a) (attr_Val a) vp of
        Some r \<Rightarrow> go_bind r (\<lambda>vp'. attr_loop tag own as vp' ds)
      | None \<Rightarrow>
          (case own (attr_Key a) (attr_Val a) vp of
             Some vp' \<Rightarrow> attr_loop tag own as vp' ds
           | None \<Rightarrow>
               if HasPrefix (attr_Key a) ''data-''
               then attr_loop tag own as vp
                      (ds_put (TrimPrefix (attr_Key a) ''data-'') (attr_Val a) ds)
               else Inl (PanicWith (''don't know how to handle <'' @ tag @ ''> attribute %q''))))"

definition parse_attrs ::
  "string \<Rightarrow> (string \<Rightarrow> string \<Rightarrow> ('h, 'z) ElemProps_scheme \<Rightarrow> ('h, 'z) ElemProps_scheme option) \<Rightarrow>
   ('h, 'z) ElemProps_scheme \<Rightarrow> Node \<Rightarrow> ('h, 'z) ElemProps_scheme option go" where
  "parse_attrs tag own new_props n =
     (if Attr n = [] then Inr None
      else go_bind (attr_loop tag own (Attr n) new_props None)
             (\<lambda>(vp, ds). Inr (Some (vp\<lparr>DataSet := ds\<rparr>))))"

section \<open>One function per element\<close>

text \<open>The type assertions made on parsed children: any element, an \<open>*OptionElem\<close>, or an
  element that \<open>RendersLi\<close>, which among the parsed elements is \<open>*LiElem\<close>.\<close>

type_synonym ('h, 'c) assertion = "('h, 'c) element \<Rightarrow> ('h, 'c) element go"

definition as_Element :: "('h, 'c) assertion" where
  "as_Element e = Inr e"

definition as_OptionElem :: "('h, 'c) assertion" where
  "as_OptionElem e =
     (case e of Elem (Tag t) _ _ \<Rightarrow> if t = ''option'' then Inr e else Inl TypeAssertion
      | _ \<Rightarrow> Inl TypeAssertion)"

definition as_RendersLi :: "('h, 'c) assertion" where
  "as_RendersLi e =
     (case e of Elem (Tag t) _ _ \<Rightarrow> if t = ''li'' then Inr e else Inl TypeAssertion
      | _ \<Rightarrow> Inl TypeAssertion)"

text \<open>The cases an element has beyond the shared ones.\<close>

definition no_attr :: "string \<Rightarrow> string \<Rightarrow> 'h ElemProps \<Rightarrow> 'h ElemProps option" where
  "no_attr k v vp = None"

definition A_attr :: "string \<Rightarrow> string \<Rightarrow> 'h AProps \<Rightarrow> 'h AProps option" where
  "A_attr k v vp =
     (if k = ''href'' then Some (vp\<lparr>AProps.Href := v\<rparr>)
      else if k = ''target'' then Some (vp\<lparr>AProps.Target := v\<rparr>)
      else if k = ''title'' then Some (vp\<lparr>AProps.Title := v\<rparr>)
      else None)"

definition Button_attr :: "string \<Rightarrow> string \<Rightarrow> 'h ButtonProps \<Rightarrow> 'h ButtonProps option" where
  "Button_attr k v vp =
     (if k = ''type'' then Some (vp\<lparr>ButtonProps.Type := v\<rparr>)
      else None)"

definition IFrame_attr :: "string \<Rightarrow> string \<Rightarrow> 'h IFrameProps \<Rightarrow> 'h IFrameProps option" where
  "IFrame_attr k v vp =
     (if k = ''srcdoc'' then Some (vp\<lparr>IFrameProps.SrcDoc := v\<rparr>)
      else None)"

definition Img_attr :: "string \<Rightarrow> string \<Rightarrow> 'h ImgProps \<Rightarrow> 'h ImgProps option" where
  "Img_attr k v vp =
     (if k = ''alt'' then Some (vp\<lparr>ImgProps.Alt := v\<rparr>)
      else if k = ''src'' then Some (vp\<lparr>ImgProps.Src := v\<rparr>)
      else None)"

definition Input_attr :: "string \<Rightarrow> string \<Rightarrow> 'h InputProps \<Rightarrow> 'h InputProps option" where
  "Input_attr k v vp =
     (if k = ''placeholder'' then Some (vp\<lparr>InputProps.Placeholder := v\<rparr>)
      else if k = ''type'' then Some (vp\<lparr>InputProps.Type := v\<rparr>)
      else if k = ''value'' then Some (vp\<lparr>InputProps.Value := v\<rparr>)
      else None)"

definition Label_attr :: "string \<Rightarrow> string \<Rightarrow> 'h LabelProps \<Rightarrow> 'h LabelProps option" where
  "Label_attr k v vp =
     (if k = ''for'' then Some (vp\<lparr>LabelProps.For := v\<rparr>)
      else None)"

definition Option_attr :: "string \<Rightarrow> string \<Rightarrow> 'h OptionProps \<Rightarrow> 'h OptionProps option" where
  "Option_attr k v vp =
     (if k = ''value'' then Some (vp\<lparr>OptionProps.Value := v\<rparr>)
      else None)"

definition Select_attr :: "string \<Rightarrow> string \<Rightarrow> 'h SelectProps \<Rightarrow> 'h SelectProps option" where
  "Select_attr k v vp =
     (if k = ''value'' then Some (vp\<lparr>SelectProps.Value := v\<rparr>)
      else None)"

definition TextArea_attr :: "string \<Rightarrow> string \<Rightarrow> 'h TextAreaProps \<Rightarrow> 'h TextAreaProps option" where
  "TextArea_attr k v vp =
     (if k = ''placeholder'' then Some (vp\<lparr>TextAreaProps.Placeholder := v\<rparr>)
      else if k = ''value'' then Some (vp\<lparr>TextAreaProps.Value := v\<rparr>)
      else None)"

text \<open>The functions themselves. \<open>kids\<close> stands for the loop over the children of \<open>n\<close>: it is
  given the type assertion made on each parsed child.\<close>

definition parseA ::
  "Node \<Rightarrow> (('h, 'c) assertion \<Rightarrow> ('h, 'c) element list go) \<Rightarrow> ('h, 'c) element go" where
  "parseA n kids =
     go_bind (parse_attrs ''a'' A_attr new_AProps n)
       (\<lambda>vp. go_bind (kids as_Element) (\<lambda>ks. Inr (react_A vp ks)))"

definition parseAbbr ::
  "Node \<Rightarrow> (('h, 'c) assertion \<Rightarrow> ('h, 'c) element list go) \<Rightarrow> ('h, 'c) element go" where
  "parseAbbr n kids =
     go_bind (parse_attrs ''abbr'' no_attr new_ElemProps n)
       (\<lambda>vp. go_bind (kids as_Element) (\<lambda>ks. Inr (react_Abbr vp ks)))"

definition parseArticle ::
  "Node \<Rightarrow> (('h, 'c) assertion \<Rightarrow> ('h, 'c) element list go) \<Rightarrow> ('h, 'c) element go" where
  "parseArticle n kids =
     go_bind (parse_attrs ''article'' no_attr new_ElemProps n)
       (\<lambda>vp. go_bind (kids as_Element) (\<lambda>ks. Inr (react_Article vp ks)))"

definition parseAside ::
  "Node \<Rightarrow> (('h, 'c) assertion \<Rightarrow> ('h, 'c) element list go) \<Rightarrow> ('h, 'c) element go" where
  "parseAside n kids =
     go_bind (parse_attrs ''aside'' no_attr new_ElemProps n)
       (\<lambda>vp. go_bind (kids as_Element) (\<lambda>ks. Inr (react_Aside vp ks)))"

definition parseB ::
  "Node \<Rightarrow> (('h, 'c) assertion \<Rightarrow> ('h, 'c) element list go) \<Rightarrow> ('h, 'c) element go" where
  "parseB n kids =
     go_bind (parse_attrs ''b'' no_attr new_ElemProps n)
       (\<lambda>vp. go_bind (kids as_Element) (\<lambda>ks. Inr (react_B vp ks)))"

definition parseBr ::
  "Node \<Rightarrow> (('h, 'c) assertion \<Rightarrow> ('h, 'c) element list go) \<Rightarrow> ('h, 'c) element go" where
  "parseBr n kids =
     go_bind (parse_attrs ''br'' no_attr new_ElemProps n)
       (\<lambda>vp. go_bind (kids as_Element) (\<lambda>ks. Inr (react_Br vp ks)))"

definition parseButton ::
  "Node \<Rightarrow> (('h, 'c) assertion \<Rightarrow> ('h, 'c) element list go) \<Rightarrow> ('h, 'c) element go" where
  "parseButton n kids =
     go_bind (parse_attrs ''button'' Button_attr new_ButtonProps n)
       (\<lambda>vp. go_bind (kids as_Element) (\<lambda>ks. Inr (react_Button vp ks)))"

definition parseCaption ::
  "Node \<Rightarrow> (('h, 'c) assertion \<Rightarrow> ('h, 'c) element list go) \<Rightarrow> ('h, 'c) element go" where
  "parseCaption n kids =
     go_bind (parse_attrs ''caption'' no_attr new_ElemProps n)
       (\<lambda>vp. go_bind (kids as_Element) (\<lambda>ks. Inr (react_Caption vp ks)))"

definition parseCode ::
  "Node \<Rightarrow> (('h, 'c) assertion \<Rightarrow> ('h, 'c) element list go) \<Rightarrow> ('h, 'c) element go" where
  "parseCode n kids =
     go_bind (parse_attrs ''code'' no_attr new_ElemProps n)
       (\<lambda>vp. go_bind (kids as_Element) (\<lambda>ks. Inr (react_Code vp ks)))"

definition parseDiv ::
  "Node \<Rightarrow> (('h, 'c) assertion \<Rightarrow> ('h, 'c) element list go) \<Rightarrow> ('h, 'c) element go" where
  "parseDiv n kids =
     go_bind (parse_attrs ''div'' no_attr new_ElemProps n)
       (\<lambda>vp. go_bind (kids as_Element) (\<lambda>ks. Inr (react_Div vp ks)))"

definition parseEm ::
  "Node \<Rightarrow> (('h, 'c) assertion \<Rightarrow> ('h, 'c) element list go) \<Rightarrow> ('h, 'c) element go" where
  "parseEm n kids =
     go_bind (parse_attrs ''em'' no_attr new_ElemProps n)
       (\<lambda>vp. go_bind (kids as_Element) (\<lambda>ks. Inr (react_Em vp ks)))"

definition parseFooter ::
  "Node \<Rightarrow> (('h, 'c) assertion \<Rightarrow> ('h, 'c) element list go) \<Rightarrow> ('h, 'c) element go" where
  "parseFooter n kids =
     go_bind (parse_attrs ''footer'' no_attr new_ElemProps n)
       (\<lambda>vp. go_bind (kids as_Element) (\<lambda>ks. Inr (react_Footer vp ks)))"

definition parseForm ::
  "Node \<Rightarrow> (('h, 'c) assertion \<Rightarrow> ('h, 'c) element list go) \<Rightarrow> ('h, 'c) element go" where
  "parseForm n kids =
     go_bind (parse_attrs ''form'' no_attr new_ElemProps n)
       (\<lambda>vp. go_bind (kids as_Element) (\<lambda>ks. Inr (react_Form vp ks)))"

definition parseH1 ::
  "Node \<Rightarrow> (('h, 'c) assertion \<Rightarrow> ('h, 'c) element list go) \<Rightarrow> ('h, 'c) element go" where
  "parseH1 n kids =
     go_bind (parse_attrs ''h1'' no_attr new_ElemProps n)
       (\<lambda>vp. go_bind (kids as_Element) (\<lambda>ks. Inr (react_H1 vp ks)))"

definition parseH2 ::
  "Node \<Rightarrow> (('h, 'c) assertion \<Rightarrow> ('h, 'c) element list go) \<Rightarrow> ('h, 'c) element go" where
  "parseH2 n kids =
     go_bind (parse_attrs ''h2'' no_attr new_ElemProps n)
       (\<lambda>vp. go_bind (kids as_Element) (\<lambda>ks. Inr (react_H2 vp ks)))"

definition parseH3 ::
  "Node \<Rightarrow> (('h, 'c) assertion \<Rightarrow> ('h, 'c) element list go) \<Rightarrow> ('h, 'c) element go" where
  "parseH3 n kids =
     go_bind (parse_attrs ''h3'' no_attr new_ElemProps n)
       (\<lambda>vp. go_bind (kids as_Element) (\<lambda>ks. Inr (react_H3 vp ks)))"

definition parseH4 ::
  "Node \<Rightarrow> (('h, 'c) assertion \<Rightarrow> ('h, 'c) element list go) \<Rightarrow> ('h, 'c) element go" where
  "parseH4 n kids =
     go_bind (parse_attrs ''h4'' no_attr new_ElemProps n)
       (\<lambda>vp. go_bind (kids as_Element) (\<lambda>ks. Inr (react_H4 vp ks)))"

definition parseH5 ::
  "Node \<Rightarrow> (('h, 'c) assertion \<Rightarrow> ('h, 'c) element list go) \<Rightarrow> ('h, 'c) element go" where
  "parseH5 n kids =
     go_bind (parse_attrs ''h5'' no_attr new_ElemProps n)
       (\<lambda>vp. go_bind (kids as_Element) (\<lambda>ks. Inr (react_H5 vp ks)))"

definition parseH6 ::
  "Node \<Rightarrow> (('h, 'c) assertion \<Rightarrow> ('h, 'c) element list go) \<Rightarrow> ('h, 'c) element go" where
  "parseH6 n kids =
     go_bind (parse_attrs ''h6'' no_attr new_ElemProps n)
       (\<lambda>vp. go_bind (kids as_Element) (\<lambda>ks. Inr (react_H6 vp ks)))"

definition parseHeader ::
  "Node \<Rightarrow> (('h, 'c) assertion \<Rightarrow> ('h, 'c) element list go) \<Rightarrow> ('h, 'c) element go" where
  "parseHeader n kids =
     go_bind (parse_attrs ''header'' no_attr new_ElemProps n)
       (\<lambda>vp. go_bind (kids as_Element) (\<lambda>ks. Inr (react_Header vp ks)))"

definition parseHr ::
  "Node \<Rightarrow> (('h, 'c) assertion \<Rightarrow> ('h, 'c) element list go) \<Rightarrow> ('h, 'c) element go" where
  "parseHr n kids =
     go_bind (parse_attrs ''hr'' no_attr new_ElemProps n) (\<lambda>vp. Inr (react_Hr vp))"

definition parseI ::
  "Node \<Rightarrow> (('h, 'c) assertion \<Rightarrow> ('h, 'c) element list go) \<Rightarrow> ('h, 'c) element go" where
  "parseI n kids =
     go_bind (parse_attrs ''i'' no_attr new_ElemProps n)
       (\<lambda>vp. go_bind (kids as_Element) (\<lambda>ks. Inr (react_I vp ks)))"

definition parseIFrame ::
  "Node \<Rightarrow> (('h, 'c) assertion \<Rightarrow> ('h, 'c) element list go) \<Rightarrow> ('h, 'c) element go" where
  "parseIFrame n kids =
     go_bind (parse_attrs ''iframe'' IFrame_attr new_IFrameProps n)
       (\<lambda>vp. go_bind (kids as_Element) (\<lambda>ks. Inr (react_IFrame vp ks)))"

definition parseImg ::
  "Node \<Rightarrow> (('h, 'c) assertion \<Rightarrow> ('h, 'c) element list go) \<Rightarrow> ('h, 'c) element go" where
  "parseImg n kids =
     go_bind (parse_attrs ''img'' Img_attr new_ImgProps n)
       (\<lambda>vp. go_bind (kids as_Element) (\<lambda>ks. Inr (react_Img vp ks)))"

definition parseInput ::
  "Node \<Rightarrow> (('h, 'c) assertion \<Rightarrow> ('h, 'c) element list go) \<Rightarrow> ('h, 'c) element go" where
  "parseInput n kids =
     go_bind (parse_attrs ''input'' Input_attr new_InputProps n)
       (\<lambda>vp. go_bind (kids as_Element) (\<lambda>ks. Inr (react_Input vp ks)))"

definition parseLabel ::
  "Node \<Rightarrow> (('h, 'c) assertion \<Rightarrow> ('h, 'c) element list go) \<Rightarrow> ('h, 'c) element go" where
  "parseLabel n kids =
     go_bind (parse_attrs ''label'' Label_attr new_LabelProps n)
       (\<lambda>vp. go_bind (kids as_Element) (\<lambda>ks. Inr (react_Label vp ks)))"

definition parseLi ::
  "Node \<Rightarrow> (('h, 'c) assertion \<Rightarrow> ('h, 'c) element list go) \<Rightarrow> ('h, 'c) element go" where
  "parseLi n kids =
     go_bind (parse_attrs ''li'' no_attr new_ElemProps n)
       (\<lambda>vp. go_bind (kids as_Element) (\<lambda>ks. Inr (react_Li vp ks)))"

definition parseMain ::
  "Node \<Rightarrow> (('h, 'c) assertion \<Rightarrow> ('h, 'c) element list go) \<Rightarrow> ('h, 'c) element go" where
  "parseMain n kids =
     go_bind (parse_attrs ''main'' no_attr new_ElemProps n)
       (\<lambda>vp. go_bind (kids as_Element) (\<lambda>ks. Inr (react_Main vp ks)))"

definition parseNav ::
  "Node \<Rightarrow> (('h, 'c) assertion \<Rightarrow> ('h, 'c) element list go) \<Rightarrow> ('h, 'c) element go" where
  "parseNav n kids =
     go_bind (parse_attrs ''nav'' no_attr new_ElemProps n)
       (\<lambda>vp. go_bind (kids as_Element) (\<lambda>ks. Inr (react_Nav vp ks)))"

definition parseOption ::
  "Node \<Rightarrow> (('h, 'c) assertion \<Rightarrow> ('h, 'c) element list go) \<Rightarrow> ('h, 'c) element go" where
  "parseOption n kids =
     go_bind (parse_attrs ''option'' Option_attr new_OptionProps n)
       (\<lambda>vp. go_bind (kids as_Element) (\<lambda>ks. Inr (react_Option vp ks)))"

definition parseP ::
  "Node \<Rightarrow> (('h, 'c) assertion \<Rightarrow> ('h, 'c) element list go) \<Rightarrow> ('h, 'c) element go" where
  "parseP n kids =
     go_bind (parse_attrs ''p'' no_attr new_ElemProps n)
       (\<lambda>vp. go_bind (kids as_Element) (\<lambda>ks. Inr (react_P vp ks)))"

definition parsePre ::
  "Node \<Rightarrow> (('h, 'c) assertion \<Rightarrow> ('h, 'c) element list go) \<Rightarrow> ('h, 'c) element go" where
  "parsePre n kids =
     go_bind (parse_attrs ''pre'' no_attr new_ElemProps n)
       (\<lambda>vp. go_bind (kids as_Element) (\<lambda>ks. Inr (react_Pre vp ks)))"

definition parseSelect ::
  "Node \<Rightarrow> (('h, 'c) assertion \<Rightarrow> ('h, 'c) element list go) \<Rightarrow> ('h, 'c) element go" where
  "parseSelect n kids =
     go_bind (parse_attrs ''select'' Select_attr new_SelectProps n)
       (\<lambda>vp. go_bind (kids as_OptionElem) (\<lambda>ks. Inr (react_Select vp ks)))"

definition parseSpan ::
  "Node \<Rightarrow> (('h, 'c) assertion \<Rightarrow> ('h, 'c) element list go) \<Rightarrow> ('h, 'c) element go" where
  "parseSpan n kids =
     go_bind (parse_attrs ''span'' no_attr new_ElemProps n)
       (\<lambda>vp. go_bind (kids as_Element) (\<lambda>ks. Inr (react_Span vp ks)))"

definition parseStrike ::
  "Node \<Rightarrow> (('h, 'c) assertion \<Rightarrow> ('h, 'c) element list go) \<Rightarrow> ('h, 'c) element go" where
  "parseStrike n kids =
     go_bind (parse_attrs ''s'' no_attr new_ElemProps n)
       (\<lambda>vp. go_bind (kids as_Element) (\<lambda>ks. Inr (react_Strike vp ks)))"

definition parseSup ::
  "Node \<Rightarrow> (('h, 'c) assertion \<Rightarrow> ('h, 'c) element list go) \<Rightarrow> ('h, 'c) element go" where
  "parseSup n kids =
     go_bind (parse_attrs ''sup'' no_attr new_ElemProps n)
       (\<lambda>vp. go_bind (kids as_Element) (\<lambda>ks. Inr (react_Sup vp ks)))"

definition parseTable ::
  "Node \<Rightarrow> (('h, 'c) assertion \<Rightarrow> ('h, 'c) element list go) \<Rightarrow> ('h, 'c) element go" where
  "parseTable n kids =
     go_bind (parse_attrs ''table'' no_attr new_ElemProps n)
       (\<lambda>vp. go_bind (kids as_Element) (\<lambda>ks. Inr (react_Table vp ks)))"

definition parseTbody ::
  "Node \<Rightarrow> (('h, 'c) assertion \<Rightarrow> ('h, 'c) element list go) \<Rightarrow> ('h, 'c) element go" where
  "parseTbody n kids =
     go_bind (parse_attrs ''tbody'' no_attr new_ElemProps n)
       (\<lambda>vp. go_bind (kids as_Element) (\<lambda>ks. Inr (react_Tbody vp ks)))"

definition parseTd ::
  "Node \<Rightarrow> (('h, 'c) assertion \<Rightarrow> ('h, 'c) element list go) \<Rightarrow> ('h, 'c) element go" where
  "parseTd n kids =
     go_bind (parse_attrs ''td'' no_attr new_ElemProps n)
       (\<lambda>vp. go_bind (kids as_Element) (\<lambda>ks. Inr (react_Td vp ks)))"

definition parseTextArea ::
  "Node \<Rightarrow> (('h, 'c) assertion \<Rightarrow> ('h, 'c) element list go) \<Rightarrow> ('h, 'c) element go" where
  "parseTextArea n kids =
     go_bind (parse_attrs ''textarea'' TextArea_attr new_TextAreaProps n)
       (\<lambda>vp. go_bind (kids as_Element) (\<lambda>ks. Inr (react_TextArea vp ks)))"

definition parseTh ::
  "Node \<Rightarrow> (('h, 'c) assertion \<Rightarrow> ('h, 'c) element list go) \<Rightarrow> ('h, 'c) element go" where
  "parseTh n kids =
     go_bind (parse_attrs ''th'' no_attr new_ElemProps n)
       (\<lambda>vp. go_bind (kids as_Element) (\<lambda>ks. Inr (react_Th vp ks)))"

definition parseThead ::
  "Node \<Rightarrow> (('h, 'c) assertion \<Rightarrow> ('h, 'c) element list go) \<Rightarrow> ('h, 'c) element go" where
  "parseThead n kids =
     go_bind (parse_attrs ''thead'' no_attr new_ElemProps n)
       (\<lambda>vp. go_bind (kids as_Element) (\<lambda>ks. Inr (react_Thead vp ks)))"

definition parseTr ::
  "Node \<Rightarrow> (('h, 'c) assertion \<Rightarrow> ('h, 'c) element list go) \<Rightarrow> ('h, 'c) element go" where
  "parseTr n kids =
     go_bind (parse_attrs ''tr'' no_attr new_ElemProps n)
       (\<lambda>vp. go_bind (kids as_Element) (\<lambda>ks. Inr (react_Tr vp ks)))"

definition parseUl ::
  "Node \<Rightarrow> (('h, 'c) assertion \<Rightarrow> ('h, 'c) element list go) \<Rightarrow> ('h, 'c) element go" where
  "parseUl n kids =
     go_bind (parse_attrs ''ul'' no_attr new_ElemProps n)
       (\<lambda>vp. go_bind (kids as_RendersLi) (\<lambda>ks. Inr (react_Ul vp ks)))"

definition parse_elem ::
  "Node \<Rightarrow> (('h, 'c) assertion \<Rightarrow> ('h, 'c) element list go) \<Rightarrow> ('h, 'c) element go" where
  "parse_elem n kids =
     (if Data n = ''a'' then parseA n kids
      else if Data n = ''abbr'' then parseAbbr n kids
      else if Data n = ''article'' then parseArticle n kids
      else if Data n = ''aside'' then parseAside n kids
      else if Data n = ''b'' then parseB n kids
      else if Data n = ''br'' then parseBr n kids
      else if Data n = ''button'' then parseButton n kids
      else if Data n = ''caption'' then parseCaption n kids
      else if Data n = ''code'' then parseCode n kids
      else if Data n = ''div'' then parseDiv n kids
      else if Data n = ''em'' then parseEm n kids
      else if Data n = ''footer'' then parseFooter n kids
      else if Data n = ''form'' then parseForm n kids
      else if Data n = ''h1'' then parseH1 n kids
      else if Data n = ''h2'' then parseH2 n kids
      else if Data n = ''h3'' then parseH3 n kids
      else if Data n = ''h4'' then parseH4 n kids
      else if Data n = ''h5'' then parseH5 n kids
      else if Data n = ''h6'' then parseH6 n kids
      else if Data n = ''header'' then parseHeader n kids
      else if Data n = ''hr'' then parseHr n kids
      else if Data n = ''i'' then parseI n kids
      else if Data n = ''iframe'' then parseIFrame n kids
      else if Data n = ''img'' then parseImg n kids
      else if Data n = ''input'' then parseInput n kids
      else if Data n = ''label'' then parseLabel n kids
      else if Data n = ''li'' then parseLi n kids
      else if Data n = ''main'' then parseMain n kids
      else if Data n = ''nav'' then parseNav n kids
      else if Data n = ''option'' then parseOption n kids
      else if Data n = ''p'' then parseP n kids
      else if Data n = ''pre'' then parsePre n kids
      else if Data n = ''select'' then parseSelect n kids
      else if Data n = ''span'' then parseSpan n kids
      else if Data n = ''s'' then parseStrike n kids
      else if Data n = ''sup'' then parseSup n kids
      else if Data n = ''table'' then parseTable n kids
      else if Data n = ''tbody'' then parseTbody n kids
      else if Data n = ''td'' then parseTd n kids
      else if Data n = ''textarea'' then parseTextArea n kids
      else if Data n = ''th'' then parseTh n kids
      else if Data n = ''thead'' then parseThead n kids
      else if Data n = ''tr'' then parseTr n kids
      else if Data n = ''ul'' then parseUl n kids
      else Inl (PanicWith ''cannot handle Element %v''))"

lemmas own_attr_defs =
  A_attr_def Button_attr_def IFrame_attr_def Img_attr_def Input_attr_def
  Label_attr_def Option_attr_def Select_attr_def TextArea_attr_def

lemmas parse_defs =
  parseA_def parseAbbr_def parseArticle_def parseAside_def parseB_def parseBr_def
  parseButton_def parseCaption_def parseCode_def parseDiv_def parseEm_def parseFooter_def
  parseForm_def parseH1_def parseH2_def parseH3_def parseH4_def parseH5_def
  parseH6_def parseHeader_def parseHr_def parseI_def parseIFrame_def parseImg_def
  parseInput_def parseLabel_def parseLi_def parseMain_def parseNav_def parseOption_def
  parseP_def parsePre_def parseSelect_def parseSpan_def parseStrike_def parseSup_def
  parseTable_def parseTbody_def parseTd_def parseTextArea_def parseTh_def parseThead_def
  parseTr_def parseUl_def

section \<open>The recursion over the node tree\<close>

text \<open>
  \<open>parse\<close> follows \<open>FirstChild\<close> and \<open>NextSibling\<close> and would not return on a cyclic
  structure; the fuel bounds the length of the chain of pointers followed, and running out
  of it is \<open>NoReturn\<close>. On a structure that spells out a tree the fuel is enough as soon as
  it exceeds the size of the tree (\<open>parse_represents\<close>).
\<close>

fun parse :: "nat \<Rightarrow> memory \<Rightarrow> nat \<Rightarrow> ('h, 'c) element go"
  and parse_kids :: "nat \<Rightarrow> memory \<Rightarrow> ('h, 'c) assertion \<Rightarrow> ptr \<Rightarrow> ('h, 'c) element list go" where
  "parse 0 m n = Inl NoReturn"
| "parse (Suc f) m n =
     (case NType (m n) of
        TextNode \<Rightarrow> Inr (S (Data (m n)))
      | ElementNode \<Rightarrow> parse_elem (m n) (\<lambda>asrt. parse_kids f m asrt (FirstChild (m n)))
      | _ \<Rightarrow> Inl (PanicWith ''cannot handle NodeType %v''))"
| "parse_kids 0 m asrt p = Inl NoReturn"
| "parse_kids (Suc f) m asrt None = Inr []"
| "parse_kids (Suc f) m asrt (Some c) =
     go_bind (parse f m c) (\<lambda>e. go_bind (asrt e) (\<lambda>k.
       go_bind (parse_kids f m asrt (NextSibling (m c))) (\<lambda>ks. Inr (k # ks))))"

section \<open>Which styles and attributes are accepted\<close>

definition css_keys :: "string list" where
  "css_keys = [''float'', ''font-size'', ''font-style'', ''height'', ''left'', ''margin-top'',
     ''max-height'', ''min-height'', ''overflow'', ''overflow-y'', ''position'', ''resize'',
     ''top'', ''width'', ''z-index'']"

definition css_part_ok :: "string \<Rightarrow> bool" where
  "css_part_ok p \<longleftrightarrow> (\<exists>k v. Split (CHR '':'') p = [k, v] \<and> TrimSpace k \<in> set css_keys)"

definition css_ok :: "string \<Rightarrow> bool" where
  "css_ok s \<longleftrightarrow> list_all css_part_ok (Split (CHR '';'') s)"

lemma css_field_total: "(\<exists>c. css_field k v res = Some c) \<longleftrightarrow> k \<in> set css_keys"
  by (simp add: css_field_def css_keys_def)

lemma css_part_total: "(\<exists>c. css_part p res = Inr c) \<longleftrightarrow> css_part_ok p"
proof (cases "\<exists>k v. Split (CHR '':'') p = [k, v]")
  case True
  then obtain k v where kv: "Split (CHR '':'') p = [k, v]" by blast
  then have "(\<exists>c. css_part p res = Inr c) \<longleftrightarrow>
      (\<exists>c. css_field (TrimSpace k) (Trim [CHR 0x22] (TrimSpace v)) res = Some c)"
    by (auto simp: css_part_def split: option.split)
  with kv show ?thesis by (simp add: css_field_total css_part_ok_def)
next
  case False
  then show ?thesis
    by (auto simp: css_part_def css_part_ok_def split: list.split)
qed

lemma css_loop_total: "(\<exists>c. css_loop ps res = Inr c) \<longleftrightarrow> list_all css_part_ok ps"
proof (induction ps arbitrary: res)
  case (Cons p ps)
  have "(\<exists>c. css_loop (p # ps) res = Inr c) \<longleftrightarrow>
      (\<exists>d. css_part p res = Inr d \<and> (\<exists>c. css_loop ps d = Inr c))" by auto
  with Cons.IH show ?case by (auto simp: css_part_total [of p res, symmetric])
qed simp

lemma parseCSS_total: "(\<exists>c. parseCSS s = Inr c) \<longleftrightarrow> css_ok s"
  by (simp add: parseCSS_def css_ok_def css_loop_total)

definition common_keys :: "string list" where
  "common_keys = [''aria-expanded'', ''aria-haspopup'', ''aria-labelledby'', ''class'', ''id'',
     ''key'', ''role'']"

text \<open>The elements the package knows and the attributes of their own that it reads.\<close>

definition elem_keys :: "(string \<times> string list) list" where
  "elem_keys =
     [(''a'', [''href'', ''target'', ''title'']), (''abbr'', []), (''article'', []),
      (''aside'', []), (''b'', []), (''br'', []), (''button'', [''type'']), (''caption'', []),
      (''code'', []), (''div'', []), (''em'', []), (''footer'', []), (''form'', []),
      (''h1'', []), (''h2'', []), (''h3'', []), (''h4'', []), (''h5'', []), (''h6'', []),
      (''header'', []), (''hr'', []), (''i'', []), (''iframe'', [''srcdoc'']),
      (''img'', [''alt'', ''src'']), (''input'', [''placeholder'', ''type'', ''value'']),
      (''label'', [''for'']), (''li'', []), (''main'', []), (''nav'', []),
      (''option'', [''value'']), (''p'', []), (''pre'', []), (''select'', [''value'']),
      (''span'', []), (''s'', []), (''sup'', []), (''table'', []), (''tbody'', []),
      (''td'', []), (''textarea'', [''placeholder'', ''value'']), (''th'', []),
      (''thead'', []), (''tr'', []), (''ul'', [])]"

definition own_keys :: "string \<Rightarrow> string list" where
  "own_keys tag = (case map_of elem_keys tag of None \<Rightarrow> [] | Some ks \<Rightarrow> ks)"

definition attr_ok :: "string list \<Rightarrow> Attribute \<Rightarrow> bool" where
  "attr_ok keys a \<longleftrightarrow>
     attr_Key a \<in> set common_keys \<or> attr_Key a \<in> set keys \<or> HasPrefix (attr_Key a) ''data-'' \<or>
     attr_Key a = ''style'' \<and> css_ok (attr_Val a)"

lemma elem_attr_total:
  "(case elem_attr k v vp of None \<Rightarrow> k \<notin> set common_keys \<and> k \<noteq> ''style''
    | Some (Inr _) \<Rightarrow> k \<in> set common_keys \<or> k = ''style'' \<and> css_ok v
    | Some (Inl _) \<Rightarrow> k = ''style'' \<and> \<not> css_ok v)"
proof (cases "k = ''style''")
  case True
  then have "elem_attr k v vp = Some (go_bind (parseCSS v) (\<lambda>c. Inr (vp\<lparr>Style := Some c\<rparr>)))"
    by (simp add: elem_attr_def)
  with True parseCSS_total [of v] show ?thesis
    by (cases "parseCSS v") auto
next
  case False
  then show ?thesis by (simp add: elem_attr_def common_keys_def)
qed

lemma attr_loop_total:
  assumes "\<And>k v vp. (\<exists>vp'. own k v vp = Some vp') \<longleftrightarrow> k \<in> set keys" and "''style'' \<notin> set keys"
  shows "(\<exists>r. attr_loop tag own as vp ds = Inr r) \<longleftrightarrow> list_all (attr_ok keys) as"
proof (induction as arbitrary: vp ds)
  case (Cons a as)
  note tot = elem_attr_total [of "attr_Key a" "attr_Val a" vp]
  show ?case
  proof (cases "elem_attr (attr_Key a) (attr_Val a) vp")
    case None
    with tot have k: "attr_Key a \<notin> set common_keys" "attr_Key a \<noteq> ''style''" by simp_all
    with assms(1) [of "attr_Key a" "attr_Val a" vp] None Cons.IH show ?thesis
      by (auto simp: attr_ok_def split: option.splits)
  next
    case (Some r)
    show ?thesis
    proof (cases r)
      case (Inl e)
      with Some tot have "attr_Key a = ''style''" "\<not> css_ok (attr_Val a)" by simp_all
      with Some Inl assms(2) show ?thesis by (auto simp: attr_ok_def common_keys_def HasPrefix_def)
    next
      case (Inr vp')
      with Some tot have "attr_ok keys a" by (auto simp: attr_ok_def)
      with Some Inr Cons.IH show ?thesis by simp
    qed
  qed
qed simp

lemma parse_attrs_total:
  assumes "\<And>k v vp. (\<exists>vp'. own k v vp = Some vp') \<longleftrightarrow> k \<in> set keys" and "''style'' \<notin> set keys"
  shows "(\<exists>r. parse_attrs tag own np n = Inr r) \<longleftrightarrow> list_all (attr_ok keys) (Attr n)"
  using attr_loop_total [where own = own and keys = keys and tag = tag and as = "Attr n" and vp = np and ds = None, OF assms]
  by (auto simp: parse_attrs_def split: prod.split)

text \<open>No attribute sets a handler.\<close>

definition keeps_OnClick ::
  "(string \<Rightarrow> string \<Rightarrow> ('h, 'z) ElemProps_scheme \<Rightarrow> ('h, 'z) ElemProps_scheme option) \<Rightarrow> bool" where
  "keeps_OnClick own \<longleftrightarrow> (\<forall>k v vp vp'. own k v vp = Some vp' \<longrightarrow> OnClick vp' = OnClick vp)"

lemma elem_attr_OnClick: "elem_attr k v vp = Some (Inr vp') \<Longrightarrow> OnClick vp' = OnClick vp"
  by (auto simp: elem_attr_def split: if_splits)

lemma attr_loop_OnClick:
  "keeps_OnClick own \<Longrightarrow> attr_loop tag own as vp ds = Inr (vp', ds') \<Longrightarrow> OnClick vp' = OnClick vp"
proof (induction tag own as vp ds rule: attr_loop.induct)
  case (2 tag own a as vp ds)
  show ?case
  proof (cases "elem_attr (attr_Key a) (attr_Val a) vp")
    case (Some r)
    with 2 show ?thesis by (auto dest: elem_attr_OnClick)
  next
    case None
    with 2 show ?thesis by (auto simp: keeps_OnClick_def split: option.splits if_splits)
  qed
qed simp

lemma parse_attrs_OnClick:
  "keeps_OnClick own \<Longrightarrow> OnClick np = None \<Longrightarrow> parse_attrs tag own np n = Inr (Some vp) \<Longrightarrow> OnClick vp = None"
  by (auto simp: parse_attrs_def dest: attr_loop_OnClick split: if_splits)

text \<open>What an element function returns: an element of that tag, exactly when the attributes
  are accepted and the children are parsed.\<close>

definition elem_result ::
  "string list \<Rightarrow> string \<Rightarrow> Attribute list \<Rightarrow> ('h, 'c) element list go \<Rightarrow> ('h, 'c) element go \<Rightarrow> bool" where
  "elem_result keys tag as kids r \<longleftrightarrow>
     (\<forall>e. r = Inr e \<longrightarrow> list_all (attr_ok keys) as \<and>
        (\<exists>props ks. kids = Inr ks \<and> e = Elem (Tag tag) (Some props) ks \<and>
           obj_get props ''onClick'' = None)) \<and>
     (\<forall>ks. list_all (attr_ok keys) as \<and> kids = Inr ks \<longrightarrow> (\<exists>e. r = Inr e))"

lemma elem_resultI:
  assumes "\<And>k v vp. (\<exists>vp'. own k v vp = Some vp') \<longleftrightarrow> k \<in> set keys" and "''style'' \<notin> set keys"
    and own: "keeps_OnClick own" and np: "OnClick np = None"
    and setp: "\<And>vp. OnClick vp = None \<Longrightarrow> obj_get (setp vp []) ''onClick'' = None"
  shows "elem_result keys tag (Attr n) kids
    (go_bind (parse_attrs tg own np n)
      (\<lambda>vp. go_bind kids (\<lambda>ks. Inr (createElement (Tag tag) (rprops_of setp vp) ks))))"
proof -
  have "obj_get (case vp of None \<Rightarrow> [] | Some p \<Rightarrow> setp p []) ''onClick'' = None"
    if "parse_attrs tg own np n = Inr vp" for vp
    using that parse_attrs_OnClick [OF own np, of tg n] setp by (cases vp) auto
  with parse_attrs_total [where own = own and keys = keys and tag = tg and np = np and n = n, OF assms(1,2)]
  show ?thesis by (auto simp: elem_result_def createElement_def rprops_of_def)
qed

lemma elem_resultI_leaf:
  assumes "\<And>k v vp. (\<exists>vp'. own k v vp = Some vp') \<longleftrightarrow> k \<in> set keys" and "''style'' \<notin> set keys"
    and "keeps_OnClick own" and "OnClick np = None"
    and "\<And>vp. OnClick vp = None \<Longrightarrow> obj_get (setp vp []) ''onClick'' = None"
  shows "elem_result keys tag (Attr n) (Inr [])
    (go_bind (parse_attrs tg own np n) (\<lambda>vp. Inr (createElement (Tag tag) (rprops_of setp vp) [])))"
  using elem_resultI [where own = own and keys = keys and kids = "Inr []" and tag = tag and n = n and tg = tg
      and np = np and setp = setp, OF assms] by simp

definition asserted :: "string \<Rightarrow> ('h, 'c) assertion" where
  "asserted tag =
     (if tag = ''select'' then as_OptionElem else if tag = ''ul'' then as_RendersLi else as_Element)"

lemma own_attr_keys:
  "(\<exists>vp'. no_attr k v vp0 = Some vp') \<longleftrightarrow> k \<in> set []"
  "(\<exists>vp'. A_attr k v vp1 = Some vp') \<longleftrightarrow> k \<in> set [''href'', ''target'', ''title'']"
  "(\<exists>vp'. Button_attr k v vp2 = Some vp') \<longleftrightarrow> k \<in> set [''type'']"
  "(\<exists>vp'. IFrame_attr k v vp3 = Some vp') \<longleftrightarrow> k \<in> set [''srcdoc'']"
  "(\<exists>vp'. Img_attr k v vp4 = Some vp') \<longleftrightarrow> k \<in> set [''alt'', ''src'']"
  "(\<exists>vp'. Input_attr k v vp5 = Some vp') \<longleftrightarrow> k \<in> set [''placeholder'', ''type'', ''value'']"
  "(\<exists>vp'. Label_attr k v vp6 = Some vp') \<longleftrightarrow> k \<in> set [''for'']"
  "(\<exists>vp'. Option_attr k v vp7 = Some vp') \<longleftrightarrow> k \<in> set [''value'']"
  "(\<exists>vp'. Select_attr k v vp8 = Some vp') \<longleftrightarrow> k \<in> set [''value'']"
  "(\<exists>vp'. TextArea_attr k v vp9 = Some vp') \<longleftrightarrow> k \<in> set [''placeholder'', ''value'']"
  by (simp_all add: own_attr_defs no_attr_def)

lemma own_attr_keep:
  "keeps_OnClick no_attr" "keeps_OnClick A_attr" "keeps_OnClick Button_attr" "keeps_OnClick IFrame_attr"
  "keeps_OnClick Img_attr" "keeps_OnClick Input_attr" "keeps_OnClick Label_attr"
  "keeps_OnClick Option_attr" "keeps_OnClick Select_attr" "keeps_OnClick TextArea_attr"
  by (simp_all add: keeps_OnClick_def own_attr_defs no_attr_def)

lemma new_props_OnClick:
  "OnClick new_ElemProps = None" "OnClick new_AProps = None" "OnClick new_ButtonProps = None"
  "OnClick new_IFrameProps = None" "OnClick new_ImgProps = None" "OnClick new_InputProps = None"
  "OnClick new_LabelProps = None" "OnClick new_OptionProps = None" "OnClick new_SelectProps = None"
  "OnClick new_TextAreaProps = None"
  by (simp_all add: new_ElemProps_def new_AProps_def new_ButtonProps_def new_IFrameProps_def
      new_ImgProps_def new_InputProps_def new_LabelProps_def new_OptionProps_def new_SelectProps_def
      new_TextAreaProps_def)

lemmas elem_results =
  elem_resultI [OF own_attr_keys(1)] elem_resultI [OF own_attr_keys(2)]
  elem_resultI [OF own_attr_keys(3)] elem_resultI [OF own_attr_keys(4)]
  elem_resultI [OF own_attr_keys(5)] elem_resultI [OF own_attr_keys(6)]
  elem_resultI [OF own_attr_keys(7)] elem_resultI [OF own_attr_keys(8)]
  elem_resultI [OF own_attr_keys(9)] elem_resultI [OF own_attr_keys(10)]
  elem_resultI_leaf [OF own_attr_keys(1)]

lemma parse_elem_unknown:
  "Data n \<notin> set (map fst elem_keys) \<Longrightarrow> parse_elem n kids = Inl (PanicWith ''cannot handle Element %v'')"
  by (simp add: parse_elem_def elem_keys_def)

lemma parse_elem_known:
  assumes "Data n \<in> set (map fst elem_keys)"
  shows "elem_result (own_keys (Data n)) (Data n) (Attr n)
    (if Data n = ''hr'' then Inr [] else kids (asserted (Data n))) (parse_elem n kids)"
proof -
  have *: "list_all (\<lambda>(t, ks). Data n = t \<longrightarrow> elem_result ks t (Attr n)
      (if t = ''hr'' then Inr [] else kids (asserted t)) (parse_elem n kids)) elem_keys"
    unfolding elem_keys_def
    by (simp add: parse_elem_def asserted_def parse_defs react_elem_defs elem_results
        own_attr_keep new_props_OnClick set_props_onClick set_html_props_onClick)
  from assms obtain ks where "map_of elem_keys (Data n) = Some ks"
    by (metis list.set_map map_of_eq_None_iff not_None_eq)
  with * show ?thesis
    by (auto simp: list_all_iff own_keys_def dest!: map_of_SomeD)
qed

section \<open>The same parser on trees\<close>

text \<open>What the pointers of a node spell out, as a value: the reference for \<open>parse\<close>.\<close>

datatype html =
    HText string
  | HElem string "Attribute list" "html list"
  | HOther NodeType

definition elem_node :: "string \<Rightarrow> Attribute list \<Rightarrow> Node" where
  "elem_node tag as = new_Node\<lparr>NType := ElementNode, Data := tag, Attr := as\<rparr>"

fun parse_html :: "html \<Rightarrow> ('h, 'c) element go" where
  "parse_html (HText s) = Inr (S s)"
| "parse_html (HElem tag as ts) =
     parse_elem (elem_node tag as) (\<lambda>asrt. go_map (\<lambda>t. go_bind (parse_html t) asrt) ts)"
| "parse_html (HOther _) = Inl (PanicWith ''cannot handle NodeType %v'')"

fun has_tag :: "string \<Rightarrow> html \<Rightarrow> bool" where
  "has_tag tag (HElem tag' _ _) = (tag = tag')"
| "has_tag tag _ = False"

definition kids_fit :: "string \<Rightarrow> html list \<Rightarrow> bool" where
  "kids_fit tag ts \<longleftrightarrow>
     (tag = ''select'' \<longrightarrow> list_all (has_tag ''option'') ts) \<and>
     (tag = ''ul'' \<longrightarrow> list_all (has_tag ''li'') ts)"

text \<open>The HTML the package accepts: known elements only, known attributes only, well-formed
  styles, options inside \<open>select\<close> and items inside \<open>ul\<close>. What is inside \<open>hr\<close> is not
  looked at.\<close>

fun accepts :: "html \<Rightarrow> bool" where
  "accepts (HText s) = True"
| "accepts (HElem tag as ts) \<longleftrightarrow>
     tag \<in> set (map fst elem_keys) \<and> list_all (attr_ok (own_keys tag)) as \<and>
     (tag = ''hr'' \<or> list_all accepts ts \<and> kids_fit tag ts)"
| "accepts (HOther _) = False"

text \<open>An element that shows a tree: the same tags in the same places, text as it is, nothing
  to click on.\<close>

fun renders :: "html \<Rightarrow> ('h, 'c) element \<Rightarrow> bool" where
  "renders (HText s) e \<longleftrightarrow> e = S s"
| "renders (HElem tag as ts) e \<longleftrightarrow>
     (\<exists>props ks. e = Elem (Tag tag) (Some props) ks \<and> obj_get props ''onClick'' = None \<and>
        (if tag = ''hr'' then ks = [] else list_all2 renders ts ks))"
| "renders (HOther _) e = False"

lemma asserted_Inr:
  "asserted tag e = Inr e' \<Longrightarrow> e' = e"
  by (auto simp: asserted_def as_Element_def as_OptionElem_def as_RendersLi_def
      split: if_splits element.splits elem_type.splits)

lemma asserted_renders:
  "renders t e \<Longrightarrow> (\<exists>e'. asserted tag e = Inr e') \<longleftrightarrow> kids_fit tag [t]"
  by (cases t)
    (auto simp: asserted_def as_Element_def as_OptionElem_def as_RendersLi_def kids_fit_def split: if_splits)

lemma elem_node_simps [simp]: "Data (elem_node tag as) = tag" "Attr (elem_node tag as) = as"
  by (simp_all add: elem_node_def)

lemma parse_html_known:
  "tag \<in> set (map fst elem_keys) \<Longrightarrow>
   elem_result (own_keys tag) tag as
     (if tag = ''hr'' then Inr [] else go_map (\<lambda>t. go_bind (parse_html t) (asserted tag)) ts)
     (parse_html (HElem tag as ts))"
  using parse_elem_known [of "elem_node tag as" "\<lambda>asrt. go_map (\<lambda>t. go_bind (parse_html t) asrt) ts"]
  by (simp cong del: if_weak_cong)

lemma parse_html_renders:
  fixes e :: "('h, 'c) element"
  shows "parse_html t = Inr e \<Longrightarrow> renders t e \<and> accepts t"
proof (induction t arbitrary: e)
  case (HElem tag as ts)
  let ?kids = "\<lambda>asrt :: ('h, 'c) assertion. go_map (\<lambda>t. go_bind (parse_html t) asrt) ts"
  have known: "tag \<in> set (map fst elem_keys)"
    using HElem.prems parse_elem_unknown [of "elem_node tag as" ?kids] by auto
  from parse_html_known [OF this, of as ts] HElem.prems obtain props ks where
    r: "list_all (attr_ok (own_keys tag)) as" "e = Elem (Tag tag) (Some props) ks"
      "obj_get props ''onClick'' = None"
      "(if tag = ''hr'' then Inr [] else ?kids (asserted tag)) = Inr ks"
    unfolding elem_result_def by blast
  show ?case
  proof (cases "tag = ''hr''")
    case False
    have kid: "renders t k \<and> accepts t \<and> kids_fit tag [t]"
      if "t \<in> set ts" and "go_bind (parse_html t) (asserted tag) = Inr k" for t and k :: "('h, 'c) element"
    proof -
      from that(2) obtain e' :: "('h, 'c) element" where e': "parse_html t = Inr e'" "asserted tag e' = Inr k" by auto
      with HElem.IH [OF that(1)] have "renders t e' \<and> accepts t" by blast
      with e' asserted_Inr [OF e'(2)] asserted_renders [of t e' tag] show ?thesis by blast
    qed
    from False r(4) have "list_all2 (\<lambda>t k. go_bind (parse_html t) (asserted tag) = Inr k) ts ks"
      by (simp add: go_map_Inr_iff)
    then have "list_all2 (\<lambda>t k. renders t k \<and> accepts t \<and> kids_fit tag [t]) ts ks"
      by (rule list.rel_mono_strong) (use kid in blast)
    then have "list_all2 renders ts ks" and "list_all accepts ts" and "list_all (\<lambda>t. kids_fit tag [t]) ts"
      by (auto simp: list_all2_conv_all_nth list_all_length)
    moreover from this(3) have "kids_fit tag ts" by (auto simp: kids_fit_def list_all_iff)
    ultimately show ?thesis using r known False by auto
  qed (use r known in auto)
qed auto

lemma parse_html_total: "accepts t \<Longrightarrow> \<exists>e :: ('h, 'c) element. parse_html t = Inr e"
proof (induction t)
  case (HElem tag as ts)
  let ?kids = "\<lambda>asrt :: ('h, 'c) assertion. go_map (\<lambda>t. go_bind (parse_html t) asrt) ts"
  have "\<exists>ks. (if tag = ''hr'' then Inr [] else ?kids (asserted tag)) = Inr ks"
  proof (cases "tag = ''hr''")
    case False
    have "\<exists>k :: ('h, 'c) element. go_bind (parse_html t) (asserted tag) = Inr k" if "t \<in> set ts" for t
    proof -
      from HElem.prems False that have "accepts t" and "kids_fit tag [t]"
        by (auto simp: list_all_iff kids_fit_def)
      with HElem.IH [OF that] obtain e :: "('h, 'c) element" where e: "parse_html t = Inr e" by blast
      with parse_html_renders [OF e] asserted_renders [of t e tag] \<open>kids_fit tag [t]\<close> show ?thesis by auto
    qed
    then obtain k :: "html \<Rightarrow> ('h, 'c) element"
      where "\<And>t. t \<in> set ts \<Longrightarrow> go_bind (parse_html t) (asserted tag) = Inr (k t)" by metis
    then have "?kids (asserted tag) = Inr (map k ts)" by (rule go_map_total)
    with False show ?thesis by simp
  qed simp
  moreover have "tag \<in> set (map fst elem_keys)" "list_all (attr_ok (own_keys tag)) as"
    using HElem.prems by simp_all
  ultimately show ?case
    using parse_html_known [of tag as ts] unfolding elem_result_def by blast
qed auto

section \<open>Pointers that spell out trees\<close>

datatype itree = IT nat "itree list"

fun node_of :: "itree \<Rightarrow> nat" where "node_of (IT n _) = n"

fun kids_of :: "itree \<Rightarrow> itree list" where "kids_of (IT _ ts) = ts"

fun chain :: "memory \<Rightarrow> ptr \<Rightarrow> itree list \<Rightarrow> bool" where
  "chain m p [] \<longleftrightarrow> p = None"
| "chain m p (IT n ks # ts) \<longleftrightarrow>
     p = Some n \<and> chain m (FirstChild (m n)) ks \<and> chain m (NextSibling (m n)) ts"

fun html_at :: "memory \<Rightarrow> itree \<Rightarrow> html" where
  "html_at m (IT n ts) =
     (case NType (m n) of
        TextNode \<Rightarrow> HText (Data (m n))
      | ElementNode \<Rightarrow> HElem (Data (m n)) (Attr (m n)) (map (html_at m) ts)
      | t \<Rightarrow> HOther t)"

lemma parse_attrs_cong:
  "Attr n = Attr n' \<Longrightarrow> parse_attrs tag own np n = parse_attrs tag own np n'"
  by (simp add: parse_attrs_def)

lemma parse_elem_cong:
  assumes "Data n = Data n'" and "Attr n = Attr n'" and "\<And>asrt. kids asrt = kids' asrt"
  shows "parse_elem n kids = parse_elem n' kids'"
proof -
  have "kids = kids'" using assms(3) by blast
  then show ?thesis
    unfolding parse_elem_def assms(1) parse_defs by (simp only: parse_attrs_cong [OF assms(2)])
qed

text \<open>With more fuel than the tree is large the parser on pointers returns what the parser on
  trees returns.\<close>

lemma parse_represents_both:
  "(\<forall>p ts (asrt :: ('h, 'c) assertion). chain m p ts \<longrightarrow> size_list size ts < f \<longrightarrow>
     parse_kids f m asrt p = go_map (\<lambda>t. go_bind (parse_html (html_at m t)) asrt) ts) \<and>
   (\<forall>n ts. chain m (FirstChild (m n)) ts \<longrightarrow> size (IT n ts) < f \<longrightarrow>
     parse f m n = (parse_html (html_at m (IT n ts)) :: ('h, 'c) element go))"
proof (induction f)
  case (Suc f)
  have "parse_kids (Suc f) m asrt p = go_map (\<lambda>t. go_bind (parse_html (html_at m t)) asrt) ts"
    if "chain m p ts" and "size_list size ts < Suc f" for p ts and asrt :: "('h, 'c) assertion"
  proof (cases ts)
    case (Cons t us)
    obtain n ks where t: "t = IT n ks" by (cases t)
    with that Cons have "p = Some n" "chain m (FirstChild (m n)) ks" "chain m (NextSibling (m n)) us"
      "size (IT n ks) < f" "size_list size us < f" by auto
    moreover from this Suc.IH have
      "parse f m n = (parse_html (html_at m (IT n ks)) :: ('h, 'c) element go)"
      "parse_kids f m asrt (NextSibling (m n)) =
        go_map (\<lambda>t. go_bind (parse_html (html_at m t)) asrt) us" by blast+
    ultimately show ?thesis using Cons t by (simp add: go_bind_assoc del: html_at.simps itree.size)
  qed (use that in simp)
  moreover have "parse (Suc f) m n = (parse_html (html_at m (IT n ts)) :: ('h, 'c) element go)"
    if "chain m (FirstChild (m n)) ts" and "size (IT n ts) < Suc f" for n ts
  proof -
    from that have "parse_kids f m asrt (FirstChild (m n)) =
        go_map (\<lambda>t. go_bind (parse_html (html_at m t)) asrt) ts" for asrt :: "('h, 'c) assertion"
      using Suc.IH by simp
    then have "parse_elem (m n) (\<lambda>asrt. parse_kids f m asrt (FirstChild (m n))) =
        (parse_elem (elem_node (Data (m n)) (Attr (m n)))
          (\<lambda>asrt. go_map (\<lambda>t. go_bind (parse_html t) asrt) (map (html_at m) ts)) :: ('h, 'c) element go)"
      by (intro parse_elem_cong) (simp_all add: go_map_map)
    then show ?thesis by (simp split: NodeType.split)
  qed
  ultimately show ?case by blast
qed simp

lemma parse_represents:
  assumes "chain m (FirstChild (m n)) ts" and "size (IT n ts) < f"
  shows "parse f m n = parse_html (html_at m (IT n ts))"
  using parse_represents_both [of m f] assms by blast

section \<open>What the parsers promise\<close>

text \<open>C31. A style attribute is accepted exactly when each of its parts between semicolons has one
  colon, with a property the package knows before it. In particular a trailing semicolon, or
  an empty attribute, makes the client panic.\<close>

theorem parseCSS_accepts_iff:
  "(\<exists>c. parseCSS s = Inr c) \<longleftrightarrow> css_ok s"
  by (rule parseCSS_total)

text \<open>C30. The recursive parser on the heap of nodes computes the same element as the definition by
  recursion on the tree those nodes represent, and it returns: fuel beyond the size of the
  tree is enough.\<close>

theorem parse_refines_parse_html:
  assumes "chain m (FirstChild (m n)) ts" and "size (IT n ts) < f"
  shows "parse f m n = parse_html (html_at m (IT n ts))"
  by (rule parse_represents) (fact assms)+

theorem parse_refines_parse_html_witness:
  "parse 2 (\<lambda>_. new_Node\<lparr>NType := TextNode, Data := ''gopher''\<rparr>) 0 =
     (Inr (S ''gopher'') :: (nat, nat) element go)"
  using parse_refines_parse_html [of "\<lambda>_. new_Node\<lparr>NType := TextNode, Data := ''gopher''\<rparr>" 0 "[]" 2]
  by (simp add: new_Node_def)

text \<open>C29. Exactly the accepted trees are parsed, whatever is done with the result: elements the
  package knows with attributes it knows, in which list items and options stand where they
  are required; everything else panics. What comes out has the tags, the children and the
  texts of the tree and no click handler.\<close>

theorem parse_html_exactly:
  "case parse_html t :: ('h, 'c) element go of
     Inr e \<Rightarrow> accepts t \<and> renders t e
   | Inl _ \<Rightarrow> \<not> accepts t"
proof (cases "parse_html t :: ('h, 'c) element go")
  case (Inl err)
  then have "\<not> accepts t" using parse_html_total [of t, where ?'h = 'h and ?'c = 'c] by auto
  with Inl show ?thesis by simp
next
  case (Inr e)
  then show ?thesis using parse_html_renders [of t e] by simp
qed

end
