(* ===== verification/Jsx_Html.thy ===== *)
theory Jsx_Html
  imports Jsx_Parse
begin

text \<open>
  The package \<^verbatim>\<open>myitcv.io/react/jsx\<close>, second half (\<open>jsx.go\<close>): \<open>HTML\<close>, \<open>HTMLElem\<close>
  and \<open>Markdown\<close>. \<open>html.ParseFragment\<close> and \<open>blackfriday.MarkdownCommon\<close> are
  parameters: the first returns an error or a store of nodes with the roots of the fragment,
  the second a string. The main result (\<open>HTML_parsed\<close>) says what \<open>HTML\<close> computes, with its
  in-place removal of blank text nodes, as a function of the parsed trees.
\<close>

section \<open>Removing blank text\<close>

definition blank :: "Node \<Rightarrow> bool" where
  "blank n \<longleftrightarrow> NType n = TextNode \<and> TrimSpace (Data n) = []"

text \<open>The inner loop over the children of \<open>v\<close> and the outer loop over the queue. Both follow
  pointers, so both have fuel; \<open>HTML\<close> starts them with more fuel than a store with that
  many nodes can use up.\<close>

fun strip_kids :: "nat \<Rightarrow> nat \<Rightarrow> ptr \<Rightarrow> memory \<Rightarrow> nat list \<Rightarrow> (memory \<times> nat list) go" where
  "strip_kids 0 v c m toWalk = Inl NoReturn"
| "strip_kids (Suc f) v None m toWalk = Inr (m, toWalk)"
| "strip_kids (Suc f) v (Some c) m toWalk =
     go_bind (if blank (m c) then RemoveChild v c m else Inr m)
       (\<lambda>m'. strip_kids f v (NextSibling (m' c)) m' (toWalk @ [c]))"

fun strip_walk :: "nat \<Rightarrow> nat list \<Rightarrow> memory \<Rightarrow> memory go" where
  "strip_walk f [] m = Inr m"
| "strip_walk 0 (v # toWalk) m = Inl NoReturn"
| "strip_walk (Suc f) (v # toWalk) m =
     go_bind (strip_kids f v (FirstChild (m v)) m toWalk) (\<lambda>(m', toWalk'). strip_walk f toWalk' m')"

section \<open>HTML, HTMLElem and Markdown\<close>

type_synonym parse_fragment = "string \<Rightarrow> Node \<Rightarrow> string + (dom_store \<times> nat list)"
type_synonym ('h, 'c) html_cache = "(string \<times> ('h, 'c) element list) list"

definition dummy_div :: Node where
  "dummy_div = new_Node\<lparr>NType := ElementNode, Data := ''div'', DataAtom := 0x16b03\<rparr>"

definition HTML ::
  "parse_fragment \<Rightarrow> string \<Rightarrow> ('h, 'c) html_cache \<Rightarrow>
   (('h, 'c) element list \<times> ('h, 'c) html_cache) go" where
  "HTML ParseFragment s0 htmlCache =
     (let s = TrimSpace s0 in
      case map_of htmlCache s of
        Some v \<Rightarrow> Inr (v, htmlCache)
      | None \<Rightarrow>
          (case ParseFragment s dummy_div of
             Inl err \<Rightarrow> Inl (PanicWith ''failed to parse HTML %q: %v'')
           | Inr (st, elems) \<Rightarrow>
               let fuel = Suc (2 * brk st);
                   toParse = filter (\<lambda>v. \<not> blank (mem st v)) elems
               in go_bind (strip_walk fuel toParse (mem st))
                    (\<lambda>m. go_bind (go_map (parse fuel m) toParse)
                      (\<lambda>res. Inr (res, AList.update s res htmlCache)))))"

definition HTMLElem ::
  "parse_fragment \<Rightarrow> string \<Rightarrow> ('h, 'c) html_cache \<Rightarrow>
   (('h, 'c) element \<times> ('h, 'c) html_cache) go" where
  "HTMLElem ParseFragment s htmlCache =
     go_bind (HTML ParseFragment s htmlCache)
       (\<lambda>(res, cache). if length res \<noteq> 1
          then Inl (PanicWith ''expected single element result from %q; got %v'')
          else Inr (res ! 0, cache))"

definition Markdown ::
  "parse_fragment \<Rightarrow> (string \<Rightarrow> string) \<Rightarrow> string \<Rightarrow> ('h, 'c) html_cache \<Rightarrow>
   (('h, 'c) element list \<times> ('h, 'c) html_cache) go" where
  "Markdown ParseFragment MarkdownCommon s htmlCache = HTML ParseFragment (MarkdownCommon s) htmlCache"

section \<open>Trees in a well-formed memory\<close>

fun tree_in :: "(nat \<Rightarrow> nat list) \<Rightarrow> itree \<Rightarrow> bool" where
  "tree_in K (IT n ts) \<longleftrightarrow> map node_of ts = K n \<and> list_all (tree_in K) ts"

fun ids :: "itree \<Rightarrow> nat list" where
  "ids (IT n ts) = n # concat (map ids ts)"

lemma node_of_ids: "node_of t \<in> set (ids t)"
  by (cases t) simp

lemma tree_in_cong:
  "(\<And>n. n \<in> set (ids t) \<Longrightarrow> K' n = K n) \<Longrightarrow> tree_in K' t = tree_in K t"
proof (induction t)
  case (IT n ts)
  have "list_all (tree_in K') ts = list_all (tree_in K) ts"
    by (rule list.pred_cong [OF refl]) (use IT in auto)
  then show ?case using IT.prems by simp
qed

lemma size_ids: "size t < 2 * length (ids t)"
proof (induction t)
  case (IT n ts)
  have "size_list size ts \<le> 2 * length (concat (map ids ts))"
    using IT by (induction ts) (auto simp: Suc_le_eq less_imp_le, fastforce)
  then show ?case by simp
qed

lemma size_list_ids: "size_list size ts \<le> 2 * length (concat (map ids ts))"
proof (induction ts)
  case (Cons t ts)
  with size_ids [of t] show ?case by simp
qed simp

text \<open>The number of nodes of a store bounds the size of the trees in it.\<close>

lemma size_list_brk:
  assumes "distinct (concat (map ids ts))" and "\<And>n. n \<in> set (concat (map ids ts)) \<Longrightarrow> n < b"
  shows "size_list size ts < Suc (2 * b)"
proof -
  have "length (concat (map ids ts)) = card (set (concat (map ids ts)))"
    using assms(1) by (metis distinct_card)
  also have "\<dots> \<le> card {..<b}" by (rule card_mono) (use assms(2) in auto)
  finally show ?thesis using size_list_ids [of ts] by simp
qed

lemma chain_linked:
  assumes wf: "wf_dom m K"
  shows "list_all (tree_in K) ts \<Longrightarrow> linked m p prev (map node_of ts) None \<Longrightarrow>
    chain m (first_of (map node_of ts) None) ts"
proof (induction "size_list size ts" arbitrary: ts p prev rule: less_induct)
  case less
  show ?case
  proof (cases ts)
    case (Cons t us)
    obtain n ks where t: "t = IT n ks" by (cases t)
    have ks: "map node_of ks = K n" "list_all (tree_in K) ks" "list_all (tree_in K) us"
      using less.prems(1) Cons t by auto
    have "chain m (first_of (map node_of ks) None) ks"
      by (rule less.hyps [of ks n None]) (use ks wf_dom_node(5) [OF wf, of n] Cons t in auto)
    moreover have "chain m (first_of (map node_of us) None) us"
      by (rule less.hyps [of us p "Some n"]) (use ks less.prems(2) Cons t in auto)
    ultimately show ?thesis
      using Cons t ks less.prems(2) wf_dom_node(3) [OF wf, of n] by simp
  qed simp
qed

lemma chain_tree:
  assumes "wf_dom m K" and "tree_in K (IT n ts)"
  shows "chain m (FirstChild (m n)) ts"
  using chain_linked [OF assms(1), of ts n None] assms(2) wf_dom_node(3,5) [OF assms(1), of n] by simp

section \<open>What the removal of blank text does\<close>

text \<open>
  Once a blank child has been removed its \<open>NextSibling\<close> is \<open>nil\<close>, so the inner loop stops
  there: of the children of a node only those up to the first blank one are visited, and
  only that one is removed.
\<close>

fun drop_first :: "('a \<Rightarrow> bool) \<Rightarrow> 'a list \<Rightarrow> 'a list" where
  "drop_first b [] = []"
| "drop_first b (x # xs) = (if b x then xs else x # drop_first b xs)"

fun upto_first :: "('a \<Rightarrow> bool) \<Rightarrow> 'a list \<Rightarrow> 'a list" where
  "upto_first b [] = []"
| "upto_first b (x # xs) = (if b x then [x] else x # upto_first b xs)"

lemma upto_first_map: "upto_first b (map f xs) = map f (upto_first (\<lambda>x. b (f x)) xs)"
  by (induction xs) auto

lemma upto_first_subset: "set (upto_first b xs) \<subseteq> set xs"
  by (induction xs) auto

lemma strip_kids_spec:
  assumes "wf_dom m K" and "K v = xs @ ys" and "length ys < f"
  shows "\<exists>m'. strip_kids f v (first_of ys None) m q = Inr (m', q @ upto_first (\<lambda>c. blank (m c)) ys) \<and>
    wf_dom m' (K(v := xs @ drop_first (\<lambda>c. blank (m c)) ys)) \<and> same_payload m m'"
  using assms
proof (induction ys arbitrary: xs f q)
  case Nil
  then obtain g where "f = Suc g" by (cases f) auto
  with Nil have "strip_kids f v (first_of [] None) m q = Inr (m, q)" by simp
  moreover have "K(v := xs @ []) = K" using Nil.prems(2) by auto
  ultimately show ?case using Nil.prems(1) by (auto intro!: exI [of _ m])
next
  case (Cons c ys)
  then obtain g where f: "f = Suc g" and g: "length ys < g" by (cases f) auto
  show ?case
  proof (cases "blank (m c)")
    case True
    obtain m' where m': "RemoveChild v c m = Inr m'" "wf_dom m' (K(v := remove1 c (K v)))"
        "detached m' c" "same_payload m m'"
      using RemoveChild_wf [OF Cons.prems(1), of c v] Cons.prems(2) by auto
    have "distinct (xs @ c # ys)" using wf_dom_node(1) [OF Cons.prems(1), of v] Cons.prems(2) by simp
    then have "remove1 c (K v) = xs @ ys" using Cons.prems(2) by (simp add: remove1_append)
    moreover have "strip_kids f v (first_of (c # ys) None) m q = Inr (m', q @ [c])"
      using m'(1,3) True f g by (cases g) (simp_all add: detached_def)
    moreover have "drop_first (\<lambda>c. blank (m c)) (c # ys) = ys" "upto_first (\<lambda>c. blank (m c)) (c # ys) = [c]"
      using True by simp_all
    ultimately show ?thesis using m'(2,4) by (simp only:) blast
  next
    case False
    have next_c: "NextSibling (m c) = first_of ys None"
      using wf_dom_node(5) [OF Cons.prems(1), of v] Cons.prems(2) by simp
    have "K v = (xs @ [c]) @ ys" using Cons.prems(2) by simp
    from Cons.IH [OF Cons.prems(1) this g, of "q @ [c]"] False next_c f show ?thesis by simp
  qed
qed

lemma length_size_list: "length ts \<le> size_list size ts"
  by (induction ts) auto

lemma size_upto_first: "size_list size (upto_first b ts) \<le> size_list size ts"
  by (induction ts) auto

lemma distinct_upto_first:
  "distinct (concat (map ids ts)) \<Longrightarrow> distinct (concat (map ids (upto_first b ts)))"
proof (induction ts)
  case (Cons t ts)
  then show ?case using upto_first_subset [of b ts] by auto
qed simp

text \<open>The nodes the outer loop visits below a tree.\<close>

fun walked :: "(nat \<Rightarrow> bool) \<Rightarrow> itree \<Rightarrow> nat list"
  and walked_list :: "(nat \<Rightarrow> bool) \<Rightarrow> itree list \<Rightarrow> nat list" where
  "walked b (IT n ts) = n # walked_list b ts"
| "walked_list b [] = []"
| "walked_list b (t # ts) = walked b t @ (if b (node_of t) then [] else walked_list b ts)"

lemma walked_list_upto:
  "set (walked_list b ts) = set (concat (map (walked b) (upto_first (\<lambda>t. b (node_of t)) ts)))"
  by (induction ts) auto

lemma walked_ids: "set (walked b t) \<subseteq> set (ids t)" "set (walked_list b ts) \<subseteq> set (concat (map ids ts))"
  by (induction b t and b ts rule: walked_walked_list.induct) auto

definition cut_at :: "(nat \<Rightarrow> bool) \<Rightarrow> nat set \<Rightarrow> (nat \<Rightarrow> nat list) \<Rightarrow> nat \<Rightarrow> nat list" where
  "cut_at b W K n = (if n \<in> W then drop_first b (K n) else K n)"

lemma strip_walk_spec:
  assumes "wf_dom m K" and "list_all (tree_in K) qs" and "distinct (concat (map ids qs))"
    and "size_list size qs < f"
  shows "\<exists>m'. strip_walk f (map node_of qs) m = Inr m' \<and> same_payload m m' \<and>
    wf_dom m' (cut_at (\<lambda>n. blank (m n)) (set (concat (map (walked (\<lambda>n. blank (m n))) qs))) K)"
  using assms
proof (induction f arbitrary: m K qs)
  case (Suc f)
  let ?b = "\<lambda>n. blank (m n)"
  show ?case
  proof (cases qs)
    case Nil
    then show ?thesis using Suc.prems(1) by (simp add: cut_at_def)
  next
    case (Cons t qs')
    obtain v ts where t: "t = IT v ts" by (cases t)
    have Kv: "K v = map node_of ts" and ts: "list_all (tree_in K) ts" "list_all (tree_in K) qs'"
      using Suc.prems(2) Cons t by auto
    have fresh: "v \<notin> set (concat (map ids (ts @ qs')))" using Suc.prems(3) Cons t by auto
    let ?vis = "upto_first (\<lambda>t. ?b (node_of t)) ts"
    have vis: "set ?vis \<subseteq> set ts" by (rule upto_first_subset)
    have "length (map node_of ts) < f" using Suc.prems(4) Cons t length_size_list [of ts] by simp
    from strip_kids_spec [OF Suc.prems(1), of v "[]" "map node_of ts" f "map node_of qs'"] Kv this
    obtain m1 where m1: "strip_kids f v (FirstChild (m v)) m (map node_of qs') =
        Inr (m1, map node_of (qs' @ ?vis))"
      "wf_dom m1 (K(v := drop_first ?b (K v)))" "same_payload m m1"
      using wf_dom_node(3) [OF Suc.prems(1), of v] by (auto simp: upto_first_map)
    have b1: "(\<lambda>n. blank (m1 n)) = ?b"
      using m1(3) by (simp add: same_payload_def blank_def)
    have "list_all (tree_in (K(v := drop_first ?b (K v)))) (qs' @ ?vis)"
    proof -
      have "tree_in (K(v := drop_first ?b (K v))) u = tree_in K u" if "u \<in> set (ts @ qs')" for u
        by (rule tree_in_cong) (use fresh that in auto)
      with ts vis show ?thesis by (auto simp: list_all_iff)
    qed
    moreover have "distinct (concat (map ids (qs' @ ?vis)))"
    proof -
      have "set (concat (map ids qs')) \<inter> set (concat (map ids ?vis)) = {}"
        using Suc.prems(3) Cons t vis by fastforce
      then show ?thesis using Suc.prems(3) Cons t by (auto simp: distinct_upto_first)
    qed
    moreover have "size_list size (qs' @ ?vis) < f"
      using Suc.prems(4) Cons t size_upto_first [of "\<lambda>t. ?b (node_of t)" ts] by simp
    ultimately obtain m2 where m2: "strip_walk f (map node_of (qs' @ ?vis)) m1 = Inr m2"
      "same_payload m1 m2"
      "wf_dom m2 (cut_at ?b (set (concat (map (walked ?b) (qs' @ ?vis)))) (K(v := drop_first ?b (K v))))"
      using Suc.IH [OF m1(2), of "qs' @ ?vis"] unfolding b1 by blast
    have "v \<notin> set (concat (map (walked ?b) (qs' @ ?vis)))"
      using fresh vis walked_ids(1) [of ?b] by fastforce
    then have "cut_at ?b (set (concat (map (walked ?b) (qs' @ ?vis)))) (K(v := drop_first ?b (K v))) =
        cut_at ?b (set (concat (map (walked ?b) qs))) K"
      using Cons t by (auto simp: cut_at_def fun_eq_iff walked_list_upto)
    with m1 m2 show ?thesis
      using Cons t by (auto intro: same_payload_trans)
  qed
qed simp

section \<open>HTML as a function of the parsed trees\<close>

text \<open>What a tree looks like after the removal.\<close>

fun blank_html :: "html \<Rightarrow> bool" where
  "blank_html (HText s) \<longleftrightarrow> TrimSpace s = []"
| "blank_html _ = False"

fun strip_html :: "html \<Rightarrow> html"
  and strip_htmls :: "html list \<Rightarrow> html list" where
  "strip_html (HText s) = HText s"
| "strip_html (HElem tag as ts) = HElem tag as (strip_htmls ts)"
| "strip_html (HOther t) = HOther t"
| "strip_htmls [] = []"
| "strip_htmls (t # ts) = (if blank_html t then ts else strip_html t # strip_htmls ts)"

fun strip_it :: "(nat \<Rightarrow> bool) \<Rightarrow> itree \<Rightarrow> itree"
  and strip_its :: "(nat \<Rightarrow> bool) \<Rightarrow> itree list \<Rightarrow> itree list" where
  "strip_it b (IT n ts) = IT n (strip_its b ts)"
| "strip_its b [] = []"
| "strip_its b (t # ts) = (if b (node_of t) then ts else strip_it b t # strip_its b ts)"

lemma node_of_strip [simp]: "node_of (strip_it b t) = node_of t"
  by (cases t) simp

lemma map_node_of_strip: "map node_of (strip_its b ts) = drop_first b (map node_of ts)"
  by (induction ts) auto

lemma size_strip: "size (strip_it b t) \<le> size t" "size_list size (strip_its b ts) \<le> size_list size ts"
  by (induction b t and b ts rule: strip_it_strip_its.induct) auto

lemma blank_html_at: "blank_html (html_at m t) \<longleftrightarrow> blank (m (node_of t))"
  by (cases t) (auto simp: blank_def split: NodeType.split)

lemma html_at_strip:
  "b = (\<lambda>n. blank (m n)) \<Longrightarrow> html_at m (strip_it b t) = strip_html (html_at m t)"
  "b = (\<lambda>n. blank (m n)) \<Longrightarrow> map (html_at m) (strip_its b ts) = strip_htmls (map (html_at m) ts)"
proof (induction b t and b ts rule: strip_it_strip_its.induct)
  case (1 b n ts)
  then show ?case by (simp split: NodeType.split)
qed (auto simp: blank_html_at)

lemma html_at_payload: "same_payload m m' \<Longrightarrow> html_at m' t = html_at m t"
proof (induction t)
  case (IT n ts)
  then have "map (html_at m') ts = map (html_at m) ts" by simp
  with IT.prems show ?case unfolding html_at.simps same_payload_def by metis
qed

lemma disjoint_parts:
  "A \<inter> B = {} \<Longrightarrow> P \<subseteq> A \<Longrightarrow> Q \<subseteq> B \<Longrightarrow> W \<inter> (A \<union> B) = P \<union> Q \<Longrightarrow> W \<inter> A = P \<and> W \<inter> B = Q"
  by blast

text \<open>The tree that is left is the one the memory spells out afterwards.\<close>

lemma tree_in_strip:
  "tree_in K t \<Longrightarrow> distinct (ids t) \<Longrightarrow> W \<inter> set (ids t) = set (walked b t) \<Longrightarrow>
     tree_in (cut_at b W K) (strip_it b t)"
  "list_all (tree_in K) ts \<Longrightarrow> distinct (concat (map ids ts)) \<Longrightarrow>
     W \<inter> set (concat (map ids ts)) = set (walked_list b ts) \<Longrightarrow>
     list_all (tree_in (cut_at b W K)) (strip_its b ts)"
proof (induction b t and b ts arbitrary: W and W rule: strip_it_strip_its.induct)
  case (1 b n ts)
  have n: "n \<in> W" using "1.prems"(3) by auto
  have "W \<inter> set (concat (map ids ts)) = set (walked_list b ts)"
    using "1.prems"(2,3) walked_ids(2) [of b ts] by auto
  with 1 have "list_all (tree_in (cut_at b W K)) (strip_its b ts)" by simp
  moreover have "cut_at b W K n = drop_first b (K n)" using n by (simp add: cut_at_def)
  ultimately show ?case using "1.prems"(1) by (simp add: map_node_of_strip)
next
  case (3 b t ts)
  have disj: "set (ids t) \<inter> set (concat (map ids ts)) = {}" using "3.prems"(2) by simp
  have "W \<inter> (set (ids t) \<union> set (concat (map ids ts))) =
      set (walked b t) \<union> (if b (node_of t) then {} else set (walked_list b ts))"
    using "3.prems"(3) by auto
  then have Wt: "W \<inter> set (ids t) = set (walked b t)"
    and Wts: "W \<inter> set (concat (map ids ts)) = (if b (node_of t) then {} else set (walked_list b ts))"
    using disjoint_parts [OF disj walked_ids(1), of "if b (node_of t) then {} else set (walked_list b ts)" W b]
      walked_ids(2) [of b ts] by (simp_all del: set_concat split: if_split_asm)
  show ?case
  proof (cases "b (node_of t)")
    case True
    have "tree_in (cut_at b W K) u = tree_in K u" if "u \<in> set ts" for u
      by (rule tree_in_cong) (use Wts True that in \<open>auto simp: cut_at_def\<close>)
    with True "3.prems"(1) show ?thesis by (auto simp: list_all_iff)
  next
    case False
    with 3 Wt Wts show ?thesis by simp
  qed
qed simp

text \<open>
  A result of \<open>ParseFragment\<close> that is a forest: the nodes of the trees \<open>ts\<close> are different
  nodes of the store, and their pointers spell out the trees.
\<close>

definition forest_in :: "dom_store \<Rightarrow> itree list \<Rightarrow> bool" where
  "forest_in st ts \<longleftrightarrow> distinct (concat (map ids ts)) \<and> (\<forall>n \<in> set (concat (map ids ts)). n < brk st) \<and>
     (\<exists>K. wf_dom (mem st) K \<and> list_all (tree_in K) ts)"

lemma distinct_concat_filter:
  "distinct (concat (map ids ts)) \<Longrightarrow> distinct (concat (map ids (filter P ts)))"
  by (induction ts) auto

lemma distinct_ids_separate:
  "distinct (concat (map ids ts)) \<Longrightarrow> t \<in> set ts \<Longrightarrow>
   distinct (ids t) \<and> set (concat (map (walked b) ts)) \<inter> set (ids t) = set (walked b t)"
proof (induction ts)
  case (Cons u us)
  have "set (concat (map (walked b) us)) \<subseteq> set (concat (map ids us))"
    using walked_ids(1) [of b] by auto
  with Cons walked_ids(1) [of b u] walked_ids(1) [of b t] show ?case by auto blast+
qed simp

lemma HTML_parsed:
  assumes miss: "map_of cache (TrimSpace s) = None"
    and pf: "ParseFragment (TrimSpace s) dummy_div = Inr (st, map node_of ts)"
    and forest: "forest_in st ts"
  shows "HTML ParseFragment s cache =
    go_bind (go_map parse_html
        (map strip_html (filter (\<lambda>t. \<not> blank_html t) (map (html_at (mem st)) ts))))
      (\<lambda>res. Inr (res, AList.update (TrimSpace s) res cache))"
proof -
  let ?b = "\<lambda>n. blank (mem st n)" and ?fuel = "Suc (2 * brk st)"
  define qs where "qs = filter (\<lambda>t. \<not> ?b (node_of t)) ts"
  have roots: "filter (\<lambda>v. \<not> ?b v) (map node_of ts) = map node_of qs"
    by (simp add: qs_def filter_map o_def)
  obtain K where K: "wf_dom (mem st) K" "list_all (tree_in K) qs"
    using forest by (auto simp: forest_in_def qs_def list_all_iff)
  have dist: "distinct (concat (map ids qs))"
    using forest unfolding qs_def forest_in_def by (blast intro: distinct_concat_filter)
  have "size_list size qs < ?fuel"
    using dist by (rule size_list_brk) (use forest in \<open>auto simp: qs_def forest_in_def\<close>)
  then obtain m where m: "strip_walk ?fuel (map node_of qs) (mem st) = Inr m" "same_payload (mem st) m"
    "wf_dom m (cut_at ?b (set (concat (map (walked ?b) qs))) K)" and fuel: "size_list size qs < ?fuel"
    using strip_walk_spec [OF K dist] by blast
  have parsed: "parse ?fuel m (node_of t) = (parse_html (strip_html (html_at (mem st) t)) :: ('a, 'b) element go)"
    if "t \<in> set qs" for t
  proof -
    have "tree_in (cut_at ?b (set (concat (map (walked ?b) qs))) K) (strip_it ?b t)"
      using distinct_ids_separate [OF dist that, of ?b] K(2) that
      by (intro tree_in_strip(1)) (auto simp: list_all_iff)
    moreover obtain n us where nus: "strip_it ?b t = IT n us" by (cases "strip_it ?b t")
    ultimately have "chain m (FirstChild (m n)) us" using chain_tree [OF m(3)] by simp
    moreover have "size (IT n us) < ?fuel"
      using size_strip(1) [of ?b t] fuel size_list_estimation' [OF that, of "size t" size] unfolding nus by simp
    ultimately have "parse ?fuel m n = (parse_html (html_at m (strip_it ?b t)) :: ('a, 'b) element go)"
      unfolding nus by (rule parse_represents)
    moreover have "n = node_of t" using node_of_strip [of ?b t] nus by simp
    ultimately show ?thesis by (simp add: html_at_payload [OF m(2)] html_at_strip(1))
  qed
  have "go_map (parse ?fuel m) (map node_of qs) =
      (go_map (\<lambda>t. parse_html (strip_html (html_at (mem st) t))) qs :: ('a, 'b) element list go)"
    unfolding go_map_map by (rule go_map_cong [OF refl parsed])
  moreover have "filter (\<lambda>t. \<not> blank_html t) (map (html_at (mem st)) ts) = map (html_at (mem st)) qs"
    by (simp add: qs_def filter_map o_def blank_html_at)
  ultimately show ?thesis
    using miss pf m(1) by (simp add: HTML_def Let_def roots del: parse.simps strip_walk.simps)
qed

text \<open>A cached string is not parsed again, and the cache only grows.\<close>

lemma HTML_cached:
  "map_of cache (TrimSpace s) = Some v \<Longrightarrow> HTML ParseFragment s cache = Inr (v, cache)"
  by (simp add: HTML_def)

lemma HTML_cache:
  assumes "HTML ParseFragment s cache = Inr (v, cache')"
  shows "map_of cache' = (map_of cache)(TrimSpace s \<mapsto> v)"
  using assms
  by (auto simp: HTML_def Let_def update_conv' fun_upd_idem split: option.splits sum.splits)

section \<open>What the cache promises\<close>

text \<open>C28. Text that has been parsed once is never parsed again, up to white space around it: the
  same elements are returned whatever the HTML parser would say now, the cache stays as it
  is, and no entry for another text has changed.\<close>

theorem HTML_parses_once:
  assumes "HTML pf s cache = Inr (v, cache')" and "TrimSpace s' = TrimSpace s"
  shows "HTML pf' s' cache' = Inr (v, cache') \<and>
    (\<forall>k. k \<noteq> TrimSpace s \<longrightarrow> map_of cache' k = map_of cache k)"
proof -
  have cache': "map_of cache' = (map_of cache)(TrimSpace s \<mapsto> v)" using HTML_cache [OF assms(1)] .
  then have "map_of cache' (TrimSpace s') = Some v" using assms(2) by simp
  with cache' HTML_cached show ?thesis by fastforce
qed

theorem HTML_parses_once_witness:
  "HTML (\<lambda>s n. Inl ''down'') '' x '' [(''x'', [S ''x''])] = (Inr ([S ''x''], [(''x'', [S ''x''])]) ::
     ((nat, nat) element list \<times> (nat, nat) html_cache) go)"
proof -
  have t: "TrimSpace ''x'' = ''x''" "TrimSpace '' x '' = ''x''" by code_simp+
  then have "HTML (\<lambda>s n. Inl ''up'') ''x'' [(''x'', [S ''x''])] = (Inr ([S ''x''], [(''x'', [S ''x''])]) ::
     ((nat, nat) element list \<times> (nat, nat) html_cache) go)" by (simp add: HTML_cached)
  from HTML_parses_once [OF this] t show ?thesis by simp
qed

end
