(* ===== verification/Client_State.thy ===== *)
theory Client_State
  imports Gopher_Config Go_Rand Jsx_Html
begin

text \<open>
  The types of the client (\<^verbatim>\<open>client/*.go\<close>) and the state it runs on: the props and states
  of its four components, the click handlers, and the \<open>world\<close>, which holds the heaps the
  client's pointers point into, the instances React has created, the updates waiting to be
  rendered, and the effects on the page.
\<close>

section \<open>Components, props and states\<close>

text \<open>A component value such as \<open>OuterDef\<close> wraps the JavaScript object of its instance: it is
  known by the number of the instance, and two are equal when they wrap the same object. An
  interface holding one is \<open>None\<close> when it is \<open>nil\<close>.\<close>

datatype OuterDef = OuterDef (outer_elem: nat)
datatype ChooserDef = ChooserDef (chooser_elem: nat)

record OuterState =
  current :: ptr
  config :: ptr
  rand :: ptr

record PreviewProps =
  Current :: ptr

record ChooserProps =
  Current :: ptr
  Config :: ptr
  Update :: "OuterDef option"

record ChooserState =
  "open" :: int

record PanelProps =
  Category :: ptr
  Open :: bool
  Part :: int
  Selected :: string
  Update :: "OuterDef option"
  Expand :: "ChooserDef option"

text \<open>The values with an \<open>OnClick\<close> method.\<close>

datatype handler =
    ExpandClick "ChooserDef option" int
  | ChooseItemClick "OuterDef option" int string
  | ShuffleClick ChooserDef
  | ResetClick ChooserDef
  | SaveClick ChooserDef

text \<open>A component element: the class and the props it was created with. \<open>Outer\<close> has none.\<close>

datatype cmp =
    OuterC
  | PreviewC PreviewProps
  | ChooserC ChooserProps
  | PanelC PanelProps

type_synonym elem = "(handler, cmp) element"

section \<open>The world\<close>

text \<open>An instance whose \<open>forceUpdate\<close> was called.\<close>

datatype inst_ref = OuterI nat | ChooserI nat

record world =
  arrays :: "string list list"
  gophers :: "Gopher list"
  configs :: "Config list"
  categories :: "Category list"
  rands :: "Rand list"
  react :: react_state
  htmlCache :: "(handler, cmp) html_cache"
  outers :: "(unit, OuterState) js_inst list"
  previews :: "(PreviewProps, unit) js_inst list"
  choosers :: "(ChooserProps, ChooserState) js_inst list"
  panels :: "(PanelProps, unit) js_inst list"
  pending :: "inst_ref list"
  alerts :: "string list"

text \<open>The elements of a slice (a \<open>nil\<close> slice has none), and \<open>gopher.Parts\<close> of a gopher
  pointer.\<close>

definition slice_elems :: "world \<Rightarrow> ptr \<Rightarrow> string list go" where
  "slice_elems w sl = (case sl of None \<Rightarrow> Inr [] | Some a \<Rightarrow> deref (arrays w) (Some a))"

definition gopher_parts :: "world \<Rightarrow> ptr \<Rightarrow> string list go" where
  "gopher_parts w g = go_bind (deref (gophers w) g) (\<lambda>x. slice_elems w (Parts x))"

lemma gopher_parts_same:
  assumes "arrays w' = arrays w" and "gophers w' = gophers w"
  shows "gopher_parts w' = gopher_parts w"
proof -
  have "slice_elems w' = slice_elems w" by (simp add: fun_eq_iff slice_elems_def assms(1) split: option.split)
  then show ?thesis by (simp add: fun_eq_iff gopher_parts_def assms(2))
qed

section \<open>Events\<close>

record SyntheticMouseEvent =
  defaultPrevented :: bool

definition PreventDefault :: "SyntheticMouseEvent \<Rightarrow> SyntheticMouseEvent" where
  "PreventDefault e = e\<lparr>defaultPrevented := True\<rparr>"

section \<open>Creating component elements\<close>

text \<open>\<open>react.CreateElement\<close>: the class of the component type is looked up, or built and
  remembered; the element itself carries the props.\<close>

definition CreateElement :: "string \<Rightarrow> cmp \<Rightarrow> world \<Rightarrow> elem \<times> world" where
  "CreateElement typ c w = (Comp c, w\<lparr>react := snd (component_class typ (react w))\<rparr>)"

definition buildOuterElem :: "world \<Rightarrow> elem \<times> world" where
  "buildOuterElem w = CreateElement ''OuterDef'' OuterC w"

definition buildPreviewElem :: "PreviewProps \<Rightarrow> world \<Rightarrow> elem \<times> world" where
  "buildPreviewElem props w = CreateElement ''PreviewDef'' (PreviewC props) w"

definition buildChooserElem :: "ChooserProps \<Rightarrow> world \<Rightarrow> elem \<times> world" where
  "buildChooserElem props w = CreateElement ''ChooserDef'' (ChooserC props) w"

definition buildPanelElem :: "PanelProps \<Rightarrow> world \<Rightarrow> elem \<times> world" where
  "buildPanelElem props w = CreateElement ''PanelDef'' (PanelC props) w"

section \<open>The state of an instance\<close>

text \<open>\<open>State\<close>, \<open>Props\<close> and \<open>SetState\<close> of the generated code go to the instance a component
  value wraps; a value that wraps no object of the page is a nil dereference.\<close>

definition Outer_State :: "OuterDef \<Rightarrow> world \<Rightarrow> OuterState go" where
  "Outer_State o1 w = go_bind (deref (outers w) (Some (outer_elem o1))) comp_State"

definition Outer_SetState :: "OuterDef \<Rightarrow> OuterState \<Rightarrow> world \<Rightarrow> world go" where
  "Outer_SetState o1 st w =
     go_bind (deref (outers w) (Some (outer_elem o1))) (\<lambda>c.
     go_bind (comp_SetState (=) st c) (\<lambda>(c', forced).
       Inr (w\<lparr>outers := (outers w)[outer_elem o1 := c'],
              pending := pending w @ (if forced then [OuterI (outer_elem o1)] else [])\<rparr>)))"

definition Chooser_Props :: "ChooserDef \<Rightarrow> world \<Rightarrow> ChooserProps go" where
  "Chooser_Props ch w = go_bind (deref (choosers w) (Some (chooser_elem ch))) comp_Props"

definition Chooser_State :: "ChooserDef \<Rightarrow> world \<Rightarrow> ChooserState go" where
  "Chooser_State ch w = go_bind (deref (choosers w) (Some (chooser_elem ch))) comp_State"

definition Chooser_SetState :: "ChooserDef \<Rightarrow> ChooserState \<Rightarrow> world \<Rightarrow> world go" where
  "Chooser_SetState ch st w =
     go_bind (deref (choosers w) (Some (chooser_elem ch))) (\<lambda>c.
     go_bind (comp_SetState (=) st c) (\<lambda>(c', forced).
       Inr (w\<lparr>choosers := (choosers w)[chooser_elem ch := c'],
              pending := pending w @ (if forced then [ChooserI (chooser_elem ch)] else [])\<rparr>)))"

lemma Outer_SetState_State:
  assumes "Outer_SetState o1 st w = Inr w'"
  shows "Outer_State o1 w' = Inr st"
  using assms
  by (auto simp: Outer_SetState_def Outer_State_def comp_SetState_def comp_State_def deref_Inr_iff
      split: option.splits if_splits)

section \<open>Growing heaps\<close>

text \<open>
  \<open>grows w w'\<close>: every object of \<open>w\<close> is an object of \<open>w'\<close> with the same contents. The
  client allocates gophers and never writes to one that exists.
\<close>

definition prefix_of :: "'a list \<Rightarrow> 'a list \<Rightarrow> bool" where
  "prefix_of xs ys \<longleftrightarrow> take (length xs) ys = xs"

definition grows :: "world \<Rightarrow> world \<Rightarrow> bool" where
  "grows w w' \<longleftrightarrow> prefix_of (arrays w) (arrays w') \<and> prefix_of (gophers w) (gophers w') \<and>
     prefix_of (configs w) (configs w') \<and> prefix_of (categories w) (categories w')"

lemma prefix_of_refl [simp]: "prefix_of xs xs"
  by (simp add: prefix_of_def)

lemma prefix_of_append [simp]: "prefix_of xs (xs @ ys)"
  by (simp add: prefix_of_def)

lemma prefix_of_trans: "prefix_of xs ys \<Longrightarrow> prefix_of ys zs \<Longrightarrow> prefix_of xs zs"
  unfolding prefix_of_def by (metis min.absorb_iff1 nat_le_linear take_all_iff take_take)

lemma prefix_of_deref: "prefix_of xs ys \<Longrightarrow> deref xs p = Inr x \<Longrightarrow> deref ys p = Inr x"
  unfolding prefix_of_def deref_Inr_iff
  by (metis length_take min_less_iff_conj nth_take)

lemma grows_refl [simp]: "grows w w"
  by (simp add: grows_def)

lemma grows_trans: "grows w1 w2 \<Longrightarrow> grows w2 w3 \<Longrightarrow> grows w1 w3"
  unfolding grows_def by (meson prefix_of_trans)

lemma grows_deref:
  assumes "grows w w'"
  shows "deref (arrays w) p = Inr a \<Longrightarrow> deref (arrays w') p = Inr a"
    and "deref (gophers w) p = Inr g \<Longrightarrow> deref (gophers w') p = Inr g"
    and "deref (configs w) p = Inr c \<Longrightarrow> deref (configs w') p = Inr c"
    and "deref (categories w) p = Inr k \<Longrightarrow> deref (categories w') p = Inr k"
  using assms by (auto simp: grows_def intro: prefix_of_deref)

lemma grows_slice_elems: "grows w w' \<Longrightarrow> slice_elems w sl = Inr ps \<Longrightarrow> slice_elems w' sl = Inr ps"
  by (cases sl) (auto simp: slice_elems_def dest: grows_deref)

lemma grows_gopher_parts: "grows w w' \<Longrightarrow> gopher_parts w g = Inr ps \<Longrightarrow> gopher_parts w' g = Inr ps"
  unfolding gopher_parts_def go_bind_Inr_iff by (blast dest: grows_deref grows_slice_elems)

section \<open>State is set at once\<close>

lemma Outer_SetState_eq:
  assumes "Outer_State o1 w = Inr s"
  shows "Outer_SetState o1 s' w = Inr (if s' = s then w else
    w\<lparr>outers := (outers w)[outer_elem o1 := (outers w ! outer_elem o1)\<lparr>lastState := Some s'\<rparr>],
      pending := pending w @ [OuterI (outer_elem o1)]\<rparr>)"
proof -
  have "outer_elem o1 < length (outers w)" "lastState (outers w ! outer_elem o1) = Some s"
    using assms by (auto simp: Outer_State_def comp_State_def deref_Inr_iff split: option.splits)
  then show ?thesis by (simp add: Outer_SetState_def comp_SetState_def del: go_bind_Inr_iff)
qed

lemma Chooser_SetState_eq:
  assumes "Chooser_State ch w = Inr s"
  shows "Chooser_SetState ch s' w = Inr (if s' = s then w else
    w\<lparr>choosers := (choosers w)[chooser_elem ch := (choosers w ! chooser_elem ch)\<lparr>lastState := Some s'\<rparr>],
      pending := pending w @ [ChooserI (chooser_elem ch)]\<rparr>)"
proof -
  have "chooser_elem ch < length (choosers w)" "lastState (choosers w ! chooser_elem ch) = Some s"
    using assms by (auto simp: Chooser_State_def comp_State_def deref_Inr_iff split: option.splits)
  then show ?thesis by (simp add: Chooser_SetState_def comp_SetState_def del: go_bind_Inr_iff)
qed

end
