(* ===== verification/Client_Panel.thy ===== *)
theory Client_Panel
  imports Client_State
begin

text \<open>
  \<^verbatim>\<open>client/panel.go\<close> and \<^verbatim>\<open>client/preview.go\<close> with their generated code: the two components
  that only show their props. A panel lists the options of one category, each with a
  handler that selects it; the preview stacks the images of the selected parts.
\<close>

section \<open>Panel\<close>

definition blank_thumbnail :: string where
  "blank_thumbnail = filepath_Join [''artwork'', ''whitebox_thumbnail.png'']"

definition Panel :: "PanelProps \<Rightarrow> world \<Rightarrow> elem \<times> world" where
  "Panel p w = buildPanelElem p w"

definition Panel_Props :: "nat \<Rightarrow> world \<Rightarrow> PanelProps go" where
  "Panel_Props pa w = go_bind (deref (panels w) (Some pa)) comp_Props"

text \<open>The body of the loop over the options.\<close>

definition item_class :: "string \<Rightarrow> string \<Rightarrow> string" where
  "item_class selected opt =
     ''item'' @ (if opt = selected then '' selected'' else if opt = [] then '' none'' else [])"

definition item_src :: "string \<Rightarrow> string" where
  "item_src opt =
     (if opt = [] then blank_thumbnail else filepath_Join [''artwork'', opt @ ''_thumbnail.png''])"

definition panel_item :: "PanelProps \<Rightarrow> string \<Rightarrow> elem" where
  "panel_item props opt =
     react_Label
       (Some (new_LabelProps\<lparr>ClassName := item_class (PanelProps.Selected props) opt,
          OnClick := Some (ChooseItemClick (PanelProps.Update props) (PanelProps.Part props) opt)\<rparr>))
       [react_Img (Some (new_ImgProps\<lparr>ImgProps.Src := item_src opt\<rparr>)) []]"

definition panel_items :: "PanelProps \<Rightarrow> world \<Rightarrow> elem list go" where
  "panel_items props w =
     (if PanelProps.Open props
      then go_bind (deref (categories w) (PanelProps.Category props))
             (\<lambda>cat. Inr (map (panel_item props) (Options cat)))
      else Inr [])"

definition panel_div :: "PanelProps \<Rightarrow> elem list \<Rightarrow> string \<Rightarrow> elem" where
  "panel_div props imgs name =
     react_Div (Some (new_ElemProps\<lparr>ClassName := ''panel panel-default''\<rparr>))
       [react_Div (Some (new_ElemProps\<lparr>ClassName := ''panel-heading'', Role := ''tab''\<rparr>))
          [react_H4 (Some (new_ElemProps\<lparr>ClassName := ''panel-title''\<rparr>))
             [react_A (Some (new_AProps\<lparr>OnClick :=
                 Some (ExpandClick (PanelProps.Expand props) (PanelProps.Part props))\<rparr>))
                [S name]]],
        react_Div (Some (new_ElemProps\<lparr>ID := ''Body'', ClassName := ''panel-collapse collapse in'',
            Role := ''tabpanel''\<rparr>))
          [react_Div (Some (new_ElemProps\<lparr>ClassName :=
               ''panel-body'' @ (if PanelProps.Open props then [] else '' collapse'')\<rparr>))
             [react_Div None imgs]]]"

definition Panel_Render :: "PanelProps \<Rightarrow> world \<Rightarrow> elem go" where
  "Panel_Render props w =
     go_bind (panel_items props w) (\<lambda>imgs.
     go_bind (deref (categories w) (PanelProps.Category props)) (\<lambda>cat.
       Inr (panel_div props imgs (Name cat))))"

definition PanelDef_Render :: "nat \<Rightarrow> world \<Rightarrow> elem go" where
  "PanelDef_Render pa w = go_bind (Panel_Props pa w) (\<lambda>props. Panel_Render props w)"

section \<open>Preview\<close>

definition Preview :: "PreviewProps \<Rightarrow> world \<Rightarrow> elem \<times> world" where
  "Preview p w = buildPreviewElem p w"

definition Preview_Props :: "nat \<Rightarrow> world \<Rightarrow> PreviewProps go" where
  "Preview_Props o1 w = go_bind (deref (previews w) (Some o1)) comp_Props"

definition addPart :: "elem list \<Rightarrow> string \<Rightarrow> elem list" where
  "addPart parts p =
     parts @ [react_Img (Some (new_ImgProps\<lparr>ImgProps.Src := filepath_Join [''artwork'', p @ ''.png''],
                Style := Some (new_CSS\<lparr>MarginTop := ''0px''\<rparr>)\<rparr>)) []]"

fun preview_loop :: "string list \<Rightarrow> elem list \<Rightarrow> elem list" where
  "preview_loop [] parts = parts"
| "preview_loop (p # ps) parts = preview_loop ps (if p \<noteq> [] then addPart parts p else parts)"

definition Preview_Render :: "PreviewProps \<Rightarrow> world \<Rightarrow> elem go" where
  "Preview_Render props w =
     go_bind (gopher_parts w (PreviewProps.Current props)) (\<lambda>ps.
       Inr (react_Div (Some (new_ElemProps\<lparr>ClassName := ''col-xs-8''\<rparr>))
         [react_Div (Some (new_ElemProps\<lparr>ID := ''preview''\<rparr>)) (preview_loop ps [])]))"

definition PreviewDef_Render :: "nat \<Rightarrow> world \<Rightarrow> elem go" where
  "PreviewDef_Render o1 w = go_bind (Preview_Props o1 w) (\<lambda>props. Preview_Render props w)"

section \<open>What is shown depends on the props alone\<close>

text \<open>
  React renders a component again only when its props have changed. That is sound for a
  component whose rendering, once it has succeeded, stays the same while the heap grows:
  the contract below, which the two components fulfil.
\<close>

locale pure_component =
  fixes render :: "'p \<Rightarrow> world \<Rightarrow> elem go"
  assumes render_grows: "grows w w' \<Longrightarrow> render p w = Inr e \<Longrightarrow> render p w' = Inr e"
begin

text \<open>Skipping a rendering under equal props shows the same element as not skipping it.\<close>

lemma skip_sound:
  assumes "grows w w'" and "render p w = Inr shown" and "p = p'"
  shows "render p' w' = Inr shown"
  using render_grows [OF assms(1,2)] assms(3) by simp

lemma update_sound:
  assumes "grows w w'" and "render (the (js_props c)) w = Inr shown" and "js_props c = Some p"
    and "updateClassInstance (=) False (Some p') c = Inr (rerender, c')"
  shows "js_props c' = Some p'" and "\<not> rerender \<Longrightarrow> render p' w' = Inr shown"
  using assms render_grows
  by (auto simp: updateClassInstance_def shouldComponentUpdate_def)

end

lemma Panel_Render_grows: "grows w w' \<Longrightarrow> Panel_Render p w = Inr e \<Longrightarrow> Panel_Render p w' = Inr e"
  by (auto simp: Panel_Render_def panel_items_def dest: grows_deref split: if_splits)

lemma Preview_Render_grows: "grows w w' \<Longrightarrow> Preview_Render p w = Inr e \<Longrightarrow> Preview_Render p w' = Inr e"
  by (auto simp: Preview_Render_def dest: grows_gopher_parts)

interpretation panel: pure_component Panel_Render
  by unfold_locales (rule Panel_Render_grows)

interpretation preview: pure_component Preview_Render
  by unfold_locales (rule Preview_Render_grows)

section \<open>What they show\<close>

lemma preview_loop_eq:
  "preview_loop ps parts = parts @ concat (map (\<lambda>p. addPart [] p) (filter (\<lambda>p. p \<noteq> []) ps))"
  by (induction ps arbitrary: parts) (simp_all add: addPart_def)

lemma Panel_Render_total:
  "Panel_Render p w = Inr (panel_div p (if PanelProps.Open p then map (panel_item p) (Options cat) else [])
     (Name cat))" if "deref (categories w) (PanelProps.Category p) = Inr cat"
  using that by (simp add: Panel_Render_def panel_items_def)

lemma Panel_Render_nil: "Panel_Render p w = Inl e \<longleftrightarrow> deref (categories w) (PanelProps.Category p) = Inl e"
  by (cases "deref (categories w) (PanelProps.Category p)") (simp_all add: Panel_Render_def panel_items_def)

section \<open>What the two components promise\<close>

text \<open>C24. Leaving a component alone when its props are equal is sound. If React asks
  \<open>shouldComponentUpdate\<close> of a panel or of the preview and is told not to render, the element
  on the screen is the one a rendering with the new props would give now, whatever was
  allocated since it was rendered.\<close>

theorem skipped_rendering_is_current:
  assumes "grows w w'" and "js_props c = Some p" and "js_props d = Some q"
    and "Panel_Render p w = Inr shown" and "updateClassInstance (=) False (Some p') c = Inr (False, c')"
    and "Preview_Render q w = Inr shown2" and "updateClassInstance (=) False (Some q') d = Inr (False, d')"
  shows "Panel_Render p' w' = Inr shown \<and> Preview_Render q' w' = Inr shown2"
  using panel.update_sound(2) [OF assms(1) _ assms(2,5), of shown]
    preview.update_sound(2) [OF assms(1) _ assms(3,7), of shown2] assms(2-4,6) by simp

theorem skipped_rendering_is_current_witness:
  "\<exists>w e e2. Panel_Render \<lparr>Category = Some 0, Open = True, Part = 0, Selected = [], Update = None, Expand = None\<rparr> w = Inr e \<and>
     Preview_Render \<lparr>PreviewProps.Current = Some 0\<rparr> w = Inr e2"
proof -
  let ?w = "\<lparr>arrays = [], gophers = [\<lparr>Parts = None\<rparr>], configs = [], categories = [\<lparr>Name = ''Body'', Options = [''blue'']\<rparr>],
      rands = [], react = \<lparr>compMap = [], classes = []\<rparr>, htmlCache = [], outers = [],
      previews = [], choosers = [], panels = [], pending = [], alerts = []\<rparr> :: world"
  let ?p = "\<lparr>Category = Some 0, Open = True, Part = 0, Selected = [], Update = None, Expand = None\<rparr>"
  let ?c = "\<lparr>js_props = Some ?p, lastState = None\<rparr> :: (PanelProps, unit) js_inst"
  let ?d = "\<lparr>js_props = Some \<lparr>PreviewProps.Current = Some 0\<rparr>, lastState = None\<rparr> :: (PreviewProps, unit) js_inst"
  obtain e where e: "Panel_Render ?p ?w = Inr e"
    by (simp add: Panel_Render_def panel_items_def)
  obtain e2 where e2: "Preview_Render \<lparr>PreviewProps.Current = Some 0\<rparr> ?w = Inr e2"
    by (simp add: Preview_Render_def gopher_parts_def slice_elems_def)
  have "updateClassInstance (=) False (Some ?p) ?c = Inr (False, ?c)"
    "updateClassInstance (=) False (Some \<lparr>PreviewProps.Current = Some 0\<rparr>) ?d = Inr (False, ?d)"
    by (simp_all add: updateClassInstance_def shouldComponentUpdate_def)
  from skipped_rendering_is_current [OF grows_refl _ _ e this(1) e2 this(2)] show ?thesis by auto
qed

definition preview_image :: "string \<Rightarrow> elem" where
  "preview_image p = react_Img (Some (new_ImgProps\<lparr>ImgProps.Src := ''artwork/'' @ p @ ''.png'',
     Style := Some (new_CSS\<lparr>MarginTop := ''0px''\<rparr>)\<rparr>)) []"

lemma artwork_paths:
  "list_all (\<lambda>c. list_all (\<lambda>p. filepath_Join [''artwork'', p @ ''.png''] = ''artwork/'' @ p @ ''.png'') (Options c)) hack_categories"
  by code_simp

text \<open>C23. The preview of a gopher of the configuration: one image per part that is not empty, in the
  order of the categories, from the file of that part in the artwork directory.\<close>

theorem preview_shows_selected_parts:
  assumes "gopher_parts w (PreviewProps.Current props) = Inr ps" and "fits hack_categories ps"
  shows "Preview_Render props w =
    Inr (react_Div (Some (new_ElemProps\<lparr>ClassName := ''col-xs-8''\<rparr>))
      [react_Div (Some (new_ElemProps\<lparr>ID := ''preview''\<rparr>)) (map preview_image (filter (\<lambda>p. p \<noteq> []) ps))])"
proof -
  have path: "filepath_Join [''artwork'', p @ ''.png''] = ''artwork/'' @ p @ ''.png''" if "p \<in> set ps" for p
  proof -
    from that obtain i where "i < length ps" "p = ps ! i" by (auto simp: in_set_conv_nth)
    then have "i < length hack_categories" "p \<in> set (Options (hack_categories ! i))"
      using fits_length [OF assms(2)] fits_nth [OF assms(2)] by simp_all
    then show ?thesis using artwork_paths nth_mem unfolding list_all_iff by blast
  qed
  have "concat (map (addPart []) qs) = map preview_image qs" if "set qs \<subseteq> set ps" for qs
    using that by (induction qs) (auto simp: addPart_def preview_image_def path)
  from this [of "filter (\<lambda>p. p \<noteq> []) ps"] show ?thesis
    by (simp add: Preview_Render_def assms(1) preview_loop_eq)
qed

theorem preview_shows_selected_parts_witness:
  "\<exists>w ps e. fits hack_categories ps \<and> gopher_parts w (Some 0) = Inr ps \<and>
     Preview_Render \<lparr>PreviewProps.Current = Some 0\<rparr> w = Inr e"
proof -
  let ?ps = "map (\<lambda>c. Options c ! 0) hack_categories"
  let ?w = "\<lparr>arrays = [?ps], gophers = [\<lparr>Parts = Some 0\<rparr>], configs = [], categories = [],
      rands = [], react = \<lparr>compMap = [], classes = []\<rparr>, htmlCache = [], outers = [],
      previews = [], choosers = [], panels = [], pending = [], alerts = []\<rparr> :: world"
  have fit: "fits hack_categories ?ps"
    using wf_hack_categories by (simp add: fits_def wf_categories_def list_all2_conv_all_nth list_all_length)
  have parts: "gopher_parts ?w (Some 0) = Inr ?ps" by (simp add: gopher_parts_def slice_elems_def)
  with preview_shows_selected_parts [of ?w "\<lparr>PreviewProps.Current = Some 0\<rparr>" ?ps, OF _ fit] fit show ?thesis
    by (intro exI conjI) simp_all
qed

end
