(* ===== verification/Client_Chooser.thy ===== *)
theory Client_Chooser
  imports Client_Panel
begin

text \<open>
  \<^verbatim>\<open>client/chooser.go\<close> with its generated code: the component that shows one panel per
  category and the buttons below, and keeps which panel is open. The handlers of the
  buttons are in \<open>Client_Page\<close>, since they call into \<open>Outer\<close>.
\<close>

section \<open>The footer\<close>

definition newline :: string where "newline = [CHR 0x0A]"

definition tabs :: "nat \<Rightarrow> string" where "tabs n = replicate n (CHR 0x09)"

definition sq :: "string \<Rightarrow> string" where "sq s = CHR 0x27 # s @ [CHR 0x27]"

definition dq :: "string \<Rightarrow> string" where "dq s = CHR 0x22 # s @ [CHR 0x22]"

definition footer :: string where
  "footer =
     newline @ tabs 3 @ ''<footer>'' @
     newline @ tabs 4 @ ''Be truly unique, there are'' @
     newline @ tabs 4 @ ''<span class='' @ sq ''total_combinations'' @ ''></span>'' @
     newline @ tabs 4 @ ''<hr/>'' @
     newline @ tabs 4 @ ''Artwork by <a href='' @ sq ''https://twitter.com/ashleymcnamara'' @
       '' target='' @ sq ''_blank'' @ ''>Ashley McNamara</a><br />inspired by <a href='' @
       sq ''http://reneefrench.blogspot.co.uk/'' @ '' target='' @ sq ''_blank'' @
       ''>Renee French</a><br />'' @
     newline @ tabs 4 @ ''Original web app by <a href='' @ sq ''https://twitter.com/matryer'' @
       '' target='' @ sq ''_blank'' @ ''>Mat Ryer</a><br/>'' @
     newline @ tabs 4 @ ''Front-end Go React version by <a href='' @
       dq ''https://twitter.com/_myitcv'' @ '' target='' @ dq ''_blank'' @ ''>Paul Jolly</a>'' @
     newline @ tabs 4 @ ''<hr>'' @
     newline @ tabs 4 @ ''<a href='' @
       sq ''https://github.com/myitcv/gopherize.me/tree/master/client'' @
       ''>Source on GitHub</a><br/>'' @
     newline @ tabs 4 @ ''<a href='' @ sq ''https://github.com/matryer/gopherize.me'' @
       ''>Original source on GitHub</a>'' @
     newline @ tabs 3 @ ''</footer>'' @
     newline @ tabs 2"

section \<open>Rendering\<close>

definition Chooser :: "ChooserProps \<Rightarrow> world \<Rightarrow> elem \<times> world" where
  "Chooser p w = buildChooserElem p w"

text \<open>The loop over the categories; \<open>i\<close> is the index of the first one of the rest.\<close>

fun panel_loop ::
  "ChooserDef \<Rightarrow> ChooserProps \<Rightarrow> ChooserState \<Rightarrow> nat \<Rightarrow> ptr list \<Rightarrow> world \<Rightarrow> (elem list \<times> world) go" where
  "panel_loop ch props st i [] w = Inr ([], w)"
| "panel_loop ch props st i (cat # cats) w =
     go_bind (gopher_parts w (ChooserProps.Current props)) (\<lambda>parts.
     go_bind (go_index parts (int i)) (\<lambda>sel.
       case Panel \<lparr>Category = cat, Open = (ChooserState.open st = int i), Part = int i,
              Selected = sel, Update = ChooserProps.Update props, Expand = Some ch\<rparr> w of
         (e, w1) \<Rightarrow>
           go_bind (panel_loop ch props st (Suc i) cats w1) (\<lambda>(es, w2). Inr (e # es, w2))))"

definition chooser_args :: "ChooserDef \<Rightarrow> elem list \<Rightarrow> elem \<Rightarrow> elem list" where
  "chooser_args ch catDivs foot =
     [react_Button
        (Some (new_ButtonProps\<lparr>ID := ''shuffle-button'', ClassName := ''btn btn-default'',
           OnClick := Some (ShuffleClick ch)\<rparr>))
        [react_I (Some (new_ElemProps\<lparr>ClassName := ''glyphicon glyphicon-refresh''\<rparr>)) [],
         S '' Shuffle''],
      react_Button
        (Some (new_ButtonProps\<lparr>ID := ''reset-button'', ClassName := ''btn btn-default'',
           OnClick := Some (ResetClick ch)\<rparr>))
        [S ''Reset''],
      react_Br None [],
      react_Br None [],
      react_Div
        (Some (new_ElemProps\<lparr>ClassName := ''panel-group'', ID := ''options'', Role := ''tablist''\<rparr>))
        catDivs,
      react_Div (Some (new_ElemProps\<lparr>ClassName := ''panel panel-default''\<rparr>))
        [react_Div
           (Some (new_ElemProps\<lparr>ClassName := ''panel-body text-right'',
              Style := Some (new_CSS\<lparr>OverflowY := ''hidden''\<rparr>)\<rparr>))
           [react_Button
              (Some (new_ButtonProps\<lparr>ID := ''next-button'', ClassName := ''btn btn-primary btn-lg'',
                 OnClick := Some (SaveClick ch)\<rparr>))
              [S (''Save & continue'' @ [CHR 0xE2, CHR 0x80, CHR 0xA6]),
               react_I (Some (new_ElemProps\<lparr>ClassName :=
                 ''glyphicon glyphicon glyphicon-chevron-right''\<rparr>)) []]]],
      foot]"

definition Chooser_Render :: "parse_fragment \<Rightarrow> ChooserDef \<Rightarrow> world \<Rightarrow> (elem \<times> world) go" where
  "Chooser_Render pf ch w =
     go_bind (Chooser_State ch w) (\<lambda>st.
     go_bind (Chooser_Props ch w) (\<lambda>props.
     go_bind (deref (configs w) (ChooserProps.Config props)) (\<lambda>c.
     go_bind (panel_loop ch props st 0 (Categories c) w) (\<lambda>(catDivs, w1).
     go_bind (HTMLElem pf footer (htmlCache w1)) (\<lambda>(foot, cache).
       Inr (react_Div (Some (new_ElemProps\<lparr>ClassName := ''col-xs-4''\<rparr>))
              (chooser_args ch catDivs foot),
            w1\<lparr>htmlCache := cache\<rparr>))))))"

section \<open>Expand\<close>

definition Expand :: "ChooserDef \<Rightarrow> int \<Rightarrow> world \<Rightarrow> world go" where
  "Expand ch i w =
     go_bind (Chooser_State ch w) (\<lambda>s. Chooser_SetState ch (s\<lparr>ChooserState.open := i\<rparr>) w)"

text \<open>\<open>Expand\<close> opens the panel it names, and no rendering is asked for when it is open already.\<close>

lemma Expand_spec:
  assumes "Chooser_State ch w = Inr st"
  shows "Expand ch i w = Inr (if ChooserState.open st = i then w
    else w\<lparr>choosers := (choosers w)[chooser_elem ch :=
             (choosers w ! chooser_elem ch)\<lparr>lastState := Some (st\<lparr>ChooserState.open := i\<rparr>)\<rparr>],
           pending := pending w @ [ChooserI (chooser_elem ch)]\<rparr>)"
proof -
  from assms have "chooser_elem ch < length (choosers w)"
      "lastState (choosers w ! chooser_elem ch) = Some st"
    by (auto simp: Chooser_State_def comp_State_def deref_Inr_iff split: option.splits)
  moreover have "st\<lparr>ChooserState.open := i\<rparr> = st \<longleftrightarrow> ChooserState.open st = i"
    by (cases st) auto
  ultimately show ?thesis
    by (simp add: Expand_def assms Chooser_SetState_def comp_SetState_def) blast
qed

section \<open>The panels\<close>

definition panel_props ::
  "ChooserDef \<Rightarrow> ChooserProps \<Rightarrow> ChooserState \<Rightarrow> string list \<Rightarrow> nat \<Rightarrow> ptr \<Rightarrow> PanelProps" where
  "panel_props ch props st parts i cat =
     \<lparr>Category = cat, Open = (ChooserState.open st = int i), Part = int i, Selected = parts ! i,
      Update = ChooserProps.Update props, Expand = Some ch\<rparr>"

lemma Panel_simps:
  "fst (Panel p w) = Comp (PanelC p)"
  "gophers (snd (Panel p w)) = gophers w" "arrays (snd (Panel p w)) = arrays w"
  by (simp_all add: Panel_def buildPanelElem_def CreateElement_def)

text \<open>What rendering may change of the world: the table of classes and the cache of parsed
  HTML.\<close>

definition render_change :: "world \<Rightarrow> world \<Rightarrow> bool" where
  "render_change w w' \<longleftrightarrow> (\<exists>r h. w' = w\<lparr>react := r, htmlCache := h\<rparr>)"

lemma render_changeI [intro]: "render_change w (w\<lparr>react := r, htmlCache := h\<rparr>)"
  by (auto simp: render_change_def)

lemma render_change_refl [simp]: "render_change w w"
  unfolding render_change_def by (rule exI [of _ "react w"], rule exI [of _ "htmlCache w"]) simp

lemma render_change_trans: "render_change w1 w2 \<Longrightarrow> render_change w2 w3 \<Longrightarrow> render_change w1 w3"
proof -
  assume "render_change w1 w2" and "render_change w2 w3"
  then obtain r h r' h' where "w2 = w1\<lparr>react := r, htmlCache := h\<rparr>" "w3 = w2\<lparr>react := r', htmlCache := h'\<rparr>"
    unfolding render_change_def by blast
  then have "w3 = w1\<lparr>react := r', htmlCache := h'\<rparr>" by simp
  then show ?thesis by (simp only: render_changeI)
qed

lemma render_change_same:
  assumes "render_change w w'"
  shows "arrays w' = arrays w" "gophers w' = gophers w" "configs w' = configs w"
    "categories w' = categories w" "rands w' = rands w" "outers w' = outers w"
    "previews w' = previews w" "choosers w' = choosers w" "panels w' = panels w"
    "pending w' = pending w" "alerts w' = alerts w"
  using assms by (auto simp: render_change_def)

lemma render_change_parts: "render_change w w' \<Longrightarrow> gopher_parts w' = gopher_parts w"
  by (rule gopher_parts_same) (simp_all add: render_change_same)

lemma CreateElement_change: "CreateElement typ c w = (e, w') \<Longrightarrow> render_change w w' \<and> htmlCache w' = htmlCache w"
  unfolding CreateElement_def render_change_def
  by (auto intro!: exI [of _ "htmlCache w"] exI [of _ "snd (component_class typ (react w))"])

lemma panel_loop_spec:
  assumes "gopher_parts w (ChooserProps.Current props) = Inr parts" and "i + length cats \<le> length parts"
  shows "\<exists>w'. panel_loop ch props st i cats w =
      Inr (map (\<lambda>(j, cat). Comp (PanelC (panel_props ch props st parts j cat)))
             (zip [i..<i + length cats] cats), w') \<and> render_change w w' \<and> htmlCache w' = htmlCache w"
  using assms
proof (induction cats arbitrary: i w)
  case (Cons cat cats)
  obtain w1 where w1: "Panel (panel_props ch props st parts i cat) w =
      (Comp (PanelC (panel_props ch props st parts i cat)), w1)"
      and ch1: "render_change w w1" "htmlCache w1 = htmlCache w"
    using CreateElement_change [of "''PanelDef''" "PanelC (panel_props ch props st parts i cat)" w]
    by (simp add: Panel_def buildPanelElem_def CreateElement_def)
  have "gopher_parts w1 (ChooserProps.Current props) = Inr parts"
    using Cons.prems(1) render_change_parts [OF ch1(1)] by simp
  with Cons.IH [of w1 "Suc i"] Cons.prems(2) obtain w2 where
    "panel_loop ch props st (Suc i) cats w1 =
      Inr (map (\<lambda>(j, cat). Comp (PanelC (panel_props ch props st parts j cat)))
             (zip [Suc i..<Suc i + length cats] cats), w2)"
    "render_change w1 w2" "htmlCache w2 = htmlCache w1" by auto
  moreover have "[i..<i + length (cat # cats)] = i # [Suc i..<Suc i + length cats]"
    by (simp add: upt_conv_Cons del: upt_Suc)
  moreover have "go_index parts (int i) = Inr (parts ! i)" using Cons.prems(2) by simp
  ultimately show ?case
    using Cons.prems(1) w1 ch1 by (auto simp: panel_props_def intro: render_change_trans simp del: upt_Suc)
qed auto

text \<open>A missing part or gopher: the rendering panics at the first category it cannot show.\<close>

lemma panel_loop_short:
  assumes "gopher_parts w (ChooserProps.Current props) = Inr parts" and "i \<le> length parts"
    and "length parts < i + length cats"
  shows "panel_loop ch props st i cats w = Inl IndexOutOfRange"
  using assms
proof (induction cats arbitrary: i w)
  case (Cons cat cats)
  show ?case
  proof (cases "i = length parts")
    case True
    with Cons.prems(1) show ?thesis by (simp add: go_index_def)
  next
    case False
    obtain e w1 where w1: "Panel (panel_props ch props st parts i cat) w = (e, w1)" "render_change w w1"
      using CreateElement_change by (fastforce simp: Panel_def buildPanelElem_def)
    have "gopher_parts w1 (ChooserProps.Current props) = Inr parts"
      using Cons.prems(1) render_change_parts [OF w1(2)] by simp
    with Cons.IH [of w1 "Suc i"] Cons.prems False
    have "panel_loop ch props st (Suc i) cats w1 = Inl IndexOutOfRange" by simp
    with Cons.prems(1,2) w1(1) False show ?thesis by (simp add: panel_props_def)
  qed
qed simp

section \<open>What the chooser promises\<close>

definition chooser_world :: world where
  "chooser_world =
     \<lparr>arrays = [], gophers = [\<lparr>Parts = None\<rparr>], configs = [\<lparr>Categories = [Some 0]\<rparr>],
      categories = [\<lparr>Name = ''Body'', Options = [''blue'']\<rparr>], rands = [],
      react = \<lparr>compMap = [], classes = []\<rparr>, htmlCache = [],
      outers = [\<lparr>js_props = None, lastState = Some \<lparr>current = None, config = None, rand = None\<rparr>\<rparr>],
      previews = [],
      choosers = [\<lparr>js_props = Some \<lparr>ChooserProps.Current = Some 0, Config = Some 0, Update = None\<rparr>,
        lastState = Some \<lparr>open = 0\<rparr>\<rparr>],
      panels = [], pending = [], alerts = []\<rparr>"

text \<open>C25. A chooser can only show a gopher that has a part for every category of its configuration:
  with fewer parts its rendering panics with an index out of range, whatever the HTML parser
  does.\<close>

theorem Chooser_needs_all_parts:
  assumes "Chooser_State ch w = Inr st" and "Chooser_Props ch w = Inr p"
    and "deref (configs w) (ChooserProps.Config p) = Inr cfg"
    and "gopher_parts w (ChooserProps.Current p) = Inr parts" and "length parts < length (Categories cfg)"
  shows "Chooser_Render pf ch w = Inl IndexOutOfRange"
  using panel_loop_short [OF assms(4), of 0 "Categories cfg" ch st] assms by (simp add: Chooser_Render_def)

theorem Chooser_needs_all_parts_witness:
  "Chooser_Render (\<lambda>s n. Inl ''no parser'') (ChooserDef 0) chooser_world = Inl IndexOutOfRange"
proof (rule Chooser_needs_all_parts)
  show "Chooser_State (ChooserDef 0) chooser_world = Inr \<lparr>open = 0\<rparr>"
    "Chooser_Props (ChooserDef 0) chooser_world = Inr \<lparr>ChooserProps.Current = Some 0, Config = Some 0, Update = None\<rparr>"
    by (simp_all add: chooser_world_def Chooser_State_def Chooser_Props_def comp_State_def comp_Props_def)
  show "deref (configs chooser_world) (ChooserProps.Config \<lparr>ChooserProps.Current = Some 0, Config = Some 0, Update = None\<rparr>) =
      Inr \<lparr>Categories = [Some 0]\<rparr>" by (simp add: chooser_world_def)
  show "gopher_parts chooser_world (ChooserProps.Current \<lparr>ChooserProps.Current = Some 0, Config = Some 0, Update = None\<rparr>) = Inr []"
    by (simp add: chooser_world_def gopher_parts_def slice_elems_def)
qed simp

end
