(* ===== verification/Client_Outer.thy ===== *)
theory Client_Outer
  imports Client_Chooser
begin

text \<open>
  \<^verbatim>\<open>client/outer.go\<close> with its generated code: the component that holds the current gopher.
  It implements the interface \<open>UpdateGopher\<close> of \<^verbatim>\<open>client/gopher.go\<close>, whose contract is the
  locale \<open>gopher_updater\<close>: a client of the interface that asks only for what the
  configuration offers never makes it panic and always finds a gopher that fits.
\<close>

section \<open>Operations\<close>

text \<open>\<open>&Gopher{Parts: parts}\<close> with a slice over a new array; \<open>append\<close> never having been called,
  the slice of no parts is \<open>nil\<close>.\<close>

definition new_gopher :: "string list \<Rightarrow> world \<Rightarrow> ptr \<times> world" where
  "new_gopher ps w =
     (Some (length (gophers w)),
      w\<lparr>arrays := arrays w @ [ps], gophers := gophers w @ [\<lparr>Parts = Some (length (arrays w))\<rparr>]\<rparr>)"

definition new_gopher_append :: "string list \<Rightarrow> world \<Rightarrow> ptr \<times> world" where
  "new_gopher_append ps w =
     (if ps = [] then (Some (length (gophers w)), w\<lparr>gophers := gophers w @ [\<lparr>Parts = None\<rparr>]\<rparr>)
      else new_gopher ps w)"

definition first_option :: "world \<Rightarrow> ptr list \<Rightarrow> int \<Rightarrow> string go" where
  "first_option w cs i =
     go_bind (go_index cs i) (\<lambda>p. go_bind (deref (categories w) p) (\<lambda>cat. go_index (Options cat) 0))"

definition defaultGopher :: "ptr \<Rightarrow> world \<Rightarrow> (ptr \<times> world) go" where
  "defaultGopher c w =
     go_bind (deref (configs w) c) (\<lambda>cfg.
       let parts = replicate (length (Categories cfg)) [] in
       go_bind (first_option w (Categories cfg) 0) (\<lambda>v0.
       go_bind (go_store parts 0 v0) (\<lambda>parts1.
       go_bind (first_option w (Categories cfg) 1) (\<lambda>v1.
       go_bind (go_store parts1 1 v1) (\<lambda>parts2.
         Inr (new_gopher parts2 w))))))"

definition hackConfig_ptr :: ptr where
  "hackConfig_ptr = Some 0"

definition Outer :: "world \<Rightarrow> elem \<times> world" where
  "Outer w = buildOuterElem w"

definition ComponentWillMount :: "(int \<Rightarrow> nat \<Rightarrow> nat) \<Rightarrow> int \<Rightarrow> OuterDef \<Rightarrow> world \<Rightarrow> world go" where
  "ComponentWillMount NewSource now o1 w =
     go_bind (defaultGopher hackConfig_ptr w) (\<lambda>(g, w1).
       Outer_SetState o1 \<lparr>current = g, config = hackConfig_ptr, rand = Some (length (rands w1))\<rparr>
         (w1\<lparr>rands := rands w1 @ [new_Rand NewSource now]\<rparr>))"

definition Outer_Render :: "OuterDef \<Rightarrow> world \<Rightarrow> (elem \<times> world) go" where
  "Outer_Render o1 w =
     go_bind (Outer_State o1 w) (\<lambda>s.
       case Preview \<lparr>PreviewProps.Current = current s\<rparr> w of
         (e1, w1) \<Rightarrow>
           (case Chooser \<lparr>ChooserProps.Current = current s, Config = config s, Update = Some o1\<rparr> w1 of
              (e2, w2) \<Rightarrow> Inr (react_Div None [e1, e2], w2)))"

definition ResetGopher :: "OuterDef \<Rightarrow> world \<Rightarrow> world go" where
  "ResetGopher o1 w =
     go_bind (Outer_State o1 w) (\<lambda>s.
     go_bind (defaultGopher (config s) w) (\<lambda>(g, w1).
       Outer_SetState o1 (s\<lparr>current := g\<rparr>) w1))"

definition UpdateGopher :: "OuterDef \<Rightarrow> int \<Rightarrow> string \<Rightarrow> world \<Rightarrow> world go" where
  "UpdateGopher o1 part val w =
     go_bind (Outer_State o1 w) (\<lambda>s.
     go_bind (gopher_parts w (current s)) (\<lambda>ps.
     go_bind (go_store (go_copy (replicate (length ps) []) ps) part val) (\<lambda>nps.
       case new_gopher nps w of (g, w1) \<Rightarrow> Outer_SetState o1 (s\<lparr>current := g\<rparr>) w1)))"

definition rand_Intn :: "ptr \<Rightarrow> int \<Rightarrow> world \<Rightarrow> (int \<times> world) go" where
  "rand_Intn p n w =
     (if n \<le> 0 then Inl (PanicWith ''invalid argument to Intn'')
      else go_bind (deref (rands w) p) (\<lambda>r.
           go_bind (Intn n r) (\<lambda>(v, r').
             Inr (v, w\<lparr>rands := (rands w)[the p := r']\<rparr>))))"

fun random_loop :: "ptr \<Rightarrow> ptr list \<Rightarrow> string list \<Rightarrow> world \<Rightarrow> (string list \<times> world) go" where
  "random_loop r [] parts w = Inr (parts, w)"
| "random_loop r (cat # cats) parts w =
     go_bind (deref (categories w) cat) (\<lambda>c.
     go_bind (rand_Intn r (int (length (Options c))) w) (\<lambda>(v, w1).
     go_bind (go_index (Options c) v) (\<lambda>p. random_loop r cats (parts @ [p]) w1)))"

definition RandomGopher :: "OuterDef \<Rightarrow> world \<Rightarrow> world go" where
  "RandomGopher o1 w =
     go_bind (Outer_State o1 w) (\<lambda>s.
     go_bind (deref (configs w) (config s)) (\<lambda>c.
     go_bind (random_loop (rand s) (Categories c) [] w) (\<lambda>(parts, w1).
       case new_gopher_append parts w1 of (g, w2) \<Rightarrow> Outer_SetState o1 (s\<lparr>current := g\<rparr>) w2)))"

text \<open>\<open>randElem\<close> draws from the global source of \<open>math/rand\<close>.\<close>

definition randElem :: "string list \<Rightarrow> Rand \<Rightarrow> (string \<times> Rand) go" where
  "randElem ss global =
     go_bind (Intn (int (length ss)) global) (\<lambda>(v, g'). go_bind (go_index ss v) (\<lambda>s. Inr (s, g')))"

section \<open>The interface UpdateGopher\<close>

text \<open>
  What a client of the interface may ask for, and what it may rely on. \<open>sel\<close> is the
  selection that is shown.
\<close>

datatype request = Reset | Choose nat string | Shuffle

definition valid_request :: "Category list \<Rightarrow> request \<Rightarrow> bool" where
  "valid_request cats q =
     (case q of Choose i v \<Rightarrow> i < length cats \<and> v \<in> set (Options (cats ! i)) | _ \<Rightarrow> True)"

definition default_parts :: "Category list \<Rightarrow> string list" where
  "default_parts cats =
     map (\<lambda>i. if i < 2 then Options (cats ! i) ! 0 else []) [0..<length cats]"

fun serve ::
  "('w \<Rightarrow> 'w go) \<Rightarrow> (int \<Rightarrow> string \<Rightarrow> 'w \<Rightarrow> 'w go) \<Rightarrow> ('w \<Rightarrow> 'w go) \<Rightarrow> request \<Rightarrow> 'w \<Rightarrow> 'w go" where
  "serve reset pick shuffle Reset w = reset w"
| "serve reset pick shuffle (Choose i v) w = pick (int i) v w"
| "serve reset pick shuffle Shuffle w = shuffle w"

fun serve_all ::
  "('w \<Rightarrow> 'w go) \<Rightarrow> (int \<Rightarrow> string \<Rightarrow> 'w \<Rightarrow> 'w go) \<Rightarrow> ('w \<Rightarrow> 'w go) \<Rightarrow> request list \<Rightarrow> 'w \<Rightarrow> 'w go" where
  "serve_all reset pick shuffle [] w = Inr w"
| "serve_all reset pick shuffle (q # qs) w =
     go_bind (serve reset pick shuffle q w) (serve_all reset pick shuffle qs)"

lemma fold_update_append:
  "\<forall>(i, v) \<in> set cs. i < length rs \<Longrightarrow>
   fold (\<lambda>(i, v) ps. ps[i := v]) cs (rs @ [q]) = fold (\<lambda>(i, v) ps. ps[i := v]) cs rs @ [q] \<and>
   length (fold (\<lambda>(i, v) ps. ps[i := v]) cs rs) = length rs"
  by (induction cs arbitrary: rs) (auto simp: list_update_append)

lemma fold_update_zip:
  "length ps = length vs \<Longrightarrow> fold (\<lambda>(i, v) ps. ps[i := v]) (zip [0..<length vs] vs) ps = vs"
proof (induction vs arbitrary: ps rule: rev_induct)
  case (snoc v vs)
  then obtain qs q where ps: "ps = qs @ [q]" and len: "length qs = length vs"
    by (cases ps rule: rev_exhaust) auto
  have "\<forall>(i, v) \<in> set (zip [0..<length vs] vs). i < length qs"
    using len by (auto dest: set_zip_leftD)
  from fold_update_append [OF this, of q] snoc.IH [OF len] ps len
  show ?case by (simp add: list_update_append)
qed simp

locale gopher_updater =
  fixes cats :: "Category list"
    and inv :: "'w \<Rightarrow> bool"
    and sel :: "'w \<Rightarrow> string list"
    and reset :: "'w \<Rightarrow> 'w go"
    and pick :: "int \<Rightarrow> string \<Rightarrow> 'w \<Rightarrow> 'w go"
    and shuffle :: "'w \<Rightarrow> 'w go"
  assumes sel_fits: "inv w \<Longrightarrow> fits cats (sel w)"
    and reset_law: "inv w \<Longrightarrow> \<exists>w'. reset w = Inr w' \<and> inv w' \<and> sel w' = default_parts cats"
    and pick_law: "inv w \<Longrightarrow> i < length cats \<Longrightarrow> v \<in> set (Options (cats ! i)) \<Longrightarrow>
      \<exists>w'. pick (int i) v w = Inr w' \<and> inv w' \<and> sel w' = (sel w)[i := v]"
    and shuffle_law: "inv w \<Longrightarrow> \<exists>w'. shuffle w = Inr w' \<and> inv w'"
begin

lemma serve_inv:
  "inv w \<Longrightarrow> valid_request cats q \<Longrightarrow> \<exists>w'. serve reset pick shuffle q w = Inr w' \<and> inv w'"
  using reset_law pick_law shuffle_law by (cases q) (auto simp: valid_request_def, blast+)

lemma serve_all_inv:
  "inv w \<Longrightarrow> list_all (valid_request cats) qs \<Longrightarrow> \<exists>w'. serve_all reset pick shuffle qs w = Inr w' \<and> inv w' \<and> fits cats (sel w')"
proof (induction qs arbitrary: w)
  case (Cons q qs)
  then obtain w1 where "serve reset pick shuffle q w = Inr w1" "inv w1" using serve_inv [of w q] by auto
  with Cons show ?case by simp
qed (simp add: sel_fits)

text \<open>Choosing is local to its part, and the last choice for a part counts.\<close>

lemma serve_choices:
  "inv w \<Longrightarrow> \<forall>(i, v) \<in> set cs. i < length cats \<and> v \<in> set (Options (cats ! i)) \<Longrightarrow>
   \<exists>w'. serve_all reset pick shuffle (map (\<lambda>(i, v). Choose i v) cs) w = Inr w' \<and> inv w' \<and>
     sel w' = fold (\<lambda>(i, v) ps. ps[i := v]) cs (sel w)"
proof (induction cs arbitrary: w)
  case (Cons c cs)
  obtain i v where c: "c = (i, v)" by (cases c)
  with Cons.prems obtain w1 where "pick (int i) v w = Inr w1" "inv w1" "sel w1 = (sel w)[i := v]"
    using pick_law [of w i v] by auto
  with Cons.IH [of w1] Cons.prems c show ?case by auto
qed simp

text \<open>Every gopher the configuration offers can be built by choosing its parts.\<close>

lemma reach_all:
  assumes "inv w" and "fits cats ps"
  shows "\<exists>w'. serve_all reset pick shuffle (map (\<lambda>(i, v). Choose i v) (zip [0..<length ps] ps)) w = Inr w' \<and>
    inv w' \<and> sel w' = ps"
proof -
  have len: "length ps = length cats" "length (sel w) = length ps"
    using fits_length [OF assms(2)] fits_length [OF sel_fits [OF assms(1)]] by simp_all
  have "\<forall>(i, v) \<in> set (zip [0..<length ps] ps). i < length cats \<and> v \<in> set (Options (cats ! i))"
    using fits_nth [OF assms(2)] len by (auto simp: set_zip)
  from serve_choices [OF assms(1) this] fold_update_zip [OF len(2)] show ?thesis by auto
qed

end

section \<open>Outer implements the interface\<close>

definition config_ok :: "world \<Rightarrow> ptr \<Rightarrow> Category list \<Rightarrow> bool" where
  "config_ok w p cats \<longleftrightarrow>
     (\<exists>cfg. deref (configs w) p = Inr cfg \<and> go_map (deref (categories w)) (Categories cfg) = Inr cats)"

text \<open>What is shown when the state of \<open>o1\<close> is in order.\<close>

definition selection :: "OuterDef \<Rightarrow> world \<Rightarrow> string list go" where
  "selection o1 w = go_bind (Outer_State o1 w) (\<lambda>s. gopher_parts w (current s))"

definition outer_state_ok :: "Category list \<Rightarrow> world \<Rightarrow> OuterState \<Rightarrow> bool" where
  "outer_state_ok cats w s \<longleftrightarrow> config_ok w (config s) cats \<and>
     (\<exists>ps. gopher_parts w (current s) = Inr ps \<and> fits cats ps) \<and>
     (\<exists>r. deref (rands w) (rand s) = Inr r \<and> fair (src r))"

definition drawable :: "Category list \<Rightarrow> bool" where
  "drawable cats \<longleftrightarrow> wf_categories cats \<and> list_all (\<lambda>c. length (Options c) < 2 ^ 31) cats"

definition outer_inv :: "Category list \<Rightarrow> OuterDef \<Rightarrow> world \<Rightarrow> bool" where
  "outer_inv cats o1 w \<longleftrightarrow> drawable cats \<and> (\<exists>s. Outer_State o1 w = Inr s \<and> outer_state_ok cats w s)"

definition shown_parts :: "OuterDef \<Rightarrow> world \<Rightarrow> string list" where
  "shown_parts o1 w = (case selection o1 w of Inr ps \<Rightarrow> ps | Inl _ \<Rightarrow> [])"

lemma gopher_parts_new [simp]:
  "gopher_parts (snd (new_gopher ps w)) (fst (new_gopher ps w)) = Inr ps"
  by (simp add: new_gopher_def gopher_parts_def slice_elems_def)

lemma new_gopher_grows [simp]: "grows w (snd (new_gopher ps w))"
  by (simp add: new_gopher_def grows_def)

lemma new_gopher_fresh: "gopher_parts w g = Inr ps \<Longrightarrow> fst (new_gopher qs w) \<noteq> g"
  by (auto simp: new_gopher_def gopher_parts_def deref_Inr_iff)

lemma new_gopher_same:
  "configs (snd (new_gopher ps w)) = configs w" "categories (snd (new_gopher ps w)) = categories w"
  "rands (snd (new_gopher ps w)) = rands w" "outers (snd (new_gopher ps w)) = outers w"
  "pending (snd (new_gopher ps w)) = pending w"
  by (simp_all add: new_gopher_def)

text \<open>Storing a state whose gopher is new: the state is kept and a rendering is asked for.\<close>

lemma Outer_SetState_new:
  assumes "Outer_State o1 w = Inr s" and "current s \<noteq> g"
  shows "\<exists>c. Outer_SetState o1 (s\<lparr>current := g\<rparr>) w =
     Inr (w\<lparr>outers := (outers w)[outer_elem o1 := c], pending := pending w @ [OuterI (outer_elem o1)]\<rparr>) \<and>
     lastState c = Some (s\<lparr>current := g\<rparr>) \<and> js_props c = js_props (outers w ! outer_elem o1)"
proof -
  from assms(1) have "outer_elem o1 < length (outers w)" "lastState (outers w ! outer_elem o1) = Some s"
    by (auto simp: Outer_State_def comp_State_def deref_Inr_iff split: option.splits)
  moreover have "s\<lparr>current := g\<rparr> \<noteq> s" using assms(2) by (cases s) auto
  ultimately have "Outer_SetState o1 (s\<lparr>current := g\<rparr>) w =
      Inr (w\<lparr>outers := (outers w)[outer_elem o1 :=
             (outers w ! outer_elem o1)\<lparr>lastState := Some (s\<lparr>current := g\<rparr>)\<rparr>],
           pending := pending w @ [OuterI (outer_elem o1)]\<rparr>)"
    by (simp add: Outer_SetState_def comp_SetState_def del: go_bind_Inr_iff)
  then show ?thesis by (intro exI conjI) (assumption, simp_all)
qed

text \<open>A step of \<open>Outer\<close>: a new gopher with the parts \<open>ps\<close> becomes current.\<close>

definition installs :: "OuterDef \<Rightarrow> string list \<Rightarrow> world \<Rightarrow> world \<Rightarrow> bool" where
  "installs o1 ps w w' \<longleftrightarrow>
     (\<exists>s g. Outer_State o1 w = Inr s \<and> Outer_State o1 w' = Inr (s\<lparr>current := g\<rparr>) \<and>
        gopher_parts w' g = Inr ps \<and> pending w' = pending w @ [OuterI (outer_elem o1)]) \<and>
     grows w w' \<and> configs w' = configs w \<and> categories w' = categories w \<and>
     map src (rands w') = map src (rands w) \<and> map js_props (outers w') = map js_props (outers w) \<and>
     (\<forall>i. i \<noteq> outer_elem o1 \<longrightarrow> outers w' ! i = outers w ! i) \<and>
     choosers w' = choosers w \<and> previews w' = previews w \<and> panels w' = panels w \<and>
     htmlCache w' = htmlCache w \<and> react w' = react w \<and> alerts w' = alerts w"

lemma installs_new_gopher:
  assumes "Outer_State o1 w = Inr s" and "gopher_parts w (current s) = Inr qs"
  shows "\<exists>w'. (case new_gopher ps w of (g, w1) \<Rightarrow> Outer_SetState o1 (s\<lparr>current := g\<rparr>) w1) = Inr w' \<and>
    installs o1 ps w w' \<and> rands w' = rands w"
proof -
  let ?w1 = "snd (new_gopher ps w)" and ?g = "fst (new_gopher ps w)"
  have "Outer_State o1 ?w1 = Inr s" using assms(1) by (simp add: Outer_State_def new_gopher_same)
  from Outer_SetState_new [OF this not_sym [OF new_gopher_fresh [OF assms(2)]], of ps] obtain c where
    set: "Outer_SetState o1 (s\<lparr>current := ?g\<rparr>) ?w1 =
      Inr (?w1\<lparr>outers := (outers ?w1)[outer_elem o1 := c], pending := pending ?w1 @ [OuterI (outer_elem o1)]\<rparr>)"
    (is "_ = Inr ?w2") and c: "js_props c = js_props (outers ?w1 ! outer_elem o1)"
    by blast
  have "gopher_parts ?w2 = gopher_parts ?w1" by (rule gopher_parts_same) simp_all
  then have "gopher_parts ?w2 ?g = Inr ps" by simp
  moreover have "grows w ?w2" using new_gopher_grows [of w ps] by (simp add: grows_def)
  moreover have "map js_props (outers ?w2) = map js_props (outers w)"
    using c by (simp add: new_gopher_same map_update) (metis list_update_beyond list_update_id map_update not_less)
  ultimately have "installs o1 ps w ?w2"
    using assms(1) Outer_SetState_State [OF set]
    by (auto simp: installs_def new_gopher_def nth_list_update_neq)
  then show ?thesis using set by (auto simp: case_prod_unfold new_gopher_same)
qed

text \<open>The default gopher takes the first option of the first two categories.\<close>

lemma config_ok_nth:
  assumes "deref (configs w) p = Inr cfg" and "go_map (deref (categories w)) (Categories cfg) = Inr cats"
    and "i < length cats"
  shows "go_bind (go_index (Categories cfg) (int i)) (deref (categories w)) = Inr (cats ! i)"
proof -
  have "list_all2 (\<lambda>q c. deref (categories w) q = Inr c) (Categories cfg) cats"
    using assms(2) by (simp add: go_map_Inr_iff)
  with assms(3) show ?thesis by (auto simp: list_all2_conv_all_nth)
qed

lemma first_option_ok:
  assumes "deref (configs w) p = Inr cfg" and "go_map (deref (categories w)) (Categories cfg) = Inr cats"
    and "i < length cats" and "Options (cats ! i) \<noteq> []"
  shows "first_option w (Categories cfg) (int i) = Inr (Options (cats ! i) ! 0)"
proof -
  obtain q where "go_index (Categories cfg) (int i) = Inr q" "deref (categories w) q = Inr (cats ! i)"
    using config_ok_nth [OF assms(1-3)] by auto
  moreover have "go_index (Options (cats ! i)) 0 = Inr (Options (cats ! i) ! 0)"
    using assms(4) by (simp add: go_index_def)
  ultimately show ?thesis by (simp add: first_option_def)
qed

lemma default_parts_eq:
  assumes "2 \<le> length cats"
  shows "(replicate (length cats) [])[0 := Options (cats ! 0) ! 0, Suc 0 := Options (cats ! 1) ! 0] =
    default_parts cats"
  using assms by (intro nth_equalityI) (auto simp: default_parts_def nth_list_update less_2_cases_iff)

lemma wf_categories_cases:
  assumes "wf_categories cats"
  obtains a b rest where "cats = a # b # rest" and "Options a \<noteq> []" and "Options b \<noteq> []"
    and "list_all (\<lambda>c. [] \<in> set (Options c)) rest"
proof (cases cats rule: remdups_adj.cases)
  case (3 a b rest)
  with assms that show ?thesis by (simp add: wf_categories_def numeral_2_eq_2)
qed (use assms in \<open>simp_all add: wf_categories_def\<close>)

lemma fits_default: "wf_categories cats \<Longrightarrow> fits cats (default_parts cats)"
proof (erule wf_categories_cases)
  fix a b rest
  assume cats: "cats = a # b # rest" and ab: "Options a \<noteq> []" "Options b \<noteq> []"
    and rest: "list_all (\<lambda>c. [] \<in> set (Options c)) rest"
  have "default_parts cats = Options a ! 0 # Options b ! 0 # replicate (length rest) []"
    using default_parts_eq [of cats] cats by simp
  moreover have "list_all2 (\<lambda>c p. p \<in> set (Options c)) rest (replicate (length rest) [])"
    using rest by (simp add: list_all2_conv_all_nth list_all_length)
  ultimately show "fits cats (default_parts cats)" using ab by (simp add: fits_def cats)
qed

lemma defaultGopher_ok:
  assumes "config_ok w c cats" and "wf_categories cats"
  shows "defaultGopher c w = Inr (new_gopher (default_parts cats) w)"
proof -
  obtain cfg where cfg: "deref (configs w) c = Inr cfg"
      "go_map (deref (categories w)) (Categories cfg) = Inr cats"
    using assms(1) by (auto simp: config_ok_def)
  obtain a b rest where cats: "cats = a # b # rest" "Options a \<noteq> []" "Options b \<noteq> []"
    using assms(2) by (rule wf_categories_cases)
  have len: "length (Categories cfg) = length cats" using go_map_length [OF cfg(2)] by simp
  have "first_option w (Categories cfg) 0 = Inr (Options (cats ! 0) ! 0)"
    "first_option w (Categories cfg) 1 = Inr (Options (cats ! 1) ! 0)"
    using first_option_ok [OF cfg, of 0] first_option_ok [OF cfg, of 1] cats by simp_all
  moreover have "Categories cfg \<noteq> []" using len cats by auto
  ultimately show ?thesis using cfg len default_parts_eq [of cats] cats
    by (simp add: defaultGopher_def Let_def go_store_def)
qed

text \<open>The random gopher draws one option per category, from the source of the state only.\<close>

lemma rand_Intn_ok:
  assumes "deref (rands w) p = Inr r" and "fair (src r)" and "0 < n" and "n < 2 ^ 31"
  shows "\<exists>v r'. rand_Intn p n w = Inr (v, w\<lparr>rands := (rands w)[the p := r']\<rparr>) \<and>
    0 \<le> v \<and> v < n \<and> src r' = src r"
proof -
  obtain v r' where v: "Intn n r = Inr (v, r')" using Intn_total [OF assms(2-4)] by blast
  with Intn_range [OF v] Intn_src [OF v] assms show ?thesis
    by (auto simp: rand_Intn_def)
qed

lemma random_loop_ok:
  assumes "go_map (deref (categories w)) cs = Inr cats" and "deref (rands w) p = Inr r"
    and "fair (src r)" and "list_all (\<lambda>c. Options c \<noteq> [] \<and> length (Options c) < 2 ^ 31) cats"
  shows "\<exists>ps r'. random_loop p cs parts w = Inr (parts @ ps, w\<lparr>rands := (rands w)[the p := r']\<rparr>) \<and>
    fits cats ps \<and> src r' = src r"
  using assms
proof (induction cs arbitrary: cats parts w r)
  case Nil
  then obtain a where p: "p = Some a" "a < length (rands w)" "r = rands w ! a" by (auto simp: deref_Inr_iff)
  then have "w\<lparr>rands := (rands w)[the p := r]\<rparr> = w" by simp
  with Nil show ?case by (auto simp: fits_def intro!: exI [of _ r])
next
  case (Cons c cs)
  then obtain k ks where cats: "cats = k # ks" "deref (categories w) c = Inr k"
      "go_map (deref (categories w)) cs = Inr ks" by auto
  let ?n = "int (length (Options k))"
  from Cons.prems(2-4) cats rand_Intn_ok [of w p r ?n] obtain v r1 where
    v: "rand_Intn p ?n w = Inr (v, w\<lparr>rands := (rands w)[the p := r1]\<rparr>)" "0 \<le> v" "v < ?n" "src r1 = src r"
    by auto
  let ?w1 = "w\<lparr>rands := (rands w)[the p := r1]\<rparr>" and ?o = "Options k ! nat v"
  have "deref (rands ?w1) p = Inr r1" using Cons.prems(2) by (auto simp: deref_Inr_iff)
  with Cons.IH [of ?w1 ks r1 "parts @ [?o]"] Cons.prems cats v(4) obtain ps r2 where
    "random_loop p cs (parts @ [?o]) ?w1 = Inr (parts @ ?o # ps, ?w1\<lparr>rands := (rands ?w1)[the p := r2]\<rparr>)"
    "fits ks ps" "src r2 = src r" by auto
  moreover have "go_index (Options k) v = Inr ?o" "?o \<in> set (Options k)"
    using v(2,3) by (simp_all add: go_index_def)
  ultimately show ?case using cats v(1)
    by (intro exI [of _ "?o # ps"] exI [of _ r2]) (auto simp: fits_def)
qed

section \<open>The operations install new gophers\<close>

lemma ResetGopher_installs:
  assumes "Outer_State o1 w = Inr s" and "gopher_parts w (current s) = Inr qs"
    and "config_ok w (config s) cats" and "wf_categories cats"
  shows "\<exists>w'. ResetGopher o1 w = Inr w' \<and> installs o1 (default_parts cats) w w' \<and> rands w' = rands w"
  using installs_new_gopher [OF assms(1,2), of "default_parts cats"] defaultGopher_ok [OF assms(3,4)]
  by (simp add: ResetGopher_def assms(1) del: go_bind_Inr_iff)

lemma UpdateGopher_installs:
  assumes "Outer_State o1 w = Inr s" and "gopher_parts w (current s) = Inr qs" and "i < length qs"
  shows "\<exists>w'. UpdateGopher o1 (int i) v w = Inr w' \<and> installs o1 (qs[i := v]) w w' \<and> rands w' = rands w"
  using installs_new_gopher [OF assms(1,2), of "qs[i := v]"]
  by (simp add: UpdateGopher_def assms go_store_def del: go_bind_Inr_iff)

lemma UpdateGopher_out_of_range:
  assumes "Outer_State o1 w = Inr s" and "gopher_parts w (current s) = Inr qs"
    and "i < 0 \<or> int (length qs) \<le> i"
  shows "UpdateGopher o1 i v w = Inl IndexOutOfRange"
  using assms by (auto simp: UpdateGopher_def go_store_def)

lemma installs_rands:
  assumes "installs o1 ps (w\<lparr>rands := rs\<rparr>) w'" and "map src rs = map src (rands w)"
  shows "installs o1 ps w w'"
  using assms by (simp add: installs_def Outer_State_def grows_def)

lemma RandomGopher_installs:
  assumes "Outer_State o1 w = Inr s" and "outer_state_ok cats w s" and "drawable cats"
  shows "\<exists>w' ps. RandomGopher o1 w = Inr w' \<and> installs o1 ps w w' \<and> fits cats ps"
proof -
  obtain cfg r qs where cfg: "deref (configs w) (config s) = Inr cfg"
      "go_map (deref (categories w)) (Categories cfg) = Inr cats"
    and r: "deref (rands w) (rand s) = Inr r" "fair (src r)" and qs: "gopher_parts w (current s) = Inr qs"
    using assms(2) by (auto simp: outer_state_ok_def config_ok_def)
  have "list_all (\<lambda>c. Options c \<noteq> [] \<and> length (Options c) < 2 ^ 31) cats"
    using assms(3) by (auto simp: drawable_def wf_categories_def list_all_iff)
  from random_loop_ok [OF cfg(2) r this, of "[]"] obtain ps r' where
    loop: "random_loop (rand s) (Categories cfg) [] w = Inr (ps, w\<lparr>rands := (rands w)[the (rand s) := r']\<rparr>)"
    and ps: "fits cats ps" and r': "src r' = src r" by auto
  let ?rs = "(rands w)[the (rand s) := r']" and ?w1 = "w\<lparr>rands := (rands w)[the (rand s) := r']\<rparr>"
  have "ps \<noteq> []"
    using fits_length [OF ps] assms(3) by (auto simp: drawable_def wf_categories_def)
  moreover have "Outer_State o1 ?w1 = Inr s" using assms(1) by (simp add: Outer_State_def)
  moreover have "gopher_parts ?w1 = gopher_parts w" by (rule gopher_parts_same) simp_all
  ultimately obtain w' where w': "(case new_gopher_append ps ?w1 of (g, w1) \<Rightarrow>
      Outer_SetState o1 (s\<lparr>current := g\<rparr>) w1) = Inr w'" "installs o1 ps ?w1 w'"
    using installs_new_gopher [of o1 ?w1 s qs ps] qs by (auto simp: new_gopher_append_def)
  have "map src ?rs = map src (rands w)"
    using r(1) r' by (auto simp: deref_Inr_iff map_update list_update_same_conv)
  with w'(2) have "installs o1 ps w w'" by (rule installs_rands)
  moreover have "RandomGopher o1 w = Inr w'"
    using w'(1) by (simp add: RandomGopher_def assms(1) cfg(1) loop del: go_bind_Inr_iff)
  ultimately show ?thesis using ps by blast
qed

lemma deref_map_src:
  assumes "map src rs' = map src rs" and "deref rs p = Inr r"
  shows "\<exists>r'. deref rs' p = Inr r' \<and> src r' = src r"
proof -
  obtain a where a: "p = Some a" "a < length rs" "r = rs ! a" using assms(2) by (auto simp: deref_Inr_iff)
  moreover have "length rs' = length rs" using assms(1) map_eq_imp_length_eq by blast
  moreover have "src (rs' ! a) = src (rs ! a)"
    using assms(1) a(2) \<open>length rs' = length rs\<close> by (metis nth_map)
  ultimately show ?thesis by simp
qed

lemma outer_inv_installs:
  assumes "outer_inv cats o1 w" and "installs o1 ps w w'" and "fits cats ps"
  shows "outer_inv cats o1 w'" and "selection o1 w' = Inr ps"
proof -
  obtain s g where s: "Outer_State o1 w = Inr s" "outer_state_ok cats w s"
    and g: "Outer_State o1 w' = Inr (s\<lparr>current := g\<rparr>)" "gopher_parts w' g = Inr ps"
    using assms(1,2) by (auto simp: outer_inv_def installs_def)
  have "outer_state_ok cats w' (s\<lparr>current := g\<rparr>)"
    using s(2) g(2) assms(2,3) deref_map_src [of "rands w'" "rands w" "rand s"]
    by (auto simp: outer_state_ok_def config_ok_def installs_def)
  with assms(1) g show "outer_inv cats o1 w'" by (auto simp: outer_inv_def)
  from g show "selection o1 w' = Inr ps" by (simp add: selection_def)
qed

lemma outer_inv_selection:
  assumes "outer_inv cats o1 w"
  obtains s ps where "Outer_State o1 w = Inr s" and "outer_state_ok cats w s"
    and "gopher_parts w (current s) = Inr ps" and "selection o1 w = Inr ps" and "fits cats ps"
  using assms by (auto simp: outer_inv_def outer_state_ok_def selection_def)

interpretation outer: gopher_updater cats "outer_inv cats o1" "shown_parts o1"
  "ResetGopher o1" "UpdateGopher o1" "RandomGopher o1" for cats o1
proof
  fix w :: world
  assume inv: "outer_inv cats o1 w"
  then obtain s qs where s: "Outer_State o1 w = Inr s" "outer_state_ok cats w s"
    "gopher_parts w (current s) = Inr qs" "selection o1 w = Inr qs" "fits cats qs"
    by (rule outer_inv_selection)
  have wf: "drawable cats" "wf_categories cats" using inv by (simp_all add: outer_inv_def drawable_def)
  show "fits cats (shown_parts o1 w)" using s(4,5) by (simp add: shown_parts_def)
  show "\<exists>w'. ResetGopher o1 w = Inr w' \<and> outer_inv cats o1 w' \<and> shown_parts o1 w' = default_parts cats"
    using ResetGopher_installs [OF s(1,3) _ wf(2)] outer_inv_installs [OF inv _ fits_default [OF wf(2)]] s(2)
    by (fastforce simp: outer_state_ok_def shown_parts_def)
  show "\<exists>w'. RandomGopher o1 w = Inr w' \<and> outer_inv cats o1 w'"
    using RandomGopher_installs [OF s(1,2) wf(1)] outer_inv_installs(1) [OF inv] by blast
  fix i v assume i: "i < length cats" "v \<in> set (Options (cats ! i))"
  then have "fits cats (qs[i := v])" "i < length qs"
    using fits_update [OF s(5)] fits_length [OF s(5)] by simp_all
  with UpdateGopher_installs [OF s(1,3)] outer_inv_installs [OF inv] s(4)
  show "\<exists>w'. UpdateGopher o1 (int i) v w = Inr w' \<and> outer_inv cats o1 w' \<and>
      shown_parts o1 w' = (shown_parts o1 w)[i := v]"
    by (fastforce simp: shown_parts_def)
qed

section \<open>What the updater promises\<close>

text \<open>A world with one \<open>Outer\<close> and two small categories.\<close>

definition small_categories :: "Category list" where
  "small_categories = [\<lparr>Name = ''Body'', Options = [''blue'', ''pink'']\<rparr>, \<lparr>Name = ''Eyes'', Options = [''big'']\<rparr>]"

definition small_world :: world where
  "small_world =
     \<lparr>arrays = [[''blue'', ''big'']], gophers = [\<lparr>Parts = Some 0\<rparr>],
      configs = [\<lparr>Categories = [Some 0, Some 1]\<rparr>], categories = small_categories,
      rands = [\<lparr>src = \<lambda>k. 0, pos = 0\<rparr>], react = \<lparr>compMap = [], classes = []\<rparr>, htmlCache = [],
      outers = [\<lparr>js_props = None, lastState = Some \<lparr>current = Some 0, config = Some 0, rand = Some 0\<rparr>\<rparr>],
      previews = [], choosers = [], panels = [], pending = [], alerts = []\<rparr>"

lemma small_world_inv: "outer_inv small_categories (OuterDef 0) small_world"
  by (simp add: outer_inv_def drawable_def wf_categories_def small_world_def small_categories_def Outer_State_def
      comp_State_def outer_state_ok_def config_ok_def gopher_parts_def slice_elems_def fits_def fair_def) blast

text \<open>C18. \<open>Outer\<close> implements the interface \<open>UpdateGopher\<close>: whatever sequence of requests a client
  of the interface makes, choosing only what the categories offer, none of them panics or
  runs forever, and the selection fits the categories in the end.\<close>

theorem outer_serves_all_requests:
  assumes "outer_inv cats o1 w" and "list_all (valid_request cats) qs"
  shows "\<exists>w'. serve_all (ResetGopher o1) (UpdateGopher o1) (RandomGopher o1) qs w = Inr w' \<and>
    outer_inv cats o1 w' \<and> fits cats (shown_parts o1 w')"
  by (rule outer.serve_all_inv) (fact assms)+

theorem outer_serves_all_requests_witness:
  "\<exists>w'. serve_all (ResetGopher (OuterDef 0)) (UpdateGopher (OuterDef 0)) (RandomGopher (OuterDef 0))
     [Choose 0 ''pink'', Shuffle, Reset] small_world = Inr w'"
  using outer_serves_all_requests [OF small_world_inv, of "[Choose 0 ''pink'', Shuffle, Reset]"]
  by (auto simp: valid_request_def small_categories_def)

text \<open>C19. What choices add up to: choosing is local to its part, the last choice for a part counts,
  and choosing all parts of a gopher that fits shows that gopher.\<close>

theorem choices_add_up:
  assumes "outer_inv cats o1 w"
    and "\<forall>(i, v) \<in> set cs. i < length cats \<and> v \<in> set (Options (cats ! i))"
  shows "\<exists>w'. serve_all (ResetGopher o1) (UpdateGopher o1) (RandomGopher o1) (map (\<lambda>(i, v). Choose i v) cs) w = Inr w' \<and>
    shown_parts o1 w' = fold (\<lambda>(i, v) ps. ps[i := v]) cs (shown_parts o1 w)"
  using outer.serve_choices [OF assms] by blast

theorem choices_add_up_witness:
  "\<exists>w'. serve_all (ResetGopher (OuterDef 0)) (UpdateGopher (OuterDef 0)) (RandomGopher (OuterDef 0))
     [Choose 0 ''pink'', Choose 1 ''big'', Choose 0 ''blue''] small_world = Inr w' \<and>
     shown_parts (OuterDef 0) w' = [''blue'', ''big'']"
  using choices_add_up [OF small_world_inv, of "[(0, ''pink''), (1, ''big''), (0, ''blue'')]"]
  by (simp add: small_categories_def small_world_def shown_parts_def selection_def Outer_State_def comp_State_def
      gopher_parts_def slice_elems_def)

text \<open>C20. \<open>UpdateGopher\<close> succeeds exactly for the indices of the parts, whatever the value; any
  other index is out of range.\<close>

theorem UpdateGopher_range:
  assumes "outer_inv cats o1 w"
  shows "if 0 \<le> i \<and> i < int (length cats)
    then \<exists>w'. UpdateGopher o1 i v w = Inr w' \<and> shown_parts o1 w' = (shown_parts o1 w)[nat i := v]
    else UpdateGopher o1 i v w = Inl IndexOutOfRange"
proof -
  obtain s qs where s: "Outer_State o1 w = Inr s" "gopher_parts w (current s) = Inr qs"
      "selection o1 w = Inr qs" "fits cats qs"
    using assms by (rule outer_inv_selection)
  have len: "length qs = length cats" using fits_length [OF s(4)] .
  show ?thesis
  proof (cases "0 \<le> i \<and> i < int (length cats)")
    case True
    then have "nat i < length qs" "int (nat i) = i" using len by linarith+
    with UpdateGopher_installs [OF s(1,2), of "nat i" v] obtain w' where
      w': "UpdateGopher o1 i v w = Inr w'" "installs o1 (qs[nat i := v]) w w'" by auto
    then have "shown_parts o1 w' = qs[nat i := v]"
      by (auto simp: installs_def shown_parts_def selection_def)
    with True w'(1) s(3) show ?thesis by (simp add: shown_parts_def)
  next
    case False
    then show ?thesis using UpdateGopher_out_of_range [OF s(1,2)] len by auto
  qed
qed

theorem UpdateGopher_range_witness:
  "UpdateGopher (OuterDef 0) 2 ''pink'' small_world = Inl IndexOutOfRange"
  using UpdateGopher_range [OF small_world_inv, of 2] by (simp add: small_categories_def)

text \<open>C21. The default gopher exists exactly when there are two categories with an option each: it
  takes the first options of those two and nothing of the others. Any other configuration
  makes the client panic.\<close>

theorem defaultGopher_exists_iff:
  assumes "config_ok w c cats"
  shows "if 2 \<le> length cats \<and> Options (cats ! 0) \<noteq> [] \<and> Options (cats ! 1) \<noteq> []
    then defaultGopher c w = Inr (new_gopher (default_parts cats) w)
    else defaultGopher c w = Inl IndexOutOfRange"
proof -
  obtain cfg where cfg: "deref (configs w) c = Inr cfg"
      "go_map (deref (categories w)) (Categories cfg) = Inr cats"
    using assms by (auto simp: config_ok_def)
  have len: "length (Categories cfg) = length cats" using go_map_length [OF cfg(2)] by simp
  have first: "first_option w (Categories cfg) (int i) =
      (if i < length cats \<and> Options (cats ! i) \<noteq> [] then Inr (Options (cats ! i) ! 0) else Inl IndexOutOfRange)" for i
  proof (cases "i < length cats")
    case True
    then obtain q where "go_index (Categories cfg) (int i) = Inr q" "deref (categories w) q = Inr (cats ! i)"
      using config_ok_nth [OF cfg True] by auto
    with True show ?thesis by (simp add: first_option_def go_index_def)
  next
    case False
    with len show ?thesis by (simp add: first_option_def go_index_def)
  qed
  show ?thesis
    using first [of 0] first [of 1] cfg(1) len default_parts_eq [of cats]
    by (auto simp: defaultGopher_def Let_def go_store_def)
qed

theorem defaultGopher_exists_iff_witness:
  "defaultGopher (Some 0) small_world = Inr (new_gopher [''blue'', ''big''] small_world)"
proof -
  have "config_ok small_world (Some 0) small_categories"
    by (simp add: config_ok_def small_world_def small_categories_def)
  moreover have "default_parts small_categories = [''blue'', ''big'']" by code_simp
  ultimately show ?thesis using defaultGopher_exists_iff [of small_world "Some 0" small_categories]
    by (simp add: small_categories_def)
qed

lemma random_loop_draws:
  assumes "go_map (deref (categories w)) cs = Inr cats" and "deref (rands w) p = Inr r"
    and "list_all (\<lambda>c. length (Options c) < 2 ^ 31) cats" and "length us = length cats"
    and "\<forall>i < length cats. us ! i < length (Options (cats ! i)) \<and> src r (pos r + i) = us ! i * 2 ^ 32"
  shows "\<exists>r'. random_loop p cs parts w =
    Inr (parts @ map (\<lambda>(c, u). Options c ! u) (zip cats us), w\<lparr>rands := (rands w)[the p := r']\<rparr>) \<and> src r' = src r"
  using assms
proof (induction cs arbitrary: cats us parts w r)
  case Nil
  then obtain a where p: "p = Some a" "a < length (rands w)" "r = rands w ! a" by (auto simp: deref_Inr_iff)
  then have "w\<lparr>rands := (rands w)[the p := r]\<rparr> = w" by simp
  with Nil show ?case by (auto intro!: exI [of _ r])
next
  case (Cons c cs)
  then obtain k ks where cats: "cats = k # ks" "deref (categories w) c = Inr k"
      "go_map (deref (categories w)) cs = Inr ks" by auto
  obtain u us' where us: "us = u # us'" using Cons.prems(4) cats(1) by (cases us) auto
  let ?r1 = "r\<lparr>pos := Suc (pos r)\<rparr>" and ?o = "Options k ! u"
  let ?w1 = "w\<lparr>rands := (rands w)[the p := ?r1]\<rparr>"
  from Cons.prems(5) have u: "u < length (Options k)" "src r (pos r) = u * 2 ^ 32" using cats us by fastforce+
  have draw: "rand_Intn p (int (length (Options k))) w = Inr (int u, ?w1)"
    using Intn_draws [of u "length (Options k)" r] u Cons.prems(2,3) cats(1) by (auto simp: rand_Intn_def)
  have "deref (rands ?w1) p = Inr ?r1" using Cons.prems(2) by (auto simp: deref_Inr_iff)
  moreover have "\<forall>i < length ks. us' ! i < length (Options (ks ! i)) \<and> src ?r1 (pos ?r1 + i) = us' ! i * 2 ^ 32"
    using Cons.prems(5) cats(1) us by fastforce
  ultimately obtain r2 where "random_loop p cs (parts @ [?o]) ?w1 =
      Inr ((parts @ [?o]) @ map (\<lambda>(c, u). Options c ! u) (zip ks us'), ?w1\<lparr>rands := (rands ?w1)[the p := r2]\<rparr>)"
    "src r2 = src r"
    using Cons.IH [of ?w1 ks ?r1 us' "parts @ [?o]"] Cons.prems(3,4) cats us by auto
  moreover have "go_index (Options k) (int u) = Inr ?o" using u(1) by simp
  ultimately show ?case using cats us draw by (intro exI [of _ r2]) simp
qed

text \<open>C22. Shuffling leaves nothing out: for every gopher the categories offer there is a fair random
  source with which \<open>RandomGopher\<close> shows that gopher.\<close>

theorem every_gopher_by_shuffle:
  assumes inv: "outer_inv cats o1 w" and ps: "fits cats ps"
  shows "\<exists>s f w'. Outer_State o1 w = Inr s \<and> fair f \<and>
    RandomGopher o1 (w\<lparr>rands := (rands w)[the (rand s) := \<lparr>src = f, pos = 0\<rparr>]\<rparr>) = Inr w' \<and> shown_parts o1 w' = ps"
proof -
  obtain s cfg r qs where s: "Outer_State o1 w = Inr s" and cfg: "deref (configs w) (config s) = Inr cfg"
      "go_map (deref (categories w)) (Categories cfg) = Inr cats"
    and r: "deref (rands w) (rand s) = Inr r" and qs: "gopher_parts w (current s) = Inr qs"
    using inv by (auto simp: outer_inv_def outer_state_ok_def config_ok_def)
  have small: "list_all (\<lambda>c. length (Options c) < 2 ^ 31) cats" and "cats \<noteq> []"
    using inv by (auto simp: outer_inv_def drawable_def wf_categories_def)
  have "\<forall>i < length cats. \<exists>u. u < length (Options (cats ! i)) \<and> Options (cats ! i) ! u = ps ! i"
    using fits_nth [OF ps] by (auto simp: in_set_conv_nth)
  then obtain g where g: "\<And>i. i < length cats \<Longrightarrow> g i < length (Options (cats ! i)) \<and> Options (cats ! i) ! g i = ps ! i"
    by metis
  define f where "f = (\<lambda>k. if k < length cats then g k * 2 ^ 32 else 0)"
  let ?r = "\<lparr>src = f, pos = 0\<rparr>" and ?us = "map g [0..<length cats]"
  let ?w = "w\<lparr>rands := (rands w)[the (rand s) := ?r]\<rparr>"
  have fair: "fair f" unfolding fair_def
    by (intro allI, rule_tac x = "max m (length cats)" in exI) (simp add: f_def)
  have "deref (rands ?w) (rand s) = Inr ?r" using r by (auto simp: deref_Inr_iff)
  then obtain r' where loop: "random_loop (rand s) (Categories cfg) [] ?w =
      Inr (map (\<lambda>(c, u). Options c ! u) (zip cats ?us), ?w\<lparr>rands := (rands ?w)[the (rand s) := r']\<rparr>)"
    using random_loop_draws [of ?w "Categories cfg" cats "rand s" ?r ?us "[]"] cfg(2) small g
    by (auto simp: f_def)
  have parts: "map (\<lambda>(c, u). Options c ! u) (zip cats ?us) = ps"
    using fits_length [OF ps] g by (intro nth_equalityI) simp_all
  have "ps \<noteq> []" using fits_length [OF ps] \<open>cats \<noteq> []\<close> by auto
  let ?w1 = "?w\<lparr>rands := (rands ?w)[the (rand s) := r']\<rparr>"
  have "gopher_parts ?w1 = gopher_parts w" by (rule gopher_parts_same) simp_all
  then have "Outer_State o1 ?w1 = Inr s" "gopher_parts ?w1 (current s) = Inr qs"
    using s qs by (simp_all add: Outer_State_def)
  from installs_new_gopher [OF this, of ps] obtain w' where
    w': "(case new_gopher ps ?w1 of (g, w1) \<Rightarrow> Outer_SetState o1 (s\<lparr>current := g\<rparr>) w1) = Inr w'"
      "installs o1 ps ?w1 w'" by blast
  have "RandomGopher o1 ?w = Inr w'"
    using w'(1) loop parts \<open>ps \<noteq> []\<close> s cfg(1)
    by (simp add: RandomGopher_def Outer_State_def new_gopher_append_def del: go_bind_Inr_iff)
  moreover have "shown_parts o1 w' = ps" using w'(2) by (auto simp: installs_def shown_parts_def selection_def)
  ultimately show ?thesis using s fair by blast
qed

theorem every_gopher_by_shuffle_witness:
  "\<exists>f w'. fair f \<and> RandomGopher (OuterDef 0) (small_world\<lparr>rands := [\<lparr>src = f, pos = 0\<rparr>]\<rparr>) = Inr w' \<and>
     shown_parts (OuterDef 0) w' = [''pink'', ''big'']"
  using every_gopher_by_shuffle [OF small_world_inv, of "[''pink'', ''big'']"]
  by (auto simp: small_categories_def fits_def small_world_def Outer_State_def comp_State_def)

end
