(* ===== verification/Client_Page.thy ===== *)
theory Client_Page
  imports Client_Outer
begin

text \<open>
  The running page: the click handlers (\<^verbatim>\<open>client/chooser.go\<close>, \<^verbatim>\<open>client/panel.go\<close>), what
  React does with the client's components (mounting, updating under \<open>shouldComponentUpdate\<close>,
  forced updates) and \<^verbatim>\<open>client/main.go\<close>. The screen is a tree in which every component
  stands with its instance and with what that instance rendered last.
\<close>

section \<open>Clicks\<close>

definition OnClick_prevent :: "SyntheticMouseEvent \<Rightarrow> world go \<Rightarrow> (SyntheticMouseEvent \<times> world) go" where
  "OnClick_prevent e r = go_bind r (\<lambda>w. Inr (PreventDefault e, w))"

definition with_updater :: "ChooserDef \<Rightarrow> (OuterDef \<Rightarrow> world \<Rightarrow> world go) \<Rightarrow> world \<Rightarrow> world go" where
  "with_updater ch f w =
     go_bind (Chooser_Props ch w) (\<lambda>props.
       case ChooserProps.Update props of None \<Rightarrow> Inl NilDereference | Some o1 \<Rightarrow> f o1 w)"

definition expandClick_OnClick ::
  "ChooserDef option \<Rightarrow> int \<Rightarrow> SyntheticMouseEvent \<Rightarrow> world \<Rightarrow> (SyntheticMouseEvent \<times> world) go" where
  "expandClick_OnClick E1 i e w =
     OnClick_prevent e (case E1 of None \<Rightarrow> Inl NilDereference | Some ch \<Rightarrow> Expand ch i w)"

definition chooseItemClick_OnClick ::
  "OuterDef option \<Rightarrow> int \<Rightarrow> string \<Rightarrow> SyntheticMouseEvent \<Rightarrow> world \<Rightarrow> (SyntheticMouseEvent \<times> world) go" where
  "chooseItemClick_OnClick U ci v e w =
     OnClick_prevent e (case U of None \<Rightarrow> Inl NilDereference | Some o1 \<Rightarrow> UpdateGopher o1 ci v w)"

definition shuffleClick_OnClick ::
  "ChooserDef \<Rightarrow> SyntheticMouseEvent \<Rightarrow> world \<Rightarrow> (SyntheticMouseEvent \<times> world) go" where
  "shuffleClick_OnClick sh e w = OnClick_prevent e (with_updater sh RandomGopher w)"

definition resetClick_OnClick ::
  "ChooserDef \<Rightarrow> SyntheticMouseEvent \<Rightarrow> world \<Rightarrow> (SyntheticMouseEvent \<times> world) go" where
  "resetClick_OnClick rc e w = OnClick_prevent e (with_updater rc ResetGopher w)"

definition saveClick_OnClick ::
  "ChooserDef \<Rightarrow> SyntheticMouseEvent \<Rightarrow> world \<Rightarrow> (SyntheticMouseEvent \<times> world) go" where
  "saveClick_OnClick sc e w =
     OnClick_prevent e (Inr (w\<lparr>alerts := alerts w @ [''Frontend only for now...'']\<rparr>))"

definition run_OnClick ::
  "handler \<Rightarrow> SyntheticMouseEvent \<Rightarrow> world \<Rightarrow> (SyntheticMouseEvent \<times> world) go" where
  "run_OnClick h e w =
     (case h of
        ExpandClick E1 i \<Rightarrow> expandClick_OnClick E1 i e w
      | ChooseItemClick U ci v \<Rightarrow> chooseItemClick_OnClick U ci v e w
      | ShuffleClick ch \<Rightarrow> shuffleClick_OnClick ch e w
      | ResetClick ch \<Rightarrow> resetClick_OnClick ch e w
      | SaveClick ch \<Rightarrow> saveClick_OnClick ch e w)"

section \<open>Components on the page\<close>

text \<open>What the client takes from outside: the HTML parser, the random sources, the clock.\<close>

record env =
  env_pf :: parse_fragment
  env_src :: "int \<Rightarrow> nat \<Rightarrow> nat"
  env_now :: int

text \<open>\<open>getInitialState\<close> and \<open>componentWillMount\<close> of a new instance. A \<open>forceUpdate\<close> during
  \<open>componentWillMount\<close> has no effect of its own: the instance is about to be rendered.\<close>

definition new_instance :: "env \<Rightarrow> cmp \<Rightarrow> world \<Rightarrow> (nat \<times> world) go" where
  "new_instance env c w =
     (case c of
        OuterC \<Rightarrow>
          let i = length (outers w);
              w1 = w\<lparr>outers := outers w @
                [getInitialState (Some \<lparr>current = None, config = None, rand = None\<rparr>) None]\<rparr>
          in go_bind (ComponentWillMount (env_src env) (env_now env) (OuterDef i) w1)
               (\<lambda>w2. Inr (i, w2\<lparr>pending := pending w\<rparr>))
      | PreviewC p \<Rightarrow>
          Inr (length (previews w), w\<lparr>previews := previews w @ [getInitialState None (Some p)]\<rparr>)
      | ChooserC p \<Rightarrow>
          Inr (length (choosers w),
               w\<lparr>choosers := choosers w @ [getInitialState (Some \<lparr>open = 0\<rparr>) (Some p)]\<rparr>)
      | PanelC p \<Rightarrow>
          Inr (length (panels w), w\<lparr>panels := panels w @ [getInitialState None (Some p)]\<rparr>))"

text \<open>\<open>Render\<close> of the instance \<open>i\<close> of the class of \<open>c\<close>.\<close>

definition render_instance :: "env \<Rightarrow> cmp \<Rightarrow> nat \<Rightarrow> world \<Rightarrow> (elem \<times> world) go" where
  "render_instance env c i w =
     (case c of
        OuterC \<Rightarrow> Outer_Render (OuterDef i) w
      | PreviewC _ \<Rightarrow> go_bind (PreviewDef_Render i w) (\<lambda>e. Inr (e, w))
      | ChooserC _ \<Rightarrow> Chooser_Render (env_pf env) (ChooserDef i) w
      | PanelC _ \<Rightarrow> go_bind (PanelDef_Render i w) (\<lambda>e. Inr (e, w)))"

text \<open>The instance gets the props of a new element of its class; the result says whether it is
  to be rendered again.\<close>

definition receive_props :: "cmp \<Rightarrow> nat \<Rightarrow> world \<Rightarrow> (bool \<times> world) go" where
  "receive_props c i w =
     (case c of
        OuterC \<Rightarrow>
          go_bind (deref (outers w) (Some i)) (\<lambda>inst.
          go_bind (updateClassInstance (=) False None inst) (\<lambda>(su, inst').
            Inr (su, w\<lparr>outers := (outers w)[i := inst']\<rparr>)))
      | PreviewC p \<Rightarrow>
          go_bind (deref (previews w) (Some i)) (\<lambda>inst.
          go_bind (updateClassInstance (=) False (Some p) inst) (\<lambda>(su, inst').
            Inr (su, w\<lparr>previews := (previews w)[i := inst']\<rparr>)))
      | ChooserC p \<Rightarrow>
          go_bind (deref (choosers w) (Some i)) (\<lambda>inst.
          go_bind (updateClassInstance (=) False (Some p) inst) (\<lambda>(su, inst').
            Inr (su, w\<lparr>choosers := (choosers w)[i := inst']\<rparr>)))
      | PanelC p \<Rightarrow>
          go_bind (deref (panels w) (Some i)) (\<lambda>inst.
          go_bind (updateClassInstance (=) False (Some p) inst) (\<lambda>(su, inst').
            Inr (su, w\<lparr>panels := (panels w)[i := inst']\<rparr>))))"

fun same_class :: "cmp \<Rightarrow> cmp \<Rightarrow> bool" where
  "same_class OuterC OuterC = True"
| "same_class (PreviewC _) (PreviewC _) = True"
| "same_class (ChooserC _) (ChooserC _) = True"
| "same_class (PanelC _) (PanelC _) = True"
| "same_class _ _ = False"

section \<open>The screen\<close>

datatype tree =
    TS string
  | TElem elem_type "handler jsval jsobj option" "tree list"
  | TComp cmp nat tree

text \<open>Mounting an element. The fuel bounds the nesting of components, which is three here.\<close>

fun mount :: "env \<Rightarrow> nat \<Rightarrow> elem \<Rightarrow> world \<Rightarrow> (tree \<times> world) go"
  and mount_list :: "env \<Rightarrow> nat \<Rightarrow> elem list \<Rightarrow> world \<Rightarrow> (tree list \<times> world) go" where
  "mount env n (S s) w = Inr (TS s, w)"
| "mount env n (Elem ty props es) w =
     go_bind (mount_list env n es w) (\<lambda>(ts, w1). Inr (TElem ty props ts, w1))"
| "mount env 0 (Comp c) w = Inl NoReturn"
| "mount env (Suc n) (Comp c) w =
     go_bind (new_instance env c w) (\<lambda>(i, w1).
     go_bind (render_instance env c i w1) (\<lambda>(e, w2).
     go_bind (mount env n e w2) (\<lambda>(t, w3). Inr (TComp c i t, w3))))"
| "mount_list env n [] w = Inr ([], w)"
| "mount_list env n (e # es) w =
     go_bind (mount env n e w) (\<lambda>(t, w1).
     go_bind (mount_list env n es w1) (\<lambda>(ts, w2). Inr (t # ts, w2)))"

text \<open>Updating what stands on the screen to show a new element: elements of the same type are
  updated in place, component instances of the same class are kept and rendered again when
  \<open>shouldComponentUpdate\<close> says so, anything else is mounted anew. The client's elements
  carry no keys, so children are matched by position.\<close>

fun patch :: "env \<Rightarrow> nat \<Rightarrow> tree \<Rightarrow> elem \<Rightarrow> world \<Rightarrow> (tree \<times> world) go"
  and patch_list :: "env \<Rightarrow> nat \<Rightarrow> tree list \<Rightarrow> elem list \<Rightarrow> world \<Rightarrow> (tree list \<times> world) go" where
  "patch env n t (S s) w = Inr (TS s, w)"
| "patch env n t (Elem ty props es) w =
     (case t of
        TElem ty' props' ts \<Rightarrow>
          if ty = ty'
          then go_bind (patch_list env n ts es w) (\<lambda>(ts', w1). Inr (TElem ty props ts', w1))
          else mount env n (Elem ty props es) w
      | _ \<Rightarrow> mount env n (Elem ty props es) w)"
| "patch env 0 t (Comp c) w = Inl NoReturn"
| "patch env (Suc n) t (Comp c) w =
     (case t of
        TComp c' i t' \<Rightarrow>
          if same_class c c'
          then go_bind (receive_props c i w) (\<lambda>(su, w1).
                 if su
                 then go_bind (render_instance env c i w1) (\<lambda>(e, w2).
                      go_bind (patch env n t' e w2) (\<lambda>(t'', w3). Inr (TComp c i t'', w3)))
                 else Inr (TComp c i t', w1))
          else mount env (Suc n) (Comp c) w
      | _ \<Rightarrow> mount env (Suc n) (Comp c) w)"
| "patch_list env n ts [] w = Inr ([], w)"
| "patch_list env n [] (e # es) w = mount_list env n (e # es) w"
| "patch_list env n (t # ts) (e # es) w =
     go_bind (patch env n t e w) (\<lambda>(t', w1).
     go_bind (patch_list env n ts es w1) (\<lambda>(ts', w2). Inr (t' # ts', w2)))"

text \<open>A forced update of one instance, wherever it stands on the screen.\<close>

fun inst_of :: "cmp \<Rightarrow> nat \<Rightarrow> inst_ref option" where
  "inst_of OuterC i = Some (OuterI i)"
| "inst_of (ChooserC _) i = Some (ChooserI i)"
| "inst_of _ i = None"

fun force :: "env \<Rightarrow> nat \<Rightarrow> inst_ref \<Rightarrow> tree \<Rightarrow> world \<Rightarrow> (tree \<times> world) go"
  and force_list :: "env \<Rightarrow> nat \<Rightarrow> inst_ref \<Rightarrow> tree list \<Rightarrow> world \<Rightarrow> (tree list \<times> world) go" where
  "force env n r (TS s) w = Inr (TS s, w)"
| "force env n r (TElem ty props ts) w =
     go_bind (force_list env n r ts w) (\<lambda>(ts', w1). Inr (TElem ty props ts', w1))"
| "force env n r (TComp c i t) w =
     (if inst_of c i = Some r
      then go_bind (render_instance env c i w) (\<lambda>(e, w1).
           go_bind (patch env n t e w1) (\<lambda>(t', w2). Inr (TComp c i t', w2)))
      else go_bind (force env n r t w) (\<lambda>(t', w1). Inr (TComp c i t', w1)))"
| "force_list env n r [] w = Inr ([], w)"
| "force_list env n r (t # ts) w =
     go_bind (force env n r t w) (\<lambda>(t', w1).
     go_bind (force_list env n r ts w1) (\<lambda>(ts', w2). Inr (t' # ts', w2)))"

text \<open>The updates asked for during an event are carried out when its handler has returned.\<close>

definition nesting :: nat where
  "nesting = 3"

fun flush :: "env \<Rightarrow> inst_ref list \<Rightarrow> tree \<Rightarrow> world \<Rightarrow> (tree \<times> world) go" where
  "flush env [] t w = Inr (t, w)"
| "flush env (r # rs) t w = go_bind (force env nesting r t w) (\<lambda>(t', w1). flush env rs t' w1)"

record page =
  screen :: tree
  page_world :: world

definition click :: "env \<Rightarrow> handler \<Rightarrow> page \<Rightarrow> page go" where
  "click env h p =
     go_bind (run_OnClick h \<lparr>defaultPrevented = False\<rparr> (page_world p)) (\<lambda>(e, w).
     go_bind (flush env (pending w) (screen p) (w\<lparr>pending := []\<rparr>)) (\<lambda>(t, w1).
       Inr \<lparr>screen = t, page_world = w1\<rparr>))"

end
