(* ===== verification/Client_Screen.thy ===== *)
theory Client_Screen
  imports Client_Page
begin

text \<open>
  What the page keeps true: the components have what they need to render (\<open>cmp_ok\<close>,
  \<open>world_ok\<close>), and everything on the screen is what its component would render now
  (\<open>coherent\<close>). Mounting, patching and forced updates keep both, although most
  components are not rendered again.
\<close>

section \<open>Parts of elements and trees\<close>

fun comps :: "elem \<Rightarrow> cmp list" where
  "comps (S s) = []"
| "comps (Elem ty props es) = concat (map comps es)"
| "comps (Comp c) = [c]"

fun class_no :: "cmp \<Rightarrow> nat" where
  "class_no OuterC = 0"
| "class_no (PreviewC _) = 1"
| "class_no (ChooserC _) = 2"
| "class_no (PanelC _) = 3"

text \<open>How deep components nest below a component of the class.\<close>

fun rank :: "cmp \<Rightarrow> nat" where
  "rank OuterC = 3"
| "rank (PreviewC _) = 1"
| "rank (ChooserC _) = 2"
| "rank (PanelC _) = 1"

type_synonym inst = "nat \<times> nat"

fun insts :: "tree \<Rightarrow> inst list" where
  "insts (TS s) = []"
| "insts (TElem ty props ts) = concat (map insts ts)"
| "insts (TComp c i t) = (class_no c, i) # insts t"

fun displays :: "tree \<Rightarrow> elem \<Rightarrow> bool" where
  "displays (TS s) e \<longleftrightarrow> e = S s"
| "displays (TElem ty props ts) e \<longleftrightarrow> (\<exists>es. e = Elem ty props es \<and> list_all2 displays ts es)"
| "displays (TComp c i t) e \<longleftrightarrow> e = Comp c"

definition handler_of :: "handler jsval jsobj option \<Rightarrow> handler list" where
  "handler_of props =
     (case props of
        None \<Rightarrow> []
      | Some o1 \<Rightarrow> (case obj_get o1 ''onClick'' of Some (JFunc h) \<Rightarrow> [h] | _ \<Rightarrow> []))"

text \<open>What can be clicked: in an element, and on the screen.\<close>

fun elem_handlers :: "elem \<Rightarrow> handler list" where
  "elem_handlers (S s) = []"
| "elem_handlers (Elem ty props es) = handler_of props @ concat (map elem_handlers es)"
| "elem_handlers (Comp c) = []"

fun tree_handlers :: "tree \<Rightarrow> handler list" where
  "tree_handlers (TS s) = []"
| "tree_handlers (TElem ty props ts) = handler_of props @ concat (map tree_handlers ts)"
| "tree_handlers (TComp c i t) = tree_handlers t"

section \<open>What components need\<close>

text \<open>The footer is parsed once; \<open>fe\<close> is the element it is parsed to.\<close>

definition cache_ok :: "elem \<Rightarrow> world \<Rightarrow> bool" where
  "cache_ok fe w \<longleftrightarrow> (\<forall>v. map_of (htmlCache w) (TrimSpace footer) = Some v \<longrightarrow> v = [fe])"

definition env_ok :: "env \<Rightarrow> elem \<Rightarrow> bool" where
  "env_ok env fe \<longleftrightarrow> (\<exists>cache. HTMLElem (env_pf env) footer [] = Inr (fe, cache)) \<and>
     comps fe = [] \<and> elem_handlers fe = [] \<and> (\<forall>seed. fair (env_src env seed))"

definition cmp_ok :: "world \<Rightarrow> cmp \<Rightarrow> bool" where
  "cmp_ok w c =
     (case c of
        OuterC \<Rightarrow> True
      | PreviewC p \<Rightarrow> \<exists>ps. gopher_parts w (PreviewProps.Current p) = Inr ps
      | ChooserC p \<Rightarrow> config_ok w (ChooserProps.Config p) hack_categories \<and>
          (\<exists>ps. gopher_parts w (ChooserProps.Current p) = Inr ps \<and> fits hack_categories ps) \<and>
          (\<exists>j < length (outers w). ChooserProps.Update p = Some (OuterDef j))
      | PanelC p \<Rightarrow>
          (\<exists>i < length hack_categories. PanelProps.Part p = int i \<and>
             deref (categories w) (PanelProps.Category p) = Inr (hack_categories ! i)) \<and>
          (\<exists>j < length (outers w). PanelProps.Update p = Some (OuterDef j)) \<and>
          (\<exists>k < length (choosers w). PanelProps.Expand p = Some (ChooserDef k)))"

definition world_ok :: "elem \<Rightarrow> world \<Rightarrow> bool" where
  "world_ok fe w \<longleftrightarrow> config_ok w hackConfig_ptr hack_categories \<and> cache_ok fe w \<and>
     (\<forall>j < length (outers w). outer_inv hack_categories (OuterDef j) w \<and> js_props (outers w ! j) = None) \<and>
     (\<forall>k < length (choosers w). \<exists>p st. js_props (choosers w ! k) = Some p \<and>
        lastState (choosers w ! k) = Some st \<and> cmp_ok w (ChooserC p))"

text \<open>An instance that exists, and one that has the props of its element.\<close>

fun exists_inst :: "world \<Rightarrow> inst \<Rightarrow> bool" where
  "exists_inst w (k, i) \<longleftrightarrow>
     k = 0 \<and> i < length (outers w) \<or> k = 1 \<and> i < length (previews w) \<or>
     k = 2 \<and> i < length (choosers w) \<or> k = 3 \<and> i < length (panels w)"

definition holds :: "world \<Rightarrow> cmp \<Rightarrow> nat \<Rightarrow> bool" where
  "holds w c i \<longleftrightarrow> exists_inst w (class_no c, i) \<and>
     (case c of
        OuterC \<Rightarrow> js_props (outers w ! i) = None
      | PreviewC p \<Rightarrow> js_props (previews w ! i) = Some p
      | ChooserC p \<Rightarrow> js_props (choosers w ! i) = Some p
      | PanelC p \<Rightarrow> js_props (panels w ! i) = Some p)"

section \<open>How the world moves on\<close>

fun same_inst :: "world \<Rightarrow> world \<Rightarrow> inst \<Rightarrow> bool" where
  "same_inst w w' (k, i) \<longleftrightarrow>
     (k = 0 \<longrightarrow> outers w' ! i = outers w ! i) \<and> (k = 1 \<longrightarrow> previews w' ! i = previews w ! i) \<and>
     (k = 2 \<longrightarrow> choosers w' ! i = choosers w ! i) \<and> (k = 3 \<longrightarrow> panels w' ! i = panels w ! i)"

text \<open>\<open>evolves w w' R\<close>: objects and instances stay, and only the instances in \<open>R\<close> change.\<close>

definition evolves :: "world \<Rightarrow> world \<Rightarrow> inst set \<Rightarrow> bool" where
  "evolves w w' R \<longleftrightarrow> grows w w' \<and> (\<forall>x. exists_inst w x \<longrightarrow> exists_inst w' x) \<and>
     (\<forall>x. exists_inst w x \<and> x \<notin> R \<longrightarrow> same_inst w w' x) \<and>
     (\<forall>p r. deref (rands w) p = Inr r \<longrightarrow> (\<exists>r'. deref (rands w') p = Inr r' \<and> src r' = src r))"

text \<open>\<open>settles w w'\<close>: no component changes its state, nothing is asked for.\<close>

definition settles :: "world \<Rightarrow> world \<Rightarrow> bool" where
  "settles w w' \<longleftrightarrow> pending w' = pending w \<and> alerts w' = alerts w \<and>
     (\<forall>j < length (outers w). outers w' ! j = outers w ! j) \<and>
     (\<forall>k < length (choosers w). lastState (choosers w' ! k) = lastState (choosers w ! k))"

lemma evolves_exists: "evolves w w' R \<Longrightarrow> exists_inst w x \<Longrightarrow> exists_inst w' x"
  unfolding evolves_def by blast

lemma evolves_lengths:
  assumes "evolves w w' R"
  shows "i < length (outers w) \<Longrightarrow> i < length (outers w')"
    and "i < length (choosers w) \<Longrightarrow> i < length (choosers w')"
  using evolves_exists [OF assms, of "(0, i)"] evolves_exists [OF assms, of "(2, i)"] by simp_all

lemma same_inst_trans: "same_inst w1 w2 x \<Longrightarrow> same_inst w2 w3 x \<Longrightarrow> same_inst w1 w3 x"
  by (cases x) auto

lemma same_inst_refl [simp]: "same_inst w w x"
  by (cases x) simp

lemma evolves_refl [simp]: "evolves w w R"
  by (simp add: evolves_def)

lemma evolves_trans:
  assumes "evolves w1 w2 R1" and "evolves w2 w3 R2"
  shows "evolves w1 w3 (R1 \<union> R2)"
proof -
  have "grows w1 w3" using assms grows_trans unfolding evolves_def by blast
  moreover have "exists_inst w1 x \<Longrightarrow> x \<notin> R1 \<union> R2 \<Longrightarrow> same_inst w1 w3 x" for x
    using assms same_inst_trans unfolding evolves_def by blast
  moreover have "\<exists>r'. deref (rands w3) p = Inr r' \<and> src r' = src r" if "deref (rands w1) p = Inr r" for p r
    using assms that unfolding evolves_def by metis
  ultimately show ?thesis using assms by (simp add: evolves_def)
qed

lemma evolves_mono: "evolves w w' R \<Longrightarrow> R \<subseteq> R' \<Longrightarrow> evolves w w' R'"
  unfolding evolves_def by blast

lemma settles_refl [simp]: "settles w w"
  by (simp add: settles_def)

lemma settles_trans: "settles w1 w2 \<Longrightarrow> settles w2 w3 \<Longrightarrow> evolves w1 w2 R \<Longrightarrow> settles w1 w3"
  unfolding settles_def by (metis evolves_lengths)

lemma render_change_evolves: "render_change w w' \<Longrightarrow> evolves w w' R \<and> settles w w'"
proof -
  assume ch: "render_change w w'"
  note same = render_change_same [OF ch]
  have "exists_inst w x \<longleftrightarrow> exists_inst w' x" "same_inst w w' x" for x
    by (cases x; simp add: same)+
  then show ?thesis by (simp add: evolves_def settles_def grows_def same)
qed

text \<open>What components need, they keep.\<close>

lemma config_ok_grows:
  assumes "grows w w'" and "config_ok w p cats"
  shows "config_ok w' p cats"
proof -
  obtain cfg where cfg: "deref (configs w) p = Inr cfg"
      "list_all2 (\<lambda>q c. deref (categories w) q = Inr c) (Categories cfg) cats"
    using assms(2) by (auto simp: config_ok_def go_map_Inr_iff)
  then have "list_all2 (\<lambda>q c. deref (categories w') q = Inr c) (Categories cfg) cats"
    using grows_deref(4) [OF assms(1)] by (auto elim: list_all2_mono)
  with grows_deref(3) [OF assms(1) cfg(1)] show ?thesis by (auto simp: config_ok_def go_map_Inr_iff)
qed

lemma cmp_ok_evolves: "evolves w w' R \<Longrightarrow> cmp_ok w c \<Longrightarrow> cmp_ok w' c"
proof -
  assume ev: "evolves w w' R" and ok: "cmp_ok w c"
  then have gr: "grows w w'" by (simp add: evolves_def)
  show ?thesis
  proof (cases c)
    case (ChooserC p)
    with ok gr show ?thesis
      using evolves_lengths(1) [OF ev] config_ok_grows [OF gr] grows_gopher_parts [OF gr]
      unfolding cmp_ok_def by simp blast
  next
    case (PanelC p)
    with ok show ?thesis
      using evolves_lengths [OF ev] grows_deref(4) [OF gr] unfolding cmp_ok_def by simp blast
  next
    case (PreviewC p)
    with ok show ?thesis using grows_gopher_parts [OF gr] unfolding cmp_ok_def by simp blast
  qed (simp add: cmp_ok_def)
qed

lemma outer_inv_evolves:
  assumes "evolves w w' R" and "outers w' ! j = outers w ! j" and "j < length (outers w)"
    and "outer_inv cats (OuterDef j) w"
  shows "outer_inv cats (OuterDef j) w'"
proof -
  obtain s where s: "Outer_State (OuterDef j) w = Inr s" "outer_state_ok cats w s" and d: "drawable cats"
    using assms(4) by (auto simp: outer_inv_def)
  have gr: "grows w w'" using assms(1) by (simp add: evolves_def)
  have "Outer_State (OuterDef j) w' = Inr s"
    using s(1) assms(2,3) evolves_lengths(1) [OF assms(1)] by (simp add: Outer_State_def)
  moreover have "outer_state_ok cats w' s"
  proof -
    obtain r where "deref (rands w) (rand s) = Inr r" "fair (src r)"
      using s(2) by (auto simp: outer_state_ok_def)
    then have "\<exists>r'. deref (rands w') (rand s) = Inr r' \<and> fair (src r')"
      using assms(1) unfolding evolves_def by metis
    then show ?thesis
      using s(2) config_ok_grows [OF gr] grows_gopher_parts [OF gr] unfolding outer_state_ok_def by blast
  qed
  ultimately show ?thesis using d by (auto simp: outer_inv_def)
qed

lemma holds_evolves:
  "evolves w w' R \<Longrightarrow> holds w c i \<Longrightarrow> (class_no c, i) \<notin> R \<Longrightarrow> holds w' c i"
proof -
  assume ev: "evolves w w' R" and h: "holds w c i" and R: "(class_no c, i) \<notin> R"
  have "exists_inst w (class_no c, i)" using h by (simp add: holds_def)
  then have "exists_inst w' (class_no c, i)" "same_inst w w' (class_no c, i)"
    using ev R unfolding evolves_def by blast+
  with h show ?thesis by (cases c) (simp_all add: holds_def)
qed

section \<open>Rendering\<close>

lemma HTML_cache_indep:
  assumes "HTML pf s [] = Inr (v, c)" and "map_of cache (TrimSpace s) = None"
  shows "HTML pf s cache = Inr (v, AList.update (TrimSpace s) v cache)"
  using assms by (auto simp: HTML_def Let_def split: sum.splits)

lemma HTMLElem_footer:
  assumes "env_ok env fe" and "cache_ok fe w"
  shows "\<exists>cache. HTMLElem (env_pf env) footer (htmlCache w) = Inr (fe, cache) \<and>
    cache_ok fe (w\<lparr>htmlCache := cache\<rparr>)"
proof -
  obtain c where c: "HTML (env_pf env) footer [] = Inr ([fe], c)"
  proof -
    from assms(1) obtain res c where "HTML (env_pf env) footer [] = Inr (res, c)" "length res = 1" "res ! 0 = fe"
      by (auto simp: env_ok_def HTMLElem_def split: if_splits)
    then show thesis using that by (auto simp: length_Suc_conv)
  qed
  show ?thesis
  proof (cases "map_of (htmlCache w) (TrimSpace footer)")
    case None
    with HTML_cache_indep [OF c] show ?thesis
      by (simp add: HTMLElem_def cache_ok_def update_conv)
  next
    case (Some v)
    with assms(2) have "v = [fe]" by (simp add: cache_ok_def)
    with Some assms(2) show ?thesis by (simp add: HTMLElem_def HTML_cached cache_ok_def)
  qed
qed

text \<open>The whole of what \<open>Chooser\<close> renders.\<close>

definition chooser_view :: "elem \<Rightarrow> ChooserDef \<Rightarrow> ChooserProps \<Rightarrow> ChooserState \<Rightarrow> string list \<Rightarrow> ptr list \<Rightarrow> elem" where
  "chooser_view fe ch p st parts cs =
     react_Div (Some (new_ElemProps\<lparr>ClassName := ''col-xs-4''\<rparr>))
       (chooser_args ch (map (\<lambda>(j, c). Comp (PanelC (panel_props ch p st parts j c))) (zip [0..<length cs] cs)) fe)"

lemma Chooser_Render_view:
  assumes "env_ok env fe" and "cache_ok fe w"
    and "Chooser_State ch w = Inr st" and "Chooser_Props ch w = Inr p"
    and "deref (configs w) (ChooserProps.Config p) = Inr cfg"
    and "gopher_parts w (ChooserProps.Current p) = Inr parts" and "length (Categories cfg) \<le> length parts"
  shows "\<exists>w'. Chooser_Render (env_pf env) ch w = Inr (chooser_view fe ch p st parts (Categories cfg), w') \<and>
    render_change w w' \<and> cache_ok fe w'"
proof -
  obtain w1 where w1: "panel_loop ch p st 0 (Categories cfg) w =
      Inr (map (\<lambda>(j, c). Comp (PanelC (panel_props ch p st parts j c)))
             (zip [0..<length (Categories cfg)] (Categories cfg)), w1)"
      "render_change w w1" "htmlCache w1 = htmlCache w"
    using panel_loop_spec [OF assms(6), of 0 "Categories cfg" ch st] assms(7) by auto
  have "cache_ok fe w1" using assms(2) w1(3) by (simp add: cache_ok_def)
  from HTMLElem_footer [OF assms(1) this] obtain cache where
    f: "HTMLElem (env_pf env) footer (htmlCache w1) = Inr (fe, cache)" "cache_ok fe (w1\<lparr>htmlCache := cache\<rparr>)"
    by blast
  have "render_change w1 (w1\<lparr>htmlCache := cache\<rparr>)"
    unfolding render_change_def by (rule exI [of _ "react w1"], rule exI [of _ cache]) simp
  with w1(2) have "render_change w (w1\<lparr>htmlCache := cache\<rparr>)" by (rule render_change_trans)
  moreover have "Chooser_Render (env_pf env) ch w =
      Inr (chooser_view fe ch p st parts (Categories cfg), w1\<lparr>htmlCache := cache\<rparr>)"
    by (simp add: Chooser_Render_def assms(3-5) w1(1) f(1) chooser_view_def del: go_bind_Inr_iff)
  ultimately show ?thesis using f(2) by blast
qed

text \<open>What the instance \<open>i\<close> of the element \<open>Comp c\<close> shows: its rendering, without the
  bookkeeping.\<close>

definition outer_view :: "OuterDef \<Rightarrow> OuterState \<Rightarrow> elem" where
  "outer_view o1 s = react_Div None
     [Comp (PreviewC \<lparr>PreviewProps.Current = current s\<rparr>),
      Comp (ChooserC \<lparr>ChooserProps.Current = current s, Config = config s, Update = Some o1\<rparr>)]"

definition cmp_view :: "elem \<Rightarrow> world \<Rightarrow> cmp \<Rightarrow> nat \<Rightarrow> elem go" where
  "cmp_view fe w c i =
     (case c of
        OuterC \<Rightarrow> go_bind (Outer_State (OuterDef i) w) (\<lambda>s. Inr (outer_view (OuterDef i) s))
      | PreviewC p \<Rightarrow> Preview_Render p w
      | ChooserC p \<Rightarrow>
          go_bind (Chooser_State (ChooserDef i) w) (\<lambda>st.
          go_bind (deref (configs w) (ChooserProps.Config p)) (\<lambda>cfg.
          go_bind (gopher_parts w (ChooserProps.Current p)) (\<lambda>parts.
            Inr (chooser_view fe (ChooserDef i) p st parts (Categories cfg)))))
      | PanelC p \<Rightarrow> Panel_Render p w)"

lemma cmp_view_evolves:
  assumes "evolves w w' R" and "exists_inst w (class_no c, i)" and "(class_no c, i) \<notin> R"
    and "cmp_view fe w c i = Inr e"
  shows "cmp_view fe w' c i = Inr e"
proof -
  have gr: "grows w w'" and "exists_inst w' (class_no c, i)" and "same_inst w w' (class_no c, i)"
    using assms(1-3) unfolding evolves_def by blast+
  then show ?thesis
  proof (cases c)
    case OuterC
    with assms(2,4) \<open>exists_inst w' (class_no c, i)\<close> \<open>same_inst w w' (class_no c, i)\<close> show ?thesis
      by (simp add: cmp_view_def Outer_State_def)
  next
    case (PreviewC p)
    with assms(4) preview.render_grows [OF gr] show ?thesis by (simp add: cmp_view_def)
  next
    case (ChooserC p)
    with assms(2) \<open>exists_inst w' (class_no c, i)\<close> \<open>same_inst w w' (class_no c, i)\<close>
    have "Chooser_State (ChooserDef i) w' = Chooser_State (ChooserDef i) w"
      by (simp add: Chooser_State_def)
    with ChooserC assms(4) show ?thesis
      by (auto simp: cmp_view_def dest: grows_deref(3) [OF gr] grows_gopher_parts [OF gr])
  next
    case (PanelC p)
    with assms(4) panel.render_grows [OF gr] show ?thesis by (simp add: cmp_view_def)
  qed
qed

section \<open>Handlers\<close>

definition handler_ok :: "world \<Rightarrow> handler \<Rightarrow> bool" where
  "handler_ok w h =
     (case h of
        ExpandClick E1 i \<Rightarrow> (\<exists>k < length (choosers w). E1 = Some (ChooserDef k)) \<and>
          (\<exists>n < length hack_categories. i = int n)
      | ChooseItemClick U i v \<Rightarrow> (\<exists>j < length (outers w). U = Some (OuterDef j)) \<and>
          (\<exists>n < length hack_categories. i = int n \<and> v \<in> set (Options (hack_categories ! n)))
      | ShuffleClick ch \<Rightarrow> chooser_elem ch < length (choosers w)
      | ResetClick ch \<Rightarrow> chooser_elem ch < length (choosers w)
      | SaveClick ch \<Rightarrow> chooser_elem ch < length (choosers w))"

lemma handler_ok_evolves: "evolves w w' R \<Longrightarrow> handler_ok w h \<Longrightarrow> handler_ok w' h"
  using evolves_lengths [of w w' R] by (cases h) (auto simp: handler_ok_def)

definition clicked :: "handler option \<Rightarrow> handler list" where
  "clicked h = (case h of None \<Rightarrow> [] | Some x \<Rightarrow> [x])"

lemma handler_of_rprops:
  assumes "\<And>p. obj_get (setp p []) ''onClick'' =
      (case OnClick p of Some f \<Rightarrow> Some (JFunc f) | None \<Rightarrow> obj_get [] ''onClick'')"
  shows "handler_of (rprops_of setp q) = (case q of None \<Rightarrow> [] | Some p \<Rightarrow> clicked (OnClick p))"
  using assms by (auto simp: handler_of_def rprops_of_def clicked_def split: option.split)

lemmas handler_of_props =
  handler_of_rprops [of set_html_props, OF set_html_props_onClick]
  handler_of_rprops [of set_AProps, OF set_props_onClick(1)]
  handler_of_rprops [of set_ButtonProps, OF set_props_onClick(2)]
  handler_of_rprops [of set_ImgProps, OF set_props_onClick(4)]
  handler_of_rprops [of set_LabelProps, OF set_props_onClick(6)]

lemma elem_handlers_react [simp]:
  "elem_handlers (react_Div q0 es) = (case q0 of None \<Rightarrow> [] | Some p \<Rightarrow> clicked (OnClick p)) @ concat (map elem_handlers es)"
  "elem_handlers (react_H4 q0 es) = (case q0 of None \<Rightarrow> [] | Some p \<Rightarrow> clicked (OnClick p)) @ concat (map elem_handlers es)"
  "elem_handlers (react_I q0 es) = (case q0 of None \<Rightarrow> [] | Some p \<Rightarrow> clicked (OnClick p)) @ concat (map elem_handlers es)"
  "elem_handlers (react_Br q0 es) = (case q0 of None \<Rightarrow> [] | Some p \<Rightarrow> clicked (OnClick p)) @ concat (map elem_handlers es)"
  "elem_handlers (react_A q1 es) = (case q1 of None \<Rightarrow> [] | Some p \<Rightarrow> clicked (OnClick p)) @ concat (map elem_handlers es)"
  "elem_handlers (react_Button q2 es) = (case q2 of None \<Rightarrow> [] | Some p \<Rightarrow> clicked (OnClick p)) @ concat (map elem_handlers es)"
  "elem_handlers (react_Img q3 es) = (case q3 of None \<Rightarrow> [] | Some p \<Rightarrow> clicked (OnClick p)) @ concat (map elem_handlers es)"
  "elem_handlers (react_Label q4 es) = (case q4 of None \<Rightarrow> [] | Some p \<Rightarrow> clicked (OnClick p)) @ concat (map elem_handlers es)"
  by (simp_all add: react_elem_defs createElement_def handler_of_props)

lemma comps_react [simp]:
  "comps (react_Div q0 es) = concat (map comps es)" "comps (react_H4 q0 es) = concat (map comps es)"
  "comps (react_I q0 es) = concat (map comps es)" "comps (react_Br q0 es) = concat (map comps es)"
  "comps (react_A q1 es) = concat (map comps es)" "comps (react_Button q2 es) = concat (map comps es)"
  "comps (react_Img q3 es) = concat (map comps es)" "comps (react_Label q4 es) = concat (map comps es)"
  by (simp_all add: react_elem_defs createElement_def)

lemma preview_static:
  "comps e = [] \<and> elem_handlers e = []" if "Preview_Render p w = Inr e"
proof -
  have "comps x = [] \<and> elem_handlers x = []" if "x \<in> set (addPart [] q)" for x q
    using that by (auto simp: addPart_def clicked_def new_props_OnClick)
  with that show ?thesis
    by (auto simp: Preview_Render_def preview_loop_eq clicked_def new_props_OnClick)
qed

lemma panel_handlers:
  assumes "Panel_Render p w = Inr e" and "cmp_ok w (PanelC p)"
  shows "comps e = []" and "list_all (handler_ok w) (elem_handlers e)"
proof -
  obtain i where i: "i < length hack_categories" "PanelProps.Part p = int i"
      "deref (categories w) (PanelProps.Category p) = Inr (hack_categories ! i)"
    using assms(2) by (auto simp: cmp_ok_def)
  have e: "e = panel_div p (if PanelProps.Open p then map (panel_item p) (Options (hack_categories ! i)) else [])
      (Name (hack_categories ! i))"
    using assms(1) Panel_Render_total [OF i(3)] by simp
  show "comps e = []" by (auto simp: e panel_div_def panel_item_def)
  show "list_all (handler_ok w) (elem_handlers e)"
    using assms(2) i
    by (auto simp: e panel_div_def panel_item_def clicked_def new_props_OnClick handler_ok_def cmp_ok_def list_all_iff)
qed

lemma chooser_view_parts:
  assumes "env_ok env fe"
  shows "comps (chooser_view fe ch p st parts cs) =
      map (\<lambda>(j, c). PanelC (panel_props ch p st parts j c)) (zip [0..<length cs] cs)"
    and "elem_handlers (chooser_view fe ch p st parts cs) = [ShuffleClick ch, ResetClick ch, SaveClick ch]"
proof -
  have fe: "comps fe = []" "elem_handlers fe = []" using assms by (simp_all add: env_ok_def)
  have "concat (map comps (map (\<lambda>(j, c). Comp (PanelC (panel_props ch p st parts j c))) xs)) =
      map (\<lambda>(j, c). PanelC (panel_props ch p st parts j c)) xs"
    "concat (map elem_handlers (map (\<lambda>(j, c). Comp (PanelC (panel_props ch p st parts j c))) xs)) = []" for xs
    by (induction xs) auto
  then show "comps (chooser_view fe ch p st parts cs) =
      map (\<lambda>(j, c). PanelC (panel_props ch p st parts j c)) (zip [0..<length cs] cs)"
    and "elem_handlers (chooser_view fe ch p st parts cs) = [ShuffleClick ch, ResetClick ch, SaveClick ch]"
    using fe by (simp_all add: chooser_view_def chooser_args_def clicked_def new_props_OnClick)
qed

text \<open>A rendering that succeeds: it is the view, it changes nothing but the bookkeeping, and
  what it contains is in order.\<close>

definition renders_well :: "env \<Rightarrow> elem \<Rightarrow> cmp \<Rightarrow> nat \<Rightarrow> world \<Rightarrow> elem \<Rightarrow> world \<Rightarrow> bool" where
  "renders_well env fe c i w e w' \<longleftrightarrow>
     render_instance env c i w = Inr (e, w') \<and> cmp_view fe w c i = Inr e \<and>
     render_change w w' \<and> cache_ok fe w' \<and>
     list_all (\<lambda>c'. cmp_ok w c' \<and> rank c' < rank c) (comps e) \<and>
     list_all (handler_ok w) (elem_handlers e)"

lemma Outer_Render_view:
  assumes "Outer_State o1 w = Inr s"
  shows "\<exists>w'. Outer_Render o1 w = Inr (outer_view o1 s, w') \<and> render_change w w' \<and> htmlCache w' = htmlCache w"
proof -
  let ?pc = "PreviewC \<lparr>PreviewProps.Current = current s\<rparr>"
    and ?cc = "ChooserC \<lparr>ChooserProps.Current = current s, Config = config s, Update = Some o1\<rparr>"
  obtain w1 where w1: "CreateElement ''PreviewDef'' ?pc w = (Comp ?pc, w1)"
    by (simp add: CreateElement_def)
  obtain w2 where w2: "CreateElement ''ChooserDef'' ?cc w1 = (Comp ?cc, w2)"
    by (simp add: CreateElement_def)
  have "Outer_Render o1 w = Inr (outer_view o1 s, w2)"
    using w1 w2 by (simp add: Outer_Render_def assms Preview_def Chooser_def buildPreviewElem_def
        buildChooserElem_def outer_view_def del: go_bind_Inr_iff)
  with CreateElement_change [OF w1] CreateElement_change [OF w2] show ?thesis
    by (auto intro: render_change_trans)
qed

lemma panel_props_ok:
  assumes "list_all2 (\<lambda>q c. deref (categories w) q = Inr c) cs hack_categories"
    and "k < length (choosers w)" and "j < length (outers w)" and "ChooserProps.Update p = Some (OuterDef j)"
    and "(i, c) \<in> set (zip [0..<length cs] cs)"
  shows "cmp_ok w (PanelC (panel_props (ChooserDef k) p st parts i c))"
proof -
  from assms(5) have "i < length cs" "c = cs ! i" by (auto simp: set_zip)
  with assms(1) have "i < length hack_categories" "deref (categories w) c = Inr (hack_categories ! i)"
    by (auto simp: list_all2_conv_all_nth)
  with assms(2-4) show ?thesis by (auto simp: cmp_ok_def panel_props_def)
qed

lemma render_ok:
  assumes env: "env_ok env fe" and wok: "world_ok fe w" and h: "holds w c i" and ok: "cmp_ok w c"
  shows "\<exists>e w'. renders_well env fe c i w e w'"
proof -
  have cache: "cache_ok fe w" using wok by (simp add: world_ok_def)
  show ?thesis
  proof (cases c)
    case OuterC
    with h have i: "i < length (outers w)" by (simp add: holds_def)
    then have "outer_inv hack_categories (OuterDef i) w" using wok by (simp add: world_ok_def)
    then obtain s where s: "Outer_State (OuterDef i) w = Inr s" "outer_state_ok hack_categories w s"
      unfolding outer_inv_def by blast
    obtain w' where w': "Outer_Render (OuterDef i) w = Inr (outer_view (OuterDef i) s, w')"
        "render_change w w'" "htmlCache w' = htmlCache w"
      using Outer_Render_view [OF s(1)] by blast
    have "cache_ok fe w'" using cache w'(3) by (simp add: cache_ok_def)
    moreover have "list_all (\<lambda>c'. cmp_ok w c' \<and> rank c' < rank c) (comps (outer_view (OuterDef i) s))"
      using s(2) i OuterC by (auto simp: outer_view_def cmp_ok_def outer_state_ok_def)
    moreover have "elem_handlers (outer_view (OuterDef i) s) = []" by (simp add: outer_view_def)
    ultimately show ?thesis using w'(1,2) s(1) OuterC
      unfolding renders_well_def render_instance_def cmp_view_def by (intro exI) auto
  next
    case (PreviewC p)
    with h have "PreviewDef_Render i w = Preview_Render p w"
      by (simp add: PreviewDef_Render_def Preview_Props_def comp_Props_def holds_def)
    moreover obtain e where "Preview_Render p w = Inr e"
      using ok PreviewC by (auto simp: cmp_ok_def Preview_Render_def)
    ultimately show ?thesis
      using PreviewC cache preview_static [of p w e]
      by (auto simp: renders_well_def render_instance_def cmp_view_def intro!: exI [of _ e] exI [of _ w])
  next
    case (PanelC p)
    with h have "PanelDef_Render i w = Panel_Render p w"
      by (simp add: PanelDef_Render_def Panel_Props_def comp_Props_def holds_def)
    moreover obtain e where "Panel_Render p w = Inr e"
      using ok PanelC Panel_Render_total by (auto simp: cmp_ok_def)
    ultimately show ?thesis
      using PanelC cache panel_handlers [of p w e] ok
      by (auto simp: renders_well_def render_instance_def cmp_view_def intro!: exI [of _ e] exI [of _ w])
  next
    case (ChooserC p)
    then have i: "i < length (choosers w)" "js_props (choosers w ! i) = Some p" using h by (simp_all add: holds_def)
    then obtain st where st: "Chooser_State (ChooserDef i) w = Inr st" "Chooser_Props (ChooserDef i) w = Inr p"
      using wok by (fastforce simp: world_ok_def Chooser_State_def Chooser_Props_def comp_State_def comp_Props_def)
    obtain cfg parts j where cfg: "deref (configs w) (ChooserProps.Config p) = Inr cfg"
        "list_all2 (\<lambda>q c. deref (categories w) q = Inr c) (Categories cfg) hack_categories"
      and parts: "gopher_parts w (ChooserProps.Current p) = Inr parts" "fits hack_categories parts"
      and j: "j < length (outers w)" "ChooserProps.Update p = Some (OuterDef j)"
      using ok ChooserC by (auto simp: cmp_ok_def config_ok_def go_map_Inr_iff)
    have "length (Categories cfg) \<le> length parts"
      using list_all2_lengthD [OF cfg(2)] fits_length [OF parts(2)] by simp
    from Chooser_Render_view [OF env cache st cfg(1) parts(1) this] obtain w' where
      w': "Chooser_Render (env_pf env) (ChooserDef i) w =
        Inr (chooser_view fe (ChooserDef i) p st parts (Categories cfg), w')" "render_change w w'" "cache_ok fe w'"
      by blast
    have "list_all (\<lambda>c'. cmp_ok w c' \<and> rank c' < rank c) (comps (chooser_view fe (ChooserDef i) p st parts (Categories cfg)))"
      using panel_props_ok [OF cfg(2) i(1) j] by (auto simp: chooser_view_parts [OF env] ChooserC list_all_iff)
    then show ?thesis
      using w' ChooserC st cfg(1) parts(1) i(1)
      by (auto simp: renders_well_def render_instance_def cmp_view_def chooser_view_parts [OF env] handler_ok_def)
  qed
qed

end
