(* ===== verification/Client_Update.thy ===== *)
theory Client_Update
  imports Client_Screen
begin

text \<open>
  Mounting, patching and forced updates keep the screen coherent: whatever is not rendered
  again already shows what rendering it again would show.
\<close>

section \<open>New and updated instances\<close>

lemma world_okI:
  assumes "world_ok fe w" and "evolves w w' R" and "cache_ok fe w'"
    and "\<And>j. j < length (outers w') \<Longrightarrow> j < length (outers w) \<and> outers w' ! j = outers w ! j \<or>
      outer_inv hack_categories (OuterDef j) w' \<and> js_props (outers w' ! j) = None"
    and "\<And>k. k < length (choosers w') \<Longrightarrow> k < length (choosers w) \<and> choosers w' ! k = choosers w ! k \<or>
      (\<exists>p st. js_props (choosers w' ! k) = Some p \<and> lastState (choosers w' ! k) = Some st \<and> cmp_ok w' (ChooserC p))"
  shows "world_ok fe w'"
proof -
  have "config_ok w' hackConfig_ptr hack_categories"
    using assms(1,2) config_ok_grows unfolding world_ok_def evolves_def by blast
  moreover have "outer_inv hack_categories (OuterDef j) w' \<and> js_props (outers w' ! j) = None"
    if "j < length (outers w')" for j
    using assms(4) [OF that] outer_inv_evolves [OF assms(2)] assms(1) unfolding world_ok_def by metis
  moreover have "\<exists>p st. js_props (choosers w' ! k) = Some p \<and> lastState (choosers w' ! k) = Some st \<and>
      cmp_ok w' (ChooserC p)" if "k < length (choosers w')" for k
    using assms(5) [OF that] cmp_ok_evolves [OF assms(2)] assms(1) unfolding world_ok_def by metis
  ultimately show ?thesis using assms(3) by (simp add: world_ok_def)
qed

lemma world_ok_change:
  assumes "world_ok fe w" and "render_change w w'" and "cache_ok fe w'"
  shows "world_ok fe w'"
  using render_change_same [OF assms(2)] render_change_evolves [OF assms(2), of "{}"]
  by (intro world_okI [OF assms(1) _ assms(3)]) auto

lemma drawable_hack: "drawable hack_categories"
proof -
  have "list_all (\<lambda>c. length (Options c) < 2 ^ 31) hack_categories"
    by (simp add: hack_categories_def length_hack_options)
  then show ?thesis by (simp add: drawable_def wf_hack_categories)
qed

lemma evolves_more:
  assumes "grows w w'" and "prefix_of (outers w) (outers w')" and "prefix_of (previews w) (previews w')"
    and "prefix_of (choosers w) (choosers w')" and "prefix_of (panels w) (panels w')"
    and "prefix_of (rands w) (rands w')"
  shows "evolves w w' {}"
proof -
  have nth: "i < length ys \<and> ys ! i = xs ! i" if "prefix_of xs ys" and "i < length xs"
    for xs ys :: "'z list" and i
    using prefix_of_deref [OF that(1), of "Some i" "xs ! i"] that(2) by (auto simp: deref_Inr_iff)
  have "exists_inst w' x \<and> same_inst w w' x" if "exists_inst w x" for x
    using that nth [OF assms(2)] nth [OF assms(3)] nth [OF assms(4)] nth [OF assms(5)] by (cases x) auto
  then show ?thesis using assms(1) prefix_of_deref [OF assms(6)] by (auto simp: evolves_def)
qed

text \<open>Mounting \<open>Outer\<close> gives it the default gopher.\<close>

lemma ComponentWillMount_ok:
  assumes "env_ok env fe" and "world_ok fe w" and "i = length (outers w)"
    and w1: "w1 = w\<lparr>outers := outers w @
        [getInitialState (Some \<lparr>current = None, config = None, rand = None\<rparr>) None]\<rparr>"
  shows "\<exists>g c. ComponentWillMount (env_src env) (env_now env) (OuterDef i) w1 =
      Inr (snd (new_gopher (default_parts hack_categories) w)
        \<lparr>outers := outers w @ [c], rands := rands w @ [new_Rand (env_src env) (env_now env)],
         pending := pending w @ [OuterI i]\<rparr>) \<and>
    c = \<lparr>js_props = None, lastState = Some \<lparr>current = g, config = hackConfig_ptr, rand = Some (length (rands w))\<rparr>\<rparr> \<and>
    g = fst (new_gopher (default_parts hack_categories) w)"
proof -
  have "config_ok w1 hackConfig_ptr hack_categories"
    using assms(2) by (simp add: w1 world_ok_def config_ok_def)
  from defaultGopher_ok [OF this wf_hack_categories]
  have d: "defaultGopher hackConfig_ptr w1 = Inr (new_gopher (default_parts hack_categories) w1)" .
  show ?thesis
    by (simp add: ComponentWillMount_def d [unfolded w1 getInitialState_def] w1 new_gopher_def Outer_SetState_def comp_SetState_def
        getInitialState_def assms(3) nth_append del: go_bind_Inr_iff)
qed

definition takes_place :: "elem \<Rightarrow> world \<Rightarrow> inst set \<Rightarrow> world \<Rightarrow> bool" where
  "takes_place fe w R w' \<longleftrightarrow> world_ok fe w' \<and> evolves w w' R \<and> settles w w'"

lemma takes_place_trans:
  "takes_place fe w1 R1 w2 \<Longrightarrow> takes_place fe w2 R2 w3 \<Longrightarrow> takes_place fe w1 (R1 \<union> R2) w3"
  unfolding takes_place_def using evolves_trans settles_trans by blast

lemma takes_place_change:
  "world_ok fe w \<Longrightarrow> render_change w w' \<Longrightarrow> cache_ok fe w' \<Longrightarrow> takes_place fe w {} w'"
  using world_ok_change render_change_evolves unfolding takes_place_def by blast

lemma new_outer_ok:
  assumes env: "env_ok env fe" and wok: "world_ok fe w"
  shows "\<exists>i w'. new_instance env OuterC w = Inr (i, w') \<and> takes_place fe w {} w' \<and> holds w' OuterC i \<and>
    \<not> exists_inst w (0, i)"
proof -
  let ?i = "length (outers w)"
  let ?g = "fst (new_gopher (default_parts hack_categories) w)"
  let ?c = "\<lparr>js_props = None, lastState = Some \<lparr>current = ?g, config = hackConfig_ptr, rand = Some (length (rands w))\<rparr>\<rparr>"
  let ?r = "new_Rand (env_src env) (env_now env)"
  define w' where "w' = snd (new_gopher (default_parts hack_categories) w)
    \<lparr>outers := outers w @ [?c], rands := rands w @ [?r], pending := pending w\<rparr>"
  have new: "new_instance env OuterC w = Inr (?i, w')"
    using ComponentWillMount_ok [OF env wok refl refl]
    by (auto simp: new_instance_def Let_def w'_def simp del: go_bind_Inr_iff)
  have ev: "evolves w w' {}"
    by (rule evolves_more) (simp_all add: w'_def new_gopher_def grows_def)
  have st: "settles w w'" by (simp add: w'_def settles_def new_gopher_def nth_append)
  have cfg: "config_ok w' hackConfig_ptr hack_categories"
    using wok ev config_ok_grows unfolding world_ok_def evolves_def by blast
  have "gopher_parts w' = gopher_parts (snd (new_gopher (default_parts hack_categories) w))"
    by (rule gopher_parts_same) (simp_all add: w'_def)
  then have parts: "gopher_parts w' ?g = Inr (default_parts hack_categories)" by simp
  have "Outer_State (OuterDef ?i) w' = Inr \<lparr>current = ?g, config = hackConfig_ptr, rand = Some (length (rands w))\<rparr>"
    by (simp add: w'_def Outer_State_def comp_State_def nth_append del: go_bind_Inr_iff)
  moreover have "outer_state_ok hack_categories w'
      \<lparr>current = ?g, config = hackConfig_ptr, rand = Some (length (rands w))\<rparr>"
    using cfg parts fits_default [OF wf_hack_categories] env
    by (simp add: outer_state_ok_def w'_def nth_append new_Rand_def env_ok_def)
  ultimately have inv: "outer_inv hack_categories (OuterDef ?i) w'"
    using drawable_hack by (simp add: outer_inv_def)
  have "world_ok fe w'"
  proof (rule world_okI [OF wok ev])
    show "cache_ok fe w'" using wok by (simp add: w'_def world_ok_def cache_ok_def new_gopher_def)
  next
    fix j assume "j < length (outers w')"
    then show "j < length (outers w) \<and> outers w' ! j = outers w ! j \<or>
        outer_inv hack_categories (OuterDef j) w' \<and> js_props (outers w' ! j) = None"
      using inv by (cases "j = ?i") (auto simp: w'_def nth_append)
  qed (simp add: w'_def new_gopher_def)
  with new ev st show ?thesis
    by (auto simp: takes_place_def holds_def w'_def nth_append)
qed

lemma new_instance_ok:
  assumes env: "env_ok env fe" and wok: "world_ok fe w" and ok: "cmp_ok w c"
  shows "\<exists>i w'. new_instance env c w = Inr (i, w') \<and> takes_place fe w {} w' \<and> holds w' c i \<and>
    \<not> exists_inst w (class_no c, i)"
proof -
  have cache: "cache_ok fe w" using wok by (simp add: world_ok_def)
  show ?thesis
  proof (cases c)
    case OuterC
    then show ?thesis using new_outer_ok [OF env wok] by simp
  next
    case (PreviewC p)
    let ?w = "w\<lparr>previews := previews w @ [getInitialState None (Some p)]\<rparr>"
    have ev: "evolves w ?w {}" by (rule evolves_more) (simp_all add: grows_def)
    moreover have "world_ok fe ?w"
      using cache by (intro world_okI [OF wok ev]) (simp_all add: cache_ok_def)
    ultimately show ?thesis using PreviewC
      by (simp add: new_instance_def takes_place_def settles_def holds_def getInitialState_def)
  next
    case (PanelC p)
    let ?w = "w\<lparr>panels := panels w @ [getInitialState None (Some p)]\<rparr>"
    have ev: "evolves w ?w {}" by (rule evolves_more) (simp_all add: grows_def)
    moreover have "world_ok fe ?w"
      using cache by (intro world_okI [OF wok ev]) (simp_all add: cache_ok_def)
    ultimately show ?thesis using PanelC
      by (simp add: new_instance_def takes_place_def settles_def holds_def getInitialState_def)
  next
    case (ChooserC p)
    let ?w = "w\<lparr>choosers := choosers w @ [getInitialState (Some \<lparr>open = 0\<rparr>) (Some p)]\<rparr>"
    have ev: "evolves w ?w {}" by (rule evolves_more) (simp_all add: grows_def)
    have "cmp_ok ?w (ChooserC p)" using cmp_ok_evolves [OF ev] ok ChooserC by simp
    with cache have "world_ok fe ?w"
      by (intro world_okI [OF wok ev]) (auto simp: cache_ok_def getInitialState_def nth_append less_Suc_eq)
    with ev ChooserC show ?thesis
      by (simp add: new_instance_def takes_place_def settles_def holds_def getInitialState_def nth_append)
  qed
qed

text \<open>An update of one component instance among the others.\<close>

lemma evolves_update:
  assumes "grows w w'" and "\<And>x. exists_inst w x = exists_inst w' x" and "rands w' = rands w"
    and "\<And>x. x \<notin> R \<Longrightarrow> same_inst w w' x"
  shows "evolves w w' R"
  using assms unfolding evolves_def by auto

lemma same_props [simp]: "js_props inst = p \<Longrightarrow> inst\<lparr>js_props := p\<rparr> = inst"
  by (cases inst) simp

lemma receive_preview:
  assumes wok: "world_ok fe w" and h: "holds w (PreviewC p') i"
  shows "\<exists>w'. receive_props (PreviewC p) i w = Inr (p' \<noteq> p, w') \<and> takes_place fe w {(1, i)} w' \<and>
    holds w' (PreviewC p) i \<and> (p' = p \<longrightarrow> w' = w)"
proof -
  from h have i: "i < length (previews w)" "js_props (previews w ! i) = Some p'" by (simp_all add: holds_def)
  let ?w = "w\<lparr>previews := (previews w)[i := (previews w ! i)\<lparr>js_props := Some p\<rparr>]\<rparr>"
  have "receive_props (PreviewC p) i w = Inr (p' \<noteq> p, ?w)"
    by (simp add: receive_props_def i updateClassInstance_def shouldComponentUpdate_def del: go_bind_Inr_iff)
  moreover have ev: "evolves w ?w {(1, i)}"
  proof (rule evolves_update)
    show "exists_inst w x = exists_inst ?w x" for x by (cases x) simp
    show "x \<notin> {(1, i)} \<Longrightarrow> same_inst w ?w x" for x by (cases x) (auto simp: nth_list_update)
  qed (simp_all add: grows_def)
  moreover have "world_ok fe ?w"
    using wok by (intro world_okI [OF wok ev]) (simp_all add: cache_ok_def world_ok_def)
  ultimately show ?thesis
    using i by (auto simp: takes_place_def settles_def holds_def nth_list_update)
qed

lemma receive_panel:
  assumes wok: "world_ok fe w" and h: "holds w (PanelC p') i"
  shows "\<exists>w'. receive_props (PanelC p) i w = Inr (p' \<noteq> p, w') \<and> takes_place fe w {(3, i)} w' \<and>
    holds w' (PanelC p) i \<and> (p' = p \<longrightarrow> w' = w)"
proof -
  from h have i: "i < length (panels w)" "js_props (panels w ! i) = Some p'" by (simp_all add: holds_def)
  let ?w = "w\<lparr>panels := (panels w)[i := (panels w ! i)\<lparr>js_props := Some p\<rparr>]\<rparr>"
  have "receive_props (PanelC p) i w = Inr (p' \<noteq> p, ?w)"
    by (simp add: receive_props_def i updateClassInstance_def shouldComponentUpdate_def del: go_bind_Inr_iff)
  moreover have ev: "evolves w ?w {(3, i)}"
  proof (rule evolves_update)
    show "exists_inst w x = exists_inst ?w x" for x by (cases x) simp
    show "x \<notin> {(3, i)} \<Longrightarrow> same_inst w ?w x" for x by (cases x) (auto simp: nth_list_update)
  qed (simp_all add: grows_def)
  moreover have "world_ok fe ?w"
    using wok by (intro world_okI [OF wok ev]) (simp_all add: cache_ok_def world_ok_def)
  ultimately show ?thesis
    using i by (auto simp: takes_place_def settles_def holds_def nth_list_update)
qed

lemma receive_chooser:
  assumes wok: "world_ok fe w" and h: "holds w (ChooserC p') i" and ok: "cmp_ok w (ChooserC p)"
  shows "\<exists>w'. receive_props (ChooserC p) i w = Inr (p' \<noteq> p, w') \<and> takes_place fe w {(2, i)} w' \<and>
    holds w' (ChooserC p) i \<and> (p' = p \<longrightarrow> w' = w)"
proof -
  from h have i: "i < length (choosers w)" "js_props (choosers w ! i) = Some p'" by (simp_all add: holds_def)
  let ?w = "w\<lparr>choosers := (choosers w)[i := (choosers w ! i)\<lparr>js_props := Some p\<rparr>]\<rparr>"
  have "receive_props (ChooserC p) i w = Inr (p' \<noteq> p, ?w)"
    by (simp add: receive_props_def i updateClassInstance_def shouldComponentUpdate_def del: go_bind_Inr_iff)
  moreover have ev: "evolves w ?w {(2, i)}"
  proof (rule evolves_update)
    show "exists_inst w x = exists_inst ?w x" for x by (cases x) simp
    show "x \<notin> {(2, i)} \<Longrightarrow> same_inst w ?w x" for x by (cases x) (auto simp: nth_list_update)
  qed (simp_all add: grows_def)
  moreover have "world_ok fe ?w"
  proof (rule world_okI [OF wok ev])
    obtain st where "lastState (choosers w ! i) = Some st" using wok i by (auto simp: world_ok_def)
    with cmp_ok_evolves [OF ev ok] show "k < length (choosers w) \<and> choosers ?w ! k = choosers w ! k \<or>
        (\<exists>p st. js_props (choosers ?w ! k) = Some p \<and> lastState (choosers ?w ! k) = Some st \<and>
           cmp_ok ?w (ChooserC p))" if "k < length (choosers ?w)" for k
      using that by (cases "k = i") simp_all
  qed (use wok in \<open>simp_all add: cache_ok_def world_ok_def\<close>)
  ultimately show ?thesis
    using i by (auto simp: takes_place_def settles_def holds_def nth_list_update)
qed

lemma receive_ok:
  assumes wok: "world_ok fe w" and h: "holds w c' i" and cls: "same_class c c'" and ok: "cmp_ok w c"
  shows "\<exists>su w'. receive_props c i w = Inr (su, w') \<and> takes_place fe w {(class_no c, i)} w' \<and>
    holds w' c i \<and> (\<not> su \<longrightarrow> w' = w \<and> c = c')"
proof (cases c)
  case OuterC
  with cls have c': "c' = OuterC" by (cases c') auto
  with h have i: "i < length (outers w)" "js_props (outers w ! i) = None" by (simp_all add: holds_def)
  then have "receive_props c i w = Inr (False, w)"
    by (simp add: receive_props_def OuterC updateClassInstance_def shouldComponentUpdate_def del: go_bind_Inr_iff)
  with wok h c' OuterC show ?thesis by (auto simp: takes_place_def)
next
  case (PreviewC p)
  with cls obtain p' where "c' = PreviewC p'" by (cases c') auto
  with PreviewC h receive_preview [OF wok, of p' i p] show ?thesis by auto
next
  case (PanelC p)
  with cls obtain p' where "c' = PanelC p'" by (cases c') auto
  with PanelC h receive_panel [OF wok, of p' i p] show ?thesis by auto
next
  case (ChooserC p)
  with cls obtain p' where "c' = ChooserC p'" by (cases c') auto
  with ChooserC h ok receive_chooser [OF wok, of p' i p] show ?thesis by auto
qed

section \<open>Coherence\<close>

declare exists_inst.simps [simp del] same_inst.simps [simp del]

text \<open>
  Every component on the screen has the props of its element and shows its view. The
  instance \<open>x\<close>, if any, is excepted: it is about to be rendered and may still show the view
  of a former world.
\<close>

fun coherent :: "elem \<Rightarrow> inst_ref option \<Rightarrow> world \<Rightarrow> tree \<Rightarrow> bool" where
  "coherent fe x w (TS s) = True"
| "coherent fe x w (TElem ty props ts) = list_all (coherent fe x w) ts"
| "coherent fe x w (TComp c i t) \<longleftrightarrow> holds w c i \<and> cmp_ok w c \<and>
     (\<exists>w0 e. cmp_ok w0 c \<and> cmp_view fe w0 c i = Inr e \<and> displays t e \<and>
        (x \<noteq> None \<and> inst_of c i = x \<or> w0 = w)) \<and>
     coherent fe x w t"

lemma coherent_exists: "coherent fe x w t \<Longrightarrow> y \<in> set (insts t) \<Longrightarrow> exists_inst w y"
proof (induction t)
  case (TComp c i t)
  then show ?case by (auto simp: holds_def)
qed (auto simp: list_all_iff)

lemma coherent_exists_list:
  "list_all (coherent fe x w) ts \<Longrightarrow> y \<in> set (concat (map insts ts)) \<Longrightarrow> exists_inst w y"
  by (auto simp: list_all_iff intro: coherent_exists)

lemma coherent_evolves:
  "coherent fe x w t \<Longrightarrow> evolves w w' R \<Longrightarrow> set (insts t) \<inter> R = {} \<Longrightarrow> coherent fe x w' t"
proof (induction t)
  case (TElem ty props ts)
  then show ?case by (fastforce simp: list_all_iff)
next
  case (TComp c i t)
  then have "holds w c i" "(class_no c, i) \<notin> R" by auto
  moreover from this(1) have "exists_inst w (class_no c, i)" by (simp add: holds_def)
  ultimately show ?case
    using TComp holds_evolves [OF TComp.prems(2)] cmp_ok_evolves [OF TComp.prems(2)]
      cmp_view_evolves [OF TComp.prems(2), of c i fe] by auto blast
qed simp

text \<open>Without the excepted instance below, nothing is excepted.\<close>

lemma coherent_all:
  assumes "coherent fe (Some r) w t" and "\<And>c i. inst_of c i = Some r \<Longrightarrow> (class_no c, i) \<notin> set (insts t)"
  shows "coherent fe None w t"
  using assms
proof (induction t)
  case (TElem ty props ts)
  then show ?case by (fastforce simp: list_all_iff)
next
  case (TComp c i t)
  then have "inst_of c i \<noteq> Some r" by fastforce
  with TComp show ?case by auto
qed simp

text \<open>Everything that can be clicked on the screen is in order.\<close>

lemma coherent_handlers:
  assumes env: "env_ok env fe" and wok: "world_ok fe w"
  shows "coherent fe None w t \<Longrightarrow> displays t e \<Longrightarrow> list_all (handler_ok w) (elem_handlers e) \<Longrightarrow>
    h \<in> set (tree_handlers t) \<Longrightarrow> handler_ok w h"
proof (induction t arbitrary: e)
  case (TElem ty props ts)
  then obtain es where e: "e = Elem ty props es" "list_all2 displays ts es" by auto
  show ?case
  proof (cases "h \<in> set (handler_of props)")
    case True
    with TElem.prems(3) e show ?thesis by (auto simp: list_all_iff)
  next
    case False
    with TElem.prems(4) obtain t where t: "t \<in> set ts" "h \<in> set (tree_handlers t)" by auto
    with e(2) obtain e' where e': "e' \<in> set es" "displays t e'"
      by (metis in_set_conv_nth list_all2_conv_all_nth)
    have "coherent fe None w t" "list_all (handler_ok w) (elem_handlers e')"
      using TElem.prems(1,3) t(1) e(1) e'(1) by (auto simp: list_all_iff)
    from TElem.IH [OF t(1) this(1) e'(2) this(2) t(2)] show ?thesis .
  qed
next
  case (TComp c i t)
  obtain e1 where e1: "cmp_view fe w c i = Inr e1" "displays t e1" using TComp.prems(1) by auto
  moreover obtain e2 w2 where "renders_well env fe c i w e2 w2"
    using render_ok [OF env wok, of c i] TComp.prems(1) by auto
  ultimately have "list_all (handler_ok w) (elem_handlers e1)" by (auto simp: renders_well_def)
  with TComp e1 show ?case by auto
qed auto

section \<open>Mounting\<close>

text \<open>The trees \<open>ts\<close> now show the elements \<open>es\<close>; of the instances there were, those in
  \<open>R\<close> may have been changed and may be used.\<close>

definition placed :: "elem \<Rightarrow> world \<Rightarrow> inst set \<Rightarrow> tree list \<Rightarrow> elem list \<Rightarrow> world \<Rightarrow> bool" where
  "placed fe w R ts es w' \<longleftrightarrow> takes_place fe w R w' \<and> list_all (coherent fe None w') ts \<and>
     list_all2 displays ts es \<and> distinct (concat (map insts ts)) \<and>
     (\<forall>x \<in> set (concat (map insts ts)). x \<in> R \<or> \<not> exists_inst w x)"

lemma placed_Nil: "world_ok fe w \<Longrightarrow> placed fe w R [] [] w"
  by (simp add: placed_def takes_place_def)

lemma placed_cons:
  assumes t: "placed fe w R1 [t] [e] w1" and ts: "placed fe w1 R2 ts es w2"
    and disj: "R1 \<inter> R2 = {}" and ex: "\<And>x. x \<in> R2 \<Longrightarrow> exists_inst w x"
  shows "placed fe w (R1 \<union> R2) (t # ts) (e # es) w2"
proof -
  have t': "set (insts t) \<subseteq> R1 \<union> {x. \<not> exists_inst w x}" and coh: "coherent fe None w1 t"
    using t by (auto simp: placed_def)
  have ts': "set (concat (map insts ts)) \<subseteq> R2 \<union> {x. \<not> exists_inst w1 x}"
    using ts by (auto simp: placed_def)
  have ev1: "evolves w w1 R1" and ev: "evolves w1 w2 R2" using t ts by (auto simp: placed_def takes_place_def)
  have "set (insts t) \<inter> R2 = {}" using t' disj ex by auto
  then have "coherent fe None w2 t" by (rule coherent_evolves [OF coh ev])
  moreover have "set (insts t) \<inter> set (concat (map insts ts)) = {}"
    using \<open>set (insts t) \<inter> R2 = {}\<close> ts' coherent_exists [OF coh] by blast
  moreover have "\<not> exists_inst w x" if "\<not> exists_inst w1 x" for x using evolves_exists [OF ev1] that by blast
  ultimately show ?thesis
    using t ts t' ts' takes_place_trans [of fe w R1 w1 R2 w2] unfolding placed_def by auto
qed

lemma placed_elem:
  "placed fe w R ts es w' \<Longrightarrow> placed fe w R [TElem ty props ts] [Elem ty props es] w'"
  by (auto simp: placed_def)

lemma placed_mono: "placed fe w R ts es w' \<Longrightarrow> R \<subseteq> R' \<Longrightarrow> placed fe w R' ts es w'"
  unfolding placed_def takes_place_def using evolves_mono by blast

text \<open>Below a component: first the instance has been made ready, then rendered, then what it
  rendered has been put in place.\<close>

lemma placed_comp:
  assumes ready: "takes_place fe w R0 w1" "holds w1 c i" "cmp_ok w c"
    and rnd: "renders_well env fe c i w1 e w2" and below: "placed fe w2 R [t] [e] w3"
    and i: "(class_no c, i) \<in> R0 \<or> \<not> exists_inst w (class_no c, i)" "(class_no c, i) \<notin> R"
    and R: "\<And>x. x \<in> R \<Longrightarrow> exists_inst w x"
  shows "placed fe w (R0 \<union> R) [TComp c i t] [Comp c] w3"
proof -
  have w1: "world_ok fe w1" using ready by (simp add: takes_place_def)
  have w2: "takes_place fe w1 {} w2"
    using rnd w1 takes_place_change unfolding renders_well_def by blast
  have w3: "takes_place fe w2 R w3" using below by (simp add: placed_def)
  have w13: "evolves w1 w3 R"
    using evolves_trans [of w1 w2 "{}" w3 R] w2 w3 by (simp add: takes_place_def)
  have ex1: "exists_inst w1 (class_no c, i)" using ready(2) by (simp add: holds_def)
  have tp: "takes_place fe w (R0 \<union> R) w3"
    using takes_place_trans [OF ready(1) takes_place_trans [OF w2 w3]] by simp
  have old: "\<not> exists_inst w x" if "\<not> exists_inst w2 x" for x
    using evolves_exists [of w w1 R0 x] evolves_exists [of w1 w2 "{}" x] ready(1) w2 that
    by (auto simp: takes_place_def)
  have "exists_inst w2 (class_no c, i)"
    using evolves_exists [OF _ ex1, of w2 "{}"] w2 by (simp add: takes_place_def)
  then have fresh: "(class_no c, i) \<notin> set (insts t)" using below i(2) by (auto simp: placed_def)
  have "holds w3 c i" using holds_evolves [OF w13 ready(2) i(2)] .
  moreover have "cmp_ok w3 c" using cmp_ok_evolves ready(3) tp unfolding takes_place_def by blast
  moreover have "cmp_view fe w3 c i = Inr e"
    using cmp_view_evolves [OF w13 ex1 i(2)] rnd by (simp add: renders_well_def)
  ultimately show ?thesis using tp below fresh old i(1) by (auto simp: placed_def)
qed

definition elem_fits :: "world \<Rightarrow> nat \<Rightarrow> elem \<Rightarrow> bool" where
  "elem_fits w n e \<longleftrightarrow> list_all (\<lambda>c. cmp_ok w c \<and> rank c \<le> n) (comps e)"

lemma elem_fits_evolves: "elem_fits w n e \<Longrightarrow> takes_place fe w R w' \<Longrightarrow> elem_fits w' n e"
  using cmp_ok_evolves unfolding elem_fits_def takes_place_def list_all_iff by blast

lemma elem_fits_rendered:
  assumes "renders_well env fe c i w e w'" and "world_ok fe w" and "rank c \<le> Suc n"
  shows "elem_fits w' n e"
proof -
  have "takes_place fe w {} w'"
    using assms(1,2) takes_place_change unfolding renders_well_def by blast
  moreover have "elem_fits w n e" using assms(1,3) by (auto simp: renders_well_def elem_fits_def list_all_iff)
  ultimately show ?thesis by (rule elem_fits_evolves [rotated])
qed

lemma takes_place_ok: "takes_place fe w R w' \<Longrightarrow> world_ok fe w'"
  by (simp add: takes_place_def)

lemma placed_ok: "placed fe w R ts es w' \<Longrightarrow> world_ok fe w'"
  by (simp add: placed_def takes_place_def)

lemma mount_placed:
  "env_ok env fe \<Longrightarrow> world_ok fe w \<Longrightarrow> elem_fits w n e \<Longrightarrow> \<exists>t w'. mount env n e w = Inr (t, w') \<and> placed fe w {} [t] [e] w'"
  "env_ok env fe \<Longrightarrow> world_ok fe w \<Longrightarrow> list_all (elem_fits w n) es \<Longrightarrow>
      \<exists>ts w'. mount_list env n es w = Inr (ts, w') \<and> placed fe w {} ts es w'"
proof (induction env n e w and env n es w rule: mount_mount_list.induct)
  case (1 env n s w)
  then show ?case by (simp add: placed_def takes_place_def)
next
  case (2 env n ty props es w)
  then have "list_all (elem_fits w n) es" by (auto simp: elem_fits_def list_all_iff)
  with 2 obtain ts w' where "mount_list env n es w = Inr (ts, w')" "placed fe w {} ts es w'" by blast
  then show ?case using placed_elem by auto
next
  case (3 env c w)
  then show ?case by (cases c) (simp_all add: elem_fits_def)
next
  case (4 env n c w)
  have ok: "cmp_ok w c" "rank c \<le> Suc n" using "4.prems"(3) by (simp_all add: elem_fits_def)
  obtain i w1 where i: "new_instance env c w = Inr (i, w1)" "takes_place fe w {} w1" "holds w1 c i"
      "\<not> exists_inst w (class_no c, i)"
    using new_instance_ok [OF "4.prems"(1,2) ok(1)] by blast
  have "cmp_ok w1 c" using cmp_ok_evolves ok(1) i(2) unfolding takes_place_def by blast
  with i obtain e w2 where e: "renders_well env fe c i w1 e w2"
    using render_ok [OF "4.prems"(1) takes_place_ok [OF i(2)]] by blast
  then have r: "render_instance env c i w1 = Inr (e, w2)" by (simp add: renders_well_def)
  have "world_ok fe w2"
    using e takes_place_ok [OF i(2)] world_ok_change unfolding renders_well_def by blast
  with "4.IH" [OF i(1) refl r refl "4.prems"(1)] elem_fits_rendered [OF e takes_place_ok [OF i(2)] ok(2)]
  obtain t w3 where "mount env n e w2 = Inr (t, w3)" "placed fe w2 {} [t] [e] w3" by blast
  with i r placed_comp [OF i(2,3) ok(1) e] show ?case by auto
next
  case (5 env n w)
  then show ?case by (simp add: placed_Nil)
next
  case (6 env n e es w)
  then obtain t w1 where t: "mount env n e w = Inr (t, w1)" "placed fe w {} [t] [e] w1" by auto
  have "list_all (elem_fits w1 n) es"
    using "6.prems"(3) t(2) elem_fits_evolves by (auto simp: list_all_iff placed_def)
  with "6.IH"(2) [OF t(1) refl "6.prems"(1) placed_ok [OF t(2)]] obtain ts w2 where
    "mount_list env n es w1 = Inr (ts, w2)" "placed fe w1 {} ts es w2" by blast
  with t placed_cons [OF t(2)] show ?case by fastforce
qed

section \<open>Instances stay\<close>

text \<open>
  Two elements with components of the same classes in the same places, or without components
  altogether: patching one into the other keeps every instance.
\<close>

fun same_shape :: "elem \<Rightarrow> elem \<Rightarrow> bool" where
  "same_shape (S s) e \<longleftrightarrow> (\<exists>s'. e = S s')"
| "same_shape (Elem ty props es) e \<longleftrightarrow> (\<exists>props' es'. e = Elem ty props' es' \<and> list_all2 same_shape es es')"
| "same_shape (Comp c) e \<longleftrightarrow> (\<exists>c'. e = Comp c' \<and> same_class c' c)"

definition alike :: "elem \<Rightarrow> elem \<Rightarrow> bool" where
  "alike e e' \<longleftrightarrow> same_shape e e' \<or> comps e = [] \<and> comps e' = []"

lemma same_shape_refl [simp]: "same_shape e e"
proof (induction e)
  case (Comp c)
  then show ?case by (cases c) simp_all
qed (auto simp: list_all2_conv_all_nth)

lemma mount_no_comps:
  "comps e = [] \<Longrightarrow> mount env n e w = Inr (t, w') \<Longrightarrow> insts t = []"
  "concat (map comps es) = [] \<Longrightarrow> mount_list env n es w = Inr (ts, w') \<Longrightarrow> concat (map insts ts) = []"
  by (induction env n e w and env n es w arbitrary: t w' and ts w' rule: mount_mount_list.induct) fastforce+

lemma patch_no_comps:
  "comps e = [] \<Longrightarrow> patch env n t e w = Inr (t', w') \<Longrightarrow> insts t' = []"
  "concat (map comps es) = [] \<Longrightarrow> patch_list env n ts es w = Inr (ts', w') \<Longrightarrow> concat (map insts ts') = []"
proof (induction env n t e w and env n ts es w arbitrary: t' w' and ts' w' rule: patch_patch_list.induct)
  case (2 env n t ty props es w)
  show ?case
  proof (cases "\<exists>props' ts. t = TElem ty props' ts")
    case True
    with 2 show ?thesis by fastforce
  next
    case False
    then have "patch env n t (Elem ty props es) w = mount env n (Elem ty props es) w"
      by (auto split: tree.split)
    with 2 mount_no_comps(1) show ?thesis by metis
  qed
next
  case (6 env n e es w)
  then show ?case using mount_no_comps(2) [of "e # es"] by simp
qed fastforce+

lemma displays_no_comps: "displays t e \<Longrightarrow> comps e = [] \<Longrightarrow> insts t = []"
proof (induction t arbitrary: e)
  case (TElem ty props ts)
  then obtain es where es: "e = Elem ty props es" "list_all2 displays ts es" by auto
  have "insts t = []" if "t \<in> set ts" for t
  proof -
    obtain e' where "e' \<in> set es" "displays t e'"
      using es(2) \<open>t \<in> set ts\<close> by (metis in_set_conv_nth list_all2_conv_all_nth)
    with TElem.IH [OF that] TElem.prems(2) es(1) show ?thesis by auto
  qed
  then show ?case by simp
qed auto

text \<open>The views of one class are alike.\<close>

lemma chooser_views_alike:
  assumes "length cs = length cs'"
  shows "same_shape (chooser_view fe ch p st parts cs) (chooser_view fe ch' p' st' parts' cs')"
proof -
  have "list_all2 same_shape
      (map (\<lambda>(j, c). Comp (PanelC (panel_props ch p st parts j c))) (zip [0..<length cs] cs))
      (map (\<lambda>(j, c). Comp (PanelC (panel_props ch' p' st' parts' j c))) (zip [0..<length cs'] cs'))"
    using assms by (auto simp: list_all2_conv_all_nth)
  then show ?thesis
    by (simp add: chooser_view_def chooser_args_def react_elem_defs createElement_def)
qed

lemma views_alike:
  assumes "cmp_view fe w c i = Inr e" and "cmp_view fe w' c' i' = Inr e'" and "same_class c' c"
    and "cmp_ok w c" and "cmp_ok w' c'"
  shows "alike e e'"
proof (cases c)
  case OuterC
  with assms(3) have "c' = OuterC" by (cases c') auto
  with OuterC assms(1,2) show ?thesis
    by (auto simp: cmp_view_def outer_view_def alike_def react_Div_def createElement_def rprops_of_def)
next
  case (PreviewC p)
  with assms(3) obtain p' where "c' = PreviewC p'" by (cases c') auto
  with PreviewC assms(1,2) preview_static show ?thesis by (auto simp: cmp_view_def alike_def)
next
  case (PanelC p)
  with assms(3) obtain p' where "c' = PanelC p'" by (cases c') auto
  with PanelC assms(1,2,4,5) panel_handlers(1) show ?thesis by (auto simp: cmp_view_def alike_def)
next
  case (ChooserC p)
  with assms(3) obtain p' where c': "c' = ChooserC p'" by (cases c') auto
  have len: "length (Categories cfg) = length hack_categories"
    if "cmp_ok v (ChooserC q)" "deref (configs v) (ChooserProps.Config q) = Inr cfg" for v q cfg
    using that by (auto simp: cmp_ok_def config_ok_def dest: go_map_length)
  show ?thesis
    using ChooserC c' assms(1,2,4,5) len chooser_views_alike
    by (auto simp: cmp_view_def alike_def)
qed

definition keeps :: "tree list \<Rightarrow> elem list \<Rightarrow> tree list \<Rightarrow> bool" where
  "keeps ts es ts' \<longleftrightarrow> (\<forall>es0. list_all2 displays ts es0 \<and> list_all2 same_shape es0 es \<longrightarrow>
     concat (map insts ts') = concat (map insts ts))"

lemma keeps_alike:
  assumes "patch env n t e w = Inr (t', w')" and "keeps [t] [e] [t']" and "displays t e0" and "alike e0 e"
  shows "insts t' = insts t"
  using assms(4) unfolding alike_def
proof
  assume "same_shape e0 e"
  with assms(2,3) show ?thesis by (auto simp: keeps_def dest: spec [of _ "[e0]"])
next
  assume "comps e0 = [] \<and> comps e = []"
  with patch_no_comps(1) [OF _ assms(1)] displays_no_comps [OF assms(3)] show ?thesis by simp
qed

lemma keeps_cons: "keeps [t] [e] [t'] \<Longrightarrow> keeps ts es ts' \<Longrightarrow> keeps (t # ts) (e # es) (t' # ts')"
  by (fastforce simp: keeps_def list_all2_Cons1 list_all2_Cons2)

lemma keeps_elem:
  assumes "keeps ts es ts'"
  shows "keeps [TElem ty props' ts] [Elem ty props es] [TElem ty props ts']"
  using assms by (fastforce simp: keeps_def list_all2_Cons1 list_all2_Cons2)

section \<open>Patching\<close>

lemma renders_well_view: "renders_well env fe c i w e w' \<Longrightarrow> cmp_view fe w c i = Inr e"
  by (simp add: renders_well_def)

lemma placed_same:
  "world_ok fe w \<Longrightarrow> coherent fe None w t \<Longrightarrow> distinct (insts t) \<Longrightarrow> displays t e \<Longrightarrow>
   placed fe w (set (insts t)) [t] [e] w"
  by (simp add: placed_def takes_place_def)

text \<open>One kept component: its instance receives the new props and is rendered again if they
  differ from the old ones.\<close>

lemma patch_comp_placed:
  assumes env: "env_ok env fe" and wok: "world_ok fe w" and ok: "cmp_ok w c" "rank c \<le> Suc n"
    and coh: "coherent fe None w (TComp c' i t)" "distinct (insts (TComp c' i t))" and cls: "same_class c c'"
    and below: "\<And>w1 e w2. receive_props c i w = Inr (True, w1) \<Longrightarrow>
      render_instance env c i w1 = Inr (e, w2) \<Longrightarrow> world_ok fe w2 \<Longrightarrow> elem_fits w2 n e \<Longrightarrow>
      coherent fe None w2 t \<Longrightarrow> \<exists>t' w3. patch env n t e w2 = Inr (t', w3) \<and>
        placed fe w2 (set (insts t)) [t'] [e] w3 \<and> keeps [t] [e] [t']"
  shows "\<exists>t' w'. patch env (Suc n) (TComp c' i t) (Comp c) w = Inr (t', w') \<and>
    placed fe w (set (insts (TComp c' i t))) [t'] [Comp c] w' \<and> keeps [TComp c' i t] [Comp c] [t']"
proof -
  have no: "class_no c = class_no c'" using cls by (cases c; cases c') auto
  have i: "holds w c' i" "coherent fe None w t" using coh(1) by simp_all
  obtain e0 where e0: "cmp_view fe w c' i = Inr e0" "displays t e0" "cmp_ok w c'" using coh(1) by auto
  obtain su w1 where r: "receive_props c i w = Inr (su, w1)" "takes_place fe w {(class_no c, i)} w1"
      "holds w1 c i" "\<not> su \<longrightarrow> w1 = w \<and> c = c'"
    using receive_ok [OF wok i(1) cls ok(1)] by blast
  show ?thesis
  proof (cases su)
    case False
    with r coh have "patch env (Suc n) (TComp c' i t) (Comp c) w = Inr (TComp c' i t, w)"
      "displays (TComp c' i t) (Comp c)" using cls by auto
    moreover have "keeps [TComp c' i t] [Comp c] [TComp c' i t]" by (simp add: keeps_def)
    ultimately show ?thesis using placed_same [OF wok coh] by blast
  next
    case True
    have rcv: "receive_props c i w = Inr (True, w1)" using r(1) True by simp
    have "cmp_ok w1 c" using cmp_ok_evolves ok(1) r(2) unfolding takes_place_def by blast
    with r obtain e w2 where e: "renders_well env fe c i w1 e w2"
      using render_ok [OF env takes_place_ok [OF r(2)]] by blast
    have tp: "takes_place fe w1 {} w2"
      using e takes_place_ok [OF r(2)] takes_place_change unfolding renders_well_def by blast
    have "takes_place fe w {(class_no c, i)} w2" using takes_place_trans [OF r(2) tp] by simp
    then have "coherent fe None w2 t"
      using coherent_evolves [OF i(2), of w2 "{(class_no c, i)}"] coh(2) no by (simp add: takes_place_def)
    moreover have rnd: "render_instance env c i w1 = Inr (e, w2)" using e by (simp add: renders_well_def)
    ultimately obtain t' w3 where t': "patch env n t e w2 = Inr (t', w3)"
        "placed fe w2 (set (insts t)) [t'] [e] w3" "keeps [t] [e] [t']"
      using below [OF rcv rnd takes_place_ok [OF tp] elem_fits_rendered [OF e takes_place_ok [OF r(2)] ok(2)]] by blast
    have "placed fe w ({(class_no c, i)} \<union> set (insts t)) [TComp c i t'] [Comp c] w3"
      using placed_comp [OF r(2,3) ok(1) e t'(2)] coh(2) no coherent_exists [OF i(2)] by auto
    moreover have "alike e0 e"
      by (rule views_alike [OF e0(1) renders_well_view [OF e] cls e0(3) \<open>cmp_ok w1 c\<close>])
    then have "insts t' = insts t" by (rule keeps_alike [OF t'(1,3) e0(2)])
    ultimately show ?thesis using r(1) t'(1) rnd True cls no by (auto simp: keeps_def)
  qed
qed

lemma mount_placed_any:
  assumes "env_ok env fe" and "world_ok fe w" and "elem_fits w n e"
  shows "\<exists>t w'. mount env n e w = Inr (t, w') \<and> placed fe w R [t] [e] w'"
  using mount_placed(1) [OF assms] placed_mono [of fe w "{}"] by blast

lemma patch_placed:
  "env_ok env fe \<Longrightarrow> world_ok fe w \<Longrightarrow> elem_fits w n e \<Longrightarrow> coherent fe None w t \<Longrightarrow> distinct (insts t) \<Longrightarrow>
     \<exists>t' w'. patch env n t e w = Inr (t', w') \<and> placed fe w (set (insts t)) [t'] [e] w' \<and> keeps [t] [e] [t']"
  "env_ok env fe \<Longrightarrow> world_ok fe w \<Longrightarrow> list_all (elem_fits w n) es \<Longrightarrow> list_all (coherent fe None w) ts \<Longrightarrow>
     distinct (concat (map insts ts)) \<Longrightarrow>
     \<exists>ts' w'. patch_list env n ts es w = Inr (ts', w') \<and> placed fe w (set (concat (map insts ts))) ts' es w' \<and>
       keeps ts es ts'"
proof (induction env n t e w and env n ts es w rule: patch_patch_list.induct)
  case (1 env n t s w)
  have "keeps [t] [S s] [TS s]"
    by (auto simp: keeps_def list_all2_Cons1 list_all2_Cons2 elim!: displays.elims same_shape.elims)
  with 1 show ?case by (simp add: placed_def takes_place_def)
next
  case (2 env n t ty props es w)
  have es: "list_all (elem_fits w n) es" using "2.prems"(3) by (auto simp: elem_fits_def list_all_iff)
  show ?case
  proof (cases "\<exists>props' ts. t = TElem ty props' ts")
    case True
    then obtain props' ts where t: "t = TElem ty props' ts" by blast
    with "2.IH" [OF t refl "2.prems"(1,2) es] "2.prems"(4,5) obtain ts' w' where
      ts': "patch_list env n ts es w = Inr (ts', w')" "placed fe w (set (concat (map insts ts))) ts' es w'"
      "keeps ts es ts'" by auto
    from placed_elem [OF ts'(2), of ty props] keeps_elem [OF ts'(3), of ty props' props] ts'(1)
    show ?thesis by (simp add: t)
  next
    case False
    then have "patch env n t (Elem ty props es) w = mount env n (Elem ty props es) w"
      by (auto split: tree.split)
    moreover have "keeps [t] [Elem ty props es] [t']" for t'
      using False by (cases t) (auto simp: keeps_def list_all2_Cons1 list_all2_Cons2 elim!: same_shape.elims)
    ultimately show ?thesis using mount_placed_any [OF "2.prems"(1-3)] by (simp only: simp_thms)
  qed
next
  case (3 env t c w)
  then show ?case by (cases c) (simp_all add: elem_fits_def)
next
  case (4 env n t c w)
  have ok: "cmp_ok w c" "rank c \<le> Suc n" using "4.prems"(3) by (simp_all add: elem_fits_def)
  show ?case
  proof (cases "\<exists>c' i t'. t = TComp c' i t' \<and> same_class c c'")
    case True
    then obtain c' i t' where t: "t = TComp c' i t'" and cls: "same_class c c'" by blast
    have coh: "coherent fe None w (TComp c' i t')" "distinct (insts (TComp c' i t'))"
      using "4.prems"(4,5) t by simp_all
    have below: "\<exists>t'' w3. patch env n t' e w2 = Inr (t'', w3) \<and>
        placed fe w2 (set (insts t')) [t''] [e] w3 \<and> keeps [t'] [e] [t'']"
      if "receive_props c i w = Inr (True, w1)" "render_instance env c i w1 = Inr (e, w2)"
        "world_ok fe w2" "elem_fits w2 n e" "coherent fe None w2 t'" for w1 e w2
      using "4.IH" [OF t cls that(1) refl _ that(2) refl "4.prems"(1) that(3-5)] coh(2) by simp
    show ?thesis unfolding t
      by (rule patch_comp_placed [OF "4.prems"(1,2) ok coh cls]) (rule below)
  next
    case False
    then have "patch env (Suc n) t (Comp c) w = mount env (Suc n) (Comp c) w"
      by (auto split: tree.split)
    moreover have "keeps [t] [Comp c] [t']" for t'
      using False by (cases t) (auto simp: keeps_def list_all2_Cons1 list_all2_Cons2 elim!: same_shape.elims)
    ultimately show ?thesis using mount_placed_any [OF "4.prems"(1-3)] by (simp only: simp_thms)
  qed
next
  case (5 env n ts w)
  then show ?case by (simp add: placed_Nil keeps_def)
next
  case (6 env n e es w)
  then show ?case using mount_placed(2) [of env fe w n "e # es"] by (simp add: keeps_def)
next
  case (7 env n t ts e es w)
  obtain t' w1 where t': "patch env n t e w = Inr (t', w1)" "placed fe w (set (insts t)) [t'] [e] w1"
      "keeps [t] [e] [t']"
    using 7 by auto
  have tp: "takes_place fe w (set (insts t)) w1" using t'(2) by (simp add: placed_def)
  have disj: "set (insts t) \<inter> set (concat (map insts ts)) = {}" "distinct (concat (map insts ts))"
    using "7.prems"(5) by auto
  have "list_all (elem_fits w1 n) es"
    using "7.prems"(3) elem_fits_evolves [OF _ tp] by (auto simp: list_all_iff)
  moreover have "coherent fe None w1 u" if u: "u \<in> set ts" for u
  proof (rule coherent_evolves)
    show "coherent fe None w u" "evolves w w1 (set (insts t))"
      using "7.prems"(4) u tp by (simp_all add: list_all_iff takes_place_def)
    show "set (insts u) \<inter> set (insts t) = {}" using disj(1) u by auto
  qed
  then have "list_all (coherent fe None w1) ts" by (simp add: list_all_iff)
  ultimately obtain ts' w2 where ts': "patch_list env n ts es w1 = Inr (ts', w2)"
      "placed fe w1 (set (concat (map insts ts))) ts' es w2" "keeps ts es ts'"
    using "7.IH"(2) [OF t'(1) refl "7.prems"(1) placed_ok [OF t'(2)]] disj(2) by blast
  have "exists_inst w x" if "x \<in> set (concat (map insts ts))" for x
    using "7.prems"(4) by (intro coherent_exists_list [OF _ that, of fe None]) simp
  from placed_cons [OF t'(2) ts'(2) disj(1) this]
  have "placed fe w (set (concat (map insts (t # ts)))) (t' # ts') (e # es) w2" by simp
  moreover have "patch_list env n (t # ts) (e # es) w = Inr (t' # ts', w2)" using t'(1) ts'(1) by simp
  ultimately show ?case using keeps_cons [OF t'(3) ts'(3)] by blast
qed

section \<open>Forced updates\<close>

text \<open>The instance \<open>r\<close> is rendered again where it stands; what is around it stays.\<close>

definition refreshed :: "elem \<Rightarrow> world \<Rightarrow> tree list \<Rightarrow> tree list \<Rightarrow> world \<Rightarrow> bool" where
  "refreshed fe w ts ts' w' \<longleftrightarrow> takes_place fe w (set (concat (map insts ts))) w' \<and>
     list_all (coherent fe None w') ts' \<and> concat (map insts ts') = concat (map insts ts) \<and>
     (\<forall>es. list_all2 displays ts es \<longrightarrow> list_all2 displays ts' es)"

lemma refreshed_cons:
  assumes t: "refreshed fe w [t] [t'] w1" and ts: "refreshed fe w1 ts ts' w2"
    and dist: "distinct (concat (map insts (t # ts)))"
  shows "refreshed fe w (t # ts) (t' # ts') w2"
proof -
  let ?R1 = "set (insts t)" and ?R2 = "set (concat (map insts ts))"
  have coh: "coherent fe None w1 t'" and eq: "insts t' = insts t" using t by (simp_all add: refreshed_def)
  have ev: "evolves w1 w2 ?R2" using ts by (simp add: refreshed_def takes_place_def)
  have "set (insts t') \<inter> ?R2 = {}" using dist eq by auto
  then have "coherent fe None w2 t'" by (rule coherent_evolves [OF coh ev])
  moreover have "takes_place fe w (?R1 \<union> ?R2) w2"
    using t ts takes_place_trans by (fastforce simp: refreshed_def)
  ultimately show ?thesis
    using t ts unfolding refreshed_def by (auto simp: list_all2_Cons1)
qed

text \<open>The instance itself.\<close>

lemma force_here:
  assumes env: "env_ok env fe" and wok: "world_ok fe w" and r: "inst_of c i = Some r"
    and coh: "coherent fe (Some r) w (TComp c i t)" and dist: "distinct (insts (TComp c i t))" and n: "rank c \<le> Suc n"
  shows "\<exists>t' w'. force env n r (TComp c i t) w = Inr (t', w') \<and> refreshed fe w [TComp c i t] [t'] w'"
proof -
  have same: "(class_no c', j) = (class_no c, i)" if "inst_of c' j = Some r" for c' j
    using that r by (cases c; cases c') auto
  have below: "coherent fe None w t"
  proof (rule coherent_all)
    show "coherent fe (Some r) w t" using coh by simp
    show "(class_no c', j) \<notin> set (insts t)" if "inst_of c' j = Some r" for c' j
      using same [OF that] dist by simp
  qed
  have c: "holds w c i" "cmp_ok w c" using coh by simp_all
  obtain e w1 where e: "renders_well env fe c i w e w1" using render_ok [OF env wok c] by blast
  have tp: "takes_place fe w {} w1" using e wok takes_place_change unfolding renders_well_def by blast
  have coh1: "coherent fe None w1 t"
    using coherent_evolves [OF below, of w1 "{}"] tp by (simp add: takes_place_def)
  have "distinct (insts t)" using dist by simp
  from patch_placed(1) [OF env takes_place_ok [OF tp] elem_fits_rendered [OF e wok n] coh1 this]
  obtain t' w2 where t': "patch env n t e w1 = Inr (t', w2)" "placed fe w1 (set (insts t)) [t'] [e] w2"
      "keeps [t] [e] [t']" by blast
  obtain w0 e0 where e0: "cmp_ok w0 c" "cmp_view fe w0 c i = Inr e0" "displays t e0" using coh by auto
  have "same_class c c" by (cases c) simp_all
  from views_alike [OF e0(2) renders_well_view [OF e] this e0(1) c(2)] have "insts t' = insts t" by (rule keeps_alike [OF t'(1,3) e0(3)])
  have "takes_place fe w {(class_no c, i)} w" using wok by (simp add: takes_place_def)
  from placed_comp [OF this c e t'(2)] dist coherent_exists [OF below]
  have "placed fe w ({(class_no c, i)} \<union> set (insts t)) [TComp c i t'] [Comp c] w2" by auto
  moreover have "force env n r (TComp c i t) w = Inr (TComp c i t', w2)"
    using r e t'(1) by (simp add: renders_well_def)
  ultimately show ?thesis using \<open>insts t' = insts t\<close> by (auto simp: refreshed_def placed_def list_all2_Cons1)
qed

lemma refreshed_comp:
  assumes t: "refreshed fe w [t] [t'] w'" and c: "holds w c i" "cmp_ok w c"
    "\<exists>e. cmp_view fe w c i = Inr e \<and> displays t e" "(class_no c, i) \<notin> set (insts t)"
  shows "refreshed fe w [TComp c i t] [TComp c i t'] w'"
proof -
  have ev: "evolves w w' (set (insts t))" using t by (simp add: refreshed_def takes_place_def)
  have ex: "exists_inst w (class_no c, i)" using c(1) by (simp add: holds_def)
  obtain e where e: "cmp_view fe w c i = Inr e" "displays t e" using c(3) by blast
  have "displays t' e" using t e(2) by (auto simp: refreshed_def)
  with cmp_view_evolves [OF ev ex c(4) e(1)]
  have view: "\<exists>e. cmp_view fe w' c i = Inr e \<and> displays t' e" by blast
  have "takes_place fe w (insert (class_no c, i) (set (insts t))) w'"
    using t evolves_mono [OF ev] unfolding refreshed_def takes_place_def by auto
  then show ?thesis
    using t view holds_evolves [OF ev c(1,4)] cmp_ok_evolves [OF ev c(2)]
    by (auto simp: refreshed_def list_all2_Cons1)
qed

lemma force_refreshed:
  "env_ok env fe \<Longrightarrow> world_ok fe w \<Longrightarrow> coherent fe (Some r) w t \<Longrightarrow> distinct (insts t) \<Longrightarrow> 2 \<le> n \<Longrightarrow>
     \<exists>t' w'. force env n r t w = Inr (t', w') \<and> refreshed fe w [t] [t'] w'"
  "env_ok env fe \<Longrightarrow> world_ok fe w \<Longrightarrow> list_all (coherent fe (Some r) w) ts \<Longrightarrow> distinct (concat (map insts ts)) \<Longrightarrow>
     2 \<le> n \<Longrightarrow> \<exists>ts' w'. force_list env n r ts w = Inr (ts', w') \<and> refreshed fe w ts ts' w'"
proof (induction env n r t w and env n r ts w rule: force_force_list.induct)
  case (1 env n r s w)
  then show ?case by (simp add: refreshed_def takes_place_def)
next
  case (2 env n r ty props ts w)
  then obtain ts' w' where ts': "force_list env n r ts w = Inr (ts', w')" "refreshed fe w ts ts' w'" by auto
  then have "refreshed fe w [TElem ty props ts] [TElem ty props ts'] w'"
    by (auto simp: refreshed_def list_all2_Cons1)
  with ts'(1) show ?case by auto
next
  case (3 env n r c i t w)
  show ?case
  proof (cases "inst_of c i = Some r")
    case True
    have "rank c \<le> Suc n" using "3.prems"(5) by (cases c) simp_all
    from force_here [OF "3.prems"(1,2) True "3.prems"(3,4) this] show ?thesis .
  next
    case False
    with 3 obtain t' w' where t': "force env n r t w = Inr (t', w')" "refreshed fe w [t] [t'] w'" by auto
    have c: "holds w c i" "cmp_ok w c" "\<exists>e. cmp_view fe w c i = Inr e \<and> displays t e"
      "(class_no c, i) \<notin> set (insts t)" using False "3.prems"(3,4) by auto
    have "refreshed fe w [TComp c i t] [TComp c i t'] w'"
      by (rule refreshed_comp [OF t'(2) c])
    with t'(1) False show ?thesis by auto
  qed
next
  case (4 env n r w)
  then show ?case by (simp add: refreshed_def takes_place_def)
next
  case (5 env n r t ts w)
  obtain t' w1 where t': "force env n r t w = Inr (t', w1)" "refreshed fe w [t] [t'] w1" using 5 by auto
  have tp: "world_ok fe w1" "evolves w w1 (set (insts t))"
    using t'(2) by (simp_all add: refreshed_def takes_place_def)
  have disj: "set (insts t) \<inter> set (concat (map insts ts)) = {}" "distinct (concat (map insts ts))"
    using "5.prems"(4) by auto
  have "coherent fe (Some r) w1 u" if u: "u \<in> set ts" for u
    using coherent_evolves [OF _ tp(2), of fe "Some r" u] "5.prems"(3) disj(1) u by (auto simp: list_all_iff)
  then have "list_all (coherent fe (Some r) w1) ts" by (simp add: list_all_iff)
  from "5.IH"(2) [OF t'(1) refl "5.prems"(1) tp(1) this disj(2) "5.prems"(5)] obtain ts' w2 where
    ts': "force_list env n r ts w1 = Inr (ts', w2)" "refreshed fe w1 ts ts' w2" by blast
  from refreshed_cons [OF t'(2) ts'(2) "5.prems"(4)] t'(1) ts'(1) show ?case by simp
qed

end
