(* ===== verification/Client_Footer.thy ===== *)
theory Client_Footer
  imports Client_Update
begin

text \<open>
  The footer of the page (\<^verbatim>\<open>client/chooser.go\<close>) is HTML text that goes through
  \<open>jsx.HTMLElem\<close>. Here is the tree an HTML parser makes of it, that the jsx package accepts it,
  and what the environment of the client has to provide: a parser that parses the
  footer to something acceptable, and random sources that are fair.
\<close>

section \<open>The tree of the footer\<close>

definition attr :: "string \<Rightarrow> string \<Rightarrow> Attribute" where
  "attr k v = \<lparr>attr_Namespace = [], attr_Key = k, attr_Val = v\<rparr>"

definition footer_html :: html where
  "footer_html =
     HElem ''footer'' []
       [HText (newline @ tabs 4 @ ''Be truly unique, there are'' @ newline @ tabs 4),
        HElem ''span'' [attr ''class'' ''total_combinations''] [],
        HText (newline @ tabs 4),
        HElem ''hr'' [] [],
        HText (newline @ tabs 4 @ ''Artwork by ''),
        HElem ''a'' [attr ''href'' ''https://twitter.com/ashleymcnamara'', attr ''target'' ''_blank'']
         [HText (''Ashley McNamara'')],
        HElem ''br'' [] [],
        HText (''inspired by ''),
        HElem ''a'' [attr ''href'' ''http://reneefrench.blogspot.co.uk/'', attr ''target'' ''_blank'']
         [HText (''Renee French'')],
        HElem ''br'' [] [],
        HText (newline @ tabs 4 @ ''Original web app by ''),
        HElem ''a'' [attr ''href'' ''https://twitter.com/matryer'', attr ''target'' ''_blank'']
         [HText (''Mat Ryer'')],
        HElem ''br'' [] [],
        HText (newline @ tabs 4 @ ''Front-end Go React version by ''),
        HElem ''a'' [attr ''href'' ''https://twitter.com/_myitcv'', attr ''target'' ''_blank'']
         [HText (''Paul Jolly'')],
        HText (newline @ tabs 4),
        HElem ''hr'' [] [],
        HText (newline @ tabs 4),
        HElem ''a'' [attr ''href'' ''https://github.com/myitcv/gopherize.me/tree/master/client'']
         [HText (''Source on GitHub'')],
        HElem ''br'' [] [],
        HText (newline @ tabs 4),
        HElem ''a'' [attr ''href'' ''https://github.com/matryer/gopherize.me'']
         [HText (''Original source on GitHub'')],
        HText (newline @ tabs 3)]"

lemma attr_simps [simp]: "attr_Key (attr k v) = k" "attr_Val (attr k v) = v"
  by (simp_all add: attr_def)

lemma strip_footer_kids: "strip_html (HElem tag as ts) = HElem tag as (strip_htmls ts)"
  by simp

lemma set_strip_htmls: "\<forall>t \<in> set ts. accepts t \<and> accepts (strip_html t) \<Longrightarrow> list_all accepts (strip_htmls ts)"
  by (induction ts) (auto simp: list_all_iff)

lemma footer_accepted: "accepts (strip_html footer_html)" and footer_not_blank: "\<not> blank_html footer_html"
proof -
  have a: "map_of elem_keys ''a'' = Some [''href'', ''target'', ''title'']"
    and others: "map_of elem_keys ''footer'' = Some []" "map_of elem_keys ''span'' = Some []"
      "map_of elem_keys ''hr'' = Some []" "map_of elem_keys ''br'' = Some []"
    by (simp_all add: elem_keys_def)
  then have known: "''a'' \<in> fst ` set elem_keys" "''footer'' \<in> fst ` set elem_keys"
      "''span'' \<in> fst ` set elem_keys" "''hr'' \<in> fst ` set elem_keys" "''br'' \<in> fst ` set elem_keys"
    by (force dest: map_of_SomeD)+
  have attrs: "attr_ok (own_keys ''a'') (attr ''href'' v)" "attr_ok (own_keys ''a'') (attr ''target'' v)"
    "attr_ok (own_keys ''span'') (attr ''class'' v)" for v
    by (simp_all add: attr_ok_def own_keys_def a others common_keys_def)
  show "accepts (strip_html footer_html)"
    unfolding footer_html_def strip_footer_kids accepts.simps
    by (intro conjI disjI2 set_strip_htmls) (simp_all add: known attrs kids_fit_def)
  show "\<not> blank_html footer_html" by (simp add: footer_html_def)
qed

section \<open>What the environment provides\<close>

definition parses_to :: "parse_fragment \<Rightarrow> string \<Rightarrow> html list \<Rightarrow> bool" where
  "parses_to pf s hs \<longleftrightarrow> (\<exists>st ts. pf (TrimSpace s) dummy_div = Inr (st, map node_of ts) \<and>
     forest_in st ts \<and> map (html_at (mem st)) ts = hs)"

definition good_env :: "env \<Rightarrow> bool" where
  "good_env env \<longleftrightarrow> parses_to (env_pf env) footer [footer_html] \<and> (\<forall>seed. fair (env_src env seed))"

lemma renders_static: "renders t e \<Longrightarrow> comps e = [] \<and> elem_handlers e = []"
proof (induction t arbitrary: e)
  case (HElem tag as ts)
  then obtain props ks where e: "e = Elem (Tag tag) (Some props) ks" "obj_get props ''onClick'' = None"
      "if tag = ''hr'' then ks = [] else list_all2 renders ts ks" by auto
  have "comps k = [] \<and> elem_handlers k = []" if k: "k \<in> set ks" for k
  proof -
    have "list_all2 renders ts ks" using e(3) k by (auto split: if_splits)
    then obtain t where "t \<in> set ts" "renders t k"
      using k by (metis in_set_conv_nth list_all2_conv_all_nth)
    with HElem.IH show ?thesis by blast
  qed
  then show ?case using e by (simp add: handler_of_def)
qed auto

text \<open>What \<open>HTML\<close> returns for text that parses to given trees: it succeeds exactly when what is left
  of the trees is accepted, and then shows them.\<close>

lemma go_map_parse_html:
  fixes f :: "html \<Rightarrow> ('h, 'c) element go"
  assumes "f = parse_html"
  shows "if list_all accepts ts then \<exists>res. go_map f ts = Inr res \<and> list_all2 renders ts res
    else \<exists>e. go_map f ts = Inl e"
proof (cases "go_map f ts")
  case (Inl e)
  have "\<not> list_all accepts ts"
  proof
    assume "list_all accepts ts"
    then obtain g where "\<And>t. t \<in> set ts \<Longrightarrow> f t = Inr (g t)"
      using parse_html_total unfolding list_all_iff assms by metis
    then have "go_map f ts = Inr (map g ts)" by (rule go_map_total)
    with Inl show False by simp
  qed
  with Inl show ?thesis by simp
next
  case (Inr res)
  then have all2: "list_all2 (\<lambda>t k. f t = Inr k) ts res" by (simp add: go_map_Inr_iff)
  then have "list_all2 renders ts res"
    by (rule list_all2_mono) (use parse_html_renders assms in blast)
  moreover have "list_all accepts ts"
    using all2 parse_html_renders unfolding list_all2_conv_all_nth list_all_length assms by metis
  ultimately show ?thesis using Inr by simp
qed

lemma HTML_parses_to:
  fixes H :: "(('h, 'c) element list \<times> ('h, 'c) html_cache) go"
  assumes pt: "parses_to pf s hs" and H: "H = HTML pf s []"
  shows "if list_all accepts (map strip_html (filter (\<lambda>t. \<not> blank_html t) hs))
    then \<exists>res. H = Inr (res, [(TrimSpace s, res)]) \<and>
      list_all2 renders (map strip_html (filter (\<lambda>t. \<not> blank_html t) hs)) res
    else \<exists>e. H = Inl e"
proof -
  let ?ts = "map strip_html (filter (\<lambda>t. \<not> blank_html t) hs)"
  define f :: "html \<Rightarrow> ('h, 'c) element go" where "f = parse_html"
  from pt obtain st ts where "pf (TrimSpace s) dummy_div = Inr (st, map node_of ts)" "forest_in st ts"
      "map (html_at (mem st)) ts = hs" unfolding parses_to_def by blast
  with H HTML_parsed [of "[]" s pf st ts] have "H = go_bind (go_map f ?ts) (\<lambda>res. Inr (res, [(TrimSpace s, res)]))"
    unfolding f_def by simp
  with go_map_parse_html [OF f_def, of ?ts] show ?thesis by (auto split: if_splits)
qed

lemma good_env_ok:
  assumes "good_env env"
  shows "\<exists>fe. env_ok env fe"
proof -
  have "list_all accepts (map strip_html (filter (\<lambda>t. \<not> blank_html t) [footer_html]))"
    using footer_accepted footer_not_blank by simp
  with HTML_parses_to [of "env_pf env" footer "[footer_html]", OF _ refl] assms obtain res :: "elem list" where
    res: "HTML (env_pf env) footer [] = Inr (res, [(TrimSpace footer, res)])"
      "list_all2 renders [strip_html footer_html] res"
    using footer_not_blank by (auto simp: good_env_def)
  then obtain fe where fe: "res = [fe]" "renders (strip_html footer_html) fe" by (auto simp: list_all2_Cons1)
  then have "HTMLElem (env_pf env) footer [] = Inr (fe, [(TrimSpace footer, res)])"
    using res(1) by (simp add: HTMLElem_def)
  with renders_static [OF fe(2)] assms show ?thesis by (auto simp: env_ok_def good_env_def)
qed

section \<open>Such an environment exists\<close>

text \<open>A store given by a list of nodes and the lists of children they spell out.\<close>

definition list_mem :: "Node list \<Rightarrow> memory" where
  "list_mem ns a = (if a < length ns then ns ! a else new_Node)"

definition list_kids :: "(nat \<times> nat list) list \<Rightarrow> nat \<Rightarrow> nat list" where
  "list_kids ks n = (case map_of ks n of None \<Rightarrow> [] | Some cs \<Rightarrow> cs)"

definition node_check :: "Node list \<Rightarrow> (nat \<times> nat list) list \<Rightarrow> nat \<Rightarrow> bool" where
  "node_check ns ks n \<longleftrightarrow>
     (let m = list_mem ns; cs = list_kids ks n in
      distinct cs \<and> n \<notin> set cs \<and> FirstChild (m n) = first_of cs None \<and> LastChild (m n) = last_of None cs \<and>
      linked m n None cs None \<and>
      (case Parent (m n) of
         None \<Rightarrow> PrevSibling (m n) = None \<and> NextSibling (m n) = None
       | Some p \<Rightarrow> n \<in> set (list_kids ks p)))"

lemma wf_dom_list:
  assumes "list_all (node_check ns ks) [0..<length ns]" and "list_all (\<lambda>(n, _). n < length ns) ks"
  shows "wf_dom (list_mem ns) (list_kids ks)"
proof -
  have out: "list_kids ks n = []" if "\<not> n < length ns" for n
  proof -
    have "map_of ks n = None" using assms(2) that by (auto simp: map_of_eq_None_iff list_all_iff)
    then show ?thesis by (simp add: list_kids_def)
  qed
  have chk: "node_check ns ks n" for n
  proof (cases "n < length ns")
    case True
    with assms(1) show ?thesis by (auto simp: list_all_iff)
  next
    case False
    then show ?thesis by (simp add: node_check_def Let_def out list_mem_def new_Node_def)
  qed
  show ?thesis unfolding wf_dom_def
  proof (intro conjI allI impI)
    fix n
    show "distinct (list_kids ks n)" "n \<notin> set (list_kids ks n)"
      "FirstChild (list_mem ns n) = first_of (list_kids ks n) None"
      "LastChild (list_mem ns n) = last_of None (list_kids ks n)"
      "linked (list_mem ns) n None (list_kids ks n) None"
      using chk [of n] by (simp_all add: node_check_def Let_def)
  next
    fix c assume "Parent (list_mem ns c) = None"
    then show "PrevSibling (list_mem ns c) = None" "NextSibling (list_mem ns c) = None"
      using chk [of c] by (simp_all add: node_check_def Let_def)
  next
    fix c n assume "Parent (list_mem ns c) = Some n"
    then show "c \<in> set (list_kids ks n)" using chk [of c] by (simp add: node_check_def Let_def)
  qed
qed

definition footer_text_node :: "ptr \<Rightarrow> ptr \<Rightarrow> ptr \<Rightarrow> ptr \<Rightarrow> ptr \<Rightarrow> string \<Rightarrow> Node" where
  "footer_text_node p f l b n s = new_Node\<lparr>Parent := p, FirstChild := f, LastChild := l, PrevSibling := b,
     NextSibling := n, NType := TextNode, Data := s\<rparr>"

definition footer_element_node :: "ptr \<Rightarrow> ptr \<Rightarrow> ptr \<Rightarrow> ptr \<Rightarrow> ptr \<Rightarrow> string \<Rightarrow> Attribute list \<Rightarrow> Node" where
  "footer_element_node p f l b n tag as = new_Node\<lparr>Parent := p, FirstChild := f, LastChild := l, PrevSibling := b,
     NextSibling := n, NType := ElementNode, Data := tag, Attr := as\<rparr>"

definition footer_nodes :: "Node list" where
  "footer_nodes =
     [footer_element_node (None) (Some 1) (Some 29) (None) (None)
        ''footer'' [],
      footer_text_node (Some 0) (None) (None) (None) (Some 2)
        (newline @ tabs 4 @ ''Be truly unique, there are'' @ newline @ tabs 4),
      footer_element_node (Some 0) (None) (None) (Some 1) (Some 3)
        ''span'' [attr ''class'' ''total_combinations''],
      footer_text_node (Some 0) (None) (None) (Some 2) (Some 4)
        (newline @ tabs 4),
      footer_element_node (Some 0) (None) (None) (Some 3) (Some 5)
        ''hr'' [],
      footer_text_node (Some 0) (None) (None) (Some 4) (Some 6)
        (newline @ tabs 4 @ ''Artwork by ''),
      footer_element_node (Some 0) (Some 7) (Some 7) (Some 5) (Some 8)
        ''a'' [attr ''href'' ''https://twitter.com/ashleymcnamara'', attr ''target'' ''_blank''],
      footer_text_node (Some 6) (None) (None) (None) (None)
        (''Ashley McNamara''),
      footer_element_node (Some 0) (None) (None) (Some 6) (Some 9)
        ''br'' [],
      footer_text_node (Some 0) (None) (None) (Some 8) (Some 10)
        (''inspired by ''),
      footer_element_node (Some 0) (Some 11) (Some 11) (Some 9) (Some 12)
        ''a'' [attr ''href'' ''http://reneefrench.blogspot.co.uk/'', attr ''target'' ''_blank''],
      footer_text_node (Some 10) (None) (None) (None) (None)
        (''Renee French''),
      footer_element_node (Some 0) (None) (None) (Some 10) (Some 13)
        ''br'' [],
      footer_text_node (Some 0) (None) (None) (Some 12) (Some 14)
        (newline @ tabs 4 @ ''Original web app by ''),
      footer_element_node (Some 0) (Some 15) (Some 15) (Some 13) (Some 16)
        ''a'' [attr ''href'' ''https://twitter.com/matryer'', attr ''target'' ''_blank''],
      footer_text_node (Some 14) (None) (None) (None) (None)
        (''Mat Ryer''),
      footer_element_node (Some 0) (None) (None) (Some 14) (Some 17)
        ''br'' [],
      footer_text_node (Some 0) (None) (None) (Some 16) (Some 18)
        (newline @ tabs 4 @ ''Front-end Go React version by ''),
      footer_element_node (Some 0) (Some 19) (Some 19) (Some 17) (Some 20)
        ''a'' [attr ''href'' ''https://twitter.com/_myitcv'', attr ''target'' ''_blank''],
      footer_text_node (Some 18) (None) (None) (None) (None)
        (''Paul Jolly''),
      footer_text_node (Some 0) (None) (None) (Some 18) (Some 21)
        (newline @ tabs 4),
      footer_element_node (Some 0) (None) (None) (Some 20) (Some 22)
        ''hr'' [],
      footer_text_node (Some 0) (None) (None) (Some 21) (Some 23)
        (newline @ tabs 4),
      footer_element_node (Some 0) (Some 24) (Some 24) (Some 22) (Some 25)
        ''a'' [attr ''href'' ''https://github.com/myitcv/gopherize.me/tree/master/client''],
      footer_text_node (Some 23) (None) (None) (None) (None)
        (''Source on GitHub''),
      footer_element_node (Some 0) (None) (None) (Some 23) (Some 26)
        ''br'' [],
      footer_text_node (Some 0) (None) (None) (Some 25) (Some 27)
        (newline @ tabs 4),
      footer_element_node (Some 0) (Some 28) (Some 28) (Some 26) (Some 29)
        ''a'' [attr ''href'' ''https://github.com/matryer/gopherize.me''],
      footer_text_node (Some 27) (None) (None) (None) (None)
        (''Original source on GitHub''),
      footer_text_node (Some 0) (None) (None) (Some 27) (None)
        (newline @ tabs 3)]"

definition footer_kids :: "(nat \<times> nat list) list" where
  "footer_kids =
     [(0, [1, 2, 3, 4, 5, 6, 8, 9, 10, 12, 13, 14, 16, 17, 18, 20, 21, 22, 23, 25, 26, 27, 29]),
      (6, [7]),
      (10, [11]),
      (14, [15]),
      (18, [19]),
      (23, [24]),
      (27, [28])]"

definition footer_it :: itree where
  "footer_it =
     IT 0 [IT 1 [], IT 2 [], IT 3 [], IT 4 [], IT 5 [], IT 6 [IT 7 []], IT 8 [], IT 9 [], IT
      10 [IT 11 []], IT 12 [], IT 13 [], IT 14 [IT 15 []], IT 16 [], IT 17 [], IT 18 [IT 19
      []], IT 20 [], IT 21 [], IT 22 [], IT 23 [IT 24 []], IT 25 [], IT 26 [], IT 27 [IT 28
      []], IT 29 []]"

lemma footer_nodes_wf: "wf_dom (list_mem footer_nodes) (list_kids footer_kids)"
proof (rule wf_dom_list)
  show "list_all (node_check footer_nodes footer_kids) [0..<length footer_nodes]" by code_simp
  show "list_all (\<lambda>(n, _). n < length footer_nodes) footer_kids" by code_simp
qed

lemma footer_forest: "forest_in \<lparr>mem = list_mem footer_nodes, brk = length footer_nodes\<rparr> [footer_it]"
proof -
  have "distinct (ids footer_it)" "list_all (\<lambda>n. n < length footer_nodes) (ids footer_it)"
    "tree_in (list_kids footer_kids) footer_it" by code_simp+
  with footer_nodes_wf show ?thesis by (auto simp: forest_in_def list_all_iff)
qed

lemma footer_html_at: "html_at (list_mem footer_nodes) footer_it = footer_html"
  by code_simp

definition example_env :: env where
  "example_env =
     \<lparr>env_pf = (\<lambda>s n. Inr (\<lparr>mem = list_mem footer_nodes, brk = length footer_nodes\<rparr>, [node_of footer_it])),
      env_src = (\<lambda>seed k. 0), env_now = 0\<rparr>"

lemma good_example_env: "good_env example_env"
proof -
  have "parses_to (env_pf example_env) footer [footer_html]"
    unfolding parses_to_def example_env_def
    by (rule exI [of _ "\<lparr>mem = list_mem footer_nodes, brk = length footer_nodes\<rparr>"], rule exI [of _ "[footer_it]"])
      (simp add: footer_forest footer_html_at)
  then show ?thesis by (auto simp: good_env_def example_env_def fair_def)
qed

section \<open>What HTML promises\<close>

text \<open>C27. \<open>jsx.HTML\<close> on text that its parser turns into given trees: it succeeds exactly when what
  is left after removing blank text is accepted, it then returns one element per tree, with
  the tree's tags, texts and children, and remembers them; otherwise it panics.\<close>

theorem HTML_exactly:
  fixes H :: "(('h, 'c) element list \<times> ('h, 'c) html_cache) go"
  assumes "parses_to pf s hs" and "H = HTML pf s []"
  shows "if list_all accepts (map strip_html (filter (\<lambda>t. \<not> blank_html t) hs))
    then \<exists>res. H = Inr (res, [(TrimSpace s, res)]) \<and>
      list_all2 renders (map strip_html (filter (\<lambda>t. \<not> blank_html t) hs)) res
    else \<exists>e. H = Inl e"
  by (rule HTML_parses_to) (fact assms)+

theorem HTML_exactly_witness:
  "\<exists>fe. HTML (env_pf example_env) footer [] =
     (Inr ([fe], [(TrimSpace footer, [fe])]) :: ((nat, nat) element list \<times> (nat, nat) html_cache) go)"
proof -
  have "parses_to (env_pf example_env) footer [footer_html]" using good_example_env by (simp add: good_env_def)
  from HTML_exactly [OF this refl] footer_accepted footer_not_blank show ?thesis
    by (auto simp: list_all2_Cons1 split: if_splits)
qed

end
