(* ===== verification/Client_Main.thy ===== *)
theory Client_Main
  imports Client_Footer
begin

text \<open>
  \<^verbatim>\<open>client/main.go\<close> with \<open>react.Render\<close>, and the page as a state machine: \<open>main\<close> puts it up, every click on
  something shown takes it a step further. What a step does is said in terms of the
  selection and of the open panel; that it can be taken without a panic and leaves the screen
  in order is the invariant of all reachable pages.
\<close>

section \<open>The query of the page's URL\<close>

text \<open>\<open>url.Parse\<close> is a parameter: it fails or yields the raw query. \<open>Query\<close> splits the raw query
  at \<open>&\<close> and \<open>;\<close>, drops the fields that are not validly escaped, and \<open>Get\<close> returns
  the first value of a key.\<close>

fun hex_value :: "char \<Rightarrow> nat option" where
  "hex_value c =
     (let n = of_char c in
      if 48 \<le> n \<and> n \<le> 57 then Some (n - 48)
      else if 97 \<le> n \<and> n \<le> 102 then Some (n - 87)
      else if 65 \<le> n \<and> n \<le> 70 then Some (n - 55)
      else None)"

fun QueryUnescape :: "string \<Rightarrow> string option" where
  "QueryUnescape [] = Some []"
| "QueryUnescape (c # s) =
     (if c = CHR ''%'' then
        (case s of
           a # b # s' \<Rightarrow>
             (case (hex_value a, hex_value b) of
                (Some x, Some y) \<Rightarrow> map_option (\<lambda>r. char_of (16 * x + y) # r) (QueryUnescape s')
              | _ \<Rightarrow> None)
         | _ \<Rightarrow> None)
      else map_option (\<lambda>r. (if c = CHR ''+'' then CHR '' '' else c) # r) (QueryUnescape s))"

fun query_fields :: "string \<Rightarrow> string list" where
  "query_fields [] = [[]]"
| "query_fields (c # s) =
     (if c = CHR ''&'' \<or> c = CHR '';'' then [] # query_fields s
      else (case query_fields s of [] \<Rightarrow> [[c]] | f # fs \<Rightarrow> (c # f) # fs))"

definition query_pair :: "string \<Rightarrow> (string \<times> string) option" where
  "query_pair f =
     (if f = [] then None
      else case (QueryUnescape (takeWhile (\<lambda>c. c \<noteq> CHR ''='') f),
                 QueryUnescape (drop 1 (dropWhile (\<lambda>c. c \<noteq> CHR ''='') f))) of
             (Some k, Some v) \<Rightarrow> Some (k, v)
           | _ \<Rightarrow> None)"

definition Query :: "string \<Rightarrow> (string \<times> string) list" where
  "Query rawQuery = List.map_filter query_pair (query_fields rawQuery)"

definition Query_Get :: "string \<Rightarrow> string \<Rightarrow> string" where
  "Query_Get rawQuery key = (case map_of (Query rawQuery) key of None \<Rightarrow> [] | Some v \<Rightarrow> v)"

section \<open>main\<close>

definition ribbon :: elem where
  "ribbon =
     react_A (Some (new_AProps\<lparr>ClassName := ''github-fork-ribbon right-top'',
       AProps.Target := ''_blank'',
       AProps.Href := ''https://github.com/myitcv/gopherize.me/tree/master/client'',
       AProps.Title := ''Source on GitHub''\<rparr>))
       [S ''Source on GitHub'']"

definition main_root :: "string \<Rightarrow> elem \<Rightarrow> elem" where
  "main_root rawQuery outer =
     react_Div None
       ((if Query_Get rawQuery ''hideGithubRibbon'' \<noteq> ''true'' then [ribbon] else []) @ [outer])"

text \<open>What \<open>main\<close> asks of the browser: the URL of the document and its elements by their id, an element
  being a number. \<open>GetElementByID\<close> returns nil where the browser has no element.\<close>

record document =
  document_URL :: string
  elements_by_id :: "string \<Rightarrow> nat option"

definition GetElementByID :: "document \<Rightarrow> string \<Rightarrow> nat option" where
  "GetElementByID d name = elements_by_id d name"

text \<open>\<open>react.Render\<close> hands the element and the container to \<open>ReactDOM.render\<close>, which throws when the container is
  no element, and otherwise mounts the element in it. The result is the container with the page that is in it.\<close>

definition react_Render :: "env \<Rightarrow> elem \<Rightarrow> nat option \<Rightarrow> world \<Rightarrow> (nat \<times> page) go" where
  "react_Render env el container w =
     (case container of
        None \<Rightarrow> Inl (PanicWith ''Target container is not a DOM element.'')
      | Some c \<Rightarrow> go_bind (mount env nesting el w) (\<lambda>(t, w'). Inr (c, \<lparr>screen = t, page_world = w'\<rparr>)))"

definition main :: "env \<Rightarrow> (string \<Rightarrow> string + string) \<Rightarrow> document \<Rightarrow> world \<Rightarrow> (nat \<times> page) go" where
  "main env url_Parse d w =
     (let domTarget = GetElementByID d ''gopherize.me'' in
      case url_Parse (document_URL d) of
        Inl err \<Rightarrow> Inl (PanicWith err)
      | Inr rawQuery \<Rightarrow>
          (case Outer w of (o1, w1) \<Rightarrow> react_Render env (main_root rawQuery o1) domTarget w1))"

text \<open>The world the program starts in: the package variables are initialised.\<close>

definition init_world :: world where
  "init_world =
     \<lparr>arrays = [], gophers = [], configs = [hackConfig], categories = hack_categories, rands = [],
      react = \<lparr>compMap = [], classes = []\<rparr>, htmlCache = [], outers = [], previews = [], choosers = [],
      panels = [], pending = [], alerts = []\<rparr>"

section \<open>Pages in order\<close>

definition page_ok :: "elem \<Rightarrow> page \<Rightarrow> bool" where
  "page_ok fe p \<longleftrightarrow> world_ok fe (page_world p) \<and> coherent fe None (page_world p) (screen p) \<and>
     distinct (insts (screen p)) \<and> pending (page_world p) = [] \<and>
     (\<exists>e. displays (screen p) e \<and> elem_handlers e = [])"

lemma world_ok_init: "world_ok fe init_world"
proof -
  have "go_map (deref hack_categories) (map Some [0..<length hack_categories]) = Inr hack_categories"
  proof -
    have "go_map (deref hack_categories) (map Some [0..<length hack_categories]) =
        Inr (map (\<lambda>i. hack_categories ! i) [0..<length hack_categories])"
      unfolding go_map_map by (rule go_map_total) simp
    then show ?thesis by (simp add: map_nth)
  qed
  then have "config_ok init_world hackConfig_ptr hack_categories"
    by (simp add: config_ok_def init_world_def hackConfig_ptr_def Categories_hackConfig)
  then show ?thesis by (simp add: world_ok_def cache_ok_def init_world_def)
qed

lemma main_ok:
  assumes env: "env_ok env fe" and url: "url_Parse (document_URL d) = Inr rawQuery"
    and c: "elements_by_id d ''gopherize.me'' = Some c"
  shows "\<exists>p. main env url_Parse d init_world = Inr (c, p) \<and> page_ok fe p \<and>
    displays (screen p) (main_root rawQuery (Comp OuterC)) \<and> alerts (page_world p) = []"
proof -
  let ?e = "main_root rawQuery (Comp OuterC)"
  obtain w1 where w1: "Outer init_world = (Comp OuterC, w1)" and ch: "render_change init_world w1"
      "htmlCache w1 = htmlCache init_world"
    using CreateElement_change [of "''OuterDef''" OuterC init_world]
    by (simp add: Outer_def buildOuterElem_def CreateElement_def)
  have ok1: "world_ok fe w1"
    using world_ok_change [OF world_ok_init ch(1)] ch(2) by (simp add: cache_ok_def init_world_def)
  have "comps ?e = [OuterC]" "elem_handlers ?e = []"
    by (simp_all add: main_root_def ribbon_def clicked_def new_props_OnClick)
  then have "elem_fits w1 nesting ?e" by (simp add: elem_fits_def nesting_def cmp_ok_def)
  from mount_placed(1) [OF env ok1 this] obtain t w2 where
    t: "mount env nesting ?e w1 = Inr (t, w2)" "placed fe w1 {} [t] [?e] w2" by blast
  have "pending w2 = pending w1" "alerts w2 = alerts w1"
    using t(2) by (simp_all add: placed_def takes_place_def settles_def)
  then have "pending w2 = []" "alerts w2 = []"
    using render_change_same [OF ch(1)] by (simp_all add: init_world_def)
  moreover have "main env url_Parse d init_world = Inr (c, \<lparr>screen = t, page_world = w2\<rparr>)"
    by (simp add: main_def url GetElementByID_def c w1 react_Render_def t(1) del: go_bind_Inr_iff)
  ultimately show ?thesis
    using t(2) \<open>elem_handlers ?e = []\<close>
    by (auto simp: page_ok_def placed_def takes_place_def)
qed

lemma main_errors:
  "url_Parse (document_URL d) = Inl err \<Longrightarrow> main env url_Parse d w = Inl (PanicWith err)"
  "url_Parse (document_URL d) = Inr rawQuery \<Longrightarrow> elements_by_id d ''gopherize.me'' = None \<Longrightarrow>
   main env url_Parse d w = Inl (PanicWith ''Target container is not a DOM element.'')"
  by (simp_all add: main_def Let_def GetElementByID_def react_Render_def split: prod.split)

section \<open>What a click does to the world\<close>

fun inst_no :: "inst_ref \<Rightarrow> inst" where
  "inst_no (OuterI j) = (0, j)"
| "inst_no (ChooserI k) = (2, k)"

text \<open>At most one update is asked for, by the one instance that changed its state.\<close>

definition click_change :: "elem \<Rightarrow> world \<Rightarrow> inst_ref list \<Rightarrow> world \<Rightarrow> bool" where
  "click_change fe w rs w' \<longleftrightarrow> world_ok fe w' \<and> pending w' = pending w @ rs \<and> length rs \<le> 1 \<and>
     evolves w w' (set (map inst_no rs)) \<and>
     map js_props (outers w') = map js_props (outers w) \<and>
     map js_props (choosers w') = map js_props (choosers w)"

lemma installs_lengths:
  assumes "installs o1 ps w w'"
  shows "length (outers w') = length (outers w)"
    and "j < length (outers w) \<Longrightarrow> js_props (outers w' ! j) = js_props (outers w ! j)"
proof -
  have map: "map js_props (outers w') = map js_props (outers w)" using assms by (simp add: installs_def)
  then show len: "length (outers w') = length (outers w)" using map_eq_imp_length_eq by blast
  show "js_props (outers w' ! j) = js_props (outers w ! j)" if "j < length (outers w)"
    using map len that by (metis nth_map)
qed

lemma installs_evolves:
  assumes "installs o1 ps w w'"
  shows "evolves w w' {(0, outer_elem o1)}"
proof -
  have "exists_inst w x = exists_inst w' x" "x \<notin> {(0, outer_elem o1)} \<Longrightarrow> same_inst w w' x" for x
    using assms installs_lengths(1) [OF assms]
    by (cases x; auto simp: installs_def exists_inst.simps same_inst.simps)+
  moreover have "\<exists>r'. deref (rands w') p = Inr r' \<and> src r' = src r" if "deref (rands w) p = Inr r" for p r
    using assms by (intro deref_map_src [OF _ that]) (simp add: installs_def)
  ultimately show ?thesis using assms unfolding evolves_def installs_def by auto
qed

lemma installs_click_change:
  assumes wok: "world_ok fe w" and ins: "installs (OuterDef j) ps w w'" and j: "j < length (outers w)"
    and fit: "fits hack_categories ps"
  shows "click_change fe w [OuterI j] w'"
proof -
  have ev: "evolves w w' {(0, j)}" using installs_evolves [OF ins] by simp
  have inv: "outer_inv hack_categories (OuterDef j) w" using wok j by (simp add: world_ok_def)
  have "world_ok fe w'"
  proof (rule world_okI [OF wok ev])
    show "cache_ok fe w'" using wok ins by (simp add: world_ok_def cache_ok_def installs_def)
    show "k < length (outers w) \<and> outers w' ! k = outers w ! k \<or>
        outer_inv hack_categories (OuterDef k) w' \<and> js_props (outers w' ! k) = None"
      if "k < length (outers w')" for k
    proof (cases "k = j")
      case True
      then show ?thesis
        using outer_inv_installs(1) [OF inv ins fit] installs_lengths(2) [OF ins j] wok j
        by (simp add: world_ok_def)
    next
      case False
      then show ?thesis using ins that installs_lengths(1) [OF ins] by (simp add: installs_def)
    qed
  qed (use ins in \<open>simp add: installs_def\<close>)
  with ev ins show ?thesis by (auto simp: click_change_def installs_def)
qed

text \<open>The three requests to \<open>Outer\<close> and the request to \<open>Chooser\<close>.\<close>

lemma outer_requests:
  assumes wok: "world_ok fe w" and j: "j < length (outers w)"
  shows "\<exists>w'. ResetGopher (OuterDef j) w = Inr w' \<and> installs (OuterDef j) (default_parts hack_categories) w w' \<and>
      click_change fe w [OuterI j] w'"
    and "\<exists>w' ps. RandomGopher (OuterDef j) w = Inr w' \<and> installs (OuterDef j) ps w w' \<and>
      fits hack_categories ps \<and> click_change fe w [OuterI j] w'"
    and "i < length hack_categories \<Longrightarrow> v \<in> set (Options (hack_categories ! i)) \<Longrightarrow>
      \<exists>w'. UpdateGopher (OuterDef j) (int i) v w = Inr w' \<and>
        installs (OuterDef j) ((shown_parts (OuterDef j) w)[i := v]) w w' \<and> click_change fe w [OuterI j] w'"
proof -
  have inv: "outer_inv hack_categories (OuterDef j) w" using wok j by (simp add: world_ok_def)
  then obtain s qs where s: "Outer_State (OuterDef j) w = Inr s" "outer_state_ok hack_categories w s"
    "gopher_parts w (current s) = Inr qs" "selection (OuterDef j) w = Inr qs" "fits hack_categories qs"
    by (rule outer_inv_selection)
  have cfg: "config_ok w (config s) hack_categories" using s(2) by (simp add: outer_state_ok_def)
  have qs: "shown_parts (OuterDef j) w = qs" using s(4) by (simp add: shown_parts_def)
  note change = installs_click_change [OF wok _ j]
  show "\<exists>w'. ResetGopher (OuterDef j) w = Inr w' \<and> installs (OuterDef j) (default_parts hack_categories) w w' \<and>
      click_change fe w [OuterI j] w'"
    using ResetGopher_installs [OF s(1,3) cfg wf_hack_categories] change fits_default [OF wf_hack_categories]
    by blast
  show "\<exists>w' ps. RandomGopher (OuterDef j) w = Inr w' \<and> installs (OuterDef j) ps w w' \<and>
      fits hack_categories ps \<and> click_change fe w [OuterI j] w'"
    using RandomGopher_installs [OF s(1,2) drawable_hack] change by blast
  assume i: "i < length hack_categories" "v \<in> set (Options (hack_categories ! i))"
  then have "i < length qs" "fits hack_categories (qs[i := v])"
    using fits_length [OF s(5)] fits_update [OF s(5)] by simp_all
  then show "\<exists>w'. UpdateGopher (OuterDef j) (int i) v w = Inr w' \<and>
      installs (OuterDef j) ((shown_parts (OuterDef j) w)[i := v]) w w' \<and> click_change fe w [OuterI j] w'"
    unfolding qs using UpdateGopher_installs [OF s(1,3)] change by blast
qed

lemma Expand_change:
  assumes wok: "world_ok fe w" and k: "k < length (choosers w)"
  shows "\<exists>w' rs. Expand (ChooserDef k) i w = Inr w' \<and> click_change fe w rs w' \<and> set rs \<subseteq> {ChooserI k} \<and>
    Chooser_State (ChooserDef k) w' = Inr \<lparr>open = i\<rparr> \<and>
    w' = w\<lparr>choosers := choosers w', pending := pending w'\<rparr>"
proof -
  obtain st p where st: "lastState (choosers w ! k) = Some st" "js_props (choosers w ! k) = Some p"
      "cmp_ok w (ChooserC p)"
    using wok k by (auto simp: world_ok_def)
  then have S: "Chooser_State (ChooserDef k) w = Inr st" using k by (simp add: Chooser_State_def comp_State_def)
  have sti: "st\<lparr>ChooserState.open := i\<rparr> = \<lparr>open = i\<rparr>" by (cases st) simp
  show ?thesis
  proof (cases "ChooserState.open st = i")
    case True
    then have "Expand (ChooserDef k) i w = Inr w" using Expand_spec [OF S, of i] by simp
    moreover have "click_change fe w [] w" using wok by (simp add: click_change_def)
    moreover have "st = \<lparr>open = i\<rparr>" using True by (cases st) simp
    ultimately show ?thesis using S by (intro exI [of _ w] exI [of _ "[]"]) simp
  next
    case False
    let ?c = "(choosers w ! k)\<lparr>lastState := Some (st\<lparr>ChooserState.open := i\<rparr>)\<rparr>"
    let ?w = "w\<lparr>choosers := (choosers w)[k := ?c], pending := pending w @ [ChooserI k]\<rparr>"
    have E: "Expand (ChooserDef k) i w = Inr ?w" using Expand_spec [OF S, of i] False by simp
    have ev: "evolves w ?w {(2, k)}"
    proof (rule evolves_update)
      show "exists_inst w x = exists_inst ?w x" for x by (cases x) (simp add: exists_inst.simps)
      show "x \<notin> {(2, k)} \<Longrightarrow> same_inst w ?w x" for x
        by (cases x) (auto simp: same_inst.simps nth_list_update)
    qed (simp_all add: grows_def)
    have "world_ok fe ?w"
    proof (rule world_okI [OF wok ev])
      show "l < length (choosers w) \<and> choosers ?w ! l = choosers w ! l \<or>
        (\<exists>p st. js_props (choosers ?w ! l) = Some p \<and> lastState (choosers ?w ! l) = Some st \<and>
           cmp_ok ?w (ChooserC p))" if "l < length (choosers ?w)" for l
        using that k st(2) cmp_ok_evolves [OF ev st(3)] by (cases "l = k") simp_all
    qed (use wok in \<open>simp_all add: world_ok_def cache_ok_def\<close>)
    moreover have "map js_props (choosers ?w) = map js_props (choosers w)"
      using k by (simp add: map_update) (metis list_update_id map_update)
    ultimately have "click_change fe w [ChooserI k] ?w" using ev by (simp add: click_change_def)
    moreover have "Chooser_State (ChooserDef k) ?w = Inr \<lparr>open = i\<rparr>"
      using k sti by (simp add: Chooser_State_def comp_State_def)
    ultimately show ?thesis using E by (intro exI [of _ ?w] exI [of _ "[ChooserI k]"]) simp
  qed
qed

lemma with_updater_ok:
  assumes wok: "world_ok fe w" and ch: "chooser_elem ch < length (choosers w)"
  obtains j where "j < length (outers w)" and "\<And>f. with_updater ch f w = f (OuterDef j) w"
proof -
  obtain p where p: "js_props (choosers w ! chooser_elem ch) = Some p" "cmp_ok w (ChooserC p)"
    using wok ch by (auto simp: world_ok_def)
  then obtain j where "j < length (outers w)" "ChooserProps.Update p = Some (OuterDef j)"
    by (auto simp: cmp_ok_def)
  then show thesis
    using that p(1) ch by (simp add: with_updater_def Chooser_Props_def comp_Props_def)
qed

lemma save_change: "world_ok fe w \<Longrightarrow> click_change fe w [] (w\<lparr>alerts := as\<rparr>)"
proof -
  assume wok: "world_ok fe w"
  have ev: "evolves w (w\<lparr>alerts := as\<rparr>) {}" by (rule evolves_more) (simp_all add: grows_def)
  moreover have "world_ok fe (w\<lparr>alerts := as\<rparr>)"
    using wok by (intro world_okI [OF wok ev]) (simp_all add: world_ok_def cache_ok_def)
  ultimately show ?thesis by (simp add: click_change_def)
qed

text \<open>No handler that is in order panics, and each prevents the default action.\<close>

lemma run_OnClick_ok:
  assumes wok: "world_ok fe w" and h: "handler_ok w h"
  shows "\<exists>w' rs. run_OnClick h e w = Inr (PreventDefault e, w') \<and> click_change fe w rs w'"
proof (cases h)
  case (ExpandClick E1 i)
  then obtain k where "k < length (choosers w)" "E1 = Some (ChooserDef k)" using h by (auto simp: handler_ok_def)
  with ExpandClick Expand_change [OF wok, of k i] show ?thesis
    by (auto simp: run_OnClick_def expandClick_OnClick_def OnClick_prevent_def)
next
  case (ChooseItemClick U i v)
  then obtain j n where "j < length (outers w)" "U = Some (OuterDef j)" "n < length hack_categories" "i = int n"
      "v \<in> set (Options (hack_categories ! n))" using h by (auto simp: handler_ok_def)
  with ChooseItemClick outer_requests(3) [OF wok, of j n v] show ?thesis
    by (auto simp: run_OnClick_def chooseItemClick_OnClick_def OnClick_prevent_def)
next
  case (ShuffleClick ch)
  then have "chooser_elem ch < length (choosers w)" using h by (simp add: handler_ok_def)
  from with_updater_ok [OF wok this] obtain j where "j < length (outers w)"
    "with_updater ch RandomGopher w = RandomGopher (OuterDef j) w" by metis
  with ShuffleClick outer_requests(2) [OF wok, of j] show ?thesis
    by (auto simp: run_OnClick_def shuffleClick_OnClick_def OnClick_prevent_def)
next
  case (ResetClick ch)
  then have "chooser_elem ch < length (choosers w)" using h by (simp add: handler_ok_def)
  from with_updater_ok [OF wok this] obtain j where "j < length (outers w)"
    "with_updater ch ResetGopher w = ResetGopher (OuterDef j) w" by metis
  with ResetClick outer_requests(1) [OF wok, of j] show ?thesis
    by (auto simp: run_OnClick_def resetClick_OnClick_def OnClick_prevent_def)
next
  case (SaveClick ch)
  then show ?thesis using save_change [OF wok]
    by (auto simp: run_OnClick_def saveClick_OnClick_def OnClick_prevent_def)
qed

section \<open>What a click does to the page\<close>

lemma click_change_holds: "click_change fe w rs w' \<Longrightarrow> holds w c i \<Longrightarrow> holds w' c i"
proof -
  assume ch: "click_change fe w rs w'" and h: "holds w c i"
  have ev: "evolves w w' (set (map inst_no rs))" using ch by (simp add: click_change_def)
  have len: "length (outers w') = length (outers w)" "length (choosers w') = length (choosers w)"
    using ch map_eq_imp_length_eq unfolding click_change_def by blast+
  have outer_props: "js_props (outers w' ! i) = js_props (outers w ! i)" if "i < length (outers w)"
    using ch that len(1) unfolding click_change_def by (metis nth_map)
  have chooser_props: "js_props (choosers w' ! i) = js_props (choosers w ! i)" if "i < length (choosers w)"
    using ch that len(2) unfolding click_change_def by (metis nth_map)
  have "x \<notin> set (map inst_no rs)" if "fst x = 1 \<or> fst x = 3" for x
  proof
    assume "x \<in> set (map inst_no rs)"
    then obtain r where "x = inst_no r" by auto
    with that show False by (cases r) auto
  qed
  with h holds_evolves [OF ev h] len outer_props chooser_props show ?thesis
    by (cases c) (auto simp: holds_def exists_inst.simps)
qed

lemma inst_no_class: "inst_no x = (class_no c, i) \<Longrightarrow> inst_of c i = Some x"
  by (cases x; cases c) auto

lemma coherent_marked:
  assumes ch: "click_change fe w rs w'" and sub: "set rs \<subseteq> {r}"
  shows "coherent fe None w t \<Longrightarrow> coherent fe (Some r) w' t"
proof (induction t)
  case (TElem ty props ts)
  then show ?case by (simp add: list_all_iff)
next
  case (TComp c i t)
  have ev: "evolves w w' (set (map inst_no rs))" using ch by (simp add: click_change_def)
  obtain e where e: "cmp_view fe w c i = Inr e" "displays t e" "cmp_ok w c" "holds w c i"
    using TComp.prems by auto
  have "\<exists>w0 e. cmp_ok w0 c \<and> cmp_view fe w0 c i = Inr e \<and> displays t e \<and> (inst_of c i = Some r \<or> w0 = w')"
  proof (cases "(class_no c, i) \<in> set (map inst_no rs)")
    case True
    then have "inst_of c i = Some r" using sub inst_no_class [of _ c i] by (auto simp: eq_commute [of "(class_no c, i)"])
    with e show ?thesis by blast
  next
    case False
    have "cmp_view fe w' c i = Inr e"
      using cmp_view_evolves [OF ev _ False e(1)] e(4) by (simp add: holds_def)
    with e(2) cmp_ok_evolves [OF ev e(3)] show ?thesis by blast
  qed
  with TComp click_change_holds [OF ch e(4)] cmp_ok_evolves [OF ev e(3)] show ?case by simp
qed simp

lemma pending_change:
  assumes "world_ok fe w"
  shows "world_ok fe (w\<lparr>pending := []\<rparr>)" and "evolves w (w\<lparr>pending := []\<rparr>) {}"
proof -
  show ev: "evolves w (w\<lparr>pending := []\<rparr>) {}" by (rule evolves_more) (simp_all add: grows_def)
  show "world_ok fe (w\<lparr>pending := []\<rparr>)"
    using assms by (intro world_okI [OF assms ev]) (simp_all add: world_ok_def cache_ok_def)
qed

text \<open>After the handler, the update it asked for: the page is in order again, and carrying out
  the update has changed no component's state.\<close>

lemma flush_ok:
  assumes env: "env_ok env fe" and ch: "click_change fe w rs w1" and t: "coherent fe None w t" "distinct (insts t)"
  shows "\<exists>t' w2. flush env rs t (w1\<lparr>pending := []\<rparr>) = Inr (t', w2) \<and>
    refreshed fe (w1\<lparr>pending := []\<rparr>) [t] [t'] w2"
proof -
  let ?w = "w1\<lparr>pending := []\<rparr>"
  have "world_ok fe w1" using ch by (simp add: click_change_def)
  note ok = pending_change(1) [OF this] and ev = pending_change(2) [OF this]
  show ?thesis
  proof (cases rs)
    case Nil
    with ch have "evolves w w1 {}" by (simp add: click_change_def)
    from evolves_trans [OF this ev] have "coherent fe None ?w t" using coherent_evolves [OF t(1), of ?w "{}"] by simp
    with Nil ok t show ?thesis by (simp add: refreshed_def takes_place_def)
  next
    case (Cons r rs')
    with ch have rs: "rs = [r]" by (auto simp: click_change_def)
    have "coherent fe (Some r) w1 t" using coherent_marked [OF ch _ t(1)] rs by simp
    then have "coherent fe (Some r) ?w t" using coherent_evolves [OF _ ev] by simp
    from force_refreshed(1) [OF env ok this t(2), of nesting] rs show ?thesis
      by (auto simp: nesting_def)
  qed
qed

lemma click_ok:
  assumes env: "env_ok env fe" and p: "page_ok fe p" and h: "handler_ok (page_world p) h"
  shows "\<exists>w1 rs p'. run_OnClick h \<lparr>defaultPrevented = False\<rparr> (page_world p) = Inr (\<lparr>defaultPrevented = True\<rparr>, w1) \<and>
    click_change fe (page_world p) rs w1 \<and> click env h p = Inr p' \<and> page_ok fe p' \<and>
    refreshed fe (w1\<lparr>pending := []\<rparr>) [screen p] [screen p'] (page_world p')"
proof -
  let ?w = "page_world p"
  obtain w1 rs where w1: "run_OnClick h \<lparr>defaultPrevented = False\<rparr> ?w = Inr (\<lparr>defaultPrevented = True\<rparr>, w1)"
      "click_change fe ?w rs w1"
    using run_OnClick_ok [OF _ h, of fe "\<lparr>defaultPrevented = False\<rparr>"] p by (auto simp: page_ok_def PreventDefault_def)
  have "pending w1 = rs" using w1(2) p by (simp add: click_change_def page_ok_def)
  obtain t' w2 where t': "flush env rs (screen p) (w1\<lparr>pending := []\<rparr>) = Inr (t', w2)"
      "refreshed fe (w1\<lparr>pending := []\<rparr>) [screen p] [t'] w2"
    using flush_ok [OF env w1(2), of "screen p"] p unfolding page_ok_def by blast
  have "click env h p = Inr \<lparr>screen = t', page_world = w2\<rparr>"
    using w1(1) t'(1) \<open>pending w1 = rs\<close> by (simp add: click_def del: go_bind_Inr_iff)
  moreover have "page_ok fe \<lparr>screen = t', page_world = w2\<rparr>"
    using t'(2) p by (auto simp: page_ok_def refreshed_def takes_place_def settles_def)
  ultimately show ?thesis using w1 t'(2) by auto
qed

end
