(* ===== verification/Client_View.thy ===== *)
theory Client_View
  imports Client_Main
begin

text \<open>
  What the user sees. Dropping the component boundaries from the screen (\<open>paint\<close>) leaves the
  HTML of the page, and on every reachable page that is a function of two things only: the
  selected parts and the open panel (\<open>page_view\<close>). A click is then a step of a small
  machine on these two (\<open>page_step\<close>), which the client refines.
\<close>

section \<open>The screen without component boundaries\<close>

fun paint :: "tree \<Rightarrow> elem" where
  "paint (TS s) = S s"
| "paint (TElem ty props ts) = Elem ty props (map paint ts)"
| "paint (TComp c i t) = paint t"

text \<open>The outermost component instances of a tree.\<close>

fun tops :: "tree \<Rightarrow> (cmp \<times> nat \<times> tree) list" where
  "tops (TS s) = []"
| "tops (TElem ty props ts) = concat (map tops ts)"
| "tops (TComp c i t) = [(c, i, t)]"

text \<open>Components replaced by elements.\<close>

fun fill :: "(cmp \<Rightarrow> elem) \<Rightarrow> elem \<Rightarrow> elem" where
  "fill f (S s) = S s"
| "fill f (Elem ty props es) = Elem ty props (map (fill f) es)"
| "fill f (Comp c) = f c"

lemma fill_no_comps: "comps e = [] \<Longrightarrow> fill f e = e"
  by (induction e) (auto simp: map_idI)

lemma tops_displays: "displays t e \<Longrightarrow> map fst (tops t) = comps e"
proof (induction t arbitrary: e)
  case (TElem ty props ts)
  then obtain es where e: "e = Elem ty props es" and all2: "list_all2 displays ts es" by auto
  from all2 TElem.IH have "map fst (concat (map tops ts)) = concat (map comps es)"
    by (induction rule: list_all2_induct) auto
  with e show ?case by simp
qed auto

lemma paint_displays:
  "displays t e \<Longrightarrow> (\<And>c i t'. (c, i, t') \<in> set (tops t) \<Longrightarrow> paint t' = f c) \<Longrightarrow> paint t = fill f e"
proof (induction t arbitrary: e)
  case (TElem ty props ts)
  then obtain es where e: "e = Elem ty props es" and all2: "list_all2 displays ts es" by auto
  have "\<And>t e. t \<in> set ts \<Longrightarrow> displays t e \<Longrightarrow> paint t = fill f e" using TElem.IH TElem.prems(2) by fastforce
  with all2 have "map paint ts = map (fill f) es" by (induction rule: list_all2_induct) auto
  with e show ?case by simp
qed auto

lemma insts_tops: "insts t = concat (map (\<lambda>(c, i, t'). (class_no c, i) # insts t') (tops t))"
proof (induction t)
  case (TElem ty props ts)
  then have "concat (map insts ts) = concat (map (\<lambda>(c, i, t'). (class_no c, i) # insts t') (concat (map tops ts)))"
    by (induction ts) auto
  then show ?case by simp
qed auto

lemma tree_handlers_paint: "tree_handlers t = elem_handlers (paint t)"
proof (induction t)
  case (TElem ty props ts)
  then have "map tree_handlers ts = map elem_handlers (map paint ts)" by simp
  then show ?case by (simp del: map_map map_eq_conv)
qed auto

lemma coherent_tops:
  "coherent fe None w t \<Longrightarrow> (c, i, t') \<in> set (tops t) \<Longrightarrow>
   holds w c i \<and> cmp_ok w c \<and> coherent fe None w t' \<and> (\<exists>e. cmp_view fe w c i = Inr e \<and> displays t' e)"
  by (induction t) (auto simp: list_all_iff)

section \<open>The page as a function of the selection and the open panel\<close>

definition preview_view :: "string list \<Rightarrow> elem" where
  "preview_view ps =
     react_Div (Some (new_ElemProps\<lparr>ClassName := ''col-xs-8''\<rparr>))
       [react_Div (Some (new_ElemProps\<lparr>ID := ''preview''\<rparr>))
          (concat (map (addPart []) (filter (\<lambda>p. p \<noteq> []) ps)))]"

definition panel_view :: "OuterDef \<Rightarrow> ChooserDef \<Rightarrow> string list \<Rightarrow> int \<Rightarrow> nat \<Rightarrow> elem" where
  "panel_view o1 ch ps op i =
     (let p = \<lparr>Category = None, Open = (op = int i), Part = int i, Selected = ps ! i,
               Update = Some o1, Expand = Some ch\<rparr>
      in panel_div p (if op = int i then map (panel_item p) (Options (hack_categories ! i)) else [])
           (Name (hack_categories ! i)))"

definition page_view :: "elem \<Rightarrow> string \<Rightarrow> OuterDef \<Rightarrow> ChooserDef \<Rightarrow> string list \<Rightarrow> int \<Rightarrow> elem" where
  "page_view fe rawQuery o1 ch ps op =
     main_root rawQuery
       (react_Div None
          [preview_view ps,
           react_Div (Some (new_ElemProps\<lparr>ClassName := ''col-xs-4''\<rparr>))
             (chooser_args ch (map (panel_view o1 ch ps op) [0..<length hack_categories]) fe)])"

text \<open>The two component instances that keep state, the selection and the open panel.\<close>

definition page_outer :: "page \<Rightarrow> OuterDef" where
  "page_outer p = OuterDef (case map_of (insts (screen p)) 0 of Some j \<Rightarrow> j | None \<Rightarrow> 0)"

definition page_chooser :: "page \<Rightarrow> ChooserDef" where
  "page_chooser p = ChooserDef (case map_of (insts (screen p)) 2 of Some k \<Rightarrow> k | None \<Rightarrow> 0)"

definition page_parts :: "page \<Rightarrow> string list" where
  "page_parts p = shown_parts (page_outer p) (page_world p)"

definition page_open :: "page \<Rightarrow> int" where
  "page_open p = (case Chooser_State (page_chooser p) (page_world p) of Inr st \<Rightarrow> ChooserState.open st | Inl _ \<Rightarrow> 0)"

lemma fill_react [simp]:
  "fill f (react_Div q es) = react_Div q (map (fill f) es)"
  "fill f (react_A qa es) = react_A qa (map (fill f) es)"
  "fill f (react_Button qb es) = react_Button qb (map (fill f) es)"
  "fill f (react_Br q es) = react_Br q (map (fill f) es)"
  "fill f (react_I q es) = react_I q (map (fill f) es)"
  by (simp_all add: react_elem_defs createElement_def)

lemma fill_main_root: "fill f (main_root rawQuery e) = main_root rawQuery (fill f e)"
  by (simp add: main_root_def ribbon_def)

lemma fill_chooser_args:
  "comps fe = [] \<Longrightarrow> map (fill f) (chooser_args ch es fe) = chooser_args ch (map (fill f) es) fe"
  by (simp add: chooser_args_def fill_no_comps)

lemma preview_painted:
  assumes "Preview_Render p w = Inr e" and "gopher_parts w (PreviewProps.Current p) = Inr ps" and "displays t e"
  shows "paint t = preview_view ps" and "insts t = []"
proof -
  have e: "e = preview_view ps" using assms(1,2) by (simp add: Preview_Render_def preview_loop_eq preview_view_def)
  note static = preview_static [OF assms(1)]
  with tops_displays [OF assms(3)] have "tops t = []" by simp
  with paint_displays [OF assms(3)] insts_tops [of t] static fill_no_comps e
  show "paint t = preview_view ps" "insts t = []" by simp_all
qed

lemma panel_category:
  "panel_item (p\<lparr>PanelProps.Category := c\<rparr>) = panel_item p"
  "panel_div (p\<lparr>PanelProps.Category := c\<rparr>) = panel_div p"
  by (simp_all add: fun_eq_iff panel_item_def panel_div_def)

lemma panel_div_view:
  assumes "deref (categories w) c = Inr (hack_categories ! i)" and "ChooserProps.Update p = Some o1"
  shows "Panel_Render (panel_props ch p st ps i c) w = Inr (panel_view o1 ch ps (ChooserState.open st) i)"
proof -
  let ?p = "panel_props ch p st ps i c"
  let ?q = "\<lparr>Category = None, Open = (ChooserState.open st = int i), Part = int i,
      Selected = ps ! i, Update = Some o1, Expand = Some ch\<rparr>"
  have "?p = ?q\<lparr>PanelProps.Category := c\<rparr>" by (simp add: panel_props_def assms(2))
  then have "panel_item ?p = panel_item ?q" "panel_div ?p = panel_div ?q" "PanelProps.Open ?p = (ChooserState.open st = int i)"
    using panel_category [of c ?q] by simp_all
  moreover have "deref (categories w) (PanelProps.Category ?p) = Inr (hack_categories ! i)"
    by (simp add: panel_props_def assms(1))
  ultimately show ?thesis by (simp only: Panel_Render_total panel_view_def Let_def)
qed

lemma panel_painted:
  assumes "deref (categories w) c = Inr (hack_categories ! i)" and "ChooserProps.Update p = Some o1"
    and "cmp_ok w (PanelC (panel_props ch p st ps i c))"
    and "Panel_Render (panel_props ch p st ps i c) w = Inr e" and "displays t e"
  shows "paint t = panel_view o1 ch ps (ChooserState.open st) i"
proof -
  have "comps e = []" using panel_handlers(1) [OF assms(4,3)] .
  then have "tops t = []" using tops_displays [OF assms(5)] by simp
  with paint_displays [OF assms(5)] fill_no_comps \<open>comps e = []\<close> have "paint t = e" by simp
  with assms(4) panel_div_view [OF assms(1,2)] show ?thesis by simp
qed

lemma chooser_painted:
  assumes env: "env_ok env fe" and coh: "coherent fe None w t"
    and cs: "list_all2 (\<lambda>q c. deref (categories w) q = Inr c) cs hack_categories"
    and u: "ChooserProps.Update p = Some o1" and d: "displays t (chooser_view fe ch p st ps cs)"
  shows "paint t = react_Div (Some (new_ElemProps\<lparr>ClassName := ''col-xs-4''\<rparr>))
    (chooser_args ch (map (panel_view o1 ch ps (ChooserState.open st)) [0..<length hack_categories]) fe)"
proof -
  let ?panel = "\<lambda>(j, c). PanelC (panel_props ch p st ps j c)" and ?op = "ChooserState.open st"
  define f where "f = (\<lambda>c. case c of PanelC q \<Rightarrow> panel_view o1 ch ps ?op (nat (PanelProps.Part q)) | _ \<Rightarrow> S [])"
  have fe: "comps fe = []" using env by (simp add: env_ok_def)
  have len: "length cs = length hack_categories" using list_all2_lengthD [OF cs] .
  have "paint t' = f c" if "(c, i, t') \<in> set (tops t)" for c i t'
  proof -
    have "c \<in> set (map fst (tops t))" using that by force
    then obtain j where j: "j < length cs" "c = PanelC (panel_props ch p st ps j (cs ! j))"
      using tops_displays [OF d] chooser_view_parts(1) [OF env] by (auto simp: set_zip)
    have "deref (categories w) (cs ! j) = Inr (hack_categories ! j)"
      using cs j(1) by (simp add: list_all2_conv_all_nth)
    from panel_painted [OF this u] coherent_tops [OF coh that] j(2)
    have "paint t' = panel_view o1 ch ps ?op j" by (auto simp: cmp_view_def)
    then show ?thesis by (simp add: f_def j(2) panel_props_def)
  qed
  then have "paint t = fill f (chooser_view fe ch p st ps cs)" by (rule paint_displays [OF d])
  moreover have "map (fill f) (map (\<lambda>(j, c). Comp (?panel (j, c))) (zip [0..<length cs] cs)) =
      map (panel_view o1 ch ps ?op) [0..<length hack_categories]"
    by (rule nth_equalityI) (simp_all add: f_def len panel_props_def)
  ultimately show ?thesis by (simp add: chooser_view_def fill_chooser_args [OF fe])
qed

text \<open>How a page that is in order is built: the root shows one \<open>Outer\<close>, which shows one
  \<open>Preview\<close> and one \<open>Chooser\<close> of the selected gopher.\<close>

definition outer_chooser :: "nat \<Rightarrow> OuterState \<Rightarrow> ChooserProps" where
  "outer_chooser j s = \<lparr>ChooserProps.Current = current s, Config = config s, Update = Some (OuterDef j)\<rparr>"

definition built :: "elem \<Rightarrow> world \<Rightarrow> tree \<Rightarrow> nat \<Rightarrow> nat \<Rightarrow> OuterState \<Rightarrow> tree \<Rightarrow> tree \<Rightarrow> tree \<Rightarrow> bool" where
  "built fe w t j k s t1 t2 t3 \<longleftrightarrow> tops t = [(OuterC, j, t1)] \<and> holds w OuterC j \<and>
     Outer_State (OuterDef j) w = Inr s \<and> displays t1 (outer_view (OuterDef j) s) \<and>
     (\<exists>l. tops t1 = [(PreviewC \<lparr>PreviewProps.Current = current s\<rparr>, l, t2), (ChooserC (outer_chooser j s), k, t3)]) \<and>
     (\<exists>e. Preview_Render \<lparr>PreviewProps.Current = current s\<rparr> w = Inr e \<and> displays t2 e) \<and>
     holds w (ChooserC (outer_chooser j s)) k \<and> cmp_ok w (ChooserC (outer_chooser j s)) \<and> coherent fe None w t3 \<and>
     (\<exists>e. cmp_view fe w (ChooserC (outer_chooser j s)) k = Inr e \<and> displays t3 e)"

lemma page_structure:
  assumes p: "page_ok fe p" and d: "displays (screen p) (main_root rawQuery (Comp OuterC))"
  shows "\<exists>j k s t1 t2 t3. built fe (page_world p) (screen p) j k s t1 t2 t3"
proof -
  let ?w = "page_world p"
  have coh: "coherent fe None ?w (screen p)" using p by (simp add: page_ok_def)
  have "comps (main_root rawQuery (Comp OuterC)) = [OuterC]" by (simp add: main_root_def ribbon_def)
  with tops_displays [OF d] obtain j t1 where top: "tops (screen p) = [(OuterC, j, t1)]" by (auto simp: map_eq_Cons_conv)
  with coherent_tops [OF coh, of OuterC j t1] obtain s where
    s: "Outer_State (OuterDef j) ?w = Inr s" "displays t1 (outer_view (OuterDef j) s)"
      "coherent fe None ?w t1" "holds ?w OuterC j"
    by (auto simp: cmp_view_def)
  let ?pc = "PreviewC \<lparr>PreviewProps.Current = current s\<rparr>" and ?cc = "ChooserC (outer_chooser j s)"
  have "comps (outer_view (OuterDef j) s) = [?pc, ?cc]" by (simp add: outer_view_def outer_chooser_def)
  with tops_displays [OF s(2)] obtain l t2 k t3 where tops: "tops t1 = [(?pc, l, t2), (?cc, k, t3)]"
    by (auto simp: map_eq_Cons_conv)
  with coherent_tops [OF s(3), of ?pc l t2] coherent_tops [OF s(3), of ?cc k t3] top s
  have "built fe ?w (screen p) j k s t1 t2 t3" unfolding built_def by (simp add: cmp_view_def [of _ _ ?pc])
  then show ?thesis by blast
qed

lemma built_insts:
  assumes "built fe w t j k s t1 t2 t3"
  shows "map_of (insts t) 0 = Some j" and "map_of (insts t) 2 = Some k"
proof -
  obtain l where tops: "tops t = [(OuterC, j, t1)]"
    "tops t1 = [(PreviewC \<lparr>PreviewProps.Current = current s\<rparr>, l, t2), (ChooserC (outer_chooser j s), k, t3)]"
    using assms by (auto simp: built_def)
  obtain e where e: "Preview_Render \<lparr>PreviewProps.Current = current s\<rparr> w = Inr e" "displays t2 e"
    using assms by (auto simp: built_def)
  then have "insts t2 = []" using preview_painted(2) [OF e(1) _ e(2)] by (auto simp: Preview_Render_def)
  with tops have "insts t = (0, j) # (1, l) # (2, k) # insts t3" by (subst insts_tops, simp, subst insts_tops, simp)
  then show "map_of (insts t) 0 = Some j" "map_of (insts t) 2 = Some k" by simp_all
qed

lemma built_painted:
  assumes env: "env_ok env fe" and b: "built fe w t j k s t1 t2 t3" and d: "displays t (main_root rawQuery (Comp OuterC))"
    and ps: "gopher_parts w (current s) = Inr ps"
  shows "\<exists>st. Chooser_State (ChooserDef k) w = Inr st \<and>
    paint t = page_view fe rawQuery (OuterDef j) (ChooserDef k) ps (ChooserState.open st)"
proof -
  let ?cp = "outer_chooser j s"
  let ?pc = "PreviewC \<lparr>PreviewProps.Current = current s\<rparr>"
  obtain cfg where cfg: "deref (configs w) (config s) = Inr cfg"
      "list_all2 (\<lambda>q c. deref (categories w) q = Inr c) (Categories cfg) hack_categories"
    using b by (auto simp: built_def cmp_ok_def outer_chooser_def config_ok_def go_map_Inr_iff)
  with b ps obtain st where st: "Chooser_State (ChooserDef k) w = Inr st"
      "displays t3 (chooser_view fe (ChooserDef k) ?cp st ps (Categories cfg))"
    by (auto simp: built_def cmp_view_def outer_chooser_def)
  define c3 where "c3 = react_Div (Some (new_ElemProps\<lparr>ClassName := ''col-xs-4''\<rparr>))
    (chooser_args (ChooserDef k) (map (panel_view (OuterDef j) (ChooserDef k) ps (ChooserState.open st)) [0..<length hack_categories]) fe)"
  have t3: "paint t3 = c3" unfolding c3_def
    using chooser_painted [OF env _ cfg(2) _ st(2), of "OuterDef j"] b by (simp add: built_def outer_chooser_def)
  have t2: "paint t2 = preview_view ps" using b ps preview_painted(1) by (fastforce simp: built_def)
  define f where "f = (\<lambda>c. case c of PreviewC _ \<Rightarrow> preview_view ps | _ \<Rightarrow> c3)"
  have d1: "displays t1 (outer_view (OuterDef j) s)" using b by (simp add: built_def)
  have "paint t1 = fill f (outer_view (OuterDef j) s)"
    by (rule paint_displays [OF d1]) (use b t2 t3 in \<open>auto simp: built_def f_def\<close>)
  then have t1: "paint t1 = react_Div None [preview_view ps, c3]" by (simp add: outer_view_def f_def)
  have "paint t = fill (\<lambda>_. react_Div None [preview_view ps, c3]) (main_root rawQuery (Comp OuterC))"
    by (rule paint_displays [OF d]) (use b t1 in \<open>auto simp: built_def\<close>)
  then have "paint t = page_view fe rawQuery (OuterDef j) (ChooserDef k) ps (ChooserState.open st)"
    by (simp add: fill_main_root page_view_def c3_def)
  with st(1) show ?thesis by blast
qed

lemma page_painted:
  assumes env: "env_ok env fe" and p: "page_ok fe p"
    and d: "displays (screen p) (main_root rawQuery (Comp OuterC))"
  shows "paint (screen p) = page_view fe rawQuery (page_outer p) (page_chooser p) (page_parts p) (page_open p)"
    and "outer_elem (page_outer p) < length (outers (page_world p))"
    and "chooser_elem (page_chooser p) < length (choosers (page_world p))"
    and "with_updater (page_chooser p) f (page_world p) = f (page_outer p) (page_world p)"
    and "fits hack_categories (page_parts p)"
proof -
  let ?w = "page_world p"
  obtain j k s t1 t2 t3 where b: "built fe ?w (screen p) j k s t1 t2 t3" using page_structure [OF p d] by blast
  then have here: "page_outer p = OuterDef j" "page_chooser p = ChooserDef k"
    using built_insts by (simp_all add: page_outer_def page_chooser_def)
  have j: "j < length (outers ?w)" and k: "k < length (choosers ?w)" "js_props (choosers ?w ! k) = Some (outer_chooser j s)"
    using b by (simp_all add: built_def holds_def exists_inst.simps)
  with here show "outer_elem (page_outer p) < length (outers ?w)"
    "chooser_elem (page_chooser p) < length (choosers ?w)"
    "with_updater (page_chooser p) f ?w = f (page_outer p) ?w"
    by (simp_all add: with_updater_def Chooser_Props_def comp_Props_def outer_chooser_def)
  have "outer_inv hack_categories (OuterDef j) ?w" using p j by (simp add: page_ok_def world_ok_def)
  then obtain ps where ps: "gopher_parts ?w (current s) = Inr ps" "selection (OuterDef j) ?w = Inr ps" "fits hack_categories ps"
    by (rule outer_inv_selection) (use b in \<open>auto simp: built_def\<close>)
  then have parts: "page_parts p = ps" by (simp add: page_parts_def here shown_parts_def)
  with ps show "fits hack_categories (page_parts p)" by simp
  from built_painted [OF env b d ps(1)] here parts
  show "paint (screen p) = page_view fe rawQuery (page_outer p) (page_chooser p) (page_parts p) (page_open p)"
    by (auto simp: page_open_def)
qed

section \<open>What can be clicked\<close>

lemma panel_view_handlers:
  "set (elem_handlers (panel_view o1 ch ps op i)) =
     insert (ExpandClick (Some ch) (int i))
       (if op = int i then ChooseItemClick (Some o1) (int i) ` set (Options (hack_categories ! i)) else {})"
  by (auto simp: panel_view_def panel_div_def panel_item_def Let_def clicked_def new_props_OnClick)

lemma preview_view_handlers: "elem_handlers (preview_view ps) = []"
  by (auto simp: preview_view_def addPart_def clicked_def new_props_OnClick)

lemma chooser_args_handlers:
  "concat (map elem_handlers (chooser_args ch es fe)) =
     [ShuffleClick ch, ResetClick ch] @ concat (map elem_handlers es) @ [SaveClick ch] @ elem_handlers fe"
  by (simp add: chooser_args_def clicked_def new_props_OnClick)

lemma main_root_handlers: "elem_handlers (main_root rawQuery e) = elem_handlers e"
  by (simp add: main_root_def ribbon_def clicked_def new_props_OnClick)

lemma UN_insert_if:
  "(\<Union>i \<in> {0..<n}. insert (f i) (if op = int i then g i ` A i else {})) =
     {f i | i. i < n} \<union> {g i v | i v. i < n \<and> op = int i \<and> v \<in> A i}"
  (is "?L = ?R")
proof (rule set_eqI)
  fix x
  have "x \<in> ?L \<longleftrightarrow> (\<exists>i. i < n \<and> (x = f i \<or> (op = int i \<and> x \<in> g i ` A i)))" by auto
  then show "x \<in> ?L \<longleftrightarrow> x \<in> ?R" by auto
qed

lemma page_view_handlers:
  assumes "elem_handlers fe = []"
  shows "set (elem_handlers (page_view fe rawQuery o1 ch ps op)) =
    {ShuffleClick ch, ResetClick ch, SaveClick ch} \<union>
    {ExpandClick (Some ch) (int i) | i. i < length hack_categories} \<union>
    {ChooseItemClick (Some o1) (int i) v | i v. i < length hack_categories \<and> op = int i \<and>
       v \<in> set (Options (hack_categories ! i))}"
proof -
  define n where "n = length hack_categories"
  have "elem_handlers (page_view fe rawQuery o1 ch ps op) =
    [ShuffleClick ch, ResetClick ch] @ concat (map elem_handlers (map (panel_view o1 ch ps op) [0..<n])) @ [SaveClick ch]"
    unfolding page_view_def main_root_handlers n_def [symmetric]
    by (simp add: preview_view_handlers chooser_args_handlers clicked_def new_props_OnClick assms)
  then have "set (elem_handlers (page_view fe rawQuery o1 ch ps op)) =
    {ShuffleClick ch, ResetClick ch, SaveClick ch} \<union> (\<Union>i \<in> {0..<n}. set (elem_handlers (panel_view o1 ch ps op i)))"
    by auto
  then show ?thesis unfolding n_def [symmetric] panel_view_handlers UN_insert_if by (simp only: Un_assoc)
qed

section \<open>A page as a small machine\<close>

record view =
  v_parts :: "string list"
  v_open :: int
  v_alerts :: "string list"

definition world_view :: "OuterDef \<Rightarrow> ChooserDef \<Rightarrow> world \<Rightarrow> view" where
  "world_view o1 ch w =
     \<lparr>v_parts = shown_parts o1 w,
      v_open = (case Chooser_State ch w of Inr st \<Rightarrow> ChooserState.open st | Inl _ \<Rightarrow> 0),
      v_alerts = alerts w\<rparr>"

definition view_of :: "page \<Rightarrow> view" where
  "view_of p = world_view (page_outer p) (page_chooser p) (page_world p)"

text \<open>What each click means, with no mention of components, instances, heaps or rendering.\<close>

inductive page_step :: "handler \<Rightarrow> view \<Rightarrow> view \<Rightarrow> bool" where
  expand: "n < length hack_categories \<Longrightarrow> page_step (ExpandClick E (int n)) v (v\<lparr>v_open := int n\<rparr>)"
| choose: "n < length hack_categories \<Longrightarrow> v_open v = int n \<Longrightarrow> x \<in> set (Options (hack_categories ! n)) \<Longrightarrow>
    page_step (ChooseItemClick U (int n) x) v (v\<lparr>v_parts := (v_parts v)[n := x]\<rparr>)"
| shuffle: "fits hack_categories ps \<Longrightarrow> page_step (ShuffleClick ch) v (v\<lparr>v_parts := ps\<rparr>)"
| reset: "page_step (ResetClick ch) v (v\<lparr>v_parts := default_parts hack_categories\<rparr>)"
| save: "page_step (SaveClick ch) v (v\<lparr>v_alerts := v_alerts v @ [''Frontend only for now...'']\<rparr>)"

inductive_cases page_stepE:
  "page_step (ExpandClick E i) v v'"
  "page_step (ChooseItemClick U i x) v v'"
  "page_step (ShuffleClick ch) v v'"
  "page_step (ResetClick ch) v v'"
  "page_step (SaveClick ch) v v'"

lemma installs_view:
  assumes "installs o1 ps w w'"
  shows "world_view o1 ch w' = (world_view o1 ch w)\<lparr>v_parts := ps\<rparr>"
proof -
  have "shown_parts o1 w' = ps" using assms by (auto simp: installs_def shown_parts_def selection_def)
  moreover have "Chooser_State ch w' = Chooser_State ch w" "alerts w' = alerts w"
    using assms by (simp_all add: installs_def Chooser_State_def)
  ultimately show ?thesis by (simp add: world_view_def)
qed

lemma Expand_view:
  assumes w': "w' = w\<lparr>choosers := cs, pending := rs\<rparr>" and "Chooser_State ch w' = Inr \<lparr>open = i\<rparr>"
  shows "world_view o1 ch w' = (world_view o1 ch w)\<lparr>v_open := i\<rparr>" and "selection o1 w' = selection o1 w"
proof -
  have "gopher_parts w' = gopher_parts w" by (rule gopher_parts_same) (simp_all add: w')
  then show sel: "selection o1 w' = selection o1 w" by (simp add: w' selection_def Outer_State_def)
  have "alerts w' = alerts w" by (simp add: w')
  with sel assms(2) show "world_view o1 ch w' = (world_view o1 ch w)\<lparr>v_open := i\<rparr>"
    by (simp add: world_view_def shown_parts_def)
qed

lemma takes_place_view:
  assumes "takes_place fe w R w'" and "outer_elem o1 < length (outers w)" and "chooser_elem ch < length (choosers w)"
    and "selection o1 w = Inr ps"
  shows "world_view o1 ch w' = world_view o1 ch w"
proof -
  have set: "settles w w'" and ev: "evolves w w' R" using assms(1) by (simp_all add: takes_place_def)
  have len: "outer_elem o1 < length (outers w')" "chooser_elem ch < length (choosers w')"
    using evolves_lengths [OF ev] assms(2,3) by simp_all
  have "Outer_State o1 w' = Outer_State o1 w" "Chooser_State ch w' = Chooser_State ch w" "alerts w' = alerts w"
    using set assms(2,3) len by (simp_all add: settles_def Outer_State_def Chooser_State_def comp_State_def)
  moreover have "grows w w'" using ev by (simp add: evolves_def)
  ultimately show ?thesis
    using assms(4) grows_gopher_parts [of w w'] by (fastforce simp: world_view_def shown_parts_def selection_def)
qed

text \<open>A handler of the page does to the world what the machine says.\<close>

lemma handler_step:
  assumes env: "env_ok env fe" and p: "page_ok fe p" and d: "displays (screen p) (main_root rawQuery (Comp OuterC))"
    and h: "h \<in> set (tree_handlers (screen p))" and run: "run_OnClick h e (page_world p) = Inr (e', w1)"
  shows "page_step h (view_of p) (world_view (page_outer p) (page_chooser p) w1)"
    and "\<exists>ps. selection (page_outer p) w1 = Inr ps"
proof -
  let ?w = "page_world p" and ?o = "page_outer p" and ?ch = "page_chooser p"
  note painted = page_painted [OF env p d]
  have wok: "world_ok fe ?w" using p by (simp add: page_ok_def)
  have "elem_handlers fe = []" using env by (simp add: env_ok_def)
  note known = page_view_handlers [OF this, of rawQuery ?o ?ch "page_parts p" "page_open p"]
  have op: "page_open p = v_open (view_of p)" "page_parts p = v_parts (view_of p)"
    by (simp_all add: view_of_def world_view_def page_open_def page_parts_def)
  have step: "page_step h (view_of p) (world_view ?o ?ch w1) \<and> (\<exists>ps. selection ?o w1 = Inr ps)"
    if "installs ?o ps ?w w1" "page_step h (view_of p) ((view_of p)\<lparr>v_parts := ps\<rparr>)" for ps
    using that installs_view [OF that(1), of ?ch] by (auto simp: view_of_def installs_def selection_def)
  have sel: "\<exists>ps. selection ?o ?w = Inr ps"
    using wok painted(2) outer_inv_selection [of hack_categories ?o ?w] by (fastforce simp: world_ok_def)
  note requests = outer_requests [OF wok painted(2)]
  have "page_step h (view_of p) (world_view ?o ?ch w1) \<and> (\<exists>ps. selection ?o w1 = Inr ps)"
  proof (cases h)
    case (ExpandClick E1 i)
    then obtain n where n: "n < length hack_categories" "i = int n" "E1 = Some ?ch"
      using h known unfolding tree_handlers_paint painted(1) by auto
    from Expand_change [OF wok painted(3), of i] obtain w' where
      w': "Expand ?ch i ?w = Inr w'" "w' = ?w\<lparr>choosers := choosers w', pending := pending w'\<rparr>"
        "Chooser_State ?ch w' = Inr \<lparr>open = i\<rparr>" by auto
    with run ExpandClick n(3) have w1: "w1 = w'" by (simp add: run_OnClick_def expandClick_OnClick_def OnClick_prevent_def)
    have "world_view ?o ?ch w1 = (view_of p)\<lparr>v_open := i\<rparr>"
      using Expand_view(1) [OF w'(2,3)] by (simp add: w1 view_of_def)
    moreover have "selection ?o w1 = selection ?o ?w"
      using Expand_view(2) [OF w'(2,3)] by (simp add: w1)
    ultimately show ?thesis using sel n ExpandClick page_step.expand by auto
  next
    case (ChooseItemClick U i x)
    then obtain n where n: "n < length hack_categories" "i = int n" "U = Some ?o" "page_open p = int n"
        "x \<in> set (Options (hack_categories ! n))"
      using h known unfolding tree_handlers_paint painted(1) by auto
    from requests(3) [OF n(1,5)] obtain w' where w': "UpdateGopher ?o (int n) x ?w = Inr w'"
      "installs ?o ((page_parts p)[n := x]) ?w w'" by (auto simp: page_parts_def)
    with run ChooseItemClick n(2,3) have "w1 = w'"
      by (simp add: run_OnClick_def chooseItemClick_OnClick_def OnClick_prevent_def)
    with step [of "(page_parts p)[n := x]"] w'(2) ChooseItemClick n page_step.choose op show ?thesis by simp
  next
    case (ShuffleClick ch)
    then have "ch = ?ch" using h known unfolding tree_handlers_paint painted(1) by auto
    from requests(2) obtain w' ps where w': "RandomGopher ?o ?w = Inr w'" "installs ?o ps ?w w'" "fits hack_categories ps"
      by auto
    with run ShuffleClick \<open>ch = ?ch\<close> painted(4) have "w1 = w'"
      by (simp add: run_OnClick_def shuffleClick_OnClick_def OnClick_prevent_def)
    with step [of ps] w' ShuffleClick page_step.shuffle show ?thesis by simp
  next
    case (ResetClick ch)
    then have "ch = ?ch" using h known unfolding tree_handlers_paint painted(1) by auto
    from requests(1) obtain w' where w': "ResetGopher ?o ?w = Inr w'" "installs ?o (default_parts hack_categories) ?w w'"
      by auto
    with run ResetClick \<open>ch = ?ch\<close> painted(4) have "w1 = w'"
      by (simp add: run_OnClick_def resetClick_OnClick_def OnClick_prevent_def)
    with step w' ResetClick page_step.reset show ?thesis by simp
  next
    case (SaveClick ch)
    then have w1: "w1 = ?w\<lparr>alerts := alerts ?w @ [''Frontend only for now...'']\<rparr>"
      using run by (simp add: run_OnClick_def saveClick_OnClick_def OnClick_prevent_def)
    have "gopher_parts w1 = gopher_parts ?w" unfolding w1 by (rule gopher_parts_same) simp_all
    then have "selection ?o w1 = selection ?o ?w" by (simp add: w1 selection_def Outer_State_def)
    moreover from this have "world_view ?o ?ch w1 = (view_of p)\<lparr>v_alerts := v_alerts (view_of p) @ [''Frontend only for now...'']\<rparr>"
      by (simp add: w1 world_view_def view_of_def shown_parts_def Chooser_State_def)
    ultimately show ?thesis using sel SaveClick page_step.save by simp
  qed
  then show "page_step h (view_of p) (world_view (page_outer p) (page_chooser p) w1)"
    and "\<exists>ps. selection (page_outer p) w1 = Inr ps" by blast+
qed

end
