(* ===== verification/Client_Reach.thy ===== *)
theory Client_Reach
  imports Client_View
begin

text \<open>
  The reachable pages: what \<open>main\<close> puts up, and what clicks on what is shown lead to. Every
  reachable page is in order, shows the view of its selection, and each of its clicks is a
  step of the machine of \<open>Client_View\<close>.
\<close>

section \<open>What a fresh page shows\<close>

text \<open>The state a mounted instance starts with, as far as instances have any.\<close>

definition starts :: "world \<Rightarrow> inst \<Rightarrow> bool" where
  "starts w x \<longleftrightarrow> exists_inst w x \<and>
     (fst x = 0 \<longrightarrow> selection (OuterDef (snd x)) w = Inr (default_parts hack_categories)) \<and>
     (fst x = 2 \<longrightarrow> Chooser_State (ChooserDef (snd x)) w = Inr \<lparr>open = 0\<rparr>)"

lemma starts_stays:
  assumes "starts w x" and "takes_place fe w R w'"
  shows "starts w' x"
proof -
  have ev: "evolves w w' R" and set: "settles w w'" using assms(2) by (simp_all add: takes_place_def)
  have gr: "grows w w'" using ev by (simp add: evolves_def)
  have "selection (OuterDef (snd x)) w' = Inr (default_parts hack_categories)" if "fst x = 0"
  proof -
    have "snd x < length (outers w)" using assms(1) that by (cases x) (simp add: starts_def exists_inst.simps)
    then have "Outer_State (OuterDef (snd x)) w' = Outer_State (OuterDef (snd x)) w"
      using set evolves_lengths(1) [OF ev] by (simp add: settles_def Outer_State_def)
    then show ?thesis
      using assms(1) that grows_gopher_parts [OF gr] by (fastforce simp: starts_def selection_def)
  qed
  moreover have "Chooser_State (ChooserDef (snd x)) w' = Inr \<lparr>open = 0\<rparr>" if "fst x = 2"
  proof -
    have "snd x < length (choosers w)" using assms(1) that by (cases x) (simp add: starts_def exists_inst.simps)
    then have "Chooser_State (ChooserDef (snd x)) w' = Chooser_State (ChooserDef (snd x)) w"
      using set evolves_lengths(2) [OF ev] by (simp add: settles_def Chooser_State_def comp_State_def)
    then show ?thesis using assms(1) that by (simp add: starts_def)
  qed
  ultimately show ?thesis using assms(1) evolves_exists [OF ev] by (simp add: starts_def)
qed

lemma new_instance_starts:
  assumes env: "env_ok env fe" and wok: "world_ok fe w" and new: "new_instance env c w = Inr (i, w')"
  shows "starts w' (class_no c, i)"
proof (cases c)
  case OuterC
  let ?d = "default_parts hack_categories"
  from ComponentWillMount_ok [OF env wok refl refl] new OuterC have i: "i = length (outers w)" and
    w': "w' = snd (new_gopher ?d w)\<lparr>outers := outers w @
        [\<lparr>js_props = None, lastState = Some \<lparr>current = fst (new_gopher ?d w), config = hackConfig_ptr,
          rand = Some (length (rands w))\<rparr>\<rparr>],
      rands := rands w @ [new_Rand (env_src env) (env_now env)], pending := pending w\<rparr>"
    by (auto simp: new_instance_def Let_def)
  have "gopher_parts w' = gopher_parts (snd (new_gopher ?d w))"
    by (rule gopher_parts_same) (simp_all add: w')
  then show ?thesis
    by (simp add: OuterC starts_def exists_inst.simps selection_def Outer_State_def comp_State_def i w' nth_append)
qed (use new in \<open>auto simp: new_instance_def starts_def exists_inst.simps Chooser_State_def comp_State_def
      getInitialState_def nth_append\<close>)

lemma mount_starts:
  "env_ok env fe \<Longrightarrow> world_ok fe w \<Longrightarrow> elem_fits w n e \<Longrightarrow> mount env n e w = Inr (t, w') \<Longrightarrow>
     list_all (starts w') (insts t)"
  "env_ok env fe \<Longrightarrow> world_ok fe w \<Longrightarrow> list_all (elem_fits w n) es \<Longrightarrow> mount_list env n es w = Inr (ts, w') \<Longrightarrow>
     list_all (starts w') (concat (map insts ts))"
proof (induction env n e w and env n es w arbitrary: t w' and ts w' rule: mount_mount_list.induct)
  case (2 env n ty props es w)
  then have "list_all (elem_fits w n) es" by (auto simp: elem_fits_def list_all_iff)
  with 2 show ?case by auto
next
  case (4 env n c w)
  have ok: "cmp_ok w c" "rank c \<le> Suc n" using "4.prems"(3) by (simp_all add: elem_fits_def)
  obtain i w1 where i: "new_instance env c w = Inr (i, w1)" "takes_place fe w {} w1" "holds w1 c i"
    using new_instance_ok [OF "4.prems"(1,2) ok(1)] by blast
  have "cmp_ok w1 c" using cmp_ok_evolves ok(1) i(2) unfolding takes_place_def by blast
  with i obtain e w2 where e: "renders_well env fe c i w1 e w2"
    using render_ok [OF "4.prems"(1) takes_place_ok [OF i(2)]] by blast
  then have r: "render_instance env c i w1 = Inr (e, w2)" by (simp add: renders_well_def)
  have tp: "takes_place fe w1 {} w2"
    using e takes_place_change [OF takes_place_ok [OF i(2)]] by (simp add: renders_well_def)
  note fit = elem_fits_rendered [OF e takes_place_ok [OF i(2)] ok(2)]
  obtain t1 w3 where t1: "mount env n e w2 = Inr (t1, w3)" "placed fe w2 {} [t1] [e] w3"
    using mount_placed(1) [OF "4.prems"(1) takes_place_ok [OF tp] fit] by blast
  have "list_all (starts w3) (insts t1)"
    by (rule "4.IH" [OF i(1) refl r refl "4.prems"(1) takes_place_ok [OF tp] fit t1(1)])
  moreover have "starts w3 (class_no c, i)"
    using starts_stays [OF starts_stays [OF new_instance_starts [OF "4.prems"(1,2) i(1)] tp]] t1(2)
    unfolding placed_def by blast
  ultimately show ?case using "4.prems"(4) i(1) r t1(1) by auto
next
  case (6 env n e es w)
  obtain t1 w1 where t1: "mount env n e w = Inr (t1, w1)" "placed fe w {} [t1] [e] w1"
    using mount_placed(1) "6.prems" by fastforce
  have fit: "list_all (elem_fits w1 n) es"
    using "6.prems"(3) t1(2) elem_fits_evolves by (auto simp: list_all_iff placed_def)
  obtain ts1 w2 where ts1: "mount_list env n es w1 = Inr (ts1, w2)" "placed fe w1 {} ts1 es w2"
    using mount_placed(2) [OF "6.prems"(1) placed_ok [OF t1(2)] fit] by blast
  have "list_all (starts w1) (insts t1)" using "6.IH"(1) "6.prems" t1(1) by simp
  then have "list_all (starts w2) (insts t1)"
    using ts1(2) starts_stays by (auto simp: list_all_iff placed_def)
  moreover have "list_all (starts w2) (concat (map insts ts1))"
    using "6.IH"(2) [OF t1(1) refl "6.prems"(1) placed_ok [OF t1(2)] fit ts1(1)] .
  ultimately show ?case using "6.prems"(4) t1(1) ts1(1) by auto
qed auto

text \<open>What \<open>main\<close> puts up.\<close>

lemma main_view:
  assumes env: "env_ok env fe" and url: "url_Parse (document_URL d) = Inr rawQuery"
    and main: "main env url_Parse d init_world = Inr (c, p)"
  shows "page_ok fe p" and "displays (screen p) (main_root rawQuery (Comp OuterC))"
    and "view_of p = \<lparr>v_parts = default_parts hack_categories, v_open = 0, v_alerts = []\<rparr>"
proof -
  let ?e = "main_root rawQuery (Comp OuterC)" and ?d = "default_parts hack_categories"
  have c: "elements_by_id d ''gopherize.me'' = Some c"
    using main by (auto simp: main_def url Let_def GetElementByID_def react_Render_def split: option.splits prod.splits)
  note main_ok = main_ok [where url_Parse = url_Parse, OF env url c]
  from main_ok main show ok: "page_ok fe p" and disp: "displays (screen p) ?e" by auto
  have al: "alerts (page_world p) = []" using main_ok main by auto
  obtain w1 where w1: "Outer init_world = (Comp OuterC, w1)" and ch: "render_change init_world w1"
      "htmlCache w1 = htmlCache init_world"
    using CreateElement_change [of "''OuterDef''" OuterC init_world]
    by (simp add: Outer_def buildOuterElem_def CreateElement_def)
  have ok1: "world_ok fe w1"
    using world_ok_change [OF world_ok_init ch(1)] ch(2) by (simp add: cache_ok_def init_world_def)
  have "comps ?e = [OuterC]" by (simp add: main_root_def ribbon_def)
  then have fit: "elem_fits w1 nesting ?e" by (simp add: elem_fits_def nesting_def cmp_ok_def)
  have "mount env nesting ?e w1 = Inr (screen p, page_world p)"
    using main by (auto simp: main_def url w1 Let_def GetElementByID_def c react_Render_def)
  from mount_starts(1) [OF env ok1 fit this]
  have st: "starts (page_world p) x" if "x \<in> set (insts (screen p))" for x
    using that by (simp add: list_all_iff)
  obtain j k s t1 t2 t3 where b: "built fe (page_world p) (screen p) j k s t1 t2 t3"
    using page_structure [OF ok disp] by blast
  note ins = built_insts [OF b]
  then have "selection (OuterDef j) (page_world p) = Inr ?d" "Chooser_State (ChooserDef k) (page_world p) = Inr \<lparr>open = 0\<rparr>"
    using st [of "(0, j)"] st [of "(2, k)"] map_of_SomeD [OF ins(1)] map_of_SomeD [OF ins(2)]
    by (simp_all add: starts_def)
  with ins al show "view_of p = \<lparr>v_parts = ?d, v_open = 0, v_alerts = []\<rparr>"
    by (simp add: view_of_def world_view_def page_outer_def page_chooser_def shown_parts_def)
qed

section \<open>Reachable pages\<close>

inductive reachable :: "env \<Rightarrow> (string \<Rightarrow> string + string) \<Rightarrow> document \<Rightarrow> page \<Rightarrow> bool"
  for env url_Parse d where
  start: "main env url_Parse d init_world = Inr (c, p) \<Longrightarrow> reachable env url_Parse d p"
| step: "reachable env url_Parse d p \<Longrightarrow> h \<in> set (tree_handlers (screen p)) \<Longrightarrow> click env h p = Inr p' \<Longrightarrow>
    reachable env url_Parse d p'"

text \<open>Clicks in sequence, each on something that is shown when its turn comes.\<close>

inductive clicks :: "env \<Rightarrow> page \<Rightarrow> handler list \<Rightarrow> page \<Rightarrow> bool" for env where
  none: "clicks env p [] p"
| more: "h \<in> set (tree_handlers (screen p)) \<Longrightarrow> click env h p = Inr p' \<Longrightarrow> clicks env p' hs p'' \<Longrightarrow>
    clicks env p (h # hs) p''"

lemma reachable_clicks: "clicks env p hs p' \<Longrightarrow> reachable env url_Parse d p \<Longrightarrow> reachable env url_Parse d p'"
  by (induction rule: clicks.induct) (auto intro: reachable.step)

lemma clicks_append: "clicks env p hs p' \<Longrightarrow> clicks env p' hs' p'' \<Longrightarrow> clicks env p (hs @ hs') p''"
  by (induction rule: clicks.induct) (auto intro: clicks.more)

text \<open>The element the footer is parsed to.\<close>

definition footer_elem :: "env \<Rightarrow> elem" where
  "footer_elem env = (case HTMLElem (env_pf env) footer [] of Inr (fe, _) \<Rightarrow> fe | Inl _ \<Rightarrow> S [])"

lemma env_ok_footer: "good_env env \<Longrightarrow> env_ok env (footer_elem env)"
proof -
  assume "good_env env"
  then obtain fe where "env_ok env fe" using good_env_ok by blast
  moreover from this have "footer_elem env = fe" by (auto simp: env_ok_def footer_elem_def)
  ultimately show ?thesis by simp
qed

text \<open>A page in order, for a given query; the open panel is one of the panels.\<close>

definition in_order :: "env \<Rightarrow> string \<Rightarrow> page \<Rightarrow> bool" where
  "in_order env rawQuery p \<longleftrightarrow> page_ok (footer_elem env) p \<and>
     displays (screen p) (main_root rawQuery (Comp OuterC)) \<and>
     (\<exists>n < length hack_categories. page_open p = int n)"

lemma view_of_sel:
  "v_parts (view_of p) = page_parts p" "v_open (view_of p) = page_open p" "v_alerts (view_of p) = alerts (page_world p)"
  by (simp_all add: view_of_def world_view_def page_parts_def page_open_def)

text \<open>What the steps do, by kind of click.\<close>

lemma page_step_view:
  "page_step (ExpandClick E i) v v' \<Longrightarrow> v' = v\<lparr>v_open := i\<rparr>"
  "page_step (ChooseItemClick U (int n) x) v v' \<Longrightarrow> v' = v\<lparr>v_parts := (v_parts v)[n := x]\<rparr>"
  "page_step (ResetClick ch) v v' \<Longrightarrow> v' = v\<lparr>v_parts := default_parts hack_categories\<rparr>"
  "page_step (SaveClick ch) v v' \<Longrightarrow> v' = v\<lparr>v_alerts := v_alerts v @ [''Frontend only for now...'']\<rparr>"
  by (auto elim!: page_stepE)

lemma fresh_in_order:
  assumes "page_ok (footer_elem env) p" and "displays (screen p) (main_root rawQuery (Comp OuterC))"
    and "view_of p = \<lparr>v_parts = default_parts hack_categories, v_open = 0, v_alerts = []\<rparr>"
  shows "in_order env rawQuery p"
proof -
  have "page_open p = int 0" using assms(3) view_of_sel(2) [of p] by simp
  moreover have "0 < length hack_categories" by (simp add: hack_categories_def)
  ultimately show ?thesis using assms by (auto simp: in_order_def)
qed

lemma main_in_order:
  assumes "good_env env" and "url_Parse (document_URL d) = Inr rawQuery" and "elements_by_id d ''gopherize.me'' = Some c"
  shows "\<exists>p. main env url_Parse d init_world = Inr (c, p) \<and> in_order env rawQuery p \<and>
    view_of p = \<lparr>v_parts = default_parts hack_categories, v_open = 0, v_alerts = []\<rparr>"
proof -
  note env = env_ok_footer [OF assms(1)]
  obtain p where p: "main env url_Parse d init_world = Inr (c, p)"
    using main_ok [where url_Parse = url_Parse, OF env assms(2,3)] by blast
  from main_view [where url_Parse = url_Parse, OF env assms(2) p] show ?thesis
    using p fresh_in_order [of env p rawQuery] by blast
qed

lemma click_in_order:
  assumes "good_env env" and p: "in_order env rawQuery p" and h: "h \<in> set (tree_handlers (screen p))"
  shows "\<exists>w1 p'. run_OnClick h \<lparr>defaultPrevented = False\<rparr> (page_world p) = Inr (\<lparr>defaultPrevented = True\<rparr>, w1) \<and>
    click env h p = Inr p' \<and> in_order env rawQuery p' \<and> page_step h (view_of p) (view_of p') \<and>
    insts (screen p') = insts (screen p) \<and> grows (page_world p) (page_world p')"
proof -
  let ?fe = "footer_elem env" and ?w = "page_world p" and ?root = "main_root rawQuery (Comp OuterC)"
  note env = env_ok_footer [OF assms(1)]
  have ok: "page_ok ?fe p" and d: "displays (screen p) ?root"
    using p by (simp_all add: in_order_def)
  have "handler_ok ?w h"
    by (rule coherent_handlers [OF env _ _ d _ h]) (use ok in \<open>auto simp: page_ok_def main_root_handlers\<close>)
  from click_ok [OF env ok this] obtain w1 rs p' where
    run: "run_OnClick h \<lparr>defaultPrevented = False\<rparr> ?w = Inr (\<lparr>defaultPrevented = True\<rparr>, w1)"
    and ch: "click_change ?fe ?w rs w1" and click: "click env h p = Inr p'" and ok': "page_ok ?fe p'"
    and ref: "refreshed ?fe (w1\<lparr>pending := []\<rparr>) [screen p] [screen p'] (page_world p')" by blast
  let ?w1 = "w1\<lparr>pending := []\<rparr>"
  have d': "displays (screen p') ?root" and ins: "insts (screen p') = insts (screen p)"
    and tp: "takes_place ?fe ?w1 (set (insts (screen p))) (page_world p')"
    using ref d by (auto simp: refreshed_def)
  have same: "page_outer p' = page_outer p" "page_chooser p' = page_chooser p"
    using ins by (simp_all add: page_outer_def page_chooser_def)
  note painted = page_painted(2,3) [OF env ok d] and st = handler_step [OF env ok d h run]
  have ev: "evolves ?w w1 (set (map inst_no rs))" using ch by (simp add: click_change_def)
  have "gopher_parts ?w1 = gopher_parts w1" by (rule gopher_parts_same) simp_all
  then have w1: "selection (page_outer p) ?w1 = selection (page_outer p) w1"
    "world_view (page_outer p) (page_chooser p) ?w1 = world_view (page_outer p) (page_chooser p) w1"
    by (simp_all add: selection_def Outer_State_def world_view_def shown_parts_def Chooser_State_def)
  obtain ps where "selection (page_outer p) ?w1 = Inr ps" using st(2) w1(1) by auto
  from takes_place_view [OF tp _ _ this] evolves_lengths [OF ev] painted w1(2)
  have "view_of p' = world_view (page_outer p) (page_chooser p) w1" by (simp add: view_of_def same)
  with st(1) have step: "page_step h (view_of p) (view_of p')" by simp
  then have "\<exists>n < length hack_categories. page_open p' = int n"
    using p by (cases rule: page_step.cases) (auto simp: in_order_def view_of_sel [symmetric])
  moreover have "grows ?w (page_world p')"
  proof -
    have "grows ?w w1" using ev by (simp add: evolves_def)
    then have "grows ?w ?w1" by (simp add: grows_def)
    with tp show ?thesis by (auto simp: takes_place_def evolves_def intro: grows_trans)
  qed
  ultimately show ?thesis using run click ok' d' step ins by (auto simp: in_order_def)
qed

lemma reachable_in_order:
  assumes "good_env env" and "url_Parse (document_URL d) = Inr rawQuery" and "reachable env url_Parse d p"
  shows "in_order env rawQuery p"
  using assms(3)
proof (induction rule: reachable.induct)
  case (start c p)
  have "view_of p = \<lparr>v_parts = default_parts hack_categories, v_open = 0, v_alerts = []\<rparr>" "page_ok (footer_elem env) p"
    "displays (screen p) (main_root rawQuery (Comp OuterC))"
    using main_view [where url_Parse = url_Parse, OF env_ok_footer [OF assms(1)] assms(2) start] by simp_all
  then show ?case using fresh_in_order by blast
next
  case (step p h p')
  with click_in_order [OF assms(1) step.IH step.hyps(2)] show ?case by auto
qed

lemma in_order_handlers:
  assumes "good_env env" and "in_order env rawQuery p"
  shows "set (tree_handlers (screen p)) =
    {ShuffleClick (page_chooser p), ResetClick (page_chooser p), SaveClick (page_chooser p)} \<union>
    {ExpandClick (Some (page_chooser p)) (int i) | i. i < length hack_categories} \<union>
    {ChooseItemClick (Some (page_outer p)) (int i) v | i v. i < length hack_categories \<and> page_open p = int i \<and>
       v \<in> set (Options (hack_categories ! i))}"
proof -
  note env = env_ok_footer [OF assms(1)]
  then have "elem_handlers (footer_elem env) = []" by (simp add: env_ok_def)
  note handlers = page_view_handlers [OF this, of rawQuery "page_outer p" "page_chooser p" "page_parts p" "page_open p"]
  have "paint (screen p) = page_view (footer_elem env) rawQuery (page_outer p) (page_chooser p) (page_parts p) (page_open p)"
    using page_painted(1) [OF env] assms(2) unfolding in_order_def by blast
  then show ?thesis using handlers by (simp only: tree_handlers_paint)
qed

section \<open>The page offers the interface UpdateGopher to its user\<close>

text \<open>What the user does to reset, to choose an item (open its panel, then click on it) and to
  shuffle.\<close>

definition user_reset :: "env \<Rightarrow> page \<Rightarrow> page go" where
  "user_reset env p = click env (ResetClick (page_chooser p)) p"

definition user_pick :: "env \<Rightarrow> int \<Rightarrow> string \<Rightarrow> page \<Rightarrow> page go" where
  "user_pick env i v p =
     go_bind (click env (ExpandClick (Some (page_chooser p)) i) p) (\<lambda>p'.
       click env (ChooseItemClick (Some (page_outer p')) i v) p')"

definition user_shuffle :: "env \<Rightarrow> page \<Rightarrow> page go" where
  "user_shuffle env p = click env (ShuffleClick (page_chooser p)) p"

lemma user_pick_clicks:
  assumes env: "good_env env" and p: "in_order env rawQuery p" and i: "i < length hack_categories"
    and v: "v \<in> set (Options (hack_categories ! i))"
  shows "\<exists>hs p'. user_pick env (int i) v p = Inr p' \<and> clicks env p hs p' \<and> length hs = 2 \<and>
    in_order env rawQuery p' \<and> page_parts p' = (page_parts p)[i := v]"
proof -
  let ?h = "ExpandClick (Some (page_chooser p)) (int i)"
  have "?h \<in> set (tree_handlers (screen p))" unfolding in_order_handlers [OF env p] using i by blast
  with click_in_order [OF env p] obtain p1 where p1: "click env ?h p = Inr p1" "in_order env rawQuery p1"
      "page_step ?h (view_of p) (view_of p1)" by blast
  let ?h1 = "ChooseItemClick (Some (page_outer p1)) (int i) v"
  have op: "page_open p1 = int i" and parts: "page_parts p1 = page_parts p"
    using page_step_view(1) [OF p1(3)] by (simp_all flip: view_of_sel)
  have "?h1 \<in> set (tree_handlers (screen p1))"
    unfolding in_order_handlers [OF env p1(2)] using i v op by blast
  moreover from this click_in_order [OF env p1(2)] obtain p' where p': "click env ?h1 p1 = Inr p'" "in_order env rawQuery p'"
      "page_step ?h1 (view_of p1) (view_of p')" by blast
  ultimately have "clicks env p [?h, ?h1] p'"
    using \<open>?h \<in> set (tree_handlers (screen p))\<close> p1(1) by (auto intro: clicks.intros)
  moreover have "page_parts p' = (page_parts p)[i := v]"
    using page_step_view(2) [OF p'(3)] parts by (simp flip: view_of_sel)
  moreover have "user_pick env (int i) v p = Inr p'" using p1(1) p'(1) by (simp add: user_pick_def)
  ultimately show ?thesis using p'(2) by (intro exI [of _ "[?h, ?h1]"] exI [of _ p']) simp
qed

interpretation user: gopher_updater hack_categories "\<lambda>p. good_env env \<and> in_order env rawQuery p" page_parts
  "user_reset env" "user_pick env" "user_shuffle env" for env rawQuery
proof
  fix p
  assume "good_env env \<and> in_order env rawQuery p"
  then have env: "good_env env" and p: "in_order env rawQuery p" by simp_all
  show "fits hack_categories (page_parts p)"
    using page_painted(5) [OF env_ok_footer [OF env]] p unfolding in_order_def by blast
  have shown: "ResetClick (page_chooser p) \<in> set (tree_handlers (screen p))"
    "ShuffleClick (page_chooser p) \<in> set (tree_handlers (screen p))"
    unfolding in_order_handlers [OF env p] by simp_all
  show "\<exists>p'. user_reset env p = Inr p' \<and> (good_env env \<and> in_order env rawQuery p') \<and>
      page_parts p' = default_parts hack_categories"
  proof -
    from click_in_order [OF env p shown(1)] obtain p' where
      p': "click env (ResetClick (page_chooser p)) p = Inr p'" "in_order env rawQuery p'"
        "page_step (ResetClick (page_chooser p)) (view_of p) (view_of p')" by blast
    have "page_parts p' = default_parts hack_categories"
      using page_step_view(3) [OF p'(3)] by (simp flip: view_of_sel)
    with p' env show ?thesis unfolding user_reset_def by blast
  qed
  show "\<exists>p'. user_shuffle env p = Inr p' \<and> (good_env env \<and> in_order env rawQuery p')"
    using click_in_order [OF env p shown(2)] env unfolding user_shuffle_def by blast
  show "\<exists>p'. user_pick env (int i) v p = Inr p' \<and> (good_env env \<and> in_order env rawQuery p') \<and>
      page_parts p' = (page_parts p)[i := v]"
    if "i < length hack_categories" "v \<in> set (Options (hack_categories ! i))" for i v
    using user_pick_clicks [OF env p that] env by blast
qed

text \<open>Requests that choose items are clicks, two for each.\<close>

lemma choices_clicks:
  assumes "good_env env"
  shows "in_order env rawQuery p \<Longrightarrow>
    \<forall>(i, v) \<in> set cs. i < length hack_categories \<and> v \<in> set (Options (hack_categories ! i)) \<Longrightarrow>
    serve_all (user_reset env) (user_pick env) (user_shuffle env) (map (\<lambda>(i, v). Choose i v) cs) p = Inr p' \<Longrightarrow>
    \<exists>hs. clicks env p hs p' \<and> length hs = 2 * length cs"
proof (induction cs arbitrary: p)
  case Nil
  then show ?case by (auto intro: clicks.none)
next
  case (Cons c cs)
  obtain i v where c: "c = (i, v)" by (cases c)
  with Cons.prems user_pick_clicks [OF assms Cons.prems(1), of i v] obtain hs p1 where
    p1: "user_pick env (int i) v p = Inr p1" "clicks env p hs p1" "length hs = 2" "in_order env rawQuery p1" by auto
  with Cons.IH [OF p1(4)] Cons.prems c obtain hs' where "clicks env p1 hs' p'" "length hs' = 2 * length cs" by auto
  with p1 clicks_append show ?case by (intro exI [of _ "hs @ hs'"]) auto
qed

lemma all_gophers_by_clicks:
  assumes "good_env env" and "in_order env rawQuery p" and "fits hack_categories ps"
  shows "\<exists>hs p'. clicks env p hs p' \<and> length hs = 2 * length hack_categories \<and> page_parts p' = ps"
proof -
  from user.reach_all [of env rawQuery p ps] assms obtain p' where
    p': "serve_all (user_reset env) (user_pick env) (user_shuffle env)
        (map (\<lambda>(i, v). Choose i v) (zip [0..<length ps] ps)) p = Inr p'" "page_parts p' = ps" by blast
  have "\<forall>(i, v) \<in> set (zip [0..<length ps] ps). i < length hack_categories \<and> v \<in> set (Options (hack_categories ! i))"
    using fits_nth [OF assms(3)] fits_length [OF assms(3)] by (auto simp: set_zip)
  from choices_clicks [OF assms(1,2) this p'(1)] p'(2) fits_length [OF assms(3)] show ?thesis by auto
qed

end
