(* ===== verification/Go_Io.thy ===== *)
theory Go_Io
  imports Go_Prelude
begin

text \<open>
  The part of Go's package \<open>io\<close> that the tokenizer relies on. A reader hands out its
  bytes in portions of its own choosing: it may give fewer bytes than asked for, none at all
  for a while, and may report its final error together with the last bytes or after them.
  The locale \<open>io_reader\<close> states what every reader promises; \<open>Read\<close> is a reader with
  all of these freedoms, and \<open>strings.NewReader\<close> is an instance of it.
\<close>

section \<open>Readers\<close>

datatype io_error = EOF | ErrNoProgress | ErrBufferExceeded | ReaderError string

text \<open>\<open>readAtLeastOneByte\<close>, for a \<open>Read\<close> method given as an argument: up to a number of
  tries. The result is the bytes read, the error, and the reader after the calls.\<close>

primrec read_tries ::
  "nat \<Rightarrow> ('r \<Rightarrow> nat \<Rightarrow> string \<times> io_error option \<times> 'r) \<Rightarrow> 'r \<Rightarrow> nat \<Rightarrow> string \<times> io_error option \<times> 'r" where
  "read_tries 0 rd r m = ([], Some ErrNoProgress, r)"
| "read_tries (Suc i) rd r m =
     (case rd r m of
        (bs, e, r') \<Rightarrow> if bs \<noteq> [] \<or> e \<noteq> None then (bs, e, r') else read_tries i rd r' m)"

definition readAtLeastOneByte ::
  "('r \<Rightarrow> nat \<Rightarrow> string \<times> io_error option \<times> 'r) \<Rightarrow> 'r \<Rightarrow> nat \<Rightarrow> string \<times> io_error option \<times> 'r" where
  "readAtLeastOneByte rd r m = read_tries 100 rd r m"

text \<open>It never returns without bytes and without an error.\<close>

lemma readAtLeastOneByte_result:
  "readAtLeastOneByte rd r m = (bs, e, r') \<Longrightarrow> bs = [] \<Longrightarrow> e \<noteq> None"
proof -
  have "read_tries i rd r m = (bs, e, r') \<Longrightarrow> bs = [] \<Longrightarrow> e \<noteq> None" for i
    by (induction i arbitrary: r) (auto split: prod.splits if_splits)
  then show "readAtLeastOneByte rd r m = (bs, e, r') \<Longrightarrow> bs = [] \<Longrightarrow> e \<noteq> None"
    by (simp add: readAtLeastOneByte_def)
qed

section \<open>What a reader promises\<close>

text \<open>
  \<open>rest\<close> is what the reader has still to deliver, \<open>fin\<close> the error it ends with. A reader
  that is \<open>patient\<close> stays so, and makes fewer than a hundred empty reads in a row:
  \<open>waits\<close> counts those that are ahead.
\<close>

locale io_reader =
  fixes rd :: "'r \<Rightarrow> nat \<Rightarrow> string \<times> io_error option \<times> 'r"
    and rest :: "'r \<Rightarrow> string" and fin :: "'r \<Rightarrow> io_error"
    and waits :: "'r \<Rightarrow> nat" and patient :: "'r \<Rightarrow> bool"
  assumes read_le: "rd r m = (bs, e, r') \<Longrightarrow> length bs \<le> m"
    and read_split: "rd r m = (bs, e, r') \<Longrightarrow> rest r = bs @ rest r'"
    and read_fin: "rd r m = (bs, e, r') \<Longrightarrow> fin r' = fin r"
    and read_err: "rd r m = (bs, Some x, r') \<Longrightarrow> x = fin r \<and> rest r' = []"
    and read_wait: "rd r m = ([], None, r') \<Longrightarrow> 0 < m \<Longrightarrow> waits r' < waits r"
    and read_patient: "patient r \<Longrightarrow> rd r m = (bs, e, r') \<Longrightarrow> patient r'"
    and patient_waits: "patient r \<Longrightarrow> waits r < 100"
begin

lemma read_tries_split: "read_tries i rd r m = (bs, e, r') \<Longrightarrow> rest r = bs @ rest r'"
  by (induction i arbitrary: r) (auto split: prod.splits if_splits dest: read_split)

lemma read_tries_fin: "read_tries i rd r m = (bs, e, r') \<Longrightarrow> fin r' = fin r"
  by (induction i arbitrary: r) (auto split: prod.splits if_splits dest: read_fin)

lemma read_tries_le: "read_tries i rd r m = (bs, e, r') \<Longrightarrow> length bs \<le> m"
  by (induction i arbitrary: r) (auto split: prod.splits if_splits dest: read_le)

lemma read_tries_patient: "patient r \<Longrightarrow> read_tries i rd r m = (bs, e, r') \<Longrightarrow> patient r'"
  by (induction i arbitrary: r) (auto split: prod.splits if_splits dest: read_patient)

text \<open>Enough tries for the empty reads that are ahead lead to bytes or to the final error.\<close>

lemma read_tries_result:
  "read_tries i rd r m = (bs, e, r') \<Longrightarrow> waits r < i \<Longrightarrow> 0 < m \<Longrightarrow>
   (bs = [] \<longrightarrow> e \<noteq> None) \<and> (\<forall>x. e = Some x \<longrightarrow> x = fin r \<and> rest r' = [])"
proof (induction i arbitrary: r)
  case (Suc i)
  obtain bs1 e1 r1 where rd1: "rd r m = (bs1, e1, r1)" by (cases "rd r m") auto
  show ?case
  proof (cases "bs1 \<noteq> [] \<or> e1 \<noteq> None")
    case True
    then show ?thesis using Suc.prems rd1 read_err by auto
  next
    case False
    then have "waits r1 < i" using read_wait rd1 Suc.prems by force
    then show ?thesis using Suc False rd1 read_fin [OF rd1] by auto
  qed
qed simp

lemma readAtLeastOneByte_split:
  "readAtLeastOneByte rd r m = (bs, e, r') \<Longrightarrow> rest r = bs @ rest r'"
  by (auto simp: readAtLeastOneByte_def dest: read_tries_split)

lemma readAtLeastOneByte_le: "readAtLeastOneByte rd r m = (bs, e, r') \<Longrightarrow> length bs \<le> m"
  by (auto simp: readAtLeastOneByte_def dest: read_tries_le)

lemma readAtLeastOneByte_patient:
  assumes "readAtLeastOneByte rd r m = (bs, e, r')" and "patient r" and "0 < m"
  shows "patient r'" and "fin r' = fin r" and "bs = [] \<Longrightarrow> e = Some (fin r)"
    and "e = Some x \<Longrightarrow> x = fin r \<and> rest r' = []"
  using assms read_tries_patient read_tries_fin read_tries_result [OF _ patient_waits]
  by (fastforce simp: readAtLeastOneByte_def)+

end

section \<open>A reader with every freedom\<close>

text \<open>
  The bytes still to come, how many of them each coming call is willing to give (after the
  list is used up: as many as fit), whether the error comes with the last bytes, and the error.
\<close>

record reader =
  content :: string
  offers :: "nat list"
  eager :: bool
  final :: io_error

definition Read :: "reader \<Rightarrow> nat \<Rightarrow> string \<times> io_error option \<times> reader" where
  "Read r m =
     (if content r = [] then ([], Some (final r), r)
      else
        let k = (case offers r of [] \<Rightarrow> m | n # _ \<Rightarrow> min n m);
            rest = drop k (content r)
        in (take k (content r), if rest = [] \<and> eager r then Some (final r) else None,
            r\<lparr>content := rest, offers := tl (offers r)\<rparr>))"

text \<open>\<open>strings.NewReader\<close>.\<close>

definition strings_NewReader :: "string \<Rightarrow> reader" where
  "strings_NewReader s = \<lparr>content = s, offers = [], eager = False, final = EOF\<rparr>"

definition empty_reads :: "reader \<Rightarrow> nat" where
  "empty_reads r = length (takeWhile (\<lambda>n. n = 0) (offers r))"

text \<open>Fewer than a hundred empty offers in a row, \<open>z\<close> of them just seen.\<close>

fun patient_from :: "nat \<Rightarrow> nat list \<Rightarrow> bool" where
  "patient_from z [] = True"
| "patient_from z (n # ns) =
     (if n = 0 then Suc z < 100 \<and> patient_from (Suc z) ns else patient_from 0 ns)"

definition patient_reader :: "reader \<Rightarrow> bool" where
  "patient_reader r = patient_from 0 (offers r)"

lemma patient_from_mono: "patient_from z ns \<Longrightarrow> y \<le> z \<Longrightarrow> patient_from y ns"
  by (induction ns arbitrary: y z) (auto split: if_splits)

lemma patient_from_tl: "patient_from 0 ns \<Longrightarrow> patient_from 0 (tl ns)"
  by (cases ns) (auto split: if_splits elim: patient_from_mono)

lemma patient_from_zeros:
  "patient_from z ns \<Longrightarrow> z < 100 \<Longrightarrow> z + length (takeWhile (\<lambda>n. n = 0) ns) < 100"
  by (induction ns arbitrary: z) (fastforce split: if_splits)+

interpretation rd: io_reader Read content final empty_reads patient_reader
proof
  show "length bs \<le> m" if "Read r m = (bs, e, r')" for r m bs e r'
    using that by (auto simp: Read_def Let_def split: if_splits list.splits)
  show "content r = bs @ content r'" if "Read r m = (bs, e, r')" for r m bs e r'
    using that by (auto simp: Read_def Let_def split: if_splits)
  show "final r' = final r" if "Read r m = (bs, e, r')" for r m bs e r'
    using that by (auto simp: Read_def Let_def split: if_splits)
  show "x = final r \<and> content r' = []" if "Read r m = (bs, Some x, r')" for r m bs x r'
    using that by (auto simp: Read_def Let_def split: if_splits)
  show "empty_reads r' < empty_reads r" if "Read r m = ([], None, r')" and "0 < m" for r m r'
    using that by (auto simp: Read_def Let_def empty_reads_def split: if_splits list.splits)
  show "patient_reader r'" if "patient_reader r" and "Read r m = (bs, e, r')" for r m bs e r'
    using that patient_from_tl by (auto simp: Read_def Let_def patient_reader_def split: if_splits)
  show "empty_reads r < 100" if "patient_reader r" for r
    using that patient_from_zeros [of 0 "offers r"] by (simp add: patient_reader_def empty_reads_def)
qed

end
