(* ===== verification/Html_Escape.thy ===== *)
theory Html_Escape
  imports Html_Entity
begin

text \<open>
  \<^verbatim>\<open>golang.org/x/net/html/escape.go\<close>: escaping, and unescaping in place. The code
  unescapes into the buffer it reads from, behind the read cursor; \<open>unescape_spec\<close> is the
  same on lists, with no buffer. Runes are \<open>int32\<close>: the accumulation of digits wraps around.
\<close>

section \<open>Runes and UTF-8\<close>

definition wrap32 :: "int \<Rightarrow> int" where
  "wrap32 x = (x + 2147483648) mod 4294967296 - 2147483648"

definition byte :: "nat \<Rightarrow> char" where
  "byte n = char_of n"

text \<open>\<open>utf8.EncodeRune\<close>: the bytes it writes. A rune is read as an unsigned 32-bit value;
  surrogates and values beyond the last code point are written as U+FFFD.\<close>

definition encode_u32 :: "nat \<Rightarrow> string" where
  "encode_u32 i =
     (if i \<le> 127 then [byte i]
      else if i \<le> 2047 then [byte (192 + i div 64), byte (128 + i mod 64)]
      else
        let j = (if 1114111 < i \<or> (55296 \<le> i \<and> i \<le> 57343) then 65533 else i)
        in if j \<le> 65535
           then [byte (224 + j div 4096), byte (128 + j div 64 mod 64), byte (128 + j mod 64)]
           else [byte (240 + j div 262144), byte (128 + j div 4096 mod 64),
                 byte (128 + j div 64 mod 64), byte (128 + j mod 64)])"

definition EncodeRune :: "int \<Rightarrow> string" where
  "EncodeRune r = encode_u32 (nat (r mod 4294967296))"

definition replacementTable :: "int list" where
  "replacementTable =
     [0x20AC, 0x0081, 0x201A, 0x0192, 0x201E, 0x2026, 0x2020, 0x2021,
      0x02C6, 0x2030, 0x0160, 0x2039, 0x0152, 0x008D, 0x017D, 0x008F,
      0x0090, 0x2018, 0x2019, 0x201C, 0x201D, 0x2022, 0x2013, 0x2014,
      0x02DC, 0x2122, 0x0161, 0x203A, 0x0153, 0x009D, 0x017E, 0x0178]"

section \<open>Unescaping one entity\<close>

text \<open>Writing \<open>bs\<close> into the buffer from index \<open>dst\<close> on.\<close>

definition put :: "string \<Rightarrow> nat \<Rightarrow> string \<Rightarrow> string go" where
  "put b dst bs =
     (if dst + length bs \<le> length b then Inr (take dst b @ bs @ drop (dst + length bs) b)
      else Inl IndexOutOfRange)"

definition in_range :: "char \<Rightarrow> char \<Rightarrow> char \<Rightarrow> bool" where
  "in_range lo hi c \<longleftrightarrow> (of_char lo :: nat) \<le> of_char c \<and> (of_char c :: nat) \<le> of_char hi"

definition digit_value :: "bool \<Rightarrow> char \<Rightarrow> int option" where
  "digit_value hex c =
     (if in_range (CHR ''0'') (CHR ''9'') c then Some (of_char c - of_char (CHR ''0''))
      else if hex \<and> in_range (CHR ''a'') (CHR ''f'') c then Some (of_char c - of_char (CHR ''a'') + 10)
      else if hex \<and> in_range (CHR ''A'') (CHR ''F'') c then Some (of_char c - of_char (CHR ''A'') + 10)
      else None)"

text \<open>The digit loop: the rune accumulated and the number of bytes consumed, a closing
  semicolon included.\<close>

fun num_loop :: "bool \<Rightarrow> int \<Rightarrow> string \<Rightarrow> int \<times> nat" where
  "num_loop hex x [] = (x, 0)"
| "num_loop hex x (c # cs) =
     (case digit_value hex c of
        Some d \<Rightarrow> (case num_loop hex (wrap32 ((if hex then 16 else 10) * x + d)) cs of
                     (x', k) \<Rightarrow> (x', Suc k))
      | None \<Rightarrow> (x, if c = CHR '';'' then 1 else 0))"

definition is_alnum :: "char \<Rightarrow> bool" where
  "is_alnum c \<longleftrightarrow> in_range (CHR ''a'') (CHR ''z'') c \<or> in_range (CHR ''A'') (CHR ''Z'') c \<or>
     in_range (CHR ''0'') (CHR ''9'') c"

text \<open>The name loop: the number of bytes of the name, a closing semicolon included.\<close>

fun name_loop :: "string \<Rightarrow> nat" where
  "name_loop [] = 0"
| "name_loop (c # cs) =
     (if is_alnum c then Suc (name_loop cs) else if c = CHR '';'' then 1 else 0)"

text \<open>The loop over the prefixes of a name, longest first.\<close>

fun prefix_loop :: "string \<Rightarrow> nat \<Rightarrow> (nat \<times> int) option" where
  "prefix_loop name 0 = None"
| "prefix_loop name (Suc 0) = None"
| "prefix_loop name (Suc (Suc j)) =
     (let x = entity (take (Suc (Suc j)) name)
      in if x \<noteq> 0 then Some (Suc (Suc j), x) else prefix_loop name (Suc j))"

definition fix_rune :: "int \<Rightarrow> int" where
  "fix_rune x =
     (if 0x80 \<le> x \<and> x \<le> 0x9F then replacementTable ! nat (x - 0x80)
      else if x = 0 \<or> (0xD800 \<le> x \<and> x \<le> 0xDFFF) \<or> 0x10FFFF < x then 0xFFFD
      else x)"

text \<open>
  The decisions of \<open>unescapeEntity\<close> on the text \<open>s\<close> from the ampersand on. In every
  branch the code either copies \<open>n\<close> bytes (\<open>keep n\<close>) or writes the bytes \<open>out\<close> in
  place of \<open>n\<close> bytes (\<open>emit out n\<close>). First the numeric references, then the named ones.
\<close>

definition numeric_ref :: "(nat \<Rightarrow> 'r) \<Rightarrow> (string \<Rightarrow> nat \<Rightarrow> 'r) \<Rightarrow> string \<Rightarrow> 'r" where
  "numeric_ref keep emit s =
     (if length s \<le> 3 then keep 1
      else
        let hex = (s ! 2 = CHR ''x'' \<or> s ! 2 = CHR ''X'');
            i0 = (if hex then 3 else 2);
            (x, k) = num_loop hex 0 (drop i0 s);
            i = i0 + k
        in if i \<le> 3 then keep 1 else emit (EncodeRune (fix_rune x)) i)"

definition named_lookup ::
  "(nat \<Rightarrow> 'r) \<Rightarrow> (string \<Rightarrow> nat \<Rightarrow> 'r) \<Rightarrow> bool \<Rightarrow> string \<Rightarrow> nat \<Rightarrow> string \<Rightarrow> 'r" where
  "named_lookup keep emit attribute s i entityName =
     (if entityName = [] then keep i
      else if attribute \<and> last entityName \<noteq> CHR '';'' \<and> i < length s \<and> s ! i = CHR ''=''
      then keep i
      else if entity entityName \<noteq> 0 then emit (EncodeRune (entity entityName)) i
      else if fst (entity2 entityName) \<noteq> 0 then
        emit (EncodeRune (fst (entity2 entityName)) @ EncodeRune (snd (entity2 entityName))) i
      else if \<not> attribute then
        (case prefix_loop entityName
                (min (length entityName - 1) longestEntityWithoutSemicolon) of
           Some (j, x) \<Rightarrow> emit (EncodeRune x) (j + 1)
         | None \<Rightarrow> keep i)
      else keep i)"

definition named_ref :: "(nat \<Rightarrow> 'r) \<Rightarrow> (string \<Rightarrow> nat \<Rightarrow> 'r) \<Rightarrow> bool \<Rightarrow> string \<Rightarrow> 'r" where
  "named_ref keep emit attribute s =
     (let k = name_loop (drop 1 s)
      in named_lookup keep emit attribute s (1 + k) (take k (drop 1 s)))"

definition entity_walk :: "(nat \<Rightarrow> 'r) \<Rightarrow> (string \<Rightarrow> nat \<Rightarrow> 'r) \<Rightarrow> bool \<Rightarrow> string \<Rightarrow> 'r" where
  "entity_walk keep emit attribute s =
     (if length s \<le> 1 then keep 1
      else if s ! 1 = CHR ''#'' then numeric_ref keep emit s
      else named_ref keep emit attribute s)"

definition unescapeEntity :: "string \<Rightarrow> nat \<Rightarrow> nat \<Rightarrow> bool \<Rightarrow> (string \<times> nat \<times> nat) go" where
  "unescapeEntity b dst src attribute =
     entity_walk
       (\<lambda>n. go_bind (put b dst (take n (drop src b))) (\<lambda>b'. Inr (b', dst + n, src + n)))
       (\<lambda>out n. go_bind (put b dst out) (\<lambda>b'. Inr (b', dst + length out, src + n)))
       attribute (drop src b)"

section \<open>The same without a buffer\<close>

text \<open>The bytes an entity at the start of \<open>s\<close> stands for, and how many bytes of \<open>s\<close> it
  takes.\<close>

definition entity_at :: "bool \<Rightarrow> string \<Rightarrow> string \<times> nat" where
  "entity_at attribute s = entity_walk (\<lambda>n. (take n s, n)) (\<lambda>out n. (out, n)) attribute s"

lemma length_num_loop: "num_loop hex x cs = (x', k) \<Longrightarrow> k \<le> length cs"
  by (induction hex x cs arbitrary: x' k rule: num_loop.induct)
    (fastforce split: option.splits prod.splits if_splits)+

lemma length_name_loop: "name_loop cs \<le> length cs"
  by (induction cs) auto

lemma prefix_loop_Some:
  "prefix_loop name j = Some (k, x) \<Longrightarrow> 2 \<le> k \<and> k \<le> j \<and> x = entity (take k name) \<and> x \<noteq> 0"
  by (induction name j rule: prefix_loop.induct) (auto simp: Let_def split: if_splits)

text \<open>Every outcome of the walk keeps or emits, with these bounds.\<close>

lemma numeric_ref_cases:
  assumes "s \<noteq> []" and "P (keep 1)"
    and "\<And>x i. 3 < i \<Longrightarrow> i \<le> length s \<Longrightarrow> P (emit (EncodeRune x) i)"
  shows "P (numeric_ref keep emit s)"
proof -
  let ?hex = "s ! 2 = CHR ''x'' \<or> s ! 2 = CHR ''X''"
  obtain x k where l: "num_loop ?hex 0 (drop (if ?hex then 3 else 2) s) = (x, k)" by force
  then have "k \<le> length s - (if ?hex then 3 else 2)" using length_num_loop by fastforce
  then show ?thesis
    using l assms by (auto simp: numeric_ref_def Let_def)
qed

lemma named_lookup_cases:
  assumes i: "i = Suc (length name)" and "P (keep i)"
    and one: "\<And>name'. entity name' \<noteq> 0 \<Longrightarrow> length name' \<le> length name \<Longrightarrow>
      P (emit (EncodeRune (entity name')) (Suc (length name')))"
    and two: "fst (entity2 name) \<noteq> 0 \<Longrightarrow>
      P (emit (EncodeRune (fst (entity2 name)) @ EncodeRune (snd (entity2 name))) i)"
  shows "P (named_lookup keep emit a s i name)"
proof -
  have "P (emit (EncodeRune x) (Suc j))"
    if "prefix_loop name (min (length name - Suc 0) longestEntityWithoutSemicolon) = Some (j, x)" for j x
  proof -
    have "j \<le> length name" "x = entity (take j name)" "x \<noteq> 0"
      using prefix_loop_Some [OF that] by auto
    then show ?thesis using one [of "take j name"] by simp
  qed
  moreover have "entity name \<noteq> 0 \<Longrightarrow> P (emit (EncodeRune (entity name)) i)"
    using one [of name] i by simp
  ultimately show ?thesis
    using assms(2) two by (simp add: named_lookup_def split: option.split prod.split)
qed

lemma named_ref_cases:
  assumes "s \<noteq> []" and keep: "\<And>n. 1 \<le> n \<Longrightarrow> n \<le> length s \<Longrightarrow> P (keep n)"
    and one: "\<And>name. entity name \<noteq> 0 \<Longrightarrow> length name < length s \<Longrightarrow>
      P (emit (EncodeRune (entity name)) (Suc (length name)))"
    and two: "\<And>name. fst (entity2 name) \<noteq> 0 \<Longrightarrow> length name < length s \<Longrightarrow>
      P (emit (EncodeRune (fst (entity2 name)) @ EncodeRune (snd (entity2 name))) (Suc (length name)))"
  shows "P (named_ref keep emit a s)"
proof -
  define k where "k = name_loop (drop 1 s)"
  have s: "k < length s"
    using length_name_loop [of "drop 1 s"] assms(1) by (cases s) (auto simp: k_def)
  define name where "name = take k (drop 1 s)"
  have l: "length name = k" using s by (simp add: name_def)
  have "P (named_lookup keep emit a s (Suc k) name)"
  proof (rule named_lookup_cases [where P = P])
    show "P (keep (Suc k))" using keep s by simp
    show "P (emit (EncodeRune (entity nm)) (Suc (length nm)))"
      if "entity nm \<noteq> 0" and "length nm \<le> length name" for nm
      using one that l s by simp
    show "P (emit (EncodeRune (fst (entity2 name)) @ EncodeRune (snd (entity2 name))) (Suc k))"
      if "fst (entity2 name) \<noteq> 0"
      using two [OF that] l s by simp
  qed (simp add: l)
  then show ?thesis by (simp add: named_ref_def Let_def k_def name_def)
qed

lemma entity_walk_cases:
  assumes "s \<noteq> []" and keep: "\<And>n. 1 \<le> n \<Longrightarrow> n \<le> length s \<Longrightarrow> P (keep n)"
    and num: "\<And>x i. 3 < i \<Longrightarrow> i \<le> length s \<Longrightarrow> P (emit (EncodeRune x) i)"
    and one: "\<And>name. entity name \<noteq> 0 \<Longrightarrow> length name < length s \<Longrightarrow>
      P (emit (EncodeRune (entity name)) (Suc (length name)))"
    and two: "\<And>name. fst (entity2 name) \<noteq> 0 \<Longrightarrow> length name < length s \<Longrightarrow>
      P (emit (EncodeRune (fst (entity2 name)) @ EncodeRune (snd (entity2 name))) (Suc (length name)))"
  shows "P (entity_walk keep emit a s)"
proof -
  have "P (keep 1)" using keep [of 1] assms(1) by (cases s) auto
  then show ?thesis
    using numeric_ref_cases [of s P keep emit] named_ref_cases [of s P keep emit a] assms
    by (simp add: entity_walk_def)
qed

lemma named_lookup_comp:
  "f (named_lookup keep emit a s i name) =
   named_lookup (\<lambda>n. f (keep n)) (\<lambda>out n. f (emit out n)) a s i name"
  by (simp add: named_lookup_def split: option.split prod.split)

lemma numeric_ref_comp:
  "f (numeric_ref keep emit s) = numeric_ref (\<lambda>n. f (keep n)) (\<lambda>out n. f (emit out n)) s"
  by (simp add: numeric_ref_def Let_def split: prod.split)

lemma entity_walk_comp:
  "f (entity_walk keep emit a s) = entity_walk (\<lambda>n. f (keep n)) (\<lambda>out n. f (emit out n)) a s"
  by (simp add: entity_walk_def named_ref_def Let_def named_lookup_comp [of f] numeric_ref_comp [of f])

text \<open>Two ways of handling the outcomes agree when they agree on the outcomes that occur.\<close>

lemma entity_walk_keep_cong:
  assumes "\<And>n. 1 \<le> n \<Longrightarrow> n \<le> length s \<Longrightarrow> keep n = keep' n" and "s \<noteq> []"
  shows "entity_walk keep emit a s = entity_walk keep' emit a s"
proof -
  have "name_loop (drop 1 s) < length s"
    using length_name_loop [of "drop 1 s"] assms(2) by (cases s) auto
  then have "keep 1 = keep' 1" and "keep (1 + name_loop (drop 1 s)) = keep' (1 + name_loop (drop 1 s))"
    using assms by (cases s; simp)+
  then show ?thesis
    unfolding entity_walk_def numeric_ref_def named_ref_def named_lookup_def Let_def
    by (simp only: cong: if_cong)
qed

lemma unescapeEntity_eq:
  assumes "src < length b"
  shows "unescapeEntity b dst src a =
    (case entity_at a (drop src b) of
       (out, n) \<Rightarrow> go_bind (put b dst out) (\<lambda>b'. Inr (b', dst + length out, src + n)))"
proof -
  have "min (length b - src) n = n" if "n \<le> length (drop src b)" for n
    using that by simp
  then show ?thesis
    unfolding unescapeEntity_def entity_at_def entity_walk_comp
      [of "\<lambda>r. case r of (out, n) \<Rightarrow> go_bind (put b dst out) (\<lambda>b'. Inr (b', dst + length out, src + n))"] prod.case
    using assms by (intro entity_walk_keep_cong) auto
qed

section \<open>No replacement is wider than its name\<close>

text \<open>Unescaping in place is sound because what is written never overtakes what is still to be
  read. For the named references this is a property of the tables.\<close>

definition rune_width :: "int \<Rightarrow> nat" where
  "rune_width x = (if x < 128 then 1 else if x < 2048 then 2 else if x < 65536 then 3 else 4)"

definition narrow :: "string \<times> int \<Rightarrow> bool" where
  "narrow p \<longleftrightarrow> 0 < snd p \<and> snd p < 1114112 \<and> rune_width (snd p) \<le> Suc (length (fst p))"

lemma length_encode_u32:
  "length (encode_u32 i) =
     (if i \<le> 127 then 1 else if i \<le> 2047 then 2
      else if i \<le> 65535 \<or> 1114111 < i then 3 else 4)"
  by (auto simp: encode_u32_def Let_def)

lemma length_EncodeRune: "1 \<le> length (EncodeRune x)" "length (EncodeRune x) \<le> 4"
  by (simp_all add: EncodeRune_def length_encode_u32)

lemma length_EncodeRune_width:
  assumes "0 \<le> x" and "x < 1114112"
  shows "length (EncodeRune x) \<le> rune_width x"
proof -
  have "x mod 4294967296 = x" using assms by simp
  then show ?thesis
    using assms by (auto simp: EncodeRune_def length_encode_u32 rune_width_def nat_le_iff)
qed

lemma narrow_entity_tables: "list_all (list_all narrow) entity_tables"
  unfolding entity_tables_def
  by (simp add: entity_table_defs narrow_def rune_width_def)

lemma narrow_entity2_table:
  "list_all (\<lambda>(name, x, y). 0 \<le> x \<and> x < 1114112 \<and> 0 \<le> y \<and> y < 1114112 \<and>
     rune_width x + rune_width y \<le> Suc (length name)) entity2_table"
  by (simp add: entity2_table_def rune_width_def)

lemma lookup_tables_mem: "lookup_tables ts name = Some x \<Longrightarrow> \<exists>t \<in> set ts. (name, x) \<in> set t"
  by (induction ts) (auto split: option.splits dest: map_of_SomeD)

lemma entity_width: "entity name \<noteq> 0 \<Longrightarrow> length (EncodeRune (entity name)) \<le> Suc (length name)"
proof -
  assume "entity name \<noteq> 0"
  then obtain x where x: "lookup_tables entity_tables name = Some x" "entity name = x"
    by (auto simp: entity_def split: option.splits)
  then have "narrow (name, x)"
    using narrow_entity_tables lookup_tables_mem by (fastforce simp: list_all_iff)
  then show ?thesis
    using length_EncodeRune_width [of x] x(2) by (auto simp: narrow_def)
qed

lemma entity2_width:
  assumes "fst (entity2 name) \<noteq> 0"
  shows "length (EncodeRune (fst (entity2 name)) @ EncodeRune (snd (entity2 name))) \<le> Suc (length name)"
proof -
  from assms obtain x y where xy: "map_of entity2_table name = Some (x, y)" "entity2 name = (x, y)"
    by (auto simp: entity2_def split: option.splits)
  then have "0 \<le> x \<and> x < 1114112 \<and> 0 \<le> y \<and> y < 1114112 \<and>
      rune_width x + rune_width y \<le> Suc (length name)"
    using narrow_entity2_table by (auto simp: list_all_iff dest!: map_of_SomeD)
  then show ?thesis
    using length_EncodeRune_width [of x] length_EncodeRune_width [of y] xy(2) by auto
qed

lemma entity_at_bounds:
  assumes "s \<noteq> []"
  shows "length (fst (entity_at a s)) \<le> snd (entity_at a s)"
    and "1 \<le> snd (entity_at a s)" and "snd (entity_at a s) \<le> length s"
proof -
  have "length (fst (entity_at a s)) \<le> snd (entity_at a s) \<and> 1 \<le> snd (entity_at a s) \<and>
      snd (entity_at a s) \<le> length s"
    unfolding entity_at_def
  proof (rule entity_walk_cases [OF assms])
    fix x i assume "3 < i" and "i \<le> length s"
    then show "length (fst (EncodeRune x, i)) \<le> snd (EncodeRune x, i) \<and>
        1 \<le> snd (EncodeRune x, i) \<and> snd (EncodeRune x, i) \<le> length s"
      using length_EncodeRune(2) [of x] by simp
  qed (auto dest: entity_width entity2_width)
  then show "length (fst (entity_at a s)) \<le> snd (entity_at a s)"
    and "1 \<le> snd (entity_at a s)" and "snd (entity_at a s) \<le> length s"
    by auto
qed

section \<open>Unescaping a buffer\<close>

lemma put_Inr_iff:
  "put b dst bs = Inr b' \<longleftrightarrow>
     dst + length bs \<le> length b \<and> b' = take dst b @ bs @ drop (dst + length bs) b"
  by (auto simp: put_def)

lemma unescapeEntity_progress:
  assumes "unescapeEntity b dst src a = Inr (b', dst', src')" and "src < length b"
  shows "length b' = length b" and "src < src'"
  using assms entity_at_bounds(2) [of "drop src b" a]
  by (auto simp: unescapeEntity_eq put_Inr_iff split: prod.splits)

text \<open>The inner loop of \<open>unescape\<close>, with its two cursors: the buffer it leaves and the
  number of bytes of the result.\<close>

function unescape_loop :: "string \<Rightarrow> nat \<Rightarrow> nat \<Rightarrow> bool \<Rightarrow> (string \<times> nat) go" where
  "unescape_loop b dst src attribute =
     (if src < length b then
        if b ! src = CHR ''&''
        then (case unescapeEntity b dst src attribute of
                Inl e \<Rightarrow> Inl e
              | Inr (b', dst', src') \<Rightarrow> unescape_loop b' dst' src' attribute)
        else (case go_store b (int dst) (b ! src) of
                Inl e \<Rightarrow> Inl e
              | Inr b' \<Rightarrow> unescape_loop b' (dst + 1) (src + 1) attribute)
      else Inr (b, dst))"
  by pat_completeness auto
termination
proof (relation "measure (\<lambda>(b, dst, src, a). length b - src)")
  fix b :: string and dst src :: nat and a :: bool and r b' p dst' src'
  assume "src < length b" "unescapeEntity b dst src a = Inr r" "(b', p) = r" "(dst', src') = p"
  then show "((b', dst', src', a), b, dst, src, a) \<in> measure (\<lambda>(b, dst, src, a). length b - src)"
    using unescapeEntity_progress [of b dst src a b' dst' src'] by auto
qed (auto simp: go_store_Inr_iff)

declare unescape_loop.simps [simp del]

fun index_byte :: "char \<Rightarrow> string \<Rightarrow> nat option" where
  "index_byte c [] = None"
| "index_byte c (x # xs) = (if x = c then Some 0 else map_option Suc (index_byte c xs))"

definition unescape_mem :: "string \<Rightarrow> bool \<Rightarrow> (string \<times> nat) go" where
  "unescape_mem b attribute =
     (case index_byte (CHR ''&'') b of
        None \<Rightarrow> Inr (b, length b)
      | Some i \<Rightarrow>
          (case unescapeEntity b i i attribute of
             Inl e \<Rightarrow> Inl e
           | Inr (b', dst, src) \<Rightarrow> unescape_loop b' dst src attribute))"

definition unescape :: "string \<Rightarrow> bool \<Rightarrow> string go" where
  "unescape b attribute = go_bind (unescape_mem b attribute) (\<lambda>(b', n). Inr (take n b'))"

definition UnescapeString :: "string \<Rightarrow> string go" where
  "UnescapeString s = (if CHR ''&'' \<in> set s then unescape s False else Inr s)"

text \<open>The specification: no buffer, no cursors.\<close>

function unescape_spec :: "bool \<Rightarrow> string \<Rightarrow> string" where
  "unescape_spec a [] = []"
| "unescape_spec a (c # cs) =
     (if c = CHR ''&''
      then fst (entity_at a (c # cs)) @ unescape_spec a (drop (snd (entity_at a (c # cs))) (c # cs))
      else c # unescape_spec a cs)"
  by pat_completeness auto
termination
proof (relation "measure (\<lambda>(a, s). length s)")
  fix a c cs
  show "((a, drop (snd (entity_at a (c # cs))) (c # cs)), a, c # cs) \<in> measure (\<lambda>(a, s). length s)"
    using entity_at_bounds(2) [of "c # cs" a] by (cases "snd (entity_at a (c # cs))") auto
qed auto

declare unescape_spec.simps(2) [simp del]

lemma unescape_spec_amp:
  "s \<noteq> [] \<Longrightarrow> s ! 0 = CHR ''&'' \<Longrightarrow>
   unescape_spec a s = fst (entity_at a s) @ unescape_spec a (drop (snd (entity_at a s)) s)"
  by (cases s) (auto simp: unescape_spec.simps(2))

lemma unescape_spec_other: "c \<noteq> CHR ''&'' \<Longrightarrow> unescape_spec a (c # s) = c # unescape_spec a s"
  by (simp add: unescape_spec.simps(2))

lemma unescape_spec_prefix:
  "CHR ''&'' \<notin> set p \<Longrightarrow> unescape_spec a (p @ s) = p @ unescape_spec a s"
  by (induction p) (auto simp: unescape_spec_other)

text \<open>Writing behind the read cursor does not disturb what is still to be read.\<close>

lemma put_behind:
  assumes "dst + length out \<le> src" and "src \<le> length b"
  shows "put b dst out = Inr (take dst b @ out @ drop (dst + length out) b)"
    and "length (take dst b @ out @ drop (dst + length out) b) = length b"
    and "take (dst + length out) (take dst b @ out @ drop (dst + length out) b) = take dst b @ out"
    and "drop src (take dst b @ out @ drop (dst + length out) b) = drop src b"
  using assms by (auto simp: put_def)

lemma unescapeEntity_behind:
  assumes "dst \<le> src" and "src < length b" and "entity_at a (drop src b) = (out, n)"
  shows "unescapeEntity b dst src a =
      Inr (take dst b @ out @ drop (dst + length out) b, dst + length out, src + n)"
    and "dst + length out \<le> src + n" and "src + n \<le> length b"
proof -
  have "length out \<le> n" "n \<le> length b - src"
    using entity_at_bounds(1,3) [of "drop src b" a] assms(2,3) by auto
  then show bounds: "dst + length out \<le> src + n" "src + n \<le> length b" using assms by auto
  show "unescapeEntity b dst src a =
      Inr (take dst b @ out @ drop (dst + length out) b, dst + length out, src + n)"
    using put_behind(1) [OF bounds] assms by (simp add: unescapeEntity_eq)
qed

text \<open>What the loop leaves: a buffer of the same length that starts with the result.\<close>

definition leaves :: "string \<Rightarrow> string \<Rightarrow> (string \<times> nat) go \<Rightarrow> bool" where
  "leaves b out m \<longleftrightarrow> (\<exists>b' n. m = Inr (b', n) \<and> length b' = length b \<and> n \<le> length b \<and> take n b' = out)"

lemma leavesI: "length b' = length b \<Longrightarrow> n \<le> length b \<Longrightarrow> take n b' = out \<Longrightarrow> leaves b out (Inr (b', n))"
  by (auto simp: leaves_def)

lemma leaves_cong: "leaves b out m \<Longrightarrow> length b = length c \<Longrightarrow> out = out' \<Longrightarrow> leaves c out' m"
  by (auto simp: leaves_def)

lemma unescape_loop_spec:
  "dst \<le> src \<Longrightarrow> src \<le> length b \<Longrightarrow>
   leaves b (take dst b @ unescape_spec a (drop src b)) (unescape_loop b dst src a)"
proof (induction b dst src a rule: unescape_loop.induct)
  case (1 b dst src a)
  consider (stop) "\<not> src < length b" | (amp) "src < length b" "b ! src = CHR ''&''"
    | (other) "src < length b" "b ! src \<noteq> CHR ''&''" by blast
  then show ?case
  proof cases
    case stop
    with "1.prems" show ?thesis by (auto simp: unescape_loop.simps intro!: leavesI)
  next
    case amp
    obtain out n where en: "entity_at a (drop src b) = (out, n)" by force
    let ?b = "take dst b @ out @ drop (dst + length out) b"
    note eq = unescapeEntity_behind(1) [OF "1.prems"(1) amp(1) en]
    note w = unescapeEntity_behind(2,3) [OF "1.prems"(1) amp(1) en]
    note pb = put_behind [OF w]
    have "leaves ?b (take (dst + length out) ?b @ unescape_spec a (drop (src + n) ?b))
        (unescape_loop ?b (dst + length out) (src + n) a)"
      using "1.IH"(1) [OF amp eq] w pb(2) by simp
    moreover have "unescape_spec a (drop src b) = out @ unescape_spec a (drop (src + n) b)"
      using unescape_spec_amp [of "drop src b" a] amp en by (simp add: add.commute)
    ultimately have "leaves b (take dst b @ unescape_spec a (drop src b))
        (unescape_loop ?b (dst + length out) (src + n) a)"
      using pb(2,3,4) by (elim leaves_cong) simp_all
    then show ?thesis
      using amp eq by (subst unescape_loop.simps) simp
  next
    case other
    let ?b = "b[dst := b ! src]"
    have st: "go_store b (int dst) (b ! src) = Inr ?b"
      using "1.prems" other by (simp add: go_store_def)
    have "leaves ?b (take (dst + 1) ?b @ unescape_spec a (drop (src + 1) ?b))
        (unescape_loop ?b (dst + 1) (src + 1) a)"
      using "1.IH"(2) [OF other st] "1.prems" other by simp
    moreover have "take (dst + 1) ?b = take dst b @ [b ! src]"
      using "1.prems" other by (simp add: take_Suc_conv_app_nth)
    moreover have "unescape_spec a (drop src b) = b ! src # unescape_spec a (drop (src + 1) b)"
      using unescape_spec_other [OF other(2)] other by (simp add: Cons_nth_drop_Suc [symmetric])
    ultimately have "leaves b (take dst b @ unescape_spec a (drop src b))
        (unescape_loop ?b (dst + 1) (src + 1) a)"
      using "1.prems" by (elim leaves_cong) simp_all
    then show ?thesis
      using other st by (subst unescape_loop.simps) simp
  qed
qed

lemma index_byte_None: "index_byte c s = None \<longleftrightarrow> c \<notin> set s"
  by (induction s) auto

lemma index_byte_Some:
  "index_byte c s = Some i \<Longrightarrow> i < length s \<and> s ! i = c \<and> c \<notin> set (take i s)"
  by (induction s arbitrary: i) (auto split: if_splits)

lemma unescape_mem_spec: "leaves b (unescape_spec a b) (unescape_mem b a)"
proof (cases "index_byte (CHR ''&'') b")
  case None
  then have "CHR ''&'' \<notin> set b" by (simp add: index_byte_None)
  then show ?thesis
    using unescape_spec_prefix [of b a "[]"] None by (simp add: unescape_mem_def leavesI)
next
  case (Some i)
  then have i: "i < length b" "b ! i = CHR ''&''" "CHR ''&'' \<notin> set (take i b)"
    using index_byte_Some by auto
  have "unescape_mem b a = unescape_loop b i i a"
    using Some i by (subst unescape_loop.simps) (simp add: unescape_mem_def)
  moreover have "leaves b (take i b @ unescape_spec a (drop i b)) (unescape_loop b i i a)"
    using i by (simp add: unescape_loop_spec)
  moreover have "take i b @ unescape_spec a (drop i b) = unescape_spec a b"
    using unescape_spec_prefix [OF i(3), of a "drop i b"] by simp
  ultimately show ?thesis by simp
qed

lemma unescape_refines: "unescape b a = Inr (unescape_spec a b)"
  using unescape_mem_spec [of b a] by (auto simp: unescape_def leaves_def)

section \<open>Lower case\<close>

definition lower_byte :: "char \<Rightarrow> char" where
  "lower_byte c =
     (if in_range (CHR ''A'') (CHR ''Z'') c
      then char_of (of_char c + of_char (CHR ''a'') - of_char (CHR ''A'') :: int) else c)"

text \<open>\<open>lower\<close> overwrites its argument and returns it.\<close>

definition lower :: "string \<Rightarrow> string" where
  "lower b = map lower_byte b"

section \<open>Escaping\<close>

definition escapedChars :: string where
  "escapedChars = [CHR ''&'', CHR 0x27, CHR ''<'', CHR ''>'', CHR 0x22, CHR 0x0D]"

fun IndexAny :: "string \<Rightarrow> string \<Rightarrow> nat option" where
  "IndexAny [] chars = None"
| "IndexAny (c # cs) chars = (if c \<in> set chars then Some 0 else map_option Suc (IndexAny cs chars))"

definition esc_string :: "char \<Rightarrow> string go" where
  "esc_string c =
     (if c = CHR ''&'' then Inr ''&amp;''
      else if c = CHR 0x27 then Inr ''&#39;''
      else if c = CHR ''<'' then Inr ''&lt;''
      else if c = CHR ''>'' then Inr ''&gt;''
      else if c = CHR 0x22 then Inr ''&#34;''
      else if c = CHR 0x0D then Inr ''&#13;''
      else Inl (PanicWith ''unrecognized escape character''))"

lemma IndexAny_Some: "IndexAny s cs = Some i \<Longrightarrow> i < length s \<and> s ! i \<in> set cs \<and> set (take i s) \<inter> set cs = {}"
  by (induction s arbitrary: i) (auto split: if_splits)

lemma IndexAny_None: "IndexAny s cs = None \<longleftrightarrow> set s \<inter> set cs = {}"
  by (induction s) auto

text \<open>\<open>escape\<close> into a writer that never fails, such as a \<open>bytes.Buffer\<close>: the writer is the
  text written so far.\<close>

function escape :: "string \<Rightarrow> string \<Rightarrow> string go" where
  "escape w s =
     (case IndexAny s escapedChars of
        None \<Rightarrow> Inr (w @ s)
      | Some i \<Rightarrow>
          (case esc_string (s ! i) of
             Inl e \<Rightarrow> Inl e
           | Inr esc \<Rightarrow> escape (w @ take i s @ esc) (drop (i + 1) s)))"
  by pat_completeness auto
termination
  by (relation "measure (\<lambda>(w, s). length s)") (auto dest: IndexAny_Some)

declare escape.simps [simp del]

definition EscapeString :: "string \<Rightarrow> string go" where
  "EscapeString s = (if IndexAny s escapedChars = None then Inr s else escape [] s)"

text \<open>The specification: each byte on its own.\<close>

definition escape_byte :: "char \<Rightarrow> string" where
  "escape_byte c = (if c \<in> set escapedChars then (case esc_string c of Inr e \<Rightarrow> e | Inl _ \<Rightarrow> []) else [c])"

definition escape_spec :: "string \<Rightarrow> string" where
  "escape_spec s = concat (map escape_byte s)"

lemma escape_spec_plain: "set p \<inter> set escapedChars = {} \<Longrightarrow> escape_spec (p @ s) = p @ escape_spec s"
  by (induction p) (auto simp: escape_spec_def escape_byte_def)

lemma esc_string_total: "c \<in> set escapedChars \<Longrightarrow> esc_string c = Inr (escape_byte c)"
  by (auto simp: escapedChars_def esc_string_def escape_byte_def)

lemma escape_refines: "escape w s = Inr (w @ escape_spec s)"
proof (induction w s rule: escape.induct)
  case (1 w s)
  show ?case
  proof (cases "IndexAny s escapedChars")
    case None
    then have "escape_spec s = s" using escape_spec_plain [of s "[]"] by (simp add: IndexAny_None escape_spec_def)
    with None show ?thesis by (simp add: escape.simps)
  next
    case (Some i)
    then have i: "i < length s" "s ! i \<in> set escapedChars" "set (take i s) \<inter> set escapedChars = {}"
      using IndexAny_Some by blast+
    have "s = take i s @ s ! i # drop (Suc i) s" using i(1) by (rule id_take_nth_drop)
    then have "escape_spec s = take i s @ escape_byte (s ! i) @ escape_spec (drop (Suc i) s)"
      using escape_spec_plain [OF i(3), of "s ! i # drop (Suc i) s"] by (simp add: escape_spec_def)
    with Some i show ?thesis
      using "1.IH" [OF Some esc_string_total [OF i(2)]]
      by (subst escape.simps) (simp add: esc_string_total)
  qed
qed

lemma EscapeString_spec: "EscapeString s = Inr (escape_spec s)"
proof (cases "IndexAny s escapedChars")
  case None
  then show ?thesis
    using escape_spec_plain [of s "[]"] by (simp add: EscapeString_def IndexAny_None escape_spec_def)
qed (simp add: EscapeString_def escape_refines)

section \<open>The round trip\<close>

lemma lookup_tables_unique:
  "list_all (list_all (\<lambda>p. fst p = k \<longrightarrow> snd p = v)) ts \<Longrightarrow> \<exists>t \<in> set ts. (k, v) \<in> set t \<Longrightarrow>
   lookup_tables ts k = Some v"
proof (induction ts)
  case (Cons t ts)
  show ?case
  proof (cases "map_of t k")
    case None
    then have "\<exists>t \<in> set ts. (k, v) \<in> set t"
      using Cons.prems(2) by (auto simp: map_of_eq_None_iff image_iff)
    with Cons None show ?thesis by simp
  next
    case (Some w)
    then have "w = v" using map_of_SomeD [OF Some] Cons.prems(1) by (fastforce simp: list_all_iff)
    with Some show ?thesis by simp
  qed
qed simp

lemma entityI:
  assumes "list_all (list_all (\<lambda>p. fst p = k \<longrightarrow> snd p = v)) entity_tables"
    and "t \<in> set entity_tables" and "(k, v) \<in> set t"
  shows "entity k = v"
proof -
  have "\<exists>t \<in> set entity_tables. (k, v) \<in> set t" using assms(2,3) by blast
  with lookup_tables_unique [OF assms(1)] show ?thesis by (simp add: entity_def)
qed

lemma entity_amp: "entity ''amp;'' = 38"
proof (rule entityI)
  show "list_all (list_all (\<lambda>p. fst p = ''amp;'' \<longrightarrow> snd p = 38)) entity_tables"
    by (simp add: entity_tables_def entity_table_defs)
  show "entity_5 \<in> set entity_tables" by (simp add: entity_tables_def)
  show "(''amp;'', 38) \<in> set entity_5" by (simp add: entity_5_def)
qed

lemma entity_lt: "entity ''lt;'' = 60"
proof (rule entityI)
  show "list_all (list_all (\<lambda>p. fst p = ''lt;'' \<longrightarrow> snd p = 60)) entity_tables"
    by (simp add: entity_tables_def entity_table_defs)
  show "entity_10 \<in> set entity_tables" by (simp add: entity_tables_def)
  show "(''lt;'', 60) \<in> set entity_10" by (simp add: entity_10_def)
qed

lemma entity_gt: "entity ''gt;'' = 62"
proof (rule entityI)
  show "list_all (list_all (\<lambda>p. fst p = ''gt;'' \<longrightarrow> snd p = 62)) entity_tables"
    by (simp add: entity_tables_def entity_table_defs)
  show "entity_8 \<in> set entity_tables" by (simp add: entity_tables_def)
  show "(''gt;'', 62) \<in> set entity_8" by (simp add: entity_8_def)
qed

text \<open>What each escape sequence is read back as, whatever follows it.\<close>

lemma EncodeRune_ascii:
  assumes "x = int (of_char c)" and "x < 128"
  shows "EncodeRune x = [c]"
proof -
  have "nat (x mod 4294967296) = of_char c" using assms by simp
  moreover have "(of_char c :: nat) \<le> 127" using assms by simp
  ultimately show ?thesis by (simp add: EncodeRune_def encode_u32_def byte_def)
qed

lemma entity_at_named:
  assumes "entity (name @ '';'') = x" and "0 < x" and "x < 128" and "name \<noteq> []"
    and "list_all is_alnum name" and "x = int (of_char ch)"
  shows "entity_at a (CHR ''&'' # name @ CHR '';'' # s) = ([ch], length name + 2)"
proof -
  have loop: "name_loop (name @ CHR '';'' # s) = Suc (length name)"
    using assms(5) by (induction name) (auto simp: is_alnum_def in_range_def)
  obtain c cs where name: "name = c # cs" using assms(4) by (cases name) auto
  have "c \<noteq> CHR ''#''" using assms(5) name by (auto simp: is_alnum_def in_range_def)
  then have "entity_at a (CHR ''&'' # name @ CHR '';'' # s) =
      named_ref (\<lambda>n. (take n (CHR ''&'' # name @ CHR '';'' # s), n)) (\<lambda>out n. (out, n)) a
        (CHR ''&'' # name @ CHR '';'' # s)"
    using name by (simp add: entity_at_def entity_walk_def)
  also have "\<dots> = ([ch], length name + 2)"
    using assms(1-4) EncodeRune_ascii [OF assms(6,3)]
    by (simp add: named_ref_def Let_def loop named_lookup_def)
  finally show ?thesis .
qed

lemma entity_at_numeric2:
  assumes "digit_value False c = Some d" and "digit_value False e = Some f"
    and "x = 10 * d + f" and "0 < x" and "x < 128" and "0 \<le> d" and "d < 13"
    and "x = int (of_char ch)"
  shows "entity_at a (CHR ''&'' # CHR ''#'' # c # e # CHR '';'' # s) = ([ch], 5)"
proof -
  have "wrap32 d = d" "wrap32 (10 * d + f) = x"
    using assms(3-7) by (auto simp: wrap32_def)
  moreover have "digit_value False (CHR '';'') = None" by (simp add: digit_value_def in_range_def)
  ultimately have "num_loop False 0 (c # e # CHR '';'' # s) = (x, 3)"
    using assms(1,2) by (simp add: numeral_3_eq_3)
  moreover have "c \<noteq> CHR ''x''" "c \<noteq> CHR ''X''"
    using assms(1) by (auto simp: digit_value_def in_range_def)
  ultimately show ?thesis
    using assms(4,5) EncodeRune_ascii [OF assms(8,5)]
    by (simp add: entity_at_def entity_walk_def numeric_ref_def Let_def fix_rune_def)
qed

lemma escape_byte_values:
  "escape_byte (CHR ''&'') = ''&amp;''" "escape_byte (CHR 0x27) = ''&#39;''"
  "escape_byte (CHR ''<'') = ''&lt;''" "escape_byte (CHR ''>'') = ''&gt;''"
  "escape_byte (CHR 0x22) = ''&#34;''" "escape_byte (CHR 0x0D) = ''&#13;''"
  by (simp_all add: escape_byte_def escapedChars_def esc_string_def)

lemma entity_at_escapes:
  "entity_at a (''&amp;'' @ s) = ([CHR ''&''], 5)"
  "entity_at a (''&lt;'' @ s) = ([CHR ''<''], 4)"
  "entity_at a (''&gt;'' @ s) = ([CHR ''>''], 4)"
  "entity_at a (''&#39;'' @ s) = ([CHR 0x27], 5)"
  "entity_at a (''&#34;'' @ s) = ([CHR 0x22], 5)"
  "entity_at a (''&#13;'' @ s) = ([CHR 0x0D], 5)"
proof -
  have alnum: "list_all is_alnum ''amp''" "list_all is_alnum ''lt''" "list_all is_alnum ''gt''"
    by (simp_all add: is_alnum_def in_range_def)
  have semi: "entity (''amp'' @ '';'') = 38" "entity (''lt'' @ '';'') = 60" "entity (''gt'' @ '';'') = 62"
    by (simp_all add: entity_amp entity_lt entity_gt)
  have digits: "digit_value False (CHR ''1'') = Some 1" "digit_value False (CHR ''3'') = Some 3"
    "digit_value False (CHR ''4'') = Some 4" "digit_value False (CHR ''9'') = Some 9"
    by (simp_all add: digit_value_def in_range_def)
  have
    "entity_at a (CHR ''&'' # ''amp'' @ CHR '';'' # s) = ([CHR ''&''], length ''amp'' + 2)"
    by (rule entity_at_named [OF semi(1) _ _ _ alnum(1)]; simp)
  moreover have
    "entity_at a (CHR ''&'' # ''lt'' @ CHR '';'' # s) = ([CHR ''<''], length ''lt'' + 2)"
    by (rule entity_at_named [OF semi(2) _ _ _ alnum(2)]; simp)
  moreover have
    "entity_at a (CHR ''&'' # ''gt'' @ CHR '';'' # s) = ([CHR ''>''], length ''gt'' + 2)"
    by (rule entity_at_named [OF semi(3) _ _ _ alnum(3)]; simp)
  moreover have
    "entity_at a (CHR ''&'' # CHR ''#'' # CHR ''3'' # CHR ''9'' # CHR '';'' # s) = ([CHR 0x27], 5)"
    by (rule entity_at_numeric2 [OF digits(2) digits(4) refl]; simp)
  moreover have
    "entity_at a (CHR ''&'' # CHR ''#'' # CHR ''3'' # CHR ''4'' # CHR '';'' # s) = ([CHR 0x22], 5)"
    by (rule entity_at_numeric2 [OF digits(2) digits(3) refl]; simp)
  moreover have
    "entity_at a (CHR ''&'' # CHR ''#'' # CHR ''1'' # CHR ''3'' # CHR '';'' # s) = ([CHR 0x0D], 5)"
    by (rule entity_at_numeric2 [OF digits(1) digits(2) refl]; simp)
  ultimately show
    "entity_at a (''&amp;'' @ s) = ([CHR ''&''], 5)"
    "entity_at a (''&lt;'' @ s) = ([CHR ''<''], 4)"
    "entity_at a (''&gt;'' @ s) = ([CHR ''>''], 4)"
    "entity_at a (''&#39;'' @ s) = ([CHR 0x27], 5)"
    "entity_at a (''&#34;'' @ s) = ([CHR 0x22], 5)"
    "entity_at a (''&#13;'' @ s) = ([CHR 0x0D], 5)"
    by simp_all
qed

lemma entity_at_escape_byte:
  assumes "c \<in> set escapedChars"
  shows "entity_at a (escape_byte c @ s) = ([c], length (escape_byte c))"
    and "\<exists>r. escape_byte c = CHR ''&'' # r"
proof -
  have cases: "c = CHR ''&'' \<or> c = CHR 0x27 \<or> c = CHR ''<'' \<or> c = CHR ''>'' \<or> c = CHR 0x22 \<or> c = CHR 0x0D"
    using assms by (simp add: escapedChars_def)
  show "entity_at a (escape_byte c @ s) = ([c], length (escape_byte c))"
    using cases entity_at_escapes [of a s] by (elim disjE) (simp_all add: escape_byte_values)
  show "\<exists>r. escape_byte c = CHR ''&'' # r"
    using cases by (elim disjE) (simp_all add: escape_byte_values)
qed

lemma unescape_escape_spec: "unescape_spec a (escape_spec s) = s"
proof (induction s)
  case (Cons c s)
  show ?case
  proof (cases "c \<in> set escapedChars")
    case True
    then have "unescape_spec a (escape_byte c @ escape_spec s) = c # unescape_spec a (escape_spec s)"
      using entity_at_escape_byte [OF True] unescape_spec_amp [of "escape_byte c @ escape_spec s" a]
      by auto
    with Cons show ?thesis by (simp add: escape_spec_def)
  next
    case False
    then have "c \<noteq> CHR ''&''" by (auto simp: escapedChars_def)
    with False Cons show ?thesis
      by (simp add: escape_spec_def escape_byte_def unescape_spec_other)
  qed
qed (simp add: escape_spec_def)

section \<open>What escaping and unescaping promise\<close>

text \<open>C35. Unescaping undoes escaping, for every byte string, and neither panics.\<close>

theorem unescape_escape:
  "go_bind (EscapeString s) UnescapeString = Inr s"
proof (cases "CHR ''&'' \<in> set (escape_spec s)")
  case True
  then show ?thesis
    by (simp add: EscapeString_spec UnescapeString_def unescape_refines unescape_escape_spec del: go_bind_Inr_iff)
next
  case False
  then have "unescape_spec False (escape_spec s) = escape_spec s"
    using unescape_spec_prefix [of "escape_spec s" False "[]"] by simp
  with False show ?thesis
    by (simp add: EscapeString_spec UnescapeString_def unescape_escape_spec del: go_bind_Inr_iff)
qed

text \<open>C36. The in-place unescaping with its two indices into one buffer computes the reference
  definition \<open>unescape_spec\<close>, which builds a new string: what is written never overtakes
  what is still to be read. In particular it never indexes out of the buffer, and the result
  is no longer than the input.\<close>

theorem unescape_in_place:
  "unescape b attribute = Inr (unescape_spec attribute b) \<and>
   length (unescape_spec attribute b) \<le> length b"
proof -
  have "length (unescape_spec attribute b) \<le> length b"
  proof (induction attribute b rule: unescape_spec.induct)
    case (2 a c cs)
    show ?case
    proof (cases "c = CHR ''&''")
      case True
      note bounds = entity_at_bounds [of "c # cs" a, simplified]
      have "length (unescape_spec a (drop (snd (entity_at a (c # cs))) (c # cs)))
          \<le> Suc (length cs) - snd (entity_at a (c # cs))"
        using 2(1) [OF True] by simp
      with True bounds unescape_spec_amp [of "c # cs" a] show ?thesis by (simp del: unescape_spec.simps)
    qed (use 2 in \<open>simp add: unescape_spec_other\<close>)
  qed simp
  then show ?thesis by (simp add: unescape_refines)
qed

text \<open>C37. Escaped text is safe to put between tags and into quoted attributes: it contains no angle
  bracket and no quote, and it consists of one part for each byte of the text, either that byte,
  which is then no ampersand, or a character reference that unescapes to it.\<close>

theorem escaped_is_safe:
  "\<exists>parts. EscapeString s = Inr (concat parts) \<and>
     set (concat parts) \<inter> {CHR ''<'', CHR ''>'', CHR 0x22, CHR 0x27} = {} \<and>
     list_all2 (\<lambda>c p. (if CHR ''&'' \<in> set p then hd p = CHR ''&'' \<and> last p = CHR '';'' \<and> UnescapeString p = Inr [c]
       else p = [c])) s parts"
proof (intro exI [of _ "map escape_byte s"] conjI)
  show "EscapeString s = Inr (concat (map escape_byte s))" by (simp add: EscapeString_spec escape_spec_def)
  have part: "set (escape_byte c) \<inter> {CHR ''<'', CHR ''>'', CHR 0x22, CHR 0x27} = {}" for c
    by (auto simp: escape_byte_def escapedChars_def esc_string_def split: if_splits)
  then show "set (concat (map escape_byte s)) \<inter> {CHR ''<'', CHR ''>'', CHR 0x22, CHR 0x27} = {}" by fastforce
  have "if CHR ''&'' \<in> set (escape_byte c)
      then hd (escape_byte c) = CHR ''&'' \<and> last (escape_byte c) = CHR '';'' \<and> UnescapeString (escape_byte c) = Inr [c]
      else escape_byte c = [c]" for c
  proof -
    have "unescape_spec False (escape_byte c) = [c]"
      using unescape_escape_spec [of False "[c]"] by (simp add: escape_spec_def)
    moreover have "escape_byte c = [c] \<and> c \<noteq> CHR ''&'' \<or> hd (escape_byte c) = CHR ''&'' \<and> last (escape_byte c) = CHR '';'' \<and>
        CHR ''&'' \<in> set (escape_byte c)"
      by (auto simp: escape_byte_def escapedChars_def esc_string_def)
    ultimately show ?thesis by (auto simp: UnescapeString_def unescape_refines)
  qed
  then show "list_all2 (\<lambda>c p. if CHR ''&'' \<in> set p then hd p = CHR ''&'' \<and> last p = CHR '';'' \<and> UnescapeString p = Inr [c]
      else p = [c]) s (map escape_byte s)"
    by (simp add: list_all2_map2 list_all2_same)
qed

text \<open>The number that digits stand for.\<close>

definition number_of_digits :: "bool \<Rightarrow> string \<Rightarrow> int" where
  "number_of_digits hex ds = foldl (\<lambda>x c. (if hex then 16 else 10) * x + the (digit_value hex c)) 0 ds"

abbreviation is_digit :: "bool \<Rightarrow> char \<Rightarrow> bool" where
  "is_digit hex c \<equiv> digit_value hex c \<noteq> None"

lemma digit_value_nonneg: "digit_value hex c = Some d \<Longrightarrow> 0 \<le> d"
proof -
  have "(of_char c :: int) = int (of_char c)" by (simp add: of_char_def)
  then show "digit_value hex c = Some d \<Longrightarrow> 0 \<le> d" by (auto simp: digit_value_def in_range_def split: if_splits)
qed

lemma digits_grow:
  "list_all (is_digit hex) ds \<Longrightarrow> 0 \<le> x \<Longrightarrow>
   x \<le> foldl (\<lambda>x c. (if hex then 16 else 10) * x + the (digit_value hex c)) x ds"
proof (induction ds arbitrary: x)
  case (Cons c ds)
  then obtain d where d: "digit_value hex c = Some d" "0 \<le> d" using digit_value_nonneg by fastforce
  then have "x \<le> (if hex then 16 else 10) * x + d" using Cons.prems(2) by simp
  moreover from this have "(if hex then 16 else 10) * x + d \<le>
      foldl (\<lambda>x c. (if hex then 16 else 10) * x + the (digit_value hex c)) ((if hex then 16 else 10) * x + d) ds"
    using Cons by (intro Cons.IH) auto
  ultimately show ?case using d(1) by simp
qed simp

lemma num_loop_digits:
  "list_all (is_digit hex) ds \<Longrightarrow> 0 \<le> x \<Longrightarrow>
   foldl (\<lambda>x c. (if hex then 16 else 10) * x + the (digit_value hex c)) x ds < 2147483648 \<Longrightarrow>
   num_loop hex x (ds @ CHR '';'' # s) =
     (foldl (\<lambda>x c. (if hex then 16 else 10) * x + the (digit_value hex c)) x ds, Suc (length ds))"
proof (induction ds arbitrary: x)
  case Nil
  have "digit_value hex (CHR '';'') = None" by (simp add: digit_value_def in_range_def)
  then show ?case by simp
next
  case (Cons c ds)
  then obtain d where d: "digit_value hex c = Some d" "0 \<le> d" using digit_value_nonneg by fastforce
  let ?x = "(if hex then 16 else 10) * x + d"
  have "0 \<le> ?x" using d(2) Cons.prems(2) by simp
  moreover from this have "?x < 2147483648" using digits_grow [of hex ds ?x] Cons.prems d(1) by simp
  ultimately have "wrap32 ?x = ?x" by (simp only: wrap32_def) simp
  with Cons.IH [of ?x] Cons.prems d \<open>0 \<le> ?x\<close> show ?case by simp
qed




end
