(* ===== verification/Html_Token.thy ===== *)
theory Html_Token
  imports Go_Io Html_Escape Html_Node Go_Strings
begin

text \<open>
  \<^verbatim>\<open>golang.org/x/net/html/token.go\<close>: the tokenizer. Its buffer is refilled from the
  reader by \<open>readByte\<close>, which moves the bytes of the current token to the front and
  shifts all spans that point to them. Spans are pairs of signed integers, as in the code,
  and every index or slice expression that is out of range is a panic. The loops of the code
  are recursive functions; that they end is proved from the number of bytes still ahead.
\<close>

section \<open>State\<close>

datatype TokenType =
  ErrorToken | TextToken | StartTagToken | EndTagToken | SelfClosingTagToken | CommentToken
| DoctypeToken

type_synonym span = "int \<times> int"

text \<open>The spans \<open>raw\<close>, \<open>data\<close> and the two of \<open>pendingAttr\<close> are a pair of fields each.\<close>

record Tokenizer =
  z_r :: reader
  z_tt :: TokenType
  z_err :: "io_error option"
  z_readErr :: "io_error option"
  raw_start :: int
  raw_end :: int
  z_buf :: string
  z_cap :: nat
  z_maxBuf :: int
  data_start :: int
  data_end :: int
  key_start :: int
  key_end :: int
  val_start :: int
  val_end :: int
  z_attr :: "(span \<times> span) list"
  nAttrReturned :: nat
  rawTag :: string
  textIsRaw :: bool
  convertNUL :: bool
  allowCDATA :: bool

type_synonym 'a tok = "('a \<times> Tokenizer) go"

definition AllowCDATA :: "bool \<Rightarrow> Tokenizer \<Rightarrow> Tokenizer" where
  "AllowCDATA b z = z\<lparr>allowCDATA := b\<rparr>"

definition NextIsNotRawText :: "Tokenizer \<Rightarrow> Tokenizer" where
  "NextIsNotRawText z = z\<lparr>rawTag := []\<rparr>"

definition Err :: "Tokenizer \<Rightarrow> io_error option" where
  "Err z = (if z_tt z \<noteq> ErrorToken then None else z_err z)"

definition SetMaxBuf :: "int \<Rightarrow> Tokenizer \<Rightarrow> Tokenizer" where
  "SetMaxBuf n z = z\<lparr>z_maxBuf := n\<rparr>"

section \<open>Reading bytes\<close>

text \<open>The slice \<open>s[lo:hi]\<close>.\<close>

definition slice_of :: "'a list \<Rightarrow> int \<Rightarrow> int \<Rightarrow> 'a list go" where
  "slice_of s lo hi =
     (if 0 \<le> lo \<and> lo \<le> hi \<and> hi \<le> int (length s)
      then Inr (take (nat (hi - lo)) (drop (nat lo) s)) else Inl IndexOutOfRange)"

definition NUL :: char where
  "NUL = CHR 0x00"

text \<open>The spans after the bytes of the token have moved \<open>x\<close> places to the front.\<close>

definition shift_attr :: "int \<Rightarrow> span \<times> span \<Rightarrow> span \<times> span" where
  "shift_attr x = (\<lambda>((a, b), (c, d)). ((a - x, b - x), (c - x, d - x)))"

definition shift_spans :: "int \<Rightarrow> Tokenizer \<Rightarrow> Tokenizer" where
  "shift_spans x z =
     z\<lparr>data_start := data_start z - x, data_end := data_end z - x,
       key_start := key_start z - x, key_end := key_end z - x,
       val_start := val_start z - x, val_end := val_end z - x,
       z_attr := map (shift_attr x) (z_attr z)\<rparr>"

text \<open>The end of \<open>readByte\<close>: the byte at \<open>raw.end\<close>, and the limit on the buffer.\<close>

definition take_byte :: "Tokenizer \<Rightarrow> char tok" where
  "take_byte z =
     go_bind (go_index (z_buf z) (raw_end z)) (\<lambda>x.
       let z = z\<lparr>raw_end := raw_end z + 1\<rparr>
       in if 0 < z_maxBuf z \<and> z_maxBuf z \<le> raw_end z - raw_start z
          then Inr (NUL, z\<lparr>z_err := Some ErrBufferExceeded\<rparr>)
          else Inr (x, z))"

text \<open>The buffer is used up: the live bytes move to the front of the old buffer, or of a new
  one of twice the capacity, and the rest is read from the reader.\<close>

definition refill :: "Tokenizer \<Rightarrow> char tok" where
  "refill z =
     go_bind (slice_of (z_buf z) (raw_start z) (raw_end z)) (\<lambda>live.
       let d = length live;
           c = (if z_cap z < 2 * d then 2 * z_cap z else z_cap z);
           x = raw_start z;
           z1 = (if x \<noteq> 0 then shift_spans x z else z)
                  \<lparr>raw_start := 0, raw_end := int d, z_buf := live, z_cap := c\<rparr>;
           (bs, e, r') = readAtLeastOneByte Read (z_r z) (c - d);
           z2 = z1\<lparr>z_r := r', z_readErr := e\<rparr>
       in if bs = [] then Inr (NUL, z2\<lparr>z_err := e\<rparr>)
          else take_byte (z2\<lparr>z_buf := live @ bs\<rparr>))"

definition readByte :: "Tokenizer \<Rightarrow> char tok" where
  "readByte z =
     (if int (length (z_buf z)) \<le> raw_end z then
        (case z_readErr z of
           Some e \<Rightarrow> Inr (NUL, z\<lparr>z_err := Some e\<rparr>)
         | None \<Rightarrow> refill z)
      else take_byte z)"

definition Buffered :: "Tokenizer \<Rightarrow> string go" where
  "Buffered z = slice_of (z_buf z) (raw_end z) (int (length (z_buf z)))"

definition Raw :: "Tokenizer \<Rightarrow> string go" where
  "Raw z = slice_of (z_buf z) (raw_start z) (raw_end z)"

text \<open>\<open>z.raw.end -= n\<close>.\<close>

definition unread :: "int \<Rightarrow> Tokenizer \<Rightarrow> Tokenizer" where
  "unread n z = z\<lparr>raw_end := raw_end z - n\<rparr>"

section \<open>Bytes ahead\<close>

text \<open>The number of bytes that can still be read, and what reading one does to it.\<close>

definition ahead :: "Tokenizer \<Rightarrow> nat" where
  "ahead z = nat (int (length (z_buf z)) - raw_end z) + length (content (z_r z))"

lemma take_byte_ahead:
  assumes "take_byte z = Inr (c, z')"
  shows "0 < raw_end z'" and "raw_end z' \<le> int (length (z_buf z'))" and "Suc (ahead z') = ahead z"
  using assms by (auto simp: take_byte_def go_index_Inr_iff ahead_def Let_def split: if_splits)

lemma refill_ahead:
  assumes "refill z = Inr (c, z')" and "z_err z' = None" and "int (length (z_buf z)) \<le> raw_end z"
  shows "\<exists>y. take_byte y = Inr (c, z') \<and> ahead y = ahead z \<and> z_err y = z_err z"
proof -
  define live where "live = take (nat (raw_end z - raw_start z)) (drop (nat (raw_start z)) (z_buf z))"
  define m where "m = (if z_cap z < 2 * length live then 2 * z_cap z else z_cap z)"
  have ok: "slice_of (z_buf z) (raw_start z) (raw_end z) = Inr live" "int (length (z_buf z)) = raw_end z"
    using assms by (auto simp: refill_def slice_of_def live_def split: if_splits)
  obtain bs e r' where rd: "readAtLeastOneByte Read (z_r z) (m - length live) = (bs, e, r')"
    by (metis prod.exhaust)
  have "content (z_r z) = bs @ content r'"
    using rd.readAtLeastOneByte_split [OF rd] .
  moreover have "int (length live) = raw_end z - raw_start z"
    using ok by (auto simp: slice_of_def live_def split: if_splits)
  ultimately show ?thesis
    using assms(1,2) ok rd readAtLeastOneByte_result [OF rd]
    by (auto simp: refill_def Let_def m_def [symmetric] ahead_def shift_spans_def split: if_splits)
qed

text \<open>Reading a byte without an error ends with taking it from the buffer.\<close>

lemma readByte_take:
  assumes "readByte z = Inr (c, z')" and "z_err z' = None"
  obtains y where "take_byte y = Inr (c, z')" and "ahead y = ahead z" and "z_err y = z_err z"
  using assms refill_ahead by (fastforce simp: readByte_def split: if_splits option.splits)

lemma readByte_ahead:
  assumes "readByte z = Inr (c, z')" and "z_err z' = None"
  shows "0 < raw_end z'" and "raw_end z' \<le> int (length (z_buf z'))" and "Suc (ahead z') = ahead z"
proof -
  obtain y where "take_byte y = Inr (c, z')" and "ahead y = ahead z"
    using readByte_take [OF assms] .
  then show "0 < raw_end z'" and "raw_end z' \<le> int (length (z_buf z'))" and "Suc (ahead z') = ahead z"
    using take_byte_ahead by fastforce+
qed

lemma readByte_less: "readByte z = Inr (c, z') \<Longrightarrow> z_err z' = None \<Longrightarrow> ahead z' < ahead z"
  using readByte_ahead(3) by fastforce

lemma readByte_unread: "readByte z = Inr (c, z') \<Longrightarrow> z_err z' = None \<Longrightarrow> ahead (unread 1 z') = ahead z"
  using readByte_ahead [of z c z'] by (auto simp: ahead_def unread_def)

section \<open>Loops over bytes\<close>

text \<open>Several loops of the tokenizer read bytes until one makes them stop or an error occurs.\<close>

function read_until :: "(char \<Rightarrow> bool) \<Rightarrow> Tokenizer \<Rightarrow> char tok" where
  "read_until stop z =
     go_bind (readByte z) (\<lambda>(c, z1).
       if z_err z1 \<noteq> None \<or> stop c then Inr (c, z1) else read_until stop z1)"
  by pat_completeness auto
termination
  by (relation "measure (\<lambda>(stop, z). ahead z)") (auto dest: readByte_less)

declare read_until.simps [simp del]

text \<open>Others compare the bytes they read with a text, byte by byte.\<close>

datatype outcome = ReadFailed | Differs | Matches

fun read_match :: "(char \<Rightarrow> bool) list \<Rightarrow> Tokenizer \<Rightarrow> outcome tok" where
  "read_match [] z = Inr (Matches, z)"
| "read_match (p # ps) z =
     go_bind (readByte z) (\<lambda>(c, z).
       if z_err z \<noteq> None then Inr (ReadFailed, z)
       else if \<not> p c then Inr (Differs, z)
       else read_match ps z)"

definition is_space :: "char \<Rightarrow> bool" where
  "is_space c \<longleftrightarrow> c \<in> {CHR '' '', CHR 0x0A, CHR 0x0D, CHR 0x09, CHR 0x0C}"

definition is_letter :: "char \<Rightarrow> bool" where
  "is_letter c \<longleftrightarrow> in_range (CHR ''a'') (CHR ''z'') c \<or> in_range (CHR ''A'') (CHR ''Z'') c"

definition skipWhiteSpace :: "Tokenizer \<Rightarrow> Tokenizer go" where
  "skipWhiteSpace z =
     (if z_err z \<noteq> None then Inr z
      else go_bind (read_until (\<lambda>c. \<not> is_space c) z) (\<lambda>(c, z).
             Inr (if z_err z \<noteq> None then z else unread 1 z)))"

section \<open>Raw text\<close>

text \<open>Byte arithmetic: \<open>t - ('a' - 'A')\<close> and \<open>t + ('a' - 'A')\<close>.\<close>

definition byte_minus :: "char \<Rightarrow> char" where
  "byte_minus t = char_of (of_char t - 32 :: int)"

definition byte_plus :: "char \<Rightarrow> char" where
  "byte_plus t = char_of (of_char t + 32 :: int)"

definition ends_name :: "char \<Rightarrow> bool" where
  "ends_name c \<longleftrightarrow> is_space c \<or> c = CHR ''/'' \<or> c = CHR ''>''"

definition readRawEndTag :: "Tokenizer \<Rightarrow> bool tok" where
  "readRawEndTag z =
     go_bind (read_match (map (\<lambda>t c. c = t \<or> c = byte_minus t) (rawTag z)) z) (\<lambda>(m, z).
       case m of
         ReadFailed \<Rightarrow> Inr (False, z)
       | Differs \<Rightarrow> Inr (False, unread 1 z)
       | Matches \<Rightarrow>
           go_bind (readByte z) (\<lambda>(c, z).
             if z_err z \<noteq> None then Inr (False, z)
             else if ends_name c then Inr (True, unread (3 + int (length (rawTag z))) z)
             else Inr (False, unread 1 z)))"

lemma unread_simps [simp]:
  "z_r (unread n z) = z_r z" "z_err (unread n z) = z_err z" "z_readErr (unread n z) = z_readErr z"
  "raw_start (unread n z) = raw_start z" "raw_end (unread n z) = raw_end z - n"
  "z_buf (unread n z) = z_buf z" "rawTag (unread n z) = rawTag z" "z_maxBuf (unread n z) = z_maxBuf z"
  "data_start (unread n z) = data_start z" "data_end (unread n z) = data_end z"
  by (simp_all add: unread_def)

lemma take_byte_keeps:
  "take_byte z = Inr (c, z') \<Longrightarrow> rawTag z' = rawTag z"
  by (auto simp: take_byte_def Let_def split: if_splits)

lemma readByte_rawTag: "readByte z = Inr (c, z') \<Longrightarrow> rawTag z' = rawTag z"
  by (auto simp: readByte_def refill_def shift_spans_def Let_def
      split: if_splits option.splits prod.splits dest!: take_byte_keeps)

lemma read_match_rawTag: "read_match ps z = Inr (m, z') \<Longrightarrow> rawTag z' = rawTag z"
  by (induction ps arbitrary: z) (auto split: if_splits dest!: readByte_rawTag)

lemma read_match_Matches: "read_match ps z = Inr (Matches, z') \<Longrightarrow> ahead z' + length ps = ahead z"
  by (induction ps arbitrary: z) (auto split: if_splits dest: readByte_ahead(3))

lemma read_match_Differs:
  "read_match ps z = Inr (Differs, z') \<Longrightarrow> z_err z' = None \<and> ahead (unread 1 z') \<le> ahead z"
proof (induction ps arbitrary: z)
  case (Cons p ps)
  then obtain c z1 where z1: "readByte z = Inr (c, z1)" "z_err z1 = None"
    and "if p c then read_match ps z1 = Inr (Differs, z') else z' = z1"
    by (auto split: if_splits)
  then show ?case
    using Cons.IH [of z1] readByte_less [OF z1] readByte_unread [OF z1] by (auto split: if_splits)
qed simp

lemma read_match_ReadFailed: "read_match ps z = Inr (ReadFailed, z') \<Longrightarrow> z_err z' \<noteq> None"
  by (induction ps arbitrary: z) (auto split: if_splits)

lemma readRawEndTag_ahead:
  assumes "readRawEndTag z = Inr (b, z')"
  shows "z_err z' = None \<Longrightarrow> \<not> b \<Longrightarrow> ahead z' \<le> ahead z"
    and "b \<Longrightarrow> z_err z' = None \<and> ahead (unread (- 9) z') < ahead z"
proof -
  obtain m z1 where m: "read_match (map (\<lambda>t c. c = t \<or> c = byte_minus t) (rawTag z)) z = Inr (m, z1)"
    using assms by (auto simp: readRawEndTag_def)
  have "(z_err z' = None \<longrightarrow> \<not> b \<longrightarrow> ahead z' \<le> ahead z) \<and>
      (b \<longrightarrow> z_err z' = None \<and> ahead (unread (- 9) z') < ahead z)"
  proof (cases m)
    case Matches
    then obtain c z2 where z2: "readByte z1 = Inr (c, z2)" and
      z': "if z_err z2 \<noteq> None then z' = z2 \<and> \<not> b
           else z' = (if b then unread (3 + int (length (rawTag z2))) z2 else unread 1 z2)"
      using assms m by (auto simp: readRawEndTag_def split: if_splits)
    show ?thesis
    proof (cases "z_err z2")
      case None
      with z' show ?thesis
        using read_match_Matches [OF m [unfolded Matches]] read_match_rawTag [OF m]
          readByte_ahead [OF z2 None] readByte_unread [OF z2 None] readByte_rawTag [OF z2]
        by (auto simp: unread_def ahead_def)
    qed (use z' in auto)
  qed (use assms m in \<open>auto simp: readRawEndTag_def dest: read_match_Differs read_match_ReadFailed\<close>)
  then show "z_err z' = None \<Longrightarrow> \<not> b \<Longrightarrow> ahead z' \<le> ahead z"
    and "b \<Longrightarrow> z_err z' = None \<and> ahead (unread (- 9) z') < ahead z" by auto
qed

function rcdata_loop :: "Tokenizer \<Rightarrow> Tokenizer go" where
  "rcdata_loop z =
     go_bind (readByte z) (\<lambda>(c, z1).
       if z_err z1 \<noteq> None then Inr z1
       else if c \<noteq> CHR ''<'' then rcdata_loop z1
       else go_bind (readByte z1) (\<lambda>(c, z2).
         if z_err z2 \<noteq> None then Inr z2
         else if c \<noteq> CHR ''/'' then rcdata_loop z2
         else go_bind (readRawEndTag z2) (\<lambda>(b, z3).
           if b \<or> z_err z3 \<noteq> None then Inr z3 else rcdata_loop z3)))"
  by pat_completeness auto
termination
  by (relation "measure ahead") (auto dest!: readByte_less readRawEndTag_ahead(1))

declare rcdata_loop.simps [simp del]

section \<open>Script data\<close>

text \<open>The labels of \<open>readScript\<close>; every \<open>goto\<close> is a call with the label it jumps to.\<close>

datatype label =
    scriptData | scriptDataLessThanSign | scriptDataEndTagOpen
  | scriptDataEscapeStart | scriptDataEscapeStartDash
  | scriptDataEscaped | scriptDataEscapedDash | scriptDataEscapedDashDash
  | scriptDataEscapedLessThanSign | scriptDataEscapedEndTagOpen
  | scriptDataDoubleEscapeStart
  | scriptDataDoubleEscaped | scriptDataDoubleEscapedDash | scriptDataDoubleEscapedDashDash
  | scriptDataDoubleEscapedLessThanSign | scriptDataDoubleEscapeEnd

text \<open>The labels that read a byte, stop at an error and otherwise branch on the byte: where
  they go, and whether the byte is given back first.\<close>

fun script_branch :: "label \<Rightarrow> char \<Rightarrow> label \<times> bool" where
  "script_branch scriptData c =
     (if c = CHR ''<'' then (scriptDataLessThanSign, False) else (scriptData, False))"
| "script_branch scriptDataLessThanSign c =
     (if c = CHR ''/'' then (scriptDataEndTagOpen, False)
      else if c = CHR ''!'' then (scriptDataEscapeStart, False)
      else (scriptData, True))"
| "script_branch scriptDataEscapeStart c =
     (if c = CHR ''-'' then (scriptDataEscapeStartDash, False) else (scriptData, True))"
| "script_branch scriptDataEscapeStartDash c =
     (if c = CHR ''-'' then (scriptDataEscapedDashDash, False) else (scriptData, True))"
| "script_branch scriptDataEscaped c =
     (if c = CHR ''-'' then (scriptDataEscapedDash, False)
      else if c = CHR ''<'' then (scriptDataEscapedLessThanSign, False)
      else (scriptDataEscaped, False))"
| "script_branch scriptDataEscapedDash c =
     (if c = CHR ''-'' then (scriptDataEscapedDashDash, False)
      else if c = CHR ''<'' then (scriptDataEscapedLessThanSign, False)
      else (scriptDataEscaped, False))"
| "script_branch scriptDataEscapedDashDash c =
     (if c = CHR ''-'' then (scriptDataEscapedDashDash, False)
      else if c = CHR ''<'' then (scriptDataEscapedLessThanSign, False)
      else if c = CHR ''>'' then (scriptData, False)
      else (scriptDataEscaped, False))"
| "script_branch scriptDataEscapedLessThanSign c =
     (if c = CHR ''/'' then (scriptDataEscapedEndTagOpen, False)
      else if is_letter c then (scriptDataDoubleEscapeStart, False)
      else (scriptData, True))"
| "script_branch scriptDataDoubleEscaped c =
     (if c = CHR ''-'' then (scriptDataDoubleEscapedDash, False)
      else if c = CHR ''<'' then (scriptDataDoubleEscapedLessThanSign, False)
      else (scriptDataDoubleEscaped, False))"
| "script_branch scriptDataDoubleEscapedDash c =
     (if c = CHR ''-'' then (scriptDataDoubleEscapedDashDash, False)
      else if c = CHR ''<'' then (scriptDataDoubleEscapedLessThanSign, False)
      else (scriptDataDoubleEscaped, False))"
| "script_branch scriptDataDoubleEscapedDashDash c =
     (if c = CHR ''-'' then (scriptDataDoubleEscapedDashDash, False)
      else if c = CHR ''<'' then (scriptDataDoubleEscapedLessThanSign, False)
      else if c = CHR ''>'' then (scriptData, False)
      else (scriptDataDoubleEscaped, False))"
| "script_branch scriptDataDoubleEscapedLessThanSign c =
     (if c = CHR ''/'' then (scriptDataDoubleEscapeEnd, False)
      else (scriptDataDoubleEscaped, True))"
| "script_branch l c = (l, False)"

definition reads_byte :: "label \<Rightarrow> bool" where
  "reads_byte l \<longleftrightarrow> l \<noteq> scriptDataEndTagOpen \<and> l \<noteq> scriptDataEscapedEndTagOpen \<and>
     l \<noteq> scriptDataDoubleEscapeEnd \<and> l \<noteq> scriptDataDoubleEscapeStart"

text \<open>\<open>scriptDataDoubleEscapeStart\<close> up to its jump: the label, or an error.\<close>

definition script_letters :: "(char \<Rightarrow> bool) list" where
  "script_letters = map (\<lambda>(s, t) c. c = s \<or> c = t) (zip ''script'' ''SCRIPT'')"

definition double_escape_start :: "Tokenizer \<Rightarrow> label option tok" where
  "double_escape_start z =
     go_bind (read_match script_letters (unread 1 z))
       (\<lambda>(m, z).
          case m of
            ReadFailed \<Rightarrow> Inr (None, z)
          | Differs \<Rightarrow> Inr (Some scriptDataEscaped, unread 1 z)
          | Matches \<Rightarrow>
              go_bind (readByte z) (\<lambda>(c, z).
                if z_err z \<noteq> None then Inr (None, z)
                else if ends_name c then Inr (Some scriptDataDoubleEscaped, z)
                else Inr (Some scriptDataEscaped, unread 1 z)))"

lemma unread_ahead: "ahead (unread 1 z) \<le> Suc (ahead z)"
  by (simp add: ahead_def unread_def)

lemma double_escape_start_ahead:
  assumes "double_escape_start z = Inr (Some l, z')"
  shows "ahead z' \<le> Suc (ahead z)" and "l = scriptDataEscaped \<or> l = scriptDataDoubleEscaped"
proof -
  obtain m z1 where m: "read_match script_letters (unread 1 z) = Inr (m, z1)"
    using assms by (auto simp: double_escape_start_def)
  have "ahead z' \<le> ahead (unread 1 z) \<and> (l = scriptDataEscaped \<or> l = scriptDataDoubleEscaped)"
  proof (cases m)
    case Matches
    then obtain c z2 where z2: "readByte z1 = Inr (c, z2)" "z_err z2 = None"
      and "if ends_name c then l = scriptDataDoubleEscaped \<and> z' = z2
           else l = scriptDataEscaped \<and> z' = unread 1 z2"
      using assms m by (auto simp: double_escape_start_def split: if_splits)
    then show ?thesis
      using read_match_Matches [OF m [unfolded Matches]] readByte_less [OF z2] readByte_unread [OF z2]
      by (auto split: if_splits)
  qed (use assms m read_match_Differs in \<open>auto simp: double_escape_start_def\<close>)
  then show "ahead z' \<le> Suc (ahead z)" and "l = scriptDataEscaped \<or> l = scriptDataDoubleEscaped"
    using unread_ahead [of z] by auto
qed

text \<open>A jump that gives a byte back goes to a label of lower rank.\<close>

fun rank :: "label \<Rightarrow> nat" where
  "rank scriptData = 0"
| "rank scriptDataEscaped = 0"
| "rank scriptDataDoubleEscaped = 0"
| "rank scriptDataDoubleEscapeStart = 1"
| "rank l = 2"

definition reserve :: "label \<Rightarrow> nat" where
  "reserve l = (if l = scriptDataDoubleEscapeStart then 1 else 0)"

lemma script_branch_rank:
  "reads_byte l \<Longrightarrow>
   (snd (script_branch l c) \<longrightarrow> rank (fst (script_branch l c)) < rank l \<and> reserve (fst (script_branch l c)) = 0) \<and>
   (reserve (fst (script_branch l c)) \<noteq> 0 \<longrightarrow> rank (fst (script_branch l c)) < rank l)"
  by (induction l c rule: script_branch.induct) (auto simp: reads_byte_def reserve_def)

function readScript_from :: "label \<Rightarrow> Tokenizer \<Rightarrow> Tokenizer go" where
  "readScript_from l z =
     (if l = scriptDataEndTagOpen \<or> l = scriptDataEscapedEndTagOpen then
        go_bind (readRawEndTag z) (\<lambda>(b, z1).
          if b \<or> z_err z1 \<noteq> None then Inr z1
          else readScript_from
                 (if l = scriptDataEndTagOpen then scriptData else scriptDataEscaped) z1)
      else if l = scriptDataDoubleEscapeEnd then
        go_bind (readRawEndTag z) (\<lambda>(b, z1).
          if b then readScript_from scriptDataEscaped (unread (- 9) z1)
          else if z_err z1 \<noteq> None then Inr z1
          else readScript_from scriptDataDoubleEscaped z1)
      else if l = scriptDataDoubleEscapeStart then
        go_bind (double_escape_start z) (\<lambda>(next, z1).
          case next of None \<Rightarrow> Inr z1 | Some l' \<Rightarrow> readScript_from l' z1)
      else
        go_bind (readByte z) (\<lambda>(c, z1).
          if z_err z1 \<noteq> None then Inr z1
          else readScript_from (fst (script_branch l c))
                 (if snd (script_branch l c) then unread 1 z1 else z1)))"
  by pat_completeness auto

termination
proof (relation "measures [\<lambda>(l, z). ahead z + reserve l, \<lambda>(l, z). rank l]", goal_cases)
  case 1 show ?case by simp
next
  case (2 l z x b z1)
  then show ?case using readRawEndTag_ahead(1) [of z b z1] by (auto simp: reserve_def)
next
  case (3 l z x b z1)
  then show ?case using readRawEndTag_ahead(2) [of z b z1] by (auto simp: reserve_def)
next
  case (4 l z x b z1)
  then show ?case using readRawEndTag_ahead(1) [of z b z1] by (auto simp: reserve_def)
next
  case (5 l z x nxt z1 l')
  then show ?case using double_escape_start_ahead [of z l' z1] by (auto simp: reserve_def)
next
  case (6 l z x c z1)
  then have z1: "readByte z = Inr (c, z1)" "z_err z1 = None" by auto
  have "reads_byte l" using 6 by (simp add: reads_byte_def)
  moreover from this have "reserve l = 0" by (simp add: reserve_def reads_byte_def)
  moreover have "reserve (fst (script_branch l c)) \<le> 1" by (simp add: reserve_def)
  ultimately show ?case
    using script_branch_rank [of l c] readByte_ahead(3) [OF z1] readByte_unread [OF z1] by auto
qed

declare readScript_from.simps [simp del]

definition readScript :: "Tokenizer \<Rightarrow> Tokenizer go" where
  "readScript z =
     go_bind (readScript_from scriptData z) (\<lambda>z. Inr (z\<lparr>data_end := raw_end z\<rparr>))"

definition readRawOrRCDATA :: "Tokenizer \<Rightarrow> Tokenizer go" where
  "readRawOrRCDATA z =
     (if rawTag z = ''script'' then
        go_bind (readScript z) (\<lambda>z. Inr (z\<lparr>textIsRaw := True, rawTag := []\<rparr>))
      else
        go_bind (rcdata_loop z) (\<lambda>z.
          Inr (z\<lparr>data_end := raw_end z,
                 textIsRaw := rawTag z \<noteq> ''textarea'' \<and> rawTag z \<noteq> ''title'', rawTag := []\<rparr>)))"

section \<open>Comments and declarations\<close>

text \<open>The loop of \<open>readComment\<close>; an error ignores up to two dashes before it.\<close>

function comment_loop :: "int \<Rightarrow> Tokenizer \<Rightarrow> Tokenizer go" where
  "comment_loop dashCount z =
     go_bind (readByte z) (\<lambda>(c, z1).
       if z_err z1 \<noteq> None
       then Inr (z1\<lparr>data_end := raw_end z1 - (if 2 < dashCount then 2 else dashCount)\<rparr>)
       else if c = CHR ''-'' then comment_loop (dashCount + 1) z1
       else if c = CHR ''>'' \<and> 2 \<le> dashCount then Inr (z1\<lparr>data_end := raw_end z1 - 3\<rparr>)
       else if c = CHR ''!'' \<and> 2 \<le> dashCount then
         go_bind (readByte z1) (\<lambda>(c, z2).
           if z_err z2 \<noteq> None then Inr (z2\<lparr>data_end := raw_end z2\<rparr>)
           else if c = CHR ''>'' then Inr (z2\<lparr>data_end := raw_end z2 - 4\<rparr>)
           else comment_loop 0 z2)
       else comment_loop 0 z1)"
  by pat_completeness auto
termination
  by (relation "measure (\<lambda>(d, z). ahead z)") (auto dest!: readByte_less)

declare comment_loop.simps [simp del]

definition readComment :: "Tokenizer \<Rightarrow> Tokenizer go" where
  "readComment z =
     go_bind (comment_loop 2 (z\<lparr>data_start := raw_end z\<rparr>)) (\<lambda>z.
       Inr (if data_end z < data_start z then z\<lparr>data_end := data_start z\<rparr> else z))"

definition readUntilCloseAngle :: "Tokenizer \<Rightarrow> Tokenizer go" where
  "readUntilCloseAngle z =
     go_bind (read_until (\<lambda>c. c = CHR ''>'') (z\<lparr>data_start := raw_end z\<rparr>)) (\<lambda>(c, z).
       Inr (z\<lparr>data_end := (if z_err z \<noteq> None then raw_end z else raw_end z - 1)\<rparr>))"

definition readDoctype :: "Tokenizer \<Rightarrow> bool tok" where
  "readDoctype z =
     go_bind (read_match (map (\<lambda>s c. c = s \<or> c = byte_plus s) ''DOCTYPE'') z) (\<lambda>(m, z).
       case m of
         ReadFailed \<Rightarrow> Inr (False, z\<lparr>data_end := raw_end z\<rparr>)
       | Differs \<Rightarrow> Inr (False, z\<lparr>raw_end := data_start z\<rparr>)
       | Matches \<Rightarrow>
           go_bind (skipWhiteSpace z) (\<lambda>z.
             if z_err z \<noteq> None
             then Inr (True, z\<lparr>data_start := raw_end z, data_end := raw_end z\<rparr>)
             else go_bind (readUntilCloseAngle z) (\<lambda>z. Inr (True, z))))"

function cdata_loop :: "nat \<Rightarrow> Tokenizer \<Rightarrow> Tokenizer go" where
  "cdata_loop brackets z =
     go_bind (readByte z) (\<lambda>(c, z1).
       if z_err z1 \<noteq> None then Inr (z1\<lparr>data_end := raw_end z1\<rparr>)
       else if c = CHR '']'' then cdata_loop (brackets + 1) z1
       else if c = CHR ''>'' \<and> 2 \<le> brackets then Inr (z1\<lparr>data_end := raw_end z1 - 3\<rparr>)
       else cdata_loop 0 z1)"
  by pat_completeness auto
termination
  by (relation "measure (\<lambda>(d, z). ahead z)") (auto dest!: readByte_less)

declare cdata_loop.simps [simp del]

definition readCDATA :: "Tokenizer \<Rightarrow> bool tok" where
  "readCDATA z =
     go_bind (read_match (map (=) ''[CDATA['') z) (\<lambda>(m, z).
       case m of
         ReadFailed \<Rightarrow> Inr (False, z\<lparr>data_end := raw_end z\<rparr>)
       | Differs \<Rightarrow> Inr (False, z\<lparr>raw_end := data_start z\<rparr>)
       | Matches \<Rightarrow>
           go_bind (cdata_loop 0 (z\<lparr>data_start := raw_end z\<rparr>)) (\<lambda>z. Inr (True, z)))"

definition readMarkupDeclaration :: "Tokenizer \<Rightarrow> TokenType tok" where
  "readMarkupDeclaration z =
     go_bind (readByte (z\<lparr>data_start := raw_end z\<rparr>)) (\<lambda>(c0, z).
       if z_err z \<noteq> None then Inr (CommentToken, z\<lparr>data_end := raw_end z\<rparr>)
       else go_bind (readByte z) (\<lambda>(c1, z).
         if z_err z \<noteq> None then Inr (CommentToken, z\<lparr>data_end := raw_end z\<rparr>)
         else if c0 = CHR ''-'' \<and> c1 = CHR ''-''
         then go_bind (readComment z) (\<lambda>z. Inr (CommentToken, z))
         else go_bind (readDoctype (unread 2 z)) (\<lambda>(ok, z).
           if ok then Inr (DoctypeToken, z)
           else go_bind (if allowCDATA z then readCDATA z else Inr (False, z)) (\<lambda>(ok, z).
             if ok then Inr (TextToken, z\<lparr>convertNUL := True\<rparr>)
             else go_bind (readUntilCloseAngle z) (\<lambda>z. Inr (CommentToken, z))))))"

section \<open>Tags\<close>

definition readTagName :: "Tokenizer \<Rightarrow> Tokenizer go" where
  "readTagName z =
     go_bind (read_until ends_name (z\<lparr>data_start := raw_end z - 1\<rparr>)) (\<lambda>(c, z).
       Inr (if z_err z \<noteq> None then z\<lparr>data_end := raw_end z\<rparr>
            else if is_space c then z\<lparr>data_end := raw_end z - 1\<rparr>
            else (unread 1 z)\<lparr>data_end := raw_end z - 1\<rparr>))"

definition ends_key :: "char \<Rightarrow> bool" where
  "ends_key c \<longleftrightarrow> is_space c \<or> c = CHR ''/'' \<or> c = CHR ''='' \<or> c = CHR ''>''"

definition readTagAttrKey :: "Tokenizer \<Rightarrow> Tokenizer go" where
  "readTagAttrKey z =
     go_bind (read_until ends_key (z\<lparr>key_start := raw_end z\<rparr>)) (\<lambda>(c, z).
       Inr (if z_err z \<noteq> None then z\<lparr>key_end := raw_end z\<rparr>
            else if is_space c \<or> c = CHR ''/'' then z\<lparr>key_end := raw_end z - 1\<rparr>
            else (unread 1 z)\<lparr>key_end := raw_end z - 1\<rparr>))"

text \<open>The value after \<open>=\<close> and white space, of which the first byte is \<open>quote\<close>.\<close>

definition attr_value :: "char \<Rightarrow> Tokenizer \<Rightarrow> Tokenizer go" where
  "attr_value quote z =
     (if quote = CHR ''>'' then Inr (unread 1 z)
      else if quote = CHR 0x27 \<or> quote = CHR 0x22 then
        go_bind (read_until (\<lambda>c. c = quote) (z\<lparr>val_start := raw_end z\<rparr>)) (\<lambda>(c, z).
          Inr (z\<lparr>val_end := (if z_err z \<noteq> None then raw_end z else raw_end z - 1)\<rparr>))
      else
        go_bind (read_until (\<lambda>c. is_space c \<or> c = CHR ''>'') (z\<lparr>val_start := raw_end z - 1\<rparr>))
          (\<lambda>(c, z).
             Inr (if z_err z \<noteq> None then z\<lparr>val_end := raw_end z\<rparr>
                  else if is_space c then z\<lparr>val_end := raw_end z - 1\<rparr>
                  else (unread 1 z)\<lparr>val_end := raw_end z - 1\<rparr>)))"

definition readTagAttrVal :: "Tokenizer \<Rightarrow> Tokenizer go" where
  "readTagAttrVal z =
     go_bind (skipWhiteSpace (z\<lparr>val_start := raw_end z, val_end := raw_end z\<rparr>)) (\<lambda>z.
       if z_err z \<noteq> None then Inr z
       else go_bind (readByte z) (\<lambda>(c, z).
         if z_err z \<noteq> None then Inr z
         else if c \<noteq> CHR ''='' then Inr (unread 1 z)
         else go_bind (skipWhiteSpace z) (\<lambda>z.
           if z_err z \<noteq> None then Inr z
           else go_bind (readByte z) (\<lambda>(quote, z).
             if z_err z \<noteq> None then Inr z else attr_value quote z))))"

text \<open>That the loop over the attributes ends: errors stay, and a key that takes no byte is
  followed by an equals sign, which the value takes.\<close>

lemma take_byte_err: "take_byte z = Inr (c, z') \<Longrightarrow> z_err z' = None \<Longrightarrow> z_err z = None"
  by (auto simp: take_byte_def Let_def split: if_splits)

lemma readByte_err: "readByte z = Inr (c, z') \<Longrightarrow> z_err z' = None \<Longrightarrow> z_err z = None"
  using readByte_take take_byte_err by metis

lemma read_until_err: "read_until stop z = Inr (c, z') \<Longrightarrow> z_err z' = None \<Longrightarrow> z_err z = None"
proof (induction stop z rule: read_until.induct)
  case (1 stop z)
  then show ?case
    by (subst (asm) (2) read_until.simps) (auto split: if_splits dest: readByte_err)
qed

definition peeks :: "char \<Rightarrow> Tokenizer \<Rightarrow> bool" where
  "peeks c z \<longleftrightarrow> 0 \<le> raw_end z \<and> raw_end z < int (length (z_buf z)) \<and> z_buf z ! nat (raw_end z) = c \<and>
     (0 < z_maxBuf z \<longrightarrow> raw_end z + 1 - raw_start z < z_maxBuf z)"

lemma take_byte_peeks:
  "take_byte z = Inr (c, z') \<Longrightarrow> z_err z' = None \<Longrightarrow> peeks c (unread 1 z')"
  by (auto simp: take_byte_def go_index_Inr_iff peeks_def Let_def split: if_splits)

lemma readByte_peeks: "readByte z = Inr (c, z') \<Longrightarrow> z_err z' = None \<Longrightarrow> peeks c (unread 1 z')"
  using readByte_take take_byte_peeks by blast

lemma peeks_readByte: "peeks c z \<Longrightarrow> readByte z = Inr (c, unread (- 1) z)"
  by (auto simp: peeks_def readByte_def take_byte_def unread_def go_index_def Let_def)

lemma read_until_ahead:
  "read_until stop z = Inr (c, z') \<Longrightarrow> z_err z' = None \<Longrightarrow>
   stop c \<and> peeks c (unread 1 z') \<and> ahead z' < ahead z \<and> ahead (unread 1 z') \<le> ahead z"
proof (induction stop z rule: read_until.induct)
  case (1 stop z)
  obtain c1 z1 where z1: "readByte z = Inr (c1, z1)"
    and rest: "if z_err z1 \<noteq> None \<or> stop c1 then c = c1 \<and> z' = z1 else read_until stop z1 = Inr (c, z')"
    using "1.prems"(1) by (subst (asm) read_until.simps) (auto split: if_splits)
  show ?case
  proof (cases "z_err z1 \<noteq> None \<or> stop c1")
    case True
    with rest z1 "1.prems" show ?thesis
      using readByte_less readByte_unread readByte_peeks by fastforce
  next
    case False
    then show ?thesis
      using "1.IH" [OF z1 refl False] rest "1.prems" readByte_less [OF z1] by auto
  qed
qed

lemma peeks_read_until:
  "peeks c z \<Longrightarrow> z_err z = None \<Longrightarrow> stop c \<Longrightarrow> read_until stop z = Inr (c, unread (- 1) z)"
  by (simp add: read_until.simps peeks_readByte)

lemma skipWhiteSpace_ahead:
  assumes "skipWhiteSpace z = Inr z'" and "z_err z' = None"
  shows "ahead z' \<le> ahead z" and "z_err z = None"
    and "peeks c z \<Longrightarrow> \<not> is_space c \<Longrightarrow> z' = z"
proof -
  show err: "z_err z = None" using assms by (auto simp: skipWhiteSpace_def split: if_splits)
  show "ahead z' \<le> ahead z"
    using assms err read_until_ahead
    by (fastforce simp: skipWhiteSpace_def split: if_splits)
  show "z' = z" if "peeks c z" "\<not> is_space c"
    using assms err that by (auto simp: skipWhiteSpace_def peeks_read_until) (simp add: unread_def)
qed

lemma ahead_updates [simp]:
  "ahead (z\<lparr>data_start := i\<rparr>) = ahead z" "ahead (z\<lparr>data_end := i\<rparr>) = ahead z"
  "ahead (z\<lparr>key_start := i\<rparr>) = ahead z" "ahead (z\<lparr>key_end := i\<rparr>) = ahead z"
  "ahead (z\<lparr>val_start := i\<rparr>) = ahead z" "ahead (z\<lparr>val_end := i\<rparr>) = ahead z"
  "ahead (z\<lparr>z_attr := as\<rparr>) = ahead z"
  by (simp_all add: ahead_def)

lemma peeks_updates [simp]:
  "peeks c (z\<lparr>key_start := i\<rparr>) = peeks c z" "peeks c (z\<lparr>key_end := i\<rparr>) = peeks c z"
  "peeks c (z\<lparr>val_start := i\<rparr>) = peeks c z" "peeks c (z\<lparr>val_end := i\<rparr>) = peeks c z"
  by (simp_all add: peeks_def)

lemma readTagAttrKey_ahead:
  assumes "readTagAttrKey z = Inr z'" and "z_err z' = None" and "peeks c z" and "c \<noteq> CHR ''>''"
  shows "ahead z' < ahead z \<or> ahead z' = ahead z \<and> peeks (CHR ''='') z'"
proof -
  obtain c1 z1 where r: "read_until ends_key (z\<lparr>key_start := raw_end z\<rparr>) = Inr (c1, z1)"
    and z1: "z' = (if z_err z1 \<noteq> None then z1\<lparr>key_end := raw_end z1\<rparr>
            else if is_space c1 \<or> c1 = CHR ''/'' then z1\<lparr>key_end := raw_end z1 - 1\<rparr>
            else (unread 1 z1)\<lparr>key_end := raw_end z1 - 1\<rparr>)"
    using assms(1) unfolding readTagAttrKey_def go_bind_Inr_iff by fastforce
  have err: "z_err z1 = None" using assms(2) z1 by (cases "z_err z1") auto
  then have z': "z' = (if is_space c1 \<or> c1 = CHR ''/'' then z1\<lparr>key_end := raw_end z1 - 1\<rparr>
                   else (unread 1 z1)\<lparr>key_end := raw_end z1 - 1\<rparr>)"
    using z1 by simp
  have f: "ends_key c1" "peeks c1 (unread 1 z1)" "ahead z1 < ahead z" "ahead (unread 1 z1) \<le> ahead z"
    using read_until_ahead [OF r err] by auto
  have "z_err z = None" using read_until_err [OF r] err by auto
  show ?thesis
  proof (cases "ends_key c")
    case True
    then have "c1 = c"
      using r assms(3) \<open>z_err z = None\<close> by (auto simp: peeks_read_until)
    with z' f assms(4) show ?thesis by (auto simp: ends_key_def)
  next
    case False
    then have "read_until ends_key (unread (- 1) (z\<lparr>key_start := raw_end z\<rparr>)) = Inr (c1, z1)"
      using r assms(3) \<open>z_err z = None\<close> by (subst (asm) read_until.simps) (auto simp: peeks_readByte)
    then have "ahead (unread 1 z1) \<le> ahead (unread (- 1) (z\<lparr>key_start := raw_end z\<rparr>))"
      using read_until_ahead err by blast
    also have "\<dots> < ahead z" using assms(3) by (auto simp: ahead_def unread_def peeks_def)
    finally show ?thesis using z' f by auto
  qed
qed

lemma read_until_then:
  assumes "go_bind (read_until stop y) (\<lambda>(c, z). Inr (f c z)) = Inr z'" and "z_err z' = None"
    and "\<And>c z. z_err (f c z) = z_err z"
    and "\<And>c z. ahead (f c z) = ahead z \<or> ahead (f c z) = ahead (unread 1 z)"
  shows "ahead z' \<le> ahead y" and "z_err y = None"
proof -
  obtain c z where r: "read_until stop y = Inr (c, z)" and z': "z' = f c z"
    using assms(1) by auto
  then have err: "z_err z = None" using assms(2,3) by simp
  show "ahead z' \<le> ahead y"
    using read_until_ahead [OF r err] assms(4) [of c z] z' by auto
  show "z_err y = None" using read_until_err [OF r] err by auto
qed

lemma attr_value_ahead:
  assumes "attr_value q z = Inr z'" and "z_err z' = None"
  shows "ahead z' \<le> Suc (ahead z)"
proof -
  consider (gt) "q = CHR ''>''" | (quoted) "q \<noteq> CHR ''>''" "q = CHR 0x27 \<or> q = CHR 0x22"
    | (plain) "q \<noteq> CHR ''>''" "q \<noteq> CHR 0x27" "q \<noteq> CHR 0x22" by blast
  then show ?thesis
  proof cases
    case gt
    with assms unread_ahead [of z] show ?thesis by (auto simp: attr_value_def)
  next
    case quoted
    then have "ahead z' \<le> ahead (z\<lparr>val_start := raw_end z\<rparr>)"
      using assms unfolding attr_value_def if_not_P [OF quoted(1)] if_P [OF quoted(2)]
      by (elim read_until_then(1)) (auto simp del: not_None_eq)
    then show ?thesis by simp
  next
    case plain
    then have q: "\<not> (q = CHR 0x27 \<or> q = CHR 0x22)" by simp
    have "ahead z' \<le> ahead (z\<lparr>val_start := raw_end z - 1\<rparr>)"
      using assms unfolding attr_value_def if_not_P [OF plain(1)] if_not_P [OF q]
      by (elim read_until_then(1)) (auto simp del: not_None_eq)
    then show ?thesis by simp
  qed
qed

lemma readTagAttrVal_ahead:
  assumes "readTagAttrVal z = Inr z'" and "z_err z' = None"
  shows "ahead z' \<le> ahead z" and "z_err z = None" and "peeks (CHR ''='') z \<Longrightarrow> ahead z' < ahead z"
proof -
  let ?z = "z\<lparr>val_start := raw_end z, val_end := raw_end z\<rparr>"
  obtain z1 where 1: "skipWhiteSpace ?z = Inr z1" "z_err z1 = None"
    using assms by (auto simp: readTagAttrVal_def split: if_splits)
  obtain c z2 where 2: "readByte z1 = Inr (c, z2)" "z_err z2 = None"
    using assms 1 by (auto simp: readTagAttrVal_def split: if_splits)
  have a1: "ahead z1 \<le> ahead z" "z_err z = None"
    using skipWhiteSpace_ahead [OF 1] by auto
  have cont: "ahead z' < ahead z1" if c: "c = CHR ''=''"
  proof -
    obtain z3 where 3: "skipWhiteSpace z2 = Inr z3" "z_err z3 = None"
      using assms 1 2 c by (auto simp: readTagAttrVal_def split: if_splits)
    obtain q z4 where 4: "readByte z3 = Inr (q, z4)" "z_err z4 = None" "attr_value q z4 = Inr z'"
      using assms 1 2 3 c by (auto simp: readTagAttrVal_def split: if_splits)
    have "ahead z' \<le> Suc (ahead z4)" using attr_value_ahead [OF 4(3) assms(2)] .
    also have "\<dots> = ahead z3" using readByte_ahead(3) [OF 4(1,2)] .
    also have "\<dots> \<le> ahead z2" using skipWhiteSpace_ahead [OF 3] by simp
    also have "\<dots> < ahead z1" using readByte_less [OF 2] .
    finally show ?thesis .
  qed
  have stop: "z' = unread 1 z2" if "c \<noteq> CHR ''=''"
    using assms 1 2 that by (auto simp: readTagAttrVal_def)
  show "ahead z' \<le> ahead z"
    using cont stop a1 readByte_unread [OF 2] by (cases "c = CHR ''=''") auto
  show "z_err z = None" by (rule a1)
  show "ahead z' < ahead z" if "peeks (CHR ''='') z"
  proof -
    have "z1 = ?z" using skipWhiteSpace_ahead(3) [OF 1, of "CHR ''=''"] that by (simp add: is_space_def)
    then have "c = CHR ''=''" using 2 peeks_readByte [of "CHR ''=''" ?z] that by simp
    then show ?thesis using cont a1 by simp
  qed
qed

definition save_attr :: "bool \<Rightarrow> Tokenizer \<Rightarrow> Tokenizer" where
  "save_attr saveAttr z =
     (if saveAttr \<and> key_start z \<noteq> key_end z
      then z\<lparr>z_attr := z_attr z @ [((key_start z, key_end z), (val_start z, val_end z))]\<rparr> else z)"

lemma save_attr_simps [simp]: "ahead (save_attr s z) = ahead z" "z_err (save_attr s z) = z_err z"
  by (simp_all add: save_attr_def)

function tag_loop :: "bool \<Rightarrow> Tokenizer \<Rightarrow> Tokenizer go" where
  "tag_loop saveAttr z =
     go_bind (readByte z) (\<lambda>(c, z1).
       if z_err z1 \<noteq> None \<or> c = CHR ''>'' then Inr z1
       else go_bind (readTagAttrKey (unread 1 z1)) (\<lambda>z2.
         go_bind (readTagAttrVal z2) (\<lambda>z3.
           go_bind (skipWhiteSpace (save_attr saveAttr z3)) (\<lambda>z4.
             if z_err z4 \<noteq> None then Inr z4 else tag_loop saveAttr z4))))"
  by pat_completeness auto
termination
proof (relation "measure (\<lambda>(s, z). ahead z)", goal_cases)
  case (2 saveAttr z x c z1 z2 z3 z4)
  then have z1: "readByte z = Inr (c, z1)" "z_err z1 = None" and c: "c \<noteq> CHR ''>''"
    and 4: "skipWhiteSpace (save_attr saveAttr z3) = Inr z4" "z_err z4 = None" by auto
  have 3: "z_err z3 = None" "ahead z4 \<le> ahead z3"
    using skipWhiteSpace_ahead [OF 4] by auto
  note val = readTagAttrVal_ahead [OF \<open>readTagAttrVal z2 = Inr z3\<close> 3(1)]
  have "ahead z2 < ahead (unread 1 z1) \<or> ahead z2 = ahead (unread 1 z1) \<and> peeks (CHR ''='') z2"
    using readTagAttrKey_ahead [OF \<open>readTagAttrKey (unread 1 z1) = Inr z2\<close> val(2) readByte_peeks [OF z1] c] .
  then have "ahead z3 < ahead z" using val readByte_unread [OF z1] by auto
  with 3 show ?case by simp
qed simp

declare tag_loop.simps [simp del]

definition readTag :: "bool \<Rightarrow> Tokenizer \<Rightarrow> Tokenizer go" where
  "readTag saveAttr z =
     go_bind (readTagName (z\<lparr>z_attr := [], nAttrReturned := 0\<rparr>)) (\<lambda>z.
       go_bind (skipWhiteSpace z) (\<lambda>z.
         if z_err z \<noteq> None then Inr z else tag_loop saveAttr z))"

text \<open>The inner loop of \<open>startTagIn\<close>, from index \<open>i\<close> of the data on.\<close>

fun tag_bytes_are :: "nat \<Rightarrow> string \<Rightarrow> Tokenizer \<Rightarrow> bool go" where
  "tag_bytes_are i [] z = Inr True"
| "tag_bytes_are i (s # ss) z =
     go_bind (go_index (z_buf z) (data_start z + int i)) (\<lambda>c.
       if lower_byte c \<noteq> s then Inr False else tag_bytes_are (Suc i) ss z)"

fun startTagIn :: "string list \<Rightarrow> Tokenizer \<Rightarrow> bool go" where
  "startTagIn [] z = Inr False"
| "startTagIn (s # ss) z =
     (if data_end z - data_start z \<noteq> int (length s) then startTagIn ss z
      else go_bind (tag_bytes_are 0 s z) (\<lambda>b. if b then Inr True else startTagIn ss z))"

text \<open>The tags, by their first letter, after which the text is raw.\<close>

definition raw_tags :: "char \<Rightarrow> string list" where
  "raw_tags c =
     (if c = CHR ''i'' then [''iframe'']
      else if c = CHR ''n'' then [''noembed'', ''noframes'', ''noscript'']
      else if c = CHR ''p'' then [''plaintext'']
      else if c = CHR ''s'' then [''script'', ''style'']
      else if c = CHR ''t'' then [''textarea'', ''title'']
      else if c = CHR ''x'' then [''xmp'']
      else [])"

definition readStartTag :: "Tokenizer \<Rightarrow> TokenType tok" where
  "readStartTag z =
     go_bind (readTag True z) (\<lambda>z.
       if z_err z \<noteq> None then Inr (ErrorToken, z)
       else
         go_bind (go_index (z_buf z) (data_start z)) (\<lambda>c.
         go_bind (startTagIn (raw_tags (lower_byte c)) z) (\<lambda>raw.
         go_bind (if raw
                  then go_bind (slice_of (z_buf z) (data_start z) (data_end z))
                         (\<lambda>name. Inr (z\<lparr>rawTag := lower name\<rparr>))
                  else Inr z) (\<lambda>z.
         go_bind (go_index (z_buf z) (raw_end z - 2)) (\<lambda>c.
           Inr (if z_err z = None \<and> c = CHR ''/'' then SelfClosingTagToken else StartTagToken,
                z))))))"

section \<open>The next token\<close>

text \<open>After the loop: what has been read is text, if anything has.\<close>

definition next_end :: "Tokenizer \<Rightarrow> Tokenizer" where
  "next_end z =
     (if raw_start z < raw_end z then z\<lparr>data_end := raw_end z, z_tt := TextToken\<rparr>
      else z\<lparr>z_tt := ErrorToken\<rparr>)"

definition token_start :: "char \<Rightarrow> TokenType option" where
  "token_start c =
     (if is_letter c then Some StartTagToken
      else if c = CHR ''/'' then Some EndTagToken
      else if c = CHR ''!'' \<or> c = CHR ''?'' then Some CommentToken
      else None)"

definition set_type :: "(TokenType \<times> Tokenizer) \<Rightarrow> Tokenizer" where
  "set_type = (\<lambda>(t, z). z\<lparr>z_tt := t\<rparr>)"

text \<open>The \<open>switch\<close> on the token type; \<open>c\<close> is the byte after \<open><\<close>.\<close>

definition next_markup :: "TokenType \<Rightarrow> char \<Rightarrow> Tokenizer \<Rightarrow> Tokenizer go" where
  "next_markup tokenType c z =
     (if tokenType = StartTagToken then go_bind (readStartTag z) (\<lambda>p. Inr (set_type p))
      else if tokenType = EndTagToken then
        go_bind (readByte z) (\<lambda>(c, z).
          if z_err z \<noteq> None then Inr (next_end z)
          else if c = CHR ''>'' then Inr (z\<lparr>z_tt := CommentToken\<rparr>)
          else if is_letter c then
            go_bind (readTag False z) (\<lambda>z.
              Inr (z\<lparr>z_tt := (if z_err z \<noteq> None then ErrorToken else EndTagToken)\<rparr>))
          else
            go_bind (readUntilCloseAngle (unread 1 z)) (\<lambda>z. Inr (z\<lparr>z_tt := CommentToken\<rparr>)))
      else if c = CHR ''!'' then go_bind (readMarkupDeclaration z) (\<lambda>p. Inr (set_type p))
      else go_bind (readUntilCloseAngle (unread 1 z)) (\<lambda>z. Inr (z\<lparr>z_tt := CommentToken\<rparr>)))"

function next_loop :: "Tokenizer \<Rightarrow> Tokenizer go" where
  "next_loop z =
     go_bind (readByte z) (\<lambda>(c, z1).
       if z_err z1 \<noteq> None then Inr (next_end z1)
       else if c \<noteq> CHR ''<'' then next_loop z1
       else go_bind (readByte z1) (\<lambda>(c, z2).
         if z_err z2 \<noteq> None then Inr (next_end z2)
         else
           (case token_start c of
              None \<Rightarrow> next_loop (unread 1 z2)
            | Some tokenType \<Rightarrow>
                if raw_start z2 < raw_end z2 - 2
                then Inr (z2\<lparr>raw_end := raw_end z2 - 2, data_end := raw_end z2 - 2,
                             z_tt := TextToken\<rparr>)
                else next_markup tokenType c z2)))"
  by pat_completeness auto
termination
  by (relation "measure ahead") (auto simp: readByte_unread dest: readByte_less)

declare next_loop.simps [simp del]

text \<open>The raw text that the previous start tag announced.\<close>

definition next_raw :: "Tokenizer \<Rightarrow> Tokenizer go" where
  "next_raw z =
     (if rawTag z = ''plaintext'' then
        go_bind (read_until (\<lambda>c. False) z) (\<lambda>(c, z).
          Inr (z\<lparr>data_end := raw_end z, textIsRaw := True\<rparr>))
      else readRawOrRCDATA z)"

definition next_begin :: "Tokenizer \<Rightarrow> Tokenizer" where
  "next_begin z = z\<lparr>raw_start := raw_end z, data_start := raw_end z, data_end := raw_end z\<rparr>"

definition Next :: "Tokenizer \<Rightarrow> Tokenizer go" where
  "Next z0 =
     (let z = next_begin z0
      in if z_err z \<noteq> None then Inr (z\<lparr>z_tt := ErrorToken\<rparr>)
         else
           go_bind (if rawTag z \<noteq> [] then next_raw z else Inr z) (\<lambda>z1.
             if rawTag z \<noteq> [] \<and> data_start z1 < data_end z1
             then Inr (z1\<lparr>z_tt := TextToken, convertNUL := True\<rparr>)
             else next_loop (z1\<lparr>textIsRaw := False, convertNUL := False\<rparr>)))"

section \<open>Constructors\<close>

text \<open>
  \<open>strings.ToLower\<close>, exactly whenever its result is ASCII: besides the letters \<open>A\<close> to
  \<open>Z\<close>, U+0130 and U+212A are the runes whose lower case is an ASCII letter.
\<close>

fun ToLower_ascii :: "string \<Rightarrow> string" where
  "ToLower_ascii s =
     (case s of
        [] \<Rightarrow> []
      | c # s' \<Rightarrow>
          if HasPrefix s [CHR 0xC4, CHR 0xB0] then CHR ''i'' # ToLower_ascii (drop 2 s)
          else if HasPrefix s [CHR 0xE2, CHR 0x84, CHR 0xAA] then CHR ''k'' # ToLower_ascii (drop 3 s)
          else lower_byte c # ToLower_ascii s')"

declare ToLower_ascii.simps [simp del]

definition context_tags :: "string list" where
  "context_tags =
     [''iframe'', ''noembed'', ''noframes'', ''noscript'', ''plaintext'', ''script'', ''style'',
      ''title'', ''textarea'', ''xmp'']"

definition NewTokenizerFragment :: "reader \<Rightarrow> string \<Rightarrow> Tokenizer" where
  "NewTokenizerFragment r contextTag =
     \<lparr>z_r = r, z_tt = ErrorToken, z_err = None, z_readErr = None, raw_start = 0, raw_end = 0,
      z_buf = [], z_cap = 4096, z_maxBuf = 0, data_start = 0, data_end = 0,
      key_start = 0, key_end = 0, val_start = 0, val_end = 0, z_attr = [], nAttrReturned = 0,
      rawTag = (if contextTag \<noteq> [] \<and> ToLower_ascii contextTag \<in> set context_tags
                then ToLower_ascii contextTag else []),
      textIsRaw = False, convertNUL = False, allowCDATA = False\<rparr>"

definition NewTokenizer :: "reader \<Rightarrow> Tokenizer" where
  "NewTokenizer r = NewTokenizerFragment r []"

end
