(* ===== verification/Html_Foreign.thy ===== *)
theory Html_Foreign
  imports Html_Token
begin

text \<open>
  \<^verbatim>\<open>golang.org/x/net/html\<close>, the parts of the tree builder that only look at names and
  attributes: the special elements (\<^verbatim>\<open>const.go\<close>), document types (\<^verbatim>\<open>doctype.go\<close>) and the
  adjustments of foreign content (\<^verbatim>\<open>foreign.go\<close>).
\<close>

section \<open>Strings\<close>

definition whitespace :: "char list" where
  "whitespace = [CHR '' '', CHR 0x09, CHR 0x0D, CHR 0x0A, CHR 0x0C]"

text \<open>\<open>strings.TrimLeft\<close> with a cutset of ASCII bytes.\<close>

definition TrimLeft :: "char list \<Rightarrow> string \<Rightarrow> string" where
  "TrimLeft cs s = dropWhile (\<lambda>c. c \<in> set cs) s"

text \<open>
  What the parser takes from the Unicode tables of the Go library, for strings that are not
  ASCII: \<open>strings.ToLower\<close> and \<open>strings.EqualFold\<close>. Comparisons of a lower-cased string with an ASCII
  one need no table (\<open>ToLower_ascii\<close>).
\<close>

record unicode =
  ToLower :: "string \<Rightarrow> string"
  EqualFold :: "string \<Rightarrow> string \<Rightarrow> bool"

section \<open>Special elements\<close>

definition isSpecialElementMap :: "string list" where
  "isSpecialElementMap =
     [''address'', ''applet'', ''area'', ''article'', ''aside'', ''base'', ''basefont'',
      ''bgsound'', ''blockquote'', ''body'', ''br'', ''button'', ''caption'', ''center'', ''col'',
      ''colgroup'', ''dd'', ''details'', ''dir'', ''div'', ''dl'', ''dt'', ''embed'', ''fieldset'',
      ''figcaption'', ''figure'', ''footer'', ''form'', ''frame'', ''frameset'', ''h1'', ''h2'',
      ''h3'', ''h4'', ''h5'', ''h6'', ''head'', ''header'', ''hgroup'', ''hr'', ''html'',
      ''iframe'', ''img'', ''input'', ''isindex'', ''keygen'', ''li'', ''link'', ''listing'',
      ''main'', ''marquee'', ''menu'', ''meta'', ''nav'', ''noembed'', ''noframes'', ''noscript'',
      ''object'', ''ol'', ''p'', ''param'', ''plaintext'', ''pre'', ''script'', ''section'',
      ''select'', ''source'', ''style'', ''summary'', ''table'', ''tbody'', ''td'', ''template'',
      ''textarea'', ''tfoot'', ''th'', ''thead'', ''title'', ''tr'', ''track'', ''ul'', ''wbr'',
      ''xmp'']"

definition isSpecialElement :: "Node \<Rightarrow> bool" where
  "isSpecialElement e =
     (if Namespace e = [] \<or> Namespace e = ''html'' then Data e \<in> set isSpecialElementMap
      else if Namespace e = ''svg'' then Data e = ''foreignObject''
      else False)"

section \<open>Document types\<close>

definition quirkyIDs :: "string list" where
  "quirkyIDs =
     [''+//silmaril//dtd html pro v0r11 19970101//'',
      ''-//advasoft ltd//dtd html 3.0 aswedit + extensions//'',
      ''-//as//dtd html 3.0 aswedit + extensions//'', ''-//ietf//dtd html 2.0 level 1//'',
      ''-//ietf//dtd html 2.0 level 2//'', ''-//ietf//dtd html 2.0 strict level 1//'',
      ''-//ietf//dtd html 2.0 strict level 2//'', ''-//ietf//dtd html 2.0 strict//'',
      ''-//ietf//dtd html 2.0//'', ''-//ietf//dtd html 2.1e//'', ''-//ietf//dtd html 3.0//'',
      ''-//ietf//dtd html 3.2 final//'', ''-//ietf//dtd html 3.2//'', ''-//ietf//dtd html 3//'',
      ''-//ietf//dtd html level 0//'', ''-//ietf//dtd html level 1//'',
      ''-//ietf//dtd html level 2//'', ''-//ietf//dtd html level 3//'',
      ''-//ietf//dtd html strict level 0//'', ''-//ietf//dtd html strict level 1//'',
      ''-//ietf//dtd html strict level 2//'', ''-//ietf//dtd html strict level 3//'',
      ''-//ietf//dtd html strict//'', ''-//ietf//dtd html//'',
      ''-//metrius//dtd metrius presentational//'',
      ''-//microsoft//dtd internet explorer 2.0 html strict//'',
      ''-//microsoft//dtd internet explorer 2.0 html//'',
      ''-//microsoft//dtd internet explorer 2.0 tables//'',
      ''-//microsoft//dtd internet explorer 3.0 html strict//'',
      ''-//microsoft//dtd internet explorer 3.0 html//'',
      ''-//microsoft//dtd internet explorer 3.0 tables//'',
      ''-//netscape comm. corp.//dtd html//'', ''-//netscape comm. corp.//dtd strict html//'',
      (''-//o'' @ [CHR 0x27] @ ''reilly and associates//dtd html 2.0//''),
      (''-//o'' @ [CHR 0x27] @ ''reilly and associates//dtd html extended 1.0//''),
      (''-//o'' @ [CHR 0x27] @ ''reilly and associates//dtd html extended relaxed 1.0//''),
      ''-//softquad software//dtd hotmetal pro 6.0::19990601::extensions to html 4.0//'',
      ''-//softquad//dtd hotmetal pro 4.0::19971010::extensions to html 4.0//'',
      ''-//spyglass//dtd html 2.0 extended//'', ''-//sq//dtd html 2.0 hotmetal + extensions//'',
      ''-//sun microsystems corp.//dtd hotjava html//'',
      ''-//sun microsystems corp.//dtd hotjava strict html//'',
      ''-//w3c//dtd html 3 1995-03-24//'', ''-//w3c//dtd html 3.2 draft//'',
      ''-//w3c//dtd html 3.2 final//'', ''-//w3c//dtd html 3.2//'',
      ''-//w3c//dtd html 3.2s draft//'', ''-//w3c//dtd html 4.0 frameset//'',
      ''-//w3c//dtd html 4.0 transitional//'', ''-//w3c//dtd html experimental 19960712//'',
      ''-//w3c//dtd html experimental 970421//'', ''-//w3c//dtd w3 html//'',
      ''-//w3o//dtd w3 html 3.0//'', ''-//webtechs//dtd mozilla html 2.0//'',
      ''-//webtechs//dtd mozilla html//'']"

text \<open>The loop over the public and the system identifier: the key that was expected when it
  ended, the rest of the text and the attributes.\<close>

function doctype_ids ::
  "string \<Rightarrow> string \<Rightarrow> Attribute list \<Rightarrow> string \<times> string \<times> Attribute list" where
  "doctype_ids key s0 as =
     (if key = ''public'' \<or> key = ''system'' then
        (case TrimLeft whitespace s0 of
           [] \<Rightarrow> (key, [], as)
         | quote # s \<Rightarrow>
             if quote \<noteq> CHR 0x22 \<and> quote \<noteq> CHR 0x27 then (key, quote # s, as)
             else
               let id = takeWhile (\<lambda>c. c \<noteq> quote) s;
                   rest = drop (Suc (length id)) s
               in doctype_ids (if key = ''public'' then ''system'' else []) rest
                    (as @ [\<lparr>attr_Namespace = [], attr_Key = key, attr_Val = id\<rparr>]))
      else (key, s0, as))"
  by pat_completeness auto
termination
  by (relation "measure (\<lambda>(key, s, as). if key = ''public'' then 2 else if key = ''system'' then 1 else 0)") auto

declare doctype_ids.simps [simp del]

text \<open>What the public and the system identifier say about quirks mode.\<close>

definition public_quirks :: "Attribute list \<Rightarrow> bool" where
  "public_quirks as =
     (let public = ToLower_ascii (attr_Val (as ! 0)) in
      attr_Key (as ! 0) = ''public'' \<and>
      (public = ''-//w3o//dtd w3 html strict 3.0//en//'' \<or>
       public = ''-/w3d/dtd html 4.0 transitional/en'' \<or> public = ''html'' \<or>
       list_ex (HasPrefix public) quirkyIDs \<or>
       length as = 1 \<and> (HasPrefix public ''-//w3c//dtd html 4.01 frameset//'' \<or>
         HasPrefix public ''-//w3c//dtd html 4.01 transitional//'')))"

definition system_quirks :: "Attribute list \<Rightarrow> bool" where
  "system_quirks as =
     (let lastAttr = as ! (length as - 1) in
      attr_Key lastAttr = ''system'' \<and>
      ToLower_ascii (attr_Val lastAttr) = ''http://www.ibm.com/data/dtd/v11/ibmxhtml1-transitional.dtd'')"

definition parseDoctype :: "unicode \<Rightarrow> string \<Rightarrow> Node \<times> bool" where
  "parseDoctype u s0 =
     (let name = takeWhile (\<lambda>c. c \<notin> set whitespace) s0;
          quirks = (name \<noteq> ''html'');
          n = new_Node\<lparr>NType := DoctypeNode, Data := ToLower u name\<rparr>;
          s = TrimLeft whitespace (drop (length name) s0)
      in if length s < 6 then (n, quirks \<or> s \<noteq> [])
         else
           (case doctype_ids (ToLower_ascii (take 6 s)) (drop 6 s) [] of
              (key, rest, as) \<Rightarrow>
                (n\<lparr>Attr := as\<rparr>,
                 quirks \<or> key \<noteq> [] \<or> rest \<noteq> [] \<or>
                 0 < length as \<and> (public_quirks as \<or> system_quirks as))))"

section \<open>Foreign content\<close>

definition adjustAttributeNames :: "Attribute list \<Rightarrow> (string \<times> string) list \<Rightarrow> Attribute list" where
  "adjustAttributeNames aa nameMap =
     map (\<lambda>a. case map_of nameMap (attr_Key a) of
                Some newName \<Rightarrow> a\<lparr>attr_Key := newName\<rparr>
              | None \<Rightarrow> a) aa"

definition foreign_keys :: "string list" where
  "foreign_keys =
     [''xlink:actuate'', ''xlink:arcrole'', ''xlink:href'', ''xlink:role'', ''xlink:show'',
      ''xlink:title'', ''xlink:type'', ''xml:base'', ''xml:lang'', ''xml:space'', ''xmlns:xlink'']"

definition adjustForeignAttributes :: "Attribute list \<Rightarrow> Attribute list" where
  "adjustForeignAttributes aa =
     map (\<lambda>a. if attr_Key a = [] \<or> hd (attr_Key a) \<noteq> CHR ''x'' then a
              else if attr_Key a \<in> set foreign_keys
              then let j = length (takeWhile (\<lambda>c. c \<noteq> CHR '':'') (attr_Key a))
                   in a\<lparr>attr_Namespace := take j (attr_Key a), attr_Key := drop (j + 1) (attr_Key a)\<rparr>
              else a) aa"

definition htmlIntegrationPoint :: "Node \<Rightarrow> bool" where
  "htmlIntegrationPoint n =
     (if NType n \<noteq> ElementNode then False
      else if Namespace n = ''math'' then
        Data n = ''annotation-xml'' \<and>
        list_ex (\<lambda>a. attr_Key a = ''encoding'' \<and>
          ToLower_ascii (attr_Val a) \<in> set [''text/html'', ''application/xhtml+xml'']) (Attr n)
      else if Namespace n = ''svg'' then Data n \<in> set [''desc'', ''foreignObject'', ''title'']
      else False)"

definition mathMLTextIntegrationPoint :: "Node \<Rightarrow> bool" where
  "mathMLTextIntegrationPoint n =
     (Namespace n = ''math'' \<and> Data n \<in> set [''mi'', ''mo'', ''mn'', ''ms'', ''mtext''])"

definition breakout :: "string list" where
  "breakout =
     [''b'', ''big'', ''blockquote'', ''body'', ''br'', ''center'', ''code'', ''dd'', ''div'',
      ''dl'', ''dt'', ''em'', ''embed'', ''h1'', ''h2'', ''h3'', ''h4'', ''h5'', ''h6'', ''head'',
      ''hr'', ''i'', ''img'', ''li'', ''listing'', ''menu'', ''meta'', ''nobr'', ''ol'', ''p'',
      ''pre'', ''ruby'', ''s'', ''small'', ''span'', ''strong'', ''strike'', ''sub'', ''sup'',
      ''table'', ''tt'', ''u'', ''ul'', ''var'']"

definition svgTagNameAdjustments :: "(string \<times> string) list" where
  "svgTagNameAdjustments =
     [(''altglyph'', ''altGlyph''), (''altglyphdef'', ''altGlyphDef''),
      (''altglyphitem'', ''altGlyphItem''), (''animatecolor'', ''animateColor''),
      (''animatemotion'', ''animateMotion''), (''animatetransform'', ''animateTransform''),
      (''clippath'', ''clipPath''), (''feblend'', ''feBlend''),
      (''fecolormatrix'', ''feColorMatrix''), (''fecomponenttransfer'', ''feComponentTransfer''),
      (''fecomposite'', ''feComposite''), (''feconvolvematrix'', ''feConvolveMatrix''),
      (''fediffuselighting'', ''feDiffuseLighting''),
      (''fedisplacementmap'', ''feDisplacementMap''), (''fedistantlight'', ''feDistantLight''),
      (''feflood'', ''feFlood''), (''fefunca'', ''feFuncA''), (''fefuncb'', ''feFuncB''),
      (''fefuncg'', ''feFuncG''), (''fefuncr'', ''feFuncR''),
      (''fegaussianblur'', ''feGaussianBlur''), (''feimage'', ''feImage''),
      (''femerge'', ''feMerge''), (''femergenode'', ''feMergeNode''),
      (''femorphology'', ''feMorphology''), (''feoffset'', ''feOffset''),
      (''fepointlight'', ''fePointLight''), (''fespecularlighting'', ''feSpecularLighting''),
      (''fespotlight'', ''feSpotLight''), (''fetile'', ''feTile''),
      (''feturbulence'', ''feTurbulence''), (''foreignobject'', ''foreignObject''),
      (''glyphref'', ''glyphRef''), (''lineargradient'', ''linearGradient''),
      (''radialgradient'', ''radialGradient''), (''textpath'', ''textPath'')]"

definition mathMLAttributeAdjustments :: "(string \<times> string) list" where
  "mathMLAttributeAdjustments = [(''definitionurl'', ''definitionURL'')]"

definition svgAttributeAdjustments :: "(string \<times> string) list" where
  "svgAttributeAdjustments =
     [(''attributename'', ''attributeName''), (''attributetype'', ''attributeType''),
      (''basefrequency'', ''baseFrequency''), (''baseprofile'', ''baseProfile''),
      (''calcmode'', ''calcMode''), (''clippathunits'', ''clipPathUnits''),
      (''contentscripttype'', ''contentScriptType''), (''contentstyletype'', ''contentStyleType''),
      (''diffuseconstant'', ''diffuseConstant''), (''edgemode'', ''edgeMode''),
      (''externalresourcesrequired'', ''externalResourcesRequired''),
      (''filterres'', ''filterRes''), (''filterunits'', ''filterUnits''),
      (''glyphref'', ''glyphRef''), (''gradienttransform'', ''gradientTransform''),
      (''gradientunits'', ''gradientUnits''), (''kernelmatrix'', ''kernelMatrix''),
      (''kernelunitlength'', ''kernelUnitLength''), (''keypoints'', ''keyPoints''),
      (''keysplines'', ''keySplines''), (''keytimes'', ''keyTimes''),
      (''lengthadjust'', ''lengthAdjust''), (''limitingconeangle'', ''limitingConeAngle''),
      (''markerheight'', ''markerHeight''), (''markerunits'', ''markerUnits''),
      (''markerwidth'', ''markerWidth''), (''maskcontentunits'', ''maskContentUnits''),
      (''maskunits'', ''maskUnits''), (''numoctaves'', ''numOctaves''),
      (''pathlength'', ''pathLength''), (''patterncontentunits'', ''patternContentUnits''),
      (''patterntransform'', ''patternTransform''), (''patternunits'', ''patternUnits''),
      (''pointsatx'', ''pointsAtX''), (''pointsaty'', ''pointsAtY''),
      (''pointsatz'', ''pointsAtZ''), (''preservealpha'', ''preserveAlpha''),
      (''preserveaspectratio'', ''preserveAspectRatio''), (''primitiveunits'', ''primitiveUnits''),
      (''refx'', ''refX''), (''refy'', ''refY''), (''repeatcount'', ''repeatCount''),
      (''repeatdur'', ''repeatDur''), (''requiredextensions'', ''requiredExtensions''),
      (''requiredfeatures'', ''requiredFeatures''), (''specularconstant'', ''specularConstant''),
      (''specularexponent'', ''specularExponent''), (''spreadmethod'', ''spreadMethod''),
      (''startoffset'', ''startOffset''), (''stddeviation'', ''stdDeviation''),
      (''stitchtiles'', ''stitchTiles''), (''surfacescale'', ''surfaceScale''),
      (''systemlanguage'', ''systemLanguage''), (''tablevalues'', ''tableValues''),
      (''targetx'', ''targetX''), (''targety'', ''targetY''), (''textlength'', ''textLength''),
      (''viewbox'', ''viewBox''), (''viewtarget'', ''viewTarget''),
      (''xchannelselector'', ''xChannelSelector''), (''ychannelselector'', ''yChannelSelector''),
      (''zoomandpan'', ''zoomAndPan'')]"

end
