(* ===== verification/Html_Token_Data.thy ===== *)
theory Html_Token_Data
  imports Html_Token
begin

text \<open>
  \<^verbatim>\<open>golang.org/x/net/html/token.go\<close>: the data of a token. \<open>Text\<close>, \<open>TagName\<close> and
  \<open>TagAttr\<close> convert the bytes of the token inside the tokenizer's buffer, so that the
  buffer they leave is part of their result. \<open>Tokenizer_Token\<close> collects the token, and
  \<open>Token_String\<close> prints it.
\<close>

section \<open>New lines\<close>

text \<open>The compaction loop of \<open>convertNewlines\<close>: the buffer and the length of the result.\<close>

function squeeze :: "string \<Rightarrow> nat \<Rightarrow> nat \<Rightarrow> (string \<times> nat) go" where
  "squeeze s src dst =
     (if src < length s then
        if s ! src = CHR 0x0D then
          let src1 = (if src + 1 < length s \<and> s ! (src + 1) = CHR 0x0A then src + 1 else src)
          in go_bind (go_store s (int dst) (CHR 0x0A)) (\<lambda>s'. squeeze s' (src1 + 1) (dst + 1))
        else go_bind (go_store s (int dst) (s ! src)) (\<lambda>s'. squeeze s' (src + 1) (dst + 1))
      else Inr (s, dst))"
  by pat_completeness auto
termination
  by (relation "measure (\<lambda>(s, src, dst). length s - src)") (auto simp: go_store_Inr_iff)

declare squeeze.simps [simp del]

function newlines_from :: "nat \<Rightarrow> string \<Rightarrow> (string \<times> nat) go" where
  "newlines_from i s =
     (if i < length s then
        if s ! i \<noteq> CHR 0x0D then newlines_from (i + 1) s
        else if length s \<le> i + 1 \<or> s ! (i + 1) \<noteq> CHR 0x0A
        then newlines_from (i + 1) (s[i := CHR 0x0A])
        else squeeze s (i + 1) i
      else Inr (s, length s))"
  by pat_completeness auto
termination
  by (relation "measure (\<lambda>(i, s). length s - i)") auto

declare newlines_from.simps [simp del]

definition convertNewlines :: "string \<Rightarrow> (string \<times> nat) go" where
  "convertNewlines s = newlines_from 0 s"

section \<open>Text\<close>

text \<open>Putting the converted bytes of a span back into the buffer.\<close>

definition write_back :: "int \<Rightarrow> string \<Rightarrow> Tokenizer \<Rightarrow> Tokenizer" where
  "write_back lo bs z =
     z\<lparr>z_buf := take (nat lo) (z_buf z) @ bs @ drop (nat lo + length bs) (z_buf z)\<rparr>"

text \<open>\<open>bytes.Replace(s, nul, replacement, -1)\<close>: a new slice in which every zero byte is the
  encoding of U+FFFD.\<close>

definition replace_nul :: "string \<Rightarrow> string" where
  "replace_nul s =
     concat (map (\<lambda>c. if c = NUL then [CHR 0xEF, CHR 0xBF, CHR 0xBD] else [c]) s)"

definition Text :: "Tokenizer \<Rightarrow> string tok" where
  "Text z =
     (if z_tt z \<in> {TextToken, CommentToken, DoctypeToken} then
        go_bind (slice_of (z_buf z) (data_start z) (data_end z)) (\<lambda>s0.
        go_bind (convertNewlines s0) (\<lambda>(m, n).
          let s = take n m;
              z1 = (write_back (data_start z) m z)\<lparr>data_start := raw_end z, data_end := raw_end z\<rparr>
          in if (convertNUL z \<or> z_tt z = CommentToken) \<and> NUL \<in> set s
             then go_bind (if textIsRaw z then Inr (replace_nul s) else unescape (replace_nul s) False)
                    (\<lambda>t. Inr (t, z1))
             else if textIsRaw z then Inr (s, z1)
             else go_bind (unescape_mem s False) (\<lambda>(m2, n2).
                    Inr (take n2 m2, write_back (data_start z) m2 z1))))
      else Inr ([], z))"

section \<open>Names and attributes\<close>

lemma write_back_simps [simp]:
  "z_attr (write_back i bs z) = z_attr z" "nAttrReturned (write_back i bs z) = nAttrReturned z"
  "raw_start (write_back i bs z) = raw_start z" "raw_end (write_back i bs z) = raw_end z"
  "z_tt (write_back i bs z) = z_tt z" "z_r (write_back i bs z) = z_r z"
  "z_err (write_back i bs z) = z_err z" "z_readErr (write_back i bs z) = z_readErr z"
  by (simp_all add: write_back_def)

definition TagName :: "Tokenizer \<Rightarrow> (string \<times> bool) tok" where
  "TagName z =
     (if data_start z < data_end z \<and>
         z_tt z \<in> {StartTagToken, EndTagToken, SelfClosingTagToken} then
        go_bind (slice_of (z_buf z) (data_start z) (data_end z)) (\<lambda>s.
          Inr ((lower s, nAttrReturned z < length (z_attr z)),
               (write_back (data_start z) (lower s) z)
                 \<lparr>data_start := raw_end z, data_end := raw_end z\<rparr>))
      else Inr (([], False), z))"

definition TagAttr :: "Tokenizer \<Rightarrow> (string \<times> string \<times> bool) tok" where
  "TagAttr z =
     (if nAttrReturned z < length (z_attr z) \<and> z_tt z \<in> {StartTagToken, SelfClosingTagToken} then
        (case z_attr z ! nAttrReturned z of
           ((k1, k2), (v1, v2)) \<Rightarrow>
             let z1 = z\<lparr>nAttrReturned := nAttrReturned z + 1\<rparr>
             in go_bind (slice_of (z_buf z) k1 k2) (\<lambda>key.
                go_bind (slice_of (z_buf z) v1 v2) (\<lambda>_.
                let z2 = write_back k1 (lower key) z1
                in go_bind (slice_of (z_buf z2) v1 v2) (\<lambda>val.
                   go_bind (convertNewlines val) (\<lambda>(m, n).
                   let z3 = write_back v1 m z2
                   in go_bind (unescape_mem (take n m) True) (\<lambda>(m2, n2).
                      Inr ((lower key, take n2 m2, nAttrReturned z1 < length (z_attr z)),
                           write_back v1 m2 z3)))))))
      else Inr (([], [], False), z))"

record Token =
  t_Type :: TokenType
  t_DataAtom :: Atom
  t_Data :: string
  t_Attr :: "Attribute list"

text \<open>The loop over \<open>TagAttr\<close> ends after one round per attribute that is left.\<close>

lemma TagAttr_progress:
  assumes "TagAttr z = Inr ((k, v, again), z')" and "again"
  shows "length (z_attr z') - nAttrReturned z' < length (z_attr z) - nAttrReturned z"
proof -
  have n: "nAttrReturned z < length (z_attr z)"
    using assms by (auto simp: TagAttr_def split: if_splits)
  obtain k1 k2 v1 v2 where "z_attr z ! nAttrReturned z = ((k1, k2), (v1, v2))"
    by (metis surj_pair)
  then have "z_attr z' = z_attr z \<and> nAttrReturned z' = nAttrReturned z + 1"
    using assms n by (auto simp: TagAttr_def Let_def split: if_splits)
  with n show ?thesis by simp
qed

function collect_attrs :: "bool \<Rightarrow> Attribute list \<Rightarrow> Tokenizer \<Rightarrow> Attribute list tok" where
  "collect_attrs moreAttr acc z =
     (if \<not> moreAttr then Inr (acc, z)
      else go_bind (TagAttr z) (\<lambda>(p, z1).
             case p of (key, val, again) \<Rightarrow>
               go_bind (String key) (\<lambda>k.
                 collect_attrs again
                   (acc @ [\<lparr>attr_Namespace = [], attr_Key = k, attr_Val = val\<rparr>]) z1)))"
  by pat_completeness auto
termination
  by (relation "measures [\<lambda>(m, acc, z). if m then 1 else 0,
        \<lambda>(m, acc, z). length (z_attr z) - nAttrReturned z]")
    (auto dest: TagAttr_progress)

declare collect_attrs.simps [simp del]

definition Tokenizer_Token :: "Tokenizer \<Rightarrow> Token tok" where
  "Tokenizer_Token z =
     (if z_tt z \<in> {TextToken, CommentToken, DoctypeToken} then
        go_bind (Text z) (\<lambda>(s, z1).
          Inr (\<lparr>t_Type = z_tt z, t_DataAtom = 0, t_Data = s, t_Attr = []\<rparr>, z1))
      else if z_tt z \<in> {StartTagToken, SelfClosingTagToken, EndTagToken} then
        go_bind (TagName z) (\<lambda>((name, moreAttr), z1).
        go_bind (collect_attrs moreAttr [] z1) (\<lambda>(attrs, z2).
        go_bind (Lookup name) (\<lambda>a.
          if a \<noteq> 0
          then go_bind (Atom_String a) (\<lambda>s.
                 Inr (\<lparr>t_Type = z_tt z, t_DataAtom = a, t_Data = s, t_Attr = attrs\<rparr>, z2))
          else Inr (\<lparr>t_Type = z_tt z, t_DataAtom = 0, t_Data = name, t_Attr = attrs\<rparr>, z2))))
      else Inr (\<lparr>t_Type = z_tt z, t_DataAtom = 0, t_Data = [], t_Attr = []\<rparr>, z))"

section \<open>Printing\<close>

definition TokenType_String :: "TokenType \<Rightarrow> string" where
  "TokenType_String t =
     (case t of
        ErrorToken \<Rightarrow> ''Error'' | TextToken \<Rightarrow> ''Text'' | StartTagToken \<Rightarrow> ''StartTag''
      | EndTagToken \<Rightarrow> ''EndTag'' | SelfClosingTagToken \<Rightarrow> ''SelfClosingTag''
      | CommentToken \<Rightarrow> ''Comment'' | DoctypeToken \<Rightarrow> ''Doctype'')"

fun tag_attrs_string :: "string \<Rightarrow> Attribute list \<Rightarrow> string go" where
  "tag_attrs_string buf [] = Inr buf"
| "tag_attrs_string buf (a # as) =
     go_bind (escape (buf @ '' '' @ attr_Key a @ ''='' @ [CHR 0x22]) (attr_Val a)) (\<lambda>buf.
       tag_attrs_string (buf @ [CHR 0x22]) as)"

definition tagString :: "Token \<Rightarrow> string go" where
  "tagString t =
     (if t_Attr t = [] then Inr (t_Data t) else tag_attrs_string (t_Data t) (t_Attr t))"

definition Token_String :: "Token \<Rightarrow> string go" where
  "Token_String t =
     (case t_Type t of
        ErrorToken \<Rightarrow> Inr []
      | TextToken \<Rightarrow> EscapeString (t_Data t)
      | StartTagToken \<Rightarrow> go_bind (tagString t) (\<lambda>s. Inr (''<'' @ s @ ''>''))
      | EndTagToken \<Rightarrow> go_bind (tagString t) (\<lambda>s. Inr (''</'' @ s @ ''>''))
      | SelfClosingTagToken \<Rightarrow> go_bind (tagString t) (\<lambda>s. Inr (''<'' @ s @ ''/>''))
      | CommentToken \<Rightarrow> Inr (''<!--'' @ t_Data t @ ''-->'')
      | DoctypeToken \<Rightarrow> Inr (''<!DOCTYPE '' @ t_Data t @ ''>''))"

end
