(* ===== verification/Html_Parser_State.thy ===== *)
theory Html_Parser_State
  imports Html_Foreign Html_Token_Data
begin

text \<open>
  \<^verbatim>\<open>golang.org/x/net/html/parse.go\<close>: the state of the parser and its helpers. A method of
  the parser is a function from the parser to a result and the parser after it, or a panic.
  The nodes live in a store that is part of the state; a stack of nodes is a list of pointers,
  some of which may be \<open>nil\<close>, and reading a field through \<open>nil\<close> is a panic.
\<close>

section \<open>Atoms\<close>

abbreviation a_A :: Atom where "a_A \<equiv> 0x1"
abbreviation a_Address :: Atom where "a_Address \<equiv> 0x6f307"
abbreviation a_AnnotationXml :: Atom where "a_AnnotationXml \<equiv> 0x1c90e"
abbreviation a_Applet :: Atom where "a_Applet \<equiv> 0x31906"
abbreviation a_Area :: Atom where "a_Area \<equiv> 0x35604"
abbreviation a_Article :: Atom where "a_Article \<equiv> 0x3fc07"
abbreviation a_Aside :: Atom where "a_Aside \<equiv> 0x10705"
abbreviation a_B :: Atom where "a_B \<equiv> 0x101"
abbreviation a_Base :: Atom where "a_Base \<equiv> 0x3b04"
abbreviation a_Basefont :: Atom where "a_Basefont \<equiv> 0x3b08"
abbreviation a_Bgsound :: Atom where "a_Bgsound \<equiv> 0x15e07"
abbreviation a_Big :: Atom where "a_Big \<equiv> 0x17003"
abbreviation a_Blockquote :: Atom where "a_Blockquote \<equiv> 0x1870a"
abbreviation a_Body :: Atom where "a_Body \<equiv> 0x2804"
abbreviation a_Br :: Atom where "a_Br \<equiv> 0x202"
abbreviation a_Button :: Atom where "a_Button \<equiv> 0x19106"
abbreviation a_Caption :: Atom where "a_Caption \<equiv> 0x23107"
abbreviation a_Center :: Atom where "a_Center \<equiv> 0x22006"
abbreviation a_Code :: Atom where "a_Code \<equiv> 0x5c504"
abbreviation a_Col :: Atom where "a_Col \<equiv> 0x1ab03"
abbreviation a_Colgroup :: Atom where "a_Colgroup \<equiv> 0x1ab08"
abbreviation a_Command :: Atom where "a_Command \<equiv> 0x1d707"
abbreviation a_Dd :: Atom where "a_Dd \<equiv> 0x2d702"
abbreviation a_Desc :: Atom where "a_Desc \<equiv> 0x56104"
abbreviation a_Details :: Atom where "a_Details \<equiv> 0x7207"
abbreviation a_Dir :: Atom where "a_Dir \<equiv> 0x9303"
abbreviation a_Div :: Atom where "a_Div \<equiv> 0x16b03"
abbreviation a_Dl :: Atom where "a_Dl \<equiv> 0x5e602"
abbreviation a_Dt :: Atom where "a_Dt \<equiv> 0x64b02"
abbreviation a_Em :: Atom where "a_Em \<equiv> 0x6e02"
abbreviation a_Embed :: Atom where "a_Embed \<equiv> 0x6e05"
abbreviation a_Fieldset :: Atom where "a_Fieldset \<equiv> 0x22608"
abbreviation a_Figcaption :: Atom where "a_Figcaption \<equiv> 0x22e0a"
abbreviation a_Figure :: Atom where "a_Figure \<equiv> 0x24806"
abbreviation a_Font :: Atom where "a_Font \<equiv> 0x3f04"
abbreviation a_Footer :: Atom where "a_Footer \<equiv> 0xf606"
abbreviation a_ForeignObject :: Atom where "a_ForeignObject \<equiv> 0x2540d"
abbreviation a_Form :: Atom where "a_Form \<equiv> 0x26e04"
abbreviation a_Frame :: Atom where "a_Frame \<equiv> 0x8b05"
abbreviation a_Frameset :: Atom where "a_Frameset \<equiv> 0x8b08"
abbreviation a_H1 :: Atom where "a_H1 \<equiv> 0x15c02"
abbreviation a_H2 :: Atom where "a_H2 \<equiv> 0x2de02"
abbreviation a_H3 :: Atom where "a_H3 \<equiv> 0x30d02"
abbreviation a_H4 :: Atom where "a_H4 \<equiv> 0x34502"
abbreviation a_H5 :: Atom where "a_H5 \<equiv> 0x34f02"
abbreviation a_H6 :: Atom where "a_H6 \<equiv> 0x64d02"
abbreviation a_Head :: Atom where "a_Head \<equiv> 0x33104"
abbreviation a_Header :: Atom where "a_Header \<equiv> 0x33106"
abbreviation a_Hgroup :: Atom where "a_Hgroup \<equiv> 0x2ca06"
abbreviation a_Hr :: Atom where "a_Hr \<equiv> 0x15702"
abbreviation a_Html :: Atom where "a_Html \<equiv> 0x5604"
abbreviation a_I :: Atom where "a_I \<equiv> 0x601"
abbreviation a_Iframe :: Atom where "a_Iframe \<equiv> 0x2fc06"
abbreviation a_Image :: Atom where "a_Image \<equiv> 0x30205"
abbreviation a_Img :: Atom where "a_Img \<equiv> 0x30703"
abbreviation a_Input :: Atom where "a_Input \<equiv> 0x44b05"
abbreviation a_Isindex :: Atom where "a_Isindex \<equiv> 0x30f07"
abbreviation a_Keygen :: Atom where "a_Keygen \<equiv> 0x3206"
abbreviation a_Label :: Atom where "a_Label \<equiv> 0x5905"
abbreviation a_Li :: Atom where "a_Li \<equiv> 0xb202"
abbreviation a_Link :: Atom where "a_Link \<equiv> 0x17404"
abbreviation a_Listing :: Atom where "a_Listing \<equiv> 0x4a907"
abbreviation a_Malignmark :: Atom where "a_Malignmark \<equiv> 0xb00a"
abbreviation a_Marquee :: Atom where "a_Marquee \<equiv> 0x32707"
abbreviation a_Math :: Atom where "a_Math \<equiv> 0x32e04"
abbreviation a_Menu :: Atom where "a_Menu \<equiv> 0x38704"
abbreviation a_Meta :: Atom where "a_Meta \<equiv> 0x4b804"
abbreviation a_Mglyph :: Atom where "a_Mglyph \<equiv> 0x30806"
abbreviation a_Mi :: Atom where "a_Mi \<equiv> 0x34702"
abbreviation a_Mn :: Atom where "a_Mn \<equiv> 0x2b102"
abbreviation a_Mo :: Atom where "a_Mo \<equiv> 0xa402"
abbreviation a_Ms :: Atom where "a_Ms \<equiv> 0x67402"
abbreviation a_Mtext :: Atom where "a_Mtext \<equiv> 0x35105"
abbreviation a_Nav :: Atom where "a_Nav \<equiv> 0x1303"
abbreviation a_Nobr :: Atom where "a_Nobr \<equiv> 0x3704"
abbreviation a_Noembed :: Atom where "a_Noembed \<equiv> 0x6c07"
abbreviation a_Noframes :: Atom where "a_Noframes \<equiv> 0x8908"
abbreviation a_Noscript :: Atom where "a_Noscript \<equiv> 0x21608"
abbreviation a_Object :: Atom where "a_Object \<equiv> 0x26806"
abbreviation a_Ol :: Atom where "a_Ol \<equiv> 0x13702"
abbreviation a_Optgroup :: Atom where "a_Optgroup \<equiv> 0x5f08"
abbreviation a_Option :: Atom where "a_Option \<equiv> 0x6e306"
abbreviation a_P :: Atom where "a_P \<equiv> 0xc01"
abbreviation a_Param :: Atom where "a_Param \<equiv> 0xc05"
abbreviation a_Plaintext :: Atom where "a_Plaintext \<equiv> 0x1b209"
abbreviation a_Pre :: Atom where "a_Pre \<equiv> 0x47003"
abbreviation a_Rb :: Atom where "a_Rb \<equiv> 0x3a02"
abbreviation a_Rp :: Atom where "a_Rp \<equiv> 0x23c02"
abbreviation a_Rt :: Atom where "a_Rt \<equiv> 0x19a02"
abbreviation a_Rtc :: Atom where "a_Rtc \<equiv> 0x19a03"
abbreviation a_Ruby :: Atom where "a_Ruby \<equiv> 0xfb04"
abbreviation a_S :: Atom where "a_S \<equiv> 0x2501"
abbreviation a_Script :: Atom where "a_Script \<equiv> 0x21806"
abbreviation a_Section :: Atom where "a_Section \<equiv> 0x56807"
abbreviation a_Select :: Atom where "a_Select \<equiv> 0x63c06"
abbreviation a_Small :: Atom where "a_Small \<equiv> 0x20605"
abbreviation a_Source :: Atom where "a_Source \<equiv> 0x37806"
abbreviation a_Span :: Atom where "a_Span \<equiv> 0x9f04"
abbreviation a_Strike :: Atom where "a_Strike \<equiv> 0xd206"
abbreviation a_Strong :: Atom where "a_Strong \<equiv> 0x6dd06"
abbreviation a_Style :: Atom where "a_Style \<equiv> 0x6ff05"
abbreviation a_Summary :: Atom where "a_Summary \<equiv> 0x70407"
abbreviation a_Svg :: Atom where "a_Svg \<equiv> 0x70e03"
abbreviation a_Table :: Atom where "a_Table \<equiv> 0x59505"
abbreviation a_Tbody :: Atom where "a_Tbody \<equiv> 0x2705"
abbreviation a_Td :: Atom where "a_Td \<equiv> 0x9202"
abbreviation a_Template :: Atom where "a_Template \<equiv> 0x71408"
abbreviation a_Textarea :: Atom where "a_Textarea \<equiv> 0x35208"
abbreviation a_Tfoot :: Atom where "a_Tfoot \<equiv> 0xf505"
abbreviation a_Th :: Atom where "a_Th \<equiv> 0x15602"
abbreviation a_Thead :: Atom where "a_Thead \<equiv> 0x33005"
abbreviation a_Title :: Atom where "a_Title \<equiv> 0x11005"
abbreviation a_Tr :: Atom where "a_Tr \<equiv> 0xcc02"
abbreviation a_Track :: Atom where "a_Track \<equiv> 0x1ba05"
abbreviation a_Tt :: Atom where "a_Tt \<equiv> 0x6802"
abbreviation a_U :: Atom where "a_U \<equiv> 0xb01"
abbreviation a_Ul :: Atom where "a_Ul \<equiv> 0xa702"
abbreviation a_Wbr :: Atom where "a_Wbr \<equiv> 0x57c03"
abbreviation a_Xmp :: Atom where "a_Xmp \<equiv> 0x12f03"

text \<open>The atoms above are those the table declares under these identifiers, in its order.\<close>

fun declared_in :: "(string \<times> Atom) list \<Rightarrow> (string \<times> Atom) list \<Rightarrow> bool" where
  "declared_in [] ds = True"
| "declared_in (x # xs) [] = False"
| "declared_in (x # xs) (d # ds) = (if x = d then declared_in xs ds else declared_in (x # xs) ds)"

lemma atoms_declared:
  "declared_in
     [(''A'', a_A), (''Address'', a_Address), (''AnnotationXml'', a_AnnotationXml),
      (''Applet'', a_Applet), (''Area'', a_Area), (''Article'', a_Article), (''Aside'', a_Aside),
      (''B'', a_B), (''Base'', a_Base), (''Basefont'', a_Basefont), (''Bgsound'', a_Bgsound),
      (''Big'', a_Big), (''Blockquote'', a_Blockquote), (''Body'', a_Body), (''Br'', a_Br),
      (''Button'', a_Button), (''Caption'', a_Caption), (''Center'', a_Center), (''Code'', a_Code),
      (''Col'', a_Col), (''Colgroup'', a_Colgroup), (''Command'', a_Command), (''Dd'', a_Dd),
      (''Desc'', a_Desc), (''Details'', a_Details), (''Dir'', a_Dir), (''Div'', a_Div),
      (''Dl'', a_Dl), (''Dt'', a_Dt), (''Em'', a_Em), (''Embed'', a_Embed),
      (''Fieldset'', a_Fieldset), (''Figcaption'', a_Figcaption), (''Figure'', a_Figure),
      (''Font'', a_Font), (''Footer'', a_Footer), (''ForeignObject'', a_ForeignObject),
      (''Form'', a_Form), (''Frame'', a_Frame), (''Frameset'', a_Frameset), (''H1'', a_H1),
      (''H2'', a_H2), (''H3'', a_H3), (''H4'', a_H4), (''H5'', a_H5), (''H6'', a_H6),
      (''Head'', a_Head), (''Header'', a_Header), (''Hgroup'', a_Hgroup), (''Hr'', a_Hr),
      (''Html'', a_Html), (''I'', a_I), (''Iframe'', a_Iframe), (''Image'', a_Image),
      (''Img'', a_Img), (''Input'', a_Input), (''Isindex'', a_Isindex), (''Keygen'', a_Keygen),
      (''Label'', a_Label), (''Li'', a_Li), (''Link'', a_Link), (''Listing'', a_Listing),
      (''Malignmark'', a_Malignmark), (''Marquee'', a_Marquee), (''Math'', a_Math),
      (''Menu'', a_Menu), (''Meta'', a_Meta), (''Mglyph'', a_Mglyph), (''Mi'', a_Mi),
      (''Mn'', a_Mn), (''Mo'', a_Mo), (''Ms'', a_Ms), (''Mtext'', a_Mtext), (''Nav'', a_Nav),
      (''Nobr'', a_Nobr), (''Noembed'', a_Noembed), (''Noframes'', a_Noframes),
      (''Noscript'', a_Noscript), (''Object'', a_Object), (''Ol'', a_Ol),
      (''Optgroup'', a_Optgroup), (''Option'', a_Option), (''P'', a_P), (''Param'', a_Param),
      (''Plaintext'', a_Plaintext), (''Pre'', a_Pre), (''Rb'', a_Rb), (''Rp'', a_Rp),
      (''Rt'', a_Rt), (''Rtc'', a_Rtc), (''Ruby'', a_Ruby), (''S'', a_S), (''Script'', a_Script),
      (''Section'', a_Section), (''Select'', a_Select), (''Small'', a_Small),
      (''Source'', a_Source), (''Span'', a_Span), (''Strike'', a_Strike), (''Strong'', a_Strong),
      (''Style'', a_Style), (''Summary'', a_Summary), (''Svg'', a_Svg), (''Table'', a_Table),
      (''Tbody'', a_Tbody), (''Td'', a_Td), (''Template'', a_Template), (''Textarea'', a_Textarea),
      (''Tfoot'', a_Tfoot), (''Th'', a_Th), (''Thead'', a_Thead), (''Title'', a_Title),
      (''Tr'', a_Tr), (''Track'', a_Track), (''Tt'', a_Tt), (''U'', a_U), (''Ul'', a_Ul),
      (''Wbr'', a_Wbr), (''Xmp'', a_Xmp)] atom_constants"
  by code_simp

section \<open>The parser\<close>

datatype insertionMode =
    InitialIM | BeforeHTMLIM | BeforeHeadIM | InHeadIM | AfterHeadIM | InBodyIM | TextIM | InTableIM
  | InCaptionIM | InColumnGroupIM | InTableBodyIM | InRowIM | InCellIM | InSelectIM
  | InSelectInTableIM | InTemplateIM | AfterBodyIM | InFramesetIM | AfterFramesetIM
  | AfterAfterBodyIM | AfterAfterFramesetIM

text \<open>\<open>p_uni\<close> and \<open>p_store\<close> are what the program has outside of the parser: the tables of
  the library and the memory.\<close>

record parser =
  p_uni :: unicode
  p_store :: dom_store
  p_tokenizer :: Tokenizer
  p_tok :: Token
  p_hasSelfClosingToken :: bool
  p_doc :: ptr
  p_oe :: "ptr list"
  p_afe :: "ptr list"
  p_head :: ptr
  p_form :: ptr
  p_scripting :: bool
  p_framesetOK :: bool
  p_templateStack :: "insertionMode list"
  p_im :: "insertionMode option"
  p_originalIM :: "insertionMode option"
  p_fosterParenting :: bool
  p_quirks :: bool
  p_fragment :: bool
  p_context :: ptr

type_synonym 'a P = "parser \<Rightarrow> ('a \<times> parser) go"

abbreviation the_mem :: "parser \<Rightarrow> memory" where
  "the_mem p \<equiv> mem (p_store p)"

text \<open>The global node \<open>scopeMarker\<close> has a fixed address.\<close>

definition marker :: nat where
  "marker = 0"

section \<open>Sequencing\<close>

definition ret :: "'a \<Rightarrow> 'a P" where
  "ret x p = Inr (x, p)"

definition panic :: "go_panic \<Rightarrow> 'a P" where
  "panic e p = Inl e"

definition pbind :: "'a P \<Rightarrow> ('a \<Rightarrow> 'b P) \<Rightarrow> 'b P" where
  "pbind c f p = go_bind (c p) (\<lambda>(x, p'). f x p')"

definition ask :: "(parser \<Rightarrow> 'a P) \<Rightarrow> 'a P" where
  "ask f p = f p p"

definition lift :: "'a go \<Rightarrow> 'a P" where
  "lift r p = go_bind r (\<lambda>x. Inr (x, p))"

definition modify :: "(parser \<Rightarrow> parser) \<Rightarrow> unit P" where
  "modify f p = Inr ((), f p)"

definition void :: "'a P \<Rightarrow> unit P" where
  "void c = pbind c (\<lambda>_. ret ())"

text \<open>Statements one after the other, then a result.\<close>

fun acts :: "unit P list \<Rightarrow> 'a P \<Rightarrow> 'a P" where
  "acts [] r = r"
| "acts (c # cs) r = pbind c (\<lambda>_. acts cs r)"

definition only_if :: "bool \<Rightarrow> unit P \<Rightarrow> unit P" where
  "only_if b c = (if b then c else ret ())"

section \<open>Nodes\<close>

definition node_at :: "ptr \<Rightarrow> Node P" where
  "node_at n p = (case n of None \<Rightarrow> Inl NilDereference | Some a \<Rightarrow> Inr (the_mem p a, p))"

definition set_node :: "ptr \<Rightarrow> (Node \<Rightarrow> Node) \<Rightarrow> unit P" where
  "set_node n f p =
     (case n of
        None \<Rightarrow> Inl NilDereference
      | Some a \<Rightarrow> Inr ((), p\<lparr>p_store := (p_store p)\<lparr>mem := upd a f (the_mem p)\<rparr>\<rparr>))"

text \<open>\<open>&Node{...}\<close>.\<close>

definition alloc :: "Node \<Rightarrow> ptr P" where
  "alloc x p =
     Inr (Some (brk (p_store p)),
          p\<lparr>p_store := \<lparr>mem = (the_mem p)(brk (p_store p) := x), brk = Suc (brk (p_store p))\<rparr>\<rparr>)"

definition in_mem :: "(memory \<Rightarrow> memory go) \<Rightarrow> unit P" where
  "in_mem f p = go_bind (f (the_mem p)) (\<lambda>m. Inr ((), p\<lparr>p_store := (p_store p)\<lparr>mem := m\<rparr>\<rparr>))"

text \<open>The methods of a node on pointers.\<close>

definition append_child :: "ptr \<Rightarrow> ptr \<Rightarrow> unit P" where
  "append_child n c =
     (case (n, c) of
        (Some n', Some c') \<Rightarrow> in_mem (AppendChild n' c')
      | _ \<Rightarrow> panic NilDereference)"

definition insert_before :: "ptr \<Rightarrow> ptr \<Rightarrow> ptr \<Rightarrow> unit P" where
  "insert_before n c old =
     (case (n, c) of
        (Some n', Some c') \<Rightarrow> in_mem (InsertBefore n' c' old)
      | _ \<Rightarrow> panic NilDereference)"

text \<open>\<open>if n.Parent != nil { n.Parent.RemoveChild(n) }\<close>.\<close>

definition detach :: "ptr \<Rightarrow> unit P" where
  "detach n =
     (case n of
        None \<Rightarrow> panic NilDereference
      | Some c \<Rightarrow>
          ask (\<lambda>p. case Parent (the_mem p c) of
                      None \<Rightarrow> ret ()
                    | Some n' \<Rightarrow> in_mem (RemoveChild n' c)))"

definition clone_node :: "ptr \<Rightarrow> ptr P" where
  "clone_node n p =
     (case n of
        None \<Rightarrow> Inl NilDereference
      | Some a \<Rightarrow> (case clone a (p_store p) of (c, s) \<Rightarrow> Inr (Some c, p\<lparr>p_store := s\<rparr>)))"

definition atom_at :: "ptr \<Rightarrow> Atom P" where
  "atom_at n = pbind (node_at n) (\<lambda>x. ret (DataAtom x))"

section \<open>Assignments to the fields of the parser\<close>

definition set_im :: "insertionMode \<Rightarrow> unit P" where
  "set_im i = modify (\<lambda>p. p\<lparr>p_im := Some i\<rparr>)"

definition set_framesetOK :: "bool \<Rightarrow> unit P" where
  "set_framesetOK b = modify (\<lambda>p. p\<lparr>p_framesetOK := b\<rparr>)"

definition set_foster :: "bool \<Rightarrow> unit P" where
  "set_foster b = modify (\<lambda>p. p\<lparr>p_fosterParenting := b\<rparr>)"

definition set_tok :: "(Token \<Rightarrow> Token) \<Rightarrow> unit P" where
  "set_tok f = modify (\<lambda>p. p\<lparr>p_tok := f (p_tok p)\<rparr>)"

definition set_oe :: "ptr list \<Rightarrow> unit P" where
  "set_oe s = modify (\<lambda>p. p\<lparr>p_oe := s\<rparr>)"

definition set_afe :: "ptr list \<Rightarrow> unit P" where
  "set_afe s = modify (\<lambda>p. p\<lparr>p_afe := s\<rparr>)"

definition set_form :: "ptr \<Rightarrow> unit P" where
  "set_form n = modify (\<lambda>p. p\<lparr>p_form := n\<rparr>)"

definition oe_pop :: "ptr P" where
  "oe_pop = ask (\<lambda>p. pbind (lift (stack_pop (p_oe p))) (\<lambda>(n, s). acts [set_oe s] (ret n)))"

definition oe_remove :: "ptr \<Rightarrow> unit P" where
  "oe_remove n = ask (\<lambda>p. set_oe (stack_remove None (p_oe p) n))"

definition afe_remove :: "ptr \<Rightarrow> unit P" where
  "afe_remove n = ask (\<lambda>p. set_afe (stack_remove None (p_afe p) n))"

definition afe_push :: "ptr \<Rightarrow> unit P" where
  "afe_push n = ask (\<lambda>p. set_afe (p_afe p @ [n]))"

definition oe_contains :: "Atom \<Rightarrow> bool P" where
  "oe_contains a = ask (\<lambda>p. lift (stack_contains (the_mem p) (p_oe p) a))"

text \<open>\<open>p.oe.top()\<close>, which is \<open>nil\<close> for an empty stack.\<close>

definition oe_top :: "parser \<Rightarrow> ptr" where
  "oe_top p = (case stack_top (p_oe p) of None \<Rightarrow> None | Some n \<Rightarrow> n)"

definition mode_pop :: "insertionMode list \<Rightarrow> (insertionMode \<times> insertionMode list) go" where
  "mode_pop s =
     go_bind (go_index s (int (length s) - 1)) (\<lambda>im. Inr (im, take (length s - 1) s))"

definition mode_top :: "insertionMode list \<Rightarrow> insertionMode option" where
  "mode_top s = (if 0 < length s then Some (s ! (length s - 1)) else None)"

definition template_pop :: "unit P" where
  "template_pop = ask (\<lambda>p. pbind (lift (mode_pop (p_templateStack p)))
     (\<lambda>(_, s). modify (\<lambda>p. p\<lparr>p_templateStack := s\<rparr>)))"

definition template_push :: "insertionMode \<Rightarrow> unit P" where
  "template_push im = modify (\<lambda>p. p\<lparr>p_templateStack := p_templateStack p @ [im]\<rparr>)"

section \<open>The stack of open elements\<close>

definition parser_top :: "parser \<Rightarrow> ptr" where
  "parser_top p = (case oe_top p of Some n \<Rightarrow> Some n | None \<Rightarrow> p_doc p)"

definition top_node :: "Node P" where
  "top_node = ask (\<lambda>p. node_at (parser_top p))"

definition top_atom :: "Atom P" where
  "top_atom = ask (\<lambda>p. atom_at (parser_top p))"

datatype scope =
    defaultScope | listItemScope | buttonScope | tableScope | tableRowScope | tableBodyScope
  | selectScope

definition defaultScopeStopTags :: "string \<Rightarrow> Atom list" where
  "defaultScopeStopTags ns =
     (if ns = [] then
        [a_Applet, a_Caption, a_Html, a_Table, a_Td, a_Th, a_Marquee, a_Object, a_Template]
      else if ns = ''math'' then [a_AnnotationXml, a_Mi, a_Mn, a_Mo, a_Ms, a_Mtext]
      else if ns = ''svg'' then [a_Desc, a_ForeignObject, a_Title]
      else [])"

text \<open>The atoms that end the search in a scope of HTML elements.\<close>

definition scope_stop :: "scope \<Rightarrow> Atom \<Rightarrow> bool go" where
  "scope_stop s t =
     (case s of
        defaultScope \<Rightarrow> Inr False
      | listItemScope \<Rightarrow> Inr (t = a_Ol \<or> t = a_Ul)
      | buttonScope \<Rightarrow> Inr (t = a_Button)
      | tableScope \<Rightarrow> Inr (t = a_Html \<or> t = a_Table \<or> t = a_Template)
      | selectScope \<Rightarrow> Inr (t \<noteq> a_Optgroup \<and> t \<noteq> a_Option)
      | _ \<Rightarrow> Inl (PanicWith ''unreachable''))"

fun scope_loop :: "nat \<Rightarrow> scope \<Rightarrow> Atom list \<Rightarrow> memory \<Rightarrow> ptr list \<Rightarrow> int go" where
  "scope_loop 0 s matchTags m oe = Inr (-1)"
| "scope_loop (Suc i) s matchTags m oe =
     (case oe ! i of
        None \<Rightarrow> Inl NilDereference
      | Some x \<Rightarrow>
          let tagAtom = DataAtom (m x); ns = Namespace (m x) in
          if ns = [] \<and> tagAtom \<in> set matchTags then Inr (int i)
          else go_bind (if ns = [] then scope_stop s tagAtom else Inr False) (\<lambda>stop.
            if stop then Inr (-1)
            else if s \<in> {defaultScope, listItemScope, buttonScope} \<and>
                    tagAtom \<in> set (defaultScopeStopTags ns) then Inr (-1)
            else scope_loop i s matchTags m oe))"

definition indexOfElementInScope :: "scope \<Rightarrow> Atom list \<Rightarrow> int P" where
  "indexOfElementInScope s matchTags =
     ask (\<lambda>p. lift (scope_loop (length (p_oe p)) s matchTags (the_mem p) (p_oe p)))"

definition popUntil :: "scope \<Rightarrow> Atom list \<Rightarrow> bool P" where
  "popUntil s matchTags =
     pbind (indexOfElementInScope s matchTags) (\<lambda>i.
       if i \<noteq> -1 then ask (\<lambda>p. acts [set_oe (take (nat i) (p_oe p))] (ret True))
       else ret False)"

definition elementInScope :: "scope \<Rightarrow> Atom list \<Rightarrow> bool P" where
  "elementInScope s matchTags =
     pbind (indexOfElementInScope s matchTags) (\<lambda>i. ret (i \<noteq> -1))"

fun clear_loop :: "nat \<Rightarrow> scope \<Rightarrow> memory \<Rightarrow> ptr list \<Rightarrow> ptr list go" where
  "clear_loop 0 s m oe = Inr oe"
| "clear_loop (Suc i) s m oe =
     (case oe ! i of
        None \<Rightarrow> Inl NilDereference
      | Some x \<Rightarrow>
          let tagAtom = DataAtom (m x) in
          go_bind
            (case s of
               tableScope \<Rightarrow> Inr (tagAtom \<in> set [a_Html, a_Table, a_Template])
             | tableRowScope \<Rightarrow> Inr (tagAtom \<in> set [a_Html, a_Tr, a_Template])
             | tableBodyScope \<Rightarrow>
                 Inr (tagAtom \<in> set [a_Html, a_Tbody, a_Tfoot, a_Thead, a_Template])
             | _ \<Rightarrow> Inl (PanicWith ''unreachable''))
            (\<lambda>stop. if stop then Inr (take (i + 1) oe) else clear_loop i s m oe))"

definition clearStackToContext :: "scope \<Rightarrow> unit P" where
  "clearStackToContext s =
     ask (\<lambda>p. pbind (lift (clear_loop (length (p_oe p)) s (the_mem p) (p_oe p))) set_oe)"

text \<open>How many elements of the stack are left after the end tags that \<open>P\<close> implies.\<close>

fun implied_loop :: "(Node \<Rightarrow> bool) \<Rightarrow> nat \<Rightarrow> memory \<Rightarrow> ptr list \<Rightarrow> nat go" where
  "implied_loop P 0 m oe = Inr 0"
| "implied_loop P (Suc i) m oe =
     (case oe ! i of
        None \<Rightarrow> Inl NilDereference
      | Some x \<Rightarrow>
          if NType (m x) = ElementNode \<and> P (m x) then implied_loop P i m oe else Inr (Suc i))"

definition generateImpliedEndTags :: "string list \<Rightarrow> unit P" where
  "generateImpliedEndTags exceptions =
     ask (\<lambda>p. pbind (lift (implied_loop
         (\<lambda>n. DataAtom n \<in> set [a_Dd, a_Dt, a_Li, a_Optgroup, a_Option, a_P, a_Rb, a_Rp, a_Rt, a_Rtc] \<and>
              Data n \<notin> set exceptions) (length (p_oe p)) (the_mem p) (p_oe p)))
       (\<lambda>k. set_oe (take k (p_oe p))))"

definition generateAllImpliedEndTags :: "unit P" where
  "generateAllImpliedEndTags =
     ask (\<lambda>p. pbind (lift (implied_loop
         (\<lambda>n. DataAtom n \<in> set [a_Caption, a_Colgroup, a_Dd, a_Div, a_Dt, a_Li, a_Optgroup, a_Option,
              a_P, a_Rb, a_Rp, a_Rt, a_Rtc, a_Span, a_Tbody, a_Td, a_Tfoot, a_Th, a_Thead, a_Tr])
         (length (p_oe p)) (the_mem p) (p_oe p)))
       (\<lambda>k. set_oe (take k (p_oe p))))"

section \<open>Adding nodes\<close>

definition table_parts :: "Atom list" where
  "table_parts = [a_Table, a_Tbody, a_Tfoot, a_Thead, a_Tr]"

definition shouldFosterParent :: "bool P" where
  "shouldFosterParent =
     ask (\<lambda>p. if p_fosterParenting p then pbind top_atom (\<lambda>a. ret (a \<in> set table_parts))
              else ret False)"

text \<open>The index of the topmost element with an atom, or -1.\<close>

fun atom_index :: "nat \<Rightarrow> Atom \<Rightarrow> memory \<Rightarrow> ptr list \<Rightarrow> int go" where
  "atom_index 0 a m oe = Inr (-1)"
| "atom_index (Suc i) a m oe =
     (case oe ! i of
        None \<Rightarrow> Inl NilDereference
      | Some x \<Rightarrow> if DataAtom (m x) = a then Inr (int i) else atom_index i a m oe)"

text \<open>The parent and the preceding sibling in foster parenting, where \<open>i\<close> is the index of the
  table.\<close>

definition foster_parent_of :: "int \<Rightarrow> ptr \<Rightarrow> ptr P" where
  "foster_parent_of i table =
     ask (\<lambda>p. pbind
       (case table of
          None \<Rightarrow> lift (go_index (p_oe p) 0)
        | Some x \<Rightarrow> ret (Parent (the_mem p x)))
       (\<lambda>parent. if parent = None then lift (go_index (p_oe p) (i - 1)) else ret parent))"

definition fosterParent :: "ptr \<Rightarrow> unit P" where
  "fosterParent n =
     ask (\<lambda>p.
       pbind (lift (atom_index (length (p_oe p)) a_Table (the_mem p) (p_oe p))) (\<lambda>i.
       pbind (lift (atom_index (length (p_oe p)) a_Template (the_mem p) (p_oe p))) (\<lambda>j.
         let table = (if i = -1 then None else p_oe p ! nat i);
             template = (if j = -1 then None else p_oe p ! nat j)
         in if template \<noteq> None \<and> (table = None \<or> j < i) then append_child template n
            else
              pbind (foster_parent_of i table) (\<lambda>parent.
              pbind (case table of
                       Some x \<Rightarrow> ret (PrevSibling (the_mem p x))
                     | None \<Rightarrow> pbind (node_at parent) (\<lambda>x. ret (LastChild x)))
                (\<lambda>prev.
                  case prev of
                    None \<Rightarrow> insert_before parent n table
                  | Some _ \<Rightarrow>
                      pbind (node_at prev) (\<lambda>px.
                        if NType px = TextNode
                        then pbind (node_at n) (\<lambda>nx.
                          if NType nx = TextNode
                          then set_node prev (\<lambda>x. x\<lparr>Data := Data x @ Data nx\<rparr>)
                          else insert_before parent n table)
                        else insert_before parent n table))))))"

definition addChild :: "ptr \<Rightarrow> unit P" where
  "addChild n =
     pbind shouldFosterParent (\<lambda>foster.
       acts
         [if foster then fosterParent n else ask (\<lambda>p. append_child (parser_top p) n),
          pbind (node_at n) (\<lambda>x.
            only_if (NType x = ElementNode) (ask (\<lambda>p. set_oe (p_oe p @ [n]))))]
         (ret ()))"

definition text_node :: "string \<Rightarrow> Node" where
  "text_node s = new_Node\<lparr>NType := TextNode, Data := s\<rparr>"

definition comment_node :: "string \<Rightarrow> Node" where
  "comment_node s = new_Node\<lparr>NType := CommentNode, Data := s\<rparr>"

definition element_node :: "Atom \<Rightarrow> string \<Rightarrow> Attribute list \<Rightarrow> Node" where
  "element_node a s as = new_Node\<lparr>NType := ElementNode, DataAtom := a, Data := s, Attr := as\<rparr>"

definition addText :: "string \<Rightarrow> unit P" where
  "addText t =
     (if t = [] then ret ()
      else pbind shouldFosterParent (\<lambda>foster.
        if foster then pbind (alloc (text_node t)) fosterParent
        else pbind top_node (\<lambda>x.
          let add = pbind (alloc (text_node t)) addChild in
          case LastChild x of
            None \<Rightarrow> add
          | Some _ \<Rightarrow>
              pbind (node_at (LastChild x)) (\<lambda>l.
                if NType l = TextNode then set_node (LastChild x) (\<lambda>y. y\<lparr>Data := Data y @ t\<rparr>)
                else add))))"

definition add_comment :: "unit P" where
  "add_comment = ask (\<lambda>p. pbind (alloc (comment_node (t_Data (p_tok p)))) addChild)"

definition addElement :: "unit P" where
  "addElement =
     ask (\<lambda>p. let t = p_tok p in
       pbind (alloc (element_node (t_DataAtom t) (t_Data t) (t_Attr t))) addChild)"

section \<open>The list of active formatting elements\<close>

definition same_attrs :: "Attribute list \<Rightarrow> Attribute list \<Rightarrow> bool" where
  "same_attrs as bs = list_all (\<lambda>t0. list_ex (\<lambda>t1. attr_Key t0 = attr_Key t1 \<and>
     attr_Namespace t0 = attr_Namespace t1 \<and> attr_Val t0 = attr_Val t1) bs) as"

fun ark_loop :: "nat \<Rightarrow> nat \<Rightarrow> Atom \<Rightarrow> Attribute list \<Rightarrow> memory \<Rightarrow> ptr list \<Rightarrow> ptr list go" where
  "ark_loop 0 identical tagAtom as m afe = Inr afe"
| "ark_loop (Suc i) identical tagAtom as m afe =
     go_bind (go_index afe (int i)) (\<lambda>n.
       case n of
         None \<Rightarrow> Inl NilDereference
       | Some x \<Rightarrow>
           if NType (m x) = ScopeMarkerNode then Inr afe
           else if NType (m x) \<noteq> ElementNode \<or> Namespace (m x) \<noteq> [] \<or> DataAtom (m x) \<noteq> tagAtom \<or>
                   length (Attr (m x)) \<noteq> length as \<or> \<not> same_attrs (Attr (m x)) as
           then ark_loop i identical tagAtom as m afe
           else ark_loop i (identical + 1) tagAtom as m
                  (if 3 \<le> identical + 1 then stack_remove None afe n else afe))"

definition addFormattingElement :: "unit P" where
  "addFormattingElement =
     ask (\<lambda>p0. let tagAtom = t_DataAtom (p_tok p0); attr = t_Attr (p_tok p0) in
       acts
         [addElement,
          ask (\<lambda>p. pbind (lift (ark_loop (length (p_afe p)) 0 tagAtom attr (the_mem p) (p_afe p))) set_afe),
          ask (\<lambda>p. afe_push (parser_top p))]
         (ret ()))"

function clear_afe :: "memory \<Rightarrow> ptr list \<Rightarrow> ptr list go" where
  "clear_afe m afe =
     go_bind (stack_pop afe) (\<lambda>(n, afe').
       if length afe' = 0 then Inr afe'
       else (case n of
               None \<Rightarrow> Inl NilDereference
             | Some x \<Rightarrow> if NType (m x) = ScopeMarkerNode then Inr afe' else clear_afe m afe'))"
  by pat_completeness auto
termination
  by (relation "measure (\<lambda>(m, afe). length afe)") (auto simp: stack_pop_def go_index_Inr_iff)

declare clear_afe.simps [simp del]

definition clearActiveFormattingElements :: "unit P" where
  "clearActiveFormattingElements =
     ask (\<lambda>p. pbind (lift (clear_afe (the_mem p) (p_afe p))) set_afe)"

text \<open>Whether the walk over the list stops at an entry.\<close>

definition afe_stops :: "memory \<Rightarrow> ptr list \<Rightarrow> ptr \<Rightarrow> bool go" where
  "afe_stops m oe n =
     (case n of
        None \<Rightarrow> Inl NilDereference
      | Some x \<Rightarrow> Inr (NType (m x) = ScopeMarkerNode \<or> stack_index oe n \<noteq> -1))"

fun recon_start :: "nat \<Rightarrow> memory \<Rightarrow> ptr list \<Rightarrow> ptr list \<Rightarrow> int go" where
  "recon_start i m oe afe =
     go_bind (afe_stops m oe (afe ! i)) (\<lambda>stop.
       if stop then Inr (int i)
       else (case i of 0 \<Rightarrow> Inr (-1) | Suc k \<Rightarrow> recon_start k m oe afe))"

definition recon_clone :: "nat \<Rightarrow> unit P" where
  "recon_clone i =
     ask (\<lambda>p. pbind (lift (go_index (p_afe p) (int i))) (\<lambda>n.
       pbind (clone_node n) (\<lambda>c.
         acts
           [addChild c,
            ask (\<lambda>p. pbind (lift (go_store (p_afe p) (int i) c)) set_afe)]
           (ret ()))))"

definition reconstructActiveFormattingElements :: "unit P" where
  "reconstructActiveFormattingElements =
     ask (\<lambda>p.
       case stack_top (p_afe p) of
         None \<Rightarrow> ret ()
       | Some None \<Rightarrow> ret ()
       | Some (Some x) \<Rightarrow>
           pbind (lift (afe_stops (the_mem p) (p_oe p) (Some x))) (\<lambda>stop.
             if stop then ret ()
             else
               pbind (lift (recon_start (length (p_afe p) - 1) (the_mem p) (p_oe p) (p_afe p))) (\<lambda>i.
                 acts (map recon_clone [nat (i + 1)..<length (p_afe p)]) (ret ()))))"

section \<open>Insertion modes\<close>

definition acknowledgeSelfClosingTag :: "unit P" where
  "acknowledgeSelfClosingTag = modify (\<lambda>p. p\<lparr>p_hasSelfClosingToken := False\<rparr>)"

definition setOriginalIM :: "unit P" where
  "setOriginalIM =
     ask (\<lambda>p. if p_originalIM p \<noteq> None
       then panic (PanicWith ''html: bad parser state: originalIM was set twice'')
       else modify (\<lambda>p. p\<lparr>p_originalIM := p_im p\<rparr>))"

text \<open>The walk from a \<open>select\<close> element towards the root. Each step depends only on the element, so
  that a walk that is longer than the stack goes on forever.\<close>

fun select_mode :: "nat \<Rightarrow> memory \<Rightarrow> ptr list \<Rightarrow> ptr \<Rightarrow> insertionMode go" where
  "select_mode 0 m oe ancestor = Inl NoReturn"
| "select_mode (Suc f) m oe ancestor =
     (if ancestor = oe ! 0 then Inr InSelectIM
      else go_bind (go_index oe (stack_index oe ancestor - 1)) (\<lambda>n.
        case n of
          None \<Rightarrow> Inl NilDereference
        | Some x \<Rightarrow>
            if DataAtom (m x) = a_Template then Inr InSelectIM
            else if DataAtom (m x) = a_Table then Inr InSelectInTableIM
            else select_mode f m oe n))"

definition reset_mode :: "Atom \<Rightarrow> parser \<Rightarrow> insertionMode option option" where
  "reset_mode a p =
     (if a = a_Td \<or> a = a_Th then Some (Some InCellIM)
      else if a = a_Tr then Some (Some InRowIM)
      else if a = a_Tbody \<or> a = a_Thead \<or> a = a_Tfoot then Some (Some InTableBodyIM)
      else if a = a_Caption then Some (Some InCaptionIM)
      else if a = a_Colgroup then Some (Some InColumnGroupIM)
      else if a = a_Table then Some (Some InTableIM)
      else if a = a_Template then Some (mode_top (p_templateStack p))
      else if a = a_Head then Some (Some InHeadIM)
      else if a = a_Body then Some (Some InBodyIM)
      else if a = a_Frameset then Some (Some InFramesetIM)
      else if a = a_Html then Some (Some (if p_head p = None then BeforeHeadIM else AfterHeadIM))
      else None)"

primrec reset_loop :: "nat \<Rightarrow> unit P" where
  "reset_loop 0 = ret ()"
| "reset_loop (Suc i) =
     ask (\<lambda>p.
       let n = (if i = 0 \<and> p_context p \<noteq> None then p_context p else p_oe p ! i) in
       pbind (atom_at n) (\<lambda>a.
         if a = a_Select then
           (if i \<noteq> 0
            then pbind (lift (select_mode (Suc (length (p_oe p))) (the_mem p) (p_oe p) n)) set_im
            else set_im InSelectIM)
         else
           (case reset_mode a p of
              Some im \<Rightarrow> modify (\<lambda>p. p\<lparr>p_im := im\<rparr>)
            | None \<Rightarrow> if i = 0 then set_im InBodyIM else reset_loop i)))"

definition resetInsertionMode :: "unit P" where
  "resetInsertionMode = ask (\<lambda>p. reset_loop (length (p_oe p)))"

end
