(* ===== verification/Html_Parser_Modes.thy ===== *)
theory Html_Parser_Modes
  imports Html_Parser_State
begin

text \<open>
  \<^verbatim>\<open>golang.org/x/net/html/parse.go\<close>: the insertion modes other than \<open>inBodyIM\<close>. The modes call
  each other, the implied tokens and the loop over a token: every such call goes through the
  parameter \<open>R\<close>, which \<open>Html_Parser\<close> ties to the definitions with a bound on the depth of the
  calls. A mode returns whether the token was consumed.
\<close>

datatype call =
    CallIM insertionMode
  | CallImplied TokenType Atom string
  | CallCurrent
  | CallLoop

type_synonym calls = "call \<Rightarrow> bool P"

definition implied :: "calls \<Rightarrow> TokenType \<Rightarrow> Atom \<Rightarrow> string \<Rightarrow> unit P" where
  "implied R t a s = void (R (CallImplied t a s))"

definition with_tok :: "(Token \<Rightarrow> 'a P) \<Rightarrow> 'a P" where
  "with_tok f = ask (\<lambda>p. f (p_tok p))"

text \<open>The names that \<open>a.Html.String()\<close> and the like return.\<close>

lemma declared_in_subset: "declared_in xs ds \<Longrightarrow> set xs \<subseteq> set ds"
  by (induction xs ds rule: declared_in.induct) (auto split: if_splits)

lemma Atom_String_name_at:
  assumes "(ident, a) \<in> set atom_constants"
  shows "Atom_String a = Inr (name_at (uint a))"
proof -
  have "name_ok ident a (uint a) (name_at (uint a))"
    using atom_constants_ok assms by (auto simp: list_all_iff)
  then have "atom_name a = name_at (uint a)" using name_at_eq [of a] by (auto simp: name_ok_def)
  with declared(6) [OF assms] show ?thesis by simp
qed

definition implied_atoms :: "(string \<times> Atom) list" where
  "implied_atoms =
     [(''Body'', a_Body), (''Colgroup'', a_Colgroup), (''Form'', a_Form), (''Head'', a_Head), (''Hr'', a_Hr),
      (''Html'', a_Html), (''Img'', a_Img), (''Input'', a_Input), (''Label'', a_Label), (''P'', a_P),
      (''Select'', a_Select), (''Tbody'', a_Tbody), (''Tr'', a_Tr)]"

lemma implied_names:
  "map (\<lambda>(ident, a). Atom_String a) implied_atoms =
     map Inr [''body'', ''colgroup'', ''form'', ''head'', ''hr'', ''html'', ''img'', ''input'', ''label'',
       ''p'', ''select'', ''tbody'', ''tr'']"
proof -
  have "declared_in implied_atoms atom_constants" by code_simp
  then have "map (\<lambda>(ident, a). Atom_String a) implied_atoms =
      map Inr (map (\<lambda>(ident, a). name_at (uint a)) implied_atoms)"
    using Atom_String_name_at declared_in_subset by fastforce
  moreover have "map (\<lambda>(ident, a). name_at (uint a)) implied_atoms =
      [''body'', ''colgroup'', ''form'', ''head'', ''hr'', ''html'', ''img'', ''input'', ''label'',
       ''p'', ''select'', ''tbody'', ''tr'']" by code_simp
  ultimately show ?thesis by (simp only: )
qed

section \<open>Steps that several modes share\<close>

text \<open>\<open>p.tok.Data = strings.TrimLeft(p.tok.Data, whitespace)\<close>, and whether nothing is left.\<close>

definition trim_tok :: "bool P" where
  "trim_tok =
     acts [set_tok (\<lambda>t. t\<lparr>t_Data := TrimLeft whitespace (t_Data t)\<rparr>)]
       (with_tok (\<lambda>t. ret (t_Data t = [])))"

text \<open>The initial whitespace goes to the current node; whether that was all.\<close>

definition leading_space :: "bool P" where
  "leading_space =
     with_tok (\<lambda>t. let d = t_Data t; s = TrimLeft whitespace d in
       if length s < length d
       then acts [addText (take (length d - length s) d)]
              (if s = [] then ret True else acts [set_tok (\<lambda>t. t\<lparr>t_Data := s\<rparr>)] (ret False))
       else ret False)"

definition doc_comment :: "unit P" where
  "doc_comment =
     ask (\<lambda>p. pbind (alloc (comment_node (t_Data (p_tok p)))) (append_child (p_doc p)))"

text \<open>\<open>strings.Map\<close> that keeps white space only.\<close>

definition only_space :: "string \<Rightarrow> string" where
  "only_space s = filter (\<lambda>c. c \<in> set [CHR '' '', CHR 0x09, CHR 0x0A, CHR 0x0C, CHR 0x0D]) s"

definition drop_nul :: "string \<Rightarrow> string" where
  "drop_nul s = filter (\<lambda>c. c \<noteq> NUL) s"

text \<open>A newline at the start of a block is ignored.\<close>

definition drop_newline :: "string \<Rightarrow> string" where
  "drop_newline d0 =
     (let d = (if d0 \<noteq> [] \<and> hd d0 = CHR 0x0D then tl d0 else d0)
      in if d \<noteq> [] \<and> hd d = CHR 0x0A then tl d else d)"

definition hidden_input :: "Attribute \<Rightarrow> bool" where
  "hidden_input t \<longleftrightarrow> attr_Key t = ''type'' \<and> ToLower_ascii (attr_Val t) = ''hidden''"

section \<open>Before the body\<close>

definition initialIM :: "bool P" where
  "initialIM =
     with_tok (\<lambda>t.
       let other = acts [modify (\<lambda>p. p\<lparr>p_quirks := True\<rparr>), set_im BeforeHTMLIM] (ret False) in
       case t_Type t of
         TextToken \<Rightarrow> pbind trim_tok (\<lambda>blank. if blank then ret True else other)
       | CommentToken \<Rightarrow> acts [doc_comment] (ret True)
       | DoctypeToken \<Rightarrow>
           ask (\<lambda>p. case parseDoctype (p_uni p) (t_Data t) of (n, quirks) \<Rightarrow>
             acts
               [pbind (alloc n) (append_child (p_doc p)),
                modify (\<lambda>p. p\<lparr>p_quirks := quirks\<rparr>),
                set_im BeforeHTMLIM]
               (ret True))
       | _ \<Rightarrow> other)"

definition beforeHTMLIM :: "calls \<Rightarrow> bool P" where
  "beforeHTMLIM R =
     with_tok (\<lambda>t.
       let other = acts [implied R StartTagToken a_Html ''html''] (ret False) in
       case t_Type t of
         DoctypeToken \<Rightarrow> ret True
       | TextToken \<Rightarrow> pbind trim_tok (\<lambda>blank. if blank then ret True else other)
       | StartTagToken \<Rightarrow>
           if t_DataAtom t = a_Html then acts [addElement, set_im BeforeHeadIM] (ret True) else other
       | EndTagToken \<Rightarrow>
           if t_DataAtom t \<in> set [a_Head, a_Body, a_Html, a_Br] then other else ret True
       | CommentToken \<Rightarrow> acts [doc_comment] (ret True)
       | _ \<Rightarrow> other)"

definition beforeHeadIM :: "calls \<Rightarrow> bool P" where
  "beforeHeadIM R =
     with_tok (\<lambda>t.
       let other = acts [implied R StartTagToken a_Head ''head''] (ret False) in
       case t_Type t of
         TextToken \<Rightarrow> pbind trim_tok (\<lambda>blank. if blank then ret True else other)
       | StartTagToken \<Rightarrow>
           if t_DataAtom t = a_Head
           then acts [addElement, modify (\<lambda>p. p\<lparr>p_head := parser_top p\<rparr>), set_im InHeadIM] (ret True)
           else if t_DataAtom t = a_Html then R (CallIM InBodyIM)
           else other
       | EndTagToken \<Rightarrow>
           if t_DataAtom t \<in> set [a_Head, a_Body, a_Html, a_Br] then other else ret True
       | CommentToken \<Rightarrow> acts [add_comment] (ret True)
       | DoctypeToken \<Rightarrow> ret True
       | _ \<Rightarrow> other)"

text \<open>The end tag of a template.\<close>

definition end_template :: "bool P" where
  "end_template =
     pbind (oe_contains a_Template) (\<lambda>inside.
       if \<not> inside then ret True
       else acts [generateAllImpliedEndTags]
         (ask (\<lambda>p. pbind (atom_at (oe_top p)) (\<lambda>a.
           if a \<noteq> a_Template then ret True
           else acts
             [void (popUntil defaultScope [a_Template]), clearActiveFormattingElements,
              template_pop, resetInsertionMode]
             (ret True)))))"

definition inHeadIM :: "calls \<Rightarrow> bool P" where
  "inHeadIM R =
     with_tok (\<lambda>t.
       let a = t_DataAtom t;
           other = acts [implied R EndTagToken a_Head ''head''] (ret False) in
       case t_Type t of
         TextToken \<Rightarrow> pbind leading_space (\<lambda>eaten. if eaten then ret True else other)
       | StartTagToken \<Rightarrow>
           if a = a_Html then R (CallIM InBodyIM)
           else if a \<in> set [a_Base, a_Basefont, a_Bgsound, a_Command, a_Link, a_Meta]
           then acts [addElement, void oe_pop, acknowledgeSelfClosingTag] (ret True)
           else if a \<in> set [a_Script, a_Title, a_Noscript, a_Noframes, a_Style]
           then acts [addElement, setOriginalIM, set_im TextIM] (ret True)
           else if a = a_Head then ret True
           else if a = a_Template
           then acts
             [addElement, afe_push (Some marker), set_framesetOK False, set_im InTemplateIM,
              template_push InTemplateIM]
             (ret True)
           else other
       | EndTagToken \<Rightarrow>
           if a = a_Head then acts [void oe_pop, set_im AfterHeadIM] (ret True)
           else if a \<in> set [a_Body, a_Html, a_Br] then other
           else if a = a_Template then end_template
           else ret True
       | CommentToken \<Rightarrow> acts [add_comment] (ret True)
       | DoctypeToken \<Rightarrow> ret True
       | _ \<Rightarrow> other)"

definition afterHeadIM :: "calls \<Rightarrow> bool P" where
  "afterHeadIM R =
     with_tok (\<lambda>t.
       let a = t_DataAtom t;
           other = acts [implied R StartTagToken a_Body ''body'', set_framesetOK True] (ret False) in
       case t_Type t of
         TextToken \<Rightarrow> pbind leading_space (\<lambda>eaten. if eaten then ret True else other)
       | StartTagToken \<Rightarrow>
           if a = a_Html then R (CallIM InBodyIM)
           else if a = a_Body then acts [addElement, set_framesetOK False, set_im InBodyIM] (ret True)
           else if a = a_Frameset then acts [addElement, set_im InFramesetIM] (ret True)
           else if a \<in> set [a_Base, a_Basefont, a_Bgsound, a_Link, a_Meta, a_Noframes, a_Script,
                            a_Style, a_Template, a_Title]
           then ask (\<lambda>p. acts [set_oe (p_oe p @ [p_head p])]
             (pbind (R (CallIM InHeadIM)) (\<lambda>r. acts [oe_remove (p_head p)] (ret r))))
           else if a = a_Head then ret True
           else other
       | EndTagToken \<Rightarrow>
           if a \<in> set [a_Body, a_Html, a_Br] then other
           else if a = a_Template then R (CallIM InHeadIM)
           else ret True
       | CommentToken \<Rightarrow> acts [add_comment] (ret True)
       | DoctypeToken \<Rightarrow> ret True
       | _ \<Rightarrow> other)"

section \<open>Raw text\<close>

definition back_to_original :: "bool P" where
  "back_to_original =
     acts [modify (\<lambda>p. p\<lparr>p_im := p_originalIM p, p_originalIM := None\<rparr>)]
       (with_tok (\<lambda>t. ret (t_Type t = EndTagToken)))"

definition textIM :: "bool P" where
  "textIM =
     with_tok (\<lambda>t.
       case t_Type t of
         ErrorToken \<Rightarrow> acts [void oe_pop] back_to_original
       | TextToken \<Rightarrow>
           ask (\<lambda>p. pbind (node_at (oe_top p)) (\<lambda>n.
             let d = (if DataAtom n = a_Textarea \<and> FirstChild n = None
                      then drop_newline (t_Data t) else t_Data t)
             in if d = [] then ret True else acts [addText d] (ret True)))
       | EndTagToken \<Rightarrow> acts [void oe_pop] back_to_original
       | _ \<Rightarrow> back_to_original)"

section \<open>Tables\<close>

definition inTableIM :: "calls \<Rightarrow> bool P" where
  "inTableIM R =
     with_tok (\<lambda>t.
       let a = t_DataAtom t;
           other = acts [set_foster True]
             (pbind (R (CallIM InBodyIM)) (\<lambda>r. acts [set_foster False] (ret r))) in
       case t_Type t of
         ErrorToken \<Rightarrow> ret True
       | TextToken \<Rightarrow>
           let d = drop_nul (t_Data t) in
           acts [set_tok (\<lambda>t. t\<lparr>t_Data := d\<rparr>)]
             (ask (\<lambda>p. pbind (atom_at (oe_top p)) (\<lambda>top.
               if top \<in> set table_parts \<and> Trim whitespace d = []
               then acts [addText d] (ret True) else other)))
       | StartTagToken \<Rightarrow>
           if a = a_Caption
           then acts [clearStackToContext tableScope, afe_push (Some marker), addElement,
                      set_im InCaptionIM] (ret True)
           else if a = a_Colgroup
           then acts [clearStackToContext tableScope, addElement, set_im InColumnGroupIM] (ret True)
           else if a = a_Col then acts [implied R StartTagToken a_Colgroup ''colgroup''] (ret False)
           else if a \<in> set [a_Tbody, a_Tfoot, a_Thead]
           then acts [clearStackToContext tableScope, addElement, set_im InTableBodyIM] (ret True)
           else if a \<in> set [a_Td, a_Th, a_Tr]
           then acts [implied R StartTagToken a_Tbody ''tbody''] (ret False)
           else if a = a_Table
           then pbind (popUntil tableScope [a_Table]) (\<lambda>found.
             if found then acts [resetInsertionMode] (ret False) else ret True)
           else if a \<in> set [a_Style, a_Script, a_Template] then R (CallIM InHeadIM)
           else if a = a_Input
           then (if list_ex hidden_input (t_Attr t)
                 then acts [addElement, void oe_pop] (ret True) else other)
           else if a = a_Form
           then pbind (oe_contains a_Template) (\<lambda>inside. ask (\<lambda>p.
             if inside \<or> p_form p \<noteq> None then ret True
             else acts [addElement, pbind oe_pop set_form] other))
           else if a = a_Select
           then acts
             [reconstructActiveFormattingElements,
              pbind top_atom (\<lambda>top. only_if (top \<in> set table_parts) (set_foster True)),
              addElement, set_foster False, set_framesetOK False, set_im InSelectInTableIM]
             (ret True)
           else other
       | EndTagToken \<Rightarrow>
           if a = a_Table
           then pbind (popUntil tableScope [a_Table]) (\<lambda>found.
             if found then acts [resetInsertionMode] (ret True) else ret True)
           else if a \<in> set [a_Body, a_Caption, a_Col, a_Colgroup, a_Html, a_Tbody, a_Td, a_Tfoot,
                            a_Th, a_Thead, a_Tr] then ret True
           else if a = a_Template then R (CallIM InHeadIM)
           else other
       | CommentToken \<Rightarrow> acts [add_comment] (ret True)
       | DoctypeToken \<Rightarrow> ret True
       | _ \<Rightarrow> other)"

definition inCaptionIM :: "calls \<Rightarrow> bool P" where
  "inCaptionIM R =
     with_tok (\<lambda>t.
       let a = t_DataAtom t;
           other = R (CallIM InBodyIM);
           close = pbind (popUntil tableScope [a_Caption]) (\<lambda>found.
             if found
             then acts [clearActiveFormattingElements, set_im InTableIM] (ret False)
             else ret True) in
       case t_Type t of
         StartTagToken \<Rightarrow>
           if a \<in> set [a_Caption, a_Col, a_Colgroup, a_Tbody, a_Td, a_Tfoot, a_Thead, a_Tr] then close
           else if a = a_Select
           then acts
             [reconstructActiveFormattingElements, addElement, set_framesetOK False,
              set_im InSelectInTableIM]
             (ret True)
           else other
       | EndTagToken \<Rightarrow>
           if a = a_Caption
           then pbind (popUntil tableScope [a_Caption]) (\<lambda>found.
             if found then acts [clearActiveFormattingElements, set_im InTableIM] (ret True)
             else ret True)
           else if a = a_Table then close
           else if a \<in> set [a_Body, a_Col, a_Colgroup, a_Html, a_Tbody, a_Td, a_Tfoot, a_Th, a_Thead,
                            a_Tr] then ret True
           else other
       | _ \<Rightarrow> other)"

definition inColumnGroupIM :: "calls \<Rightarrow> bool P" where
  "inColumnGroupIM R =
     with_tok (\<lambda>t.
       let a = t_DataAtom t;
           other = ask (\<lambda>p. pbind (atom_at (oe_top p)) (\<lambda>top.
             if top \<noteq> a_Colgroup then ret True
             else acts [void oe_pop, set_im InTableIM] (ret False))) in
       case t_Type t of
         TextToken \<Rightarrow> pbind leading_space (\<lambda>eaten. if eaten then ret True else other)
       | CommentToken \<Rightarrow> acts [add_comment] (ret True)
       | DoctypeToken \<Rightarrow> ret True
       | StartTagToken \<Rightarrow>
           if a = a_Html then R (CallIM InBodyIM)
           else if a = a_Col
           then acts [addElement, void oe_pop, acknowledgeSelfClosingTag] (ret True)
           else if a = a_Template then R (CallIM InHeadIM)
           else other
       | EndTagToken \<Rightarrow>
           if a = a_Colgroup
           then ask (\<lambda>p. pbind (atom_at (oe_top p)) (\<lambda>top.
             if top = a_Colgroup then acts [void oe_pop, set_im InTableIM] (ret True) else ret True))
           else if a = a_Col then ret True
           else if a = a_Template then R (CallIM InHeadIM)
           else other
       | _ \<Rightarrow> other)"

definition inTableBodyIM :: "calls \<Rightarrow> bool P" where
  "inTableBodyIM R =
     with_tok (\<lambda>t.
       let a = t_DataAtom t;
           other = R (CallIM InTableIM);
           close = pbind (popUntil tableScope [a_Tbody, a_Thead, a_Tfoot]) (\<lambda>found.
             if found then acts [set_im InTableIM] (ret False) else ret True) in
       case t_Type t of
         StartTagToken \<Rightarrow>
           if a = a_Tr
           then acts [clearStackToContext tableBodyScope, addElement, set_im InRowIM] (ret True)
           else if a \<in> set [a_Td, a_Th] then acts [implied R StartTagToken a_Tr ''tr''] (ret False)
           else if a \<in> set [a_Caption, a_Col, a_Colgroup, a_Tbody, a_Tfoot, a_Thead] then close
           else other
       | EndTagToken \<Rightarrow>
           if a \<in> set [a_Tbody, a_Tfoot, a_Thead]
           then pbind (elementInScope tableScope [a]) (\<lambda>found.
             if found
             then acts [clearStackToContext tableBodyScope, void oe_pop, set_im InTableIM] (ret True)
             else ret True)
           else if a = a_Table then close
           else if a \<in> set [a_Body, a_Caption, a_Col, a_Colgroup, a_Html, a_Td, a_Th, a_Tr]
           then ret True
           else other
       | CommentToken \<Rightarrow> acts [add_comment] (ret True)
       | _ \<Rightarrow> other)"

definition inRowIM :: "calls \<Rightarrow> bool P" where
  "inRowIM R =
     with_tok (\<lambda>t.
       let a = t_DataAtom t;
           other = R (CallIM InTableIM);
           close = (\<lambda>consumed. pbind (popUntil tableScope [a_Tr]) (\<lambda>found.
             if found then acts [set_im InTableBodyIM] (ret consumed) else ret True)) in
       case t_Type t of
         StartTagToken \<Rightarrow>
           if a \<in> set [a_Td, a_Th]
           then acts
             [clearStackToContext tableRowScope, addElement, afe_push (Some marker), set_im InCellIM]
             (ret True)
           else if a \<in> set [a_Caption, a_Col, a_Colgroup, a_Tbody, a_Tfoot, a_Thead, a_Tr]
           then close False
           else other
       | EndTagToken \<Rightarrow>
           if a = a_Tr then close True
           else if a = a_Table then close False
           else if a \<in> set [a_Tbody, a_Tfoot, a_Thead]
           then pbind (elementInScope tableScope [a]) (\<lambda>found.
             if found then acts [implied R EndTagToken a_Tr ''tr''] (ret False) else ret True)
           else if a \<in> set [a_Body, a_Caption, a_Col, a_Colgroup, a_Html, a_Td, a_Th] then ret True
           else other
       | _ \<Rightarrow> other)"

definition inCellIM :: "calls \<Rightarrow> bool P" where
  "inCellIM R =
     with_tok (\<lambda>t.
       let a = t_DataAtom t; other = R (CallIM InBodyIM) in
       case t_Type t of
         StartTagToken \<Rightarrow>
           if a \<in> set [a_Caption, a_Col, a_Colgroup, a_Tbody, a_Td, a_Tfoot, a_Th, a_Thead, a_Tr]
           then pbind (popUntil tableScope [a_Td, a_Th]) (\<lambda>found.
             if found then acts [clearActiveFormattingElements, set_im InRowIM] (ret False)
             else ret True)
           else if a = a_Select
           then acts
             [reconstructActiveFormattingElements, addElement, set_framesetOK False,
              set_im InSelectInTableIM]
             (ret True)
           else other
       | EndTagToken \<Rightarrow>
           if a \<in> set [a_Td, a_Th]
           then pbind (popUntil tableScope [a]) (\<lambda>found.
             if \<not> found then ret True
             else acts [clearActiveFormattingElements, set_im InRowIM] (ret True))
           else if a \<in> set [a_Body, a_Caption, a_Col, a_Colgroup, a_Html] then ret True
           else if a \<in> set [a_Table, a_Tbody, a_Tfoot, a_Thead, a_Tr]
           then pbind (elementInScope tableScope [a]) (\<lambda>found.
             if \<not> found then ret True
             else acts
               [void (popUntil tableScope [a_Td, a_Th]), clearActiveFormattingElements, set_im InRowIM]
               (ret False))
           else other
       | _ \<Rightarrow> other)"

section \<open>Select elements\<close>

definition pop_if_top :: "Atom \<Rightarrow> unit P" where
  "pop_if_top a = pbind top_atom (\<lambda>top. only_if (top = a) (void oe_pop))"

definition inSelectIM :: "calls \<Rightarrow> bool P" where
  "inSelectIM R =
     with_tok (\<lambda>t.
       let a = t_DataAtom t in
       case t_Type t of
         TextToken \<Rightarrow> acts [addText (drop_nul (t_Data t))] (ret True)
       | StartTagToken \<Rightarrow>
           if a = a_Html then R (CallIM InBodyIM)
           else if a = a_Option then acts [pop_if_top a_Option, addElement] (ret True)
           else if a = a_Optgroup
           then acts [pop_if_top a_Option, pop_if_top a_Optgroup, addElement] (ret True)
           else if a = a_Select then acts [set_tok (\<lambda>t. t\<lparr>t_Type := EndTagToken\<rparr>)] (ret False)
           else if a \<in> set [a_Input, a_Keygen, a_Textarea]
           then pbind (elementInScope selectScope [a_Select]) (\<lambda>found.
             if found then acts [implied R EndTagToken a_Select ''select''] (ret False)
             else acts [modify (\<lambda>p. p\<lparr>p_tokenizer := NextIsNotRawText (p_tokenizer p)\<rparr>)] (ret True))
           else if a \<in> set [a_Script, a_Template] then R (CallIM InHeadIM)
           else ret True
       | EndTagToken \<Rightarrow>
           if a = a_Option then acts [pop_if_top a_Option] (ret True)
           else if a = a_Optgroup
           then ask (\<lambda>p. let i = int (length (p_oe p)) - 1 in
             pbind (lift (go_index (p_oe p) i)) (\<lambda>n. pbind (atom_at n) (\<lambda>b.
               let j = (if b = a_Option then i - 1 else i) in
               pbind (lift (go_index (p_oe p) j)) (\<lambda>n'. pbind (atom_at n') (\<lambda>c.
                 acts [only_if (c = a_Optgroup) (set_oe (take (nat j) (p_oe p)))] (ret True))))))
           else if a = a_Select
           then pbind (popUntil selectScope [a_Select]) (\<lambda>found.
             acts [only_if found resetInsertionMode] (ret True))
           else if a = a_Template then R (CallIM InHeadIM)
           else ret True
       | CommentToken \<Rightarrow> acts [add_comment] (ret True)
       | _ \<Rightarrow> ret True)"

definition inSelectInTableIM :: "calls \<Rightarrow> bool P" where
  "inSelectInTableIM R =
     with_tok (\<lambda>t.
       if (t_Type t = StartTagToken \<or> t_Type t = EndTagToken) \<and>
          t_DataAtom t \<in> set [a_Caption, a_Table, a_Tbody, a_Tfoot, a_Thead, a_Tr, a_Td, a_Th]
       then pbind (if t_Type t = StartTagToken then ret True
                   else elementInScope tableScope [t_DataAtom t]) (\<lambda>close.
         if close then acts [implied R EndTagToken a_Select ''select''] (ret False)
         else ret True)
       else R (CallIM InSelectIM))"

section \<open>Templates\<close>

definition template_mode :: "insertionMode \<Rightarrow> bool P" where
  "template_mode im = acts [template_pop, template_push im, set_im im] (ret False)"

definition inTemplateIM :: "calls \<Rightarrow> bool P" where
  "inTemplateIM R =
     with_tok (\<lambda>t.
       let a = t_DataAtom t;
           other = pbind (oe_contains a_Template) (\<lambda>inside.
             if \<not> inside then ret True
             else acts
               [void (popUntil defaultScope [a_Template]), clearActiveFormattingElements,
                template_pop, resetInsertionMode]
               (ret False)) in
       case t_Type t of
         TextToken \<Rightarrow> R (CallIM InBodyIM)
       | CommentToken \<Rightarrow> R (CallIM InBodyIM)
       | DoctypeToken \<Rightarrow> R (CallIM InBodyIM)
       | StartTagToken \<Rightarrow>
           if a \<in> set [a_Base, a_Basefont, a_Bgsound, a_Link, a_Meta, a_Noframes, a_Script, a_Style,
                       a_Template, a_Title] then R (CallIM InHeadIM)
           else if a \<in> set [a_Caption, a_Colgroup, a_Tbody, a_Tfoot, a_Thead]
           then template_mode InTableIM
           else if a = a_Col then template_mode InColumnGroupIM
           else if a = a_Tr then template_mode InTableBodyIM
           else if a \<in> set [a_Td, a_Th] then template_mode InRowIM
           else template_mode InBodyIM
       | EndTagToken \<Rightarrow> if a = a_Template then R (CallIM InHeadIM) else ret True
       | _ \<Rightarrow> other)"

section \<open>After the body, and framesets\<close>

definition afterBodyIM :: "calls \<Rightarrow> bool P" where
  "afterBodyIM R =
     with_tok (\<lambda>t.
       let other = acts [set_im InBodyIM] (ret False) in
       case t_Type t of
         ErrorToken \<Rightarrow> ret True
       | TextToken \<Rightarrow> if TrimLeft whitespace (t_Data t) = [] then R (CallIM InBodyIM) else other
       | StartTagToken \<Rightarrow> if t_DataAtom t = a_Html then R (CallIM InBodyIM) else other
       | EndTagToken \<Rightarrow>
           if t_DataAtom t = a_Html
           then ask (\<lambda>p. acts [only_if (\<not> p_fragment p) (set_im AfterAfterBodyIM)] (ret True))
           else other
       | CommentToken \<Rightarrow>
           ask (\<lambda>p.
             let bad = panic (PanicWith (''html: bad parser state: <html> element not found, '' @
                   ''in the after-body insertion mode'')) in
             if length (p_oe p) < 1 then bad
             else pbind (atom_at (p_oe p ! 0)) (\<lambda>a.
               if a \<noteq> a_Html then bad
               else acts [pbind (alloc (comment_node (t_Data t))) (append_child (p_oe p ! 0))] (ret True)))
       | _ \<Rightarrow> other)"

definition inFramesetIM :: "calls \<Rightarrow> bool P" where
  "inFramesetIM R =
     with_tok (\<lambda>t.
       let a = t_DataAtom t in
       case t_Type t of
         CommentToken \<Rightarrow> acts [add_comment] (ret True)
       | TextToken \<Rightarrow>
           let s = only_space (t_Data t) in acts [only_if (s \<noteq> []) (addText s)] (ret True)
       | StartTagToken \<Rightarrow>
           if a = a_Html then R (CallIM InBodyIM)
           else if a = a_Frameset then acts [addElement] (ret True)
           else if a = a_Frame
           then acts [addElement, void oe_pop, acknowledgeSelfClosingTag] (ret True)
           else if a = a_Noframes then R (CallIM InHeadIM)
           else if a = a_Template then R (CallIM InTemplateIM)
           else ret True
       | EndTagToken \<Rightarrow>
           if a = a_Frameset
           then ask (\<lambda>p. pbind (atom_at (oe_top p)) (\<lambda>top.
             if top \<noteq> a_Html
             then acts [void oe_pop]
               (ask (\<lambda>p. pbind (atom_at (oe_top p)) (\<lambda>top.
                 acts [only_if (top \<noteq> a_Frameset) (set_im AfterFramesetIM)] (ret True))))
             else ret True))
           else ret True
       | _ \<Rightarrow> ret True)"

definition afterFramesetIM :: "calls \<Rightarrow> bool P" where
  "afterFramesetIM R =
     with_tok (\<lambda>t.
       let a = t_DataAtom t in
       case t_Type t of
         CommentToken \<Rightarrow> acts [add_comment] (ret True)
       | TextToken \<Rightarrow>
           let s = only_space (t_Data t) in acts [only_if (s \<noteq> []) (addText s)] (ret True)
       | StartTagToken \<Rightarrow>
           if a = a_Html then R (CallIM InBodyIM)
           else if a = a_Noframes then R (CallIM InHeadIM)
           else ret True
       | EndTagToken \<Rightarrow>
           if a = a_Html then acts [set_im AfterAfterFramesetIM] (ret True) else ret True
       | _ \<Rightarrow> ret True)"

definition afterAfterBodyIM :: "calls \<Rightarrow> bool P" where
  "afterAfterBodyIM R =
     with_tok (\<lambda>t.
       let other = acts [set_im InBodyIM] (ret False) in
       case t_Type t of
         ErrorToken \<Rightarrow> ret True
       | TextToken \<Rightarrow> if TrimLeft whitespace (t_Data t) = [] then R (CallIM InBodyIM) else other
       | StartTagToken \<Rightarrow> if t_DataAtom t = a_Html then R (CallIM InBodyIM) else other
       | CommentToken \<Rightarrow> acts [doc_comment] (ret True)
       | DoctypeToken \<Rightarrow> R (CallIM InBodyIM)
       | _ \<Rightarrow> other)"

definition afterAfterFramesetIM :: "calls \<Rightarrow> bool P" where
  "afterAfterFramesetIM R =
     with_tok (\<lambda>t.
       let a = t_DataAtom t in
       case t_Type t of
         CommentToken \<Rightarrow> acts [doc_comment] (ret True)
       | TextToken \<Rightarrow>
           let s = only_space (t_Data t) in
           if s \<noteq> [] then acts [set_tok (\<lambda>t. t\<lparr>t_Data := s\<rparr>)] (R (CallIM InBodyIM)) else ret True
       | StartTagToken \<Rightarrow>
           if a = a_Html then R (CallIM InBodyIM)
           else if a = a_Noframes then R (CallIM InHeadIM)
           else ret True
       | DoctypeToken \<Rightarrow> R (CallIM InBodyIM)
       | _ \<Rightarrow> ret True)"

end
