(* ===== verification/Html_Parser_Body.thy ===== *)
theory Html_Parser_Body
  imports Html_Parser_Modes
begin

text \<open>
  \<^verbatim>\<open>golang.org/x/net/html/parse.go\<close>: \<open>inBodyIM\<close> with the adoption agency algorithm
  (\<open>inBodyEndTagFormatting\<close>).
\<close>

section \<open>End tags of elements\<close>

text \<open>The stack after an end tag that has no rules of its own.\<close>

fun end_other_loop :: "nat \<Rightarrow> Atom \<Rightarrow> memory \<Rightarrow> ptr list \<Rightarrow> ptr list go" where
  "end_other_loop 0 tagAtom m oe = Inr oe"
| "end_other_loop (Suc i) tagAtom m oe =
     (case oe ! i of
        None \<Rightarrow> Inl NilDereference
      | Some x \<Rightarrow>
          if DataAtom (m x) = tagAtom then Inr (take i oe)
          else if isSpecialElement (m x) then Inr oe
          else end_other_loop i tagAtom m oe)"

definition inBodyEndTagOther :: "Atom \<Rightarrow> unit P" where
  "inBodyEndTagOther tagAtom =
     ask (\<lambda>p. pbind (lift (end_other_loop (length (p_oe p)) tagAtom (the_mem p) (p_oe p))) set_oe)"

text \<open>The topmost active formatting element above the last marker for which \<open>P\<close> holds.\<close>

fun find_afe :: "nat \<Rightarrow> (Node \<Rightarrow> bool) \<Rightarrow> memory \<Rightarrow> ptr list \<Rightarrow> ptr go" where
  "find_afe 0 P m afe = Inr None"
| "find_afe (Suc j) P m afe =
     (case afe ! j of
        None \<Rightarrow> Inl NilDereference
      | Some x \<Rightarrow>
          if NType (m x) = ScopeMarkerNode then Inr None
          else if P (m x) then Inr (Some x)
          else find_afe j P m afe)"

text \<open>The first special element of a stack.\<close>

fun first_special :: "memory \<Rightarrow> ptr list \<Rightarrow> ptr go" where
  "first_special m [] = Inr None"
| "first_special m (e # es) =
     (case e of
        None \<Rightarrow> Inl NilDereference
      | Some x \<Rightarrow> if isSpecialElement (m x) then Inr e else first_special m es)"

text \<open>Popping until an element has been popped.\<close>

function pop_through :: "ptr \<Rightarrow> ptr list \<Rightarrow> ptr list go" where
  "pop_through fe oe =
     go_bind (stack_pop oe) (\<lambda>(e, oe'). if e \<noteq> fe then pop_through fe oe' else Inr oe')"
  by pat_completeness auto
termination
  by (relation "measure (\<lambda>(fe, oe). length oe)") (auto simp: stack_pop_def go_index_Inr_iff)

declare pop_through.simps [simp del]

definition insert_at :: "ptr list \<Rightarrow> int \<Rightarrow> ptr \<Rightarrow> ptr list go" where
  "insert_at s i n = (if i < 0 then Inl IndexOutOfRange else stack_insert None s (nat i) n)"

definition reparent_children :: "ptr \<Rightarrow> ptr \<Rightarrow> unit P" where
  "reparent_children dst src =
     (case (dst, src) of
        (Some d, Some s) \<Rightarrow>
          in_mem (\<lambda>m. case reparentChildren d s m of None \<Rightarrow> Inl NoReturn | Some r \<Rightarrow> r)
      | _ \<Rightarrow> panic NilDereference)"

declare reparentChildren.simps [code]

section \<open>The adoption agency algorithm\<close>

text \<open>Steps 13.3 to 13.10, at most three times: the node to reparent and the bookmark.\<close>

primrec adoption_inner :: "nat \<Rightarrow> ptr \<Rightarrow> ptr \<Rightarrow> int \<Rightarrow> ptr \<Rightarrow> int \<Rightarrow> (ptr \<times> int) P" where
  "adoption_inner 0 formattingElement furthestBlock x lastNode bookmark = ret (lastNode, bookmark)"
| "adoption_inner (Suc j) formattingElement furthestBlock x lastNode bookmark =
     ask (\<lambda>p. pbind (lift (go_index (p_oe p) (x - 1))) (\<lambda>node.
       if stack_index (p_afe p) node = -1
       then acts [oe_remove node]
              (adoption_inner j formattingElement furthestBlock (x - 1) lastNode bookmark)
       else if node = formattingElement then ret (lastNode, bookmark)
       else
         pbind (clone_node node) (\<lambda>clone.
           acts
             [ask (\<lambda>p. pbind (lift (go_store (p_afe p) (stack_index (p_afe p) node) clone)) set_afe),
              ask (\<lambda>p. pbind (lift (go_store (p_oe p) (stack_index (p_oe p) node) clone)) set_oe)]
             (ask (\<lambda>p.
               let bookmark' = (if lastNode = furthestBlock
                                then stack_index (p_afe p) clone + 1 else bookmark) in
               acts [detach lastNode, append_child clone lastNode]
                 (adoption_inner j formattingElement furthestBlock (x - 1) clone bookmark'))))))"

text \<open>Step 14: the node goes to the common ancestor or to the foster parent.\<close>

definition adopt :: "ptr \<Rightarrow> ptr \<Rightarrow> unit P" where
  "adopt commonAncestor lastNode =
     acts [detach lastNode]
       (pbind (node_at commonAncestor) (\<lambda>c.
         if DataAtom c \<in> set table_parts then fosterParent lastNode
         else append_child
           (if DataAtom c = a_Template \<and> Namespace c = ''html'' then LastChild c else commonAncestor)
           lastNode))"

text \<open>Steps 15 to 19: a clone of the formatting element takes the children of the block, and the
  place of the element in both lists.\<close>

definition replace_formatting :: "ptr \<Rightarrow> ptr \<Rightarrow> int \<Rightarrow> unit P" where
  "replace_formatting formattingElement furthestBlock bookmark0 =
     pbind (clone_node formattingElement) (\<lambda>clone.
       acts
         [reparent_children clone furthestBlock,
          append_child furthestBlock clone,
          ask (\<lambda>p.
            let oldLoc = stack_index (p_afe p) formattingElement;
                bookmark = (if oldLoc \<noteq> -1 \<and> oldLoc < bookmark0 then bookmark0 - 1 else bookmark0) in
            pbind (lift (insert_at (stack_remove None (p_afe p) formattingElement) bookmark clone))
              set_afe),
          oe_remove formattingElement,
          ask (\<lambda>p. pbind (lift (insert_at (p_oe p) (stack_index (p_oe p) furthestBlock + 1) clone))
            set_oe)]
         (ret ()))"

text \<open>One round of the outer loop; whether the algorithm returns.\<close>

definition adoption_round :: "Atom \<Rightarrow> bool P" where
  "adoption_round tagAtom =
     ask (\<lambda>p.
       pbind (lift (find_afe (length (p_afe p)) (\<lambda>n. DataAtom n = tagAtom) (the_mem p) (p_afe p)))
         (\<lambda>formattingElement.
           let feIndex = stack_index (p_oe p) formattingElement in
           if formattingElement = None then acts [inBodyEndTagOther tagAtom] (ret True)
           else if feIndex = -1 then acts [afe_remove formattingElement] (ret True)
           else
             pbind (elementInScope defaultScope [tagAtom]) (\<lambda>inScope.
               if \<not> inScope then ret True
               else
                 pbind (lift (first_special (the_mem p) (drop (nat feIndex) (p_oe p)))) (\<lambda>furthestBlock.
                   if furthestBlock = None
                   then acts
                     [pbind (lift (pop_through formattingElement (p_oe p))) set_oe,
                      afe_remove formattingElement] (ret True)
                   else
                     pbind (lift (go_index (p_oe p) (feIndex - 1))) (\<lambda>commonAncestor.
                     pbind (adoption_inner 3 formattingElement furthestBlock
                              (stack_index (p_oe p) furthestBlock) furthestBlock
                              (stack_index (p_afe p) formattingElement)) (\<lambda>(lastNode, bookmark).
                       acts
                         [adopt commonAncestor lastNode,
                          replace_formatting formattingElement furthestBlock bookmark]
                         (ret False)))))))"

primrec adoption_loop :: "nat \<Rightarrow> Atom \<Rightarrow> unit P" where
  "adoption_loop 0 tagAtom = ret ()"
| "adoption_loop (Suc i) tagAtom =
     pbind (adoption_round tagAtom) (\<lambda>return. if return then ret () else adoption_loop i tagAtom)"

definition inBodyEndTagFormatting :: "Atom \<Rightarrow> unit P" where
  "inBodyEndTagFormatting tagAtom = adoption_loop 8 tagAtom"

section \<open>Text and start tags in the body\<close>

definition add_missing :: "Attribute list \<Rightarrow> Attribute list \<Rightarrow> Attribute list" where
  "add_missing dst src =
     foldl (\<lambda>as t. if attr_Key t \<in> set (map attr_Key as) then as else as @ [t]) dst src"

definition copyAttributes :: "ptr \<Rightarrow> Token \<Rightarrow> unit P" where
  "copyAttributes dst src =
     (if t_Attr src = [] then ret ()
      else set_node dst (\<lambda>x. x\<lparr>Attr := add_missing (Attr x) (t_Attr src)\<rparr>))"

definition body_text :: "bool P" where
  "body_text =
     with_tok (\<lambda>t. ask (\<lambda>p. pbind (node_at (oe_top p)) (\<lambda>n.
       let d = drop_nul
             (if DataAtom n \<in> set [a_Pre, a_Listing] \<and> FirstChild n = None
              then drop_newline (t_Data t) else t_Data t)
       in if d = [] then ret True
          else acts
            [reconstructActiveFormattingElements,
             addText d,
             ask (\<lambda>p. only_if (p_framesetOK p \<and> TrimLeft whitespace d \<noteq> []) (set_framesetOK False))]
            (ret True))))"

text \<open>The loop that closes an open list item.\<close>

fun close_item :: "Atom list \<Rightarrow> nat \<Rightarrow> memory \<Rightarrow> ptr list \<Rightarrow> ptr list go" where
  "close_item items 0 m oe = Inr oe"
| "close_item items (Suc i) m oe =
     (case oe ! i of
        None \<Rightarrow> Inl NilDereference
      | Some x \<Rightarrow>
          if DataAtom (m x) \<in> set items then Inr (take i oe)
          else if DataAtom (m x) \<in> set [a_Address, a_Div, a_P] \<or> \<not> isSpecialElement (m x)
          then close_item items i m oe
          else Inr oe)"

definition start_item :: "Atom list \<Rightarrow> bool P" where
  "start_item items =
     acts
       [set_framesetOK False,
        ask (\<lambda>p. pbind (lift (close_item items (length (p_oe p)) (the_mem p) (p_oe p))) set_oe),
        void (popUntil buttonScope [a_P]),
        addElement]
       (ret True)"

definition start_body :: "bool P" where
  "start_body =
     pbind (oe_contains a_Template) (\<lambda>inside.
       if inside then ret True
       else with_tok (\<lambda>t. ask (\<lambda>p.
         if 2 \<le> length (p_oe p)
         then pbind (node_at (p_oe p ! 1)) (\<lambda>body.
           if NType body = ElementNode \<and> DataAtom body = a_Body
           then acts [set_framesetOK False, copyAttributes (p_oe p ! 1) t] (ret True)
           else ret True)
         else ret True)))"

definition start_frameset :: "bool P" where
  "start_frameset =
     ask (\<lambda>p.
       if \<not> p_framesetOK p \<or> length (p_oe p) < 2 then ret True
       else pbind (atom_at (p_oe p ! 1)) (\<lambda>a.
         if a \<noteq> a_Body then ret True
         else acts
           [detach (p_oe p ! 1), set_oe (take 1 (p_oe p)), addElement, set_im InFramesetIM]
           (ret True)))"

text \<open>\<open><a>\<close> closes an \<open><a>\<close> that is still active.\<close>

definition start_a :: "bool P" where
  "start_a =
     acts
       [ask (\<lambda>p. pbind (lift (find_afe (length (p_afe p))
            (\<lambda>n. NType n = ElementNode \<and> DataAtom n = a_A) (the_mem p) (p_afe p)))
          (\<lambda>n. only_if (n \<noteq> None)
            (acts [inBodyEndTagFormatting a_A, oe_remove n, afe_remove n] (ret ())))),
        reconstructActiveFormattingElements,
        addFormattingElement]
       (ret True)"

definition last_val :: "string \<Rightarrow> string \<Rightarrow> Attribute list \<Rightarrow> string" where
  "last_val key dflt as =
     foldl (\<lambda>v t. if attr_Key t = key then attr_Val t else v) dflt as"

definition start_isindex :: "calls \<Rightarrow> bool P" where
  "start_isindex R =
     with_tok (\<lambda>t. ask (\<lambda>p.
       if p_form p \<noteq> None then ret True
       else
         let action = last_val ''action'' [] (t_Attr t);
             prompt = last_val ''prompt'' ''This is a searchable index. Enter search keywords: '' (t_Attr t);
             attrs = \<lparr>attr_Namespace = [], attr_Key = ''name'', attr_Val = ''isindex''\<rparr> #
               filter (\<lambda>t. attr_Key t \<notin> set [''action'', ''name'', ''prompt'']) (t_Attr t)
         in acts
           [acknowledgeSelfClosingTag,
            void (popUntil buttonScope [a_P]),
            implied R StartTagToken a_Form ''form'',
            only_if (action \<noteq> []) (ask (\<lambda>p. set_node (p_form p) (\<lambda>x.
              x\<lparr>Attr := [\<lparr>attr_Namespace = [], attr_Key = ''action'', attr_Val = action\<rparr>]\<rparr>))),
            implied R StartTagToken a_Hr ''hr'',
            implied R StartTagToken a_Label ''label'',
            addText prompt,
            pbind (alloc (element_node a_Input ''input'' attrs)) addChild,
            void oe_pop,
            implied R EndTagToken a_Label ''label'',
            implied R StartTagToken a_Hr ''hr'',
            implied R EndTagToken a_Form ''form'']
           (ret True)))"

text \<open>\<open><math>\<close> and \<open><svg>\<close>.\<close>

definition start_foreign :: "bool P" where
  "start_foreign =
     acts
       [reconstructActiveFormattingElements,
        set_tok (\<lambda>t. t\<lparr>t_Attr := adjustForeignAttributes (adjustAttributeNames (t_Attr t)
          (if t_DataAtom t = a_Math then mathMLAttributeAdjustments else svgAttributeAdjustments))\<rparr>),
        addElement,
        ask (\<lambda>p. set_node (parser_top p) (\<lambda>x. x\<lparr>Namespace := t_Data (p_tok p)\<rparr>)),
        ask (\<lambda>p. only_if (p_hasSelfClosingToken p)
          (acts [void oe_pop, acknowledgeSelfClosingTag] (ret ())))]
       (ret True)"

definition block_starts :: "Atom list" where
  "block_starts =
     [a_Address, a_Article, a_Aside, a_Blockquote, a_Center, a_Details, a_Dir, a_Div, a_Dl, a_Fieldset,
      a_Figcaption, a_Figure, a_Footer, a_Header, a_Hgroup, a_Menu, a_Nav, a_Ol, a_P, a_Section,
      a_Summary, a_Ul]"

definition headings :: "Atom list" where
  "headings = [a_H1, a_H2, a_H3, a_H4, a_H5, a_H6]"

definition raw_start_tag :: "bool P" where
  "raw_start_tag = acts [addElement, setOriginalIM, set_im TextIM] (ret True)"

text \<open>The start tags up to the formatting elements.\<close>

definition body_start_blocks :: "calls \<Rightarrow> bool P \<Rightarrow> bool P" where
  "body_start_blocks R others =
     with_tok (\<lambda>t. let a = t_DataAtom t in
       if a = a_Html
       then pbind (oe_contains a_Template) (\<lambda>inside.
         if inside then ret True
         else ask (\<lambda>p. pbind (lift (go_index (p_oe p) 0)) (\<lambda>n. acts [copyAttributes n t] (ret True))))
       else if a \<in> set [a_Base, a_Basefont, a_Bgsound, a_Command, a_Link, a_Meta, a_Noframes,
                        a_Script, a_Style, a_Template, a_Title] then R (CallIM InHeadIM)
       else if a = a_Body then start_body
       else if a = a_Frameset then start_frameset
       else if a \<in> set block_starts
       then acts [void (popUntil buttonScope [a_P]), addElement] (ret True)
       else if a \<in> set headings
       then acts
         [void (popUntil buttonScope [a_P]),
          pbind top_atom (\<lambda>top. only_if (top \<in> set headings) (void oe_pop)),
          addElement] (ret True)
       else if a \<in> set [a_Pre, a_Listing]
       then acts [void (popUntil buttonScope [a_P]), addElement, set_framesetOK False] (ret True)
       else if a = a_Form
       then pbind (oe_contains a_Template) (\<lambda>inside. ask (\<lambda>p.
         if inside \<or> p_form p = None
         then acts
           [void (popUntil buttonScope [a_P]), addElement, ask (\<lambda>p. set_form (parser_top p))] (ret True)
         else ret True))
       else if a = a_Li then start_item [a_Li]
       else if a \<in> set [a_Dd, a_Dt] then start_item [a_Dd, a_Dt]
       else if a = a_Plaintext
       then acts [void (popUntil buttonScope [a_P]), addElement] (ret True)
       else if a = a_Button
       then acts
         [void (popUntil defaultScope [a_Button]), reconstructActiveFormattingElements, addElement,
          set_framesetOK False] (ret True)
       else others)"

definition body_start_inline :: "calls \<Rightarrow> bool P \<Rightarrow> bool P" where
  "body_start_inline R others =
     with_tok (\<lambda>t. let a = t_DataAtom t in
       if a = a_A then start_a
       else if a \<in> set [a_B, a_Big, a_Code, a_Em, a_Font, a_I, a_S, a_Small, a_Strike, a_Strong, a_Tt, a_U]
       then acts [reconstructActiveFormattingElements, addFormattingElement] (ret True)
       else if a = a_Nobr
       then acts
         [reconstructActiveFormattingElements,
          pbind (elementInScope defaultScope [a_Nobr]) (\<lambda>found. only_if found
            (acts [inBodyEndTagFormatting a_Nobr, reconstructActiveFormattingElements] (ret ()))),
          addFormattingElement] (ret True)
       else if a \<in> set [a_Applet, a_Marquee, a_Object]
       then acts
         [reconstructActiveFormattingElements, addElement, afe_push (Some marker),
          set_framesetOK False] (ret True)
       else if a = a_Table
       then acts
         [ask (\<lambda>p. only_if (\<not> p_quirks p) (void (popUntil buttonScope [a_P]))),
          addElement, set_framesetOK False, set_im InTableIM] (ret True)
       else if a \<in> set [a_Area, a_Br, a_Embed, a_Img, a_Input, a_Keygen, a_Wbr]
       then acts
         [reconstructActiveFormattingElements, addElement, void oe_pop, acknowledgeSelfClosingTag]
         (if a = a_Input \<and> list_ex hidden_input (t_Attr t) then ret True
          else acts [set_framesetOK False] (ret True))
       else if a \<in> set [a_Param, a_Source, a_Track]
       then acts [addElement, void oe_pop, acknowledgeSelfClosingTag] (ret True)
       else if a = a_Hr
       then acts
         [void (popUntil buttonScope [a_P]), addElement, void oe_pop, acknowledgeSelfClosingTag,
          set_framesetOK False] (ret True)
       else if a = a_Image
       then acts [set_tok (\<lambda>t. t\<lparr>t_DataAtom := a_Img, t_Data := ''img''\<rparr>)] (ret False)
       else if a = a_Isindex then start_isindex R
       else others)"

definition body_start_rest :: "bool P" where
  "body_start_rest =
     with_tok (\<lambda>t. let a = t_DataAtom t in
       if a = a_Textarea
       then acts [addElement, setOriginalIM, set_framesetOK False, set_im TextIM] (ret True)
       else if a = a_Xmp
       then acts
         [void (popUntil buttonScope [a_P]), reconstructActiveFormattingElements,
          set_framesetOK False] raw_start_tag
       else if a = a_Iframe then acts [set_framesetOK False] raw_start_tag
       else if a \<in> set [a_Noembed, a_Noscript] then raw_start_tag
       else if a = a_Select
       then acts
         [reconstructActiveFormattingElements, addElement, set_framesetOK False, set_im InSelectIM]
         (ret True)
       else if a \<in> set [a_Optgroup, a_Option]
       then acts [pop_if_top a_Option, reconstructActiveFormattingElements, addElement] (ret True)
       else if a \<in> set [a_Rb, a_Rtc]
       then acts
         [pbind (elementInScope defaultScope [a_Ruby]) (\<lambda>found. only_if found (generateImpliedEndTags [])),
          addElement] (ret True)
       else if a \<in> set [a_Rp, a_Rt]
       then acts
         [pbind (elementInScope defaultScope [a_Ruby])
            (\<lambda>found. only_if found (generateImpliedEndTags [''rtc''])),
          addElement] (ret True)
       else if a \<in> set [a_Math, a_Svg] then start_foreign
       else if a = a_Frame
       then pbind (oe_contains a_Template) (\<lambda>inside. acts [only_if inside addElement] (ret True))
       else if a \<in> set [a_Caption, a_Col, a_Colgroup, a_Head, a_Tbody, a_Td, a_Tfoot, a_Th, a_Thead, a_Tr]
       then ret True
       else acts [reconstructActiveFormattingElements, addElement] (ret True))"

definition body_start :: "calls \<Rightarrow> bool P" where
  "body_start R = body_start_blocks R (body_start_inline R body_start_rest)"

section \<open>End tags in the body\<close>

definition block_ends :: "Atom list" where
  "block_ends =
     [a_Address, a_Article, a_Aside, a_Blockquote, a_Button, a_Center, a_Details, a_Dir, a_Div, a_Dl,
      a_Fieldset, a_Figcaption, a_Figure, a_Footer, a_Header, a_Hgroup, a_Listing, a_Menu, a_Nav, a_Ol,
      a_Pre, a_Section, a_Summary, a_Ul]"

definition formatting :: "Atom list" where
  "formatting =
     [a_A, a_B, a_Big, a_Code, a_Em, a_Font, a_I, a_Nobr, a_S, a_Small, a_Strike, a_Strong, a_Tt, a_U]"

definition end_form :: "bool P" where
  "end_form =
     pbind (oe_contains a_Template) (\<lambda>inside.
       if inside
       then pbind (oe_contains a_Form) (\<lambda>found.
         if \<not> found then ret True
         else acts [generateImpliedEndTags []]
           (with_tok (\<lambda>t.
             if t_DataAtom t = a_Form then ret True
             else acts [void (popUntil defaultScope [a_Form])] (ret True))))
       else ask (\<lambda>p. let node = p_form p in
         acts [set_form None]
           (pbind (indexOfElementInScope defaultScope [a_Form]) (\<lambda>i.
             if node = None \<or> i = -1 \<or> p_oe p ! nat i \<noteq> node then ret True
             else acts [generateImpliedEndTags [], oe_remove node] (ret True)))))"

definition body_end :: "calls \<Rightarrow> bool P" where
  "body_end R =
     with_tok (\<lambda>t. let a = t_DataAtom t in
       if a = a_Body
       then pbind (elementInScope defaultScope [a_Body]) (\<lambda>found.
         acts [only_if found (set_im AfterBodyIM)] (ret True))
       else if a = a_Html
       then pbind (elementInScope defaultScope [a_Body]) (\<lambda>found.
         if found then acts [implied R EndTagToken a_Body ''body''] (ret False) else ret True)
       else if a \<in> set block_ends then acts [void (popUntil defaultScope [a])] (ret True)
       else if a = a_Form then end_form
       else if a = a_P
       then acts
         [pbind (elementInScope buttonScope [a_P]) (\<lambda>found.
            only_if (\<not> found) (implied R StartTagToken a_P ''p'')),
          void (popUntil buttonScope [a_P])] (ret True)
       else if a = a_Li then acts [void (popUntil listItemScope [a_Li])] (ret True)
       else if a \<in> set [a_Dd, a_Dt] then acts [void (popUntil defaultScope [a])] (ret True)
       else if a \<in> set headings then acts [void (popUntil defaultScope headings)] (ret True)
       else if a \<in> set formatting then acts [inBodyEndTagFormatting a] (ret True)
       else if a \<in> set [a_Applet, a_Marquee, a_Object]
       then acts
         [pbind (popUntil defaultScope [a]) (\<lambda>found. only_if found clearActiveFormattingElements)]
         (ret True)
       else if a = a_Br then acts [set_tok (\<lambda>t. t\<lparr>t_Type := StartTagToken\<rparr>)] (ret False)
       else if a = a_Template then R (CallIM InHeadIM)
       else acts [inBodyEndTagOther a] (ret True))"

text \<open>At the end of the input; the loop over the open elements only reads them.\<close>

fun all_closable :: "memory \<Rightarrow> ptr list \<Rightarrow> bool go" where
  "all_closable m [] = Inr True"
| "all_closable m (e # es) =
     (case e of
        None \<Rightarrow> Inl NilDereference
      | Some x \<Rightarrow>
          if DataAtom (m x) \<in> set [a_Dd, a_Dt, a_Li, a_Optgroup, a_Option, a_P, a_Rb, a_Rp, a_Rt, a_Rtc,
               a_Tbody, a_Td, a_Tfoot, a_Th, a_Thead, a_Tr, a_Body, a_Html]
          then all_closable m es else Inr False)"

definition body_eof :: "bool P" where
  "body_eof =
     ask (\<lambda>p.
       if 0 < length (p_templateStack p) then acts [set_im InTemplateIM] (ret False)
       else pbind (lift (all_closable (the_mem p) (p_oe p))) (\<lambda>_. ret True))"

definition inBodyIM :: "calls \<Rightarrow> bool P" where
  "inBodyIM R =
     with_tok (\<lambda>t.
       case t_Type t of
         TextToken \<Rightarrow> body_text
       | StartTagToken \<Rightarrow> body_start R
       | EndTagToken \<Rightarrow> body_end R
       | CommentToken \<Rightarrow> acts [add_comment] (ret True)
       | ErrorToken \<Rightarrow> body_eof
       | _ \<Rightarrow> ret True)"

end
