(* ===== verification/Html_Parser.thy ===== *)
theory Html_Parser
  imports Html_Parser_Body
begin

text \<open>
  \<^verbatim>\<open>golang.org/x/net/html/parse.go\<close>: foreign content, the loop over a token, the loop over the
  tokens, \<open>Parse\<close> and \<open>ParseFragment\<close>. The calls that the modes make are run with a bound on
  their depth; when it does not suffice, or when a loop does not end, the result is the panic
  \<open>NoReturn\<close>.
\<close>

section \<open>Foreign content\<close>

definition call_im :: "calls \<Rightarrow> bool P" where
  "call_im R = ask (\<lambda>p. case p_im p of None \<Rightarrow> panic NilDereference | Some m \<Rightarrow> R (CallIM m))"

text \<open>Leaving foreign content at a tag that cannot be part of it.\<close>

fun breakout_loop :: "nat \<Rightarrow> memory \<Rightarrow> ptr list \<Rightarrow> ptr list go" where
  "breakout_loop 0 m oe = Inr oe"
| "breakout_loop (Suc i) m oe =
     (case oe ! i of
        None \<Rightarrow> Inl NilDereference
      | Some x \<Rightarrow>
          if Namespace (m x) = [] \<or> htmlIntegrationPoint (m x) \<or> mathMLTextIntegrationPoint (m x)
          then Inr (take (i + 1) oe) else breakout_loop i m oe)"

definition breaks_out :: "Token \<Rightarrow> bool" where
  "breaks_out t \<longleftrightarrow> t_Data t \<in> set breakout \<or>
     t_DataAtom t = a_Font \<and> list_ex (\<lambda>a. attr_Key a \<in> set [''color'', ''face'', ''size'']) (t_Attr t)"

text \<open>The token with the names of the current namespace.\<close>

definition adjust_svg_tag :: "Token \<Rightarrow> Token go" where
  "adjust_svg_tag t =
     (case map_of svgTagNameAdjustments (t_Data t) of
        None \<Rightarrow> Inr t
      | Some x \<Rightarrow> go_bind (Lookup x) (\<lambda>a. Inr (t\<lparr>t_DataAtom := a, t_Data := x\<rparr>)))"

definition adjust_token :: "string \<Rightarrow> Token \<Rightarrow> Token go" where
  "adjust_token ns t =
     (if ns = ''math''
      then Inr (t\<lparr>t_Attr := adjustAttributeNames (t_Attr t) mathMLAttributeAdjustments\<rparr>)
      else if ns = ''svg''
      then go_bind (adjust_svg_tag t) (\<lambda>t.
        Inr (t\<lparr>t_Attr := adjustAttributeNames (t_Attr t) svgAttributeAdjustments\<rparr>))
      else Inl (PanicWith ''html: bad parser state: unexpected namespace''))"

definition foreign_start :: "bool P" where
  "foreign_start =
     with_tok (\<lambda>t.
       if breaks_out t
       then acts
         [ask (\<lambda>p. pbind (lift (breakout_loop (length (p_oe p)) (the_mem p) (p_oe p))) set_oe)]
         (ret False)
       else
         pbind top_node (\<lambda>n.
         pbind (lift (adjust_token (Namespace n) t)) (\<lambda>t'.
           acts
             [set_tok (\<lambda>_. t'\<lparr>t_Attr := adjustForeignAttributes (t_Attr t')\<rparr>),
              addElement,
              ask (\<lambda>p. set_node (parser_top p) (\<lambda>x. x\<lparr>Namespace := Namespace n\<rparr>)),
              only_if (Namespace n \<noteq> [])
                (modify (\<lambda>p. p\<lparr>p_tokenizer := NextIsNotRawText (p_tokenizer p)\<rparr>)),
              ask (\<lambda>p. only_if (p_hasSelfClosingToken p)
                (acts [void oe_pop, acknowledgeSelfClosingTag] (ret ())))]
             (ret True))))"

text \<open>An end tag in foreign content: the stack that is left, or \<open>None\<close> when an HTML element is
  reached and the insertion mode takes over.\<close>

fun foreign_end_loop :: "nat \<Rightarrow> (string \<Rightarrow> bool) \<Rightarrow> memory \<Rightarrow> ptr list \<Rightarrow> ptr list option go" where
  "foreign_end_loop 0 same m oe = Inr (Some oe)"
| "foreign_end_loop (Suc i) same m oe =
     (case oe ! i of
        None \<Rightarrow> Inl NilDereference
      | Some x \<Rightarrow>
          if Namespace (m x) = [] then Inr None
          else if same (Data (m x)) then Inr (Some (take i oe))
          else foreign_end_loop i same m oe)"

definition parseForeignContent :: "calls \<Rightarrow> bool P" where
  "parseForeignContent R =
     with_tok (\<lambda>t.
       case t_Type t of
         TextToken \<Rightarrow>
           let d = replace_nul (t_Data t) in
           acts
             [ask (\<lambda>p. only_if (p_framesetOK p)
                (set_framesetOK (TrimLeft (whitespace @ [NUL]) (t_Data t) = []))),
              set_tok (\<lambda>t. t\<lparr>t_Data := d\<rparr>),
              addText d]
             (ret True)
       | CommentToken \<Rightarrow> acts [add_comment] (ret True)
       | StartTagToken \<Rightarrow> foreign_start
       | EndTagToken \<Rightarrow>
           ask (\<lambda>p. pbind (lift (foreign_end_loop (length (p_oe p))
               (\<lambda>d. EqualFold (p_uni p) d (t_Data t)) (the_mem p) (p_oe p)))
             (\<lambda>oe. case oe of None \<Rightarrow> call_im R | Some s \<Rightarrow> acts [set_oe s] (ret True)))
       | _ \<Rightarrow> ret True)"

definition inForeignContent :: "bool P" where
  "inForeignContent =
     ask (\<lambda>p.
       if length (p_oe p) = 0 then ret False
       else pbind (node_at (p_oe p ! (length (p_oe p) - 1))) (\<lambda>n.
         let t = p_tok p in
         ret (\<not> (Namespace n = [] \<or>
           mathMLTextIntegrationPoint n \<and>
             (t_Type t = StartTagToken \<and> t_DataAtom t \<noteq> a_Mglyph \<and> t_DataAtom t \<noteq> a_Malignmark \<or>
              t_Type t = TextToken) \<or>
           Namespace n = ''math'' \<and> DataAtom n = a_AnnotationXml \<and> t_Type t = StartTagToken \<and>
             t_DataAtom t = a_Svg \<or>
           htmlIntegrationPoint n \<and> (t_Type t = StartTagToken \<or> t_Type t = TextToken) \<or>
           t_Type t = ErrorToken))))"

section \<open>One token\<close>

definition parseImpliedToken :: "calls \<Rightarrow> TokenType \<Rightarrow> Atom \<Rightarrow> string \<Rightarrow> bool P" where
  "parseImpliedToken R t dataAtom data =
     ask (\<lambda>p0.
       acts
         [modify (\<lambda>p. p\<lparr>p_tok := \<lparr>t_Type = t, t_DataAtom = dataAtom, t_Data = data, t_Attr = []\<rparr>,
            p_hasSelfClosingToken := False\<rparr>),
          void (R CallCurrent),
          modify (\<lambda>p. p\<lparr>p_tok := p_tok p0, p_hasSelfClosingToken := p_hasSelfClosingToken p0\<rparr>)]
         (ret True))"

definition parseCurrentToken :: "calls \<Rightarrow> bool P" where
  "parseCurrentToken R =
     acts
       [with_tok (\<lambda>t. only_if (t_Type t = SelfClosingTagToken)
          (modify (\<lambda>p. p\<lparr>p_hasSelfClosingToken := True, p_tok := (p_tok p)\<lparr>t_Type := StartTagToken\<rparr>\<rparr>))),
        void (R CallLoop),
        ask (\<lambda>p. only_if (p_hasSelfClosingToken p)
          (modify (\<lambda>p. p\<lparr>p_hasSelfClosingToken := False\<rparr>)))]
       (ret True)"

text \<open>The loop until the token is consumed.\<close>

definition token_loop :: "calls \<Rightarrow> bool P" where
  "token_loop R =
     pbind inForeignContent (\<lambda>foreign.
     pbind (if foreign then parseForeignContent R else call_im R) (\<lambda>consumed.
       if consumed then ret True else R CallLoop))"

definition mode :: "calls \<Rightarrow> insertionMode \<Rightarrow> bool P" where
  "mode R m =
     (case m of
        InitialIM \<Rightarrow> initialIM
      | BeforeHTMLIM \<Rightarrow> beforeHTMLIM R
      | BeforeHeadIM \<Rightarrow> beforeHeadIM R
      | InHeadIM \<Rightarrow> inHeadIM R
      | AfterHeadIM \<Rightarrow> afterHeadIM R
      | InBodyIM \<Rightarrow> inBodyIM R
      | TextIM \<Rightarrow> textIM
      | InTableIM \<Rightarrow> inTableIM R
      | InCaptionIM \<Rightarrow> inCaptionIM R
      | InColumnGroupIM \<Rightarrow> inColumnGroupIM R
      | InTableBodyIM \<Rightarrow> inTableBodyIM R
      | InRowIM \<Rightarrow> inRowIM R
      | InCellIM \<Rightarrow> inCellIM R
      | InSelectIM \<Rightarrow> inSelectIM R
      | InSelectInTableIM \<Rightarrow> inSelectInTableIM R
      | InTemplateIM \<Rightarrow> inTemplateIM R
      | AfterBodyIM \<Rightarrow> afterBodyIM R
      | InFramesetIM \<Rightarrow> inFramesetIM R
      | AfterFramesetIM \<Rightarrow> afterFramesetIM R
      | AfterAfterBodyIM \<Rightarrow> afterAfterBodyIM R
      | AfterAfterFramesetIM \<Rightarrow> afterAfterFramesetIM R)"

text \<open>What a call runs, and the calls to a given depth.\<close>

definition call_body :: "calls \<Rightarrow> calls" where
  "call_body R c =
     (case c of
        CallIM m \<Rightarrow> mode R m
      | CallImplied t a s \<Rightarrow> parseImpliedToken R t a s
      | CallCurrent \<Rightarrow> parseCurrentToken R
      | CallLoop \<Rightarrow> token_loop R)"

primrec run :: "nat \<Rightarrow> calls" where
  "run 0 = (\<lambda>c. panic NoReturn)"
| "run (Suc n) = call_body (run n)"

section \<open>All tokens\<close>

definition next_token :: "Token P" where
  "next_token =
     ask (\<lambda>p. pbind (case oe_top p of None \<Rightarrow> ret False | Some n \<Rightarrow> ret (Namespace (the_mem p n) \<noteq> []))
       (\<lambda>cdata.
         pbind (lift (go_bind (Next (AllowCDATA cdata (p_tokenizer p))) Tokenizer_Token)) (\<lambda>(t, z).
           acts [modify (\<lambda>p. p\<lparr>p_tokenizer := z, p_tok := t\<rparr>)] (ret t))))"

text \<open>The error that \<open>parse\<close> returns; each round reads one token.\<close>

primrec parse_loop :: "nat \<Rightarrow> nat \<Rightarrow> io_error option P" where
  "parse_loop depth 0 = panic NoReturn"
| "parse_loop depth (Suc rounds) =
     pbind next_token (\<lambda>t. ask (\<lambda>p.
       let err = (if t_Type t = ErrorToken then Err (p_tokenizer p) else None) in
       if err \<noteq> None \<and> err \<noteq> Some EOF then ret err
       else acts [void (run depth CallCurrent)]
         (if err = Some EOF then ret None else parse_loop depth rounds)))"

definition zero_token :: Token where
  "zero_token = \<lparr>t_Type = ErrorToken, t_DataAtom = 0, t_Data = [], t_Attr = []\<rparr>"

definition new_parser :: "unicode \<Rightarrow> dom_store \<Rightarrow> Tokenizer \<Rightarrow> parser" where
  "new_parser u s z =
     \<lparr>p_uni = u, p_store = s, p_tokenizer = z, p_tok = zero_token, p_hasSelfClosingToken = False,
      p_doc = None, p_oe = [], p_afe = [], p_head = None, p_form = None, p_scripting = True,
      p_framesetOK = False, p_templateStack = [], p_im = None, p_originalIM = None,
      p_fosterParenting = False, p_quirks = False, p_fragment = False, p_context = None\<rparr>"

definition document_node :: Node where
  "document_node = new_Node\<lparr>NType := DocumentNode\<rparr>"

datatype parse_error = ParseError string | ReadError io_error

definition Parse :: "unicode \<Rightarrow> nat \<Rightarrow> reader \<Rightarrow> dom_store \<Rightarrow> ((parse_error + ptr) \<times> dom_store) go" where
  "Parse u fuel r s =
     go_bind
       (pbind (alloc document_node) (\<lambda>doc.
          acts [modify (\<lambda>p. p\<lparr>p_doc := doc, p_framesetOK := True, p_im := Some InitialIM\<rparr>)]
            (parse_loop fuel fuel))
        (new_parser u s (NewTokenizer r)))
       (\<lambda>(err, p). Inr (case err of Some e \<Rightarrow> Inl (ReadError e) | None \<Rightarrow> Inr (p_doc p), p_store p))"

section \<open>Fragments\<close>

text \<open>The form that the context is in. A walk over more nodes than there are does not end.\<close>

fun form_of :: "nat \<Rightarrow> memory \<Rightarrow> ptr \<Rightarrow> ptr go" where
  "form_of f m None = Inr None"
| "form_of 0 m (Some n) = Inl NoReturn"
| "form_of (Suc f) m (Some n) =
     (if NType (m n) = ElementNode \<and> DataAtom (m n) = a_Form then Inr (Some n)
      else form_of f m (Parent (m n)))"

text \<open>Taking the children of a node off it.\<close>

fun take_children :: "nat \<Rightarrow> nat \<Rightarrow> ptr \<Rightarrow> memory \<Rightarrow> (nat list \<times> memory) go" where
  "take_children f parent None m = Inr ([], m)"
| "take_children 0 parent (Some c) m = Inl NoReturn"
| "take_children (Suc f) parent (Some c) m =
     go_bind (RemoveChild parent c m) (\<lambda>m'.
     go_bind (take_children f parent (NextSibling (m c)) m') (\<lambda>(cs, m'').
       Inr (c # cs, m'')))"

definition context_tag :: "ptr \<Rightarrow> memory \<Rightarrow> (parse_error + string) go" where
  "context_tag context m =
     (case context of
        None \<Rightarrow> Inr (Inr [])
      | Some n \<Rightarrow>
          if NType (m n) \<noteq> ElementNode
          then Inr (Inl (ParseError ''html: ParseFragment of non-element Node''))
          else go_bind (Lookup (Data (m n))) (\<lambda>a.
            if DataAtom (m n) \<noteq> a
            then Inr (Inl (ParseError ''html: inconsistent Node: DataAtom=%q, Data=%q''))
            else go_bind (Atom_String (DataAtom (m n))) (\<lambda>s. Inr (Inr s))))"

definition start_fragment :: "ptr \<Rightarrow> unit P" where
  "start_fragment context =
     pbind (alloc document_node) (\<lambda>doc.
     pbind (alloc (element_node a_Html ''html'' [])) (\<lambda>root.
       acts
         [modify (\<lambda>p. p\<lparr>p_doc := doc, p_fragment := True, p_context := context\<rparr>),
          append_child doc root,
          set_oe [root],
          (case context of
             None \<Rightarrow> ret ()
           | Some n \<Rightarrow> pbind (atom_at context) (\<lambda>a.
               only_if (a = a_Template) (template_push InTemplateIM))),
          resetInsertionMode,
          ask (\<lambda>p. pbind (lift (form_of (brk (p_store p)) (the_mem p) context)) set_form)]
         (ret ())))"

text \<open>The document is the first node that \<open>start_fragment\<close> makes, the root the second.\<close>

definition ParseFragment ::
  "unicode \<Rightarrow> nat \<Rightarrow> reader \<Rightarrow> ptr \<Rightarrow> dom_store \<Rightarrow> ((parse_error + nat list) \<times> dom_store) go" where
  "ParseFragment u fuel r context s =
     go_bind (context_tag context (mem s)) (\<lambda>ct.
       case ct of
         Inl e \<Rightarrow> Inr (Inl e, s)
       | Inr contextTag \<Rightarrow>
           go_bind
             (acts [start_fragment context] (parse_loop fuel fuel)
               (new_parser u s (NewTokenizerFragment r contextTag)))
             (\<lambda>(err, p).
               case err of
                 Some e \<Rightarrow> Inr (Inl (ReadError e), p_store p)
               | None \<Rightarrow>
                   let parent = (if context \<noteq> None then brk s + 1 else brk s) in
                   go_bind (take_children (brk (p_store p)) parent
                       (FirstChild (the_mem p parent)) (the_mem p)) (\<lambda>(cs, m).
                     Inr (Inr cs, (p_store p)\<lparr>mem := m\<rparr>))))"

end
