(* ===== verification/Html_Parser_Invariant.thy ===== *)
theory Html_Parser_Invariant
  imports Html_Parser
begin

text \<open>
  Invariants of the parser. The locale \<open>parser_invariant\<close> lists what an invariant has to allow: the
  writes that the parser makes, to its own fields and, through the pointers it may use, to
  nodes. Then every helper, every mode, every call of any depth and the whole loop keep the
  invariant.
\<close>

section \<open>Programs that keep an invariant\<close>

definition preserves :: "(parser \<Rightarrow> bool) \<Rightarrow> 'a P \<Rightarrow> ('a \<Rightarrow> bool) \<Rightarrow> bool" where
  "preserves J c Q \<longleftrightarrow> (\<forall>p x p'. J p \<longrightarrow> c p = Inr (x, p') \<longrightarrow> J p' \<and> Q x)"

abbreviation any :: "'a \<Rightarrow> bool" where
  "any \<equiv> \<lambda>_. True"

named_theorems preserves_intro \<open>programs that keep an invariant\<close>

lemma preservesD: "preserves J c Q \<Longrightarrow> J p \<Longrightarrow> c p = Inr (x, p') \<Longrightarrow> J p' \<and> Q x"
  by (simp add: preserves_def)

lemma preserves_weaken: "preserves J c Q \<Longrightarrow> (\<And>x. Q x \<Longrightarrow> Q' x) \<Longrightarrow> preserves J c Q'"
  by (auto simp: preserves_def)

lemma preserves_any: "preserves J c Q \<Longrightarrow> preserves J c any"
  by (auto simp: preserves_def)

lemma preserves_ret: "Q x \<Longrightarrow> preserves J (ret x) Q"
  by (simp add: preserves_def ret_def)

lemma preserves_ret_any [preserves_intro]: "preserves J (ret x) any"
  by (simp add: preserves_ret)

lemma preserves_panic [preserves_intro]: "preserves J (panic e) Q"
  by (simp add: preserves_def panic_def)

lemma preserves_pbind: "preserves J c Q' \<Longrightarrow> (\<And>x. Q' x \<Longrightarrow> preserves J (f x) Q) \<Longrightarrow> preserves J (pbind c f) Q"
proof (unfold preserves_def, intro allI impI)
  fix p x p'
  assume c: "\<forall>p x p'. J p \<longrightarrow> c p = Inr (x, p') \<longrightarrow> J p' \<and> Q' x" and p: "J p" "pbind c f p = Inr (x, p')"
    and f: "\<And>x. Q' x \<Longrightarrow> \<forall>p y p'. J p \<longrightarrow> f x p = Inr (y, p') \<longrightarrow> J p' \<and> Q y"
  from p(2) obtain y q where "c p = Inr (y, q)" "f y q = Inr (x, p')" by (auto simp: pbind_def)
  with c f p(1) show "J p' \<and> Q x" by blast
qed

lemma preserves_pbind_any [preserves_intro]:
  fixes c :: "bool P"
  shows "preserves J c any \<Longrightarrow> (\<And>x. preserves J (f x) Q) \<Longrightarrow> preserves J (pbind c f) Q"
  by (rule preserves_pbind)

lemma preserves_pbind_atom [preserves_intro]:
  fixes c :: "Atom P"
  shows "preserves J c any \<Longrightarrow> (\<And>x. preserves J (f x) Q) \<Longrightarrow> preserves J (pbind c f) Q"
  by (rule preserves_pbind)

lemma preserves_ask: "(\<And>p. J p \<Longrightarrow> preserves J (f p) Q) \<Longrightarrow> preserves J (ask f) Q"
  unfolding preserves_def ask_def by blast

lemma preserves_lift: "preserves J (lift r) (\<lambda>x. r = Inr x)"
  by (auto simp: preserves_def lift_def)

lemma preserves_modify: "(\<And>p. J p \<Longrightarrow> J (f p)) \<Longrightarrow> preserves J (modify f) any"
  by (auto simp: preserves_def modify_def)

lemma preserves_void [preserves_intro]: "preserves J c any \<Longrightarrow> preserves J (void c) any"
  unfolding void_def by (rule preserves_pbind [where Q' = any]) (auto intro: preserves_ret)

lemma preserves_acts [preserves_intro]:
  "preserves J r Q \<Longrightarrow> preserves J (acts [] r) Q"
  "preserves J c any \<Longrightarrow> preserves J (acts cs r) Q \<Longrightarrow> preserves J (acts (c # cs) r) Q"
  by (auto intro: preserves_pbind)

lemma preserves_acts_map: "(\<And>x. preserves J (c x) any) \<Longrightarrow> preserves J r Q \<Longrightarrow> preserves J (acts (map c xs) r) Q"
  by (induction xs) (auto intro: preserves_pbind)

lemma preserves_only_if [preserves_intro]: "preserves J c any \<Longrightarrow> preserves J (only_if b c) any"
  by (simp add: only_if_def preserves_ret)

lemma preserves_if [preserves_intro]:
  "(b \<Longrightarrow> preserves J c Q) \<Longrightarrow> (\<not> b \<Longrightarrow> preserves J d Q) \<Longrightarrow> preserves J (if b then c else d) Q"
  by simp

lemma preserves_with_tok [preserves_intro]: "(\<And>t. preserves J (f t) Q) \<Longrightarrow> preserves J (with_tok f) Q"
  unfolding with_tok_def by (rule preserves_ask)

lemma preserves_case_TokenType [preserves_intro]:
  "preserves J c1 Q \<Longrightarrow> preserves J c2 Q \<Longrightarrow> preserves J c3 Q \<Longrightarrow> preserves J c4 Q \<Longrightarrow> preserves J c5 Q \<Longrightarrow> preserves J c6 Q \<Longrightarrow>
   preserves J c7 Q \<Longrightarrow>
   preserves J (case t of ErrorToken \<Rightarrow> c1 | TextToken \<Rightarrow> c2 | StartTagToken \<Rightarrow> c3 | EndTagToken \<Rightarrow> c4
     | SelfClosingTagToken \<Rightarrow> c5 | CommentToken \<Rightarrow> c6 | DoctypeToken \<Rightarrow> c7) Q"
  by (cases t) simp_all

section \<open>What the loops over the stacks return\<close>

lemma go_index_mem: "go_index xs i = Inr x \<Longrightarrow> x \<in> set xs"
  by (auto simp: go_index_Inr_iff)

lemma go_store_subset: "go_store xs i v = Inr ys \<Longrightarrow> set ys \<subseteq> insert v (set xs)"
  by (auto simp: go_store_Inr_iff dest: set_update_subset_insert [THEN subsetD])

lemma stack_pop_mem: "stack_pop s = Inr (n, s') \<Longrightarrow> n \<in> set s \<and> set s' \<subseteq> set s"
  by (auto simp: stack_pop_def dest: go_index_mem in_set_takeD)

lemma stack_remove_subset: "set (stack_remove nil s n) \<subseteq> set s"
proof (cases "n \<in> set s")
  case True
  then obtain xs ys where "s = xs @ n # ys" "n \<notin> set ys" by (meson split_list_last)
  then show ?thesis using stack_remove_spec [of n ys nil xs] by auto
qed (simp add: stack_remove_absent)

lemma stack_insert_subset:
  assumes "stack_insert nil s i n = Inr s'"
  shows "set s' \<subseteq> insert n (set s)"
proof -
  have "i \<le> length s" using assms by (auto simp: stack_insert_def Let_def split: if_splits)
  then have "stack_insert nil (take i s @ drop i s) (length (take i s)) n = Inr (take i s @ n # drop i s)"
    by (intro stack_insert_spec)
  with assms \<open>i \<le> length s\<close> have "s' = take i s @ n # drop i s" by (simp add: min_absorb2)
  then show ?thesis by (auto dest: in_set_takeD in_set_dropD)
qed

lemma insert_at_subset: "insert_at s i n = Inr s' \<Longrightarrow> set s' \<subseteq> insert n (set s)"
  by (simp add: insert_at_def stack_insert_subset split: if_splits)

lemma clear_loop_subset: "clear_loop i s m oe = Inr oe' \<Longrightarrow> set oe' \<subseteq> set oe"
  by (induction i s m oe rule: clear_loop.induct)
    (auto simp: Let_def split: option.splits if_splits scope.splits dest: in_set_takeD)

lemma atom_index_range: "atom_index k a m oe = Inr i \<Longrightarrow> i \<noteq> -1 \<Longrightarrow> 0 \<le> i \<and> i < int k"
  by (induction k a m oe rule: atom_index.induct) (auto split: option.splits if_splits)

lemma ark_loop_subset: "ark_loop k n a as m afe = Inr afe' \<Longrightarrow> set afe' \<subseteq> set afe"
proof (induction k n a as m afe rule: ark_loop.induct)
  case (2 i identical tagAtom as m afe)
  then show ?case
    using stack_remove_subset [of None afe] by (auto split: option.splits if_splits) blast+
qed simp

lemma clear_afe_subset: "clear_afe m afe = Inr afe' \<Longrightarrow> set afe' \<subseteq> set afe"
proof (induction m afe rule: clear_afe.induct)
  case (1 m afe)
  obtain n s where s: "stack_pop afe = Inr (n, s)"
    using "1.prems" unfolding clear_afe.simps [of m afe] by auto
  then have "set afe' \<subseteq> set s"
    using "1.prems" "1.IH" [OF s refl] unfolding clear_afe.simps [of m afe]
    by (auto split: if_splits option.splits)
  with stack_pop_mem [OF s] show ?case by blast
qed

lemma end_other_loop_subset: "end_other_loop i a m oe = Inr oe' \<Longrightarrow> set oe' \<subseteq> set oe"
  by (induction i a m oe rule: end_other_loop.induct)
    (auto split: option.splits if_splits dest: in_set_takeD)

lemma close_item_subset: "close_item as i m oe = Inr oe' \<Longrightarrow> set oe' \<subseteq> set oe"
  by (induction as i m oe rule: close_item.induct)
    (auto split: option.splits if_splits dest: in_set_takeD)

lemma breakout_loop_subset: "breakout_loop i m oe = Inr oe' \<Longrightarrow> set oe' \<subseteq> set oe"
  by (induction i m oe rule: breakout_loop.induct)
    (auto split: option.splits if_splits dest: in_set_takeD)

lemma foreign_end_loop_subset: "foreign_end_loop i P m oe = Inr (Some oe') \<Longrightarrow> set oe' \<subseteq> set oe"
  by (induction i P m oe rule: foreign_end_loop.induct)
    (auto split: option.splits if_splits dest: in_set_takeD)

lemma pop_through_subset: "pop_through fe oe = Inr oe' \<Longrightarrow> set oe' \<subseteq> set oe"
proof (induction fe oe rule: pop_through.induct)
  case (1 fe oe)
  obtain n s where s: "stack_pop oe = Inr (n, s)"
    using "1.prems" unfolding pop_through.simps [of fe oe] by auto
  then have "set oe' \<subseteq> set s"
    using "1.prems" "1.IH" [OF s refl] unfolding pop_through.simps [of fe oe] by (auto split: if_splits)
  with stack_pop_mem [OF s] show ?case by blast
qed

lemma first_special_mem: "first_special m oe = Inr e \<Longrightarrow> e = None \<or> e \<in> set oe"
  by (induction m oe rule: first_special.induct) (auto split: option.splits if_splits)

lemma find_afe_found:
  "find_afe k P m afe = Inr n \<Longrightarrow> k \<le> length afe \<Longrightarrow>
   n = None \<or> (\<exists>x. n = Some x \<and> n \<in> set afe \<and> NType (m x) \<noteq> ScopeMarkerNode)"
  by (induction k P m afe rule: find_afe.induct) (auto split: option.splits if_splits dest: nth_mem)

section \<open>The interface of an invariant\<close>

abbreviation with_mem :: "parser \<Rightarrow> memory \<Rightarrow> parser" where
  "with_mem p m \<equiv> p\<lparr>p_store := (p_store p)\<lparr>mem := m\<rparr>\<rparr>"

text \<open>An update of a node that leaves its pointers alone, and a node without pointers.\<close>

definition payload_only :: "(Node \<Rightarrow> Node) \<Rightarrow> bool" where
  "payload_only f \<longleftrightarrow> (\<forall>x. Parent (f x) = Parent x \<and> FirstChild (f x) = FirstChild x \<and>
     LastChild (f x) = LastChild x \<and> PrevSibling (f x) = PrevSibling x \<and> NextSibling (f x) = NextSibling x)"

definition no_links :: "Node \<Rightarrow> bool" where
  "no_links x \<longleftrightarrow> Parent x = None \<and> FirstChild x = None \<and> LastChild x = None \<and> PrevSibling x = None \<and>
     NextSibling x = None"

lemma no_links_new [simp]:
  "no_links (text_node s)" "no_links (comment_node s)" "no_links (element_node a s as)"
  "no_links (fst (parseDoctype u s))"
  by (simp_all add: no_links_def text_node_def comment_node_def element_node_def parseDoctype_def Let_def
      new_Node_def split: prod.splits)

lemma clone_fresh:
  "\<exists>nd. no_links nd \<and> clone a s = (brk s, \<lparr>mem = (mem s)(brk s := nd), brk = Suc (brk s)\<rparr>)"
  unfolding clone_def Let_def
  by (rule exI, rule conjI [rotated], rule refl) (simp add: no_links_def new_Node_def)

text \<open>
  \<open>I F\<close> is the invariant, where \<open>F\<close> is a form that the parser may know of but not write to.
  \<open>okp\<close> are the pointers that may be written through, \<open>oka\<close> those that may be active
  formatting elements.
\<close>

locale parser_invariant =
  fixes I :: "ptr \<Rightarrow> parser \<Rightarrow> bool" and okp :: "ptr \<Rightarrow> bool" and oka :: "ptr \<Rightarrow> bool"
  assumes nil: "okp None" and okp_oka: "okp x \<Longrightarrow> oka x" and oka_marker: "oka (Some marker)"
    and other_fields: "I F p \<Longrightarrow> p_store q = p_store p \<Longrightarrow> p_doc q = p_doc p \<Longrightarrow> p_oe q = p_oe p \<Longrightarrow>
      p_afe q = p_afe p \<Longrightarrow> p_head q = p_head p \<Longrightarrow> p_form q = p_form p \<Longrightarrow> I F q"
    and doc_ok: "I F p \<Longrightarrow> okp (p_doc p)" and head_ok: "I F p \<Longrightarrow> okp (p_head p)"
    and oe_ok: "I F p \<Longrightarrow> x \<in> set (p_oe p) \<Longrightarrow> okp x"
    and afe_ok: "I F p \<Longrightarrow> x \<in> set (p_afe p) \<Longrightarrow> oka x"
    and element_ok: "I F p \<Longrightarrow> oka (Some a) \<Longrightarrow> NType (the_mem p a) \<noteq> ScopeMarkerNode \<Longrightarrow> okp (Some a)"
    and no_form: "I F p \<Longrightarrow> p_form p = None \<Longrightarrow> I None p" and any_form: "I None p \<Longrightarrow> I F p"
    and form_ok: "I None p \<Longrightarrow> okp (p_form p)"
    and oe_law: "I F p \<Longrightarrow> \<forall>x \<in> set s. okp x \<Longrightarrow> I F (p\<lparr>p_oe := s\<rparr>)"
    and afe_law: "I F p \<Longrightarrow> \<forall>x \<in> set s. oka x \<Longrightarrow> I F (p\<lparr>p_afe := s\<rparr>)"
    and head_law: "I F p \<Longrightarrow> okp x \<Longrightarrow> I F (p\<lparr>p_head := x\<rparr>)"
    and form_law: "I F p \<Longrightarrow> okp x \<Longrightarrow> I F (p\<lparr>p_form := x\<rparr>)"
    and links_ok: "I F p \<Longrightarrow> okp (Some a) \<Longrightarrow> okp (Parent (the_mem p a)) \<and> okp (FirstChild (the_mem p a)) \<and>
      okp (LastChild (the_mem p a)) \<and> okp (PrevSibling (the_mem p a)) \<and> okp (NextSibling (the_mem p a))"
    and payload_law: "I F p \<Longrightarrow> okp (Some a) \<Longrightarrow> payload_only f \<Longrightarrow> I F (with_mem p (upd a f (the_mem p)))"
    and alloc_law: "I F p \<Longrightarrow> no_links nd \<Longrightarrow> okp (Some (brk (p_store p))) \<and>
      I F (p\<lparr>p_store := \<lparr>mem = (the_mem p)(brk (p_store p) := nd), brk = Suc (brk (p_store p))\<rparr>\<rparr>)"
    and append_law: "I F p \<Longrightarrow> okp (Some n) \<Longrightarrow> okp (Some c) \<Longrightarrow> AppendChild n c (the_mem p) = Inr m \<Longrightarrow>
      I F (with_mem p m)"
    and insert_law: "I F p \<Longrightarrow> okp (Some n) \<Longrightarrow> okp (Some c) \<Longrightarrow> okp old \<Longrightarrow>
      InsertBefore n c old (the_mem p) = Inr m \<Longrightarrow> I F (with_mem p m)"
    and remove_law: "I F p \<Longrightarrow> okp (Some n) \<Longrightarrow> okp (Some c) \<Longrightarrow> RemoveChild n c (the_mem p) = Inr m \<Longrightarrow>
      I F (with_mem p m)"
begin

section \<open>Nodes and fields\<close>

lemma preserves_set [preserves_intro]:
  "preserves (I F) (set_im i) any" "preserves (I F) (set_framesetOK b) any" "preserves (I F) (set_foster b) any"
  "preserves (I F) (set_tok g) any" "preserves (I F) acknowledgeSelfClosingTag any"
  "preserves (I F) (template_push i) any"
  unfolding set_im_def set_framesetOK_def set_foster_def set_tok_def acknowledgeSelfClosingTag_def
    template_push_def
  by (rule preserves_modify, erule other_fields, simp_all)+

lemma preserves_modify_other:
  "(\<And>p. p_store (g p) = p_store p \<and> p_doc (g p) = p_doc p \<and> p_oe (g p) = p_oe p \<and>
      p_afe (g p) = p_afe p \<and> p_head (g p) = p_head p \<and> p_form (g p) = p_form p) \<Longrightarrow>
   preserves (I F) (modify g) any"
  by (rule preserves_modify) (auto intro: other_fields)

lemma preserves_template_pop [preserves_intro]: "preserves (I F) template_pop any"
  unfolding template_pop_def
  by (intro preserves_ask preserves_pbind [OF preserves_lift]) (auto intro: preserves_modify_other)

lemma preserves_set_oe: "\<forall>x \<in> set s. okp x \<Longrightarrow> preserves (I F) (set_oe s) any"
  unfolding set_oe_def by (intro preserves_modify) (rule oe_law)

lemma preserves_set_afe: "\<forall>x \<in> set s. oka x \<Longrightarrow> preserves (I F) (set_afe s) any"
  unfolding set_afe_def by (intro preserves_modify) (rule afe_law)

lemma preserves_set_form: "okp n \<Longrightarrow> preserves (I F) (set_form n) any"
  unfolding set_form_def by (intro preserves_modify) (rule form_law)

text \<open>A part of the stack, or of the list, can replace it.\<close>

lemma preserves_oe_subset: "I F p \<Longrightarrow> set s \<subseteq> set (p_oe p) \<Longrightarrow> preserves (I F) (set_oe s) any"
  using oe_ok by (intro preserves_set_oe) blast

lemma preserves_afe_subset: "I F p \<Longrightarrow> set s \<subseteq> set (p_afe p) \<Longrightarrow> preserves (I F) (set_afe s) any"
  using afe_ok by (intro preserves_set_afe) blast

lemma preserves_oe_take: "I F p \<Longrightarrow> preserves (I F) (set_oe (take k (p_oe p))) any"
  by (erule preserves_oe_subset) (auto dest: in_set_takeD)

lemma preserves_oe_pop: "preserves (I F) oe_pop okp"
  unfolding oe_pop_def
proof (intro preserves_ask preserves_pbind [OF preserves_lift], clarify)
  fix p n s assume p: "I F p" and "stack_pop (p_oe p) = Inr (n, s)"
  then have "n \<in> set (p_oe p)" "set s \<subseteq> set (p_oe p)"
    using stack_pop_mem [of "p_oe p" n s] by simp_all
  with p show "preserves (I F) (acts [set_oe s] (ret n)) okp"
    by (intro preserves_intro preserves_ret preserves_oe_subset) (auto intro: oe_ok)
qed

lemma preserves_oe_remove [preserves_intro]: "preserves (I F) (oe_remove n) any"
  unfolding oe_remove_def by (rule preserves_ask) (erule preserves_oe_subset, rule stack_remove_subset)

lemma preserves_afe_remove [preserves_intro]: "preserves (I F) (afe_remove n) any"
  unfolding afe_remove_def by (rule preserves_ask) (erule preserves_afe_subset, rule stack_remove_subset)

lemma preserves_afe_push: "oka n \<Longrightarrow> preserves (I F) (afe_push n) any"
  unfolding afe_push_def by (rule preserves_ask, rule preserves_set_afe) (auto intro: afe_ok)

lemma preserves_marker [preserves_intro]: "preserves (I F) (afe_push (Some marker)) any"
  by (rule preserves_afe_push) (rule oka_marker)

lemma preserves_pop_any [preserves_intro]: "preserves (I F) (void oe_pop) any"
  by (intro preserves_void preserves_any [OF preserves_oe_pop])

lemma preserves_read [preserves_intro]:
  "preserves (I F) (lift r) any" "preserves (I F) (node_at n) any" "preserves (I F) (atom_at n) any" "preserves (I F) top_atom any"
  "preserves (I F) (oe_contains a) any" "preserves (I F) (indexOfElementInScope s ts) any" "preserves (I F) top_node any"
  "preserves (I F) (elementInScope s ts) any"
  by (auto simp: preserves_def lift_def node_at_def atom_at_def top_atom_def oe_contains_def top_node_def
      indexOfElementInScope_def elementInScope_def pbind_def ask_def ret_def split: option.splits)

lemma oe_top_ok: "I F p \<Longrightarrow> okp (oe_top p)"
  using nil oe_ok by (auto simp: oe_top_def stack_top_def)

lemma parser_top_ok: "I F p \<Longrightarrow> okp (parser_top p)"
  using doc_ok oe_top_ok [of F p] by (auto simp: parser_top_def split: option.splits)

text \<open>What is read through a good pointer has good pointers.\<close>

lemma preserves_node_at:
  "okp n \<Longrightarrow> preserves (I F) (node_at n) (\<lambda>x. okp (Parent x) \<and> okp (LastChild x) \<and> okp (PrevSibling x))"
  by (auto simp: preserves_def node_at_def split: option.splits dest: links_ok)

lemma preserves_set_node: "okp n \<Longrightarrow> payload_only g \<Longrightarrow> preserves (I F) (set_node n g) any"
  by (auto simp: preserves_def set_node_def split: option.splits intro: payload_law)

lemma preserves_alloc: "no_links x \<Longrightarrow> preserves (I F) (alloc x) okp"
  by (auto simp: preserves_def alloc_def dest: alloc_law)

lemma preserves_append_child: "okp n \<Longrightarrow> okp c \<Longrightarrow> preserves (I F) (append_child n c) any"
  by (auto simp: preserves_def append_child_def in_mem_def panic_def split: option.splits intro: append_law)

lemma preserves_insert_before: "okp n \<Longrightarrow> okp c \<Longrightarrow> okp old \<Longrightarrow> preserves (I F) (insert_before n c old) any"
  by (auto simp: preserves_def insert_before_def in_mem_def panic_def split: option.splits intro: insert_law)

lemma preserves_detach: "okp n \<Longrightarrow> preserves (I F) (detach n) any"
  unfolding detach_def preserves_def
  by (auto simp: ask_def in_mem_def panic_def ret_def split: option.splits intro: remove_law dest: links_ok)
    (metis links_ok remove_law)

lemma preserves_clone_node: "preserves (I F) (clone_node n) okp"
proof (cases n)
  case (Some a)
  show ?thesis
    unfolding preserves_def
  proof (intro allI impI)
    fix p c p' assume p: "I F p" and "clone_node n p = Inr (c, p')"
    moreover obtain nd where "no_links nd"
      "clone a (p_store p) = (brk (p_store p), \<lparr>mem = (the_mem p)(brk (p_store p) := nd), brk = Suc (brk (p_store p))\<rparr>)"
      using clone_fresh by blast
    ultimately show "I F p' \<and> okp c" using alloc_law [OF p] Some by (auto simp: clone_node_def)
  qed
qed (simp add: preserves_def clone_node_def)

section \<open>The stack of open elements\<close>

lemma preserves_stack [preserves_intro]:
  "preserves (I F) (popUntil s ts) any" "preserves (I F) (clearStackToContext s) any"
  "preserves (I F) (generateImpliedEndTags es) any" "preserves (I F) generateAllImpliedEndTags any"
  "preserves (I F) (inBodyEndTagOther a) any"
proof -
  show "preserves (I F) (popUntil s ts) any"
    unfolding popUntil_def
    by (rule preserves_pbind [where Q' = any]) (intro preserves_intro preserves_ask preserves_oe_take | assumption)+
  show "preserves (I F) (clearStackToContext s) any"
    unfolding clearStackToContext_def
    by (intro preserves_ask preserves_pbind [OF preserves_lift]) (erule preserves_oe_subset, erule clear_loop_subset)
  show "preserves (I F) (generateImpliedEndTags es) any" "preserves (I F) generateAllImpliedEndTags any"
    unfolding generateImpliedEndTags_def generateAllImpliedEndTags_def
    by (intro preserves_ask preserves_pbind [OF preserves_lift] preserves_oe_take, assumption)+
  show "preserves (I F) (inBodyEndTagOther a) any"
    unfolding inBodyEndTagOther_def
    by (intro preserves_ask preserves_pbind [OF preserves_lift]) (erule preserves_oe_subset, erule end_other_loop_subset)
qed

lemma preserves_shouldFosterParent [preserves_intro]: "preserves (I F) shouldFosterParent any"
  unfolding shouldFosterParent_def by (intro preserves_ask preserves_intro)

lemma preserves_foster_parent_of:
  assumes "okp t"
  shows "preserves (I F) (foster_parent_of i t) okp"
  unfolding foster_parent_of_def
proof (rule preserves_ask, rule preserves_pbind [where Q' = okp])
  fix p assume p: "I F p"
  have idx: "preserves (I F) (lift (go_index (p_oe p) j)) okp" for j
    by (rule preserves_weaken [OF preserves_lift]) (auto intro: oe_ok [OF p] dest: go_index_mem)
  show "preserves (I F) (case t of None \<Rightarrow> lift (go_index (p_oe p) 0) | Some x \<Rightarrow> ret (Parent (the_mem p x))) okp"
    using assms idx links_ok [OF p] by (cases t) (auto intro: preserves_ret)
  show "preserves (I F) (if x = None then lift (go_index (p_oe p) (i - 1)) else ret x) okp" if "okp x" for x
    using that idx by (auto intro: preserves_ret)
qed

lemma payload_only_Data: "payload_only (\<lambda>x. x\<lparr>Data := h x\<rparr>)"
  by (simp add: payload_only_def)

lemma payload_only_Attr: "payload_only (\<lambda>x. x\<lparr>Attr := k x\<rparr>)"
  by (simp add: payload_only_def)

lemma payload_only_Namespace: "payload_only (\<lambda>x. x\<lparr>Namespace := s\<rparr>)"
  by (simp add: payload_only_def)

lemma preserves_fosterParent:
  assumes n: "okp n"
  shows "preserves (I F) (fosterParent n) any"
  unfolding fosterParent_def Let_def
proof (rule preserves_ask, rule preserves_pbind [OF preserves_lift], rule preserves_pbind [OF preserves_lift])
  fix p i j
  assume p: "I F p" and i: "atom_index (length (p_oe p)) a_Table (the_mem p) (p_oe p) = Inr i"
    and j: "atom_index (length (p_oe p)) a_Template (the_mem p) (p_oe p) = Inr j"
  define table where "table = (if i = -1 then None else p_oe p ! nat i)"
  define template where "template = (if j = -1 then None else p_oe p ! nat j)"
  have t: "okp table" "okp template"
    using atom_index_range [OF i] atom_index_range [OF j] nil oe_ok [OF p]
    by (auto simp: table_def template_def)
  have rest: "preserves (I F)
      (pbind (foster_parent_of i table) (\<lambda>parent.
        pbind (case table of None \<Rightarrow> pbind (node_at parent) (\<lambda>x. ret (LastChild x))
               | Some x \<Rightarrow> ret (PrevSibling (the_mem p x))) (\<lambda>prev.
          case prev of None \<Rightarrow> insert_before parent n table
          | Some _ \<Rightarrow> pbind (node_at prev) (\<lambda>px.
              if NType px = TextNode
              then pbind (node_at n) (\<lambda>nx. if NType nx = TextNode
                then set_node prev (\<lambda>x. x\<lparr>Data := Data x @ Data nx\<rparr>) else insert_before parent n table)
              else insert_before parent n table)))) any"
  proof (rule preserves_pbind [OF preserves_foster_parent_of [OF t(1)]], rule preserves_pbind [where Q' = okp])
    fix parent assume parent: "okp parent"
    have "preserves (I F) (pbind (node_at parent) (\<lambda>x. ret (LastChild x))) okp"
      by (rule preserves_pbind [OF preserves_node_at [OF parent]]) (auto intro: preserves_ret)
    with t(1) links_ok [OF p] show "preserves (I F) (case table of
        None \<Rightarrow> pbind (node_at parent) (\<lambda>x. ret (LastChild x)) | Some x \<Rightarrow> ret (PrevSibling (the_mem p x))) okp"
      by (cases table) (auto intro: preserves_ret)
    fix prev assume prev: "okp prev"
    have ins: "preserves (I F) (insert_before parent n table) any"
      by (rule preserves_insert_before [OF parent n t(1)])
    have "preserves (I F) (set_node prev (\<lambda>x. x\<lparr>Data := Data x @ Data nx\<rparr>)) any" for nx
      by (rule preserves_set_node [OF prev payload_only_Data])
    with ins show "preserves (I F) (case prev of None \<Rightarrow> insert_before parent n table
        | Some _ \<Rightarrow> pbind (node_at prev) (\<lambda>px. if NType px = TextNode
            then pbind (node_at n) (\<lambda>nx. if NType nx = TextNode
              then set_node prev (\<lambda>x. x\<lparr>Data := Data x @ Data nx\<rparr>) else insert_before parent n table)
            else insert_before parent n table)) any"
      by (cases prev) (auto intro!: preserves_pbind [where Q' = any] preserves_read)
  qed
  show "preserves (I F) (if (if j = -1 then None else p_oe p ! nat j) \<noteq> None \<and>
        ((if i = -1 then None else p_oe p ! nat i) = None \<or> j < i)
      then append_child (if j = -1 then None else p_oe p ! nat j) n
      else pbind (foster_parent_of i (if i = -1 then None else p_oe p ! nat i)) (\<lambda>parent.
        pbind (case if i = -1 then None else p_oe p ! nat i of
                 None \<Rightarrow> pbind (node_at parent) (\<lambda>x. ret (LastChild x))
               | Some x \<Rightarrow> ret (PrevSibling (the_mem p x))) (\<lambda>prev.
          case prev of None \<Rightarrow> insert_before parent n (if i = -1 then None else p_oe p ! nat i)
          | Some _ \<Rightarrow> pbind (node_at prev) (\<lambda>px.
              if NType px = TextNode
              then pbind (node_at n) (\<lambda>nx. if NType nx = TextNode
                then set_node prev (\<lambda>x. x\<lparr>Data := Data x @ Data nx\<rparr>)
                else insert_before parent n (if i = -1 then None else p_oe p ! nat i))
              else insert_before parent n (if i = -1 then None else p_oe p ! nat i))))) any"
    unfolding table_def [symmetric] template_def [symmetric]
    using rest by (intro preserves_if preserves_append_child t n)
qed

lemma preserves_addChild:
  assumes "okp n"
  shows "preserves (I F) (addChild n) any"
  unfolding addChild_def
proof (rule preserves_pbind_any [OF preserves_shouldFosterParent], intro preserves_acts preserves_if preserves_ret_any)
  show "preserves (I F) (fosterParent n) any" using assms by (rule preserves_fosterParent)
  show "preserves (I F) (ask (\<lambda>p. append_child (parser_top p) n)) any"
    using assms by (intro preserves_ask preserves_append_child parser_top_ok)
  show "preserves (I F) (pbind (node_at n) (\<lambda>x. only_if (NType x = ElementNode) (ask (\<lambda>p. set_oe (p_oe p @ [n]))))) any"
    by (rule preserves_pbind [where Q' = any], rule preserves_read, intro preserves_only_if preserves_ask preserves_set_oe)
      (use assms in \<open>auto intro: oe_ok\<close>)
qed

lemma preserves_add_new [preserves_intro]: "no_links nd \<Longrightarrow> preserves (I F) (pbind (alloc nd) addChild) any"
  by (rule preserves_pbind [OF preserves_alloc preserves_addChild])

lemma preserves_append_new: "no_links nd \<Longrightarrow> okp n \<Longrightarrow> preserves (I F) (pbind (alloc nd) (append_child n)) any"
  by (rule preserves_pbind [OF preserves_alloc preserves_append_child])

lemma preserves_adding [preserves_intro]:
  "preserves (I F) (addText t) any" "preserves (I F) add_comment any" "preserves (I F) addElement any"
  "preserves (I F) doc_comment any"
proof -
  have "preserves (I F) (case LastChild x of None \<Rightarrow> pbind (alloc (text_node t)) addChild
      | Some _ \<Rightarrow> pbind (node_at (LastChild x)) (\<lambda>l. if NType l = TextNode
          then set_node (LastChild x) (\<lambda>y. y\<lparr>Data := Data y @ t\<rparr>)
          else pbind (alloc (text_node t)) addChild)) any" if "okp (LastChild x)" for x
    using preserves_add_new [of "text_node t"] preserves_set_node [OF that payload_only_Data]
    by (auto split: option.split intro!: preserves_pbind [where Q' = any] preserves_read)
  moreover have "preserves (I F) top_node (\<lambda>x. okp (LastChild x))"
    unfolding top_node_def
    by (rule preserves_ask, rule preserves_weaken [OF preserves_node_at [OF parser_top_ok]]) auto
  moreover have "preserves (I F) (pbind (alloc (text_node t)) fosterParent) any"
    by (rule preserves_pbind [OF preserves_alloc preserves_fosterParent]) simp
  ultimately show "preserves (I F) (addText t) any"
    unfolding addText_def Let_def
    by (intro preserves_if preserves_ret_any preserves_pbind_any [OF preserves_shouldFosterParent]) (auto intro: preserves_pbind)
  show "preserves (I F) add_comment any" "preserves (I F) addElement any"
    unfolding add_comment_def addElement_def Let_def by (intro preserves_ask preserves_add_new no_links_new)+
  show "preserves (I F) doc_comment any"
    unfolding doc_comment_def by (intro preserves_ask preserves_append_new no_links_new doc_ok)
qed

end

end
