(* ===== verification/Html_Parser_Sweep.thy ===== *)
theory Html_Parser_Sweep
  imports Html_Parser_Invariant
begin

text \<open>
  Every mode, every call and the whole loop of the parser keep any invariant that fulfils
  \<open>parser_invariant\<close>.
\<close>

section \<open>Formatting elements\<close>

context parser_invariant begin

lemma preserves_afe_store: "I F p \<Longrightarrow> oka c \<Longrightarrow> go_store (p_afe p) i c = Inr s \<Longrightarrow> preserves (I F) (set_afe s) any"
  by (rule preserves_set_afe) (use afe_ok in \<open>auto dest!: go_store_subset\<close>)

lemma preserves_oe_store: "I F p \<Longrightarrow> okp c \<Longrightarrow> go_store (p_oe p) i c = Inr s \<Longrightarrow> preserves (I F) (set_oe s) any"
  by (rule preserves_set_oe) (use oe_ok in \<open>auto dest!: go_store_subset\<close>)

lemma preserves_ark:
  "I F p \<Longrightarrow> preserves (I F) (pbind (lift (ark_loop k i a as (the_mem p) (p_afe p))) set_afe) any"
  by (rule preserves_pbind [OF preserves_lift], erule preserves_afe_subset, erule ark_loop_subset)

lemma preserves_addFormattingElement [preserves_intro]: "preserves (I F) addFormattingElement any"
  unfolding addFormattingElement_def Let_def
  by (intro preserves_ask preserves_intro) (auto intro: preserves_ark preserves_afe_push okp_oka parser_top_ok)

lemma preserves_clearActiveFormattingElements [preserves_intro]: "preserves (I F) clearActiveFormattingElements any"
  unfolding clearActiveFormattingElements_def
  by (intro preserves_ask preserves_pbind [OF preserves_lift]) (erule preserves_afe_subset, erule clear_afe_subset)

lemma preserves_recon_clone: "preserves (I F) (recon_clone i) any"
  unfolding recon_clone_def
  by (intro preserves_ask preserves_pbind [OF preserves_lift] preserves_pbind [OF preserves_clone_node] preserves_acts preserves_addChild
      preserves_ret_any) (auto intro: preserves_afe_store okp_oka)

lemma preserves_reconstruct [preserves_intro]: "preserves (I F) reconstructActiveFormattingElements any"
proof -
  have "preserves (I F) (acts (map recon_clone is) (ret ())) any" for "is"
    by (intro preserves_acts_map preserves_recon_clone preserves_ret_any)
  then show ?thesis
    unfolding reconstructActiveFormattingElements_def
    by (intro preserves_ask) (auto split: option.splits intro!: preserves_pbind_any preserves_read preserves_ret
        preserves_pbind [where Q' = any] simp del: recon_start.simps)
qed

section \<open>The adoption agency algorithm\<close>

lemma reparent_law:
  assumes p: "I F p" and ok: "okp (Some d)" "okp (Some s)" and "reparentChildren d s (the_mem p) = Some (Inr m)"
  shows "I F (with_mem p m)"
proof -
  let ?P = "\<lambda>d' s' m0 (r :: memory go). d' = d \<longrightarrow> s' = s \<longrightarrow> I F (with_mem p m0) \<longrightarrow> (\<forall>m'. r = Inr m' \<longrightarrow> I F (with_mem p m'))"
  have step: "?P d' s' m0 r" if IH: "\<And>d' s' m0 r. f d' s' m0 = Some r \<Longrightarrow> ?P d' s' m0 r"
    and f: "(case FirstChild (m0 s') of None \<Rightarrow> Some (Inr m0) | Some child \<Rightarrow>
        case RemoveChild s' child m0 of Inl e \<Rightarrow> Some (Inl e) | Inr m1 \<Rightarrow>
        case AppendChild d' child m1 of Inl e \<Rightarrow> Some (Inl e) | Inr m2 \<Rightarrow> f d' s' m2) = Some r" for f d' s' m0 r
  proof (intro impI allI)
    fix m'
    assume ds: "d' = d" "s' = s" and r: "r = Inr m'" and I0: "I F (with_mem p m0)"
    show "I F (with_mem p m')"
    proof (cases "FirstChild (m0 s)")
      case (Some c)
      have c: "okp (Some c)" using links_ok [OF I0 ok(2)] Some by simp
      obtain m1 m2 where m: "RemoveChild s c m0 = Inr m1" "AppendChild d c m1 = Inr m2" "f d s m2 = Some r"
        using f Some ds r by (auto split: sum.splits)
      have "I F (with_mem p m1)" using remove_law [OF I0 ok(2) c, of m1] m(1) by simp
      then have "I F (with_mem p m2)" using append_law [OF _ ok(1) c, of F "with_mem p m1" m2] m(2) by simp
      with IH [OF m(3)] r show ?thesis by simp
    qed (use f ds r I0 in auto)
  qed
  have "?P d s (the_mem p) (Inr m)"
    by (rule reparentChildren.raw_induct [of ?P, rotated], rule assms(4), rule step)
  with p show ?thesis by simp
qed

lemma preserves_reparent: "okp d \<Longrightarrow> okp s \<Longrightarrow> preserves (I F) (reparent_children d s) any"
  by (auto simp: preserves_def reparent_children_def in_mem_def panic_def split: option.splits intro: reparent_law)

lemma preserves_adoption_inner:
  "okp l \<Longrightarrow> preserves (I F) (adoption_inner j fe fb x l b) (\<lambda>(l', _). okp l')"
proof (induction j arbitrary: x l b)
  case 0
  then show ?case by (simp add: preserves_ret)
next
  case (Suc j)
  show ?case
    unfolding adoption_inner.simps Let_def
    using Suc
    by (intro preserves_ask preserves_pbind [OF preserves_lift] preserves_if preserves_pbind [OF preserves_clone_node] preserves_acts
        preserves_oe_remove)
      (auto intro: preserves_detach preserves_append_child preserves_ret preserves_afe_store preserves_oe_store okp_oka)
qed

lemma preserves_adopt: "okp a \<Longrightarrow> okp l \<Longrightarrow> preserves (I F) (adopt a l) any"
  unfolding adopt_def
  by (intro preserves_acts preserves_detach preserves_pbind [OF preserves_node_at] preserves_if preserves_fosterParent
      preserves_append_child) (auto split: if_splits)

lemma preserves_insert_at:
  "I F p \<Longrightarrow> okp c \<Longrightarrow> insert_at (p_oe p) i c = Inr s \<Longrightarrow> preserves (I F) (set_oe s) any"
  "I F p \<Longrightarrow> oka c \<Longrightarrow> insert_at (stack_remove None (p_afe p) fe) i c = Inr s \<Longrightarrow> preserves (I F) (set_afe s) any"
proof -
  show "preserves (I F) (set_oe s) any" if "I F p" "okp c" "insert_at (p_oe p) i c = Inr s"
    using that oe_ok insert_at_subset by (intro preserves_set_oe) blast
  show "preserves (I F) (set_afe s) any" if "I F p" "oka c" "insert_at (stack_remove None (p_afe p) fe) i c = Inr s"
    using that afe_ok insert_at_subset [OF that(3)] stack_remove_subset [of None "p_afe p" fe]
    by (intro preserves_set_afe) blast
qed

lemma preserves_replace_formatting: "okp fb \<Longrightarrow> preserves (I F) (replace_formatting fe fb b) any"
  unfolding replace_formatting_def Let_def
  by (intro preserves_pbind [OF preserves_clone_node] preserves_acts preserves_reparent preserves_append_child preserves_oe_remove preserves_ask
      preserves_pbind [OF preserves_lift] preserves_ret_any) (auto intro: preserves_insert_at okp_oka)

lemma preserves_adoption_round [preserves_intro]: "preserves (I F) (adoption_round a) any"
  unfolding adoption_round_def Let_def
proof (intro preserves_ask preserves_pbind [OF preserves_lift] preserves_if preserves_acts preserves_ret_any preserves_stack preserves_afe_remove
    preserves_pbind_any [OF preserves_read(8)])
  fix p fe fb
  assume p: "I F p"
  show "preserves (I F) (set_oe x) any" if "pop_through fe (p_oe p) = Inr x" for x
    by (rule preserves_oe_subset [OF p pop_through_subset [OF that]])
  fix ca
  assume fb: "first_special (the_mem p) (drop (nat (stack_index (p_oe p) fe)) (p_oe p)) = Inr fb"
    and ca: "go_index (p_oe p) (stack_index (p_oe p) fe - 1) = Inr ca"
  have ok: "okp fb" "okp ca"
    using nil oe_ok [OF p] first_special_mem [OF fb] go_index_mem [OF ca] by (auto dest: in_set_dropD)
  show "preserves (I F) (pbind (adoption_inner 3 fe fb (stack_index (p_oe p) fb) fb (stack_index (p_afe p) fe))
      (\<lambda>(l, b). acts [adopt ca l, replace_formatting fe fb b] (ret False))) any"
    by (rule preserves_pbind [OF preserves_adoption_inner [OF ok(1)]])
      (auto intro!: preserves_acts preserves_adopt preserves_replace_formatting ok preserves_ret simp del: acts.simps)
qed

lemma preserves_adoption [preserves_intro]: "preserves (I F) (inBodyEndTagFormatting a) any"
proof -
  have "preserves (I F) (adoption_loop n a) any" for n
    by (induction n) (auto intro!: preserves_intro)
  then show ?thesis by (simp add: inBodyEndTagFormatting_def)
qed

section \<open>The modes before and after the body\<close>

lemma preserves_setOriginalIM [preserves_intro]: "preserves (I F) setOriginalIM any"
  unfolding setOriginalIM_def by (intro preserves_ask preserves_if preserves_panic preserves_modify_other) simp

lemma preserves_reset [preserves_intro]: "preserves (I F) resetInsertionMode any"
proof -
  have "preserves (I F) (reset_loop n) any" for n
    by (induction n)
      (auto simp: Let_def split: option.splits intro!: preserves_ask preserves_intro preserves_modify_other preserves_pbind [where Q' = any])
  then show ?thesis unfolding resetInsertionMode_def by (intro preserves_ask)
qed

lemma preserves_other_fields [preserves_intro]:
  "preserves (I F) (modify (\<lambda>p. p\<lparr>p_quirks := b\<rparr>)) any"
  "preserves (I F) (modify (\<lambda>p. p\<lparr>p_im := p_originalIM p, p_originalIM := None\<rparr>)) any"
  "preserves (I F) (modify (\<lambda>p. p\<lparr>p_tokenizer := NextIsNotRawText (p_tokenizer p)\<rparr>)) any"
  by (intro preserves_modify_other, simp)+

lemma preserves_shared [preserves_intro]:
  "preserves (I F) trim_tok any" "preserves (I F) leading_space any" "preserves (I F) back_to_original any"
  "preserves (I F) (pop_if_top a) any" "preserves (I F) (template_mode im) any" "preserves (I F) end_template any"
  unfolding trim_tok_def leading_space_def back_to_original_def pop_if_top_def template_mode_def
    end_template_def Let_def
  by (intro preserves_ask preserves_intro)+

lemma preserves_textIM [preserves_intro]: "preserves (I F) textIM any"
  unfolding textIM_def Let_def by (intro preserves_ask preserves_intro preserves_pbind [OF preserves_read(2)])

lemma preserves_initialIM [preserves_intro]: "preserves (I F) initialIM any"
proof -
  have "preserves (I F) (case parseDoctype (p_uni p) s of (n, quirks) \<Rightarrow> acts [pbind (alloc n) (append_child (p_doc p)),
      modify (\<lambda>p. p\<lparr>p_quirks := quirks\<rparr>), set_im BeforeHTMLIM] (ret True)) any" if "I F p" for p s
    using no_links_new(4) [of "p_uni p" s] doc_ok [OF that]
    by (cases "parseDoctype (p_uni p) s") (auto intro!: preserves_intro preserves_append_new simp del: acts.simps)
  then show ?thesis
    unfolding initialIM_def Let_def by (intro preserves_ask preserves_intro) simp
qed

lemma preserves_implied [preserves_intro]: "(\<And>c. preserves (I F) (R c) any) \<Longrightarrow> preserves (I F) (implied R t a s) any"
  unfolding implied_def by (rule preserves_void)

lemma preserves_set_head: "preserves (I F) (modify (\<lambda>p. p\<lparr>p_head := parser_top p\<rparr>)) any"
  by (rule preserves_modify) (auto intro: head_law parser_top_ok)

lemma preserves_push_head: "I F p \<Longrightarrow> preserves (I F) (set_oe (p_oe p @ [p_head p])) any"
  by (rule preserves_set_oe) (auto intro: oe_ok head_ok)

lemma preserves_pop_form: "preserves (I F) (pbind oe_pop set_form) any"
  by (rule preserves_pbind [OF preserves_oe_pop preserves_set_form])

lemma preserves_append_oe:
  "I F p \<Longrightarrow> i < length (p_oe p) \<Longrightarrow> no_links nd \<Longrightarrow> preserves (I F) (pbind (alloc nd) (append_child (p_oe p ! i))) any"
  by (rule preserves_append_new) (auto intro: oe_ok)

lemma preserves_modes:
  assumes R: "\<And>c. preserves (I F) (R c) any"
  shows "preserves (I F) (beforeHTMLIM R) any" "preserves (I F) (beforeHeadIM R) any" "preserves (I F) (inHeadIM R) any"
    "preserves (I F) (afterHeadIM R) any" "preserves (I F) (inTableIM R) any" "preserves (I F) (inCaptionIM R) any"
    "preserves (I F) (inColumnGroupIM R) any" "preserves (I F) (inTableBodyIM R) any" "preserves (I F) (inRowIM R) any"
    "preserves (I F) (inCellIM R) any" "preserves (I F) (inSelectIM R) any" "preserves (I F) (inSelectInTableIM R) any"
    "preserves (I F) (inTemplateIM R) any" "preserves (I F) (afterBodyIM R) any" "preserves (I F) (inFramesetIM R) any"
    "preserves (I F) (afterFramesetIM R) any" "preserves (I F) (afterAfterBodyIM R) any"
    "preserves (I F) (afterAfterFramesetIM R) any"
  unfolding beforeHTMLIM_def beforeHeadIM_def inHeadIM_def afterHeadIM_def inTableIM_def inCaptionIM_def
    inColumnGroupIM_def inTableBodyIM_def inRowIM_def inCellIM_def inSelectIM_def inSelectInTableIM_def
    inTemplateIM_def afterBodyIM_def inFramesetIM_def afterFramesetIM_def afterAfterBodyIM_def
    afterAfterFramesetIM_def Let_def
  by (intro preserves_ask preserves_intro R preserves_set_head preserves_push_head preserves_pop_form preserves_oe_take
      preserves_append_oe no_links_new preserves_pbind [OF preserves_read(1)] | assumption | simp; fail)+

section \<open>The body\<close>

lemma preserves_copyAttributes: "okp n \<Longrightarrow> preserves (I F) (copyAttributes n t) any"
  unfolding copyAttributes_def by (intro preserves_if preserves_ret_any preserves_set_node payload_only_Attr)

lemma preserves_body_text [preserves_intro]: "preserves (I F) body_text any"
  unfolding body_text_def Let_def by (intro preserves_ask preserves_intro preserves_pbind [OF preserves_read(2)])

lemma preserves_start_item [preserves_intro]: "preserves (I F) (start_item as) any"
  unfolding start_item_def
  by (intro preserves_ask preserves_intro preserves_pbind [OF preserves_lift]) (erule preserves_oe_subset, erule close_item_subset)

lemma preserves_start_body [preserves_intro]: "preserves (I F) start_body any"
  unfolding start_body_def
  by (intro preserves_ask preserves_intro preserves_pbind [OF preserves_read(2)] preserves_copyAttributes) (auto intro: oe_ok)

lemma preserves_start_frameset [preserves_intro]: "preserves (I F) start_frameset any"
  unfolding start_frameset_def
  by (intro preserves_ask preserves_intro preserves_detach preserves_oe_take) (auto intro: oe_ok)

lemma preserves_start_a [preserves_intro]: "preserves (I F) start_a any"
  unfolding start_a_def by (intro preserves_ask preserves_intro preserves_pbind [OF preserves_read(1)])

lemma preserves_set_namespace:
  "preserves (I F) (ask (\<lambda>p. set_node (parser_top p) (\<lambda>x. x\<lparr>Namespace := h p\<rparr>))) any"
  by (intro preserves_ask preserves_set_node payload_only_Namespace parser_top_ok)

lemma preserves_start_foreign [preserves_intro]: "preserves (I F) start_foreign any"
  unfolding start_foreign_def by (intro preserves_intro preserves_set_namespace) (intro preserves_ask preserves_intro)+

lemma preserves_end_form [preserves_intro]: "preserves (I F) end_form any"
  unfolding end_form_def Let_def
  by (intro preserves_ask preserves_intro preserves_set_form nil preserves_pbind [OF preserves_read(6)])

lemma preserves_raw_start_tag [preserves_intro]: "preserves (I F) raw_start_tag any"
  unfolding raw_start_tag_def by (intro preserves_intro)

text \<open>The form that \<open>isindex\<close> writes to is one that the parser has made in between, because it had none.\<close>

lemma preserves_without_form:
  "(\<And>t. preserves (I None) (c t) any) \<Longrightarrow>
   preserves (I F) (with_tok (\<lambda>t. ask (\<lambda>p. if p_form p \<noteq> None then ret True else c t))) any"
  by (auto simp: preserves_def with_tok_def ask_def ret_def split: if_splits) (use no_form any_form in blast)

lemma preserves_form_action:
  "preserves (I None) (ask (\<lambda>p. set_node (p_form p) (\<lambda>x. x\<lparr>Attr := k x\<rparr>))) any"
  by (intro preserves_ask preserves_set_node payload_only_Attr form_ok)

lemma preserves_start_isindex [preserves_intro]:
  assumes R: "\<And>F c. preserves (I F) (R c) any"
  shows "preserves (I F) (start_isindex R) any"
  unfolding start_isindex_def Let_def
  by (intro preserves_without_form preserves_intro R preserves_form_action no_links_new)

lemma preserves_add_attributes: "I F p \<Longrightarrow> preserves (I F) (pbind (lift (go_index (p_oe p) i)) (\<lambda>n. acts [copyAttributes n t] (ret True))) any"
  by (intro preserves_pbind [OF preserves_lift] preserves_intro preserves_copyAttributes) (auto dest: go_index_mem intro: oe_ok)

lemma preserves_set_form_top: "preserves (I F) (ask (\<lambda>p. set_form (parser_top p))) any"
  by (intro preserves_ask preserves_set_form parser_top_ok)

lemma preserves_body_start_rest [preserves_intro]: "preserves (I F) body_start_rest any"
  unfolding body_start_rest_def Let_def by (intro preserves_intro preserves_ask)

lemma preserves_body_starts [preserves_intro]:
  assumes R: "\<And>F c. preserves (I F) (R c) any"
  shows "preserves (I F) others any \<Longrightarrow> preserves (I F) (body_start_inline R others) any"
    and "preserves (I F) others any \<Longrightarrow> preserves (I F) (body_start_blocks R others) any"
  unfolding body_start_inline_def body_start_blocks_def Let_def
  by (intro preserves_intro preserves_ask R preserves_add_attributes preserves_set_form_top; assumption?)+

lemma preserves_inBodyIM:
  assumes R: "\<And>F c. preserves (I F) (R c) any"
  shows "preserves (I F) (inBodyIM R) any"
proof -
  have "preserves (I F) (body_end R) any"
    unfolding body_end_def Let_def by (intro preserves_intro R)
  moreover have "preserves (I F) body_eof any"
    unfolding body_eof_def by (intro preserves_ask preserves_intro)
  moreover have "preserves (I F) (body_start R) any"
    unfolding body_start_def by (intro preserves_intro R)
  ultimately show ?thesis unfolding inBodyIM_def by (intro preserves_intro)
qed

lemma preserves_mode:
  assumes R: "\<And>F c. preserves (I F) (R c) any"
  shows "preserves (I F) (mode R m) any"
  using preserves_modes [OF R] preserves_inBodyIM [OF R] preserves_initialIM preserves_textIM by (cases m) (simp_all add: mode_def)

section \<open>Foreign content and the loops\<close>

lemma preserves_call_im [preserves_intro]: "(\<And>c. preserves (I F) (R c) any) \<Longrightarrow> preserves (I F) (call_im R) any"
  unfolding call_im_def by (rule preserves_ask) (auto split: option.split intro: preserves_intro)

lemma preserves_breakout: "I F p \<Longrightarrow> preserves (I F) (pbind (lift (breakout_loop k (the_mem p) (p_oe p))) set_oe) any"
  by (rule preserves_pbind [OF preserves_lift], erule preserves_oe_subset, erule breakout_loop_subset)

lemma preserves_foreign_start [preserves_intro]: "preserves (I F) foreign_start any"
  unfolding foreign_start_def
  by (intro preserves_intro preserves_set_namespace preserves_ask preserves_breakout preserves_pbind [OF preserves_read(7)]
      preserves_pbind [OF preserves_read(1)]; assumption?)

lemma preserves_foreign_end:
  assumes p: "I F p" and R: "\<And>c. preserves (I F) (R c) any"
  shows "preserves (I F) (pbind (lift (foreign_end_loop k P (the_mem p) (p_oe p)))
    (\<lambda>oe. case oe of None \<Rightarrow> call_im R | Some s \<Rightarrow> acts [set_oe s] (ret True))) any"
proof (rule preserves_pbind [OF preserves_lift])
  fix oe assume "foreign_end_loop k P (the_mem p) (p_oe p) = Inr oe"
  then show "preserves (I F) (case oe of None \<Rightarrow> call_im R | Some s \<Rightarrow> acts [set_oe s] (ret True)) any"
    by (cases oe) (auto intro!: preserves_intro R preserves_oe_subset [OF p] dest!: foreign_end_loop_subset simp del: acts.simps)
qed

lemma preserves_parseForeignContent [preserves_intro]:
  "(\<And>c. preserves (I F) (R c) any) \<Longrightarrow> preserves (I F) (parseForeignContent R) any"
  unfolding parseForeignContent_def Let_def by (intro preserves_intro preserves_ask preserves_foreign_end; assumption?)

lemma preserves_inForeignContent [preserves_intro]: "preserves (I F) inForeignContent any"
  unfolding inForeignContent_def Let_def by (intro preserves_ask preserves_intro preserves_pbind [OF preserves_read(2)])

lemma preserves_run: "preserves (I F) (run n c) any"
proof (induction n arbitrary: F c)
  case 0
  show ?case by (simp add: preserves_panic)
next
  case (Suc n)
  have tok: "preserves (I F) (modify (\<lambda>p. p\<lparr>p_tok := g p, p_hasSelfClosingToken := b p\<rparr>)) any"
    "preserves (I F) (modify (\<lambda>p. p\<lparr>p_hasSelfClosingToken := b p, p_tok := g p\<rparr>)) any" 
    "preserves (I F) (modify (\<lambda>p. p\<lparr>p_hasSelfClosingToken := b p\<rparr>)) any" for F g b
    by (intro preserves_modify_other, simp)+
  show ?case
  proof (cases c)
    case (CallIM m)
    with preserves_mode [OF Suc] show ?thesis by (simp add: call_body_def)
  qed (simp_all add: call_body_def parseImpliedToken_def parseCurrentToken_def token_loop_def del: acts.simps,
      (intro preserves_ask preserves_intro Suc tok)+)
qed

lemma preserves_next_token: "preserves (I F) next_token any"
proof -
  have "preserves (I F) (acts [modify (\<lambda>p. p\<lparr>p_tokenizer := z, p_tok := t\<rparr>)] (ret t)) any" for z t
    by (intro preserves_intro preserves_modify_other) simp
  then show ?thesis
    unfolding next_token_def
    by (intro preserves_ask preserves_pbind_any preserves_pbind [OF preserves_read(1)])
      (auto intro: preserves_ret split: option.split)
qed

lemma preserves_parse_loop: "preserves (I F) (parse_loop d n) any"
proof (induction n)
  case (Suc n)
  then show ?case
    unfolding parse_loop.simps Let_def
    by (intro preserves_pbind [OF preserves_next_token] preserves_ask preserves_intro preserves_run)
qed (simp add: preserves_panic)

end

end
