(* ===== verification/Html_Parser_Depth.thy ===== *)
theory Html_Parser_Depth
  imports Html_Parser
begin

text \<open>
  The bound on the depth of the parser's calls does not matter: a result that is not
  \<open>NoReturn\<close> is the result for every larger bound. A mode is built from the calls by
  operations that all have this property, so that the proof follows the text of the mode.
\<close>

section \<open>Agreement of calls\<close>

definition agrees :: "calls \<Rightarrow> calls \<Rightarrow> bool" where
  "agrees R S \<longleftrightarrow> (\<forall>c p. R c p \<noteq> Inl NoReturn \<longrightarrow> S c p = R c p)"

definition deepens :: "(calls \<Rightarrow> 'a P) \<Rightarrow> bool" where
  "deepens F \<longleftrightarrow> (\<forall>R S p. agrees R S \<longrightarrow> F R p \<noteq> Inl NoReturn \<longrightarrow> F S p = F R p)"

named_theorems deepens_intro \<open>programs that keep their result when the calls have more depth\<close>

lemma deepensD: "deepens F \<Longrightarrow> agrees R S \<Longrightarrow> F R p \<noteq> Inl NoReturn \<Longrightarrow> F S p = F R p"
  by (simp add: deepens_def)

lemma deepens_const [deepens_intro]: "deepens (\<lambda>R. c)"
  by (simp add: deepens_def)

lemma deepens_call [deepens_intro]: "deepens (\<lambda>R. R c)"
  by (simp add: deepens_def agrees_def)

lemma deepens_pbind [deepens_intro]:
  assumes "deepens F" and "\<And>x. deepens (\<lambda>R. G R x)"
  shows "deepens (\<lambda>R. pbind (F R) (G R))"
  unfolding deepens_def
proof (intro allI impI)
  fix R S p assume RS: "agrees R S" and n: "pbind (F R) (G R) p \<noteq> Inl NoReturn"
  then have "F R p \<noteq> Inl NoReturn" by (auto simp: pbind_def)
  then have "F S p = F R p" using assms(1) RS deepensD by blast
  with n deepensD [OF assms(2) RS] show "pbind (F S) (G S) p = pbind (F R) (G R) p"
    by (cases "F R p") (auto simp: pbind_def)
qed

lemma deepens_ask [deepens_intro]: "(\<And>p. deepens (\<lambda>R. F R p)) \<Longrightarrow> deepens (\<lambda>R. ask (F R))"
  by (simp add: deepens_def ask_def)

lemma deepens_void [deepens_intro]: "deepens F \<Longrightarrow> deepens (\<lambda>R. void (F R))"
  unfolding void_def by (intro deepens_intro)

lemma deepens_implied [deepens_intro]: "deepens (\<lambda>R. implied R t a s)"
  unfolding implied_def by (intro deepens_intro)

lemma deepens_with_tok [deepens_intro]: "(\<And>t. deepens (\<lambda>R. F R t)) \<Longrightarrow> deepens (\<lambda>R. with_tok (F R))"
  unfolding with_tok_def by (intro deepens_intro)

lemma deepens_only_if [deepens_intro]: "deepens F \<Longrightarrow> deepens (\<lambda>R. only_if b (F R))"
  by (cases b) (simp_all add: only_if_def deepens_const)

lemma deepens_acts [deepens_intro]:
  "deepens F \<Longrightarrow> deepens (\<lambda>R. acts [] (F R))"
  "deepens C \<Longrightarrow> deepens (\<lambda>R. acts (Cs R) (F R)) \<Longrightarrow> deepens (\<lambda>R. acts (C R # Cs R) (F R))"
  by (simp_all add: deepens_pbind)

lemma deepens_if [deepens_intro]: "deepens F \<Longrightarrow> deepens G \<Longrightarrow> deepens (\<lambda>R. if b then F R else G R)"
  by (cases b) simp_all

lemma deepens_case_option [deepens_intro]:
  "deepens F \<Longrightarrow> (\<And>x. deepens (\<lambda>R. G R x)) \<Longrightarrow> deepens (\<lambda>R. case y of None \<Rightarrow> F R | Some x \<Rightarrow> G R x)"
  by (cases y) simp_all

lemma deepens_case_TokenType [deepens_intro]:
  "deepens F1 \<Longrightarrow> deepens F2 \<Longrightarrow> deepens F3 \<Longrightarrow> deepens F4 \<Longrightarrow> deepens F5 \<Longrightarrow> deepens F6 \<Longrightarrow> deepens F7 \<Longrightarrow>
   deepens (\<lambda>R. case t of ErrorToken \<Rightarrow> F1 R | TextToken \<Rightarrow> F2 R | StartTagToken \<Rightarrow> F3 R
     | EndTagToken \<Rightarrow> F4 R | SelfClosingTagToken \<Rightarrow> F5 R | CommentToken \<Rightarrow> F6 R | DoctypeToken \<Rightarrow> F7 R)"
  by (cases t) simp_all

section \<open>The modes\<close>

lemma deepens_modes:
  "deepens beforeHTMLIM" "deepens beforeHeadIM" "deepens inHeadIM" "deepens afterHeadIM" "deepens inTableIM"
  "deepens inCaptionIM" "deepens inColumnGroupIM" "deepens inTableBodyIM" "deepens inRowIM" "deepens inCellIM"
  "deepens inSelectIM" "deepens inSelectInTableIM" "deepens inTemplateIM" "deepens afterBodyIM"
  "deepens inFramesetIM" "deepens afterFramesetIM" "deepens afterAfterBodyIM" "deepens afterAfterFramesetIM"
  unfolding beforeHTMLIM_def beforeHeadIM_def inHeadIM_def afterHeadIM_def inTableIM_def inCaptionIM_def
    inColumnGroupIM_def inTableBodyIM_def inRowIM_def inCellIM_def inSelectIM_def inSelectInTableIM_def
    inTemplateIM_def afterBodyIM_def inFramesetIM_def afterFramesetIM_def afterAfterBodyIM_def
    afterAfterFramesetIM_def Let_def
  by (intro deepens_intro)+

lemma deepens_start_isindex [deepens_intro]: "deepens start_isindex"
  unfolding start_isindex_def Let_def by (intro deepens_intro)

lemma deepens_body: "deepens inBodyIM"
  unfolding inBodyIM_def body_start_def body_start_blocks_def body_start_inline_def body_end_def Let_def
  by (intro deepens_intro deepens_start_isindex)

lemma deepens_mode [deepens_intro]: "deepens (\<lambda>R. mode R m)"
  by (cases m) (simp_all add: mode_def deepens_const deepens_modes deepens_body)

lemma deepens_call_im [deepens_intro]: "deepens call_im"
  unfolding call_im_def by (intro deepens_intro)

lemma deepens_parseForeignContent [deepens_intro]: "deepens parseForeignContent"
  unfolding parseForeignContent_def Let_def by (intro deepens_intro deepens_call_im)

lemma deepens_token_loop: "deepens token_loop"
  unfolding token_loop_def by (intro deepens_intro deepens_call_im deepens_parseForeignContent)

lemma deepens_call_body: "deepens (\<lambda>R. call_body R c)"
proof (cases c)
  case (CallImplied t a s)
  show ?thesis unfolding CallImplied call_body_def call.case parseImpliedToken_def by (intro deepens_intro)
next
  case CallCurrent
  show ?thesis unfolding CallCurrent call_body_def call.case parseCurrentToken_def by (intro deepens_intro)
qed (simp_all add: call_body_def deepens_mode deepens_token_loop)

section \<open>More depth\<close>

lemma run_Suc: "agrees (run n) (run (Suc n))"
proof (induction n)
  case 0
  show ?case by (simp add: agrees_def panic_def)
next
  case (Suc n)
  show ?case
    unfolding agrees_def
  proof (intro allI impI)
    fix c p assume "run (Suc n) c p \<noteq> Inl NoReturn"
    with deepensD [OF deepens_call_body Suc] show "run (Suc (Suc n)) c p = run (Suc n) c p" by simp
  qed
qed

lemma run_mono: "m \<le> n \<Longrightarrow> agrees (run m) (run n)"
proof (induction rule: inc_induct)
  case base
  show ?case by (simp add: agrees_def)
next
  case (step k)
  with run_Suc [of k] show ?case by (metis agrees_def)
qed

lemma parse_loop_mono:
  "parse_loop d k p \<noteq> Inl NoReturn \<Longrightarrow> d \<le> d' \<Longrightarrow> k \<le> k' \<Longrightarrow> parse_loop d' k' p = parse_loop d k p"
proof (induction k arbitrary: k' p)
  case (Suc k)
  from Suc.prems(3) obtain j where k': "k' = Suc j" "k \<le> j" by (cases k') auto
  have agr: "agrees (run d) (run d')" using Suc.prems(2) by (rule run_mono)
  have step: "pbind (void (run d' CallCurrent)) (\<lambda>_. if e then ret None else parse_loop d' j) q =
      pbind (void (run d CallCurrent)) (\<lambda>_. if e then ret None else parse_loop d k) q"
    if "pbind (void (run d CallCurrent)) (\<lambda>_. if e then ret None else parse_loop d k) q \<noteq> Inl NoReturn" for e q
  proof -
    have "run d CallCurrent q \<noteq> Inl NoReturn" using that by (auto simp: pbind_def void_def)
    then have r: "run d' CallCurrent q = run d CallCurrent q" using agr by (simp add: agrees_def)
    show ?thesis
      using that Suc.IH [OF _ Suc.prems(2) k'(2)] r
      by (cases "run d CallCurrent q") (auto simp: pbind_def void_def ret_def)
  qed
  show ?case
    using Suc.prems(1) step [of True, simplified] step [of False, simplified]
    unfolding k' parse_loop.simps acts.simps Let_def
    by (auto simp: pbind_def [of next_token] ask_def go_bind_def split: sum.splits if_splits)
qed (simp add: panic_def)

text \<open>Tables for ASCII, and a memory in which nothing is allocated but the marker.\<close>

definition ascii_tables :: unicode where
  "ascii_tables =
     \<lparr>ToLower = ToLower_ascii, EqualFold = (\<lambda>a b. ToLower_ascii a = ToLower_ascii b)\<rparr>"

definition blank_store :: dom_store where
  "blank_store = \<lparr>mem = (\<lambda>_. new_Node)(marker := scopeMarker), brk = 1\<rparr>"

lemma go_bind_grows:
  "go_bind a f \<noteq> Inl NoReturn \<Longrightarrow> (a \<noteq> Inl NoReturn \<Longrightarrow> b = a) \<Longrightarrow> go_bind b f = go_bind a f"
  by (cases "a = Inl NoReturn") auto

text \<open>The depth to which the calls of the parser are followed in this model, and the number of rounds of
  its loop, say nothing about the result: whatever \<open>Parse\<close> or \<open>ParseFragment\<close> gives with some
  bound, a tree, an error or a panic, it gives with every larger bound.\<close>

lemma parser_bound_irrelevant:
  assumes "f \<le> g"
  shows "(Parse u f r s \<noteq> Inl NoReturn \<longrightarrow> Parse u g r s = Parse u f r s) \<and>
    (ParseFragment u f r context s \<noteq> Inl NoReturn \<longrightarrow>
     ParseFragment u g r context s = ParseFragment u f r context s)"
proof -
  have loop: "parse_loop g g p = parse_loop f f p" if "parse_loop f f p \<noteq> Inl NoReturn" for p
    using parse_loop_mono [OF that assms assms] .
  have acts: "acts [c] (parse_loop g g) p = acts [c] (parse_loop f f) p"
    if "acts [c] (parse_loop f f) p \<noteq> Inl NoReturn" for c p
    using that loop by (cases "c p") (auto simp: pbind_def)
  have "Parse u g r s = Parse u f r s" if "Parse u f r s \<noteq> Inl NoReturn"
    using that acts unfolding Parse_def
    by (intro go_bind_grows) (auto simp: pbind_def [of "alloc document_node"] alloc_def)
  moreover have "ParseFragment u g r context s = ParseFragment u f r context s"
    if n: "ParseFragment u f r context s \<noteq> Inl NoReturn"
  proof (cases "context_tag context (mem s)")
    case ct: (Inr ct)
    show ?thesis
    proof (cases ct)
      case (Inr t)
      show ?thesis
        using n unfolding ParseFragment_def ct Inr go_bind_simps sum.case
        by (rule go_bind_grows) (rule acts)
    qed (simp add: ParseFragment_def ct)
  qed (simp add: ParseFragment_def)
  ultimately show ?thesis by blast
qed

fun parsed :: "((parse_error + 'a) \<times> dom_store) go \<Rightarrow> bool" where
  "parsed (Inr (Inr x, s)) = True"
| "parsed _ = False"

lemma parsedE: "parsed r \<Longrightarrow> (\<And>x s. r = Inr (Inr x, s) \<Longrightarrow> thesis) \<Longrightarrow> thesis"
  by (cases r rule: parsed.cases) auto

lemma empty_parsed: "parsed (Parse ascii_tables 12 (strings_NewReader []) blank_store)"
  by code_simp

end
