(* ===== verification/Html_Parser_Frame.thy ===== *)
theory Html_Parser_Frame
  imports Html_Parser_Sweep Html_Parser_Depth
begin

text \<open>
  What the parser does to memory: it writes to the nodes it has made and to no other, and these
  point only to one another. The invariant \<open>frame\<close> says so of a state of the parser, and is
  one that \<open>parser_invariant\<close> carries through all of tree construction.
\<close>

section \<open>New nodes\<close>

definition new_ptr :: "nat \<Rightarrow> ptr \<Rightarrow> bool" where
  "new_ptr lo x = (case x of None \<Rightarrow> True | Some a \<Rightarrow> lo \<le> a)"

definition new_links :: "nat \<Rightarrow> Node \<Rightarrow> bool" where
  "new_links lo x \<longleftrightarrow> new_ptr lo (Parent x) \<and> new_ptr lo (FirstChild x) \<and> new_ptr lo (LastChild x) \<and>
     new_ptr lo (PrevSibling x) \<and> new_ptr lo (NextSibling x)"

text \<open>Below \<open>lo\<close> the memory is \<open>m0\<close>, above it nodes point above it.\<close>

definition apart :: "nat \<Rightarrow> memory \<Rightarrow> memory \<Rightarrow> bool" where
  "apart lo m0 m \<longleftrightarrow> (\<forall>a. if a < lo then m a = m0 a else new_links lo (m a))"

lemma new_ptr_simps [simp]: "new_ptr lo None" "new_ptr lo (Some a) \<longleftrightarrow> lo \<le> a"
  by (simp_all add: new_ptr_def)

lemma apartD: "apart lo m0 m \<Longrightarrow> lo \<le> a \<Longrightarrow> new_links lo (m a)"
  by (auto simp: apart_def split: if_splits)

lemma apart_old: "apart lo m0 m \<Longrightarrow> a < lo \<Longrightarrow> m a = m0 a"
  by (simp add: apart_def)

lemma apart_upd: "apart lo m0 m \<Longrightarrow> lo \<le> a \<Longrightarrow> (new_links lo (m a) \<Longrightarrow> new_links lo (f (m a))) \<Longrightarrow> apart lo m0 (upd a f m)"
  by (auto simp: apart_def upd_def split: if_splits)

lemma apart_new: "apart lo m0 m \<Longrightarrow> lo \<le> a \<Longrightarrow> no_links nd \<Longrightarrow> apart lo m0 (m(a := nd))"
  by (auto simp: apart_def no_links_def new_links_def split: if_splits)

lemma apart_link:
  assumes "apart lo m0 m" and "new_ptr lo (Some a)" and "new_ptr lo v"
  shows "apart lo m0 (upd a (\<lambda>x. x\<lparr>FirstChild := v\<rparr>) m)" "apart lo m0 (upd a (\<lambda>x. x\<lparr>LastChild := v\<rparr>) m)"
    "apart lo m0 (upd a (\<lambda>x. x\<lparr>PrevSibling := v\<rparr>) m)" "apart lo m0 (upd a (\<lambda>x. x\<lparr>NextSibling := v\<rparr>) m)"
  using assms by (auto intro!: apart_upd simp: new_links_def)

lemma apart_links:
  "apart lo m0 m \<Longrightarrow> lo \<le> a \<Longrightarrow> new_ptr lo (Parent (m a)) \<and> new_ptr lo (FirstChild (m a)) \<and>
     new_ptr lo (LastChild (m a)) \<and> new_ptr lo (PrevSibling (m a)) \<and> new_ptr lo (NextSibling (m a))"
  using apartD [of lo m0 m a] by (simp add: new_links_def)

lemma apart_AppendChild:
  assumes m: "apart lo m0 m" and n: "lo \<le> n" and c: "lo \<le> c" and ac: "AppendChild n c m = Inr m'"
  shows "apart lo m0 m'"
proof -
  define m1 where "m1 = (case LastChild (m n) of Some l \<Rightarrow> upd l (\<lambda>x. x\<lparr>NextSibling := Some c\<rparr>) m
    | None \<Rightarrow> upd n (\<lambda>x. x\<lparr>FirstChild := Some c\<rparr>) m)"
  have "apart lo m0 m1"
    using apart_links [OF m n] apart_link [OF m] n c by (auto simp: m1_def split: option.split)
  then have "apart lo m0 (upd n (\<lambda>x. x\<lparr>LastChild := Some c\<rparr>) m1)"
    using n c by (intro apart_link) auto
  then have "apart lo m0 (upd c (\<lambda>x. x\<lparr>Parent := Some n, PrevSibling := LastChild (m n)\<rparr>)
      (upd n (\<lambda>x. x\<lparr>LastChild := Some c\<rparr>) m1))"
    using apart_links [OF m n] n c by (elim apart_upd) (auto simp: new_links_def)
  with ac show ?thesis unfolding AppendChild_def Let_def m1_def by (auto split: if_splits)
qed

lemma apart_InsertBefore:
  assumes m: "apart lo m0 m" and n: "lo \<le> n" and c: "lo \<le> c" and old: "new_ptr lo old"
    and ib: "InsertBefore n c old m = Inr m'"
  shows "apart lo m0 m'"
proof -
  define prev where "prev = (case old of Some oc \<Rightarrow> PrevSibling (m oc) | None \<Rightarrow> LastChild (m n))"
  define m1 where "m1 = (case prev of Some p \<Rightarrow> upd p (\<lambda>x. x\<lparr>NextSibling := Some c\<rparr>) m
    | None \<Rightarrow> upd n (\<lambda>x. x\<lparr>FirstChild := Some c\<rparr>) m)"
  define m2 where "m2 = (case old of Some q \<Rightarrow> upd q (\<lambda>x. x\<lparr>PrevSibling := Some c\<rparr>) m1
    | None \<Rightarrow> upd n (\<lambda>x. x\<lparr>LastChild := Some c\<rparr>) m1)"
  have prev: "new_ptr lo prev" using apart_links [OF m] n old by (auto simp: prev_def split: option.split)
  have m1: "apart lo m0 m1" using prev apart_link [OF m] n c by (auto simp: m1_def split: option.splits)
  have "apart lo m0 m2" using old apart_link [OF m1] n c by (auto simp: m2_def split: option.splits)
  then have "apart lo m0 (upd c (\<lambda>x. x\<lparr>Parent := Some n, PrevSibling := prev, NextSibling := old\<rparr>) m2)"
    using prev old n c by (intro apart_upd) (auto simp: new_links_def)
  with ib show ?thesis
    unfolding InsertBefore_def Let_def m2_def m1_def prev_def by (cases old) (auto split: if_splits)
qed

lemma apart_RemoveChild:
  assumes m: "apart lo m0 m" and n: "lo \<le> n" and c: "lo \<le> c" and rc: "RemoveChild n c m = Inr m'"
  shows "apart lo m0 m'"
proof -
  define m1 where "m1 = (if FirstChild (m n) = Some c
    then upd n (\<lambda>x. x\<lparr>FirstChild := NextSibling (m c)\<rparr>) m else m)"
  define m2 where "m2 = (case NextSibling (m1 c) of
    Some s \<Rightarrow> upd s (\<lambda>x. x\<lparr>PrevSibling := PrevSibling (m1 c)\<rparr>) m1 | None \<Rightarrow> m1)"
  define m3 where "m3 = (if LastChild (m2 n) = Some c
    then upd n (\<lambda>x. x\<lparr>LastChild := PrevSibling (m2 c)\<rparr>) m2 else m2)"
  define m4 where "m4 = (case PrevSibling (m3 c) of
    Some s \<Rightarrow> upd s (\<lambda>x. x\<lparr>NextSibling := NextSibling (m3 c)\<rparr>) m3 | None \<Rightarrow> m3)"
  have 1: "apart lo m0 m1" using apart_links [OF m c] apart_link [OF m] n m by (auto simp: m1_def)
  have 2: "apart lo m0 m2" using apart_links [OF 1 c] apart_link [OF 1] 1 by (auto simp: m2_def split: option.split)
  have 3: "apart lo m0 m3" using apart_links [OF 2 c] apart_link [OF 2] n 2 by (auto simp: m3_def)
  have "apart lo m0 m4" using apart_links [OF 3 c] apart_link [OF 3] 3 by (auto simp: m4_def split: option.split)
  then have "apart lo m0 (upd c (\<lambda>x. x\<lparr>Parent := None, PrevSibling := None, NextSibling := None\<rparr>) m4)"
    using c by (intro apart_upd) (auto simp: new_links_def)
  with rc show ?thesis
    unfolding RemoveChild_def Let_def m4_def m3_def m2_def m1_def by (auto split: if_splits)
qed

section \<open>The invariant\<close>

text \<open>\<open>F\<close> is the form that the caller's context is in: the parser remembers it, but does not write to it.\<close>

definition frame :: "nat \<Rightarrow> memory \<Rightarrow> ptr \<Rightarrow> ptr \<Rightarrow> parser \<Rightarrow> bool" where
  "frame lo m0 d F p \<longleftrightarrow> marker < lo \<and> NType (m0 marker) = ScopeMarkerNode \<and> lo \<le> brk (p_store p) \<and>
     apart lo m0 (the_mem p) \<and> p_doc p = d \<and> new_ptr lo d \<and> new_ptr lo (p_head p) \<and>
     (\<forall>x \<in> set (p_oe p). new_ptr lo x) \<and> (\<forall>x \<in> set (p_afe p). new_ptr lo x \<or> x = Some marker) \<and>
     (new_ptr lo (p_form p) \<or> p_form p = F)"

interpretation frame: parser_invariant "frame lo m0 d" "new_ptr lo" "\<lambda>x. new_ptr lo x \<or> x = Some marker"
proof
  fix F p nd
  show "new_ptr lo (Some (brk (p_store p))) \<and>
      frame lo m0 d F (p\<lparr>p_store := \<lparr>mem = (the_mem p)(brk (p_store p) := nd), brk = Suc (brk (p_store p))\<rparr>\<rparr>)"
    if "frame lo m0 d F p" "no_links nd"
    using that by (auto simp: frame_def intro: apart_new)
  show "frame lo m0 d F (with_mem p (upd a f (the_mem p)))"
    if "frame lo m0 d F p" "new_ptr lo (Some a)" "payload_only f" for a f
    using that by (auto simp: frame_def new_links_def payload_only_def intro: apart_upd)
  show "new_ptr lo (Some a)"
    if "frame lo m0 d F p" "new_ptr lo (Some a) \<or> Some a = Some marker" "NType (the_mem p a) \<noteq> ScopeMarkerNode" for a
    using that apart_old [of lo m0 "the_mem p" marker] by (auto simp: frame_def)
qed (auto simp: frame_def dest: apart_links intro: apart_AppendChild apart_InsertBefore apart_RemoveChild)

section \<open>Fragments\<close>

text \<open>With any document and any form.\<close>

definition framed :: "nat \<Rightarrow> memory \<Rightarrow> parser \<Rightarrow> bool" where
  "framed lo m0 p \<longleftrightarrow> (\<exists>d F. frame lo m0 d F p)"

lemma preserves_framed: "(\<And>d F. preserves (frame lo m0 d F) c Q) \<Longrightarrow> preserves (framed lo m0) c Q"
  by (fastforce simp: preserves_def framed_def)

lemma preserves_start_fragment: "preserves (framed lo m0) (start_fragment context) any"
proof -
  have doc: "preserves (framed lo m0) (modify (\<lambda>p. p\<lparr>p_doc := doc, p_fragment := True, p_context := c\<rparr>)) any"
    if "new_ptr lo doc" for doc c
    by (rule preserves_modify) (use that in \<open>auto simp: framed_def frame_def\<close>)
  have form: "preserves (framed lo m0) (set_form n) any" for n
    unfolding set_form_def by (rule preserves_modify) (auto simp: framed_def frame_def)
  have new: "preserves (framed lo m0) (alloc nd) (new_ptr lo)" if "no_links nd" for nd
    using that by (intro preserves_framed frame.preserves_alloc)
  have stack: "preserves (framed lo m0) (append_child n c) any" "preserves (framed lo m0) (set_oe [c]) any"
    if "new_ptr lo n" "new_ptr lo c" for n c
    using that by (auto intro!: preserves_framed frame.preserves_append_child frame.preserves_set_oe)
  have other: "preserves (framed lo m0) (template_push im) any" "preserves (framed lo m0) resetInsertionMode any"
    "preserves (framed lo m0) (atom_at n) any" "preserves (framed lo m0) (lift r) any" for n im and r :: "ptr go"
    by (intro preserves_framed frame.preserves_set frame.preserves_reset frame.preserves_read)+
  have nodes: "no_links document_node" "no_links (element_node a_Html ''html'' [])"
    by (simp_all add: document_node_def no_links_def new_Node_def element_node_def)
  show ?thesis
    unfolding start_fragment_def
    by (rule preserves_pbind [OF new [OF nodes(1)]], rule preserves_pbind [OF new [OF nodes(2)]], intro preserves_acts)
      (auto intro!: doc form stack other preserves_ask preserves_pbind [where Q' = any] preserves_ret preserves_only_if
        split: option.split)
qed

lemma RemoveChild_Parent:
  "RemoveChild n c m = Inr m' \<Longrightarrow> Parent (m c) = Some n \<and> Parent (m' x) = (if x = c then None else Parent (m x))"
  by (auto simp: RemoveChild_def Let_def upd_def split: if_splits option.splits)

lemma take_children_apart:
  "take_children f n c m = Inr (cs, m') \<Longrightarrow> apart lo m0 m \<Longrightarrow> lo \<le> n \<Longrightarrow> new_ptr lo c \<Longrightarrow>
     apart lo m0 m' \<and> (\<forall>x \<in> set cs. lo \<le> x \<and> Parent (m' x) = None) \<and> distinct cs \<and>
     (\<forall>x. Parent (m x) = None \<longrightarrow> Parent (m' x) = None \<and> x \<notin> set cs)"
proof (induction f n c m arbitrary: cs rule: take_children.induct)
  case (3 f n c m)
  obtain m1 ds where m1: "RemoveChild n c m = Inr m1" and rec: "take_children f n (NextSibling (m c)) m1 = Inr (ds, m')"
    and cs: "cs = c # ds"
    using "3.prems"(1) by auto
  have "apart lo m0 m1" using "3.prems" m1 by (auto intro: apart_RemoveChild)
  moreover have "new_ptr lo (NextSibling (m c))" using apart_links [OF "3.prems"(2)] "3.prems"(4) by simp
  ultimately have "apart lo m0 m' \<and> (\<forall>x \<in> set ds. lo \<le> x \<and> Parent (m' x) = None) \<and> distinct ds \<and>
     (\<forall>x. Parent (m1 x) = None \<longrightarrow> Parent (m' x) = None \<and> x \<notin> set ds)"
    using "3.IH" [OF m1 rec] "3.prems"(3) by simp
  with RemoveChild_Parent [OF m1] "3.prems"(4) show ?case by (auto simp: cs)
qed auto

section \<open>Parsing\<close>

text \<open>A memory with a marker, in which what is not allocated yet is zero.\<close>

definition clean :: "dom_store \<Rightarrow> bool" where
  "clean s \<longleftrightarrow> marker < brk s \<and> mem s marker = scopeMarker \<and> (\<forall>a \<ge> brk s. mem s a = new_Node)"

lemma clean_frame: "clean s \<Longrightarrow> frame (brk s) (mem s) None F (new_parser u s z)"
  by (auto simp: clean_def frame_def new_parser_def apart_def new_links_def new_Node_def scopeMarker_def
      split: if_splits)


lemma ParseFragment_apart:
  assumes clean: "clean s" and P: "ParseFragment u fuel r context s = Inr (res, s')"
  shows "apart (brk s) (mem s) (mem s') \<and>
    (\<forall>cs. res = Inr cs \<longrightarrow> distinct cs \<and> (\<forall>c \<in> set cs. brk s \<le> c \<and> Parent (mem s' c) = None))"
proof -
  obtain ct where ct: "context_tag context (mem s) = Inr ct" using P by (auto simp: ParseFragment_def)
  note frame0 = clean_frame [OF clean]
  then have "apart (brk s) (mem s) (mem s)" by (simp add: frame_def new_parser_def)
  moreover have ?thesis if t: "ct = Inr t" for t
  proof -
    obtain err p where run: "acts [start_fragment context] (parse_loop fuel fuel)
        (new_parser u s (NewTokenizerFragment r t)) = Inr (err, p)"
      and res: "(case err of Some e \<Rightarrow> Inr (Inl (ReadError e), p_store p)
        | None \<Rightarrow> let parent = (if context \<noteq> None then brk s + 1 else brk s) in
            go_bind (take_children (brk (p_store p)) parent (FirstChild (the_mem p parent)) (the_mem p)) (\<lambda>(cs, m).
              Inr (Inr cs, (p_store p)\<lparr>mem := m\<rparr>))) = Inr (res, s')"
      using P ct t by (auto simp: ParseFragment_def)
    have "preserves (framed (brk s) (mem s)) (acts [start_fragment context] (parse_loop fuel fuel)) any"
      by (intro preserves_acts preserves_start_fragment preserves_framed frame.preserves_parse_loop)
    from preservesD [OF this _ run] frame0 have "framed (brk s) (mem s) p" unfolding framed_def by blast
    then have ap: "apart (brk s) (mem s) (the_mem p)" by (auto simp: framed_def frame_def)
    show ?thesis
    proof (cases err)
      case None
      define parent where "parent = (if context \<noteq> None then brk s + 1 else brk s)"
      have parent: "brk s \<le> parent" by (simp add: parent_def)
      obtain cs m where "take_children (brk (p_store p)) parent (FirstChild (the_mem p parent)) (the_mem p) = Inr (cs, m)"
        "res = Inr cs" "mem s' = m"
        using res None unfolding parent_def Let_def by auto
      with take_children_apart [OF _ ap parent] apart_links [OF ap parent] show ?thesis by auto
    qed (use res ap in auto)
  qed
  ultimately show ?thesis using P ct by (cases ct) (auto simp: ParseFragment_def)
qed

text \<open>C13. The parser writes only to nodes it has made. Whatever \<open>Parse\<close> or \<open>ParseFragment\<close> return, a tree
  or an error, every node that existed before, the context and the form around it included,
  is as it was, and every other node points to such other nodes only. \<open>Parse\<close> returns the node
  it made first; the nodes \<open>ParseFragment\<close> returns are new, different from one another, and
  have no parent.\<close>

theorem parser_writes_only_new_nodes:
  assumes "clean s"
  shows "(Parse u fuel r s = Inr (res, s') \<longrightarrow>
      apart (brk s) (mem s) (mem s') \<and> (\<forall>d. res = Inr d \<longrightarrow> d = Some (brk s))) \<and>
    (ParseFragment u fuel r context s = Inr (fres, s'') \<longrightarrow>
      apart (brk s) (mem s) (mem s'') \<and>
      (\<forall>cs. fres = Inr cs \<longrightarrow> distinct cs \<and> (\<forall>c \<in> set cs. brk s \<le> c \<and> Parent (mem s'' c) = None)))"
proof (intro conjI impI)
  note start = clean_frame [OF assms, of None u]
  assume P: "Parse u fuel r s = Inr (res, s')"
  obtain d p where alloc: "alloc document_node (new_parser u s (NewTokenizer r)) = Inr (d, p)"
    by (simp add: alloc_def)
  have d: "d = Some (brk s)" using alloc by (auto simp: alloc_def new_parser_def)
  have "no_links document_node" by (simp add: document_node_def no_links_def new_Node_def)
  then have "frame (brk s) (mem s) None None p"
    using preservesD [OF frame.preserves_alloc start alloc] by simp
  then have "frame (brk s) (mem s) d None (p\<lparr>p_doc := d, p_framesetOK := True, p_im := Some InitialIM\<rparr>)"
    by (simp add: frame_def d)
  moreover obtain err p' where
    "parse_loop fuel fuel (p\<lparr>p_doc := d, p_framesetOK := True, p_im := Some InitialIM\<rparr>) = Inr (err, p')"
    and res: "res = (case err of Some e \<Rightarrow> Inl (ReadError e) | None \<Rightarrow> Inr (p_doc p'))" "s' = p_store p'"
    using P alloc by (auto simp: Parse_def pbind_def modify_def split: option.splits)
  ultimately have "frame (brk s) (mem s) d None p'" using preservesD [OF frame.preserves_parse_loop] by blast
  then show "apart (brk s) (mem s) (mem s')" "\<forall>d. res = Inr d \<longrightarrow> d = Some (brk s)"
    by (auto simp: frame_def res d split: option.splits)
next
  assume P: "ParseFragment u fuel r context s = Inr (fres, s'')"
  show "apart (brk s) (mem s) (mem s'')"
    and "\<forall>cs. fres = Inr cs \<longrightarrow> distinct cs \<and> (\<forall>c \<in> set cs. brk s \<le> c \<and> Parent (mem s'' c) = None)"
    using ParseFragment_apart [OF assms P] by blast+
qed


lemma clean_blank_store: "clean blank_store"
  by (simp add: clean_def blank_store_def marker_def)

theorem parser_writes_only_new_nodes_witness:
  "\<exists>s'. Parse ascii_tables 12 (strings_NewReader []) blank_store = Inr (Inr (Some 1), s') \<and>
     mem s' marker = scopeMarker"
proof -
  obtain x s' where P: "Parse ascii_tables 12 (strings_NewReader []) blank_store = Inr (Inr x, s')"
    using empty_parsed by (rule parsedE)
  with parser_writes_only_new_nodes [OF clean_blank_store, of ascii_tables 12 "strings_NewReader []"]
  have "apart 1 (mem blank_store) (mem s')" "x = Some 1" by (auto simp: blank_store_def)
  with P apart_old [of 1 "mem blank_store" "mem s'" marker] show ?thesis by (simp add: blank_store_def marker_def)
qed

end
