(* ===== verification/Html_Token_Buffer.thy ===== *)
theory Html_Token_Buffer
  imports Html_Token_Data
begin

text \<open>
  The tokenizer's buffer is invisible. \<open>norm z\<close> is the tokenizer \<open>z\<close> with all the input
  already in its buffer and the current token at its start; \<open>wf_tok z\<close> says that the spans, the
  capacity and the reader fit together. Every operation of the tokenizer keeps \<open>wf_tok\<close>, does not
  panic, and commutes with \<open>norm\<close>: what it returns does not depend on how the reader
  portions the input nor on where the buffer was refilled.
\<close>

section \<open>Relative positions\<close>

text \<open>The spans relative to the start of the current token, and the bytes from there on.\<close>

definition off :: "Tokenizer \<Rightarrow> int" where
  "off z = raw_end z - raw_start z"

definition stream :: "Tokenizer \<Rightarrow> string" where
  "stream z = drop (nat (raw_start z)) (z_buf z) @ content (z_r z)"

definition end_err :: "Tokenizer \<Rightarrow> io_error" where
  "end_err z = (case z_readErr z of Some e \<Rightarrow> e | None \<Rightarrow> final (z_r z))"

definition spent :: reader where
  "spent = \<lparr>content = [], offers = [], eager = False, final = EOF\<rparr>"

definition norm :: "Tokenizer \<Rightarrow> Tokenizer" where
  "norm z =
     (shift_spans (raw_start z) z)
       \<lparr>raw_start := 0, raw_end := off z, z_buf := stream z, z_cap := 0,
        z_r := spent, z_readErr := Some (end_err z)\<rparr>"

definition wf_tok :: "Tokenizer \<Rightarrow> bool" where
  "wf_tok z \<longleftrightarrow> 0 \<le> raw_start z \<and> raw_start z \<le> raw_end z \<and> raw_end z \<le> int (length (z_buf z)) \<and>
     patient_reader (z_r z) \<and>
     (z_readErr z = None \<longrightarrow> 0 < z_cap z \<and> length (z_buf z) \<le> z_cap z) \<and>
     (z_readErr z \<noteq> None \<longrightarrow> content (z_r z) = [])"

lemma norm_simps [simp]:
  "raw_start (norm z) = 0" "raw_end (norm z) = off z" "z_buf (norm z) = stream z"
  "z_readErr (norm z) = Some (end_err z)" "z_err (norm z) = z_err z" "z_tt (norm z) = z_tt z"
  "z_maxBuf (norm z) = z_maxBuf z" "rawTag (norm z) = rawTag z" "textIsRaw (norm z) = textIsRaw z"
  "convertNUL (norm z) = convertNUL z" "allowCDATA (norm z) = allowCDATA z"
  "nAttrReturned (norm z) = nAttrReturned z" "z_r (norm z) = spent" "z_cap (norm z) = 0"
  "data_start (norm z) = data_start z - raw_start z" "data_end (norm z) = data_end z - raw_start z"
  "key_start (norm z) = key_start z - raw_start z" "key_end (norm z) = key_end z - raw_start z"
  "val_start (norm z) = val_start z - raw_start z" "val_end (norm z) = val_end z - raw_start z"
  "z_attr (norm z) = map (shift_attr (raw_start z)) (z_attr z)"
  by (simp_all add: norm_def shift_spans_def)

text \<open>The operations change single fields; \<open>norm\<close> passes through each of these changes.\<close>

lemma norm_updates [simp]:
  "norm (z\<lparr>z_err := e\<rparr>) = (norm z)\<lparr>z_err := e\<rparr>"
  "norm (z\<lparr>z_tt := t\<rparr>) = (norm z)\<lparr>z_tt := t\<rparr>"
  "norm (z\<lparr>rawTag := s\<rparr>) = (norm z)\<lparr>rawTag := s\<rparr>"
  "norm (z\<lparr>textIsRaw := b\<rparr>) = (norm z)\<lparr>textIsRaw := b\<rparr>"
  "norm (z\<lparr>convertNUL := b\<rparr>) = (norm z)\<lparr>convertNUL := b\<rparr>"
  "norm (z\<lparr>nAttrReturned := n\<rparr>) = (norm z)\<lparr>nAttrReturned := n\<rparr>"
  "norm (z\<lparr>raw_end := i\<rparr>) = (norm z)\<lparr>raw_end := i - raw_start z\<rparr>"
  "norm (z\<lparr>data_start := i\<rparr>) = (norm z)\<lparr>data_start := i - raw_start z\<rparr>"
  "norm (z\<lparr>data_end := i\<rparr>) = (norm z)\<lparr>data_end := i - raw_start z\<rparr>"
  "norm (z\<lparr>key_start := i\<rparr>) = (norm z)\<lparr>key_start := i - raw_start z\<rparr>"
  "norm (z\<lparr>key_end := i\<rparr>) = (norm z)\<lparr>key_end := i - raw_start z\<rparr>"
  "norm (z\<lparr>val_start := i\<rparr>) = (norm z)\<lparr>val_start := i - raw_start z\<rparr>"
  "norm (z\<lparr>val_end := i\<rparr>) = (norm z)\<lparr>val_end := i - raw_start z\<rparr>"
  "norm (z\<lparr>z_attr := as\<rparr>) = (norm z)\<lparr>z_attr := map (shift_attr (raw_start z)) as\<rparr>"
  by (cases "z_readErr z"; simp add: norm_def shift_spans_def off_def stream_def end_err_def)+

lemma norm_unread [simp]: "norm (unread n z) = unread n (norm z)"
  by (simp add: unread_def off_def)

lemma wf_tok_updates [simp]:
  "wf_tok (z\<lparr>z_err := e\<rparr>) = wf_tok z" "wf_tok (z\<lparr>z_tt := t\<rparr>) = wf_tok z" "wf_tok (z\<lparr>rawTag := s\<rparr>) = wf_tok z"
  "wf_tok (z\<lparr>textIsRaw := b\<rparr>) = wf_tok z" "wf_tok (z\<lparr>convertNUL := b\<rparr>) = wf_tok z"
  "wf_tok (z\<lparr>nAttrReturned := n\<rparr>) = wf_tok z" "wf_tok (z\<lparr>data_start := i\<rparr>) = wf_tok z"
  "wf_tok (z\<lparr>data_end := i\<rparr>) = wf_tok z" "wf_tok (z\<lparr>key_start := i\<rparr>) = wf_tok z" "wf_tok (z\<lparr>key_end := i\<rparr>) = wf_tok z"
  "wf_tok (z\<lparr>val_start := i\<rparr>) = wf_tok z" "wf_tok (z\<lparr>val_end := i\<rparr>) = wf_tok z" "wf_tok (z\<lparr>z_attr := as\<rparr>) = wf_tok z"
  by (simp_all add: wf_tok_def)

lemma wf_tok_unread: "wf_tok z \<Longrightarrow> 0 \<le> n \<Longrightarrow> n \<le> off z \<Longrightarrow> wf_tok (unread n z)"
  by (auto simp: wf_tok_def unread_def off_def)

section \<open>Reading a byte\<close>

lemma stream_at_off:
  assumes "wf_tok z" and "raw_end z < int (length (z_buf z))"
  shows "stream z ! nat (off z) = z_buf z ! nat (raw_end z)" and "off z < int (length (stream z))"
  using assms by (auto simp: wf_tok_def off_def stream_def nth_append nat_diff_distrib)

lemma take_byte_sim:
  assumes "wf_tok z" and "raw_end z < int (length (z_buf z))"
  shows "\<exists>c z'. take_byte z = Inr (c, z') \<and> take_byte (norm z) = Inr (c, norm z') \<and> wf_tok z'"
proof -
  have "go_index (z_buf z) (raw_end z) = Inr (z_buf z ! nat (raw_end z))"
    and "go_index (stream z) (off z) = Inr (z_buf z ! nat (raw_end z))"
    using assms stream_at_off [OF assms] by (auto simp: go_index_def wf_tok_def off_def)
  moreover have "wf_tok (z\<lparr>raw_end := raw_end z + 1\<rparr>)" using assms by (auto simp: wf_tok_def)
  ultimately show ?thesis
    by (auto simp: take_byte_def Let_def off_def)
qed

lemma shift_spans_0: "shift_spans 0 z = z"
  by (simp add: shift_spans_def shift_attr_def case_prod_unfold)

text \<open>A refill changes nothing but where the bytes are.\<close>

lemma refill_sim:
  assumes "wf_tok z" and "int (length (z_buf z)) \<le> raw_end z" and "z_readErr z = None"
  obtains (bytes) y where "refill z = take_byte y" and "norm y = norm z" and "wf_tok y"
      and "raw_end y < int (length (z_buf y))"
    | (ended) y where "refill z = Inr (NUL, y\<lparr>z_err := Some (end_err z)\<rparr>)" and "norm y = norm z"
      and "wf_tok y" and "int (length (stream z)) = off z"
proof -
  define live where "live = drop (nat (raw_start z)) (z_buf z)"
  define d where "d = length live"
  define c where "c = (if z_cap z < 2 * d then 2 * z_cap z else z_cap z)"
  have sl: "slice_of (z_buf z) (raw_start z) (raw_end z) = Inr live"
    and d: "int d = off z" and cap: "d < c" 
    using assms by (auto simp: wf_tok_def slice_of_def live_def d_def off_def c_def)
  obtain bs e r' where rd: "readAtLeastOneByte Read (z_r z) (c - d) = (bs, e, r')"
    by (metis prod.exhaust)
  have content: "content (z_r z) = bs @ content r'" and fits: "length bs \<le> c - d"
    using rd.readAtLeastOneByte_split [OF rd] rd.readAtLeastOneByte_le [OF rd] by simp_all
  have "patient_reader (z_r z)" and "0 < c - d" using assms(1) cap by (auto simp: wf_tok_def)
  note promised = rd.readAtLeastOneByte_patient [OF rd this]
  have pat: "patient_reader r'" "final r' = final (z_r z)" by (fact promised(1,2))+
  have nil: "e = Some (final (z_r z))" if "bs = []" by (rule promised(3) [OF that])
  have err: "x = final (z_r z) \<and> content r' = []" if "e = Some x" for x by (rule promised(4) [OF that])
  define y where "y = (shift_spans (raw_start z) z)
      \<lparr>raw_start := 0, raw_end := int d, z_buf := live @ bs, z_cap := c, z_r := r', z_readErr := e\<rparr>"
  have eq: "refill z = (if bs = [] then Inr (NUL, y\<lparr>z_err := e\<rparr>) else take_byte y)"
    by (auto simp: refill_def sl Let_def d_def [symmetric] c_def [symmetric] rd y_def shift_spans_0
        intro!: arg_cong [where f = take_byte])
  have "norm y = norm z"
    using d content pat err
    by (cases e) (auto simp: norm_def y_def off_def stream_def end_err_def shift_spans_def live_def
        assms(3) shift_attr_def case_prod_unfold)
  moreover have "wf_tok y" using fits pat cap err d by (auto simp: wf_tok_def y_def d_def)
  moreover have "raw_end y < int (length (z_buf y))" if "bs \<noteq> []" using that by (simp add: y_def d_def)
  moreover have "int (length (stream z)) = off z" if "bs = []"
    using that nil err content d by (auto simp: stream_def d_def live_def [symmetric])
  ultimately show ?thesis
    using eq nil that by (cases "bs = []") (auto simp: end_err_def assms(3))
qed

lemma readByte_norm: "readByte (norm z) = (if int (length (stream z)) \<le> off z
    then Inr (NUL, (norm z)\<lparr>z_err := Some (end_err z)\<rparr>) else take_byte (norm z))"
  by (simp add: readByte_def)

lemma readByte_sim:
  assumes "wf_tok z"
  shows "\<exists>c z'. readByte z = Inr (c, z') \<and> readByte (norm z) = Inr (c, norm z') \<and> wf_tok z'"
proof (cases "raw_end z < int (length (z_buf z))")
  case True
  then show ?thesis
    using take_byte_sim [OF assms True] stream_at_off(2) [OF assms True]
    by (auto simp: readByte_norm readByte_def)
next
  case False
  show ?thesis
  proof (cases "z_readErr z")
    case None
    from False have "int (length (z_buf z)) \<le> raw_end z" by simp
    with assms show ?thesis using None
    proof (cases rule: refill_sim)
      case (bytes y)
      then have "off z < int (length (stream z))"
        using stream_at_off(2) [of y] by (metis norm_simps(2,3))
      then show ?thesis
        using take_byte_sim [OF bytes(3,4)] bytes(1,2) False None by (auto simp: readByte_norm readByte_def)
    next
      case (ended y)
      then show ?thesis
        using False None by (auto simp: readByte_norm readByte_def)
    qed
  next
    case (Some e)
    then have "int (length (stream z)) \<le> off z"
      using assms False by (auto simp: wf_tok_def stream_def off_def)
    then show ?thesis
      using Some False assms by (auto simp: readByte_norm readByte_def end_err_def)
  qed
qed

section \<open>Reading from a settled buffer\<close>

text \<open>Once all the input is in the buffer, reading only moves \<open>raw.end\<close> and sets the error.\<close>

definition settled :: "Tokenizer \<Rightarrow> bool" where
  "settled y \<longleftrightarrow> z_readErr y \<noteq> None \<and> raw_start y \<le> raw_end y \<and> raw_start y = 0 \<and>
     raw_end y \<le> int (length (z_buf y))"

text \<open>An error other than an exceeded limit is met at the end of the input only.\<close>

definition whole :: "Tokenizer \<Rightarrow> bool" where
  "whole y \<longleftrightarrow> (z_err y \<noteq> None \<longrightarrow> z_maxBuf y \<le> 0 \<longrightarrow>
     raw_end y = int (length (z_buf y)) \<and> z_err y = z_readErr y)"

definition reads :: "Tokenizer \<Rightarrow> Tokenizer \<Rightarrow> bool" where
  "reads y y' \<longleftrightarrow>
     (\<exists>i e. y' = y\<lparr>raw_end := i, z_err := e\<rparr> \<and> raw_end y \<le> i \<and> i \<le> int (length (z_buf y)) \<and>
        (whole y \<longrightarrow> whole y'))"

lemma whole_no_err: "z_err y = None \<Longrightarrow> whole y"
  by (simp add: whole_def)

lemma whole_updates [simp]:
  "whole (y\<lparr>data_start := i\<rparr>) = whole y" "whole (y\<lparr>data_end := i\<rparr>) = whole y"
  "whole (y\<lparr>key_start := i\<rparr>) = whole y" "whole (y\<lparr>key_end := i\<rparr>) = whole y"
  "whole (y\<lparr>val_start := i\<rparr>) = whole y" "whole (y\<lparr>val_end := i\<rparr>) = whole y"
  "whole (y\<lparr>z_attr := as\<rparr>) = whole y" "whole (y\<lparr>z_tt := t\<rparr>) = whole y"
  "whole (y\<lparr>rawTag := s\<rparr>) = whole y" "whole (y\<lparr>textIsRaw := b\<rparr>) = whole y"
  "whole (y\<lparr>convertNUL := b\<rparr>) = whole y" "whole (y\<lparr>nAttrReturned := n\<rparr>) = whole y"
  by (simp_all add: whole_def)

lemma settled_norm [simp, intro]: "wf_tok z \<Longrightarrow> settled (norm z)"
  by (auto simp: settled_def wf_tok_def off_def stream_def)

lemma reads_refl [intro]: "settled y \<Longrightarrow> reads y y"
  by (auto simp: reads_def settled_def intro!: exI [of _ "raw_end y"] exI [of _ "z_err y"])

lemma reads_simps:
  assumes "reads y y'"
  shows "z_buf y' = z_buf y" "raw_start y' = raw_start y" "z_readErr y' = z_readErr y"
    "z_maxBuf y' = z_maxBuf y" "rawTag y' = rawTag y" "z_attr y' = z_attr y" "z_tt y' = z_tt y"
    "data_start y' = data_start y" "data_end y' = data_end y" "key_start y' = key_start y"
    "key_end y' = key_end y" "val_start y' = val_start y" "val_end y' = val_end y"
    "nAttrReturned y' = nAttrReturned y" "allowCDATA y' = allowCDATA y"
    "raw_end y \<le> raw_end y'" "raw_end y' \<le> int (length (z_buf y))" "whole y \<Longrightarrow> whole y'"
  using assms by (auto simp: reads_def)

lemma reads_trans: "reads x y \<Longrightarrow> reads y z \<Longrightarrow> reads x z"
  by (fastforce simp: reads_def)

lemma reads_settled: "settled y \<Longrightarrow> reads y y' \<Longrightarrow> settled y'"
  by (auto simp: reads_def settled_def)

lemma readByte_settled:
  assumes "settled y"
  shows "readByte y =
    (if int (length (z_buf y)) \<le> raw_end y then Inr (NUL, y\<lparr>z_err := z_readErr y\<rparr>)
     else if 0 < z_maxBuf y \<and> z_maxBuf y \<le> raw_end y + 1
     then Inr (NUL, y\<lparr>raw_end := raw_end y + 1, z_err := Some ErrBufferExceeded\<rparr>)
     else Inr (z_buf y ! nat (raw_end y), y\<lparr>raw_end := raw_end y + 1\<rparr>))"
  using assms by (auto simp: readByte_def settled_def take_byte_def go_index_def Let_def)

lemma readByte_reads:
  assumes "settled y" and "readByte y = Inr (c, y')"
  shows "reads y y'" and "settled y'" and "z_err y' = None \<Longrightarrow> raw_end y' = raw_end y + 1"
proof -
  have r: "reads y (y\<lparr>raw_end := i, z_err := e\<rparr>)"
    if "raw_end y \<le> i" "i \<le> int (length (z_buf y))" "whole y \<Longrightarrow> whole (y\<lparr>raw_end := i, z_err := e\<rparr>)" for i e
    using that by (auto simp: reads_def)
  show reads: "reads y y'"
    using assms r [of "raw_end y" "z_readErr y"] r [of "raw_end y + 1" "z_err y"]
      r [of "raw_end y + 1" "Some ErrBufferExceeded"]
    by (auto simp: readByte_settled settled_def whole_def split: if_splits)
  show "settled y'" using reads_settled [OF assms(1) reads] .
  show "z_err y' = None \<Longrightarrow> raw_end y' = raw_end y + 1"
    using assms by (auto simp: readByte_settled settled_def split: if_splits)
qed

lemma read_until_reads:
  "read_until stop y = Inr (c, y') \<Longrightarrow> settled y \<Longrightarrow>
   reads y y' \<and> (z_err y' = None \<longrightarrow> raw_end y < raw_end y' \<and> stop c)"
proof (induction stop y rule: read_until.induct)
  case (1 stop y)
  obtain c1 y1 where y1: "readByte y = Inr (c1, y1)"
    and rest: "if z_err y1 \<noteq> None \<or> stop c1 then c = c1 \<and> y' = y1 else read_until stop y1 = Inr (c, y')"
    using "1.prems"(1) by (subst (asm) read_until.simps) (auto split: if_splits)
  note r = readByte_reads [OF "1.prems"(2) y1]
  show ?case
  proof (cases "z_err y1 \<noteq> None \<or> stop c1")
    case True
    with rest r show ?thesis by auto
  next
    case False
    then have "reads y1 y' \<and> (z_err y' = None \<longrightarrow> raw_end y1 < raw_end y' \<and> stop c)"
      using "1.IH" [OF y1 refl False] rest r by simp
    then show ?thesis
      using r reads_trans reads_simps(16) by fastforce
  qed
qed

text \<open>Giving back bytes of a token that have been read.\<close>

lemma reads_unread:
  assumes "reads y y'" and "0 \<le> n" and "raw_end y + n \<le> raw_end y'" and "z_err y' = None"
  shows "reads y (unread n y')"
proof -
  obtain i e where y': "y' = y\<lparr>raw_end := i, z_err := e\<rparr>" "i \<le> int (length (z_buf y))"
    using assms(1) by (auto simp: reads_def)
  then have "unread n y' = y\<lparr>raw_end := i - n, z_err := e\<rparr>"
    by (simp add: unread_def)
  moreover have "whole (unread n y')" using assms(4) by (simp add: whole_def)
  ultimately show ?thesis using assms y' unfolding reads_def by auto
qed

lemma skipWhiteSpace_reads:
  assumes "skipWhiteSpace y = Inr y'" and "settled y"
  shows "reads y y'"
proof (cases "z_err y")
  case None
  then obtain c y1 where r: "read_until (\<lambda>c. \<not> is_space c) y = Inr (c, y1)"
    and y': "y' = (if z_err y1 \<noteq> None then y1 else unread 1 y1)"
    using assms by (auto simp: skipWhiteSpace_def)
  then show ?thesis
    using read_until_reads [OF r assms(2)] reads_unread [of y y1 1] by (auto split: if_splits)
qed (use assms in \<open>auto simp: skipWhiteSpace_def\<close>)

lemma read_match_reads:
  "read_match ps y = Inr (m, y') \<Longrightarrow> settled y \<Longrightarrow>
   reads y y' \<and> (m = Matches \<longrightarrow> raw_end y' = raw_end y + int (length ps)) \<and>
   (m = Differs \<longrightarrow> raw_end y + 1 \<le> raw_end y' \<and> z_err y' = None \<and> z_err y = None) \<and>
   (m = ReadFailed \<longrightarrow> z_err y' \<noteq> None)"
proof (induction ps arbitrary: y)
  case (Cons p ps)
  obtain c y1 where y1: "readByte y = Inr (c, y1)"
    and rest: "if z_err y1 \<noteq> None then m = ReadFailed \<and> y' = y1
               else if \<not> p c then m = Differs \<and> y' = y1 else read_match ps y1 = Inr (m, y')"
    using Cons.prems(1) by (auto split: if_splits)
  note r = readByte_reads [OF Cons.prems(2) y1] and e = readByte_err [OF y1]
  show ?case
  proof (cases "z_err y1 = None \<and> p c")
    case True
    with rest Cons.IH [of y1] r show ?thesis
      using reads_trans reads_simps(16) [of y1 y'] e by auto
  qed (use rest r e in \<open>auto split: if_splits\<close>)
qed auto

section \<open>Agreement with the settled buffer\<close>

definition agree :: "'a tok \<Rightarrow> 'a tok \<Rightarrow> bool" where
  "agree m m' \<longleftrightarrow> (\<exists>a z. m = Inr (a, z) \<and> m' = Inr (a, norm z) \<and> wf_tok z)"

definition agree1 :: "Tokenizer go \<Rightarrow> Tokenizer go \<Rightarrow> bool" where
  "agree1 m m' \<longleftrightarrow> (\<exists>z. m = Inr z \<and> m' = Inr (norm z) \<and> wf_tok z)"

lemma agreeI [intro!]: "wf_tok z \<Longrightarrow> y = norm z \<Longrightarrow> a = b \<Longrightarrow> agree (Inr (a, z)) (Inr (b, y))"
  by (auto simp: agree_def)

lemma agree1I [intro!]: "wf_tok z \<Longrightarrow> y = norm z \<Longrightarrow> agree1 (Inr z) (Inr y)"
  by (auto simp: agree1_def)

lemma agree_bind:
  assumes "agree m m'"
    and "\<And>a z. m' = Inr (a, norm z) \<Longrightarrow> wf_tok z \<Longrightarrow> agree (f (a, z)) (f (a, norm z))"
  shows "agree (go_bind m f) (go_bind m' f)"
  using assms unfolding agree_def [of m] by auto

lemma agree_bind1:
  assumes "agree m m'"
    and "\<And>a z. m' = Inr (a, norm z) \<Longrightarrow> wf_tok z \<Longrightarrow> agree1 (f (a, z)) (f (a, norm z))"
  shows "agree1 (go_bind m f) (go_bind m' f)"
  using assms unfolding agree_def by auto

lemma agree1_bind:
  assumes "agree1 m m'"
    and "\<And>z. m' = Inr (norm z) \<Longrightarrow> wf_tok z \<Longrightarrow> agree (f z) (f (norm z))"
  shows "agree (go_bind m f) (go_bind m' f)"
  using assms unfolding agree1_def by auto

lemma agree1_bind1:
  assumes "agree1 m m'"
    and "\<And>z. m' = Inr (norm z) \<Longrightarrow> wf_tok z \<Longrightarrow> agree1 (f z) (f (norm z))"
  shows "agree1 (go_bind m f) (go_bind m' f)"
  using assms unfolding agree1_def [of m] by auto

lemmas agree_binds = agree_bind agree_bind1 agree1_bind agree1_bind1

lemma readByte_agree: "wf_tok z \<Longrightarrow> agree (readByte z) (readByte (norm z))"
  using readByte_sim by (auto simp: agree_def)

lemma read_until_agree: "wf_tok z \<Longrightarrow> agree (read_until stop z) (read_until stop (norm z))"
proof (induction stop z rule: read_until.induct)
  case (1 stop z)
  obtain c z1 where z1: "readByte z = Inr (c, z1)" "readByte (norm z) = Inr (c, norm z1)" "wf_tok z1"
    using readByte_sim [OF "1.prems"] by blast
  show ?case
    using 1 z1 by (subst (1 2) read_until.simps) auto
qed

lemma agreeE:
  assumes "agree m m'"
  obtains a z where "m = Inr (a, z)" and "m' = Inr (a, norm z)" and "wf_tok z"
  using assms by (auto simp: agree_def)

lemma agree1E:
  assumes "agree1 m m'"
  obtains z where "m = Inr z" and "m' = Inr (norm z)" and "wf_tok z"
  using assms by (auto simp: agree1_def)

lemma off_nonneg: "wf_tok z \<Longrightarrow> 0 \<le> off z"
  by (simp add: wf_tok_def off_def)

text \<open>A byte that has been read can be given back.\<close>

lemma off_updates [simp]:
  "off (z\<lparr>z_err := e\<rparr>) = off z" "off (z\<lparr>z_tt := t\<rparr>) = off z" "off (z\<lparr>rawTag := s\<rparr>) = off z"
  "off (z\<lparr>textIsRaw := b\<rparr>) = off z" "off (z\<lparr>convertNUL := b\<rparr>) = off z"
  "off (z\<lparr>nAttrReturned := n\<rparr>) = off z" "off (z\<lparr>data_start := i\<rparr>) = off z"
  "off (z\<lparr>data_end := i\<rparr>) = off z" "off (z\<lparr>key_start := i\<rparr>) = off z"
  "off (z\<lparr>key_end := i\<rparr>) = off z" "off (z\<lparr>val_start := i\<rparr>) = off z"
  "off (z\<lparr>val_end := i\<rparr>) = off z" "off (z\<lparr>z_attr := as\<rparr>) = off z"
  by (simp_all add: off_def)

lemma unread_0 [simp]: "unread 0 z = z"
  by (simp add: unread_def)

lemma unread_unread: "unread m (unread n z) = unread (m + n) z"
  by (simp add: unread_def)

lemma off_unread [simp]: "off (unread n z) = off z - n"
  by (simp add: off_def)

lemma reads_off:
  "reads (norm z) (norm z') \<Longrightarrow> off z \<le> off z'"
  using reads_simps(16) [of "norm z" "norm z'"] by simp

lemma skipWhiteSpace_agree:
  assumes "wf_tok z"
  shows "agree1 (skipWhiteSpace z) (skipWhiteSpace (norm z))"
proof (cases "z_err z")
  case None
  obtain c z1 where r: "read_until (\<lambda>c. \<not> is_space c) z = Inr (c, z1)"
    "read_until (\<lambda>c. \<not> is_space c) (norm z) = Inr (c, norm z1)" "wf_tok z1"
    using read_until_agree [OF assms] by (rule agreeE)
  have "z_err z1 = None \<Longrightarrow> 1 \<le> off z1"
    using read_until_reads [OF r(2)] assms off_nonneg [OF assms] by auto
  then show ?thesis
    using None r by (auto simp: skipWhiteSpace_def intro: wf_tok_unread)
qed (use assms in \<open>auto simp: skipWhiteSpace_def\<close>)

lemma read_match_agree: "wf_tok z \<Longrightarrow> agree (read_match ps z) (read_match ps (norm z))"
proof (induction ps arbitrary: z)
  case (Cons p ps)
  obtain c z1 where "readByte z = Inr (c, z1)" "readByte (norm z) = Inr (c, norm z1)" "wf_tok z1"
    using readByte_agree [OF Cons.prems] by (rule agreeE)
  then show ?case using Cons.IH [of z1] by auto
qed auto

lemma read_match_err: "read_match ps y = Inr (m, y') \<Longrightarrow> z_err y' = None \<Longrightarrow> z_err y = None"
  by (induction ps arbitrary: y) (auto split: if_splits dest: readByte_err)

lemma reads_no_err:
  assumes "reads y y'" and "z_err y' = z_err y"
  shows "y' = y\<lparr>raw_end := raw_end y'\<rparr>"
  using assms by (auto simp: reads_def)

section \<open>Raw text\<close>

lemma readRawEndTag_reads:
  assumes "readRawEndTag y = Inr (b, y')" and "settled y"
  shows "\<not> b \<Longrightarrow> reads y y'"
    and "b \<Longrightarrow> y' = y\<lparr>raw_end := raw_end y - 2\<rparr> \<and>
      raw_end y + int (length (rawTag y)) + 1 \<le> int (length (z_buf y))"
proof -
  let ?ps = "map (\<lambda>t c. c = t \<or> c = byte_minus t) (rawTag y)"
  obtain m y1 where m: "read_match ?ps y = Inr (m, y1)"
    using assms by (auto simp: readRawEndTag_def)
  note r1 = read_match_reads [OF m assms(2)]
  have s1: "settled y1" using r1 reads_settled assms(2) by blast
  have "(\<not> b \<longrightarrow> reads y y') \<and> (b \<longrightarrow> y' = y\<lparr>raw_end := raw_end y - 2\<rparr> \<and>
      raw_end y + int (length (rawTag y)) + 1 \<le> int (length (z_buf y)))"
  proof (cases m)
    case Matches
    then obtain c y2 where y2: "readByte y1 = Inr (c, y2)" and
      y': "if z_err y2 \<noteq> None then y' = y2 \<and> \<not> b
           else y' = (if b then unread (3 + int (length (rawTag y2))) y2 else unread 1 y2)"
      using assms m by (auto simp: readRawEndTag_def split: if_splits)
    note r2 = readByte_reads [OF s1 y2]
    have r: "reads y y2" using r1 r2(1) reads_trans by blast
    show ?thesis
    proof (cases "z_err y2")
      case None
      then have i: "raw_end y2 = raw_end y + int (length (rawTag y)) + 1"
        using r1 r2 Matches by simp
      have e: "z_err y2 = z_err y"
        using None readByte_err [OF y2] read_match_err [OF m] by simp
      have i2: "raw_end y2 \<le> int (length (z_buf y))" and t: "rawTag y2 = rawTag y"
        using reads_simps [OF r] by auto
      show ?thesis
        using y' None i i2 t reads_no_err [OF r e] reads_unread [OF r, of 1]
        by (auto simp: unread_def split: if_splits)
    qed (use y' r in auto)
  qed (use assms m r1 in \<open>auto simp: readRawEndTag_def intro: reads_unread\<close>)
  then show "\<not> b \<Longrightarrow> reads y y'" and "b \<Longrightarrow> y' = y\<lparr>raw_end := raw_end y - 2\<rparr> \<and>
      raw_end y + int (length (rawTag y)) + 1 \<le> int (length (z_buf y))" by auto
qed

lemma readRawEndTag_agree:
  assumes "wf_tok z" and "2 \<le> off z"
  shows "agree (readRawEndTag z) (readRawEndTag (norm z))"
proof -
  let ?ps = "map (\<lambda>t c. c = t \<or> c = byte_minus t) (rawTag z)"
  obtain m z1 where m: "read_match ?ps z = Inr (m, z1)" "read_match ?ps (norm z) = Inr (m, norm z1)" "wf_tok z1"
    using read_match_agree [OF assms(1)] by (rule agreeE)
  note r1 = read_match_reads [OF m(2) settled_norm [OF assms(1)]]
  show ?thesis
  proof (cases m)
    case Matches
    obtain c z2 where z2: "readByte z1 = Inr (c, z2)" "readByte (norm z1) = Inr (c, norm z2)" "wf_tok z2"
      using readByte_agree [OF m(3)] by (rule agreeE)
    note r2 = readByte_reads [OF settled_norm [OF m(3)] z2(2)]
    have "rawTag z1 = rawTag z" "rawTag z2 = rawTag z1"
      using read_match_rawTag [OF m(1)] readByte_rawTag [OF z2(1)] .
    moreover have "z_err z2 = None \<Longrightarrow> off z2 = off z + int (length (rawTag z)) + 1"
      using r1 r2(3) Matches by simp
    ultimately show ?thesis
      using m z2 Matches assms(2)
      by (auto simp: readRawEndTag_def intro!: wf_tok_unread)
  qed (use m r1 assms(2) in \<open>auto simp: readRawEndTag_def intro!: wf_tok_unread\<close>)
qed

text \<open>
  \<open>runs Q m m'\<close>: the two runs return the same, in corresponding states, and the settled one
  satisfies \<open>Q\<close>.
\<close>

definition runs :: "('a \<Rightarrow> Tokenizer \<Rightarrow> bool) \<Rightarrow> 'a tok \<Rightarrow> 'a tok \<Rightarrow> bool" where
  "runs Q m m' \<longleftrightarrow> (\<exists>a z. m = Inr (a, z) \<and> m' = Inr (a, norm z) \<and> wf_tok z \<and> Q a (norm z))"

definition runs1 :: "(Tokenizer \<Rightarrow> bool) \<Rightarrow> Tokenizer go \<Rightarrow> Tokenizer go \<Rightarrow> bool" where
  "runs1 Q m m' \<longleftrightarrow> (\<exists>z. m = Inr z \<and> m' = Inr (norm z) \<and> wf_tok z \<and> Q (norm z))"

lemma runsE:
  assumes "runs Q m m'"
  obtains a z where "m = Inr (a, z)" and "m' = Inr (a, norm z)" and "wf_tok z" and "Q a (norm z)"
  using assms by (auto simp: runs_def)

lemma runs1E:
  assumes "runs1 Q m m'"
  obtains z where "m = Inr z" and "m' = Inr (norm z)" and "wf_tok z" and "Q (norm z)"
  using assms by (auto simp: runs1_def)

lemma runsI [intro!]:
  "wf_tok z \<Longrightarrow> y = norm z \<Longrightarrow> a = b \<Longrightarrow> Q a (norm z) \<Longrightarrow> runs Q (Inr (a, z)) (Inr (b, y))"
  by (auto simp: runs_def)

lemma runs1I [intro!]: "wf_tok z \<Longrightarrow> y = norm z \<Longrightarrow> Q (norm z) \<Longrightarrow> runs1 Q (Inr z) (Inr y)"
  by (auto simp: runs1_def)

lemma runs1_weaken: "runs1 P m m' \<Longrightarrow> (\<And>y. P y \<Longrightarrow> Q y) \<Longrightarrow> runs1 Q m m'"
  by (auto simp: runs1_def)

text \<open>Reading a byte in both runs.\<close>

lemma read_both:
  assumes "wf_tok z"
  obtains c z1 where "readByte z = Inr (c, z1)" and "readByte (norm z) = Inr (c, norm z1)"
    and "wf_tok z1" and "reads (norm z) (norm z1)"
    and "z_err z1 = None \<longrightarrow> off z1 = off z + 1 \<and> z_err z = None"
proof -
  obtain c z1 where z1: "readByte z = Inr (c, z1)" "readByte (norm z) = Inr (c, norm z1)" "wf_tok z1"
    using readByte_agree [OF assms] by (rule agreeE)
  then show thesis
    using readByte_reads [OF settled_norm [OF assms] z1(2)] readByte_err [OF z1(1)] that [OF z1] by auto
qed

lemma until_both:
  assumes "wf_tok z"
  obtains c z1 where "read_until stop z = Inr (c, z1)" and "read_until stop (norm z) = Inr (c, norm z1)"
    and "wf_tok z1" and "reads (norm z) (norm z1)"
    and "z_err z1 = None \<longrightarrow> off z < off z1 \<and> stop c \<and> z_err z = None"
proof -
  obtain c z1 where z1: "read_until stop z = Inr (c, z1)" "read_until stop (norm z) = Inr (c, norm z1)" "wf_tok z1"
    using read_until_agree [OF assms] by (rule agreeE)
  then show thesis
    using read_until_reads [OF z1(2) settled_norm [OF assms]] read_until_err [OF z1(1)] that [OF z1] by auto
qed

lemma skip_both:
  assumes "wf_tok z"
  obtains z1 where "skipWhiteSpace z = Inr z1" and "skipWhiteSpace (norm z) = Inr (norm z1)"
    and "wf_tok z1" and "reads (norm z) (norm z1)" and "z_err z1 = None \<longrightarrow> z_err z = None"
proof -
  obtain z1 where z1: "skipWhiteSpace z = Inr z1" "skipWhiteSpace (norm z) = Inr (norm z1)" "wf_tok z1"
    using skipWhiteSpace_agree [OF assms] by (rule agree1E)
  then show thesis
    using skipWhiteSpace_reads [OF z1(2) settled_norm [OF assms]] skipWhiteSpace_ahead(2) [OF z1(1)]
      that [OF z1] by auto
qed

lemma match_both:
  assumes "wf_tok z"
  obtains m z1 where "read_match ps z = Inr (m, z1)" and "read_match ps (norm z) = Inr (m, norm z1)"
    and "wf_tok z1" and "reads (norm z) (norm z1)"
    and "m = Matches \<longrightarrow> off z1 = off z + int (length ps)"
    and "m = Differs \<longrightarrow> off z < off z1 \<and> z_err z1 = None \<and> z_err z = None"
    and "m = ReadFailed \<longrightarrow> z_err z1 \<noteq> None"
proof -
  obtain m z1 where z1: "read_match ps z = Inr (m, z1)" "read_match ps (norm z) = Inr (m, norm z1)" "wf_tok z1"
    using read_match_agree [OF assms] by (rule agreeE)
  note r = read_match_reads [OF z1(2) settled_norm [OF assms]]
  show thesis
    by (rule that [OF z1]) (use r in \<open>auto simp del: not_None_eq\<close>)
qed

declare read_match.simps [simp del]

lemma off_minus: "raw_end z - n - raw_start z = off z - n"
  by (simp add: off_def)

lemmas off_fold = off_def [symmetric] off_minus

lemma readRawEndTag_runs:
  assumes "wf_tok z" and "2 \<le> off z"
  obtains b z1 where "readRawEndTag z = Inr (b, z1)" and "readRawEndTag (norm z) = Inr (b, norm z1)"
    and "wf_tok z1" and "\<not> b \<longrightarrow> reads (norm z) (norm z1)"
    and "b \<longrightarrow> norm z1 = (norm z)\<lparr>raw_end := off z - 2\<rparr> \<and>
      off z + int (length (rawTag z)) + 1 \<le> int (length (stream z))"
proof -
  obtain b z1 where z1: "readRawEndTag z = Inr (b, z1)" "readRawEndTag (norm z) = Inr (b, norm z1)" "wf_tok z1"
    using readRawEndTag_agree [OF assms] by (rule agreeE)
  then show thesis
    using readRawEndTag_reads [OF z1(2) settled_norm [OF assms(1)]] that [OF z1] by auto
qed

lemma runs1_reads_trans: "reads x y \<Longrightarrow> runs1 (reads y) m m' \<Longrightarrow> runs1 (reads x) m m'"
  using reads_trans by (blast intro: runs1_weaken)

lemma reads_norm_raw_end:
  "reads (norm z) (norm z1) \<Longrightarrow> z_err z1 = None \<Longrightarrow> off z \<le> i \<Longrightarrow> i \<le> off z1 \<Longrightarrow> reads (norm z) ((norm z1)\<lparr>raw_end := i\<rparr>)"
  using reads_unread [of "norm z" "norm z1" "off z1 - i"] by (simp add: unread_def)

lemma rcdata_loop_runs:
  "wf_tok z \<Longrightarrow> runs1 (reads (norm z)) (rcdata_loop z) (rcdata_loop (norm z))"
proof (induction z rule: rcdata_loop.induct)
  case (1 z)
  obtain c z1 where z1: "readByte z = Inr (c, z1)" "readByte (norm z) = Inr (c, norm z1)" "wf_tok z1"
    and r1: "reads (norm z) (norm z1)" and o1: "z_err z1 = None \<longrightarrow> off z1 = off z + 1 \<and> z_err z = None"
    using "1.prems" by (rule read_both)
  obtain d z2 where z2: "readByte z1 = Inr (d, z2)" "readByte (norm z1) = Inr (d, norm z2)" "wf_tok z2"
    and r2: "reads (norm z1) (norm z2)" and o2: "z_err z2 = None \<longrightarrow> off z2 = off z1 + 1 \<and> z_err z1 = None"
    using z1(3) by (rule read_both)
  note IH1 = "1.IH"(1) [OF z1(1) refl] and IH2 = "1.IH"(2) [OF z1(1) refl _ _ z2(1) refl]
  note IH3 = "1.IH"(3) [OF z1(1) refl _ _ z2(1) refl]
  have r12: "reads (norm z) (norm z2)" using r1 r2 by (rule reads_trans)
  show ?case
  proof (cases "z_err z2 = None \<and> c = CHR ''<'' \<and> d = CHR ''/''")
    case True
    then have "2 \<le> off z2" using o1 o2 off_nonneg [OF "1.prems"] by auto
    with z2(3) obtain b z3 where z3: "readRawEndTag z2 = Inr (b, z3)"
      "readRawEndTag (norm z2) = Inr (b, norm z3)" "wf_tok z3" "\<not> b \<longrightarrow> reads (norm z2) (norm z3)"
      "b \<longrightarrow> norm z3 = (norm z2)\<lparr>raw_end := off z2 - 2\<rparr> \<and>
        off z2 + int (length (rawTag z2)) + 1 \<le> int (length (stream z2))"
      by (rule readRawEndTag_runs)
    have "reads (norm z) (norm z3)"
      using z3(4,5) r12 reads_trans o1 o2 True reads_norm_raw_end [OF r12, of "off z2 - 2"]
      by (cases b) auto
    then show ?thesis
      using True z1 z2 z3 o2 IH3 runs1_reads_trans
      by (subst (1 2) rcdata_loop.simps) auto
  next
    case False
    then show ?thesis
      using z1 z2 r1 r12 IH1 IH2 runs1_reads_trans
      by (subst (1 2) rcdata_loop.simps) auto
  qed
qed

lemma reads_unread2:
  assumes "reads y y'" and "0 \<le> k" and "0 \<le> n" and "raw_end y - n \<le> raw_end y' - k" and "z_err y' = None \<or> k = 0"
  shows "reads (unread n y) (unread k y')"
proof -
  obtain i e where y': "y' = y\<lparr>raw_end := i, z_err := e\<rparr>" "i \<le> int (length (z_buf y))"
    using assms(1) by (auto simp: reads_def)
  then have "unread k y' = (unread n y)\<lparr>raw_end := i - k, z_err := e\<rparr>"
    by (simp add: unread_def)
  moreover have "whole (unread n y) \<longrightarrow> whole (unread k y')"
    using assms(2-5) reads_simps(4,16,17,18) [OF assms(1)] y' by (auto simp: whole_def)
  ultimately show ?thesis using assms y' unfolding reads_def by auto
qed

lemma reads_earlier: "reads y y' \<Longrightarrow> 0 \<le> n \<Longrightarrow> reads (unread n y) y'"
  using reads_unread2 [of y y' 0 n] reads_simps(16) [of y y'] by simp

text \<open>The bytes of the token that a label of \<open>readScript\<close> may give back.\<close>

fun slack :: "label \<Rightarrow> int" where
  "slack scriptDataLessThanSign = 1"
| "slack scriptDataEndTagOpen = 2"
| "slack scriptDataEscapedLessThanSign = 1"
| "slack scriptDataEscapedEndTagOpen = 2"
| "slack scriptDataDoubleEscapeStart = 2"
| "slack scriptDataDoubleEscapedLessThanSign = 1"
| "slack scriptDataDoubleEscapeEnd = 2"
| "slack l = 0"

lemma slack_nonneg: "0 \<le> slack l"
  by (cases l) simp_all

lemma script_branch_slack:
  "reads_byte l \<Longrightarrow>
   slack (fst (script_branch l c)) + (if snd (script_branch l c) then 1 else 0) \<le> slack l + 1"
  by (induction l c rule: script_branch.induct) (auto simp: reads_byte_def)

lemma double_escape_start_runs:
  assumes "wf_tok z" and "2 \<le> off z"
  obtains n z1 where "double_escape_start z = Inr (n, z1)" and "double_escape_start (norm z) = Inr (n, norm z1)"
    and "wf_tok z1" and "reads (unread 1 (norm z)) (norm z1)"
    and "n = None \<or> n = Some scriptDataEscaped \<or> n = Some scriptDataDoubleEscaped"
proof -
  have u: "wf_tok (unread 1 z)" using assms by (auto intro: wf_tok_unread)
  obtain m z1 where m: "read_match script_letters (unread 1 z) = Inr (m, z1)"
    "read_match script_letters (norm (unread 1 z)) = Inr (m, norm z1)" "wf_tok z1"
    using read_match_agree [OF u] by (rule agreeE)
  note r1 = read_match_reads [OF m(2) settled_norm [OF u]]
  have o: "0 \<le> off z1" "m = Differs \<Longrightarrow> 1 \<le> off z1" 
    using r1 off_nonneg [OF u] reads_off [of "unread 1 z" z1] by (auto simp: off_def)
  obtain c z2 where z2: "readByte z1 = Inr (c, z2)" "readByte (norm z1) = Inr (c, norm z2)" "wf_tok z2"
    and r2: "reads (norm z1) (norm z2)" and o2: "z_err z2 = None \<longrightarrow> off z2 = off z1 + 1 \<and> z_err z1 = None"
    using m(3) by (rule read_both)
  have r12: "reads (norm (unread 1 z)) (norm z2)" using r1 r2 reads_trans by blast
  show thesis
  proof (cases m)
    case ReadFailed
    with that m r1 show ?thesis by (auto simp: double_escape_start_def)
  next
    case Differs
    then have "wf_tok (unread 1 z1)" "reads (norm (unread 1 z)) (norm (unread 1 z1))"
      using o m(3) r1 reads_unread [of "norm (unread 1 z)" "norm z1" 1] by (auto intro: wf_tok_unread)
    with that [of "Some scriptDataEscaped" "unread 1 z1"] m Differs show ?thesis
      by (auto simp: double_escape_start_def)
  next
    case Matches
    have "reads (norm (unread 1 z)) (norm (unread 1 z2))" if "z_err z2 = None"
      using reads_unread [OF r12, of 1] o2 that reads_off [of "unread 1 z" z1] r1 by simp
    moreover have "wf_tok (unread 1 z2)" if "z_err z2 = None"
      using that z2(3) o o2 by (intro wf_tok_unread) auto
    ultimately show ?thesis
      using that m z2 r12 Matches
      by (cases "z_err z2"; cases "ends_name c") (auto simp: double_escape_start_def)
  qed
qed

lemma readRawEndTag_rawTag: "readRawEndTag z = Inr (b, z') \<Longrightarrow> rawTag z' = rawTag z"
proof -
  assume z: "readRawEndTag z = Inr (b, z')"
  then obtain m z1 where "read_match (map (\<lambda>t c. c = t \<or> c = byte_minus t) (rawTag z)) z = Inr (m, z1)"
    by (auto simp: readRawEndTag_def)
  with z show ?thesis
    by (cases m) (auto simp: readRawEndTag_def split: if_splits dest!: read_match_rawTag readByte_rawTag)
qed

text \<open>The bytes of a raw end tag that was found are in the buffer.\<close>

lemma readRawEndTag_buffered:
  assumes "readRawEndTag z = Inr (True, z')" and "wf_tok z"
  shows "wf_tok (unread (- 3 - int (length (rawTag z))) z')"
proof -
  let ?ps = "map (\<lambda>t c. c = t \<or> c = byte_minus t) (rawTag z)"
  obtain m z1 where m: "read_match ?ps z = Inr (m, z1)" "wf_tok z1"
    using read_match_agree [OF assms(2), of ?ps] by (auto simp: agree_def)
  then obtain c z2 where z2: "readByte z1 = Inr (c, z2)" "wf_tok z2"
    using readByte_agree [of z1] by (auto simp: agree_def)
  have t: "rawTag z2 = rawTag z" using read_match_rawTag [OF m(1)] readByte_rawTag [OF z2(1)] by simp
  then have "z' = unread (3 + int (length (rawTag z))) z2"
    using assms(1) m z2 by (cases m) (auto simp: readRawEndTag_def split: if_splits)
  then have "unread (- 3 - int (length (rawTag z))) z' = z2"
    by (simp add: unread_def)
  then show ?thesis using z2(2) by simp
qed

text \<open>Where a raw end tag that was looked for leaves the tokenizer, with or without the tag.\<close>

lemma readRawEndTag_unread:
  assumes "wf_tok z" and "2 \<le> off z" and "rawTag z = ''script''"
  obtains b z1 where "readRawEndTag z = Inr (b, z1)" and "readRawEndTag (norm z) = Inr (b, norm z1)"
    and "wf_tok z1" and "rawTag z1 = ''script''" and "reads (unread 2 (norm z)) (norm z1)"
    and "b \<longrightarrow> wf_tok (unread (- 9) z1) \<and> reads (unread 2 (norm z)) (unread (- 9) (norm z1))"
proof -
  obtain b z1 where z1: "readRawEndTag z = Inr (b, z1)"
    "readRawEndTag (norm z) = Inr (b, norm z1)" "wf_tok z1" and f: "\<not> b \<longrightarrow> reads (norm z) (norm z1)"
    and t: "b \<longrightarrow> norm z1 = (norm z)\<lparr>raw_end := off z - 2\<rparr> \<and>
        off z + int (length (rawTag z)) + 1 \<le> int (length (stream z))"
    using assms(1,2) by (rule readRawEndTag_runs)
  have rt: "rawTag z1 = ''script''" using readRawEndTag_rawTag [OF z1(1)] assms(3) by simp
  have r: "reads (unread 2 (norm z)) (norm z1)"
  proof (cases b)
    case True
    with t have "norm z1 = unread 2 (norm z)" by (simp add: unread_def)
    then show ?thesis using t True assms(3) off_nonneg [OF assms(1)] reads_refl [of "unread 2 (norm z)"]
        by (auto simp: settled_def assms)
  next
    case False
    then show ?thesis using f reads_unread2 [of "norm z" "norm z1" 0 2] reads_off [of z z1] by simp
  qed
  have "reads (unread 2 (norm z)) (unread (- 9) (norm z1)) \<and> wf_tok (unread (- 9) z1)" if b
  proof -
    have n: "norm z1 = (norm z)\<lparr>raw_end := off z - 2\<rparr>" "off z + 7 \<le> int (length (stream z))"
      using t that assms(3) by auto
    have "unread (- 9) (norm z1) = (unread 2 (norm z))\<lparr>raw_end := off z + 7, z_err := z_err z\<rparr>"
      using n by (simp add: unread_def)
    moreover have "wf_tok (unread (- 9) z1)"
      using readRawEndTag_buffered [of z z1] z1(1) that assms by simp
    moreover have "whole (unread (- 9) (norm z1))"
      using readRawEndTag_ahead(2) [OF z1(1) that] by (simp add: whole_def)
    ultimately show ?thesis using n unfolding reads_def by auto
  qed
  with that [OF z1 rt r] show thesis by blast
qed

lemma readScript_from_runs:
  "wf_tok z \<Longrightarrow> slack l \<le> off z \<Longrightarrow> rawTag z = ''script'' \<Longrightarrow>
   runs1 (reads (unread (slack l) (norm z))) (readScript_from l z) (readScript_from l (norm z))"
proof (induction l z rule: readScript_from.induct)
  case (1 l z)
  note slack = slack_nonneg [of l]
  consider (tag) "l = scriptDataEndTagOpen \<or> l = scriptDataEscapedEndTagOpen"
    | (fin) "l = scriptDataDoubleEscapeEnd" | (start) "l = scriptDataDoubleEscapeStart"
    | (byte) "reads_byte l" by (auto simp: reads_byte_def)
  then show ?case
  proof cases
    case tag
    then have l: "slack l = 2" by auto
    with "1.prems" obtain b z1 where z1: "readRawEndTag z = Inr (b, z1)"
      "readRawEndTag (norm z) = Inr (b, norm z1)" "wf_tok z1" "rawTag z1 = ''script''"
      "reads (unread 2 (norm z)) (norm z1)"
      by (metis readRawEndTag_unread)
    note IH = "1.IH"(1) [OF tag z1(1) refl]
    have "runs1 (reads (norm z1)) (readScript_from (if l = scriptDataEndTagOpen then scriptData else scriptDataEscaped) z1)
       (readScript_from (if l = scriptDataEndTagOpen then scriptData else scriptDataEscaped) (norm z1))" 
      if "\<not> (b \<or> z_err z1 \<noteq> None)"
      using IH that z1 off_nonneg [OF z1(3)] by (auto split: if_splits)
    then show ?thesis
      using z1 tag l runs1_reads_trans [OF z1(5)]
      by (subst (1 2) readScript_from.simps) auto
  next
    case fin
    with "1.prems" obtain b z1 where z1: "readRawEndTag z = Inr (b, z1)"
      "readRawEndTag (norm z) = Inr (b, norm z1)" "wf_tok z1" "rawTag z1 = ''script''"
      "reads (unread 2 (norm z)) (norm z1)"
      and b: "b \<longrightarrow> wf_tok (unread (- 9) z1) \<and> reads (unread 2 (norm z)) (unread (- 9) (norm z1))"
      using readRawEndTag_unread [of z] by (auto simp: fin)
    have l: "\<not> (l = scriptDataEndTagOpen \<or> l = scriptDataEscapedEndTagOpen)" using fin by simp
    have "runs1 (reads (unread (- 9) (norm z1))) (readScript_from scriptDataEscaped (unread (- 9) z1))
       (readScript_from scriptDataEscaped (unread (- 9) (norm z1)))" if b
      using "1.IH"(2) [OF l fin z1(1) refl that] that b z1(4) off_nonneg [of "unread (- 9) z1"] by auto
    moreover have "runs1 (reads (norm z1)) (readScript_from scriptDataDoubleEscaped z1)
       (readScript_from scriptDataDoubleEscaped (norm z1))" if "\<not> b" "z_err z1 = None"
      using "1.IH"(3) [OF l fin z1(1) refl] that z1 off_nonneg [OF z1(3)] by auto
    ultimately show ?thesis
      using z1 fin b runs1_reads_trans
      by (subst (1 2) readScript_from.simps) auto
  next
    case start
    with "1.prems" obtain n z1 where z1: "double_escape_start z = Inr (n, z1)"
      "double_escape_start (norm z) = Inr (n, norm z1)" "wf_tok z1" "reads (unread 1 (norm z)) (norm z1)"
      and n: "n = None \<or> n = Some scriptDataEscaped \<or> n = Some scriptDataDoubleEscaped"
      using double_escape_start_runs [of z] by auto
    have l: "\<not> (l = scriptDataEndTagOpen \<or> l = scriptDataEscapedEndTagOpen)" "l \<noteq> scriptDataDoubleEscapeEnd"
      using start by simp_all
    have r: "reads (unread 2 (norm z)) (norm z1)"
      using reads_unread2 [OF z1(4), of 0 1] reads_off [of "unread 1 z" z1] z1(4)
      by (simp add: unread_unread)
    have rt: "rawTag z1 = ''script''" using reads_simps(5) [OF z1(4)] "1.prems"(3) by simp
    have "runs1 (reads (norm z1)) (readScript_from l' z1) (readScript_from l' (norm z1))" if "n = Some l'" for l'
      using "1.IH"(4) [OF l start z1(1) refl that] n that z1 rt off_nonneg [OF z1(3)] by auto
    then show ?thesis
      using z1 r start n runs1_reads_trans [OF r]
      by (subst (1 2) readScript_from.simps) auto
  next
    case byte
    obtain c z1 where z1: "readByte z = Inr (c, z1)" "readByte (norm z) = Inr (c, norm z1)" "wf_tok z1"
      and r1: "reads (norm z) (norm z1)" and o1: "z_err z1 = None \<longrightarrow> off z1 = off z + 1 \<and> z_err z = None"
      using "1.prems"(1) by (rule read_both)
    define l' where "l' = fst (script_branch l c)"
    define z2 where "z2 = (if snd (script_branch l c) then unread 1 z1 else z1)"
    have eq: "readScript_from l z = (if z_err z1 \<noteq> None then Inr z1 else readScript_from l' z2)"
      "readScript_from l (norm z) = (if z_err z1 \<noteq> None then Inr (norm z1) else readScript_from l' (norm z2))"
      using byte z1 by (subst readScript_from.simps, auto simp: reads_byte_def l'_def z2_def)+
    show ?thesis
    proof (cases "z_err z1")
      case None
      have bound: "slack l' + (if snd (script_branch l c) then 1 else 0) \<le> slack l + 1"
        using script_branch_slack [OF byte] by (simp add: l'_def)
      then have "wf_tok z2" "slack l' \<le> off z2" "rawTag z2 = ''script''"
        using None o1 z1 "1.prems" slack_nonneg [of l'] readByte_rawTag [OF z1(1)] off_nonneg [OF "1.prems"(1)]
        by (auto simp: z2_def intro!: wf_tok_unread)
      then have "runs1 (reads (unread (slack l') (norm z2))) (readScript_from l' z2) (readScript_from l' (norm z2))"
        using "1.IH"(5) [OF _ _ _ z1(1) refl] byte None
        by (simp add: l'_def z2_def reads_byte_def)
      moreover have "reads (unread (slack l) (norm z)) (unread (slack l') (norm z2))"
        using reads_unread2 [OF r1, of "slack l' + (if snd (script_branch l c) then 1 else 0)" "slack l"]
          bound None o1 slack_nonneg [of l'] slack by (auto simp: z2_def unread_unread split: if_splits)
      ultimately show ?thesis using eq None by (auto intro: runs1_reads_trans)
    qed (use eq z1 reads_earlier [OF r1 slack] in auto)
  qed
qed

text \<open>An operation that reads on in the same input, and the data span it may leave.\<close>

definition moves :: "Tokenizer \<Rightarrow> Tokenizer \<Rightarrow> bool" where
  "moves y y' \<longleftrightarrow> z_buf y' = z_buf y \<and> z_maxBuf y' = z_maxBuf y \<and> raw_end y \<le> raw_end y' \<and>
     z_readErr y' = z_readErr y \<and> (whole y \<longrightarrow> whole y')"

lemma moves_refl [simp]: "moves y y"
  by (simp add: moves_def)

lemma moves_trans: "moves x y \<Longrightarrow> moves y z \<Longrightarrow> moves x z"
  by (auto simp: moves_def)

lemma reads_moves: "reads y y' \<Longrightarrow> moves y y'"
  using reads_simps [of y y'] by (simp add: moves_def)

lemma moves_updates [simp]:
  "moves y (y'\<lparr>data_start := i\<rparr>) = moves y y'" "moves y (y'\<lparr>data_end := i\<rparr>) = moves y y'"
  "moves y (y'\<lparr>key_start := i\<rparr>) = moves y y'" "moves y (y'\<lparr>key_end := i\<rparr>) = moves y y'"
  "moves y (y'\<lparr>val_start := i\<rparr>) = moves y y'" "moves y (y'\<lparr>val_end := i\<rparr>) = moves y y'"
  "moves y (y'\<lparr>z_attr := as\<rparr>) = moves y y'" "moves y (y'\<lparr>z_tt := t\<rparr>) = moves y y'"
  "moves y (y'\<lparr>rawTag := s\<rparr>) = moves y y'" "moves y (y'\<lparr>textIsRaw := b\<rparr>) = moves y y'"
  "moves y (y'\<lparr>convertNUL := b\<rparr>) = moves y y'" "moves y (y'\<lparr>nAttrReturned := n\<rparr>) = moves y y'"
  by (simp_all add: moves_def)

lemma moves_from_updates [simp]:
  "moves (y\<lparr>data_start := i\<rparr>) y' = moves y y'" "moves (y\<lparr>data_end := i\<rparr>) y' = moves y y'"
  "moves (y\<lparr>key_start := i\<rparr>) y' = moves y y'" "moves (y\<lparr>key_end := i\<rparr>) y' = moves y y'"
  "moves (y\<lparr>val_start := i\<rparr>) y' = moves y y'" "moves (y\<lparr>val_end := i\<rparr>) y' = moves y y'"
  "moves (y\<lparr>z_attr := as\<rparr>) y' = moves y y'" "moves (y\<lparr>nAttrReturned := n\<rparr>) y' = moves y y'"
  by (simp_all add: moves_def)

lemma readScript_runs:
  assumes "wf_tok z" and "rawTag z = ''script''"
  shows "runs1 (\<lambda>y. moves (norm z) y \<and> data_start y = data_start (norm z) \<and> data_end y = raw_end y)
    (readScript z) (readScript (norm z))"
proof -
  obtain z1 where z1: "readScript_from scriptData z = Inr z1"
    "readScript_from scriptData (norm z) = Inr (norm z1)" "wf_tok z1" "reads (norm z) (norm z1)"
    using readScript_from_runs [of z scriptData] assms off_nonneg by (auto simp: runs1_def)
  then show ?thesis
    using reads_moves [OF z1(4)] reads_simps(8) [OF z1(4)]
    by (auto simp: readScript_def off_def)
qed

lemma readRawOrRCDATA_runs:
  assumes "wf_tok z"
  shows "runs1 (\<lambda>y. moves (norm z) y \<and> data_start y = data_start (norm z) \<and> data_end y = raw_end y)
    (readRawOrRCDATA z) (readRawOrRCDATA (norm z))"
proof (cases "rawTag z = ''script''")
  case True
  then show ?thesis
    using readScript_runs [OF assms True] by (auto simp: readRawOrRCDATA_def runs1_def)
next
  case False
  obtain z1 where z1: "rcdata_loop z = Inr z1" "rcdata_loop (norm z) = Inr (norm z1)" "wf_tok z1"
    "reads (norm z) (norm z1)"
    using rcdata_loop_runs [OF assms] by (rule runs1E)
  then show ?thesis
    using False reads_moves [OF z1(4)] reads_simps(8) [OF z1(4)]
    by (auto simp: readRawOrRCDATA_def off_def)
qed

section \<open>Comments and declarations\<close>

text \<open>The end of the data that a loop sets lies before the end of what it has read.\<close>

definition data_read :: "Tokenizer \<Rightarrow> Tokenizer \<Rightarrow> bool" where
  "data_read y y' \<longleftrightarrow> moves y y' \<and> data_start y' = data_start y \<and> data_end y' \<le> raw_end y'"

lemma data_readI:
  assumes "reads (norm z) (norm z')" and "i \<le> off z'"
  shows "data_read (norm z) ((norm z')\<lparr>data_end := i\<rparr>)"
  using reads_moves [OF assms(1)] reads_simps(8) [OF assms(1)] assms(2) by (simp add: data_read_def)

lemma runs1_data_read: "reads x y \<Longrightarrow> runs1 (data_read y) m m' \<Longrightarrow> runs1 (data_read x) m m'"
  using reads_moves [of x y] reads_simps(8) [of x y] moves_trans
  by (fastforce simp: data_read_def elim: runs1_weaken)

lemma comment_loop_runs:
  "wf_tok z \<Longrightarrow> 0 \<le> d \<Longrightarrow> runs1 (data_read (norm z)) (comment_loop d z) (comment_loop d (norm z))"
proof (induction d z rule: comment_loop.induct)
  case (1 d z)
  obtain c z1 where z1: "readByte z = Inr (c, z1)" "readByte (norm z) = Inr (c, norm z1)" "wf_tok z1"
    and r1: "reads (norm z) (norm z1)" and o1: "z_err z1 = None \<longrightarrow> off z1 = off z + 1 \<and> z_err z = None"
    using "1.prems"(1) by (rule read_both)
  obtain e z2 where z2: "readByte z1 = Inr (e, z2)" "readByte (norm z1) = Inr (e, norm z2)" "wf_tok z2"
    and r2: "reads (norm z1) (norm z2)" and o2: "z_err z2 = None \<longrightarrow> off z2 = off z1 + 1 \<and> z_err z1 = None"
    using z1(3) by (rule read_both)
  have r12: "reads (norm z) (norm z2)" using r1 r2 by (rule reads_trans)
  note simps = comment_loop.simps [of d z] comment_loop.simps [of d "norm z"]
  show ?case
  proof (cases "z_err z1")
    case (Some x)
    then show ?thesis
      using z1 "1.prems"(2) data_readI [OF r1] by (auto simp: simps off_def)
  next
    case None
    consider (dash) "c = CHR ''-''" | (gt) "c = CHR ''>''" "2 \<le> d" | (bang) "c = CHR ''!''" "2 \<le> d"
      | (other) "c \<noteq> CHR ''-''" "\<not> (c = CHR ''>'' \<and> 2 \<le> d)" "\<not> (c = CHR ''!'' \<and> 2 \<le> d)" by blast
    then show ?thesis
    proof cases
      case dash
      then show ?thesis
        using z1 None "1.IH"(1) [OF z1(1) refl] "1.prems"(2) runs1_data_read [OF r1] by (auto simp: simps)
    next
      case gt
      then show ?thesis using z1 None data_readI [OF r1] by (auto simp: simps off_def)
    next
      case bang
      have "runs1 (data_read (norm z)) (comment_loop 0 z2) (comment_loop 0 (norm z2))"
        if "z_err z2 = None" "e \<noteq> CHR ''>''"
        using that bang None z2(3) runs1_data_read [OF r12] "1.IH"(2) [OF z1(1) refl _ _ _ _ z2(1) refl]
        by auto
      then show ?thesis
        using z1 z2 None bang data_readI [OF r12] by (auto simp: simps off_def)
    next
      case other
      then show ?thesis
        using z1 None "1.IH"(3) [OF z1(1) refl] runs1_data_read [OF r1] by (auto simp: simps)
    qed
  qed
qed

text \<open>A data span that lies within the token and starts where the operation started.\<close>

definition spanned :: "Tokenizer \<Rightarrow> Tokenizer \<Rightarrow> bool" where
  "spanned y y' \<longleftrightarrow> moves y y' \<and> raw_end y \<le> data_start y' \<and> data_start y' \<le> data_end y' \<and>
     data_end y' \<le> raw_end y'"

lemma runs1_spanned: "moves x y \<Longrightarrow> runs1 (spanned y) m m' \<Longrightarrow> runs1 (spanned x) m m'"
  using moves_trans by (fastforce simp: spanned_def moves_def elim: runs1_weaken)

lemma readComment_runs:
  assumes "wf_tok z"
  shows "runs1 (spanned (norm z)) (readComment z) (readComment (norm z))"
proof -
  let ?z = "z\<lparr>data_start := raw_end z\<rparr>"
  have "runs1 (data_read (norm ?z)) (comment_loop 2 ?z) (comment_loop 2 (norm ?z))"
    using assms by (intro comment_loop_runs) auto
  then obtain z1 where z1: "comment_loop 2 ?z = Inr z1" "comment_loop 2 (norm ?z) = Inr (norm z1)" "wf_tok z1"
    "data_read (norm ?z) (norm z1)" by (rule runs1E)
  then show ?thesis
    by (auto simp: readComment_def spanned_def data_read_def off_def [symmetric] moves_def)
qed

lemma readUntilCloseAngle_runs:
  assumes "wf_tok z"
  shows "runs1 (spanned (norm z)) (readUntilCloseAngle z) (readUntilCloseAngle (norm z))"
proof -
  let ?z = "z\<lparr>data_start := raw_end z\<rparr>"
  have "wf_tok ?z" using assms by simp
  then obtain c z1 where z1: "read_until (\<lambda>c. c = CHR ''>'') ?z = Inr (c, z1)"
    "read_until (\<lambda>c. c = CHR ''>'') (norm ?z) = Inr (c, norm z1)" "wf_tok z1"
    and r: "reads (norm ?z) (norm z1)"
    and o: "z_err z1 = None \<longrightarrow> off ?z < off z1 \<and> c = CHR ''>'' \<and> z_err ?z = None"
    by (rule until_both)
  show ?thesis
    using z1 o reads_simps(8) [OF r] reads_moves [OF r] reads_off [OF r]
    by (auto simp: readUntilCloseAngle_def spanned_def off_fold)
qed

text \<open>An attempt that fails leaves the data span alone, or has met an error.\<close>

definition declined :: "Tokenizer \<Rightarrow> Tokenizer \<Rightarrow> bool" where
  "declined y y' \<longleftrightarrow> moves y y' \<and> data_start y' = data_start y \<and> allowCDATA y' = allowCDATA y \<and>
     (z_err y' = None \<longrightarrow> raw_end y' = data_start y')"

lemma readDoctype_runs:
  assumes "wf_tok z" and "data_start z = raw_end z"
  shows "runs (\<lambda>b y. if b then spanned (norm z) y else declined (norm z) y)
    (readDoctype z) (readDoctype (norm z))"
proof -
  let ?ps = "map (\<lambda>s c. c = s \<or> c = byte_plus s) ''DOCTYPE''"
  obtain m z1 where z1: "read_match ?ps z = Inr (m, z1)" "read_match ?ps (norm z) = Inr (m, norm z1)" "wf_tok z1"
    and r1: "reads (norm z) (norm z1)" and "m = Matches \<longrightarrow> off z1 = off z + int (length ?ps)"
    and d: "m = Differs \<longrightarrow> off z < off z1 \<and> z_err z1 = None \<and> z_err z = None"
    and f: "m = ReadFailed \<longrightarrow> z_err z1 \<noteq> None"
    using assms(1) by (rule match_both)
  have ds: "data_start z1 - raw_start z1 = off z" "allowCDATA z1 = allowCDATA z"
    using reads_simps(8,15) [OF r1] assms(2) by (simp_all add: off_def)
  show ?thesis
  proof (cases m)
    case ReadFailed
    then show ?thesis
      using z1 f ds assms(2) reads_moves [OF r1]
      by (auto simp: readDoctype_def declined_def off_fold)
  next
    case Differs
    have "wf_tok (z1\<lparr>raw_end := data_start z1\<rparr>)"
      using z1(3) d Differs ds(1) off_nonneg [OF assms(1)] by (auto simp: wf_tok_def off_def)
    then show ?thesis
      using z1 Differs ds assms(2) reads_moves [OF r1] d
      by (auto simp: readDoctype_def declined_def moves_def whole_no_err off_fold)
  next
    case Matches
    obtain z2 where z2: "skipWhiteSpace z1 = Inr z2" "skipWhiteSpace (norm z1) = Inr (norm z2)" "wf_tok z2"
      and r2: "reads (norm z1) (norm z2)"
      using z1(3) by (rule skip_both)
    have m2: "moves (norm z) (norm z2)" using reads_moves [OF reads_trans [OF r1 r2]] .
    obtain z3 where z3: "readUntilCloseAngle z2 = Inr z3" "readUntilCloseAngle (norm z2) = Inr (norm z3)" "wf_tok z3"
      "spanned (norm z2) (norm z3)"
      using readUntilCloseAngle_runs [OF z2(3)] by (rule runs1E)
    then have "spanned (norm z) (norm z3)"
      using m2 by (auto simp: spanned_def moves_def)
    then show ?thesis
      using z1 z2 z3 Matches m2
      by (auto simp: readDoctype_def spanned_def moves_def off_fold)
  qed
qed

lemma cdata_loop_runs:
  "wf_tok z \<Longrightarrow> data_start z + int k \<le> raw_end z \<Longrightarrow>
   runs1 (\<lambda>y. data_read (norm z) y \<and> data_start y \<le> data_end y) (cdata_loop k z) (cdata_loop k (norm z))"
proof (induction k z rule: cdata_loop.induct)
  case (1 k z)
  obtain c z1 where z1: "readByte z = Inr (c, z1)" "readByte (norm z) = Inr (c, norm z1)" "wf_tok z1"
    and r1: "reads (norm z) (norm z1)" and o1: "z_err z1 = None \<longrightarrow> off z1 = off z + 1 \<and> z_err z = None"
    using "1.prems"(1) by (rule read_both)
  have ds: "data_start z1 - raw_start z1 = data_start z - raw_start z"
    using reads_simps(8) [OF r1] by simp
  have weak: "runs1 (\<lambda>y. data_read (norm z) y \<and> data_start y \<le> data_end y) m m'"
    if "runs1 (\<lambda>y. data_read (norm z1) y \<and> data_start y \<le> data_end y) m m'" for m m'
    using that reads_moves [OF r1] reads_simps(8) [OF r1] moves_trans
    by (fastforce simp: data_read_def elim: runs1_weaken)
  note simps = cdata_loop.simps [of k z] cdata_loop.simps [of k "norm z"]
  have off: "data_start z1 + int k \<le> raw_end z1" "z_err z1 = None \<Longrightarrow> data_start z1 + int k + 1 \<le> raw_end z1"
    "data_start z1 - raw_start z1 \<le> off z1"
    using reads_off [OF r1] o1 ds "1.prems"(2) by (auto simp: off_def)
  consider (err) "z_err z1 \<noteq> None" | (bracket) "z_err z1 = None" "c = CHR '']''"
    | (gt) "z_err z1 = None" "c = CHR ''>''" "2 \<le> k"
    | (other) "z_err z1 = None" "c \<noteq> CHR '']''" "\<not> (c = CHR ''>'' \<and> 2 \<le> k)" by blast
  then show ?case
  proof cases
    case err
    then show ?thesis using z1 data_readI [OF r1] off by (auto simp: simps off_fold)
  next
    case bracket
    then show ?thesis using z1 "1.IH"(1) [OF z1(1) refl] off weak by (auto simp: simps)
  next
    case gt
    then have "data_start z1 - raw_start z1 \<le> off z1 - 3" using off(2) by (simp add: off_def)
    then show ?thesis using z1 gt data_readI [OF r1] by (auto simp: simps off_fold)
  next
    case other
    then show ?thesis using z1 "1.IH"(2) [OF z1(1) refl] off weak by (auto simp: simps)
  qed
qed

lemma readCDATA_runs:
  assumes "wf_tok z" and "raw_start z \<le> data_start z" and "data_start z \<le> raw_end z" and "z_err z = None \<Longrightarrow> data_start z = raw_end z"
  shows "runs (\<lambda>b y. if b then spanned (norm z) y else moves (norm z) y)
    (readCDATA z) (readCDATA (norm z))"
proof -
  let ?ps = "map (=) ''[CDATA[''"
  obtain m z1 where z1: "read_match ?ps z = Inr (m, z1)" "read_match ?ps (norm z) = Inr (m, norm z1)" "wf_tok z1"
    and r1: "reads (norm z) (norm z1)" and "m = Matches \<longrightarrow> off z1 = off z + int (length ?ps)"
    and d: "m = Differs \<longrightarrow> off z < off z1 \<and> z_err z1 = None \<and> z_err z = None"
    and f: "m = ReadFailed \<longrightarrow> z_err z1 \<noteq> None"
    using assms(1) by (rule match_both)
  have ds: "data_start z1 - raw_start z1 = data_start z - raw_start z"
    using reads_simps(8) [OF r1] by simp
  show ?thesis
  proof (cases m)
    case ReadFailed
    then show ?thesis
      using z1 reads_moves [OF r1] by (auto simp: readCDATA_def off_fold)
  next
    case Differs
    have "wf_tok (z1\<lparr>raw_end := data_start z1\<rparr>)"
      using z1(3) d Differs ds assms off_nonneg [OF assms(1)] by (auto simp: wf_tok_def off_def)
    then show ?thesis
      using z1 Differs ds assms(4) d reads_moves [OF r1]
      by (auto simp: readCDATA_def moves_def whole_no_err off_def)
  next
    case Matches
    let ?z1 = "z1\<lparr>data_start := raw_end z1\<rparr>"
    obtain z2 where z2: "cdata_loop 0 ?z1 = Inr z2" "cdata_loop 0 (norm ?z1) = Inr (norm z2)" "wf_tok z2"
      "data_read (norm ?z1) (norm z2) \<and> data_start (norm z2) \<le> data_end (norm z2)"
      using cdata_loop_runs [of ?z1 0] z1(3) by (auto simp: runs1_def)
    then have "spanned (norm z) (norm z2)"
      using reads_moves [OF r1] by (auto simp: spanned_def data_read_def moves_def off_fold)
    then show ?thesis
      using z1 z2 Matches by (auto simp: readCDATA_def off_fold)
  qed
qed

lemma readMarkupDeclaration_runs:
  assumes "wf_tok z"
  shows "runs (\<lambda>t y. spanned (norm z) y \<and> t \<in> {CommentToken, DoctypeToken, TextToken})
    (readMarkupDeclaration z) (readMarkupDeclaration (norm z))"
proof -
  let ?z = "z\<lparr>data_start := raw_end z\<rparr>"
  have wf: "wf_tok ?z" using assms by simp
  then obtain c z1 where z1: "readByte ?z = Inr (c, z1)" "readByte (norm ?z) = Inr (c, norm z1)" "wf_tok z1"
    and r1: "reads (norm ?z) (norm z1)" and o1: "z_err z1 = None \<longrightarrow> off z1 = off ?z + 1 \<and> z_err ?z = None"
    by (rule read_both)
  obtain d z2 where z2: "readByte z1 = Inr (d, z2)" "readByte (norm z1) = Inr (d, norm z2)" "wf_tok z2"
    and r2: "reads (norm z1) (norm z2)" and o2: "z_err z2 = None \<longrightarrow> off z2 = off z1 + 1 \<and> z_err z1 = None"
    using z1(3) by (rule read_both)
  have r12: "reads (norm ?z) (norm z2)" using r1 r2 by (rule reads_trans)
  have m: "moves (norm z) (norm z1)" "moves (norm z) (norm z2)"
    using reads_moves [OF r1] reads_moves [OF r12] by auto
  have ds: "data_start z1 - raw_start z1 = off z" "data_start z2 - raw_start z2 = off z"
    using reads_simps(8) [OF r1] reads_simps(8) [OF r12] by (simp_all add: off_fold)
  note defs = readMarkupDeclaration_def
  consider (err) "z_err z1 \<noteq> None \<or> z_err z2 \<noteq> None"
    | (comment) "z_err z1 = None" "z_err z2 = None" "c = CHR ''-''" "d = CHR ''-''"
    | (other) "z_err z1 = None" "z_err z2 = None" "\<not> (c = CHR ''-'' \<and> d = CHR ''-'')" by blast
  then show ?thesis
  proof cases
    case err
    have off: "off z \<le> off z1" "off z \<le> off z2" using m by (simp_all add: moves_def)
    have "spanned (norm z) ((norm z1)\<lparr>data_end := off z1\<rparr>)" "spanned (norm z) ((norm z2)\<lparr>data_end := off z2\<rparr>)"
      using m ds off by (simp_all add: spanned_def)
    then show ?thesis
      using z1 z2 err by (cases "z_err z1"; cases "z_err z2") (auto simp: defs off_fold)
  next
    case comment
    obtain z3 where z3: "readComment z2 = Inr z3" "readComment (norm z2) = Inr (norm z3)" "wf_tok z3"
      "spanned (norm z2) (norm z3)"
      using readComment_runs [OF z2(3)] by (rule runs1E)
    then have "spanned (norm z) (norm z3)" using m(2) by (auto simp: spanned_def moves_def)
    then show ?thesis using z1 z2 z3 comment by (auto simp: defs off_fold)
  next
    case other
    let ?u = "unread 2 z2"
    have "off z2 = off z + 2" using o1 o2 other by simp
    then have u: "wf_tok ?u" "data_start ?u = raw_end ?u" "off ?u = off z" "moves (norm z) (norm ?u)"
      using z2(3) ds(2) off_nonneg [OF assms] m(2) other(2)
      by (auto intro!: wf_tok_unread whole_no_err simp: moves_def) (simp_all add: off_def)
    obtain b z3 where z3: "readDoctype ?u = Inr (b, z3)" "readDoctype (norm ?u) = Inr (b, norm z3)" "wf_tok z3"
      and b: "if b then spanned (norm ?u) (norm z3) else declined (norm ?u) (norm z3)"
      using readDoctype_runs [OF u(1,2)] by (rule runsE)
    show ?thesis
    proof (cases b)
      case True
      then have "spanned (norm z) (norm z3)" using b u by (auto simp: spanned_def moves_def)
      then show ?thesis using True z1 z2 z3 other by (auto simp: defs off_fold)
    next
      case False
      then have dec: "moves (norm z) (norm z3)" "data_start z3 - raw_start z3 = off z"
        "z_err z3 = None \<longrightarrow> raw_end z3 = data_start z3"
        using b u ds by (auto simp: declined_def moves_def off_def)
      have ok: "raw_start z3 \<le> data_start z3" "data_start z3 \<le> raw_end z3"
        using dec off_nonneg [OF assms] by (auto simp: moves_def off_def)
      have close: "runs (\<lambda>t y. spanned (norm z) y \<and> t \<in> {CommentToken, DoctypeToken, TextToken})
          (go_bind (readUntilCloseAngle w) (\<lambda>z. Inr (CommentToken, z)))
          (go_bind (readUntilCloseAngle (norm w)) (\<lambda>z. Inr (CommentToken, z)))"
        if "wf_tok w" "moves (norm z) (norm w)" for w
        using readUntilCloseAngle_runs [OF that(1)] that(2)
        by (auto simp: runs1_def spanned_def moves_def)
      obtain b2 z4 where z4: "readCDATA z3 = Inr (b2, z4)" "readCDATA (norm z3) = Inr (b2, norm z4)" "wf_tok z4"
        "if b2 then spanned (norm z3) (norm z4) else moves (norm z3) (norm z4)"
        using readCDATA_runs [OF z3(3) ok] dec(3) by (auto simp: runs_def)
      have "b2 \<longrightarrow> spanned (norm z) (norm z4)" "moves (norm z) (norm z4)"
        using z4(4) dec(1) by (auto simp: spanned_def moves_def split: if_splits)
      then show ?thesis
        using False z1 z2 z3 z4 other close [OF z3(3) dec(1)] close [OF z4(3)]
        by (auto simp: defs off_fold spanned_def)
    qed
  qed
qed

end
