(* ===== verification/Html_Token_Next.thy ===== *)
theory Html_Token_Next
  imports Html_Token_Buffer
begin

text \<open>
  Tags and the next token, over any reader. The lemmas continue those of the buffer: every
  operation runs alike on a tokenizer and on its settled form, and the spans it leaves are
  ordered and lie within the token. They end in \<open>Next_runs\<close>: \<open>Next\<close> returns, takes
  bytes from the input unless it reports an error, and leaves spans from which the token can be
  read.
\<close>

section \<open>Tag names\<close>

lemma unread_keeps [simp]:
  "z_attr (unread n z) = z_attr z" "nAttrReturned (unread n z) = nAttrReturned z" "z_tt (unread n z) = z_tt z"
  "key_start (unread n z) = key_start z" "key_end (unread n z) = key_end z"
  "val_start (unread n z) = val_start z" "val_end (unread n z) = val_end z"
  by (simp_all add: unread_def)

lemma moves_unread:
  "moves y y' \<Longrightarrow> raw_end y + n \<le> raw_end y' \<Longrightarrow> z_err y' = None \<Longrightarrow> moves y (unread n y')"
  by (auto simp: moves_def whole_def)

lemma readTagName_runs:
  assumes "wf_tok z" and "1 \<le> off z"
  shows "runs1 (\<lambda>y. moves (norm z) y \<and> data_start y = off z - 1 \<and> off z \<le> data_end y \<and>
      data_end y \<le> raw_end y \<and> z_attr y = z_attr (norm z) \<and> nAttrReturned y = nAttrReturned z)
    (readTagName z) (readTagName (norm z))"
proof -
  let ?z = "z\<lparr>data_start := raw_end z - 1\<rparr>"
  have "wf_tok ?z" using assms by simp
  then obtain c z1 where z1: "read_until ends_name ?z = Inr (c, z1)"
    "read_until ends_name (norm ?z) = Inr (c, norm z1)" "wf_tok z1"
    and r: "reads (norm ?z) (norm z1)"
    and o: "z_err z1 = None \<longrightarrow> off ?z < off z1 \<and> ends_name c \<and> z_err ?z = None"
    by (rule until_both)
  have m: "moves (norm z) (norm z1)" using reads_moves [OF r] by simp
  have ds: "data_start z1 - raw_start z1 = off z - 1" "nAttrReturned z1 = nAttrReturned z"
    "map (shift_attr (raw_start z1)) (z_attr z1) = map (shift_attr (raw_start z)) (z_attr z)" "off z \<le> off z1"
    using reads_simps [OF r] by (simp_all add: off_fold)
  have u: "wf_tok (unread 1 z1) \<and> moves (norm z) (unread 1 (norm z1))" if "z_err z1 = None"
    using that z1(3) o assms(2) m by (auto intro!: wf_tok_unread moves_unread)
  show ?thesis
    using z1 m ds o u
    by (cases "z_err z1") (auto simp: readTagName_def off_fold)
qed

section \<open>Attributes\<close>

text \<open>What reading an attribute leaves as it is.\<close>

definition tag_kept :: "Tokenizer \<Rightarrow> Tokenizer \<Rightarrow> bool" where
  "tag_kept y y' \<longleftrightarrow> moves y y' \<and> data_start y' = data_start y \<and> data_end y' = data_end y \<and>
     z_attr y' = z_attr y \<and> nAttrReturned y' = nAttrReturned y"

lemma tag_kept_refl [simp]: "tag_kept y y"
  by (simp add: tag_kept_def)

lemma tag_kept_trans: "tag_kept x y \<Longrightarrow> tag_kept y z \<Longrightarrow> tag_kept x z"
  using moves_trans by (auto simp: tag_kept_def)

lemma reads_tag_kept: "reads y y' \<Longrightarrow> tag_kept y y'"
  using reads_moves reads_simps by (simp add: tag_kept_def)

lemma tag_kept_updates [simp]:
  "tag_kept y (y'\<lparr>key_start := i\<rparr>) = tag_kept y y'" "tag_kept y (y'\<lparr>key_end := i\<rparr>) = tag_kept y y'"
  "tag_kept y (y'\<lparr>val_start := i\<rparr>) = tag_kept y y'" "tag_kept y (y'\<lparr>val_end := i\<rparr>) = tag_kept y y'"
  "tag_kept (y\<lparr>key_start := i\<rparr>) y' = tag_kept y y'" "tag_kept (y\<lparr>key_end := i\<rparr>) y' = tag_kept y y'"
  "tag_kept (y\<lparr>val_start := i\<rparr>) y' = tag_kept y y'" "tag_kept (y\<lparr>val_end := i\<rparr>) y' = tag_kept y y'"
  by (simp_all add: tag_kept_def)

lemma tag_kept_unread:
  "tag_kept y y' \<Longrightarrow> raw_end y + n \<le> raw_end y' \<Longrightarrow> z_err y' = None \<Longrightarrow> tag_kept y (unread n y')"
  using moves_unread [of y y' n] by (simp add: tag_kept_def unread_def)

lemma readTagAttrKey_runs:
  assumes "wf_tok z"
  shows "runs1 (\<lambda>y. tag_kept (norm z) y \<and> key_start y = off z \<and> off z \<le> key_end y \<and> key_end y \<le> raw_end y)
    (readTagAttrKey z) (readTagAttrKey (norm z))"
proof -
  let ?z = "z\<lparr>key_start := raw_end z\<rparr>"
  have "wf_tok ?z" using assms by simp
  then obtain c z1 where z1: "read_until ends_key ?z = Inr (c, z1)"
    "read_until ends_key (norm ?z) = Inr (c, norm z1)" "wf_tok z1"
    and r: "reads (norm ?z) (norm z1)"
    and o: "z_err z1 = None \<longrightarrow> off ?z < off z1 \<and> ends_key c \<and> z_err ?z = None"
    by (rule until_both)
  have m: "tag_kept (norm z) (norm z1)" using reads_tag_kept [OF r] by simp
  have ks: "key_start z1 - raw_start z1 = off z" "off z \<le> off z1"
    using reads_simps(10,16) [OF r] by (simp_all add: off_fold)
  have u: "wf_tok (unread 1 z1) \<and> tag_kept (norm z) (unread 1 (norm z1))" if "z_err z1 = None"
    using that z1(3) o off_nonneg [OF assms] m by (auto intro!: wf_tok_unread tag_kept_unread)
  show ?thesis
    using z1 m ks o u
    by (cases "z_err z1") (auto simp: readTagAttrKey_def off_fold)
qed

text \<open>The value span that reading a value leaves, after the byte at which it started.\<close>

definition valued :: "int \<Rightarrow> Tokenizer \<Rightarrow> Tokenizer \<Rightarrow> bool" where
  "valued i y y' \<longleftrightarrow> tag_kept y y' \<and> key_start y' = key_start y \<and> key_end y' = key_end y \<and>
     i \<le> val_start y' \<and> val_start y' \<le> val_end y' \<and> val_end y' \<le> raw_end y'"

lemma reads_valued:
  "reads y y' \<Longrightarrow> valued i x y \<Longrightarrow> valued i x y'"
  using tag_kept_trans [OF _ reads_tag_kept] reads_simps [of y y'] by (fastforce simp: valued_def)

lemma valued_unread:
  "valued i x y \<Longrightarrow> val_end y + n \<le> raw_end y \<Longrightarrow> raw_end x + n \<le> raw_end y \<Longrightarrow> z_err y = None \<Longrightarrow>
   valued i x (unread n y)"
  using tag_kept_unread [of x y n] by (auto simp: valued_def unread_def)

lemma attr_value_runs:
  assumes "wf_tok z" and "valued i x (norm z)" and "i + 1 \<le> off z" and "val_end (norm z) + 1 \<le> off z"
    and "raw_end x + 1 \<le> off z" and "z_err z = None" and "0 \<le> i"
  shows "runs1 (valued i x) (attr_value q z) (attr_value q (norm z))"
proof -
  have x: "tag_kept x (norm z)" "key_start (norm z) = key_start x" "key_end (norm z) = key_end x"
    using assms(2) by (auto simp: valued_def)
  have key: "tag_kept x y \<and> key_start y = key_start x \<and> key_end y = key_end x"
    if "reads ((norm z)\<lparr>val_start := j\<rparr>) y" for j y
    using tag_kept_trans [OF x(1), of y] reads_tag_kept [OF that] reads_simps(10,11) [OF that] x by simp
  consider (gt) "q = CHR ''>''" | (quoted) "q \<noteq> CHR ''>''" "q = CHR 0x27 \<or> q = CHR 0x22"
    | (plain) "q \<noteq> CHR ''>''" "\<not> (q = CHR 0x27 \<or> q = CHR 0x22)" by blast
  then show ?thesis
  proof cases
    case gt
    then show ?thesis
      using assms valued_unread [OF assms(2), of 1]
      by (auto simp: attr_value_def intro!: wf_tok_unread)
  next
    case quoted
    let ?z = "z\<lparr>val_start := raw_end z\<rparr>"
    have "wf_tok ?z" using assms by simp
    then obtain c z1 where z1: "read_until (\<lambda>c. c = q) ?z = Inr (c, z1)"
      "read_until (\<lambda>c. c = q) (norm ?z) = Inr (c, norm z1)" "wf_tok z1"
      and r: "reads (norm ?z) (norm z1)"
      and o: "z_err z1 = None \<longrightarrow> off ?z < off z1 \<and> c = q \<and> z_err ?z = None"
      by (rule until_both)
    have "val_start z1 - raw_start z1 = off z" "off z \<le> off z1"
      using reads_simps(12,16) [OF r] by (simp_all add: off_fold)
    moreover have "tag_kept x (norm z1) \<and> key_start (norm z1) = key_start x \<and> key_end (norm z1) = key_end x"
      using key [of "raw_end z - raw_start z" "norm z1"] r by simp
    ultimately have "valued i x ((norm z1)\<lparr>val_end := (if z_err z1 \<noteq> None then off z1 else off z1 - 1)\<rparr>)"
      using o assms(3) by (auto simp: valued_def)
    then show ?thesis
      using quoted z1 by (auto simp: attr_value_def off_fold)
  next
    case plain
    let ?z = "z\<lparr>val_start := raw_end z - 1\<rparr>" and ?p = "\<lambda>c. is_space c \<or> c = CHR ''>''"
    have "wf_tok ?z" using assms by simp
    then obtain c z1 where z1: "read_until ?p ?z = Inr (c, z1)"
      "read_until ?p (norm ?z) = Inr (c, norm z1)" "wf_tok z1"
      and r: "reads (norm ?z) (norm z1)"
      and o: "z_err z1 = None \<longrightarrow> off ?z < off z1 \<and> ?p c \<and> z_err ?z = None"
      by (rule until_both)
    have vs: "val_start z1 - raw_start z1 = off z - 1" "off z \<le> off z1"
      using reads_simps(12,16) [OF r] by (simp_all add: off_fold)
    have kept: "tag_kept x (norm z1) \<and> key_start (norm z1) = key_start x \<and> key_end (norm z1) = key_end x"
      using key [of "raw_end z - 1 - raw_start z" "norm z1"] r by simp
    then have v: "valued i x ((norm z1)\<lparr>val_end := j\<rparr>)" if "off z - 1 \<le> j" "j \<le> off z1" for j
      using vs assms(3) that by (auto simp: valued_def)
    have u: "wf_tok (unread 1 z1) \<and> valued i x ((unread 1 (norm z1))\<lparr>val_end := off z1 - 1\<rparr>)"
      if "z_err z1 = None"
      using that o z1(3) assms(3,5) off_nonneg [OF assms(1)] kept vs tag_kept_unread [of x "norm z1" 1]
      by (auto simp: valued_def intro!: wf_tok_unread)
    show ?thesis
      using plain z1 o u v vs(2)
      by (cases "z_err z1") (auto simp: attr_value_def off_fold)
  qed
qed

lemma readTagAttrVal_runs:
  assumes "wf_tok z"
  shows "runs1 (valued (off z) (norm z)) (readTagAttrVal z) (readTagAttrVal (norm z))"
proof -
  let ?z = "z\<lparr>val_start := raw_end z, val_end := raw_end z\<rparr>"
  have wf: "wf_tok ?z" using assms by simp
  have v: "valued (off z) (norm z) (norm ?z)" by (simp add: valued_def off_fold)
  obtain z1 where z1: "skipWhiteSpace ?z = Inr z1" "skipWhiteSpace (norm ?z) = Inr (norm z1)" "wf_tok z1"
    and r1: "reads (norm ?z) (norm z1)"
    using wf by (rule skip_both)
  obtain c z2 where z2: "readByte z1 = Inr (c, z2)" "readByte (norm z1) = Inr (c, norm z2)" "wf_tok z2"
    and r2: "reads (norm z1) (norm z2)" and o2: "z_err z2 = None \<longrightarrow> off z2 = off z1 + 1 \<and> z_err z1 = None"
    using z1(3) by (rule read_both)
  obtain z3 where z3: "skipWhiteSpace z2 = Inr z3" "skipWhiteSpace (norm z2) = Inr (norm z3)" "wf_tok z3"
    and r3: "reads (norm z2) (norm z3)" and e3: "z_err z3 = None \<longrightarrow> z_err z2 = None"
    using z2(3) by (rule skip_both)
  obtain q z4 where z4: "readByte z3 = Inr (q, z4)" "readByte (norm z3) = Inr (q, norm z4)" "wf_tok z4"
    and r4: "reads (norm z3) (norm z4)" and o4: "z_err z4 = None \<longrightarrow> off z4 = off z3 + 1 \<and> z_err z3 = None"
    using z3(3) by (rule read_both)
  have v1: "valued (off z) (norm z) (norm z1)" using reads_valued [OF r1 v] .
  have v2: "valued (off z) (norm z) (norm z2)" using reads_valued [OF r2 v1] .
  have v3: "valued (off z) (norm z) (norm z3)" using reads_valued [OF r3 v2] .
  have v4: "valued (off z) (norm z) (norm z4)" using reads_valued [OF r4 v3] .
  have off1: "off z \<le> off z1" using reads_off [OF r1] by simp
  have off3: "off z \<le> off z3" using off1 reads_off [OF r2] reads_off [OF r3] by simp
  have ve: "val_end z2 - raw_start z2 \<le> off z1" "val_end z4 - raw_start z4 \<le> off z3"
    using v1 v3 reads_simps(13) [OF r2] reads_simps(13) [OF r4] by (simp_all add: valued_def)
  have giveback: "wf_tok (unread 1 z2) \<and> valued (off z) (norm z) (unread 1 (norm z2))" if "z_err z2 = None"
    using that o2 z2(3) off1 ve(1) off_nonneg [OF assms] valued_unread [OF v2, of 1]
    by (auto intro!: wf_tok_unread)
  have "runs1 (valued (off z) (norm z)) (attr_value q z4) (attr_value q (norm z4))" if "z_err z4 = None"
    using that o4 off3 off_nonneg [OF assms] ve(2) by (intro attr_value_runs [OF z4(3) v4]) auto
  then show ?thesis
    unfolding readTagAttrVal_def
    using z1 z2 z3 z4 v1 v2 v3 v4 giveback o2 e3 o4
    by (cases "z_err z1"; cases "z_err z2"; cases "z_err z3"; cases "z_err z4") (auto simp: off_fold)
qed

text \<open>The spans of the attributes are in order and do not overlap.\<close>

fun chained :: "int \<Rightarrow> (span \<times> span) list \<Rightarrow> int \<Rightarrow> bool" where
  "chained lo [] hi \<longleftrightarrow> lo \<le> hi"
| "chained lo (((a, b), (c, d)) # as) hi \<longleftrightarrow> lo \<le> a \<and> a < b \<and> b \<le> c \<and> c \<le> d \<and> chained d as hi"

lemma chained_mono: "chained lo as hi \<Longrightarrow> hi \<le> hi' \<Longrightarrow> chained lo as hi'"
  by (induction lo as hi rule: chained.induct) auto

lemma chained_snoc:
  "chained lo as a \<Longrightarrow> a < b \<Longrightarrow> b \<le> c \<Longrightarrow> c \<le> d \<Longrightarrow> d \<le> hi \<Longrightarrow> chained lo (as @ [((a, b), (c, d))]) hi"
  by (induction lo as a rule: chained.induct) auto

lemma chained_le: "chained lo as hi \<Longrightarrow> lo \<le> hi"
  by (induction lo as hi rule: chained.induct) auto

lemma chained_shift: "chained (lo - x) (map (shift_attr x) as) (hi - x) = chained lo as hi"
  by (induction lo as hi rule: chained.induct) (auto simp: shift_attr_def)

lemma norm_save_attr [simp]: "norm (save_attr s z) = save_attr s (norm z)"
  by (auto simp: save_attr_def shift_attr_def)

lemma wf_tok_save_attr [simp]: "wf_tok (save_attr s z) = wf_tok z"
  by (simp add: save_attr_def)

definition in_tag :: "bool \<Rightarrow> Tokenizer \<Rightarrow> Tokenizer \<Rightarrow> bool" where
  "in_tag saveAttr y y' \<longleftrightarrow> moves y y' \<and> data_start y' = data_start y \<and> data_end y' = data_end y \<and>
     nAttrReturned y' = nAttrReturned y \<and> chained (data_end y') (z_attr y') (raw_end y') \<and>
     (\<not> saveAttr \<longrightarrow> z_attr y' = z_attr y)"

lemma in_tag_trans: "in_tag s x y \<Longrightarrow> in_tag s y z \<Longrightarrow> in_tag s x z"
  using moves_trans by (auto simp: in_tag_def)

lemma in_tag_chained: "in_tag s x y \<Longrightarrow> chained (data_end y) (z_attr y) (raw_end y)"
  unfolding in_tag_def by blast

lemma in_tag_moves: "in_tag s x y \<Longrightarrow> moves x y"
  unfolding in_tag_def by blast

lemma in_tag_no_attr: "in_tag s x y \<Longrightarrow> z_attr x = [] \<Longrightarrow> \<not> s \<Longrightarrow> z_attr y = []"
  unfolding in_tag_def by simp

lemma tag_kept_in_tag:
  "tag_kept y y' \<Longrightarrow> chained (data_end y) (z_attr y) (raw_end y) \<Longrightarrow> in_tag s y y'"
  using chained_mono by (auto simp: tag_kept_def in_tag_def moves_def)

lemma save_attr_in_tag:
  assumes "chained (data_end y) (z_attr y) (raw_end y)" and "tag_kept y y'"
    and "raw_end y \<le> key_start y'" and "key_start y' \<le> key_end y'" and "key_end y' \<le> val_start y'"
    and "val_start y' \<le> val_end y'" and "val_end y' \<le> raw_end y'"
  shows "in_tag s y (save_attr s y')"
proof -
  have "chained (data_end y) (z_attr y @ [((key_start y', key_end y'), (val_start y', val_end y'))]) (raw_end y')"
    if "key_start y' \<noteq> key_end y'"
    using assms that by (intro chained_snoc chained_mono [OF assms(1)]) auto
  then show ?thesis
    using assms chained_mono [OF assms(1), of "raw_end y'"] by (auto simp: save_attr_def tag_kept_def in_tag_def)
qed

lemma tag_loop_runs:
  "wf_tok z \<Longrightarrow> chained (data_end (norm z)) (z_attr (norm z)) (raw_end (norm z)) \<Longrightarrow>
   runs1 (\<lambda>y. in_tag s (norm z) y \<and> (z_err y = None \<longrightarrow> off z < raw_end y)) (tag_loop s z) (tag_loop s (norm z))"
proof (induction s z rule: tag_loop.induct)
  case (1 s z)
  obtain c z1 where z1: "readByte z = Inr (c, z1)" "readByte (norm z) = Inr (c, norm z1)" "wf_tok z1"
    and r1: "reads (norm z) (norm z1)" and o1: "z_err z1 = None \<longrightarrow> off z1 = off z + 1 \<and> z_err z = None"
    using "1.prems"(1) by (rule read_both)
  note simps = tag_loop.simps [of s z] tag_loop.simps [of s "norm z"]
  have t1: "in_tag s (norm z) (norm z1)" using tag_kept_in_tag [OF reads_tag_kept [OF r1] "1.prems"(2)] .
  show ?case
  proof (cases "z_err z1 \<noteq> None \<or> c = CHR ''>''")
    case True
    then show ?thesis using z1 t1 o1 by (auto simp: simps)
  next
    case False
    let ?u = "unread 1 z1"
    have u: "wf_tok ?u" "off ?u = off z" "tag_kept (norm z) (norm ?u)"
      using False o1 z1(3) off_nonneg [OF "1.prems"(1)] tag_kept_unread [OF reads_tag_kept [OF r1], of 1]
      by (auto intro!: wf_tok_unread)
    obtain z2 where z2: "readTagAttrKey ?u = Inr z2" "readTagAttrKey (norm ?u) = Inr (norm z2)" "wf_tok z2"
      and k: "tag_kept (norm ?u) (norm z2) \<and> key_start (norm z2) = off ?u \<and> off ?u \<le> key_end (norm z2) \<and>
        key_end (norm z2) \<le> raw_end (norm z2)"
      using readTagAttrKey_runs [OF u(1)] by (rule runs1E)
    obtain z3 where z3: "readTagAttrVal z2 = Inr z3" "readTagAttrVal (norm z2) = Inr (norm z3)" "wf_tok z3"
      and v: "valued (off z2) (norm z2) (norm z3)"
      using readTagAttrVal_runs [OF z2(3)] by (rule runs1E)
    have "wf_tok (save_attr s z3)" using z3 by simp
    then obtain z4 where z4: "skipWhiteSpace (save_attr s z3) = Inr z4"
      "skipWhiteSpace (norm (save_attr s z3)) = Inr (norm z4)" "wf_tok z4"
      and r4: "reads (norm (save_attr s z3)) (norm z4)"
      by (rule skip_both)
    have kept: "tag_kept (norm z) (norm z3)"
      using u(3) k v tag_kept_trans unfolding valued_def by blast
    have key: "key_start (norm z3) = off z" "off z \<le> key_end (norm z3)" "key_end (norm z3) \<le> off z2"
      using k v u(2) by (auto simp: valued_def)
    have val: "off z2 \<le> val_start (norm z3)" "val_start (norm z3) \<le> val_end (norm z3)"
      "val_end (norm z3) \<le> raw_end (norm z3)"
      using v by (auto simp: valued_def)
    have t3: "in_tag s (norm z) (save_attr s (norm z3))"
      using "1.prems"(2) kept by (rule save_attr_in_tag) (use key val in auto)
    have t4: "in_tag s (norm z) (norm z4)"
      by (rule in_tag_trans [OF t3 tag_kept_in_tag [OF reads_tag_kept [OF r4 [unfolded norm_save_attr]] in_tag_chained [OF t3]]])
    have step: "tag_loop s z = (if z_err z4 \<noteq> None then Inr z4 else tag_loop s z4)"
      "tag_loop s (norm z) = (if z_err z4 \<noteq> None then Inr (norm z4) else tag_loop s (norm z4))"
      using False z1 z2 z3 z4 by (auto simp: simps)
    show ?thesis
    proof (cases "z_err z4")
      case None
      have "runs1 (\<lambda>y. in_tag s (norm z4) y \<and> (z_err y = None \<longrightarrow> off z4 < raw_end y))
          (tag_loop s z4) (tag_loop s (norm z4))"
        by (rule "1.IH" [OF z1(1) refl False z2(1) z3(1) z4(1) _ z4(3) in_tag_chained [OF t4]]) (simp add: None)
      moreover have "off z \<le> off z4" using in_tag_moves [OF t4] by (simp add: moves_def)
      ultimately show ?thesis
        using step None in_tag_trans [OF t4] by (auto elim!: runs1_weaken)
    qed (use step z4(3) t4 in auto)
  qed
qed

text \<open>The spans of a tag whose first letter is at \<open>i - 1\<close>.\<close>

definition tagged :: "int \<Rightarrow> Tokenizer \<Rightarrow> bool" where
  "tagged i y \<longleftrightarrow> data_start y = i - 1 \<and> i \<le> data_end y \<and>
     chained (data_end y) (z_attr y) (raw_end y) \<and> nAttrReturned y = 0"

lemma in_tag_tagged: "tagged i x \<Longrightarrow> in_tag s x y \<Longrightarrow> tagged i y"
  by (auto simp: tagged_def in_tag_def)

lemma readTag_runs:
  assumes "wf_tok z" and "1 \<le> off z"
  shows "runs1 (\<lambda>y. moves (norm z) y \<and> tagged (off z) y \<and> (\<not> s \<longrightarrow> z_attr y = []) \<and>
      (z_err y = None \<longrightarrow> off z < raw_end y))
    (readTag s z) (readTag s (norm z))"
proof -
  let ?z = "z\<lparr>z_attr := [], nAttrReturned := 0\<rparr>"
  have z: "wf_tok ?z" "1 \<le> off ?z" using assms by simp_all
  obtain z1 where z1: "readTagName ?z = Inr z1" "readTagName (norm ?z) = Inr (norm z1)" "wf_tok z1"
    and n: "moves (norm ?z) (norm z1) \<and> data_start (norm z1) = off ?z - 1 \<and> off ?z \<le> data_end (norm z1) \<and>
      data_end (norm z1) \<le> raw_end (norm z1) \<and> z_attr (norm z1) = z_attr (norm ?z) \<and>
      nAttrReturned (norm z1) = nAttrReturned ?z"
    using readTagName_runs [OF z] by (rule runs1E)
  have t1: "tagged (off z) (norm z1)" and m1: "moves (norm z) (norm z1)" and a1: "z_attr (norm z1) = []"
    using n by (simp_all add: tagged_def)
  obtain z2 where z2: "skipWhiteSpace z1 = Inr z2" "skipWhiteSpace (norm z1) = Inr (norm z2)" "wf_tok z2"
    and r2: "reads (norm z1) (norm z2)"
    using z1(3) by (rule skip_both)
  have i2: "in_tag s (norm z1) (norm z2)"
    using reads_tag_kept [OF r2] t1 unfolding tagged_def by (blast intro: tag_kept_in_tag)
  have p2: "moves (norm z) (norm z2) \<and> tagged (off z) (norm z2) \<and> (\<not> s \<longrightarrow> z_attr (norm z2) = [])"
    using in_tag_tagged [OF t1 i2] moves_trans [OF m1 in_tag_moves [OF i2]] in_tag_no_attr [OF i2 a1] by blast
  have p2m: "moves (norm z) (norm z2)" and p2t: "tagged (off z) (norm z2)" using p2 by blast+
  obtain z3 where z3: "tag_loop s z2 = Inr z3" "tag_loop s (norm z2) = Inr (norm z3)" "wf_tok z3"
    and t: "in_tag s (norm z2) (norm z3) \<and>
      (z_err (norm z3) = None \<longrightarrow> off z2 < raw_end (norm z3))"
    using tag_loop_runs [OF z2(3) in_tag_chained [OF i2]] by (rule runs1E)
  have i3: "in_tag s (norm z2) (norm z3)" using t by blast
  have p3: "moves (norm z) (norm z3) \<and> tagged (off z) (norm z3) \<and> (\<not> s \<longrightarrow> z_attr (norm z3) = [])"
    using in_tag_tagged [OF p2t i3] moves_trans [OF p2m in_tag_moves [OF i3]] in_tag_no_attr [OF i3] p2 by blast
  have o: "z_err (norm z3) = None \<longrightarrow> off z < raw_end (norm z3)"
    using conjunct2 [OF t] p2m by (auto simp: moves_def simp del: not_None_eq)
  show ?thesis
  proof (cases "z_err z2")
    case None
    then have eq: "readTag s z = Inr z3" "readTag s (norm z) = Inr (norm z3)"
      using z1 z2 z3 by (simp_all add: readTag_def)
    show ?thesis unfolding eq by (rule runs1I [OF z3(3) refl]) (use p3 o in blast)
  next
    case (Some e)
    then have "readTag s z = Inr z2" "readTag s (norm z) = Inr (norm z2)"
      using z1 z2 by (simp_all add: readTag_def)
    then show ?thesis using z2(3) p2 Some unfolding runs1_def by simp
  qed
qed

section \<open>Start tags\<close>

text \<open>Positions within the token read the same bytes in both buffers.\<close>

lemma index_norm:
  assumes "wf_tok z" and "raw_start z \<le> i" and "i < raw_end z"
  shows "go_index (z_buf z) i = Inr (z_buf z ! nat i)"
    and "go_index (stream z) (i - raw_start z) = go_index (z_buf z) i"
proof -
  have i: "0 \<le> i" "i < int (length (z_buf z))" "raw_start z \<le> int (length (z_buf z))" "0 \<le> raw_start z"
    using assms by (auto simp: wf_tok_def)
  then have "stream z ! nat (i - raw_start z) = z_buf z ! nat i" "i - raw_start z < int (length (stream z))"
    using assms(2) by (auto simp: stream_def nth_append nat_diff_distrib)
  then show "go_index (stream z) (i - raw_start z) = go_index (z_buf z) i"
    using i assms(2) by (simp add: go_index_def)
  show "go_index (z_buf z) i = Inr (z_buf z ! nat i)" using i by (simp add: go_index_def)
qed

lemma slice_norm:
  assumes "wf_tok z" and "raw_start z \<le> lo" and "lo \<le> hi" and "hi \<le> raw_end z"
  shows "slice_of (z_buf z) lo hi = Inr (take (nat (hi - lo)) (drop (nat lo) (z_buf z)))"
    and "slice_of (stream z) (lo - raw_start z) (hi - raw_start z) = slice_of (z_buf z) lo hi"
proof -
  have i: "0 \<le> lo" "hi \<le> int (length (z_buf z))" "raw_start z \<le> int (length (z_buf z))" "0 \<le> raw_start z"
    using assms by (auto simp: wf_tok_def)
  have "hi - raw_start z \<le> int (length (stream z))"
    using i by (simp add: stream_def)
  moreover have "take (nat (hi - lo)) (drop (nat (lo - raw_start z)) (stream z)) =
      take (nat (hi - lo)) (drop (nat lo) (z_buf z))"
  proof -
    have "drop (nat (lo - raw_start z)) (stream z) = drop (nat lo) (z_buf z) @ content (z_r z)"
      using i assms(2,3) by (simp add: stream_def nat_diff_distrib)
    moreover have "nat (hi - lo) \<le> length (drop (nat lo) (z_buf z))" using i assms(3) by simp
    ultimately show ?thesis by simp
  qed
  ultimately show "slice_of (stream z) (lo - raw_start z) (hi - raw_start z) = slice_of (z_buf z) lo hi"
    using i assms by (simp add: slice_of_def)
  show "slice_of (z_buf z) lo hi = Inr (take (nat (hi - lo)) (drop (nat lo) (z_buf z)))"
    using i assms by (simp add: slice_of_def)
qed

lemma tag_bytes_are_norm:
  assumes "wf_tok z" and "raw_start z \<le> data_start z" and "data_end z \<le> raw_end z"
  shows "data_start z + int i + int (length s) \<le> data_end z \<Longrightarrow>
    \<exists>b. tag_bytes_are i s z = Inr b \<and> tag_bytes_are i s (norm z) = Inr b"
proof (induction s arbitrary: i)
  case (Cons c s)
  let ?i = "data_start z + int i"
  have "raw_start z \<le> ?i" "?i < raw_end z" using assms Cons.prems by auto
  note x = index_norm [OF assms(1) this]
  obtain b where "tag_bytes_are (Suc i) s z = Inr b" "tag_bytes_are (Suc i) s (norm z) = Inr b"
    using Cons.IH [of "Suc i"] Cons.prems by auto
  with x show ?case by (auto simp: algebra_simps intro: exI [of _ False])
qed auto

lemma startTagIn_norm:
  assumes "wf_tok z" and "raw_start z \<le> data_start z" and "data_end z \<le> raw_end z"
  shows "\<exists>b. startTagIn ss z = Inr b \<and> startTagIn ss (norm z) = Inr b"
proof (induction ss)
  case (Cons s ss)
  then obtain b where b: "startTagIn ss z = Inr b" "startTagIn ss (norm z) = Inr b" by blast
  show ?case
  proof (cases "data_end z - data_start z = int (length s)")
    case True
    then obtain b' where "tag_bytes_are 0 s z = Inr b'" "tag_bytes_are 0 s (norm z) = Inr b'"
      using tag_bytes_are_norm [OF assms, of 0 s] by auto
    with True b show ?thesis by (cases b') (auto intro: exI [of _ True])
  qed (use b in simp)
qed auto

lemma readStartTag_runs:
  assumes "wf_tok z" and "2 \<le> off z"
  shows "runs (\<lambda>t y. moves (norm z) y \<and>
      (if t = ErrorToken then z_err y \<noteq> None
       else t \<in> {StartTagToken, SelfClosingTagToken} \<and> z_err y = None \<and> tagged (off z) y))
    (readStartTag z) (readStartTag (norm z))"
proof -
  have "1 \<le> off z" using assms(2) by simp
  with assms(1) obtain z1 where z1: "readTag True z = Inr z1" "readTag True (norm z) = Inr (norm z1)" "wf_tok z1"
    and t: "moves (norm z) (norm z1) \<and> tagged (off z) (norm z1) \<and> (\<not> True \<longrightarrow> z_attr (norm z1) = []) \<and>
      (z_err (norm z1) = None \<longrightarrow> off z < raw_end (norm z1))"
    using readTag_runs [of z True] by (auto simp: runs1_def)
  show ?thesis
  proof (cases "z_err z1")
    case None
    have ds: "data_start z1 - raw_start z1 = off z - 1" "off z \<le> data_end z1 - raw_start z1"
      "data_end z1 - raw_start z1 \<le> off z1"
      using t chained_le [of "data_end (norm z1)" "z_attr (norm z1)" "raw_end (norm z1)"] by (auto simp: tagged_def)
    have b: "raw_start z1 \<le> data_start z1" "data_start z1 < raw_end z1" "data_end z1 \<le> raw_end z1"
      "data_start z1 \<le> data_end z1"
      using ds assms(2) by (auto simp: off_def)
    note x = index_norm [OF z1(3) b(1,2)] and sl = slice_norm [OF z1(3) b(1,4,3)]
    have "raw_start z1 \<le> raw_end z1 - 2" "raw_end z1 - 2 < raw_end z1"
      using ds assms(2) by (auto simp: off_def)
    note y = index_norm [OF z1(3) this]
    let ?c = "z_buf z1 ! nat (data_start z1)"
    obtain r where r: "startTagIn (raw_tags (lower_byte ?c)) z1 = Inr r"
      "startTagIn (raw_tags (lower_byte ?c)) (norm z1) = Inr r"
      using startTagIn_norm [OF z1(3) b(1,3)] by blast
    have y': "go_index (stream z1) (off z1 - 2) = Inr (z_buf z1 ! nat (raw_end z1 - 2))"
      using y by (simp add: off_def algebra_simps)
    show ?thesis
      using None z1 t x sl y y' r assms
      by (cases r) (auto simp: readStartTag_def tagged_def)
  qed (use z1 t in \<open>auto simp: readStartTag_def\<close>)
qed

section \<open>The next token\<close>

text \<open>The spans from which the data of a token is read.\<close>

definition spans_ok :: "Tokenizer \<Rightarrow> bool" where
  "spans_ok z \<longleftrightarrow>
     (if z_tt z \<in> {TextToken, CommentToken, DoctypeToken} then
        raw_start z \<le> data_start z \<and> data_start z \<le> data_end z \<and> data_end z \<le> raw_end z
      else if z_tt z \<in> {StartTagToken, EndTagToken, SelfClosingTagToken} then
        raw_start z \<le> data_start z \<and> data_start z < data_end z \<and>
        chained (data_end z) (z_attr z) (raw_end z) \<and> nAttrReturned z = 0 \<and>
        (z_tt z = EndTagToken \<longrightarrow> z_attr z = [])
      else True)"

lemma spans_ok_norm [simp]: "spans_ok (norm z) = spans_ok z"
  using chained_shift [of "data_end z" "raw_start z" "z_attr z" "raw_end z"]
  by (auto simp: spans_ok_def off_def)

text \<open>What \<open>Next\<close> leaves.\<close>

definition next_post :: "Tokenizer \<Rightarrow> Tokenizer \<Rightarrow> bool" where
  "next_post y y' \<longleftrightarrow> moves y y' \<and> spans_ok y' \<and>
     (if z_tt y' = ErrorToken then z_err y' \<noteq> None else 0 < raw_end y')"

lemma norm_next_end [simp]: "norm (next_end z) = next_end (norm z)"
  by (auto simp: next_end_def off_def)

lemma wf_tok_next_end [simp]: "wf_tok (next_end z) = wf_tok z"
  by (simp add: next_end_def)

lemma norm_set_type [simp]: "norm (set_type (t, z)) = set_type (t, norm z)"
  by (simp add: set_type_def)

lemma next_end_post:
  assumes "wf_tok z" and "moves y (norm z)" and "z_err z \<noteq> None" and "data_start (norm z) = 0"
  shows "next_post y (next_end (norm z))"
  using assms off_nonneg [OF assms(1)]
  by (auto simp: next_end_def next_post_def spans_ok_def simp del: not_None_eq)

text \<open>A token of text, a comment or a declaration.\<close>

lemma spanned_post:
  assumes "spanned x y" and "moves w x" and "0 < raw_end x" and "raw_start y = 0"
    and "t \<in> {TextToken, CommentToken, DoctypeToken}"
  shows "next_post w (y\<lparr>z_tt := t\<rparr>)"
  using assms moves_trans [of w x y] by (auto simp: spanned_def next_post_def spans_ok_def moves_def)

lemma tagged_post:
  assumes "tagged i y" and "moves w y" and "1 \<le> i" and "raw_start y = 0"
    and "t \<in> {StartTagToken, EndTagToken, SelfClosingTagToken}" and "t = EndTagToken \<Longrightarrow> z_attr y = []"
  shows "next_post w (y\<lparr>z_tt := t\<rparr>)"
  using assms chained_le [of "data_end y" "z_attr y" "raw_end y"]
  by (auto simp: tagged_def next_post_def spans_ok_def)

lemma close_angle_runs:
  assumes "wf_tok z" and "moves w (norm z)" and "0 < off z"
  shows "runs1 (next_post w) (go_bind (readUntilCloseAngle z) (\<lambda>z. Inr (z\<lparr>z_tt := CommentToken\<rparr>)))
    (go_bind (readUntilCloseAngle (norm z)) (\<lambda>z. Inr (z\<lparr>z_tt := CommentToken\<rparr>)))"
proof -
  obtain z1 where z1: "readUntilCloseAngle z = Inr z1" "readUntilCloseAngle (norm z) = Inr (norm z1)" "wf_tok z1"
    and s: "spanned (norm z) (norm z1)"
    using readUntilCloseAngle_runs [OF assms(1)] by (rule runs1E)
  have "next_post w ((norm z1)\<lparr>z_tt := CommentToken\<rparr>)"
    using s assms(2) by (rule spanned_post) (use assms(3) in simp_all)
  with z1 show ?thesis by auto
qed

lemma end_tag_runs:
  assumes "wf_tok z" and "moves w (norm z)" and "2 \<le> off z" and "raw_end w + 2 \<le> off z"
    and "data_start (norm z) = 0" and "data_end (norm z) = 0"
  shows "runs1 (next_post w) (next_markup EndTagToken c z) (next_markup EndTagToken c (norm z))"
proof -
  obtain d z1 where z1: "readByte z = Inr (d, z1)" "readByte (norm z) = Inr (d, norm z1)" "wf_tok z1"
    and r1: "reads (norm z) (norm z1)" and o1: "z_err z1 = None \<longrightarrow> off z1 = off z + 1 \<and> z_err z = None"
    using assms(1) by (rule read_both)
  have m1: "moves w (norm z1)" using moves_trans [OF assms(2) reads_moves [OF r1]] .
  have ds: "data_start (norm z1) = 0" "data_end (norm z1) = 0"
    using reads_simps(8,9) [OF r1] assms(5,6) by simp_all
  consider (err) "z_err z1 \<noteq> None" | (gt) "z_err z1 = None" "d = CHR ''>''"
    | (tag) "z_err z1 = None" "d \<noteq> CHR ''>''" "is_letter d"
    | (other) "z_err z1 = None" "d \<noteq> CHR ''>''" "\<not> is_letter d" by blast
  then show ?thesis
  proof cases
    case err
    then show ?thesis
      using z1 next_end_post [OF z1(3) m1 err ds(1)] by (auto simp: next_markup_def)
  next
    case gt
    have "next_post w ((norm z1)\<lparr>z_tt := CommentToken\<rparr>)"
      using gt o1 assms(3) m1 ds by (auto simp: next_post_def spans_ok_def)
    then show ?thesis using z1 gt by (auto simp: next_markup_def)
  next
    case tag
    have o: "1 \<le> off z1" using tag o1 assms(3) by simp
    obtain z2 where z2: "readTag False z1 = Inr z2" "readTag False (norm z1) = Inr (norm z2)" "wf_tok z2"
      and t: "moves (norm z1) (norm z2) \<and> tagged (off z1) (norm z2) \<and> (\<not> False \<longrightarrow> z_attr (norm z2) = []) \<and>
        (z_err (norm z2) = None \<longrightarrow> off z1 < raw_end (norm z2))"
      using readTag_runs [OF z1(3) o, of False] by (rule runs1E)
    have m2: "moves w (norm z2)" using moves_trans [OF m1] t by blast
    have "next_post w ((norm z2)\<lparr>z_tt := EndTagToken\<rparr>)"
      by (rule tagged_post [OF _ m2 o]) (use t in simp_all)
    moreover have "z_err z2 \<noteq> None \<Longrightarrow> next_post w ((norm z2)\<lparr>z_tt := ErrorToken\<rparr>)"
      using m2 by (simp add: next_post_def spans_ok_def)
    ultimately show ?thesis
      using z1 z2 tag by (cases "z_err z2") (auto simp: next_markup_def)
  next
    case other
    have "wf_tok (unread 1 z1)" "moves w (norm (unread 1 z1))" "0 < off (unread 1 z1)"
      using z1(3) moves_unread [OF m1, of 1] o1 other assms(3,4) by (auto intro!: wf_tok_unread)
    note u = close_angle_runs [OF this]
    then show ?thesis using z1 other by (simp add: next_markup_def)
  qed
qed

lemma next_markup_runs:
  assumes "wf_tok z" and "moves w (norm z)" and "2 \<le> off z" and "raw_end w + 2 \<le> off z" and "z_err z = None"
    and "data_start (norm z) = 0" and "data_end (norm z) = 0" and "token_start c = Some t"
  shows "runs1 (next_post w) (next_markup t c z) (next_markup t c (norm z))"
proof -
  consider (start) "t = StartTagToken" | (fin) "t = EndTagToken" | (decl) "t = CommentToken" "c = CHR ''!''"
    | (other) "t = CommentToken" "c \<noteq> CHR ''!''"
    using assms(8) by (auto simp: token_start_def split: if_splits)
  then show ?thesis
  proof cases
    case start
    obtain t' z1 where z1: "readStartTag z = Inr (t', z1)" "readStartTag (norm z) = Inr (t', norm z1)" "wf_tok z1"
      and m: "moves (norm z) (norm z1) \<and> (if t' = ErrorToken then z_err (norm z1) \<noteq> None
        else t' \<in> {StartTagToken, SelfClosingTagToken} \<and> z_err (norm z1) = None \<and> tagged (off z) (norm z1))"
      using readStartTag_runs [OF assms(1,3)] by (rule runsE)
    have mw: "moves w (norm z1)" using moves_trans [OF assms(2)] m by blast
    have "next_post w (set_type (t', norm z1))"
    proof (cases "t' = ErrorToken")
      case True
      with m mw show ?thesis by (simp add: set_type_def next_post_def spans_ok_def)
    next
      case False
      with m have "tagged (off z) (norm z1)" by presburger
      then have "next_post w ((norm z1)\<lparr>z_tt := t'\<rparr>)"
        by (rule tagged_post [OF _ mw]) (use m False assms(3) in auto)
      then show ?thesis by (simp add: set_type_def)
    qed
    then show ?thesis using start z1 by (auto simp: next_markup_def set_type_def)
  next
    case fin
    then show ?thesis using end_tag_runs [OF assms(1-4,6,7)] by simp
  next
    case decl
    obtain t' z1 where z1: "readMarkupDeclaration z = Inr (t', z1)"
      "readMarkupDeclaration (norm z) = Inr (t', norm z1)" "wf_tok z1"
      and s: "spanned (norm z) (norm z1) \<and> t' \<in> {CommentToken, DoctypeToken, TextToken}"
      using readMarkupDeclaration_runs [OF assms(1)] by (rule runsE)
    have "next_post w ((norm z1)\<lparr>z_tt := t'\<rparr>)"
      by (rule spanned_post [OF _ assms(2)]) (use s assms(3) in auto)
    then show ?thesis using decl z1 by (auto simp: next_markup_def set_type_def)
  next
    case other
    have "wf_tok (unread 1 z)" "moves w (norm (unread 1 z))" "0 < off (unread 1 z)"
      using moves_unread [OF assms(2), of 1] assms(1,3-5) by (auto intro!: wf_tok_unread)
    note u = close_angle_runs [OF this]
    then show ?thesis using other by (simp add: next_markup_def)
  qed
qed

lemma next_post_trans: "moves x y \<Longrightarrow> runs1 (next_post y) m m' \<Longrightarrow> runs1 (next_post x) m m'"
  using moves_trans unfolding next_post_def by (blast intro: runs1_weaken)

lemma next_loop_runs:
  "wf_tok z \<Longrightarrow> data_start (norm z) = 0 \<Longrightarrow> data_end (norm z) = 0 \<Longrightarrow>
   runs1 (next_post (norm z)) (next_loop z) (next_loop (norm z))"
proof (induction z rule: next_loop.induct)
  case (1 z)
  obtain c z1 where z1: "readByte z = Inr (c, z1)" "readByte (norm z) = Inr (c, norm z1)" "wf_tok z1"
    and r1: "reads (norm z) (norm z1)" and o1: "z_err z1 = None \<longrightarrow> off z1 = off z + 1 \<and> z_err z = None"
    using "1.prems"(1) by (rule read_both)
  obtain d z2 where z2: "readByte z1 = Inr (d, z2)" "readByte (norm z1) = Inr (d, norm z2)" "wf_tok z2"
    and r2: "reads (norm z1) (norm z2)" and o2: "z_err z2 = None \<longrightarrow> off z2 = off z1 + 1 \<and> z_err z1 = None"
    using z1(3) by (rule read_both)
  have m1: "moves (norm z) (norm z1)" and m2: "moves (norm z) (norm z2)"
    using reads_moves [OF r1] reads_moves [OF reads_trans [OF r1 r2]] .
  have ds: "data_start (norm z1) = 0" "data_end (norm z1) = 0" "data_start (norm z2) = 0" "data_end (norm z2) = 0"
    using reads_simps(8,9) [OF r1] reads_simps(8,9) [OF r2] "1.prems"(2,3) by simp_all
  note simps = next_loop.simps [of z] next_loop.simps [of "norm z"]
  consider (err1) "z_err z1 \<noteq> None" | (skip) "z_err z1 = None" "c \<noteq> CHR ''<''"
    | (err2) "z_err z1 = None" "c = CHR ''<''" "z_err z2 \<noteq> None"
    | (other) "z_err z1 = None" "c = CHR ''<''" "z_err z2 = None" "token_start d = None"
    | (markup) t where "z_err z1 = None" "c = CHR ''<''" "z_err z2 = None" "token_start d = Some t"
    by (cases "token_start d") blast+
  then show ?case
  proof cases
    case err1
    then show ?thesis
      using z1 next_end_post [OF z1(3) m1 err1 ds(1)] by (auto simp: simps)
  next
    case skip
    then have "runs1 (next_post (norm z1)) (next_loop z1) (next_loop (norm z1))"
      using "1.IH"(1) [OF z1(1) refl] z1(3) ds by simp
    then show ?thesis using next_post_trans [OF m1] z1 skip by (simp add: simps)
  next
    case err2
    then show ?thesis
      using z1 z2 next_end_post [OF z2(3) m2 err2(3) ds(3)] by (auto simp: simps)
  next
    case other
    let ?u = "unread 1 z2"
    have u: "wf_tok ?u" "moves (norm z) (norm ?u)"
      using z2(3) o1 o2 other off_nonneg [OF "1.prems"(1)] moves_unread [OF m2, of 1]
      by (auto intro!: wf_tok_unread)
    have "runs1 (next_post (norm ?u)) (next_loop ?u) (next_loop (norm ?u))"
      using "1.IH"(2) [OF z1(1) refl _ _ z2(1) refl] other u ds by simp
    then show ?thesis using next_post_trans [OF u(2)] z1 z2 other by (simp add: simps)
  next
    case markup
    have o: "off z2 = off z + 2" "0 \<le> off z" using markup o1 o2 off_nonneg [OF "1.prems"(1)] by auto
    show ?thesis
    proof (cases "raw_start z2 < raw_end z2 - 2")
      case True
      let ?t = "z2\<lparr>raw_end := raw_end z2 - 2, data_end := raw_end z2 - 2, z_tt := TextToken\<rparr>"
      have n: "norm ?t = (unread 2 (norm z2))\<lparr>data_end := off z2 - 2, z_tt := TextToken\<rparr>"
        by (simp add: unread_def off_fold)
      have "wf_tok ?t" using z2(3) True by (auto simp: wf_tok_def)
      moreover have "next_post (norm z) (norm ?t)"
        unfolding n using moves_unread [OF m2, of 2] o markup ds True
        by (auto simp: next_post_def spans_ok_def off_def)
      moreover have "next_loop z = Inr ?t" "next_loop (norm z) = Inr (norm ?t)"
        using z1 z2 markup True by (auto simp: simps off_def algebra_simps)
      ultimately show ?thesis by auto
    next
      case False
      then have "next_loop z = next_markup t d z2" "next_loop (norm z) = next_markup t d (norm z2)"
        using z1 z2 markup by (auto simp: simps off_def)
      moreover have "runs1 (next_post (norm z)) (next_markup t d z2) (next_markup t d (norm z2))"
        using next_markup_runs [OF z2(3) m2 _ _ markup(3) ds(3,4) markup(4)] o by simp
      ultimately show ?thesis by simp
    qed
  qed
qed

lemma next_raw_runs:
  assumes "wf_tok z"
  shows "runs1 (\<lambda>y. moves (norm z) y \<and> data_start y = data_start (norm z) \<and> data_end y = raw_end y)
    (next_raw z) (next_raw (norm z))"
proof (cases "rawTag z = ''plaintext''")
  case True
  obtain c z1 where z1: "read_until (\<lambda>c. False) z = Inr (c, z1)"
    "read_until (\<lambda>c. False) (norm z) = Inr (c, norm z1)" "wf_tok z1" and r: "reads (norm z) (norm z1)"
    using assms by (rule until_both)
  then show ?thesis
    using True reads_moves [OF r] reads_simps(8) [OF r] by (auto simp: next_raw_def off_fold)
qed (use readRawOrRCDATA_runs [OF assms] in \<open>simp add: next_raw_def\<close>)

definition Next_on :: "Tokenizer \<Rightarrow> Tokenizer go" where
  "Next_on z =
     (if z_err z \<noteq> None then Inr (z\<lparr>z_tt := ErrorToken\<rparr>)
      else
        go_bind (if rawTag z \<noteq> [] then next_raw z else Inr z) (\<lambda>z1.
          if rawTag z \<noteq> [] \<and> data_start z1 < data_end z1
          then Inr (z1\<lparr>z_tt := TextToken, convertNUL := True\<rparr>)
          else next_loop (z1\<lparr>textIsRaw := False, convertNUL := False\<rparr>)))"

lemma Next_Next_on: "Next z = Next_on (next_begin z)"
  by (simp add: Next_def Next_on_def Let_def)

lemma Next_on_runs:
  assumes "wf_tok z" and "data_start (norm z) = 0" and "data_end (norm z) = 0" and "off z = 0"
  shows "runs1 (next_post (norm z)) (Next_on z) (Next_on (norm z))"
proof -
  consider (err) "z_err z \<noteq> None" | (plain) "z_err z = None" "rawTag z = []"
    | (raw) "z_err z = None" "rawTag z \<noteq> []" by blast
  then show ?thesis
  proof cases
    case err
    then have "Next_on z = Inr (z\<lparr>z_tt := ErrorToken\<rparr>)" "Next_on (norm z) = Inr (norm (z\<lparr>z_tt := ErrorToken\<rparr>))"
      by (simp_all add: Next_on_def)
    moreover have "next_post (norm z) (norm (z\<lparr>z_tt := ErrorToken\<rparr>))"
      using err by (simp add: next_post_def spans_ok_def)
    ultimately show ?thesis using assms(1) by auto
  next
    case plain
    let ?z = "z\<lparr>textIsRaw := False, convertNUL := False\<rparr>"
    have "runs1 (next_post (norm ?z)) (next_loop ?z) (next_loop (norm ?z))"
      by (rule next_loop_runs) (use assms in simp_all)
    then have "runs1 (next_post (norm z)) (next_loop ?z) (next_loop (norm ?z))"
      by (rule next_post_trans [rotated]) simp
    then show ?thesis using plain by (simp add: Next_on_def)
  next
    case raw
    obtain z1 where z1: "next_raw z = Inr z1" "next_raw (norm z) = Inr (norm z1)" "wf_tok z1"
      and m: "moves (norm z) (norm z1) \<and> data_start (norm z1) = data_start (norm z) \<and> data_end (norm z1) = raw_end (norm z1)"
      using next_raw_runs [OF assms(1)] by (rule runs1E)
    have ds: "data_start (norm z1) = 0" "data_end (norm z1) = off z1" using m assms(2) by simp_all
    show ?thesis
    proof (cases "data_start z1 < data_end z1")
      case True
      let ?t = "z1\<lparr>z_tt := TextToken, convertNUL := True\<rparr>"
      have "next_post (norm z) (norm ?t)"
        using m ds True by (auto simp: next_post_def spans_ok_def off_def)
      moreover have "Next_on z = Inr ?t" "Next_on (norm z) = Inr (norm ?t)"
        using raw z1 True by (simp_all add: Next_on_def)
      ultimately show ?thesis using z1(3) by auto
    next
      case False
      let ?z = "z1\<lparr>textIsRaw := False, convertNUL := False\<rparr>"
      have "data_end (norm z1) = 0" using ds False off_nonneg [OF z1(3)] by auto
      then have "runs1 (next_post (norm ?z)) (next_loop ?z) (next_loop (norm ?z))"
        by (intro next_loop_runs) (use z1(3) ds(1) in simp_all)
      then have "runs1 (next_post (norm z)) (next_loop ?z) (next_loop (norm ?z))"
        by (rule next_post_trans [rotated]) (use m in simp)
      then show ?thesis using raw z1 False by (simp add: Next_on_def)
    qed
  qed
qed

section \<open>Moving to the next token\<close>

text \<open>The input that the current token leaves.\<close>

definition rest :: "Tokenizer \<Rightarrow> string" where
  "rest z = drop (nat (off z)) (stream z)"

lemma next_begin_facts:
  assumes "wf_tok z"
  shows "wf_tok (next_begin z)" and "off (next_begin z) = 0" and "stream (next_begin z) = rest z"
    and "data_start (norm (next_begin z)) = 0" and "data_end (norm (next_begin z)) = 0"
    and "norm (next_begin z) = norm (next_begin (norm z))"
    and "z_err (next_begin z) = z_err z" and "end_err (next_begin z) = end_err z"
    and "z_maxBuf (next_begin z) = z_maxBuf z"
proof -
  have r: "0 \<le> raw_start z" "raw_start z \<le> raw_end z" "raw_end z \<le> int (length (z_buf z))"
    using assms by (auto simp: wf_tok_def)
  show s: "stream (next_begin z) = rest z"
    using r by (simp add: stream_def rest_def next_begin_def off_def nat_diff_distrib)
  show "wf_tok (next_begin z)" using assms by (auto simp: wf_tok_def next_begin_def)
  show "off (next_begin z) = 0" by (simp add: off_def next_begin_def)
  show "data_start (norm (next_begin z)) = 0" "data_end (norm (next_begin z)) = 0"
    by (simp_all add: next_begin_def)
  show e: "end_err (next_begin z) = end_err z" by (cases "z_readErr z") (simp_all add: end_err_def next_begin_def)
  show "z_err (next_begin z) = z_err z" "z_maxBuf (next_begin z) = z_maxBuf z" by (simp_all add: next_begin_def)
  have "stream (next_begin (norm z)) = rest z" by (simp add: stream_def rest_def next_begin_def spent_def)
  then show "norm (next_begin z) = norm (next_begin (norm z))"
    using s e by (simp add: norm_def next_begin_def shift_spans_def off_def end_err_def comp_def shift_attr_def case_prod_unfold)
qed

text \<open>\<open>Next\<close> over any reader: it returns, its result depends on the input only, it keeps
  the input, and unless it reports an error it takes at least one byte.\<close>

lemma Next_runs:
  assumes "wf_tok z"
  obtains z' where "Next z = Inr z'" and "wf_tok z'" and "spans_ok z'"
    and "Next_on (norm (next_begin z)) = Inr (norm z')"
    and "stream z' = rest z" and "whole (norm (next_begin z)) \<longrightarrow> whole (norm z')" and "z_maxBuf z' = z_maxBuf z"
    and "end_err z' = end_err z" and "if z_tt z' = ErrorToken then z_err z' \<noteq> None else 0 < off z'"
proof -
  note b = next_begin_facts [OF assms]
  obtain z' where z': "Next_on (next_begin z) = Inr z'" "Next_on (norm (next_begin z)) = Inr (norm z')" "wf_tok z'"
    and p: "next_post (norm (next_begin z)) (norm z')"
    using Next_on_runs [OF b(1,4,5,2)] by (rule runs1E)
  show thesis
    by (rule that [of z']) (use z' p b(3,8,9) in \<open>simp_all add: next_post_def moves_def Next_Next_on split: if_splits\<close>)
qed

end
