(* ===== verification/Html_Token_Value.thy ===== *)
theory Html_Token_Value
  imports Html_Token_Next
begin

text \<open>
  The data of a token. \<open>token_of\<close> reads a token off the spans that \<open>Next\<close> left, with
  nothing overwritten: text with its newlines unified and its character references resolved, names
  in lower case, attributes in order. \<open>Tokenizer_Token\<close>, which converts all of these in place
  in the tokenizer's buffer, returns the same and writes into the bytes of the token only.
\<close>

section \<open>New lines\<close>

fun unix :: "string \<Rightarrow> string" where
  "unix [] = []"
| "unix (c # s) =
     (if c \<noteq> CHR 0x0D then c # unix s
      else case s of
             [] \<Rightarrow> [CHR 0x0A]
           | d # s' \<Rightarrow> if d = CHR 0x0A then CHR 0x0A # unix s' else CHR 0x0A # unix s)"

lemma unix_id: "CHR 0x0D \<notin> set s \<Longrightarrow> unix s = s"
  by (induction s) auto

lemma squeeze_leaves:
  "dst \<le> src \<Longrightarrow> src \<le> length s \<Longrightarrow> leaves s (take dst s @ unix (drop src s)) (squeeze s src dst)"
proof (induction s src dst rule: squeeze.induct)
  case (1 s src dst)
  show ?case
  proof (cases "src < length s")
    case True
    define src1 where "src1 = (if src + 1 < length s \<and> s ! (src + 1) = CHR 0x0A then src + 1 else src)"
    define c where "c = (if s ! src = CHR 0x0D then CHR 0x0A else s ! src)"
    define n where "n = (if s ! src = CHR 0x0D then src1 + 1 else src + 1)"
    let ?s = "s[dst := c]"
    have n: "src < n" "n \<le> length s" using True by (auto simp: n_def src1_def)
    have st: "go_store s (int dst) x = Inr (s[dst := x])" for x
      using "1.prems" True by (simp add: go_store_def)
    have step: "squeeze s src dst = squeeze ?s n (dst + 1)"
      using True by (subst squeeze.simps) (auto simp: st n_def c_def src1_def)
    have "leaves ?s (take (dst + 1) ?s @ unix (drop n ?s)) (squeeze ?s n (dst + 1))"
    proof (cases "s ! src = CHR 0x0D")
      case cr: True
      have eqs: "c = CHR 0x0A" "n = src1 + 1" using cr by (simp_all add: c_def n_def)
      have "dst + 1 \<le> src1 + 1" using "1.prems" by (auto simp: src1_def)
      then show ?thesis
        unfolding eqs using "1.IH"(1) [OF True cr src1_def st] n eqs by simp
    next
      case False
      have eqs: "c = s ! src" "n = src + 1" using False by (simp_all add: c_def n_def)
      then show ?thesis
        unfolding eqs using "1.IH"(2) [OF True False st] n "1.prems" by simp
    qed
    moreover have "take (dst + 1) ?s = take dst s @ [c]"
      using "1.prems" True by (simp add: take_Suc_conv_app_nth)
    moreover have "drop n ?s = drop n s" using "1.prems" n by simp
    moreover have "unix (drop src s) = c # unix (drop n s)"
    proof -
      have d: "drop src s = s ! src # drop (src + 1) s" using True by (simp add: Cons_nth_drop_Suc)
      show ?thesis
      proof (cases "src + 1 < length s")
        case t2: True
        then have "drop (src + 1) s = s ! (src + 1) # drop (src + 2) s" by (simp add: Cons_nth_drop_Suc)
        then show ?thesis using d t2 by (auto simp: c_def n_def src1_def)
      next
        case False
        then have "drop (src + 1) s = []" by simp
        then show ?thesis using d False by (auto simp: c_def n_def src1_def)
      qed
    qed
    ultimately show ?thesis unfolding step by (elim leaves_cong) simp_all
  next
    case False
    then show ?thesis using "1.prems" by (subst squeeze.simps) (auto intro: leavesI)
  qed
qed

lemma newlines_from_leaves:
  "i \<le> length s \<Longrightarrow> leaves s (take i s @ unix (drop i s)) (newlines_from i s)"
proof (induction i s rule: newlines_from.induct)
  case (1 i s)
  consider (stop) "\<not> i < length s" | (other) "i < length s" "s ! i \<noteq> CHR 0x0D"
    | (cr) "i < length s" "s ! i = CHR 0x0D" "length s \<le> i + 1 \<or> s ! (i + 1) \<noteq> CHR 0x0A"
    | (crlf) "i < length s" "s ! i = CHR 0x0D" "\<not> (length s \<le> i + 1 \<or> s ! (i + 1) \<noteq> CHR 0x0A)" by blast
  then show ?case
  proof cases
    case stop
    then show ?thesis using "1.prems" by (subst newlines_from.simps) (auto intro: leavesI)
  next
    case other
    have "leaves s (take (i + 1) s @ unix (drop (i + 1) s)) (newlines_from (i + 1) s)"
      using "1.IH"(1) [OF other] other by simp
    moreover have "take (i + 1) s @ unix (drop (i + 1) s) = take i s @ unix (drop i s)"
      using other by (simp add: take_Suc_conv_app_nth Cons_nth_drop_Suc [symmetric])
    ultimately show ?thesis using other by (subst newlines_from.simps) simp
  next
    case cr
    let ?s = "s[i := CHR 0x0A]"
    have "leaves ?s (take (i + 1) ?s @ unix (drop (i + 1) ?s)) (newlines_from (i + 1) ?s)"
      using "1.IH"(2) [OF cr(1) _ cr(3)] cr by simp
    moreover have "take (i + 1) ?s @ unix (drop (i + 1) ?s) = take i s @ unix (drop i s)"
    proof (cases "length s \<le> i + 1")
      case True
      then have "drop i s = [CHR 0x0D]" using cr by (simp add: Cons_nth_drop_Suc [symmetric])
      then show ?thesis using True cr by (simp add: upd_conv_take_nth_drop)
    next
      case False
      then have "drop i s = CHR 0x0D # s ! (i + 1) # drop (i + 2) s"
        using cr by (simp add: Cons_nth_drop_Suc [symmetric])
      moreover have "drop (i + 1) s = s ! (i + 1) # drop (i + 2) s" using False by (simp add: Cons_nth_drop_Suc)
      ultimately show ?thesis using False cr by (simp add: take_Suc_conv_app_nth)
    qed
    ultimately have "leaves s (take i s @ unix (drop i s)) (newlines_from (i + 1) ?s)"
      by (elim leaves_cong) simp_all
    then show ?thesis using cr by (subst newlines_from.simps) simp
  next
    case crlf
    have "drop i s = CHR 0x0D # CHR 0x0A # drop (i + 2) s"
      using crlf by (auto simp: Cons_nth_drop_Suc [symmetric])
    moreover have "drop (i + 1) s = CHR 0x0A # drop (i + 2) s"
      using crlf by (auto simp: Cons_nth_drop_Suc [symmetric])
    ultimately have "unix (drop i s) = unix (drop (i + 1) s)" by simp
    then show ?thesis
      using squeeze_leaves [of i "i + 1" s] crlf by (subst newlines_from.simps) simp
  qed
qed

lemma convertNewlines_leaves: "leaves s (unix s) (convertNewlines s)"
  using newlines_from_leaves [of 0 s] by (simp add: convertNewlines_def)

section \<open>Reading a token off its spans\<close>

definition piece :: "string \<Rightarrow> int \<Rightarrow> int \<Rightarrow> string" where
  "piece b lo hi = take (nat (hi - lo)) (drop (nat lo) b)"

definition text_value :: "TokenType \<Rightarrow> bool \<Rightarrow> bool \<Rightarrow> string \<Rightarrow> string" where
  "text_value tt raw conv s =
     (let t = (if (conv \<or> tt = CommentToken) \<and> NUL \<in> set (unix s) then replace_nul (unix s) else unix s)
      in if raw then t else unescape_spec False t)"

fun attr_value_of :: "string \<Rightarrow> span \<times> span \<Rightarrow> Attribute" where
  "attr_value_of b ((k1, k2), (v1, v2)) =
     \<lparr>attr_Namespace = [], attr_Key = lower (piece b k1 k2), attr_Val = unescape_spec True (unix (piece b v1 v2))\<rparr>"

definition atom_of :: "string \<Rightarrow> Atom" where
  "atom_of name = (case map_of declared_atoms name of Some a \<Rightarrow> a | None \<Rightarrow> 0)"

definition token_of :: "Tokenizer \<Rightarrow> Token" where
  "token_of z =
     (if z_tt z \<in> {TextToken, CommentToken, DoctypeToken} then
        \<lparr>t_Type = z_tt z, t_DataAtom = 0,
         t_Data = text_value (z_tt z) (textIsRaw z) (convertNUL z) (piece (z_buf z) (data_start z) (data_end z)),
         t_Attr = []\<rparr>
      else if z_tt z = ErrorToken then \<lparr>t_Type = z_tt z, t_DataAtom = 0, t_Data = [], t_Attr = []\<rparr>
      else
        let name = lower (piece (z_buf z) (data_start z) (data_end z))
        in \<lparr>t_Type = z_tt z, t_DataAtom = atom_of name, t_Data = name,
            t_Attr = map (attr_value_of (z_buf z)) (z_attr z)\<rparr>)"

text \<open>The token read off the settled buffer is the same.\<close>

lemma piece_norm:
  assumes "wf_tok z" and "raw_start z \<le> lo" and "lo \<le> hi" and "hi \<le> raw_end z"
  shows "slice_of (z_buf z) lo hi = Inr (piece (z_buf z) lo hi)"
    and "piece (stream z) (lo - raw_start z) (hi - raw_start z) = piece (z_buf z) lo hi"
proof -
  note s = slice_norm [OF assms]
  show "slice_of (z_buf z) lo hi = Inr (piece (z_buf z) lo hi)" using s(1) by (simp add: piece_def)
  show "piece (stream z) (lo - raw_start z) (hi - raw_start z) = piece (z_buf z) lo hi"
    using s by (auto simp: piece_def slice_of_def split: if_splits)
qed

lemma chained_bounds:
  assumes "chained lo as hi" and "((a, b), (c, d)) \<in> set as"
  shows "lo \<le> a" and "a < b" and "b \<le> c" and "c \<le> d" and "d \<le> hi"
proof -
  have "lo \<le> a \<and> a < b \<and> b \<le> c \<and> c \<le> d \<and> d \<le> hi"
    using assms by (induction lo as hi rule: chained.induct) (auto dest: chained_le)
  then show "lo \<le> a" "a < b" "b \<le> c" "c \<le> d" "d \<le> hi" by auto
qed

lemma token_of_norm:
  assumes "wf_tok z" and "spans_ok z"
  shows "token_of (norm z) = token_of z"
proof -
  consider (plain) "z_tt z \<in> {TextToken, CommentToken, DoctypeToken}" | (err) "z_tt z = ErrorToken"
    | (tag) "z_tt z \<in> {StartTagToken, EndTagToken, SelfClosingTagToken}"
    by (cases "z_tt z") auto
  then show ?thesis
  proof cases
    case plain
    then have "piece (stream z) (data_start z - raw_start z) (data_end z - raw_start z) = piece (z_buf z) (data_start z) (data_end z)"
      using assms by (intro piece_norm(2)) (auto simp: spans_ok_def)
    then show ?thesis using plain by (auto simp: token_of_def)
  next
    case err
    then show ?thesis by (simp add: token_of_def)
  next
    case tag
    then have ok: "raw_start z \<le> data_start z" "data_start z < data_end z" "chained (data_end z) (z_attr z) (raw_end z)"
      using assms(2) by (auto simp: spans_ok_def)
    have name: "piece (stream z) (data_start z - raw_start z) (data_end z - raw_start z) = piece (z_buf z) (data_start z) (data_end z)"
      using ok chained_le [OF ok(3)] by (intro piece_norm(2) [OF assms(1)]) auto
    have "attr_value_of (stream z) (shift_attr (raw_start z) x) = attr_value_of (z_buf z) x" if "x \<in> set (z_attr z)" for x
    proof -
      obtain a b c d where x: "x = ((a, b), (c, d))" by (metis surj_pair)
      note bs = chained_bounds [OF ok(3) that [unfolded x]]
      show ?thesis
        using ok bs piece_norm(2) [OF assms(1), of a b] piece_norm(2) [OF assms(1), of c d]
        by (simp add: x shift_attr_def)
    qed
    then have "map (attr_value_of (stream z)) (z_attr (norm z)) = map (attr_value_of (z_buf z)) (z_attr z)"
      by simp
    then show ?thesis using tag name by (auto simp: token_of_def Let_def)
  qed
qed

section \<open>Converting in place\<close>

lemma write_back_buf:
  assumes "0 \<le> lo" and "lo + int (length bs) \<le> int (length (z_buf z))"
  shows "length (z_buf (write_back lo bs z)) = length (z_buf z)"
    and "i \<le> lo \<Longrightarrow> take (nat i) (z_buf (write_back lo bs z)) = take (nat i) (z_buf z)"
    and "lo + int (length bs) \<le> j \<Longrightarrow> drop (nat j) (z_buf (write_back lo bs z)) = drop (nat j) (z_buf z)"
  using assms by (auto simp: write_back_def min_def nat_add_distrib nat_le_iff)

text \<open>What converting a token may change.\<close>

definition touched :: "int \<Rightarrow> int \<Rightarrow> Tokenizer \<Rightarrow> Tokenizer \<Rightarrow> bool" where
  "touched lo hi z z' \<longleftrightarrow>
     (\<exists>b. z' = z\<lparr>z_buf := b, data_start := data_start z', data_end := data_end z', nAttrReturned := nAttrReturned z'\<rparr> \<and>
        length b = length (z_buf z) \<and> take (nat lo) b = take (nat lo) (z_buf z) \<and>
        drop (nat hi) b = drop (nat hi) (z_buf z))"

lemma touchedI:
  assumes "length b = length (z_buf z)" and "take (nat lo) b = take (nat lo) (z_buf z)"
    and "drop (nat hi) b = drop (nat hi) (z_buf z)"
  shows "touched lo hi z (z\<lparr>z_buf := b, data_start := i, data_end := j, nAttrReturned := n\<rparr>)"
  using assms by (auto simp: touched_def)

lemma write_back_thrice:
  "write_back i x (write_back j y (write_back k u z)) =
   z\<lparr>z_buf := z_buf (write_back i x (write_back j y (write_back k u z)))\<rparr>"
  by (simp add: write_back_def)

lemma Text_eq:
  assumes "wf_tok z" and "spans_ok z" and "z_tt z \<in> {TextToken, CommentToken, DoctypeToken}"
  obtains z' where "Text z = Inr (t_Data (token_of z), z')" and "touched (raw_start z) (raw_end z) z z'"
    and "nAttrReturned z' = nAttrReturned z" and "data_start z' = raw_end z" and "data_end z' = raw_end z"
proof -
  let ?s = "piece (z_buf z) (data_start z) (data_end z)"
  have ok: "raw_start z \<le> data_start z" "data_start z \<le> data_end z" "data_end z \<le> raw_end z"
    using assms by (auto simp: spans_ok_def)
  have pos: "0 \<le> raw_start z" "raw_end z \<le> int (length (z_buf z))" using assms(1) by (auto simp: wf_tok_def)
  have len: "int (length ?s) = data_end z - data_start z" using ok pos by (simp add: piece_def)
  have sl: "slice_of (z_buf z) (data_start z) (data_end z) = Inr ?s" using piece_norm(1) [OF assms(1) ok] .
  obtain m n where m: "convertNewlines ?s = Inr (m, n)" "length m = length ?s" "n \<le> length ?s" "take n m = unix ?s"
    using convertNewlines_leaves [of ?s] by (auto simp: leaves_def)
  have ln: "length (unix ?s) = n" using m(2-4) by (metis length_take min.absorb2)
  obtain m2 n2 where m2: "unescape_mem (unix ?s) False = Inr (m2, n2)" "length m2 = n"
    "take n2 m2 = unescape_spec False (unix ?s)"
    using unescape_mem_spec [of "unix ?s" False] ln by (auto simp: leaves_def)
  let ?b = "z_buf (write_back (data_start z) m z)"
  let ?c = "z_buf (write_back (data_start z) m2 (z\<lparr>z_buf := ?b\<rparr>))"
  have b: "length ?b = length (z_buf z)" "take (nat (raw_start z)) ?b = take (nat (raw_start z)) (z_buf z)"
    "drop (nat (raw_end z)) ?b = drop (nat (raw_end z)) (z_buf z)"
    using write_back_buf [of "data_start z" m z] ok pos len m(2) by auto
  have c: "length ?c = length (z_buf z)" "take (nat (raw_start z)) ?c = take (nat (raw_start z)) (z_buf z)"
    "drop (nat (raw_end z)) ?c = drop (nat (raw_end z)) (z_buf z)"
    using write_back_buf [of "data_start z" m2 "z\<lparr>z_buf := ?b\<rparr>"] b ok pos len m(3) m2(2) by auto
  let ?z1 = "z\<lparr>z_buf := ?b, data_start := raw_end z, data_end := raw_end z, nAttrReturned := nAttrReturned z\<rparr>"
  let ?z2 = "z\<lparr>z_buf := ?c, data_start := raw_end z, data_end := raw_end z, nAttrReturned := nAttrReturned z\<rparr>"
  have w1: "(write_back (data_start z) m z)\<lparr>data_start := raw_end z, data_end := raw_end z\<rparr> = ?z1"
    by (simp add: write_back_def)
  have w2: "write_back (data_start z) m2 ?z1 = ?z2"
    by (simp add: write_back_def)
  have t: "touched (raw_start z) (raw_end z) z ?z1" "touched (raw_start z) (raw_end z) z ?z2"
    using touchedI [OF b] touchedI [OF c] by blast+
  have d: "t_Data (token_of z) = text_value (z_tt z) (textIsRaw z) (convertNUL z) ?s"
    using assms(3) by (simp add: token_of_def)
  consider (nul) "(convertNUL z \<or> z_tt z = CommentToken) \<and> NUL \<in> set (unix ?s)"
    | (raw) "\<not> ((convertNUL z \<or> z_tt z = CommentToken) \<and> NUL \<in> set (unix ?s))" "textIsRaw z"
    | (esc) "\<not> ((convertNUL z \<or> z_tt z = CommentToken) \<and> NUL \<in> set (unix ?s))" "\<not> textIsRaw z" by blast
  then show thesis
  proof cases
    case nul
    then have "Text z = Inr (t_Data (token_of z), ?z1)"
      using assms(3) by (auto simp: Text_def sl m w1 d text_value_def Let_def unescape_refines)
    with that t(1) show ?thesis by simp
  next
    case raw
    then have "Text z = Inr (t_Data (token_of z), ?z1)"
      using assms(3) by (auto simp: Text_def sl m w1 d text_value_def Let_def)
    with that t(1) show ?thesis by simp
  next
    case esc
    then have "Text z = Inr (t_Data (token_of z), ?z2)"
      using assms(3) w2 by (auto simp: Text_def sl m m2 w1 d text_value_def Let_def)
    with that t(2) show ?thesis by simp
  qed
qed

lemma length_lower [simp]: "length (lower s) = length s"
  by (simp add: lower_def)

lemma length_piece: "0 \<le> lo \<Longrightarrow> lo \<le> hi \<Longrightarrow> hi \<le> int (length b) \<Longrightarrow> int (length (piece b lo hi)) = hi - lo"
  by (simp add: piece_def)

lemma slice_piece: "0 \<le> lo \<Longrightarrow> lo \<le> hi \<Longrightarrow> hi \<le> int (length b) \<Longrightarrow> slice_of b lo hi = Inr (piece b lo hi)"
  by (simp add: slice_of_def piece_def)

lemma drop_later: "drop (nat j) b = drop (nat j) b' \<Longrightarrow> j \<le> k \<Longrightarrow> drop (nat k) b = drop (nat k) b'"
  by (metis drop_drop le_add_diff_inverse2 nat_mono)

lemma take_earlier: "take (nat j) b = take (nat j) b' \<Longrightarrow> i \<le> j \<Longrightarrow> take (nat i) b = take (nat i) b'"
  by (metis min.absorb1 nat_mono take_take)

text \<open>A span depends on the bytes from any earlier position on only.\<close>

lemma piece_cong: "drop (nat j) b = drop (nat j) b' \<Longrightarrow> j \<le> lo \<Longrightarrow> piece b lo hi = piece b' lo hi"
  using drop_later [of j b b' lo] by (simp add: piece_def)

text \<open>One attribute: its key and its value are converted in place, one after the other.\<close>

lemma TagAttr_eq:
  assumes "nAttrReturned z < length (z_attr z)" and "z_attr z ! nAttrReturned z = ((k1, k2), (v1, v2))"
    and "z_tt z \<in> {StartTagToken, SelfClosingTagToken}"
    and "0 \<le> k1" and "k1 \<le> k2" and "k2 \<le> v1" and "v1 \<le> v2" and "v2 \<le> int (length (z_buf z))"
  obtains b where "TagAttr z = Inr ((lower (piece (z_buf z) k1 k2), unescape_spec True (unix (piece (z_buf z) v1 v2)),
        Suc (nAttrReturned z) < length (z_attr z)), z\<lparr>nAttrReturned := Suc (nAttrReturned z), z_buf := b\<rparr>)"
    and "length b = length (z_buf z)" and "take (nat k1) b = take (nat k1) (z_buf z)"
    and "drop (nat v2) b = drop (nat v2) (z_buf z)"
proof -
  let ?key = "piece (z_buf z) k1 k2" and ?val = "piece (z_buf z) v1 v2"
  let ?z1 = "z\<lparr>nAttrReturned := Suc (nAttrReturned z)\<rparr>"
  let ?z2 = "write_back k1 (lower ?key) ?z1"
  have lk: "int (length ?key) = k2 - k1" and lv: "int (length ?val) = v2 - v1"
    using length_piece [of k1 k2 "z_buf z"] length_piece [of v1 v2 "z_buf z"] assms by auto
  have b2: "length (z_buf ?z2) = length (z_buf z)" "take (nat k1) (z_buf ?z2) = take (nat k1) (z_buf z)"
    "drop (nat v1) (z_buf ?z2) = drop (nat v1) (z_buf z)"
    using write_back_buf [of k1 "lower ?key" ?z1] lk assms by auto
  obtain m n where m: "convertNewlines ?val = Inr (m, n)" "length m = length ?val" "n \<le> length ?val" "take n m = unix ?val"
    using convertNewlines_leaves [of ?val] by (auto simp: leaves_def)
  have ln: "length (unix ?val) = n" using m(2-4) by (metis length_take min.absorb2)
  obtain m2 n2 where m2: "unescape_mem (unix ?val) True = Inr (m2, n2)" "length m2 = n"
    "take n2 m2 = unescape_spec True (unix ?val)"
    using unescape_mem_spec [of "unix ?val" True] ln by (auto simp: leaves_def)
  let ?z3 = "write_back v1 m ?z2"
  let ?z4 = "write_back v1 m2 ?z3"
  have b3: "length (z_buf ?z3) = length (z_buf z)" "take (nat k1) (z_buf ?z3) = take (nat k1) (z_buf z)"
    "drop (nat v2) (z_buf ?z3) = drop (nat v2) (z_buf z)"
    using write_back_buf [of v1 m ?z2] lv m(2) b2 assms drop_later [OF b2(3), of v2] by auto
  have b4: "length (z_buf ?z4) = length (z_buf z)" "take (nat k1) (z_buf ?z4) = take (nat k1) (z_buf z)"
    "drop (nat v2) (z_buf ?z4) = drop (nat v2) (z_buf z)"
    using write_back_buf [of v1 m2 ?z3] lv m(2,3) m2(2) b3 assms by auto
  have "slice_of (z_buf z) k1 k2 = Inr ?key" "slice_of (z_buf z) v1 v2 = Inr ?val"
    using assms by (auto intro!: slice_piece)
  moreover have "slice_of (z_buf ?z2) v1 v2 = Inr ?val"
    using slice_piece [of v1 v2 "z_buf ?z2"] piece_cong [OF b2(3)] b2(1) assms by auto
  ultimately have t: "TagAttr z = Inr ((lower ?key, unescape_spec True (unix ?val),
      Suc (nAttrReturned z) < length (z_attr z)), ?z4)"
    using assms(1-3) m m2 by (simp add: TagAttr_def Let_def)
  have "z\<lparr>nAttrReturned := Suc (nAttrReturned z), z_buf := z_buf ?z4\<rparr> = ?z4"
    by (rule write_back_thrice [symmetric])
  with t have "TagAttr z = Inr ((lower ?key, unescape_spec True (unix ?val),
      Suc (nAttrReturned z) < length (z_attr z)), z\<lparr>nAttrReturned := Suc (nAttrReturned z), z_buf := z_buf ?z4\<rparr>)"
    by (simp only:)
  then show thesis using b4 by (rule that)
qed

lemma collect_attrs_eq:
  assumes "z_tt z \<in> {StartTagToken, SelfClosingTagToken}" and "z_attr z = done @ as" and "length done = nAttrReturned z"
    and "chained lo as hi" and "0 \<le> lo" and "hi \<le> int (length (z_buf z))"
  shows "\<exists>b. collect_attrs (as \<noteq> []) acc z =
      Inr (acc @ map (attr_value_of (z_buf z)) as, z\<lparr>z_buf := b, nAttrReturned := length (z_attr z)\<rparr>) \<and>
      length b = length (z_buf z) \<and> take (nat lo) b = take (nat lo) (z_buf z) \<and>
      drop (nat hi) b = drop (nat hi) (z_buf z)"
  using assms
proof (induction as arbitrary: z "done" acc lo)
  case Nil
  then show ?case
    by (auto simp: collect_attrs.simps intro!: exI [of _ "z_buf z"])
next
  case (Cons x as)
  obtain k1 k2 v1 v2 where x: "x = ((k1, k2), (v1, v2))" by (metis surj_pair)
  have ch: "lo \<le> k1" "k1 < k2" "k2 \<le> v1" "v1 \<le> v2" "chained v2 as hi" "v2 \<le> hi"
    using Cons.prems(4) chained_le by (auto simp: x)
  have n: "nAttrReturned z < length (z_attr z)" "z_attr z ! nAttrReturned z = ((k1, k2), (v1, v2))"
    using Cons.prems(2,3) x by (auto simp: nth_append)
  have bounds: "0 \<le> k1" "k1 \<le> k2" "k2 \<le> v1" "v1 \<le> v2" "v2 \<le> int (length (z_buf z))"
    using ch Cons.prems(5,6) by auto
  obtain b1 where b1: "TagAttr z = Inr ((lower (piece (z_buf z) k1 k2), unescape_spec True (unix (piece (z_buf z) v1 v2)),
        Suc (nAttrReturned z) < length (z_attr z)), z\<lparr>nAttrReturned := Suc (nAttrReturned z), z_buf := b1\<rparr>)"
    "length b1 = length (z_buf z)" "take (nat k1) b1 = take (nat k1) (z_buf z)"
    "drop (nat v2) b1 = drop (nat v2) (z_buf z)"
    using n Cons.prems(1) bounds by (rule TagAttr_eq)
  let ?z = "z\<lparr>nAttrReturned := Suc (nAttrReturned z), z_buf := b1\<rparr>"
  have again: "(Suc (nAttrReturned z) < length (z_attr z)) = (as \<noteq> [])"
    using Cons.prems(2,3) by auto
  have "\<exists>b. collect_attrs (as \<noteq> []) (acc @ [attr_value_of (z_buf z) x]) ?z =
      Inr ((acc @ [attr_value_of (z_buf z) x]) @ map (attr_value_of (z_buf ?z)) as,
        ?z\<lparr>z_buf := b, nAttrReturned := length (z_attr ?z)\<rparr>) \<and>
      length b = length (z_buf ?z) \<and> take (nat v2) b = take (nat v2) (z_buf ?z) \<and>
      drop (nat hi) b = drop (nat hi) (z_buf ?z)"
    by (rule Cons.IH [of ?z "done @ [x]" v2]) (use Cons.prems ch b1(2) in auto)
  then obtain b where b: "collect_attrs (as \<noteq> []) (acc @ [attr_value_of (z_buf z) x]) ?z =
      Inr ((acc @ [attr_value_of (z_buf z) x]) @ map (attr_value_of b1) as,
        ?z\<lparr>z_buf := b, nAttrReturned := length (z_attr z)\<rparr>)"
      "length b = length b1" "take (nat v2) b = take (nat v2) b1" "drop (nat hi) b = drop (nat hi) b1"
    by auto
  have vals: "map (attr_value_of b1) as = map (attr_value_of (z_buf z)) as"
  proof (rule map_cong [OF refl])
    fix y assume "y \<in> set as"
    moreover obtain a b c d where y: "y = ((a, b), (c, d))" by (metis surj_pair)
    ultimately have "v2 \<le> a" "a < b" "b \<le> c" using chained_bounds [OF ch(5)] by auto
    then show "attr_value_of b1 y = attr_value_of (z_buf z) y"
      using piece_cong [OF b1(4), of a b] piece_cong [OF b1(4), of c d] ch Cons.prems(5) by (simp add: y)
  qed
  have "collect_attrs True acc z = collect_attrs (as \<noteq> []) (acc @ [attr_value_of (z_buf z) x]) ?z"
    by (subst collect_attrs.simps) (simp add: b1(1) again x String_id)
  moreover have "take (nat lo) b = take (nat lo) (z_buf z)"
    using take_earlier [OF b(3), of lo] take_earlier [OF b1(3), of lo] ch by simp
  moreover have "drop (nat hi) b = drop (nat hi) (z_buf z)"
    using b(4) drop_later [OF b1(4) ch(6)] by simp
  ultimately show ?case
    using b b1(2) vals by (intro exI [of _ b]) simp
qed

lemma Tokenizer_Token_eq:
  assumes "wf_tok z" and "spans_ok z"
  obtains z' where "Tokenizer_Token z = Inr (token_of z, z')" and "touched (raw_start z) (raw_end z) z z'"
    and "nAttrReturned z' = (if z_tt z \<in> {StartTagToken, EndTagToken, SelfClosingTagToken}
      then length (z_attr z) else nAttrReturned z)"
    and "z_tt z \<noteq> ErrorToken \<longrightarrow> data_start z' = raw_end z \<and> data_end z' = raw_end z"
proof -
  consider (plain) "z_tt z \<in> {TextToken, CommentToken, DoctypeToken}" | (err) "z_tt z = ErrorToken"
    | (tag) "z_tt z \<in> {StartTagToken, EndTagToken, SelfClosingTagToken}"
    by (cases "z_tt z") auto
  then show thesis
  proof cases
    case plain
    obtain z' where z': "Text z = Inr (t_Data (token_of z), z')" "touched (raw_start z) (raw_end z) z z'"
      "nAttrReturned z' = nAttrReturned z" "data_start z' = raw_end z" "data_end z' = raw_end z"
      using Text_eq [OF assms plain] .
    have "Tokenizer_Token z = Inr (token_of z, z')"
      using plain z'(1) by (auto simp: Tokenizer_Token_def token_of_def)
    then show ?thesis using that z' plain by auto
  next
    case err
    then have "Tokenizer_Token z = Inr (token_of z, z)" by (simp add: Tokenizer_Token_def token_of_def)
    moreover have "touched (raw_start z) (raw_end z) z z"
      using touchedI [of "z_buf z" z "raw_start z" "raw_end z" "nAttrReturned z" "data_end z" "data_start z"] by simp
    ultimately show ?thesis using that err by simp
  next
    case tag
    let ?name = "piece (z_buf z) (data_start z) (data_end z)"
    have ok: "raw_start z \<le> data_start z" "data_start z < data_end z" "chained (data_end z) (z_attr z) (raw_end z)"
      "nAttrReturned z = 0" "z_tt z = EndTagToken \<Longrightarrow> z_attr z = []"
      using assms(2) tag by (auto simp: spans_ok_def)
    have pos: "0 \<le> raw_start z" "raw_end z \<le> int (length (z_buf z))" "data_end z \<le> raw_end z"
      using assms(1) chained_le [OF ok(3)] by (auto simp: wf_tok_def)
    have sl: "slice_of (z_buf z) (data_start z) (data_end z) = Inr ?name"
      using ok pos by (intro slice_piece) auto
    have ln: "int (length ?name) = data_end z - data_start z" using ok pos by (intro length_piece) auto
    let ?b = "z_buf (write_back (data_start z) (lower ?name) z)"
    let ?z1 = "z\<lparr>z_buf := ?b, data_start := raw_end z, data_end := raw_end z\<rparr>"
    have b: "length ?b = length (z_buf z)" "take (nat (raw_start z)) ?b = take (nat (raw_start z)) (z_buf z)"
      "drop (nat (data_end z)) ?b = drop (nat (data_end z)) (z_buf z)"
      using write_back_buf [of "data_start z" "lower ?name" z] ok pos ln by auto
    have w: "(write_back (data_start z) (lower ?name) z)\<lparr>data_start := raw_end z, data_end := raw_end z\<rparr> = ?z1"
      by (simp add: write_back_def)
    have name: "TagName z = Inr ((lower ?name, z_attr z \<noteq> []), ?z1)"
      using ok tag by (auto simp: TagName_def sl w)
    obtain c where c: "collect_attrs (z_attr z \<noteq> []) [] ?z1 =
        Inr (map (attr_value_of ?b) (z_attr z), ?z1\<lparr>z_buf := c, nAttrReturned := length (z_attr z)\<rparr>)"
      "length c = length ?b" "take (nat (data_end z)) c = take (nat (data_end z)) ?b"
      "drop (nat (raw_end z)) c = drop (nat (raw_end z)) ?b"
    proof (cases "z_tt z = EndTagToken")
      case True
      then show ?thesis using that [of ?b] ok by (simp add: collect_attrs.simps)
    next
      case False
      then show ?thesis
        using collect_attrs_eq [of ?z1 "[]" "z_attr z" "data_end z" "raw_end z" "[]"] that tag ok pos b(1) by auto
    qed
    have vals: "map (attr_value_of ?b) (z_attr z) = map (attr_value_of (z_buf z)) (z_attr z)"
    proof (rule map_cong [OF refl])
      fix y assume "y \<in> set (z_attr z)"
      moreover obtain a b c d where y: "y = ((a, b), (c, d))" by (metis surj_pair)
      ultimately have "data_end z \<le> a" "a < b" "b \<le> c" using chained_bounds [OF ok(3)] by auto
      then show "attr_value_of ?b y = attr_value_of (z_buf z) y"
        using piece_cong [OF b(3), of a b] piece_cong [OF b(3), of c d] ok pos by (simp add: y)
    qed
    let ?z2 = "?z1\<lparr>z_buf := c, nAttrReturned := length (z_attr z)\<rparr>"
    have "z_tt z \<notin> {TextToken, CommentToken, DoctypeToken}" "z_tt z \<in> {StartTagToken, SelfClosingTagToken, EndTagToken}"
      using tag by auto
    moreover have "Atom_String a = Inr (lower ?name)" if "atom_of (lower ?name) = a" "a \<noteq> 0" for a
      using that declared(6) by (auto simp: atom_of_def declared_atoms_iff split: option.splits)
    ultimately have "Tokenizer_Token z = Inr (token_of z, ?z2)"
      using tag by (auto simp: Tokenizer_Token_def name c(1) vals token_of_def Let_def Lookup_declared atom_of_def [symmetric])
    moreover have "touched (raw_start z) (raw_end z) z ?z2"
    proof -
      have "length c = length (z_buf z)" "take (nat (raw_start z)) c = take (nat (raw_start z)) (z_buf z)"
        "drop (nat (raw_end z)) c = drop (nat (raw_end z)) (z_buf z)"
        using c b take_earlier [OF c(3), of "raw_start z"] drop_later [OF b(3), of "raw_end z"] ok(1,2) pos by simp_all
      then have "touched (raw_start z) (raw_end z) z
          (z\<lparr>z_buf := c, data_start := raw_end z, data_end := raw_end z, nAttrReturned := length (z_attr z)\<rparr>)"
        by (rule touchedI)
      moreover have "z\<lparr>z_buf := c, data_start := raw_end z, data_end := raw_end z, nAttrReturned := length (z_attr z)\<rparr> = ?z2"
        by simp
      ultimately show ?thesis by (simp only:)
    qed
    ultimately show ?thesis using that tag by simp
  qed
qed

text \<open>Reading the data of a token does not disturb the tokens that follow.\<close>

lemma touched_next:
  assumes "wf_tok z" and "touched (raw_start z) (raw_end z) z z'"
  shows "wf_tok z'" and "rest z' = rest z" and "z_err z' = z_err z" and "z_maxBuf z' = z_maxBuf z"
    and "norm (next_begin z') = (norm (next_begin z))\<lparr>nAttrReturned := nAttrReturned z'\<rparr>"
    and "end_err z' = end_err z"
proof -
  obtain b where z': "z' = z\<lparr>z_buf := b, data_start := data_start z', data_end := data_end z', nAttrReturned := nAttrReturned z'\<rparr>"
    and b: "length b = length (z_buf z)" "drop (nat (raw_end z)) b = drop (nat (raw_end z)) (z_buf z)"
    using assms(2) by (auto simp: touched_def)
  have same: "z_r z' = z_r z" "z_readErr z' = z_readErr z" "raw_start z' = raw_start z" "raw_end z' = raw_end z"
    "z_buf z' = b" "z_cap z' = z_cap z" "z_maxBuf z' = z_maxBuf z" "z_err z' = z_err z"
    by (subst z', simp)+
  show wf: "wf_tok z'" using assms(1) b(1) same by (simp add: wf_tok_def)
  show "z_err z' = z_err z" "z_maxBuf z' = z_maxBuf z" by (rule same)+
  show e: "end_err z' = end_err z" using same by (cases "z_readErr z") (simp_all add: end_err_def)
  have "stream (next_begin z') = stream (next_begin z)"
    using b(2) same by (simp add: stream_def next_begin_def)
  then show r: "rest z' = rest z"
    using next_begin_facts(3) [OF wf] next_begin_facts(3) [OF assms(1)] by simp
  have "stream (next_begin z') = rest z" using next_begin_facts(3) [OF wf] r by simp
  moreover have "stream (next_begin z) = rest z" using next_begin_facts(3) [OF assms(1)] .
  moreover have "end_err (next_begin z') = end_err (next_begin z)"
    using next_begin_facts(8) [OF wf] next_begin_facts(8) [OF assms(1)] e by simp
  ultimately have n: "norm (next_begin z') = (shift_spans (raw_end z) (next_begin z'))
      \<lparr>raw_start := 0, raw_end := 0, z_buf := rest z, z_cap := 0, z_r := spent, z_readErr := Some (end_err (next_begin z))\<rparr>"
    "norm (next_begin z) = (shift_spans (raw_end z) (next_begin z))
      \<lparr>raw_start := 0, raw_end := 0, z_buf := rest z, z_cap := 0, z_r := spent, z_readErr := Some (end_err (next_begin z))\<rparr>"
    using next_begin_facts(2) [OF wf] next_begin_facts(2) [OF assms(1)] same
    by (simp_all add: norm_def) (simp_all add: next_begin_def)
  show "norm (next_begin z') = (norm (next_begin z))\<lparr>nAttrReturned := nAttrReturned z'\<rparr>"
    unfolding n by (subst z') (simp add: next_begin_def shift_spans_def)
qed

end
