(* ===== verification/Html_Token_Stream.thy ===== *)
theory Html_Token_Stream
  imports Html_Token_Value
begin

text \<open>
  Tokenizing a whole input. \<open>read_tokens\<close> is the loop of every client of the tokenizer:
  \<open>Next\<close>, the raw bytes, the token, until the error token. \<open>tok_reach\<close> are the states a
  client can bring a tokenizer into. The section at the end states what follows for all readers.
\<close>

section \<open>The loop of a client\<close>

text \<open>At most \<open>n\<close> tokens: each with the bytes it was read from.\<close>

fun read_tokens :: "nat \<Rightarrow> Tokenizer \<Rightarrow> (string \<times> Token) list tok" where
  "read_tokens 0 z = Inr ([], z)"
| "read_tokens (Suc n) z =
     go_bind (Next z) (\<lambda>z1.
     go_bind (Raw z1) (\<lambda>raw.
     go_bind (Tokenizer_Token z1) (\<lambda>(t, z2).
       if t_Type t = ErrorToken then Inr ([(raw, t)], z2)
       else go_bind (read_tokens n z2) (\<lambda>(ts, z3). Inr ((raw, t) # ts, z3)))))"

text \<open>The states that a client reaches: it may skip a token, read its data at once or call by call, as
  often as it likes, and set the tokenizer's options.\<close>

inductive tok_reach :: "reader \<Rightarrow> string \<Rightarrow> Tokenizer \<Rightarrow> bool" for r contextTag where
  start: "tok_reach r contextTag (NewTokenizerFragment r contextTag)"
| skip: "tok_reach r contextTag z \<Longrightarrow> Next z = Inr z1 \<Longrightarrow> tok_reach r contextTag z1"
| token: "tok_reach r contextTag z \<Longrightarrow> Next z = Inr z1 \<Longrightarrow> Tokenizer_Token z1 = Inr (t, z2) \<Longrightarrow>
    tok_reach r contextTag z2"
| text_data: "tok_reach r contextTag z \<Longrightarrow> Text z = Inr (s, z1) \<Longrightarrow> tok_reach r contextTag z1"
| tag_name: "tok_reach r contextTag z \<Longrightarrow> TagName z = Inr (n, z1) \<Longrightarrow> tok_reach r contextTag z1"
| tag_attr: "tok_reach r contextTag z \<Longrightarrow> TagAttr z = Inr (a, z1) \<Longrightarrow> tok_reach r contextTag z1"
| limit: "tok_reach r contextTag z \<Longrightarrow> tok_reach r contextTag (SetMaxBuf n z)"
| cdata: "tok_reach r contextTag z \<Longrightarrow> tok_reach r contextTag (AllowCDATA b z)"
| not_raw: "tok_reach r contextTag z \<Longrightarrow> tok_reach r contextTag (NextIsNotRawText z)"

lemma token_type [simp]: "t_Type (token_of z) = z_tt z"
  by (simp add: token_of_def Let_def)

lemma Raw_eq: "wf_tok z \<Longrightarrow> Raw z = Inr (take (nat (off z)) (stream z))"
proof -
  assume z: "wf_tok z"
  then have r: "raw_start z \<le> raw_end z" by (simp add: wf_tok_def)
  have "piece (stream z) (raw_start z - raw_start z) (raw_end z - raw_start z) = piece (z_buf z) (raw_start z) (raw_end z)"
    by (rule piece_norm(2) [OF z order_refl r order_refl])
  then show ?thesis
    using piece_norm(1) [OF z order_refl r order_refl] by (simp add: Raw_def piece_def off_def)
qed

lemma touched_type: "touched lo hi z z' \<Longrightarrow> z_tt z' = z_tt z"
proof -
  assume "touched lo hi z z'"
  then obtain b where z': "z' = z\<lparr>z_buf := b, data_start := data_start z', data_end := data_end z',
      nAttrReturned := nAttrReturned z'\<rparr>"
    by (auto simp: touched_def)
  show ?thesis by (subst z') simp
qed

text \<open>One round: the next token and its data.\<close>

lemma round:
  assumes "wf_tok z"
  obtains z1 z2 where "Next z = Inr z1" and "Raw z1 = Inr (take (nat (off z1)) (stream z1))"
    and "Tokenizer_Token z1 = Inr (token_of z1, z2)" and "wf_tok z1" and "wf_tok z2" and "spans_ok z1"
    and "stream z1 = rest z" and "rest z2 = rest z1" and "z_err z2 = z_err z1" and "z_tt z2 = z_tt z1"
    and "end_err z1 = end_err z" and "end_err z2 = end_err z" and "z_maxBuf z1 = z_maxBuf z" and "z_maxBuf z2 = z_maxBuf z"
    and "Next_on (norm (next_begin z)) = Inr (norm z1)"
    and "norm (next_begin z2) = (norm (next_begin (norm z1)))\<lparr>nAttrReturned :=
      (if z_tt z1 \<in> {StartTagToken, EndTagToken, SelfClosingTagToken} then length (z_attr z1) else nAttrReturned z1)\<rparr>"
    and "whole (norm (next_begin z)) \<longrightarrow> whole (norm z1)"
    and "if z_tt z1 = ErrorToken then z_err z1 \<noteq> None else 0 < off z1"
proof -
  obtain z1 where z1: "Next z = Inr z1" "wf_tok z1" "spans_ok z1" "Next_on (norm (next_begin z)) = Inr (norm z1)"
    "stream z1 = rest z" "whole (norm (next_begin z)) \<longrightarrow> whole (norm z1)" "z_maxBuf z1 = z_maxBuf z" "end_err z1 = end_err z"
    "if z_tt z1 = ErrorToken then z_err z1 \<noteq> None else 0 < off z1"
    using assms by (rule Next_runs)
  obtain z2 where z2: "Tokenizer_Token z1 = Inr (token_of z1, z2)" and t: "touched (raw_start z1) (raw_end z1) z1 z2"
    and n: "nAttrReturned z2 = (if z_tt z1 \<in> {StartTagToken, EndTagToken, SelfClosingTagToken}
      then length (z_attr z1) else nAttrReturned z1)"
    using Tokenizer_Token_eq [OF z1(2,3)] by blast
  note f = touched_next [OF z1(2) t]
  have "z_tt z2 = z_tt z1" using touched_type [OF t] .
  moreover have "norm (next_begin z2) = (norm (next_begin (norm z1)))\<lparr>nAttrReturned := nAttrReturned z2\<rparr>"
    using f(5) next_begin_facts(6) [OF z1(2)] by simp
  ultimately show thesis
    using that [OF z1(1) Raw_eq [OF z1(2)] z2 z1(2) f(1) z1(3,5) f(2,3) _ z1(8) _ z1(7) _ z1(4) _ z1(6,9)] f(4,6) z1(7,8) n
    by simp
qed

section \<open>Reaching the end\<close>

lemma whole_begin:
  "wf_tok z \<Longrightarrow> whole (norm (next_begin z)) \<longleftrightarrow>
   (z_err z \<noteq> None \<longrightarrow> z_maxBuf z \<le> 0 \<longrightarrow> rest z = [] \<and> z_err z = Some (end_err z))"
  using next_begin_facts(2,3,7,8,9) [of z] by (auto simp: whole_def)

lemma whole_rest: "wf_tok z \<Longrightarrow> whole (norm z) \<Longrightarrow> z_err z \<noteq> None \<Longrightarrow> z_maxBuf z \<le> 0 \<Longrightarrow>
   rest z = [] \<and> z_err z = Some (end_err z)"
  by (auto simp: whole_def rest_def)

lemma read_tokens_end:
  assumes "wf_tok z" and "whole (norm (next_begin z))" and "z_maxBuf z \<le> 0" and "length (rest z) < n"
  shows "\<exists>ts raw t z'. read_tokens n z = Inr (ts @ [(raw, t)], z') \<and> concat (map fst ts) @ raw = rest z \<and>
     t_Type t = ErrorToken \<and> list_all (\<lambda>(raw, t). raw \<noteq> [] \<and> t_Type t \<noteq> ErrorToken) ts \<and>
     Err z' = Some (end_err z)"
  using assms
proof (induction n arbitrary: z)
  case (Suc n)
  obtain z1 z2 where z1: "Next z = Inr z1" "Raw z1 = Inr (take (nat (off z1)) (stream z1))"
    "Tokenizer_Token z1 = Inr (token_of z1, z2)" "wf_tok z1" "wf_tok z2"
    "stream z1 = rest z" "rest z2 = rest z1" "z_err z2 = z_err z1" "z_tt z2 = z_tt z1"
    "end_err z1 = end_err z" "end_err z2 = end_err z" "z_maxBuf z1 = z_maxBuf z" "z_maxBuf z2 = z_maxBuf z"
    and w: "whole (norm (next_begin z)) \<longrightarrow> whole (norm z1)"
    and tt: "if z_tt z1 = ErrorToken then z_err z1 \<noteq> None else 0 < off z1"
    by (rule round [OF Suc.prems(1)]) blast
  define raw where "raw = take (nat (off z1)) (stream z1)"
  have split: "rest z = raw @ rest z1"
    unfolding raw_def z1(6) [symmetric] by (simp add: rest_def)
  have w1: "whole (norm z1)" using w Suc.prems(2) by simp
  show ?case
  proof (cases "z_tt z1 = ErrorToken")
    case True
    then have "rest z1 = [] \<and> z_err z1 = Some (end_err z)"
      using whole_rest [OF z1(4) w1] tt Suc.prems(3) z1(10,12) by simp
    then have "concat (map fst []) @ raw = rest z" "Err z2 = Some (end_err z)"
      using True z1 split by (simp_all add: Err_def)
    moreover have "read_tokens (Suc n) z = Inr ([] @ [(raw, token_of z1)], z2)"
      using True z1 by (simp add: raw_def)
    ultimately show ?thesis using True token_type list.pred_inject(1) by metis
  next
    case False
    then have o: "0 < off z1" using tt by simp
    moreover have "off z1 \<le> int (length (stream z1))"
      using z1(4) by (auto simp: wf_tok_def off_def stream_def)
    ultimately have "raw \<noteq> []" "length (rest z2) < n"
      using z1(6,7) Suc.prems(4) by (auto simp: raw_def rest_def)
    moreover have "whole (norm (next_begin z2))"
      unfolding whole_begin [OF z1(5)] using whole_rest [OF z1(4) w1] z1 by simp
    ultimately obtain ts raw' t z' where IH: "read_tokens n z2 = Inr (ts @ [(raw', t)], z')"
      "concat (map fst ts) @ raw' = rest z2" "t_Type t = ErrorToken"
      "list_all (\<lambda>(raw, t). raw \<noteq> [] \<and> t_Type t \<noteq> ErrorToken) ts" "Err z' = Some (end_err z2)"
      using Suc.IH [OF z1(5)] Suc.prems(3) z1(13) by auto
    have "read_tokens (Suc n) z = Inr (((raw, token_of z1) # ts) @ [(raw', t)], z')"
      using z1 False IH(1) by (simp add: raw_def)
    moreover have "concat (map fst ((raw, token_of z1) # ts)) @ raw' = rest z"
      using split IH(2) z1(7) by simp
    ultimately show ?thesis
      using IH(3-5) \<open>raw \<noteq> []\<close> False z1(11)
      by (intro exI [of _ "(raw, token_of z1) # ts"] exI [of _ raw'] exI [of _ t] exI [of _ z']) simp
  qed
qed simp

section \<open>One tokenizer in place of another\<close>

lemma read_tokens_agree:
  assumes "wf_tok z" and "wf_tok w" and "norm (next_begin z) = norm (next_begin w)"
  shows "\<exists>ts z' w'. read_tokens n z = Inr (ts, z') \<and> read_tokens n w = Inr (ts, w') \<and>
    z_tt z' = z_tt w' \<and> z_err z' = z_err w'"
  using assms
proof (induction n arbitrary: z w)
  case 0
  have "z_tt (norm (next_begin z)) = z_tt (norm (next_begin w))" "z_err (norm (next_begin z)) = z_err (norm (next_begin w))"
    using "0.prems"(3) by simp_all
  then show ?case by (simp add: next_begin_def)
next
  case (Suc n)
  obtain z1 z2 where z1: "Next z = Inr z1" "Raw z1 = Inr (take (nat (off z1)) (stream z1))"
    "Tokenizer_Token z1 = Inr (token_of z1, z2)" "wf_tok z1" "wf_tok z2" "spans_ok z1"
    "z_err z2 = z_err z1" "z_tt z2 = z_tt z1" "Next_on (norm (next_begin z)) = Inr (norm z1)"
    "norm (next_begin z2) = (norm (next_begin (norm z1)))\<lparr>nAttrReturned :=
      (if z_tt z1 \<in> {StartTagToken, EndTagToken, SelfClosingTagToken} then length (z_attr z1) else nAttrReturned z1)\<rparr>"
    by (rule round [OF Suc.prems(1)]) blast
  obtain w1 w2 where w1: "Next w = Inr w1" "Raw w1 = Inr (take (nat (off w1)) (stream w1))"
    "Tokenizer_Token w1 = Inr (token_of w1, w2)" "wf_tok w1" "wf_tok w2" "spans_ok w1"
    "z_err w2 = z_err w1" "z_tt w2 = z_tt w1" "Next_on (norm (next_begin w)) = Inr (norm w1)"
    "norm (next_begin w2) = (norm (next_begin (norm w1)))\<lparr>nAttrReturned :=
      (if z_tt w1 \<in> {StartTagToken, EndTagToken, SelfClosingTagToken} then length (z_attr w1) else nAttrReturned w1)\<rparr>"
    by (rule round [OF Suc.prems(2)]) blast
  have eq: "norm z1 = norm w1" using z1(9) w1(9) Suc.prems(3) by simp
  have "map f (z_attr (norm z1)) = map f (z_attr (norm w1))" for f :: "_ \<Rightarrow> nat" using eq by simp
  then have fields: "off z1 = off w1" "stream z1 = stream w1" "z_tt z1 = z_tt w1" "z_err z1 = z_err w1"
    "nAttrReturned z1 = nAttrReturned w1" "length (z_attr z1) = length (z_attr w1)"
    using eq norm_simps by (metis, metis, metis, metis, metis, metis length_map)
  have tok: "token_of z1 = token_of w1"
    using token_of_norm [OF z1(4,6)] token_of_norm [OF w1(4,6)] eq by simp
  have "norm (next_begin z2) = norm (next_begin w2)"
    using z1(10) w1(10) eq fields by simp
  then obtain ts z' w' where "read_tokens n z2 = Inr (ts, z')" "read_tokens n w2 = Inr (ts, w')"
    "z_tt z' = z_tt w'" "z_err z' = z_err w'"
    using Suc.IH [OF z1(5) w1(5)] by blast
  then show ?case
    using z1 w1 fields tok by (cases "z_tt w1 = ErrorToken") auto
qed

section \<open>Reading the data of a token piece by piece\<close>

text \<open>The spans that \<open>Text\<close>, \<open>TagName\<close> and \<open>TagAttr\<close> read lie in the raw bytes of the token, however
  often they are called.\<close>

definition data_ok :: "Tokenizer \<Rightarrow> bool" where
  "data_ok z \<longleftrightarrow>
     (z_tt z \<noteq> ErrorToken \<longrightarrow> raw_start z \<le> data_start z \<and> data_start z \<le> data_end z \<and> data_end z \<le> raw_end z) \<and>
     (z_tt z \<in> {StartTagToken, SelfClosingTagToken} \<longrightarrow>
        (\<forall>((a, b), (c, d)) \<in> set (z_attr z). raw_start z \<le> a \<and> a \<le> b \<and> b \<le> c \<and> c \<le> d \<and> d \<le> raw_end z))"

lemma spans_ok_data: "spans_ok z \<Longrightarrow> data_ok z"
proof -
  assume z: "spans_ok z"
  show ?thesis
  proof (cases "z_tt z \<in> {StartTagToken, EndTagToken, SelfClosingTagToken}")
    case True
    then have d: "raw_start z \<le> data_start z" "data_start z < data_end z" "chained (data_end z) (z_attr z) (raw_end z)"
      using z by (auto simp: spans_ok_def)
    have "raw_start z \<le> a \<and> a \<le> b \<and> b \<le> c \<and> c \<le> e \<and> e \<le> raw_end z" if "((a, b), (c, e)) \<in> set (z_attr z)" for a b c e
      using chained_bounds [OF d(3) that] d(1,2) by auto
    with d chained_le [OF d(3)] show ?thesis by (auto simp: data_ok_def)
  qed (use z in \<open>cases "z_tt z"; auto simp: spans_ok_def data_ok_def\<close>)
qed

lemma touched_fields:
  assumes "touched lo hi z z'"
  shows "raw_start z' = raw_start z" and "raw_end z' = raw_end z" and "z_tt z' = z_tt z" and "z_attr z' = z_attr z"
proof -
  obtain b where z': "z' = z\<lparr>z_buf := b, data_start := data_start z', data_end := data_end z', nAttrReturned := nAttrReturned z'\<rparr>"
    using assms by (auto simp: touched_def)
  show "raw_start z' = raw_start z" and "raw_end z' = raw_end z" and "z_tt z' = z_tt z" and "z_attr z' = z_attr z"
    by (subst z', simp)+
qed

lemma touched_data_ok:
  assumes "touched (raw_start z) (raw_end z) z z'" and "data_ok z" and "wf_tok z"
    and "data_start z' = data_start z \<and> data_end z' = data_end z \<or> data_start z' = raw_end z \<and> data_end z' = raw_end z"
  shows "data_ok z'"
proof -
  have "raw_start z \<le> raw_end z" using assms(3) by (simp add: wf_tok_def)
  with assms(2,4) touched_fields [OF assms(1)] show ?thesis by (auto simp: data_ok_def)
qed

lemma touched_refl: "touched lo hi z z"
  using touchedI [of "z_buf z" z lo hi "nAttrReturned z" "data_end z" "data_start z"] by simp

text \<open>What each of the three does.\<close>

definition reads :: "Tokenizer \<Rightarrow> 'a tok \<Rightarrow> bool" where
  "reads z r \<longleftrightarrow> (\<exists>x z'. r = Inr (x, z') \<and> touched (raw_start z) (raw_end z) z z' \<and> data_ok z')"

lemma reads_Text:
  assumes "wf_tok z" and "data_ok z"
  shows "reads z (Text z)"
proof (cases "z_tt z \<in> {TextToken, CommentToken, DoctypeToken}")
  case True
  then have "spans_ok z" using assms(2) by (auto simp: data_ok_def spans_ok_def)
  then obtain z' where z': "Text z = Inr (t_Data (token_of z), z')" "touched (raw_start z) (raw_end z) z z'"
    "data_start z' = raw_end z \<and> data_end z' = raw_end z"
    using Text_eq [OF assms(1) _ True] by blast
  then show ?thesis using touched_data_ok [OF z'(2) assms(2,1)] by (auto simp: reads_def)
qed (use assms in \<open>auto simp: Text_def reads_def touched_refl\<close>)

lemma reads_TagName:
  assumes "wf_tok z" and "data_ok z"
  shows "reads z (TagName z)"
proof (cases "data_start z < data_end z \<and> z_tt z \<in> {StartTagToken, EndTagToken, SelfClosingTagToken}")
  case True
  let ?s = "piece (z_buf z) (data_start z) (data_end z)"
  have ok: "raw_start z \<le> data_start z" "data_start z \<le> data_end z" "data_end z \<le> raw_end z"
    using True assms(2) by (auto simp: data_ok_def)
  have pos: "0 \<le> raw_start z" "raw_end z \<le> int (length (z_buf z))" using assms(1) by (auto simp: wf_tok_def)
  have sl: "slice_of (z_buf z) (data_start z) (data_end z) = Inr ?s" using ok pos by (intro slice_piece) auto
  have ln: "int (length ?s) = data_end z - data_start z" using ok pos by (intro length_piece) auto
  let ?b = "z_buf (write_back (data_start z) (lower ?s) z)"
  let ?z = "z\<lparr>z_buf := ?b, data_start := raw_end z, data_end := raw_end z, nAttrReturned := nAttrReturned z\<rparr>"
  have "touched (raw_start z) (raw_end z) z ?z"
    by (rule touchedI) (use write_back_buf [of "data_start z" "lower ?s" z] ok pos ln in auto)
  moreover have "TagName z = Inr ((lower ?s, nAttrReturned z < length (z_attr z)), ?z)"
    using True by (auto simp: TagName_def sl write_back_def)
  ultimately show ?thesis using touched_data_ok [OF _ assms(2,1), of ?z] by (auto simp: reads_def)
qed (use assms in \<open>auto simp: TagName_def reads_def touched_refl\<close>)

lemma reads_TagAttr:
  assumes "wf_tok z" and "data_ok z"
  shows "reads z (TagAttr z)"
proof (cases "nAttrReturned z < length (z_attr z) \<and> z_tt z \<in> {StartTagToken, SelfClosingTagToken}")
  case True
  obtain k1 k2 v1 v2 where x: "z_attr z ! nAttrReturned z = ((k1, k2), (v1, v2))" by (metis surj_pair)
  then have "((k1, k2), (v1, v2)) \<in> set (z_attr z)" using True nth_mem by metis
  then have ok: "raw_start z \<le> k1" "k1 \<le> k2" "k2 \<le> v1" "v1 \<le> v2" "v2 \<le> raw_end z"
    using True assms(2) by (auto simp: data_ok_def)
  have pos: "0 \<le> raw_start z" "raw_end z \<le> int (length (z_buf z))" using assms(1) by (auto simp: wf_tok_def)
  have bounds: "0 \<le> k1" "v2 \<le> int (length (z_buf z))" using ok pos by simp_all
  obtain b where b: "TagAttr z = Inr ((lower (piece (z_buf z) k1 k2), unescape_spec True (unix (piece (z_buf z) v1 v2)),
        Suc (nAttrReturned z) < length (z_attr z)), z\<lparr>nAttrReturned := Suc (nAttrReturned z), z_buf := b\<rparr>)"
    "length b = length (z_buf z)" "take (nat k1) b = take (nat k1) (z_buf z)" "drop (nat v2) b = drop (nat v2) (z_buf z)"
    by (rule TagAttr_eq [OF conjunct1 [OF True] x conjunct2 [OF True] bounds(1) ok(2-4) bounds(2)])
  let ?z = "z\<lparr>z_buf := b, data_start := data_start z, data_end := data_end z, nAttrReturned := Suc (nAttrReturned z)\<rparr>"
  have t: "touched (raw_start z) (raw_end z) z ?z"
    using b(2) take_earlier [OF b(3) ok(1)] drop_later [OF b(4) ok(5)] by (rule touchedI)
  moreover have "\<exists>a. TagAttr z = Inr (a, ?z)" using b(1) by simp
  ultimately show ?thesis using touched_data_ok [OF t assms(2,1)] by (auto simp: reads_def)
qed (use assms in \<open>auto simp: TagAttr_def reads_def touched_refl\<close>)

section \<open>Every client\<close>

lemma wf_NewTokenizerFragment: "patient_reader r \<Longrightarrow> wf_tok (NewTokenizerFragment r contextTag)"
  by (simp add: wf_tok_def NewTokenizerFragment_def)

lemma wf_options [simp]:
  "wf_tok (SetMaxBuf n z) = wf_tok z" "wf_tok (AllowCDATA b z) = wf_tok z" "wf_tok (NextIsNotRawText z) = wf_tok z"
  by (simp_all add: wf_tok_def SetMaxBuf_def AllowCDATA_def NextIsNotRawText_def)

lemma data_ok_options [simp]:
  "data_ok (SetMaxBuf n z) = data_ok z" "data_ok (AllowCDATA b z) = data_ok z" "data_ok (NextIsNotRawText z) = data_ok z"
  by (simp_all add: data_ok_def SetMaxBuf_def AllowCDATA_def NextIsNotRawText_def)

lemma reads_ok: "reads z (Inr (x, z')) \<Longrightarrow> wf_tok z \<Longrightarrow> wf_tok z' \<and> data_ok z'"
  using touched_next(1) by (auto simp: reads_def)

lemma reads_rest: "reads z r \<Longrightarrow> wf_tok z \<Longrightarrow> \<exists>x z'. r = Inr (x, z') \<and> rest z' = rest z"
  using touched_next(2) by (auto simp: reads_def)

lemma tok_reach_ok:
  assumes "tok_reach r contextTag z" and "patient_reader r"
  shows "wf_tok z \<and> data_ok z"
  using assms(1)
proof induction
  case start
  then show ?case using wf_NewTokenizerFragment [OF assms(2)] by (simp add: data_ok_def NewTokenizerFragment_def)
next
  case (skip z z1)
  then show ?case using spans_ok_data by (metis Next_runs sum.inject(2))
next
  case (token z z1 t z2)
  then have z1: "wf_tok z1" "spans_ok z1" by (metis Next_runs sum.inject(2))+
  then obtain y where "Tokenizer_Token z1 = Inr (token_of z1, y)" and t: "touched (raw_start z1) (raw_end z1) z1 y"
    and d: "z_tt z1 \<noteq> ErrorToken \<longrightarrow> data_start y = raw_end z1 \<and> data_end y = raw_end z1"
    using Tokenizer_Token_eq [OF z1] by blast
  then have "y = z2" using token.hyps by simp
  moreover have "data_ok y"
    using d touched_data_ok [OF t spans_ok_data [OF z1(2)] z1(1)] touched_fields(3) [OF t]
    by (cases "z_tt z1 = ErrorToken") (auto simp: data_ok_def)
  ultimately show ?case using touched_next(1) [OF z1(1) t] by simp
next
  case (text_data z s z1)
  then show ?case using reads_ok [of z s z1] reads_Text [of z] by simp
next
  case (tag_name z n z1)
  then show ?case using reads_ok [of z n z1] reads_TagName [of z] by simp
next
  case (tag_attr z a z1)
  then show ?case using reads_ok [of z a z1] reads_TagAttr [of z] by simp
qed simp_all

lemma strings_reader [simp]:
  "patient_reader (strings_NewReader s)" "content (strings_NewReader s) = s" "final (strings_NewReader s) = EOF"
  by (simp_all add: strings_NewReader_def patient_reader_def)

section \<open>What the tokenizer promises\<close>

text \<open>C11. The tokenizer never panics and makes progress. In every state that a client can reach,
  whatever limits and options it has set and however the reader portions the input, \<open>Next\<close>
  returns; unless it reports an error, it has taken at least one byte of the input that was left.
  Then \<open>Raw\<close> and \<open>Token\<close> return too. \<open>Raw\<close> is exactly what was taken. \<open>Token\<close>,
  which converts new lines, character references and letters in place, in the buffer that also
  holds the input still to come, yields the token that \<open>token_of\<close> reads off the unchanged
  buffer, and leaves the input still to come as it was. In every such state, also after the data
  of the token was read already, \<open>Text\<close>, \<open>TagName\<close> and \<open>TagAttr\<close> return and leave that input alone.
  The reader must not return nothing a hundred times in a row.\<close>

theorem tokenizer_total:
  assumes "patient_reader r" and "tok_reach r contextTag z"
  shows "\<exists>z1 raw z2. Next z = Inr z1 \<and> Raw z1 = Inr raw \<and> rest z = raw @ rest z1 \<and>
    (if z_tt z1 = ErrorToken then Err z1 \<noteq> None else raw \<noteq> []) \<and>
    Tokenizer_Token z1 = Inr (token_of z1, z2) \<and> rest z2 = rest z1 \<and>
    (\<exists>s y. Text z = Inr (s, y) \<and> rest y = rest z) \<and> (\<exists>n y. TagName z = Inr (n, y) \<and> rest y = rest z) \<and>
    (\<exists>a y. TagAttr z = Inr (a, y) \<and> rest y = rest z)"
proof -
  have ok: "wf_tok z" "data_ok z" using tok_reach_ok [OF assms(2,1)] by simp_all
  note reads = reads_rest [OF reads_Text [OF ok] ok(1)] reads_rest [OF reads_TagName [OF ok] ok(1)]
    reads_rest [OF reads_TagAttr [OF ok] ok(1)]
  obtain z1 z2 where z1: "Next z = Inr z1" "Raw z1 = Inr (take (nat (off z1)) (stream z1))"
    "Tokenizer_Token z1 = Inr (token_of z1, z2)" "wf_tok z1" "stream z1 = rest z" "rest z2 = rest z1"
    and tt: "if z_tt z1 = ErrorToken then z_err z1 \<noteq> None else 0 < off z1"
    by (rule round [OF ok(1)]) blast
  have split: "rest z = take (nat (off z1)) (stream z1) @ rest z1"
    unfolding z1(5) [symmetric] by (simp add: rest_def)
  have "off z1 \<le> int (length (stream z1))"
    using z1(4) by (auto simp: wf_tok_def off_def stream_def)
  with tt have "if z_tt z1 = ErrorToken then Err z1 \<noteq> None else take (nat (off z1)) (stream z1) \<noteq> []"
    by (auto simp: Err_def)
  with z1 split reads show ?thesis by blast
qed

theorem tokenizer_total_witness:
  "\<exists>z1. Next (SetMaxBuf 2 (NewTokenizer (strings_NewReader ''<b>''))) = Inr z1"
  using tokenizer_total [of "strings_NewReader ''<b>''" "[]" "SetMaxBuf 2 (NewTokenizer (strings_NewReader ''<b>''))"]
  by (auto simp: NewTokenizer_def intro: tok_reach.intros)

text \<open>C9. Tokenizing loses nothing and ends. For every reader that does not return nothing a hundred
  times in a row, the loop over \<open>Next\<close> reaches
  the error token within one call more than there are bytes; the raw bytes of the tokens, put one
  after another, are the input, byte for byte; no token but the last is empty or an error; and the
  error that ends the stream is the one the reader ended with.\<close>

theorem tokenizer_lossless:
  assumes "patient_reader r"
  shows "\<exists>ts raw t z. read_tokens (length (content r) + 1) (NewTokenizerFragment r contextTag) =
      Inr (ts @ [(raw, t)], z) \<and>
    concat (map fst ts) @ raw = content r \<and> t_Type t = ErrorToken \<and>
    list_all (\<lambda>(raw, t). raw \<noteq> [] \<and> t_Type t \<noteq> ErrorToken) ts \<and> Err z = Some (final r)"
proof -
  let ?z = "NewTokenizerFragment r contextTag"
  have f: "rest ?z = content r" "end_err ?z = final r" "z_err ?z = None" "z_maxBuf ?z = 0"
    by (simp_all add: NewTokenizerFragment_def rest_def off_def stream_def end_err_def)
  note wf = wf_NewTokenizerFragment [OF assms, of contextTag]
  have "whole (norm (next_begin ?z))" by (simp add: whole_begin [OF wf] f(3))
  then show ?thesis
    using read_tokens_end [OF wf, of "length (content r) + 1"] f by simp
qed

theorem tokenizer_lossless_witness:
  "\<exists>ts raw t z. read_tokens 5 (NewTokenizer (strings_NewReader ''a<b>'')) = Inr (ts @ [(raw, t)], z) \<and>
    concat (map fst ts) @ raw = ''a<b>'' \<and> Err z = Some EOF"
proof -
  have n: "length ''a<b>'' + 1 = 5" by simp
  show ?thesis
    using tokenizer_lossless [OF strings_reader(1), of "''a<b>''" "[]"]
    unfolding strings_reader n NewTokenizer_def by blast
qed

text \<open>C10. The buffer is invisible. The tokens, their raw bytes and the error do not depend on how the
  reader portions its bytes, on empty reads, on whether its error comes with the last bytes, nor
  on where the buffer was refilled, moved or enlarged: two readers of the same bytes that end
  with the same error, and do not return nothing a hundred times in a row, yield the same.\<close>

theorem buffering_invisible:
  assumes "patient_reader r" and "patient_reader r'" and "content r = content r'" and "final r = final r'"
  shows "\<exists>ts z z'. read_tokens n (NewTokenizerFragment r contextTag) = Inr (ts, z) \<and>
    read_tokens n (NewTokenizerFragment r' contextTag) = Inr (ts, z') \<and> Err z = Err z'"
proof -
  have "norm (next_begin (NewTokenizerFragment r contextTag)) = norm (next_begin (NewTokenizerFragment r' contextTag))"
    using assms(3,4)
    by (simp add: norm_def next_begin_def NewTokenizerFragment_def shift_spans_def off_def stream_def end_err_def)
  then show ?thesis
    using read_tokens_agree [OF wf_NewTokenizerFragment [OF assms(1)] wf_NewTokenizerFragment [OF assms(2)]]
    by (fastforce simp: Err_def)
qed

theorem buffering_invisible_witness:
  "\<exists>ts z z'. read_tokens 9 (NewTokenizer (strings_NewReader ''a<b>'')) = Inr (ts, z) \<and>
    read_tokens 9 (NewTokenizer \<lparr>content = ''a<b>'', offers = [0, 1, 0, 2], eager = True, final = EOF\<rparr>) = Inr (ts, z')"
proof -
  let ?r = "\<lparr>content = ''a<b>'', offers = [0, 1, 0, 2], eager = True, final = EOF\<rparr>"
  have r: "patient_reader ?r" "content (strings_NewReader ''a<b>'') = content ?r" "final (strings_NewReader ''a<b>'') = final ?r"
    by (simp_all add: strings_NewReader_def patient_reader_def)
  show ?thesis
    using buffering_invisible [OF strings_reader(1) r, of 9 "[]"] unfolding NewTokenizer_def by blast
qed

end
