(* ===== verification/Html_Token_Print.thy ===== *)
theory Html_Token_Print
  imports Html_Token_Stream
begin

text \<open>
  Printing tokens and reading them back. \<open>sees y s\<close> says that a settled tokenizer \<open>y\<close> has
  exactly the bytes \<open>s\<close> in front of it; the lemmas compute what each operation does on text
  that \<open>Token_String\<close> has written. They end in the round trip: tokens that can be printed, no
  two texts in a row, are what the tokenizer reads from the text printed for them.
\<close>

section \<open>Looking ahead\<close>

definition sees :: "Tokenizer \<Rightarrow> string \<Rightarrow> bool" where
  "sees y s \<longleftrightarrow> settled y \<and> z_err y = None \<and> z_maxBuf y \<le> 0 \<and> drop (nat (raw_end y)) (z_buf y) = s"

definition adv :: "nat \<Rightarrow> Tokenizer \<Rightarrow> Tokenizer" where
  "adv n y = y\<lparr>raw_end := raw_end y + int n\<rparr>"

lemma adv_fields [simp]:
  "raw_end (adv n y) = raw_end y + int n" "raw_start (adv n y) = raw_start y" "z_buf (adv n y) = z_buf y"
  "z_err (adv n y) = z_err y" "z_tt (adv n y) = z_tt y" "z_attr (adv n y) = z_attr y"
  "data_start (adv n y) = data_start y" "data_end (adv n y) = data_end y"
  "key_start (adv n y) = key_start y" "key_end (adv n y) = key_end y"
  "val_start (adv n y) = val_start y" "val_end (adv n y) = val_end y" "rawTag (adv n y) = rawTag y"
  "allowCDATA (adv n y) = allowCDATA y" "z_readErr (adv n y) = z_readErr y" "z_maxBuf (adv n y) = z_maxBuf y"
  "textIsRaw (adv n y) = textIsRaw y" "convertNUL (adv n y) = convertNUL y" "nAttrReturned (adv n y) = nAttrReturned y"
  by (simp_all add: adv_def)

lemma adv_adv [simp]: "adv m (adv n y) = adv (m + n) y"
  by (simp add: adv_def)

lemma adv_0 [simp]: "adv 0 y = y"
  by (simp add: adv_def)

lemma unread_adv: "unread 1 (adv (Suc n) y) = adv n y"
  by (simp add: adv_def unread_def)

lemma adv_updates [simp]:
  "adv n (y\<lparr>data_start := i\<rparr>) = (adv n y)\<lparr>data_start := i\<rparr>" "adv n (y\<lparr>data_end := i\<rparr>) = (adv n y)\<lparr>data_end := i\<rparr>"
  "adv n (y\<lparr>key_start := i\<rparr>) = (adv n y)\<lparr>key_start := i\<rparr>" "adv n (y\<lparr>key_end := i\<rparr>) = (adv n y)\<lparr>key_end := i\<rparr>"
  "adv n (y\<lparr>val_start := i\<rparr>) = (adv n y)\<lparr>val_start := i\<rparr>" "adv n (y\<lparr>val_end := i\<rparr>) = (adv n y)\<lparr>val_end := i\<rparr>"
  "adv n (y\<lparr>z_attr := as\<rparr>) = (adv n y)\<lparr>z_attr := as\<rparr>" "adv n (y\<lparr>nAttrReturned := k\<rparr>) = (adv n y)\<lparr>nAttrReturned := k\<rparr>"
  "adv n (y\<lparr>textIsRaw := b\<rparr>) = (adv n y)\<lparr>textIsRaw := b\<rparr>" "adv n (y\<lparr>convertNUL := b\<rparr>) = (adv n y)\<lparr>convertNUL := b\<rparr>"
  by (simp_all add: adv_def)

lemma sees_updates [simp]:
  "sees (y\<lparr>data_start := i\<rparr>) s = sees y s" "sees (y\<lparr>data_end := i\<rparr>) s = sees y s"
  "sees (y\<lparr>key_start := i\<rparr>) s = sees y s" "sees (y\<lparr>key_end := i\<rparr>) s = sees y s"
  "sees (y\<lparr>val_start := i\<rparr>) s = sees y s" "sees (y\<lparr>val_end := i\<rparr>) s = sees y s"
  "sees (y\<lparr>z_attr := as\<rparr>) s = sees y s" "sees (y\<lparr>nAttrReturned := k\<rparr>) s = sees y s"
  "sees (y\<lparr>textIsRaw := b\<rparr>) s = sees y s" "sees (y\<lparr>convertNUL := b\<rparr>) s = sees y s" "sees (y\<lparr>z_tt := t\<rparr>) s = sees y s"
  by (simp_all add: sees_def settled_def)

lemma sees_bounds:
  assumes "sees y s"
  shows "0 \<le> raw_end y" and "raw_end y + int (length s) = int (length (z_buf y))" and "z_err y = None"
  using assms by (auto simp: sees_def settled_def)

lemma sees_adv:
  assumes "sees y (p @ s)"
  shows "sees (adv (length p) y) s"
proof -
  have "drop (length p) (drop (nat (raw_end y)) (z_buf y)) = s" using assms by (simp add: sees_def)
  then have "drop (nat (raw_end y + int (length p))) (z_buf y) = s"
    using sees_bounds(1) [OF assms] by (simp add: nat_add_distrib add.commute)
  then show ?thesis
    using assms sees_bounds [OF assms] by (simp add: sees_def settled_def)
qed

lemma sees_adv1: "sees y (c # s) \<Longrightarrow> sees (adv 1 y) s"
  using sees_adv [of y "[c]" s] by simp

lemma sees_piece:
  assumes "sees y (p @ s)"
  shows "piece (z_buf y) (raw_end y) (raw_end y + int (length p)) = p"
  using assms by (simp add: sees_def piece_def)

lemma sees_index:
  assumes "sees y (p @ c # s)"
  shows "go_index (z_buf y) (raw_end y + int (length p)) = Inr c"
proof -
  let ?i = "raw_end y + int (length p)"
  have b: "0 \<le> raw_end y" "?i < int (length (z_buf y))" using sees_bounds [OF assms] by auto
  have "drop (nat (raw_end y)) (z_buf y) ! length p = c" using assms by (simp add: sees_def)
  then have "z_buf y ! nat ?i = c" using b by (simp add: nat_add_distrib)
  with b show ?thesis by (simp add: go_index_def)
qed

lemma sees_readByte: "sees y (c # s) \<Longrightarrow> readByte y = Inr (c, adv 1 y)"
proof -
  assume y: "sees y (c # s)"
  have "settled y" using y by (simp add: sees_def)
  moreover have "z_buf y ! nat (raw_end y) = c" "raw_end y < int (length (z_buf y))"
    using sees_index [of y "[]" c s] y by (auto simp: go_index_def split: if_splits)
  ultimately show ?thesis using y by (simp add: readByte_settled sees_def adv_def)
qed

lemma sees_end: "sees y [] \<Longrightarrow> readByte y = Inr (NUL, y\<lparr>z_err := z_readErr y\<rparr>)"
  using sees_bounds(2) [of y "[]"] by (simp add: readByte_settled sees_def)

lemma sees_until:
  "sees y (p @ c # s) \<Longrightarrow> list_all (\<lambda>c. \<not> stop c) p \<Longrightarrow> stop c \<Longrightarrow>
   read_until stop y = Inr (c, adv (Suc (length p)) y)"
proof (induction p arbitrary: y)
  case Nil
  then show ?case by (subst read_until.simps) (simp add: sees_readByte sees_bounds)
next
  case (Cons d p)
  have d: "sees y (d # (p @ c # s))" using Cons.prems by simp
  then have "read_until stop (adv 1 y) = Inr (c, adv (Suc (length p)) (adv 1 y))"
    using Cons by (intro Cons.IH) (auto dest: sees_adv1)
  then show ?case
    using Cons.prems(2) by (subst read_until.simps) (simp add: sees_readByte [OF d] sees_bounds [OF d])
qed

lemma sees_no_skip: "sees y (c # s) \<Longrightarrow> \<not> is_space c \<Longrightarrow> skipWhiteSpace y = Inr y"
  using sees_until [of y "[]" c s "\<lambda>c. \<not> is_space c"] sees_bounds [of y]
  by (auto simp: skipWhiteSpace_def unread_adv [of 0, simplified])

lemma sees_skip1:
  assumes "sees y (CHR '' '' # c # s)" and "\<not> is_space c"
  shows "skipWhiteSpace y = Inr (adv 1 y)"
  using sees_until [of y "'' ''" c s "\<lambda>c. \<not> is_space c"] assms sees_bounds [OF assms(1)] unread_adv [of 1 y]
  by (simp add: skipWhiteSpace_def is_space_def)

section \<open>Printed tags\<close>

definition attr_text :: "Attribute \<Rightarrow> string" where
  "attr_text a = attr_Key a @ ''='' @ [CHR 0x22] @ escape_spec (attr_Val a) @ [CHR 0x22]"

lemma tag_attrs_string_eq:
  "tag_attrs_string buf as = Inr (buf @ concat (map (\<lambda>a. '' '' @ attr_text a) as))"
  by (induction buf as rule: tag_attrs_string.induct) (simp_all add: escape_refines attr_text_def)

lemma tagString_eq: "tagString t = Inr (t_Data t @ concat (map (\<lambda>a. '' '' @ attr_text a) (t_Attr t)))"
  by (simp add: tagString_def tag_attrs_string_eq)

definition attr_ok :: "Attribute \<Rightarrow> bool" where
  "attr_ok a \<longleftrightarrow> attr_Namespace a = [] \<and> attr_Key a \<noteq> [] \<and> list_all (\<lambda>c. \<not> ends_key c) (attr_Key a) \<and>
     lower (attr_Key a) = attr_Key a"

definition name_ok :: "string \<Rightarrow> bool" where
  "name_ok s \<longleftrightarrow> s \<noteq> [] \<and> is_letter (hd s) \<and> list_all (\<lambda>c. \<not> ends_name c) s \<and> lower s = s"

lemma escape_spec_safe: "set (escape_spec s) \<inter> {CHR ''<'', CHR ''>'', CHR 0x22, CHR 0x27, CHR 0x0D} = {}"
proof -
  have "set (escape_byte c) \<inter> {CHR ''<'', CHR ''>'', CHR 0x22, CHR 0x27, CHR 0x0D} = {}" for c
    by (auto simp: escape_byte_def escapedChars_def esc_string_def split: if_splits)
  then show ?thesis by (auto simp: escape_spec_def)
qed

lemma attr_value_back: "unescape_spec a (unix (escape_spec s)) = s"
  using escape_spec_safe [of s] by (simp add: unix_id unescape_escape_spec)

text \<open>How an attribute may be spelled: with either quote, around any text of its value. Printing is one
  way to spell it.\<close>

definition attr_spelled :: "Attribute \<Rightarrow> string \<Rightarrow> bool" where
  "attr_spelled a w \<longleftrightarrow> attr_ok a \<and> (\<exists>q v. (q = CHR 0x22 \<or> q = CHR 0x27) \<and> w = attr_Key a @ ''='' @ [q] @ v @ [q] \<and>
     q \<notin> set v \<and> unescape_spec True (unix v) = attr_Val a)"

lemma attr_text_spelled: "attr_ok a \<Longrightarrow> attr_spelled a (attr_text a)"
  unfolding attr_spelled_def attr_text_def
  using escape_spec_safe [of "attr_Val a"] attr_value_back [of True "attr_Val a"] by blast

text \<open>One attribute, from its key to its closing quote.\<close>

lemma readTagAttrKey_sees:
  assumes "sees y (k @ CHR ''='' # s)" and "list_all (\<lambda>c. \<not> ends_key c) k"
  shows "readTagAttrKey y = Inr ((adv (length k) y)\<lparr>key_start := raw_end y, key_end := raw_end y + int (length k)\<rparr>)"
proof -
  let ?y = "y\<lparr>key_start := raw_end y\<rparr>"
  have "read_until ends_key ?y = Inr (CHR ''='', adv (Suc (length k)) ?y)"
    using assms by (intro sees_until) (auto simp: ends_key_def)
  then show ?thesis
    using sees_bounds [OF assms(1)] unread_adv [of "length k" ?y]
    by (simp add: readTagAttrKey_def is_space_def)
qed

lemma readTagAttrVal_sees:
  assumes "sees y (CHR ''='' # q # v @ q # s)" and "q \<notin> set v" and q: "q = CHR 0x22 \<or> q = CHR 0x27"
  shows "readTagAttrVal y = Inr ((adv (length v + 3) y)
    \<lparr>val_start := raw_end y + 2, val_end := raw_end y + 2 + int (length v)\<rparr>)"
proof -
  let ?y = "y\<lparr>val_start := raw_end y, val_end := raw_end y\<rparr>"
  have y: "sees ?y (CHR ''='' # q # v @ q # s)" using assms(1) by simp
  have y1: "sees (adv 1 ?y) (q # v @ q # s)" using sees_adv1 [OF y] .
  have y2: "sees (adv 2 ?y) (v @ q # s)" using sees_adv1 [OF y1] by (simp add: numeral_2_eq_2)
  let ?z = "(adv 2 ?y)\<lparr>val_start := raw_end y + 2\<rparr>"
  have "sees ?z (v @ q # s)" using y2 by simp
  then have "read_until (\<lambda>c. c = q) ?z = Inr (q, adv (Suc (length v)) ?z)"
    using assms(2) by (intro sees_until) (auto simp: list_all_iff)
  moreover have "skipWhiteSpace ?y = Inr ?y" "skipWhiteSpace (adv 1 ?y) = Inr (adv 1 ?y)"
    using sees_no_skip [OF y] sees_no_skip [OF y1] q by (auto simp: is_space_def)
  moreover have "readByte ?y = Inr (CHR ''='', adv 1 ?y)" "readByte (adv 1 ?y) = Inr (q, adv 2 ?y)"
    using sees_readByte [OF y] sees_readByte [OF y1] by (simp_all add: numeral_2_eq_2)
  ultimately show ?thesis
    using sees_bounds(3) [OF assms(1)] q
    by (auto simp: readTagAttrVal_def attr_value_def algebra_simps eval_nat_numeral)
qed

text \<open>The attributes after the first, each with its leading space, and how a tag ends.\<close>

definition attrs_src :: "string list \<Rightarrow> string" where
  "attrs_src ws = concat (map (\<lambda>w. '' '' @ w) ws)"

definition attrs_text :: "Attribute list \<Rightarrow> string" where
  "attrs_text as = concat (map (\<lambda>a. '' '' @ attr_text a) as)"

lemma attrs_text_spelled:
  "list_all attr_ok as \<Longrightarrow> list_all2 attr_spelled as (map attr_text as) \<and> attrs_src (map attr_text as) = attrs_text as"
  by (induction as) (auto simp: attrs_src_def attrs_text_def attr_text_spelled)

definition closes :: "string \<Rightarrow> bool" where
  "closes cl \<longleftrightarrow> cl = ''>'' \<or> cl = ''/>'' \<or> cl = '' />''"

text \<open>The spans that reading attributes may leave.\<close>

definition respan :: "int \<Rightarrow> int \<Rightarrow> int \<Rightarrow> int \<Rightarrow> (span \<times> span) list \<Rightarrow> Tokenizer \<Rightarrow> Tokenizer" where
  "respan a b c d as y = y\<lparr>key_start := a, key_end := b, val_start := c, val_end := d, z_attr := as\<rparr>"

lemma respan_respan [simp]: "respan a b c d as (respan a' b' c' d' as' y) = respan a b c d as y"
  by (simp add: respan_def)

lemma respan_fields [simp]:
  "z_attr (respan a b c d as y) = as" "z_buf (respan a b c d as y) = z_buf y" "raw_end (respan a b c d as y) = raw_end y"
  "z_err (respan a b c d as y) = z_err y" "data_start (respan a b c d as y) = data_start y"
  "data_end (respan a b c d as y) = data_end y" "rawTag (respan a b c d as y) = rawTag y"
  "sees (respan a b c d as y) s = sees y s" "adv n (respan a b c d as y) = respan a b c d as (adv n y)"
  "nAttrReturned (respan a b c d as y) = nAttrReturned y" "raw_start (respan a b c d as y) = raw_start y"
  "allowCDATA (respan a b c d as y) = allowCDATA y" "z_maxBuf (respan a b c d as y) = z_maxBuf y"
  by (simp_all add: respan_def)

lemma respan_self: "respan (key_start y) (key_end y) (val_start y) (val_end y) (z_attr y) y = y"
  by (simp add: respan_def)

lemma tag_loop_closes:
  assumes "sees y (cl @ s)" and "cl = ''>'' \<or> cl = ''/>''"
  shows "\<exists>a b c d. tag_loop sv y = Inr (respan a b c d (z_attr y) (adv (length cl) y))"
proof (cases "cl = ''>''")
  case True
  then have "tag_loop sv y = Inr (adv 1 y)"
    using assms(1) by (subst tag_loop.simps) (simp add: sees_readByte)
  then show ?thesis using True respan_self [of "adv 1 y"] by (metis adv_fields(6) length_Cons list.size(3) One_nat_def)
next
  case False
  then have y: "sees y (CHR ''/'' # CHR ''>'' # s)" "cl = ''/>''" using assms by auto
  let ?k = "(adv 1 y)\<lparr>key_start := raw_end y, key_end := raw_end y\<rparr>"
  let ?v = "?k\<lparr>val_start := raw_end y + 1, val_end := raw_end y + 1\<rparr>"
  have y1: "sees ?k (CHR ''>'' # s)" "sees ?v (CHR ''>'' # s)" using sees_adv1 [OF y(1)] by simp_all
  have e: "z_err y = None" using sees_bounds(3) [OF y(1)] .
  have "read_until ends_key (y\<lparr>key_start := raw_end y\<rparr>) = Inr (CHR ''/'', adv 1 (y\<lparr>key_start := raw_end y\<rparr>))"
    using sees_until [of "y\<lparr>key_start := raw_end y\<rparr>" "[]" "CHR ''/''"] y(1) by (simp add: ends_key_def)
  then have key: "readTagAttrKey y = Inr ?k" using e by (simp add: readTagAttrKey_def)
  have val: "readTagAttrVal ?k = Inr ?v"
    using sees_no_skip [OF y1(2)] sees_readByte [OF y1(2)] unread_adv [of 0 ?v] e
    by (simp add: readTagAttrVal_def is_space_def)
  have skip: "skipWhiteSpace (save_attr sv ?v) = Inr ?v"
    using sees_no_skip [OF y1(2)] by (simp add: save_attr_def is_space_def)
  have "tag_loop sv ?v = Inr (adv 1 ?v)"
    using y1(2) sees_bounds(3) [OF y1(2)] by (subst tag_loop.simps) (simp add: sees_readByte)
  then have "tag_loop sv y = Inr (adv 1 ?v)"
    using y(1) e key val skip unread_adv [of 0 y] by (subst tag_loop.simps) (simp add: sees_readByte)
  moreover have "adv 1 ?v = respan (raw_end y) (raw_end y) (raw_end y + 1) (raw_end y + 1) (z_attr y) (adv 2 y)"
    by (simp add: respan_def numeral_2_eq_2)
  ultimately show ?thesis using y(2) by (auto simp: numeral_2_eq_2)
qed

lemma attr_ok_cases:
  assumes "attr_ok a"
  obtains c k where "attr_Key a = c # k" and "\<not> ends_key c" and "\<not> is_space c" and "c \<noteq> CHR ''>''"
  using assms by (cases "attr_Key a") (auto simp: attr_ok_def ends_key_def)

definition with_attr :: "span \<times> span \<Rightarrow> string \<Rightarrow> Tokenizer \<Rightarrow> Tokenizer" where
  "with_attr sp w y = respan (fst (fst sp)) (snd (fst sp)) (fst (snd sp)) (snd (snd sp)) (z_attr y @ [sp])
     (adv (length w) y)"

text \<open>One attribute in the loop, up to where its value ends.\<close>

lemma attr_sees:
  assumes "sees y (w @ s)" and "attr_spelled a w"
  obtains sp where "attr_value_of (z_buf y) sp = a"
    and "\<forall>z4. skipWhiteSpace (with_attr sp w y) = Inr z4 \<longrightarrow> z_err z4 = None \<longrightarrow> tag_loop True y = tag_loop True z4"
proof -
  let ?k = "attr_Key a"
  let ?n = "int (length ?k)"
  have ok: "attr_ok a" using assms(2) by (simp add: attr_spelled_def)
  obtain q v where q: "q = CHR 0x22 \<or> q = CHR 0x27" and w: "w = ?k @ ''='' @ [q] @ v @ [q]"
    and v: "q \<notin> set v" "unescape_spec True (unix v) = attr_Val a"
    using assms(2) by (auto simp: attr_spelled_def)
  obtain c k where k: "?k = c # k" "\<not> ends_key c" "c \<noteq> CHR ''>''" using attr_ok_cases [OF ok] .
  have y: "sees y (?k @ CHR ''='' # q # v @ q # s)" using assms(1) by (simp add: w)
  let ?y2 = "(adv (length ?k) y)\<lparr>key_start := raw_end y, key_end := raw_end y + ?n\<rparr>"
  have y2: "sees ?y2 (CHR ''='' # q # v @ q # s)" using sees_adv [OF y] by simp
  have key: "readTagAttrKey y = Inr ?y2"
    using y ok by (intro readTagAttrKey_sees) (auto simp: attr_ok_def)
  define sp where "sp = ((raw_end y, raw_end y + ?n), (raw_end y + ?n + 2, raw_end y + ?n + 2 + int (length v)))"
  let ?y3 = "(adv (length v + 3) ?y2)\<lparr>val_start := raw_end ?y2 + 2, val_end := raw_end ?y2 + 2 + int (length v)\<rparr>"
  have val: "readTagAttrVal ?y2 = Inr ?y3" using readTagAttrVal_sees [OF y2 v(1) q] .
  have save: "save_attr True ?y3 = with_attr sp w y"
    using k by (simp add: save_attr_def with_attr_def respan_def sp_def w eval_nat_numeral algebra_simps)
  have y4: "sees (adv (length ?k + 2) y) (v @ q # s)"
    using sees_adv [of y "?k @ ''='' @ [q]" "v @ q # s"] y by (simp add: eval_nat_numeral)
  have vals: "attr_value_of (z_buf y) sp = a"
  proof -
    have "piece (z_buf y) (raw_end y) (raw_end y + ?n) = ?k" using sees_piece [OF y] .
    moreover have "piece (z_buf y) (raw_end y + ?n + 2) (raw_end y + ?n + 2 + int (length v)) = v"
      using sees_piece [OF y4] by (simp add: algebra_simps)
    ultimately show ?thesis
      using ok v(2) by (simp add: sp_def attr_ok_def)
  qed
  have first: "readByte y = Inr (c, adv 1 y)" using y k(1) by (simp add: sees_readByte)
  show thesis
  proof (rule that [OF vals], intro allI impI)
    fix z4 assume "skipWhiteSpace (with_attr sp w y) = Inr z4" and "z_err z4 = None"
    then show "tag_loop True y = tag_loop True z4"
      using first k(3) key val save sees_bounds(3) [OF y] unread_adv [of 0 y]
      by (subst tag_loop.simps) simp
  qed
qed

text \<open>After the last attribute, and after a space in front of a slash, the tag closes.\<close>

lemma tag_loop_ends:
  assumes "sees y (cl @ s)" and "closes cl"
  shows "\<exists>z k1 k2 v1 v2. skipWhiteSpace y = Inr z \<and> z_err z = None \<and>
    tag_loop sv z = Inr (respan k1 k2 v1 v2 (z_attr y) (adv (length cl) y))"
proof (cases "cl = '' />''")
  case True
  have y: "sees y (CHR '' '' # CHR ''/'' # ''>'' @ s)" using assms(1) True by simp
  have z: "sees (adv 1 y) (''/>'' @ s)" using sees_adv1 [OF y] by simp
  have "skipWhiteSpace y = Inr (adv 1 y)" using y by (rule sees_skip1) (simp add: is_space_def)
  with tag_loop_closes [OF z, of sv] sees_bounds(3) [OF z] True show ?thesis by (auto simp: eval_nat_numeral)
next
  case False
  then have cl: "cl = ''>'' \<or> cl = ''/>''" using assms(2) by (simp add: closes_def)
  then have "cl @ s = hd cl # tl cl @ s" "\<not> is_space (hd cl)" by (auto simp: is_space_def)
  then have c: "sees y (hd cl # tl cl @ s)" "\<not> is_space (hd cl)" using assms(1) by (metis, blast)
  show ?thesis
    using sees_no_skip [OF c] tag_loop_closes [OF assms(1) cl, of sv] sees_bounds(3) [OF assms(1)] by blast
qed

lemma attr_spelled_first:
  assumes "attr_spelled a w"
  obtains c k where "w = c # k" and "\<not> is_space c" and "\<not> ends_key c"
proof -
  have "attr_ok a" using assms by (simp add: attr_spelled_def)
  then obtain c k where "attr_Key a = c # k" "\<not> ends_key c" "\<not> is_space c" by (rule attr_ok_cases)
  then show thesis using assms that by (auto simp: attr_spelled_def)
qed

lemma tag_loop_attrs:
  "list_all2 attr_spelled (a # as) (w # ws) \<Longrightarrow> sees y (w @ attrs_src ws @ cl @ s) \<Longrightarrow> closes cl \<Longrightarrow>
   \<exists>k1 k2 v1 v2 sps. tag_loop True y = Inr (respan k1 k2 v1 v2 (z_attr y @ sps)
       (adv (length (w @ attrs_src ws @ cl)) y)) \<and> map (attr_value_of (z_buf y)) sps = a # as"
proof (induction as arbitrary: a w ws y)
  case Nil
  have ok: "attr_spelled a w" "ws = []" using Nil.prems(1) by simp_all
  obtain sp where sp: "attr_value_of (z_buf y) sp = a"
    and step: "\<forall>z4. skipWhiteSpace (with_attr sp w y) = Inr z4 \<longrightarrow> z_err z4 = None \<longrightarrow> tag_loop True y = tag_loop True z4"
    using Nil.prems(2) ok(1) by (rule attr_sees)
  let ?z = "with_attr sp w y"
  have z: "sees ?z (cl @ s)" using sees_adv [of y w] Nil.prems ok(2) by (simp add: attrs_src_def with_attr_def)
  obtain z' k1 k2 v1 v2 where "skipWhiteSpace ?z = Inr z'" "z_err z' = None"
    "tag_loop True z' = Inr (respan k1 k2 v1 v2 (z_attr ?z) (adv (length cl) ?z))"
    using tag_loop_ends [OF z Nil.prems(3)] by blast
  then have "tag_loop True y = Inr (respan k1 k2 v1 v2 (z_attr ?z) (adv (length cl) ?z))" using step by simp
  then show ?case
    using sp ok(2) by (intro exI [of _ k1] exI [of _ k2] exI [of _ v1] exI [of _ v2] exI [of _ "[sp]"])
      (simp add: attrs_src_def with_attr_def add.commute)
next
  case (Cons b as)
  obtain x xs where ws: "ws = x # xs" using Cons.prems(1) by (cases ws) auto
  have ok: "attr_spelled a w" "attr_spelled b x" using Cons.prems(1) ws by simp_all
  obtain sp where sp: "attr_value_of (z_buf y) sp = a"
    and step: "\<forall>z4. skipWhiteSpace (with_attr sp w y) = Inr z4 \<longrightarrow> z_err z4 = None \<longrightarrow> tag_loop True y = tag_loop True z4"
    using Cons.prems(2) ok(1) by (rule attr_sees)
  let ?z = "with_attr sp w y"
  have z: "sees ?z (CHR '' '' # x @ attrs_src xs @ cl @ s)"
    using sees_adv [of y w] Cons.prems(2) ws by (simp add: attrs_src_def with_attr_def)
  obtain c k where "x = c # k" "\<not> is_space c" using ok(2) by (rule attr_spelled_first)
  then have "skipWhiteSpace ?z = Inr (adv 1 ?z)"
    using z by (intro sees_skip1) auto
  then have "tag_loop True y = tag_loop True (adv 1 ?z)"
    using step sees_bounds(3) [OF z] by simp
  moreover obtain k1 k2 v1 v2 sps where "tag_loop True (adv 1 ?z) = Inr (respan k1 k2 v1 v2 (z_attr (adv 1 ?z) @ sps)
       (adv (length (x @ attrs_src xs @ cl)) (adv 1 ?z)))" "map (attr_value_of (z_buf (adv 1 ?z))) sps = b # as"
    using Cons.IH [of b x xs "adv 1 ?z"] sees_adv1 [OF z] Cons.prems(1,3) ws by auto
  ultimately show ?case
    using sp ws by (intro exI [of _ k1] exI [of _ k2] exI [of _ v1] exI [of _ v2] exI [of _ "sp # sps"])
      (simp add: attrs_src_def with_attr_def algebra_simps)
qed

text \<open>A tag, from after the first letter of its name.\<close>

definition tag_read :: "int \<Rightarrow> int \<Rightarrow> Tokenizer \<Rightarrow> Tokenizer" where
  "tag_read i j y = y\<lparr>nAttrReturned := 0, data_start := i, data_end := j\<rparr>"

lemma tag_read_fields [simp]:
  "z_attr (tag_read i j y) = z_attr y" "z_buf (tag_read i j y) = z_buf y" "raw_end (tag_read i j y) = raw_end y"
  "z_err (tag_read i j y) = z_err y" "data_start (tag_read i j y) = i" "data_end (tag_read i j y) = j"
  "rawTag (tag_read i j y) = rawTag y" "sees (tag_read i j y) s = sees y s"
  "adv n (tag_read i j y) = tag_read i j (adv n y)" "nAttrReturned (tag_read i j y) = 0"
  "raw_start (tag_read i j y) = raw_start y" "allowCDATA (tag_read i j y) = allowCDATA y"
  "z_maxBuf (tag_read i j y) = z_maxBuf y"
  by (simp_all add: tag_read_def)

lemma readTag_sees:
  assumes "sees y (n @ attrs_src ws @ cl @ s)" and "list_all (\<lambda>c. \<not> ends_name c) n"
    and "list_all2 attr_spelled as ws" and "closes cl" and "sv \<or> as = []"
  shows "\<exists>k1 k2 v1 v2 sps. readTag sv y = Inr (respan k1 k2 v1 v2 sps
      (tag_read (raw_end y - 1) (raw_end y + int (length n)) (adv (length (n @ attrs_src ws @ cl)) y))) \<and>
    map (attr_value_of (z_buf y)) sps = as"
proof -
  let ?y = "y\<lparr>z_attr := [], nAttrReturned := 0\<rparr>"
  let ?d = "?y\<lparr>data_start := raw_end y - 1\<rparr>"
  let ?t = "tag_read (raw_end y - 1) (raw_end y + int (length n)) ?y"
  have e: "z_err y = None" using sees_bounds(3) [OF assms(1)] .
  have name: "readTagName ?y = Inr (adv (if is_space c then Suc (length n) else length n) ?t)"
    if "sees y (n @ c # s')" "ends_name c" "is_space c \<or> c = CHR ''/'' \<or> c = CHR ''>''" for c s'
  proof -
    have "sees ?d (n @ c # s')" using that(1) by simp
    then have "read_until ends_name ?d = Inr (c, adv (Suc (length n)) ?d)" using assms(2) that(2) by (rule sees_until)
    then show ?thesis
      using that(3) e unread_adv [of "length n" ?d] by (auto simp: readTagName_def tag_read_def is_space_def)
  qed
  show ?thesis
  proof (cases as)
    case Nil
    then have ws: "ws = []" using assms(3) by simp
    show ?thesis
    proof (cases "cl = '' />''")
      case True
      have y: "sees y (n @ CHR '' '' # ''/>'' @ s)" using assms(1) ws True by (simp add: attrs_src_def)
      have t: "sees (adv (Suc (length n)) ?t) (''/>'' @ s)" using sees_adv [of ?t "n @ '' ''" "''/>'' @ s"] y by simp
      have "skipWhiteSpace (adv (Suc (length n)) ?t) = Inr (adv (Suc (length n)) ?t)"
        using t by (intro sees_no_skip [of _ "CHR ''/''" "''>'' @ s"]) (simp_all add: is_space_def)
      then have "\<exists>k1 k2 v1 v2. readTag sv y = Inr (respan k1 k2 v1 v2 [] (adv 2 (adv (Suc (length n)) ?t)))"
        using name [OF y] tag_loop_closes [OF t, of sv] e
        by (auto simp: readTag_def ends_name_def is_space_def eval_nat_numeral)
      then obtain k1 k2 v1 v2 where "readTag sv y = Inr (respan k1 k2 v1 v2 [] (adv 2 (adv (Suc (length n)) ?t)))"
        by blast
      then show ?thesis
        using Nil ws True by (intro exI [of _ k1] exI [of _ k2] exI [of _ v1] exI [of _ v2] exI [of _ "[]"])
          (simp add: attrs_src_def respan_def tag_read_def adv_def)
    next
      case False
      then obtain c s' where c: "cl @ s = c # s'" "ends_name c" "\<not> is_space c" "c = CHR ''/'' \<or> c = CHR ''>''"
        and cl: "cl = ''>'' \<or> cl = ''/>''"
        using assms(4) by (auto simp: closes_def ends_name_def is_space_def)
      have y: "sees y (n @ c # s')" using assms(1) ws c(1) by (simp add: attrs_src_def)
      have t: "sees (adv (length n) ?t) (cl @ s)"
        using assms(1) ws sees_adv [of ?t n "cl @ s"] by (simp add: attrs_src_def)
      have "skipWhiteSpace (adv (length n) ?t) = Inr (adv (length n) ?t)"
        using t c by (intro sees_no_skip [of _ c s']) simp_all
      then obtain k1 k2 v1 v2 where "readTag sv y = Inr (respan k1 k2 v1 v2 [] (adv (length cl) (adv (length n) ?t)))"
        using name [OF y c(2)] c(3,4) tag_loop_closes [OF t cl, of sv] e by (auto simp: readTag_def)
      then show ?thesis
        using Nil ws by (intro exI [of _ k1] exI [of _ k2] exI [of _ v1] exI [of _ v2] exI [of _ "[]"])
          (simp add: attrs_src_def respan_def tag_read_def adv_def)
    qed
  next
    case (Cons a as')
    then obtain w ws' where ws: "ws = w # ws'" "attr_spelled a w" using assms(3) by (auto simp: list_all2_Cons1)
    obtain c k where c: "w = c # k" "\<not> is_space c" using ws(2) by (rule attr_spelled_first)
    have y: "sees y (n @ CHR '' '' # w @ attrs_src ws' @ cl @ s)"
      using assms(1) ws(1) by (simp add: attrs_src_def)
    have t: "sees (adv (Suc (length n)) ?t) (w @ attrs_src ws' @ cl @ s)"
      using y sees_adv [of ?t "n @ '' ''"] by simp
    have "skipWhiteSpace (adv (Suc (length n)) ?t) = Inr (adv (Suc (length n)) ?t)"
      using t c by (intro sees_no_skip [of _ c "k @ attrs_src ws' @ cl @ s"]) simp_all
    moreover obtain k1 k2 v1 v2 sps where "tag_loop True (adv (Suc (length n)) ?t) =
        Inr (respan k1 k2 v1 v2 sps (adv (length (w @ attrs_src ws' @ cl)) (adv (Suc (length n)) ?t)))"
      "map (attr_value_of (z_buf y)) sps = a # as'"
      using tag_loop_attrs [of a as' w ws' _ cl s, OF _ t assms(4)] assms(3) Cons ws(1) by auto
    ultimately have "readTag sv y = Inr (respan k1 k2 v1 v2 sps (adv (length (w @ attrs_src ws' @ cl)) (adv (Suc (length n)) ?t)))"
      and "map (attr_value_of (z_buf y)) sps = as"
      using name [OF y] assms(5) e Cons by (auto simp: readTag_def ends_name_def is_space_def)
    then show ?thesis
      by (intro exI [of _ k1] exI [of _ k2] exI [of _ v1] exI [of _ v2] exI [of _ sps])
        (simp add: attrs_src_def respan_def tag_read_def adv_def ws(1))
  qed
qed

text \<open>Names in lower case are compared as they are.\<close>

lemma tag_bytes_are_eq:
  assumes "piece (z_buf y) (data_start y) (data_end y) = name" and "lower name = name"
    and "0 \<le> data_start y" and "data_end y \<le> int (length (z_buf y))" and "data_start y \<le> data_end y"
  shows "i + length s = length name \<Longrightarrow> tag_bytes_are i s y = Inr (drop i name = s)"
proof (induction s arbitrary: i)
  case (Cons c s)
  have len: "int (length name) = data_end y - data_start y" using length_piece [of "data_start y" "data_end y" "z_buf y"] assms by simp
  have i: "i < length name" using Cons.prems by simp
  then have "name ! i = z_buf y ! nat (data_start y + int i)"
    using assms(1,3,4,5) len by (auto simp: piece_def nat_add_distrib)
  then have idx: "go_index (z_buf y) (data_start y + int i) = Inr (name ! i)"
    using assms(3,4) len i by (simp add: go_index_def)
  have "lower_byte (name ! i) = name ! i"
    using assms(2) i by (metis lower_def nth_map)
  moreover have "drop i name = name ! i # drop (Suc i) name" using i by (simp add: Cons_nth_drop_Suc)
  ultimately show ?case using Cons idx by auto
qed simp

lemma startTagIn_eq:
  assumes "piece (z_buf y) (data_start y) (data_end y) = name" and "lower name = name"
    and "0 \<le> data_start y" and "data_end y \<le> int (length (z_buf y))" and "data_start y \<le> data_end y"
  shows "startTagIn ss y = Inr (name \<in> set ss)"
proof (induction ss)
  case (Cons s ss)
  have len: "int (length name) = data_end y - data_start y"
    using length_piece [of "data_start y" "data_end y" "z_buf y"] assms by simp
  show ?case
    using Cons len tag_bytes_are_eq [OF assms, of 0 s] by auto
qed simp

lemma last_attrs_src:
  "list_all2 attr_spelled as ws \<Longrightarrow> ws \<noteq> [] \<Longrightarrow> last (attrs_src ws) \<noteq> CHR ''/'' \<and> attrs_src ws \<noteq> []"
proof (induction ws arbitrary: as rule: rev_induct)
  case (snoc w ws)
  then obtain a where "attr_spelled a w" by (auto simp: list_all2_append2 list_all2_Cons2)
  then show ?case by (auto simp: attrs_src_def attr_spelled_def)
qed simp

lemma readStartTag_sees:
  assumes "sees w (name @ attrs_src ws @ cl @ s)" and "name_ok name" and "name \<notin> set (raw_tags (hd name))"
    and "list_all2 attr_spelled as ws" and "closes cl"
  shows "\<exists>k1 k2 v1 v2 sps. readStartTag (adv 1 w) =
      Inr (if cl = ''>'' then StartTagToken else SelfClosingTagToken, respan k1 k2 v1 v2 sps
        (tag_read (raw_end w) (raw_end w + int (length name)) (adv (length (name @ attrs_src ws @ cl)) w))) \<and>
    map (attr_value_of (z_buf w)) sps = as"
proof -
  obtain c n where name: "name = c # n" using assms(2) by (cases name) (auto simp: name_ok_def)
  have ok: "list_all (\<lambda>c. \<not> ends_name c) n" "lower name = name" "lower_byte c = c"
    using assms(2) name by (auto simp: name_ok_def lower_def)
  have w1: "sees (adv 1 w) (n @ attrs_src ws @ cl @ s)" using assms(1) name by (simp add: sees_adv1 del: One_nat_def)
  let ?l = "length (name @ attrs_src ws @ cl)"
  have eqs: "raw_end (adv 1 w) - 1 = raw_end w" "raw_end (adv 1 w) + int (length n) = raw_end w + int (length name)"
    "adv (length (n @ attrs_src ws @ cl)) (adv 1 w) = adv ?l w" "z_buf (adv 1 w) = z_buf w"
    using name by simp_all
  obtain k1 k2 v1 v2 sps where r: "readTag True (adv 1 w) = Inr (respan k1 k2 v1 v2 sps
      (tag_read (raw_end w) (raw_end w + int (length name)) (adv ?l w)))"
    and v: "map (attr_value_of (z_buf w)) sps = as"
    using readTag_sees [OF w1 ok(1) assms(4,5), of True] unfolding eqs by auto
  let ?y = "respan k1 k2 v1 v2 sps (tag_read (raw_end w) (raw_end w + int (length name)) (adv ?l w))"
  have b: "0 \<le> raw_end w" "raw_end w + int (length name) \<le> int (length (z_buf w))" "z_err w = None"
    using sees_bounds [OF assms(1)] by simp_all
  have sp: "piece (z_buf w) (raw_end w) (raw_end w + int (length name)) = name"
    using sees_piece [OF assms(1)] .
  have c: "go_index (z_buf w) (raw_end w) = Inr c"
    using sees_index [of w "[]" c] assms(1) name by simp
  have raw: "startTagIn (raw_tags (lower_byte c)) ?y = Inr False"
    using startTagIn_eq [of ?y name] sp ok b assms(3) name by simp
  have "go_index (z_buf w) (raw_end w + int ?l - 2) = Inr (if cl = ''>'' then last (name @ attrs_src ws) else CHR ''/'')"
  proof (cases "cl = ''>''")
    case True
    let ?x = "name @ attrs_src ws"
    have x: "?x = butlast ?x @ [last ?x]" using name by simp
    have "name @ attrs_src ws @ cl @ s = ?x @ CHR ''>'' # s" using True by simp
    also have "\<dots> = butlast ?x @ last ?x # CHR ''>'' # s" by (subst x) simp
    finally have "sees w (butlast ?x @ last ?x # CHR ''>'' # s)" using assms(1) by (simp only:)
    then have "go_index (z_buf w) (raw_end w + int (length (butlast ?x))) = Inr (last ?x)" by (rule sees_index)
    moreover have "raw_end w + int (length (butlast ?x)) = raw_end w + int ?l - 2"
      using True name by simp
    ultimately have "go_index (z_buf w) (raw_end w + int ?l - 2) = Inr (last ?x)" by (simp only:)
    then show ?thesis unfolding True by simp
  next
    case False
    then obtain e where cl: "cl = e @ ''/>''" using assms(5) by (auto simp: closes_def)
    have "sees w ((name @ attrs_src ws @ e) @ CHR ''/'' # CHR ''>'' # s)" using assms(1) cl by simp
    then have "go_index (z_buf w) (raw_end w + int (length (name @ attrs_src ws @ e))) = Inr (CHR ''/'')" by (rule sees_index)
    then show ?thesis using cl by simp
  qed
  moreover have "last (name @ attrs_src ws) \<noteq> CHR ''/''"
  proof (cases "ws = []")
    case True
    have "\<not> ends_name (last name)" using assms(2) name by (simp add: name_ok_def list_all_iff)
    then show ?thesis using True by (auto simp: attrs_src_def ends_name_def)
  next
    case False
    then show ?thesis using last_attrs_src [OF assms(4)] by simp
  qed
  ultimately have "readStartTag (adv 1 w) = Inr (if cl = ''>'' then StartTagToken else SelfClosingTagToken, ?y)"
    using r c raw b(3) by (simp add: readStartTag_def algebra_simps)
  with v show ?thesis by blast
qed

section \<open>Printed tokens\<close>

definition comment_ok :: "string \<Rightarrow> bool" where
  "comment_ok s \<longleftrightarrow> set s \<inter> {CHR ''-'', CHR ''&'', CHR 0x0D, NUL} = {} \<and>
     (s \<noteq> [] \<longrightarrow> hd s \<noteq> CHR ''>'' \<and> hd s \<noteq> CHR ''!'')"

definition doctype_ok :: "string \<Rightarrow> bool" where
  "doctype_ok s \<longleftrightarrow> set s \<inter> {CHR ''>'', CHR ''&'', CHR 0x0D} = {} \<and> (s \<noteq> [] \<longrightarrow> \<not> is_space (hd s))"

definition tag_ok :: "Token \<Rightarrow> bool" where
  "tag_ok t \<longleftrightarrow> name_ok (t_Data t) \<and> t_DataAtom t = atom_of (t_Data t) \<and> list_all attr_ok (t_Attr t)"

text \<open>The tokens whose text reads back: any text but the empty one; tags with names and keys in lower
  case without the bytes that end them, and any values; no start tag of an element whose content
  is raw text; comments and declarations without the bytes that are not read as themselves.\<close>

definition printable :: "Token \<Rightarrow> bool" where
  "printable t \<longleftrightarrow>
     (case t_Type t of
        ErrorToken \<Rightarrow> False
      | TextToken \<Rightarrow> t_Data t \<noteq> [] \<and> t_DataAtom t = 0 \<and> t_Attr t = []
      | StartTagToken \<Rightarrow> tag_ok t \<and> t_Data t \<notin> set (raw_tags (hd (t_Data t)))
      | SelfClosingTagToken \<Rightarrow> tag_ok t \<and> t_Data t \<notin> set (raw_tags (hd (t_Data t)))
      | EndTagToken \<Rightarrow> tag_ok t \<and> t_Attr t = []
      | CommentToken \<Rightarrow> comment_ok (t_Data t) \<and> t_DataAtom t = 0 \<and> t_Attr t = []
      | DoctypeToken \<Rightarrow> doctype_ok (t_Data t) \<and> t_DataAtom t = 0 \<and> t_Attr t = [])"

definition printed :: "Token \<Rightarrow> string" where
  "printed t =
     (case t_Type t of
        ErrorToken \<Rightarrow> []
      | TextToken \<Rightarrow> escape_spec (t_Data t)
      | StartTagToken \<Rightarrow> ''<'' @ t_Data t @ attrs_text (t_Attr t) @ ''>''
      | EndTagToken \<Rightarrow> ''</'' @ t_Data t @ attrs_text (t_Attr t) @ ''>''
      | SelfClosingTagToken \<Rightarrow> ''<'' @ t_Data t @ attrs_text (t_Attr t) @ ''/>''
      | CommentToken \<Rightarrow> ''<!--'' @ t_Data t @ ''-->''
      | DoctypeToken \<Rightarrow> ''<!DOCTYPE '' @ t_Data t @ ''>'')"

lemma Token_String_printed: "Token_String t = Inr (printed t)"
  by (cases "t_Type t") (simp_all add: Token_String_def printed_def EscapeString_spec tagString_eq attrs_text_def)

text \<open>The texts from which a token is read: tags may be closed in three ways and have their attributes
  spelled in any way, text may have any reference. Printing is again one way.\<close>

definition spelled :: "Token \<Rightarrow> string \<Rightarrow> bool" where
  "spelled t x \<longleftrightarrow>
     (case t_Type t of
        TextToken \<Rightarrow> x \<noteq> [] \<and> CHR ''<'' \<notin> set x \<and> unescape_spec False (unix x) = t_Data t \<and>
          t_DataAtom t = 0 \<and> t_Attr t = []
      | StartTagToken \<Rightarrow> tag_ok t \<and> t_Data t \<notin> set (raw_tags (hd (t_Data t))) \<and>
          (\<exists>ws. list_all2 attr_spelled (t_Attr t) ws \<and> x = ''<'' @ t_Data t @ attrs_src ws @ ''>'')
      | SelfClosingTagToken \<Rightarrow> tag_ok t \<and> t_Data t \<notin> set (raw_tags (hd (t_Data t))) \<and>
          (\<exists>ws cl. list_all2 attr_spelled (t_Attr t) ws \<and> (cl = ''/>'' \<or> cl = '' />'') \<and>
             x = ''<'' @ t_Data t @ attrs_src ws @ cl)
      | _ \<Rightarrow> printable t \<and> x = printed t)"

lemma escape_spec_nonempty: "s \<noteq> [] \<Longrightarrow> escape_spec s \<noteq> []"
  using unescape_escape_spec [of False s] by auto

lemma printed_spelled: "printable t \<Longrightarrow> spelled t (printed t)"
proof -
  assume t: "printable t"
  have "CHR ''<'' \<notin> set (escape_spec (t_Data t))" using escape_spec_safe [of "t_Data t"] by blast
  moreover have "list_all attr_ok (t_Attr t) \<Longrightarrow> \<exists>ws. list_all2 attr_spelled (t_Attr t) ws \<and> attrs_src ws = attrs_text (t_Attr t)"
    using attrs_text_spelled by blast
  ultimately show ?thesis
    using t attr_value_back [of False "t_Data t"] escape_spec_nonempty [of "t_Data t"]
    by (cases "t_Type t") (fastforce simp: spelled_def printable_def printed_def tag_ok_def)+
qed

text \<open>What reading a token leaves.\<close>

definition read_back :: "Tokenizer \<Rightarrow> Token \<Rightarrow> string \<Rightarrow> string \<Rightarrow> Tokenizer \<Rightarrow> bool" where
  "read_back y t x s y' \<longleftrightarrow> sees y' s \<and> raw_end y' = raw_end y + int (length x) \<and> z_buf y' = z_buf y \<and>
     token_of y' = t \<and> rawTag y' = rawTag y"

lemma next_loop_markup:
  assumes "sees y (CHR ''<'' # c # s)" and "raw_end y = 0" and "token_start c = Some tt"
  shows "next_loop y = next_markup tt c (adv 2 y)"
proof -
  have y1: "sees (adv 1 y) (c # s)" using sees_adv1 [OF assms(1)] .
  have "raw_start y = 0" using assms(1) by (simp add: sees_def settled_def)
  then show ?thesis
    using sees_readByte [OF assms(1)] sees_readByte [OF y1] sees_bounds(3) [OF assms(1)] assms(2,3)
    by (subst next_loop.simps) (simp add: numeral_2_eq_2)
qed

lemma tag_token:
  assumes "z_tt y \<in> {StartTagToken, EndTagToken, SelfClosingTagToken}" and "piece (z_buf y) (data_start y) (data_end y) = t_Data t"
    and "map (attr_value_of (z_buf y)) (z_attr y) = t_Attr t" and "tag_ok t" and "t_Type t = z_tt y"
  shows "token_of y = t"
  using assms by (cases t) (auto simp: token_of_def tag_ok_def name_ok_def)

lemma letter_start: "is_letter c \<Longrightarrow> token_start c = Some StartTagToken"
  by (simp add: token_start_def)

lemma start_tag_back:
  assumes "sees y (x @ s)" and "raw_end y = 0" and "spelled t x" and "t_Type t \<in> {StartTagToken, SelfClosingTagToken}"
  shows "\<exists>y'. next_loop y = Inr y' \<and> read_back y t x s y'"
proof -
  have ok: "tag_ok t" "t_Data t \<notin> set (raw_tags (hd (t_Data t)))" "name_ok (t_Data t)"
    using assms(3,4) by (auto simp: spelled_def tag_ok_def)
  obtain ws cl where sp: "list_all2 attr_spelled (t_Attr t) ws" and cl: "closes cl"
    and p: "x = ''<'' @ t_Data t @ attrs_src ws @ cl" and ty: "cl = ''>'' \<longleftrightarrow> t_Type t = StartTagToken"
  proof (cases "t_Type t = StartTagToken")
    case True
    with assms(3) that [of _ "''>''"] show thesis by (auto simp: spelled_def closes_def)
  next
    case False
    with assms(3,4) obtain ws cl where "list_all2 attr_spelled (t_Attr t) ws" "cl = ''/>'' \<or> cl = '' />''"
      "x = ''<'' @ t_Data t @ attrs_src ws @ cl" by (auto simp: spelled_def)
    with that [of ws cl] False show thesis by (auto simp: closes_def)
  qed
  obtain c n where n: "t_Data t = c # n" "is_letter c" using ok(3) by (cases "t_Data t") (auto simp: name_ok_def)
  have w: "sees (adv 1 y) (t_Data t @ attrs_src ws @ cl @ s)"
    using sees_adv1 [of y "CHR ''<''"] assms(1) by (simp add: p)
  obtain k1 k2 v1 v2 sps where r: "readStartTag (adv 1 (adv 1 y)) =
      Inr (if cl = ''>'' then StartTagToken else SelfClosingTagToken, respan k1 k2 v1 v2 sps
        (tag_read (raw_end (adv 1 y)) (raw_end (adv 1 y) + int (length (t_Data t)))
          (adv (length (t_Data t @ attrs_src ws @ cl)) (adv 1 y))))"
    and v: "map (attr_value_of (z_buf (adv 1 y))) sps = t_Attr t"
    using readStartTag_sees [OF w ok(3,2) sp cl] by blast
  let ?y = "(respan k1 k2 v1 v2 sps (tag_read (raw_end (adv 1 y)) (raw_end (adv 1 y) + int (length (t_Data t)))
      (adv (length (t_Data t @ attrs_src ws @ cl)) (adv 1 y))))\<lparr>z_tt := t_Type t\<rparr>"
  have y: "sees y (CHR ''<'' # c # n @ attrs_src ws @ cl @ s)" using assms(1) p n(1) by simp
  have "next_loop y = next_markup StartTagToken c (adv 2 y)"
    using next_loop_markup [OF y assms(2) letter_start [OF n(2)]] .
  also have "\<dots> = Inr ?y"
    using r assms(4) ty by (auto simp: next_markup_def set_type_def numeral_2_eq_2)
  finally have "next_loop y = Inr ?y" .
  moreover have "token_of ?y = t"
    using sees_piece [OF w] v ok(1) assms(4) by (intro tag_token) auto
  moreover have "sees ?y s"
    using sees_adv [of "adv 1 y" "t_Data t @ attrs_src ws @ cl" s] w by simp
  ultimately show ?thesis using p by (auto simp: read_back_def)
qed

lemma end_tag_back:
  assumes "sees y (printed t @ s)" and "raw_end y = 0" and "printable t" and "t_Type t = EndTagToken"
  shows "\<exists>y'. next_loop y = Inr y' \<and> read_back y t (printed t) s y'"
proof -
  have ok: "tag_ok t" "name_ok (t_Data t)" "t_Attr t = []"
    using assms(3,4) by (auto simp: printable_def tag_ok_def)
  obtain c n where n: "t_Data t = c # n" "is_letter c" "list_all (\<lambda>c. \<not> ends_name c) n" "c \<noteq> CHR ''>''"
    using ok(2) by (cases "t_Data t") (auto simp: name_ok_def ends_name_def)
  have p: "printed t = ''</'' @ t_Data t @ ''>''" using assms(4) ok(3) by (simp add: printed_def attrs_text_def)
  have y: "sees y (CHR ''<'' # CHR ''/'' # c # n @ CHR ''>'' # s)" using assms(1) by (simp add: p n)
  have y2: "sees (adv 2 y) (c # n @ CHR ''>'' # s)" using sees_adv [of y "''</''"] y by (simp add: numeral_2_eq_2)
  have y3: "sees (adv 3 y) (n @ attrs_src [] @ ''>'' @ s)"
    using sees_adv1 [OF y2] by (simp add: attrs_src_def eval_nat_numeral)
  obtain k1 k2 v1 v2 sps where r: "readTag False (adv 3 y) = Inr (respan k1 k2 v1 v2 sps
      (tag_read (raw_end (adv 3 y) - 1) (raw_end (adv 3 y) + int (length n))
        (adv (length (n @ attrs_src [] @ ''>'')) (adv 3 y))))" and v: "map (attr_value_of (z_buf (adv 3 y))) sps = []"
    using readTag_sees [OF y3 n(3), of "[]" False] by (auto simp: closes_def)
  let ?y = "(respan k1 k2 v1 v2 sps (tag_read (raw_end (adv 3 y) - 1) (raw_end (adv 3 y) + int (length n))
        (adv (length (n @ attrs_src [] @ ''>'')) (adv 3 y))))\<lparr>z_tt := EndTagToken\<rparr>"
  have "next_loop y = next_markup EndTagToken (CHR ''/'') (adv 2 y)"
    using next_loop_markup [OF y assms(2)] by (simp add: token_start_def is_letter_def in_range_def)
  also have "\<dots> = Inr ?y"
    using r sees_readByte [OF y2] sees_bounds(3) [OF y] n by (simp add: next_markup_def eval_nat_numeral)
  finally have "next_loop y = Inr ?y" .
  moreover have "token_of ?y = t"
  proof (rule tag_token)
    show "piece (z_buf ?y) (data_start ?y) (data_end ?y) = t_Data t"
      using sees_piece [of "adv 2 y" "c # n"] y2 n(1) by (simp add: algebra_simps)
  qed (use v ok assms(4) in auto)
  moreover have "sees ?y s"
    using sees_adv [of "adv 3 y" "n @ attrs_src [] @ ''>''" s] y3 by simp
  ultimately show ?thesis using p n(1) by (auto simp: read_back_def attrs_src_def)
qed

text \<open>Comments: what stands between the dashes contains none.\<close>

lemma comment_end: "sees y (''-->'' @ s) \<Longrightarrow> 0 \<le> d \<Longrightarrow>
   comment_loop d y = Inr ((adv 3 y)\<lparr>data_end := raw_end y\<rparr>)"
proof -
  assume y: "sees y (''-->'' @ s)" and d: "0 \<le> d"
  have y1: "sees (adv 1 y) (CHR ''-'' # CHR ''>'' # s)" using sees_adv1 [of y] y by simp
  have y2: "sees (adv 2 y) (CHR ''>'' # s)" using sees_adv1 [OF y1] by (simp add: numeral_2_eq_2)
  have r: "readByte y = Inr (CHR ''-'', adv 1 y)" "readByte (adv 1 y) = Inr (CHR ''-'', adv 2 y)"
    "readByte (adv 2 y) = Inr (CHR ''>'', adv 3 y)"
    using sees_readByte [of y] y sees_readByte [OF y1] sees_readByte [OF y2] by (simp_all add: eval_nat_numeral)
  have e: "z_err y = None" using sees_bounds(3) [OF y] .
  have "comment_loop d y = comment_loop (d + 1) (adv 1 y)" using r e by (subst comment_loop.simps) simp
  also have "\<dots> = comment_loop (d + 2) (adv 2 y)" using r e by (subst comment_loop.simps) (simp add: algebra_simps)
  also have "\<dots> = Inr ((adv 3 y)\<lparr>data_end := raw_end y\<rparr>)" using r e d by (subst comment_loop.simps) simp
  finally show ?thesis .
qed

lemma comment_sees:
  "sees y (x @ ''-->'' @ s) \<Longrightarrow> CHR ''-'' \<notin> set x \<Longrightarrow> 0 \<le> d \<Longrightarrow>
   2 \<le> d \<and> x \<noteq> [] \<longrightarrow> hd x \<noteq> CHR ''>'' \<and> hd x \<noteq> CHR ''!'' \<Longrightarrow>
   comment_loop d y = Inr ((adv (length x + 3) y)\<lparr>data_end := raw_end y + int (length x)\<rparr>)"
proof (induction x arbitrary: d y)
  case Nil
  then show ?case using comment_end [of y s d] by simp
next
  case (Cons c x)
  have y: "sees y (c # x @ ''-->'' @ s)" using Cons.prems(1) by simp
  have "comment_loop d y = comment_loop 0 (adv 1 y)"
    using sees_readByte [OF y] sees_bounds(3) [OF y] Cons.prems by (subst comment_loop.simps) auto
  also have "\<dots> = Inr ((adv (length x + 3) (adv 1 y))\<lparr>data_end := raw_end (adv 1 y) + int (length x)\<rparr>)"
    using Cons.prems sees_adv1 [OF y] by (intro Cons.IH) auto
  finally show ?case by (simp add: algebra_simps)
qed

lemma plain_value:
  assumes "CHR ''&'' \<notin> set x" and "CHR 0x0D \<notin> set x"
  shows "unescape_spec False (unix x) = x"
  using unescape_spec_prefix [OF assms(1), of False "[]"] by (simp add: unix_id [OF assms(2)])

lemma comment_back:
  assumes "sees y (printed t @ s)" and "raw_end y = 0" and "printable t" and "t_Type t = CommentToken"
    and "\<not> textIsRaw y" and "\<not> convertNUL y"
  shows "\<exists>y'. next_loop y = Inr y' \<and> read_back y t (printed t) s y'"
proof -
  let ?x = "t_Data t"
  have ok: "comment_ok ?x" "t_DataAtom t = 0" "t_Attr t = []" using assms(3,4) by (auto simp: printable_def)
  have p: "printed t = ''<!--'' @ ?x @ ''-->''" using assms(4) by (simp add: printed_def)
  have y: "sees y (CHR ''<'' # CHR ''!'' # ''--'' @ ?x @ ''-->'' @ s)" using assms(1) by (simp add: p)
  have e: "z_err y = None" using sees_bounds(3) [OF y] .
  let ?z = "(adv 2 y)\<lparr>data_start := raw_end y + 2\<rparr>"
  have z: "sees ?z (CHR ''-'' # CHR ''-'' # ?x @ ''-->'' @ s)" using sees_adv [of y "''<!''"] y by (simp add: numeral_2_eq_2)
  have z1: "sees (adv 1 ?z) (CHR ''-'' # ?x @ ''-->'' @ s)" using sees_adv1 [OF z] .
  have z2: "sees (adv 2 ?z) (?x @ ''-->'' @ s)" using sees_adv1 [OF z1] by (simp add: numeral_2_eq_2)
  have r: "readByte ?z = Inr (CHR ''-'', adv 1 ?z)" "readByte (adv 1 ?z) = Inr (CHR ''-'', adv 2 ?z)"
    using sees_readByte [OF z] sees_readByte [OF z1] by (simp_all add: numeral_2_eq_2)
  let ?c = "(adv 2 ?z)\<lparr>data_start := raw_end y + 4\<rparr>"
  have "comment_loop 2 ?c = Inr ((adv (length ?x + 3) ?c)\<lparr>data_end := raw_end ?c + int (length ?x)\<rparr>)"
    using z2 ok(1) by (intro comment_sees) (auto simp: comment_ok_def)
  then have c: "readComment (adv 2 ?z) = Inr ((adv (length ?x + 3) ?c)\<lparr>data_end := raw_end y + 4 + int (length ?x)\<rparr>)"
    by (simp add: readComment_def)
  let ?y = "(adv (length ?x + 3) ?c)\<lparr>data_end := raw_end y + 4 + int (length ?x), z_tt := CommentToken\<rparr>"
  have "next_loop y = next_markup CommentToken (CHR ''!'') (adv 2 y)"
    using next_loop_markup [OF y assms(2)] by (simp add: token_start_def is_letter_def in_range_def)
  also have "\<dots> = Inr ?y"
    using r c e by (simp add: next_markup_def readMarkupDeclaration_def set_type_def)
  finally have n: "next_loop y = Inr ?y" .
  have "piece (z_buf y) (raw_end y + 4) (raw_end y + 4 + int (length ?x)) = ?x"
    using sees_piece [OF z2] by (simp add: algebra_simps)
  moreover have "unescape_spec False (unix ?x) = ?x" "NUL \<notin> set (unix ?x)"
    using ok(1) plain_value [of ?x] unix_id [of ?x] by (auto simp: comment_ok_def)
  ultimately have "token_of ?y = t"
    using ok assms(4-6) by (cases t) (simp add: token_of_def text_value_def)
  moreover have "sees ?y s"
    using sees_adv [of "adv 2 ?z" "?x @ ''-->''" s] z2 by (simp add: eval_nat_numeral)
  ultimately show ?thesis using n p by (auto simp: read_back_def)
qed

lemma sees_match:
  "sees y (x @ s) \<Longrightarrow> list_all2 (\<lambda>p c. p c) ps x \<Longrightarrow> read_match ps y = Inr (Matches, adv (length x) y)"
proof (induction ps arbitrary: x y)
  case Nil
  then show ?case by (simp add: read_match.simps)
next
  case (Cons p ps)
  then obtain c x' where x: "x = c # x'" "p c" "list_all2 (\<lambda>p c. p c) ps x'" by (auto simp: list_all2_Cons1)
  have y: "sees y (c # x' @ s)" using Cons.prems(1) x by simp
  have "read_match ps (adv 1 y) = Inr (Matches, adv (length x') (adv 1 y))"
    using sees_adv1 [OF y] x(3) by (rule Cons.IH)
  then show ?case
    using sees_readByte [OF y] sees_bounds(3) [OF y] x by (simp add: read_match.simps)
qed

lemma doctype_back:
  assumes "sees y (printed t @ s)" and "raw_end y = 0" and "printable t" and "t_Type t = DoctypeToken"
    and "\<not> textIsRaw y" and "\<not> convertNUL y"
  shows "\<exists>y'. next_loop y = Inr y' \<and> read_back y t (printed t) s y'"
proof -
  let ?x = "t_Data t"
  have ok: "doctype_ok ?x" "t_DataAtom t = 0" "t_Attr t = []" using assms(3,4) by (auto simp: printable_def)
  have p: "printed t = ''<!DOCTYPE '' @ ?x @ ''>''" using assms(4) by (simp add: printed_def)
  have y: "sees y (CHR ''<'' # CHR ''!'' # ''DOCTYPE '' @ ?x @ CHR ''>'' # s)" using assms(1) by (simp add: p)
  have e: "z_err y = None" using sees_bounds(3) [OF y] .
  let ?z = "(adv 2 y)\<lparr>data_start := raw_end y + 2\<rparr>"
  have z: "sees ?z (''DOCTYPE'' @ CHR '' '' # ?x @ CHR ''>'' # s)" using sees_adv [of y "''<!''"] y by (simp add: numeral_2_eq_2)
  have r: "readByte ?z = Inr (CHR ''D'', adv 1 ?z)" "readByte (adv 1 ?z) = Inr (CHR ''O'', adv 2 ?z)"
  proof -
    have z0: "sees ?z (CHR ''D'' # CHR ''O'' # ''CTYPE'' @ CHR '' '' # ?x @ CHR ''>'' # s)" using z by simp
    show "readByte ?z = Inr (CHR ''D'', adv 1 ?z)" using sees_readByte [OF z0] .
    show "readByte (adv 1 ?z) = Inr (CHR ''O'', adv 2 ?z)"
      using sees_readByte [OF sees_adv1 [OF z0]] by (simp add: numeral_2_eq_2)
  qed
  have u: "unread 2 (adv 2 ?z) = ?z" by (simp add: unread_def adv_def)
  have m: "read_match (map (\<lambda>s c. c = s \<or> c = byte_plus s) ''DOCTYPE'') ?z = Inr (Matches, adv (length ''DOCTYPE'') ?z)"
    using z by (rule sees_match) simp
  let ?a = "adv (length ''DOCTYPE'') ?z"
  have a: "sees ?a (CHR '' '' # ?x @ CHR ''>'' # s)" using sees_adv [OF z] .
  have sk: "skipWhiteSpace ?a = Inr (adv 1 ?a)"
  proof -
    obtain c q where "?x @ CHR ''>'' # s = c # q" "\<not> is_space c"
      using ok(1) by (cases ?x) (auto simp: doctype_ok_def is_space_def)
    then show ?thesis using a sees_skip1 [of ?a c q] by simp
  qed
  have b: "sees (adv 1 ?a) (?x @ CHR ''>'' # s)" using sees_adv1 [OF a] .
  let ?b = "(adv 1 ?a)\<lparr>data_start := raw_end (adv 1 ?a)\<rparr>"
  have "sees ?b (?x @ CHR ''>'' # s)" using b by simp
  then have "read_until (\<lambda>c. c = CHR ''>'') ?b = Inr (CHR ''>'', adv (Suc (length ?x)) ?b)"
    using ok(1) by (intro sees_until) (auto simp: doctype_ok_def list_all_iff)
  then have c: "readUntilCloseAngle (adv 1 ?a) =
      Inr ((adv (Suc (length ?x)) ?b)\<lparr>data_end := raw_end (adv 1 ?a) + int (length ?x)\<rparr>)"
    using e by (simp add: readUntilCloseAngle_def)
  let ?y = "(adv (Suc (length ?x)) ?b)\<lparr>data_end := raw_end (adv 1 ?a) + int (length ?x), z_tt := DoctypeToken\<rparr>"
  have "readDoctype ?z = Inr (True, (adv (Suc (length ?x)) ?b)\<lparr>data_end := raw_end (adv 1 ?a) + int (length ?x)\<rparr>)"
    using m sk c e by (simp add: readDoctype_def del: list.map length_Cons)
  then have "readMarkupDeclaration (adv 2 y) = Inr (DoctypeToken, (adv (Suc (length ?x)) ?b)\<lparr>data_end := raw_end (adv 1 ?a) + int (length ?x)\<rparr>)"
    using r e u by (simp add: readMarkupDeclaration_def)
  moreover have "next_loop y = next_markup CommentToken (CHR ''!'') (adv 2 y)"
    using next_loop_markup [OF y assms(2)] by (simp add: token_start_def is_letter_def in_range_def)
  ultimately have n: "next_loop y = Inr ?y" by (simp add: next_markup_def set_type_def)
  have "piece (z_buf y) (raw_end (adv 1 ?a)) (raw_end (adv 1 ?a) + int (length ?x)) = ?x"
    using sees_piece [OF b] by simp
  moreover have "unescape_spec False (unix ?x) = ?x"
    using ok(1) plain_value [of ?x] by (auto simp: doctype_ok_def)
  ultimately have "token_of ?y = t"
    using ok assms(4-6) by (cases t) (simp add: token_of_def text_value_def)
  moreover have "sees ?y s"
    using sees_adv [of "adv 1 ?a" "?x @ ''>''" s] b by simp
  ultimately show ?thesis using n p by (auto simp: read_back_def)
qed

text \<open>Text ends at the next printed token or with the input.\<close>

lemma next_loop_text: "sees y (p @ s) \<Longrightarrow> CHR ''<'' \<notin> set p \<Longrightarrow> next_loop y = next_loop (adv (length p) y)"
proof (induction p arbitrary: y)
  case (Cons c p)
  have y: "sees y (c # p @ s)" using Cons.prems(1) by simp
  have "next_loop y = next_loop (adv 1 y)"
    using sees_readByte [OF y] sees_bounds(3) [OF y] Cons.prems(2) by (subst next_loop.simps) auto
  also have "\<dots> = next_loop (adv (length p) (adv 1 y))"
    using Cons.prems(2) sees_adv1 [OF y] by (intro Cons.IH) auto
  finally show ?case by simp
qed simp

lemma text_token:
  assumes "z_tt y = TextToken" and "\<not> textIsRaw y" and "\<not> convertNUL y" and "spelled t x" and "t_Type t = TextToken"
    and "piece (z_buf y) (data_start y) (data_end y) = x"
  shows "token_of y = t"
  using assms by (cases t) (simp add: token_of_def text_value_def spelled_def)

lemma text_back:
  assumes "sees y (x @ CHR ''<'' # c # s)" and "raw_end y = 0" and "data_start y = 0"
    and "spelled t x" and "t_Type t = TextToken" and "token_start c \<noteq> None" and "\<not> textIsRaw y" and "\<not> convertNUL y"
  shows "\<exists>y'. next_loop y = Inr y' \<and> read_back y t x (CHR ''<'' # c # s) y'"
proof -
  let ?n = "length x"
  let ?y = "(adv ?n y)\<lparr>data_end := int ?n, z_tt := TextToken\<rparr>"
  have x: "x \<noteq> []" "CHR ''<'' \<notin> set x" using assms(4,5) by (auto simp: spelled_def)
  have y1: "sees (adv ?n y) (CHR ''<'' # c # s)" using sees_adv [OF assms(1)] .
  have y2: "sees (adv (Suc ?n) y) (c # s)" using sees_adv1 [OF y1] by simp
  have "raw_start y = 0" using assms(1) by (simp add: sees_def settled_def)
  moreover have r: "readByte (adv ?n y) = Inr (CHR ''<'', adv (Suc ?n) y)" "readByte (adv (Suc ?n) y) = Inr (c, adv (Suc (Suc ?n)) y)"
    using sees_readByte [OF y1] sees_readByte [OF y2] by simp_all
  moreover have "?n \<noteq> 0" using x(1) by simp
  ultimately have "next_loop (adv ?n y) = Inr ?y"
    using sees_bounds(3) [OF assms(1)] assms(2,6)
    by (subst next_loop.simps) (auto simp: adv_def)
  then have n: "next_loop y = Inr ?y"
    using next_loop_text [OF assms(1) x(2)] by simp
  have "token_of ?y = t"
    using assms sees_piece [OF assms(1)] by (intro text_token) auto
  with n y1 show ?thesis using assms(2) by (auto simp: read_back_def)
qed

lemma text_back_end:
  assumes "sees y x" and "raw_end y = 0" and "data_start y = 0"
    and "spelled t x" and "t_Type t = TextToken" and "\<not> textIsRaw y" and "\<not> convertNUL y"
  shows "\<exists>y'. next_loop y = Inr y' \<and> raw_end y' = int (length x) \<and> z_buf y' = z_buf y \<and> token_of y' = t \<and>
    z_err y' = z_readErr y \<and> rawTag y' = rawTag y"
proof -
  let ?n = "length x"
  let ?y = "(adv ?n y)\<lparr>z_err := z_readErr y, data_end := int ?n, z_tt := TextToken\<rparr>"
  have x: "x \<noteq> []" "CHR ''<'' \<notin> set x" using assms(4,5) by (auto simp: spelled_def)
  have y1: "sees (adv ?n y) []" using sees_adv [of y x "[]"] assms(1) by simp
  have s: "raw_start y = 0" "z_readErr y \<noteq> None" using assms(1) by (simp_all add: sees_def settled_def)
  have "?n \<noteq> 0" using x(1) by simp
  then have "next_loop (adv ?n y) = Inr ?y"
    using sees_end [OF y1] s assms(2) by (subst next_loop.simps) (auto simp: next_end_def)
  then have n: "next_loop y = Inr ?y"
    using next_loop_text [of y x "[]"] x(2) assms(1) by simp
  have "token_of ?y = t"
    using assms sees_piece [of y x "[]"] by (intro text_token) auto
  with n show ?thesis using assms(2) by auto
qed

lemma spelled_markup:
  assumes "spelled t x" and "t_Type t \<noteq> TextToken"
  obtains c s where "x = CHR ''<'' # c # s" and "token_start c \<noteq> None"
proof -
  have "hd (t_Data t) # tl (t_Data t) = t_Data t" if "tag_ok t"
    using that by (simp add: tag_ok_def name_ok_def)
  then have "\<exists>c s. x = CHR ''<'' # c # s \<and> token_start c \<noteq> None"
    using assms by (cases "t_Type t"; cases "t_Data t")
      (auto simp: spelled_def printable_def printed_def tag_ok_def name_ok_def token_start_def)
  then show thesis using that by blast
qed

lemma markup_back:
  assumes "sees y (x @ s)" and "raw_end y = 0" and "spelled t x" and "t_Type t \<noteq> TextToken"
    and "\<not> textIsRaw y" and "\<not> convertNUL y"
  shows "\<exists>y'. next_loop y = Inr y' \<and> read_back y t x s y'"
proof (cases "t_Type t")
  case ErrorToken
  with assms(3) show ?thesis by (simp add: spelled_def printable_def)
next
  case EndTagToken
  with assms show ?thesis using end_tag_back [of y t s] by (simp add: spelled_def)
next
  case CommentToken
  with assms show ?thesis using comment_back [of y t s] by (simp add: spelled_def)
next
  case DoctypeToken
  with assms show ?thesis using doctype_back [of y t s] by (simp add: spelled_def)
qed (use assms start_tag_back in auto)

section \<open>Reading back a whole text\<close>

definition no_token :: Token where
  "no_token = \<lparr>t_Type = ErrorToken, t_DataAtom = 0, t_Data = [], t_Attr = []\<rparr>"

fun separated :: "Token list \<Rightarrow> bool" where
  "separated (t # u # ts) \<longleftrightarrow> \<not> (t_Type t = TextToken \<and> t_Type u = TextToken) \<and> separated (u # ts)"
| "separated ts \<longleftrightarrow> True"

text \<open>What a tokenizer sees when it begins a token.\<close>

lemma begin_sees:
  assumes "wf_tok z" and "z_err z = None" and "z_maxBuf z \<le> 0"
  shows "sees (norm (next_begin z)) (rest z)"
  using next_begin_facts(1,2,3,7,9) [OF assms(1)] assms(2,3) by (simp add: sees_def)

lemma begin_Next_on:
  assumes "z_err z = None" and "rawTag z = []"
  shows "Next_on (norm (next_begin z)) = next_loop ((norm (next_begin z))\<lparr>textIsRaw := False, convertNUL := False\<rparr>)"
  using assms by (simp add: Next_on_def next_begin_def)

text \<open>After an error, and at the end of the input, there is nothing but the error token.\<close>

lemma read_tokens_stop:
  assumes "wf_tok z" and "rest z = []" and "z_maxBuf z \<le> 0" and "rawTag z = []"
    and "z_err z = None \<or> z_err z = Some (end_err z)"
  shows "\<exists>z'. read_tokens 1 z = Inr ([([], no_token)], z') \<and> Err z' = Some (end_err z)"
proof -
  obtain z1 z2 where z1: "Next z = Inr z1" "Raw z1 = Inr (take (nat (off z1)) (stream z1))"
    "Tokenizer_Token z1 = Inr (token_of z1, z2)" "wf_tok z1" "spans_ok z1" "stream z1 = rest z"
    "z_err z2 = z_err z1" "z_tt z2 = z_tt z1" and n: "Next_on (norm (next_begin z)) = Inr (norm z1)"
    by (rule round [OF assms(1)]) blast
  let ?y = "norm (next_begin z)"
  have f: "z_readErr ?y = Some (end_err z)" "z_err ?y = z_err z"
    using next_begin_facts(7,8) [OF assms(1)] by simp_all
  have "z_tt (norm z1) = ErrorToken \<and> z_err (norm z1) = Some (end_err z)"
  proof (cases "z_err z")
    case None
    let ?x = "?y\<lparr>textIsRaw := False, convertNUL := False\<rparr>"
    have x: "sees ?x []" using begin_sees [OF assms(1) None assms(3)] assms(2) by simp
    have "raw_start ?x = 0" "raw_end ?x = 0" using next_begin_facts(2) [OF assms(1)] by simp_all
    then have "next_loop ?x = Inr (?x\<lparr>z_err := z_readErr ?x, z_tt := ErrorToken\<rparr>)"
      using sees_end [OF x] f(1) by (subst next_loop.simps) (simp add: next_end_def)
    then have "norm z1 = ?x\<lparr>z_err := z_readErr ?x, z_tt := ErrorToken\<rparr>"
      using n begin_Next_on [OF None assms(4)] by simp
    then show ?thesis using f by simp
  next
    case (Some e)
    then have "norm z1 = ?y\<lparr>z_tt := ErrorToken\<rparr>" using n f(2) by (simp add: Next_on_def)
    then show ?thesis using Some f assms(5) by simp
  qed
  then have tt: "z_tt z1 = ErrorToken" "z_err z1 = Some (end_err z)" by simp_all
  then have "token_of z1 = no_token" by (simp add: token_of_def no_token_def)
  then have "read_tokens 1 z = Inr ([([], no_token)], z2)" using z1 assms(2) by (simp add: no_token_def)
  moreover have "Err z2 = Some (end_err z)" using z1(7,8) tt by (simp add: Err_def)
  ultimately show ?thesis by blast
qed

text \<open>What a tokenizer shows to its client between two calls: \<open>s\<close> is still to be read, after which the
  error is \<open>e\<close>.\<close>

definition serves :: "Tokenizer \<Rightarrow> string \<Rightarrow> io_error \<Rightarrow> bool" where
  "serves z s e \<longleftrightarrow> wf_tok z \<and> z_maxBuf z \<le> 0 \<and> rawTag z = [] \<and> rest z = s \<and> end_err z = e \<and>
     (z_err z = None \<or> s = [] \<and> z_err z = Some e)"

text \<open>A text is over where a tag, a comment or a declaration begins, and at the end.\<close>

definition text_ends :: "string \<Rightarrow> bool" where
  "text_ends s \<longleftrightarrow> s = [] \<or> (\<exists>c r. s = CHR ''<'' # c # r \<and> token_start c \<noteq> None)"

lemma spelled_read:
  assumes "sees y (x @ s)" and "raw_end y = 0" and "data_start y = 0" and "rawTag y = []"
    and "\<not> textIsRaw y" and "\<not> convertNUL y" and "z_readErr y = Some e"
    and "spelled t x" and "t_Type t = TextToken \<longrightarrow> text_ends s"
  shows "\<exists>y'. next_loop y = Inr y' \<and> token_of y' = t \<and> raw_end y' = int (length x) \<and> z_buf y' = z_buf y \<and>
    rawTag y' = [] \<and> (z_err y' = None \<or> s = [] \<and> z_err y' = Some e)"
proof (cases "t_Type t = TextToken \<and> s = []")
  case True
  then show ?thesis using text_back_end [of y x t] assms by auto
next
  case False
  have "\<exists>y'. next_loop y = Inr y' \<and> read_back y t x s y'"
  proof (cases "t_Type t = TextToken")
    case True
    then obtain c r where "s = CHR ''<'' # c # r" "token_start c \<noteq> None"
      using False assms(9) by (auto simp: text_ends_def)
    then show ?thesis using text_back [of y x c r t] assms True by simp
  qed (use markup_back [of y x s t] assms in auto)
  then obtain y' where y': "next_loop y = Inr y'" "read_back y t x s y'" by blast
  then show ?thesis using assms(2,4) sees_bounds(3) [of y' s] by (auto simp: read_back_def)
qed

text \<open>One token, whichever way it is spelled.\<close>

lemma token_step:
  assumes z: "serves z (x @ s) e" and x: "spelled t x" "t_Type t = TextToken \<longrightarrow> text_ends s"
  obtains z1 z2 where "Next z = Inr z1" and "Raw z1 = Inr x" and "Tokenizer_Token z1 = Inr (t, z2)" and "serves z2 s e"
proof -
  have nonempty: "x \<noteq> []"
    using x(1) by (cases "t_Type t = TextToken") (auto simp: spelled_def elim: spelled_markup [OF x(1)])
  then have e: "z_err z = None" using z by (auto simp: serves_def)
  have wf: "wf_tok z" "z_maxBuf z \<le> 0" "rawTag z = []" "rest z = x @ s" "end_err z = e" using z by (auto simp: serves_def)
  let ?y = "(norm (next_begin z))\<lparr>textIsRaw := False, convertNUL := False\<rparr>"
  have y: "sees ?y (x @ s)" using begin_sees [OF wf(1) e wf(2)] wf(4) by simp
  have y0: "raw_end ?y = 0" "data_start ?y = 0" "rawTag ?y = []" "z_readErr ?y = Some e" "z_buf ?y = x @ s"
    using next_begin_facts(2,3,4,8) [OF wf(1)] wf(3-5) by simp_all (simp add: next_begin_def)
  obtain y' where y': "next_loop ?y = Inr y'" "token_of y' = t" "raw_end y' = int (length x)" "z_buf y' = x @ s"
    "rawTag y' = []" "z_err y' = None \<or> s = [] \<and> z_err y' = Some e"
    using spelled_read [OF y y0(1-3) _ _ y0(4) x] y0(5) by auto
  obtain z1 z2 where z1: "Next z = Inr z1" "Raw z1 = Inr (take (nat (off z1)) (stream z1))"
    "Tokenizer_Token z1 = Inr (token_of z1, z2)" "wf_tok z1" "wf_tok z2" "spans_ok z1" "stream z1 = rest z"
    "rest z2 = rest z1" "z_err z2 = z_err z1" "end_err z2 = end_err z" "z_maxBuf z2 = z_maxBuf z"
    "Next_on (norm (next_begin z)) = Inr (norm z1)"
    and nx: "norm (next_begin z2) = (norm (next_begin (norm z1)))\<lparr>nAttrReturned :=
      (if z_tt z1 \<in> {StartTagToken, EndTagToken, SelfClosingTagToken} then length (z_attr z1) else nAttrReturned z1)\<rparr>"
    by (rule round [OF wf(1)]) blast
  have n1: "norm z1 = y'" using z1(12) y'(1) begin_Next_on [OF e wf(3)] by simp
  have off: "off z1 = int (length x)" using n1 y'(3) by (metis norm_simps(2))
  show thesis
  proof (rule that [OF z1(1)])
    show "Raw z1 = Inr x" using z1(2,7) off wf(4) by simp
    show "Tokenizer_Token z1 = Inr (t, z2)" using z1(3) token_of_norm [OF z1(4,6)] n1 y'(2) by simp
    have "rest z1 = drop (length x) (rest z)" unfolding rest_def [of z1] z1(7) off by simp
    then have "rest z2 = s" using z1(8) wf(4) by simp
    moreover have "z_err z2 = z_err y'" using z1(9) n1 by (metis norm_simps(5))
    moreover have "rawTag z2 = []"
    proof -
      have "rawTag (norm (next_begin z2)) = rawTag (norm z1)" unfolding nx by (simp add: next_begin_def)
      then show ?thesis using n1 y'(5) by (simp add: next_begin_def)
    qed
    ultimately show "serves z2 s e" using z1(5,10,11) wf y'(6) by (simp add: serves_def)
  qed
qed

lemma read_spelled:
  assumes "serves z (concat xs) e" and "list_all2 spelled ts xs" and "separated ts"
  shows "\<exists>z'. read_tokens (Suc (length ts)) z = Inr (zip xs ts @ [([], no_token)], z') \<and> Err z' = Some e"
  using assms
proof (induction ts arbitrary: xs z)
  case Nil
  then show ?case using read_tokens_stop [of z] by (auto simp: serves_def)
next
  case (Cons t ts)
  obtain x xs' where xs: "xs = x # xs'" "spelled t x" "list_all2 spelled ts xs'"
    using Cons.prems(2) by (auto simp: list_all2_Cons1)
  have ends: "text_ends (concat xs')" if "t_Type t = TextToken"
  proof (cases ts)
    case (Cons u us)
    then obtain x' r where u: "spelled u x'" "xs' = x' # r" using xs(3) by (auto simp: list_all2_Cons1)
    have "t_Type u \<noteq> TextToken" using Cons.prems(3) that Cons by simp
    then obtain c q where "x' = CHR ''<'' # c # q" "token_start c \<noteq> None" using spelled_markup [OF u(1)] by blast
    then show ?thesis using u(2) by (auto simp: text_ends_def)
  qed (use xs in \<open>simp add: text_ends_def\<close>)
  have "serves z (x @ concat xs') e" using Cons.prems(1) xs(1) by simp
  from token_step [OF this xs(2)] ends obtain z1 z2 where
    z1: "Next z = Inr z1" "Raw z1 = Inr x" "Tokenizer_Token z1 = Inr (t, z2)" "serves z2 (concat xs') e" by blast
  have "separated ts" using Cons.prems(3) by (cases ts) auto
  then obtain z' where "read_tokens (Suc (length ts)) z2 = Inr (zip xs' ts @ [([], no_token)], z')" "Err z' = Some e"
    using Cons.IH [OF z1(4) xs(3)] by blast
  moreover have "t_Type t \<noteq> ErrorToken" using xs(2) by (auto simp: spelled_def printable_def)
  ultimately show ?case using z1 xs(1) by (auto simp del: read_tokens.simps(2) simp: read_tokens.simps(2) [of "Suc _"])
qed

lemma go_map_printed: "go_map Token_String ts = Inr (map printed ts)"
  by (rule go_map_total) (simp add: Token_String_printed)

section \<open>The round trip\<close>

text \<open>C12. Tokens survive printing. Take printable tokens, no two texts in a row: texts of any bytes but not
  empty; tags with lower-case names and keys, whose attributes may have any values, except for start tags
  of elements with raw text; comments and declarations without the bytes that are not read as themselves
  (in comments these include dashes and ampersands). The tokenizer, given the text that \<open>Token.String\<close>
  prints for them one after another, over any reader that makes progress, yields exactly these tokens
  again, each from exactly the text printed for it, and then the reader's error.\<close>

theorem tokens_survive_printing:
  assumes "list_all printable ts" and "separated ts" and "go_map Token_String ts = Inr ss"
    and "patient_reader r" and "content r = concat ss"
  shows "\<exists>z. read_tokens (length ts + 1) (NewTokenizer r) = Inr (zip ss ts @ [([], no_token)], z) \<and>
    Err z = Some (final r)"
proof -
  have ss: "ss = map printed ts" using assms(3) go_map_printed [of ts] by simp
  have "wf_tok (NewTokenizer r)" unfolding NewTokenizer_def by (rule wf_NewTokenizerFragment [OF assms(4)])
  then have "serves (NewTokenizer r) (concat ss) (final r)"
    using assms(5) by (simp add: serves_def NewTokenizer_def NewTokenizerFragment_def end_err_def rest_def off_def stream_def)
  moreover have "list_all2 spelled ts ss"
    unfolding ss using assms(1) by (induction ts) (simp_all add: printed_spelled)
  ultimately show ?thesis using read_spelled assms(2) by fastforce
qed

text \<open>An element with an attribute and a text that need escaping.\<close>

definition sample :: "Token list" where
  "sample =
     [\<lparr>t_Type = StartTagToken, t_DataAtom = atom_of ''q'', t_Data = ''q'',
       t_Attr = [\<lparr>attr_Namespace = [], attr_Key = ''k'', attr_Val = ''<&''\<rparr>]\<rparr>,
      \<lparr>t_Type = TextToken, t_DataAtom = 0, t_Data = ''1<2'', t_Attr = []\<rparr>,
      \<lparr>t_Type = EndTagToken, t_DataAtom = atom_of ''q'', t_Data = ''q'', t_Attr = []\<rparr>]"

definition sample_text :: "string list" where
  "sample_text = [''<q k='' @ [CHR 0x22] @ ''&lt;&amp;'' @ [CHR 0x22] @ ''>'', ''1&lt;2'', ''</q>'']"

lemma sample_ok: "list_all printable sample \<and> separated sample \<and> go_map Token_String sample = Inr sample_text"
  by (simp add: Token_String_printed sample_def sample_text_def printable_def tag_ok_def name_ok_def attr_ok_def lower_def
      lower_byte_def in_range_def is_letter_def ends_name_def ends_key_def is_space_def raw_tags_def printed_def
      attrs_text_def attr_text_def escape_spec_def escape_byte_def escapedChars_def esc_string_def)

theorem tokens_survive_printing_witness:
  "\<exists>z. read_tokens 4 (NewTokenizer (strings_NewReader (concat sample_text))) =
     Inr (zip sample_text sample @ [([], no_token)], z) \<and> Err z = Some EOF"
proof -
  have n: "length sample + 1 = 4" by (simp add: sample_def)
  show ?thesis
    using tokens_survive_printing [of sample sample_text "strings_NewReader (concat sample_text)"] sample_ok
    unfolding n by simp
qed

end
