(* ===== verification/Html_Parser_Plain.thy ===== *)
theory Html_Parser_Plain
  imports Html_Parser_Frame Html_Token_Print Jsx_Html
begin

text \<open>
  The parser on plain HTML: texts, elements without content, elements that nest and are closed, and
  formatting elements that are closed where they were opened. \<open>written\<close> relates such trees to
  the texts they may be written as.
\<close>

section \<open>A new last child\<close>

definition untouched :: "memory \<Rightarrow> nat \<Rightarrow> bool" where
  "untouched m b \<longleftrightarrow> (\<forall>a \<ge> b. m a = new_Node)"

definition same_links :: "Node \<Rightarrow> Node \<Rightarrow> bool" where
  "same_links x y \<longleftrightarrow> Parent x = Parent y \<and> FirstChild x = FirstChild y \<and> LastChild x = LastChild y \<and>
     PrevSibling x = PrevSibling y \<and> NextSibling x = NextSibling y"

lemma wf_dom_cong:
  assumes "\<And>a. same_links (m' a) (m a)" and "wf_dom m K"
  shows "wf_dom m' K"
proof -
  have "linked m' n d cs e = linked m n d cs e" for n d cs e
    using assms(1) by (intro linked_cong) (simp add: same_links_def)
  with assms show ?thesis by (simp add: wf_dom_def same_links_def)
qed

lemma wf_dom_new:
  assumes "wf_dom m K" and "m b = new_Node" and "no_links nd"
  shows "wf_dom (m(b := nd)) K"
  using assms(2,3) by (intro wf_dom_cong [OF _ assms(1)]) (auto simp: same_links_def no_links_def new_Node_def)

lemma untouched_kids: "wf_dom m K \<Longrightarrow> m a = new_Node \<Longrightarrow> K a = [] \<and> (\<forall>n. a \<notin> set (K n))"
  using wf_dom_node(3) [of m K a] wf_dom_detached [of m K a] first_of_None_iff [of "K a" None]
  by (simp add: detached_def new_Node_def)

lemma new_child:
  assumes wf: "wf_dom m K" and un: "untouched m b" and n: "n < b" and nd: "no_links nd"
  obtains m' where "AppendChild n b (m(b := nd)) = Inr m'" and "wf_dom m' (K(n := K n @ [b]))"
    and "untouched m' (Suc b)" and "same_payload (m(b := nd)) m'"
proof -
  have b: "m b = new_Node" using un by (simp add: untouched_def)
  have "detached (m(b := nd)) b" using nd by (simp add: detached_def no_links_def)
  then obtain m' where m': "AppendChild n b (m(b := nd)) = Inr m'" "wf_dom m' (K(n := K n @ [b]))"
    "same_payload (m(b := nd)) m'"
    using AppendChild_wf [OF wf_dom_new [OF wf b nd]] n by (metis less_irrefl)
  have "m' a = new_Node" if "Suc b \<le> a" for a
  proof -
    have a: "m a = new_Node" using un that by (simp add: untouched_def)
    have K: "(K(n := K n @ [b])) a = []" "\<forall>k. a \<notin> set ((K(n := K n @ [b])) k)"
      using untouched_kids [OF wf a] that n by auto
    have "same_links (m' a) new_Node"
      using wf_dom_node(3,4) [OF m'(2), of a] wf_dom_detached [OF m'(2), of a] K
      by (simp add: same_links_def detached_def new_Node_def)
    moreover have "NType (m' a) = NType new_Node" "DataAtom (m' a) = DataAtom new_Node" "Data (m' a) = Data new_Node"
      "Namespace (m' a) = Namespace new_Node" "Attr (m' a) = Attr new_Node"
      using m'(3) a that by (auto simp: same_payload_def)
    ultimately show ?thesis by (cases "m' a") (simp add: same_links_def new_Node_def)
  qed
  with m' that show thesis by (auto simp: untouched_def)
qed

section \<open>Plain HTML\<close>

definition blocks :: "Atom list" where
  "blocks =
     [a_Address, a_Article, a_Aside, a_Blockquote, a_Center, a_Details, a_Dir, a_Div, a_Dl, a_Fieldset,
      a_Figcaption, a_Figure, a_Footer, a_Header, a_Hgroup, a_Menu, a_Nav, a_Ol, a_Section, a_Summary, a_Ul]"

definition voids :: "Atom list" where
  "voids = [a_Area, a_Br, a_Embed, a_Img, a_Keygen, a_Wbr, a_Hr, a_Param, a_Source, a_Track]"

definition formats :: "Atom list" where
  "formats = [a_A, a_B, a_Big, a_Code, a_Em, a_Font, a_I, a_S, a_Small, a_Strike, a_Strong, a_Tt, a_U]"

text \<open>The other atoms for which \<open>inBodyIM\<close> has rules.\<close>

definition treated :: "Atom list" where
  "treated =
     [a_Html, a_Base, a_Basefont, a_Bgsound, a_Command, a_Link, a_Meta, a_Noframes, a_Script, a_Style,
      a_Template, a_Title, a_Body, a_Frameset, a_P, a_H1, a_H2, a_H3, a_H4, a_H5, a_H6, a_Pre, a_Listing,
      a_Form, a_Li, a_Dd, a_Dt, a_Plaintext, a_Button, a_Nobr, a_Applet, a_Marquee, a_Object, a_Table,
      a_Input, a_Image, a_Isindex, a_Textarea, a_Xmp, a_Iframe, a_Noembed, a_Noscript, a_Select,
      a_Optgroup, a_Option, a_Rb, a_Rtc, a_Rp, a_Rt, a_Math, a_Svg, a_Frame, a_Caption, a_Col, a_Colgroup,
      a_Head, a_Tbody, a_Td, a_Tfoot, a_Th, a_Thead, a_Tr]"

definition ordinary :: "Atom \<Rightarrow> bool" where
  "ordinary a \<longleftrightarrow> a \<notin> set blocks \<and> a \<notin> set voids \<and> a \<notin> set formats \<and> a \<notin> set treated"

definition tag_token :: "TokenType \<Rightarrow> string \<Rightarrow> Attribute list \<Rightarrow> Token" where
  "tag_token tt tag as = \<lparr>t_Type = tt, t_DataAtom = atom_of tag, t_Data = tag, t_Attr = as\<rparr>"

definition text_token :: "string \<Rightarrow> Token" where
  "text_token d = \<lparr>t_Type = TextToken, t_DataAtom = 0, t_Data = d, t_Attr = []\<rparr>"

definition starts_with_text :: "html list \<Rightarrow> bool" where
  "starts_with_text ts = (case ts of HText d # _ \<Rightarrow> True | _ \<Rightarrow> False)"

text \<open>A list of trees and a text it can be written as, inside of a formatting element or not.\<close>

inductive written :: "bool \<Rightarrow> html list \<Rightarrow> string \<Rightarrow> bool" where
  w_nothing: "written f [] []"
| w_text: "spelled (text_token d) x \<Longrightarrow> d \<noteq> [] \<Longrightarrow> NUL \<notin> set d \<Longrightarrow> written f ts w \<Longrightarrow> \<not> starts_with_text ts \<Longrightarrow>
    written f (HText d # ts) (x @ w)"
| w_void: "tt = StartTagToken \<or> tt = SelfClosingTagToken \<Longrightarrow> spelled (tag_token tt tag as) x \<Longrightarrow>
    atom_of tag \<in> set voids \<Longrightarrow> written f ts w \<Longrightarrow> written f (HElem tag as [] # ts) (x @ w)"
| w_element: "spelled (tag_token StartTagToken tag as) x \<Longrightarrow> atom_of tag \<in> set blocks \<or> ordinary (atom_of tag) \<Longrightarrow>
    written f ks v \<Longrightarrow> written f ts w \<Longrightarrow> written f (HElem tag as ks # ts) (x @ v @ ''</'' @ tag @ ''>'' @ w)"
| w_formatting: "spelled (tag_token StartTagToken tag as) x \<Longrightarrow> atom_of tag \<in> set formats \<Longrightarrow>
    tag \<notin> set isSpecialElementMap \<Longrightarrow> written True ks v \<Longrightarrow> written False ts w \<Longrightarrow>
    written False (HElem tag as ks # ts) (x @ v @ ''</'' @ tag @ ''>'' @ w)"

lemma end_tag_spelled:
  "spelled (tag_token StartTagToken tag as) x \<Longrightarrow> spelled (tag_token EndTagToken tag []) (''</'' @ tag @ ''>'')"
  by (simp add: spelled_def tag_token_def tag_ok_def printable_def printed_def attrs_text_def)

lemma tag_ends_text: "spelled (tag_token tt tag as) x \<Longrightarrow> tt \<noteq> TextToken \<Longrightarrow> text_ends (x @ s)"
  by (rule spelled_markup [of "tag_token tt tag as" x]) (auto simp: tag_token_def text_ends_def)

lemma written_ends_text: "written f ts w \<Longrightarrow> \<not> starts_with_text ts \<Longrightarrow> text_ends s \<Longrightarrow> text_ends (w @ s)"
  by (induction rule: written.induct) (auto simp: starts_with_text_def intro: tag_ends_text)

section \<open>The parser in the body\<close>

text \<open>\<open>oe\<close> are the open elements, \<open>fe\<close> the formatting element among them, and \<open>K\<close> the children of every node.\<close>

definition in_body :: "nat option \<Rightarrow> nat list \<Rightarrow> (nat \<Rightarrow> nat list) \<Rightarrow> parser \<Rightarrow> bool" where
  "in_body fe oe K p \<longleftrightarrow> p_im p = Some InBodyIM \<and> \<not> p_fosterParenting p \<and> p_templateStack p = [] \<and>
     p_oe p = map Some oe \<and> oe \<noteq> [] \<and>
     p_afe p = (case fe of None \<Rightarrow> [] | Some a \<Rightarrow> [Some a]) \<and> (\<forall>a. fe = Some a \<longrightarrow> a \<in> set oe) \<and>
     wf_dom (the_mem p) K \<and> untouched (the_mem p) (brk (p_store p)) \<and>
     (\<forall>x \<in> set oe. x < brk (p_store p) \<and> Namespace (the_mem p x) = [] \<and>
        DataAtom (the_mem p x) \<notin> {a_P, a_Pre, a_Listing})"


lemmas run_simps = pbind_def ask_def ret_def lift_def modify_def void_def only_if_def with_tok_def

lemma in_bodyD:
  assumes "in_body fe oe K p"
  shows "p_im p = Some InBodyIM" "\<not> p_fosterParenting p" "p_templateStack p = []" "p_oe p = map Some oe" "oe \<noteq> []"
    "p_afe p = (case fe of None \<Rightarrow> [] | Some a \<Rightarrow> [Some a])" "fe = Some a \<Longrightarrow> a \<in> set oe" "wf_dom (the_mem p) K"
    "untouched (the_mem p) (brk (p_store p))" "x \<in> set oe \<Longrightarrow> x < brk (p_store p)"
    "x \<in> set oe \<Longrightarrow> Namespace (the_mem p x) = []" "x \<in> set oe \<Longrightarrow> DataAtom (the_mem p x) \<notin> {a_P, a_Pre, a_Listing}"
  using assms by (auto simp: in_body_def)

lemma stack_top_last: "xs \<noteq> [] \<Longrightarrow> stack_top xs = Some (last xs)"
  by (simp add: stack_top_def last_conv_nth)

lemma top_of_body:
  assumes "in_body fe oe K p"
  shows "oe_top p = Some (last oe)" and "parser_top p = Some (last oe)" and "last oe \<in> set oe"
  using in_bodyD(4,5) [OF assms] by (simp_all add: oe_top_def parser_top_def stack_top_last last_map)

text \<open>Nothing has to be reconstructed, and there is no paragraph to close.\<close>

lemma nothing_to_reconstruct:
  assumes "in_body fe oe K p"
  shows "reconstructActiveFormattingElements p = Inr ((), p)"
proof (cases fe)
  case None
  then show ?thesis
    using in_bodyD(6) [OF assms] by (simp add: reconstructActiveFormattingElements_def run_simps stack_top_def)
next
  case (Some a)
  then have "Some a \<in> set (p_oe p)" using in_bodyD(4,7) [OF assms] by auto
  then have "stack_index (p_oe p) (Some a) \<noteq> -1" by (simp add: stack_index_absent)
  then show ?thesis
    using Some in_bodyD(6) [OF assms]
    by (simp add: reconstructActiveFormattingElements_def run_simps stack_top_def afe_stops_def)
qed

lemma scope_loop_none:
  "\<forall>x \<in> set oe. DataAtom (m x) \<notin> set tags \<Longrightarrow> k \<le> length oe \<Longrightarrow> s = defaultScope \<or> s = buttonScope \<Longrightarrow>
   scope_loop k s tags m (map Some oe) = Inr (-1)"
proof (induction k)
  case (Suc k)
  then have "DataAtom (m (oe ! k)) \<notin> set tags" by (auto simp: Suc_le_eq)
  moreover have "scope_loop k s tags m (map Some oe) = Inr (-1)" using Suc by simp
  ultimately show ?case using Suc.prems(2,3) by (elim disjE; simp add: Let_def scope_stop_def; blast)
qed simp

lemma scope_loop_top:
  "Namespace (m c) = [] \<Longrightarrow> DataAtom (m c) \<in> set tags \<Longrightarrow>
   scope_loop (Suc (length xs)) s tags m (map Some (xs @ [c])) = Inr (int (length xs))"
  by (simp add: Let_def nth_append)

lemma no_paragraph:
  assumes "in_body fe oe K p"
  shows "popUntil buttonScope [a_P] p = Inr (False, p)"
  using in_bodyD(4,12) [OF assms] scope_loop_none [of oe "the_mem p" "[a_P]" "length oe" buttonScope]
  by (simp add: popUntil_def indexOfElementInScope_def run_simps)

lemma close_top:
  assumes "in_body fe (xs @ [c]) K p" and "DataAtom (the_mem p c) = a"
  shows "popUntil defaultScope [a] p = Inr (True, p\<lparr>p_oe := map Some xs\<rparr>)"
    and "elementInScope defaultScope [a] p = Inr (True, p)"
  using in_bodyD(4,11) [OF assms(1)] scope_loop_top [of "the_mem p" c "[a]" xs defaultScope] assms(2)
  by (simp_all add: popUntil_def elementInScope_def indexOfElementInScope_def run_simps set_oe_def del: scope_loop.simps)

section \<open>Adding to the tree\<close>

text \<open>The memory \<open>m\<close> after a node \<open>nd\<close> has become the last child of \<open>n\<close>.\<close>

definition gained :: "parser \<Rightarrow> (nat \<Rightarrow> nat list) \<Rightarrow> nat \<Rightarrow> Node \<Rightarrow> memory \<Rightarrow> bool" where
  "gained p K n nd m \<longleftrightarrow> wf_dom m (K(n := K n @ [brk (p_store p)])) \<and> untouched m (Suc (brk (p_store p))) \<and>
     same_payload ((the_mem p)(brk (p_store p) := nd)) m"

abbreviation grown_store :: "parser \<Rightarrow> memory \<Rightarrow> dom_store" where
  "grown_store p m \<equiv> \<lparr>mem = m, brk = Suc (brk (p_store p))\<rparr>"

lemma adds_child:
  assumes p: "in_body fe oe K p" and nd: "no_links nd"
  shows "\<exists>m. pbind (alloc nd) addChild p = Inr ((), p\<lparr>p_store := grown_store p m,
      p_oe := p_oe p @ (if NType nd = ElementNode then [Some (brk (p_store p))] else [])\<rparr>) \<and>
    gained p K (last oe) nd m"
proof -
  let ?b = "brk (p_store p)"
  obtain m where m: "AppendChild (last oe) ?b ((the_mem p)(?b := nd)) = Inr m"
    "wf_dom m (K(last oe := K (last oe) @ [?b]))" "untouched m (Suc ?b)" "same_payload ((the_mem p)(?b := nd)) m"
    using new_child [OF in_bodyD(8,9) [OF p] _ nd] in_bodyD(10) [OF p top_of_body(3) [OF p]] by blast
  have top: "parser_top (p\<lparr>p_store := s\<rparr>) = Some (last oe)" for s
    using top_of_body(1) [OF p] by (simp add: parser_top_def oe_top_def)
  have ty: "NType (m ?b) = NType nd" using m(4) by (simp add: same_payload_def)
  have "pbind (alloc nd) addChild p = Inr ((), p\<lparr>p_store := grown_store p m,
      p_oe := p_oe p @ (if NType nd = ElementNode then [Some ?b] else [])\<rparr>)"
    using in_bodyD(2) [OF p] m(1) top ty
    by (simp add: alloc_def addChild_def shouldFosterParent_def run_simps append_child_def in_mem_def node_at_def set_oe_def)
  with m(2-4) show ?thesis by (auto simp: gained_def)
qed


lemma adds_element:
  assumes p: "in_body fe oe K p" and t: "p_tok p = tag_token tt tag as"
  shows "\<exists>m. addElement p = Inr ((), p\<lparr>p_store := grown_store p m, p_oe := p_oe p @ [Some (brk (p_store p))]\<rparr>) \<and>
    gained p K (last oe) (element_node (atom_of tag) tag as) m"
  using adds_child [OF p no_links_new(3) [of "atom_of tag" tag as]] t
  by (simp add: addElement_def ask_def tag_token_def element_node_def)

section \<open>Start tags\<close>

lemmas body_start_defs = inBodyIM_def body_start_def body_start_blocks_def body_start_inline_def body_start_rest_def
  Let_def with_tok_def ask_def tag_token_def

lemma start_ordinary:
  assumes "p_tok p = tag_token StartTagToken tag as" and "ordinary (atom_of tag)"
  shows "inBodyIM R p = acts [reconstructActiveFormattingElements, addElement] (ret True) p"
  using assms
  by (simp add: body_start_defs ordinary_def blocks_def voids_def formats_def treated_def block_starts_def headings_def
      del: acts.simps)

lemma start_block:
  assumes "p_tok p = tag_token StartTagToken tag as" and "atom_of tag \<in> set blocks"
  shows "inBodyIM R p = acts [void (popUntil buttonScope [a_P]), addElement] (ret True) p"
proof -
  have "list_all (\<lambda>a. a \<noteq> a_Html \<and> a \<notin> set [a_Base, a_Basefont, a_Bgsound, a_Command, a_Link, a_Meta, a_Noframes,
      a_Script, a_Style, a_Template, a_Title] \<and> a \<noteq> a_Body \<and> a \<noteq> a_Frameset \<and> a \<in> set block_starts) blocks"
    by code_simp
  with assms(2) have "atom_of tag \<noteq> a_Html" "atom_of tag \<notin> set [a_Base, a_Basefont, a_Bgsound, a_Command, a_Link, a_Meta,
      a_Noframes, a_Script, a_Style, a_Template, a_Title]" "atom_of tag \<noteq> a_Body" "atom_of tag \<noteq> a_Frameset"
    "atom_of tag \<in> set block_starts" unfolding list_all_iff by blast+
  with assms(1) show ?thesis by (simp add: body_start_defs del: acts.simps)
qed


lemma start_void:
  assumes "p_tok p = tag_token StartTagToken tag as" and "atom_of tag \<in> set voids"
  shows "inBodyIM R p \<in> {acts [reconstructActiveFormattingElements, addElement, void oe_pop, acknowledgeSelfClosingTag,
        set_framesetOK False] (ret True) p,
      acts [addElement, void oe_pop, acknowledgeSelfClosingTag] (ret True) p,
      acts [void (popUntil buttonScope [a_P]), addElement, void oe_pop, acknowledgeSelfClosingTag,
        set_framesetOK False] (ret True) p}"
proof -
  have "atom_of tag \<in> {a_Area, a_Br, a_Embed, a_Img, a_Keygen, a_Wbr} \<or> atom_of tag = a_Hr \<or>
      atom_of tag \<in> {a_Param, a_Source, a_Track}"
    using assms(2) by (auto simp: voids_def)
  then show ?thesis
    using assms(1) by (elim disjE insertE emptyE) (simp_all add: body_start_defs block_starts_def headings_def)
qed

lemma start_format:
  assumes "p_tok p = tag_token StartTagToken tag as" and "atom_of tag \<in> set formats"
  shows "inBodyIM R p = (if atom_of tag = a_A then start_a p
    else acts [reconstructActiveFormattingElements, addFormattingElement] (ret True) p)"
proof -
  have "list_all (\<lambda>a. a \<noteq> a_Html \<and> a \<notin> set [a_Base, a_Basefont, a_Bgsound, a_Command, a_Link, a_Meta, a_Noframes,
      a_Script, a_Style, a_Template, a_Title] \<and> a \<noteq> a_Body \<and> a \<noteq> a_Frameset \<and> a \<notin> set block_starts \<and> a \<notin> set headings \<and>
      a \<notin> set [a_Pre, a_Listing] \<and> a \<noteq> a_Form \<and> a \<noteq> a_Li \<and> a \<notin> set [a_Dd, a_Dt] \<and> a \<noteq> a_Plaintext \<and> a \<noteq> a_Button \<and>
      (a = a_A \<or> a \<in> set [a_B, a_Big, a_Code, a_Em, a_Font, a_I, a_S, a_Small, a_Strike, a_Strong, a_Tt, a_U])) formats"
    by code_simp
  with assms(2) have "atom_of tag \<noteq> a_Html" "atom_of tag \<notin> set [a_Base, a_Basefont, a_Bgsound, a_Command, a_Link, a_Meta,
      a_Noframes, a_Script, a_Style, a_Template, a_Title]" "atom_of tag \<noteq> a_Body" "atom_of tag \<noteq> a_Frameset"
    "atom_of tag \<notin> set block_starts" "atom_of tag \<notin> set headings" "atom_of tag \<notin> set [a_Pre, a_Listing]"
    "atom_of tag \<noteq> a_Form" "atom_of tag \<noteq> a_Li" "atom_of tag \<notin> set [a_Dd, a_Dt]" "atom_of tag \<noteq> a_Plaintext"
    "atom_of tag \<noteq> a_Button"
    and inline: "atom_of tag = a_A \<or> atom_of tag \<in> set [a_B, a_Big, a_Code, a_Em, a_Font, a_I, a_S, a_Small, a_Strike, a_Strong, a_Tt, a_U]"
    unfolding list_all_iff by blast+
  note others = this(1-12)
  show ?thesis
  proof (cases "atom_of tag = a_A")
    case False
    then have "atom_of tag \<in> set [a_B, a_Big, a_Code, a_Em, a_Font, a_I, a_S, a_Small, a_Strike, a_Strong, a_Tt, a_U]"
      using inline by blast
    with False others assms(1) show ?thesis by (simp add: body_start_defs del: acts.simps)
  qed (use others assms(1) in \<open>simp add: body_start_defs del: acts.simps\<close>)
qed

section \<open>End tags\<close>

lemmas body_end_defs = inBodyIM_def body_end_def Let_def with_tok_def ask_def tag_token_def

lemma end_block:
  assumes "p_tok p = tag_token EndTagToken tag as" and "atom_of tag \<in> set blocks"
  shows "inBodyIM R p = acts [void (popUntil defaultScope [atom_of tag])] (ret True) p"
proof -
  have "list_all (\<lambda>a. a \<noteq> a_Html \<and> a \<noteq> a_Body \<and> a \<in> set block_ends) blocks" by code_simp
  with assms(2) have "atom_of tag \<noteq> a_Html" "atom_of tag \<noteq> a_Body" "atom_of tag \<in> set block_ends"
    unfolding list_all_iff by blast+
  with assms(1) show ?thesis by (simp add: body_end_defs del: acts.simps)
qed

lemma end_ordinary:
  assumes "p_tok p = tag_token EndTagToken tag as" and "ordinary (atom_of tag)"
  shows "inBodyIM R p = acts [inBodyEndTagOther (atom_of tag)] (ret True) p"
  using assms
  by (simp add: body_end_defs ordinary_def blocks_def voids_def formats_def treated_def block_ends_def headings_def
      formatting_def del: acts.simps)

lemma end_format:
  assumes "p_tok p = tag_token EndTagToken tag as" and "atom_of tag \<in> set formats"
  shows "inBodyIM R p = acts [inBodyEndTagFormatting (atom_of tag)] (ret True) p"
proof -
  have "list_all (\<lambda>a. a \<noteq> a_Html \<and> a \<noteq> a_Body \<and> a \<notin> set block_ends \<and> a \<noteq> a_Form \<and> a \<noteq> a_P \<and> a \<noteq> a_Li \<and>
      a \<notin> set [a_Dd, a_Dt] \<and> a \<notin> set headings \<and> a \<in> set formatting) formats" by code_simp
  with assms(2) have "atom_of tag \<noteq> a_Html" "atom_of tag \<noteq> a_Body" "atom_of tag \<notin> set block_ends" "atom_of tag \<noteq> a_Form"
    "atom_of tag \<noteq> a_P" "atom_of tag \<noteq> a_Li" "atom_of tag \<notin> set [a_Dd, a_Dt]" "atom_of tag \<notin> set headings"
    "atom_of tag \<in> set formatting"
    unfolding list_all_iff by blast+
  with assms(1) show ?thesis by (simp add: body_end_defs del: acts.simps)
qed


section \<open>What the tags do\<close>

definition kept :: "parser \<Rightarrow> parser \<Rightarrow> bool" where
  "kept p p' \<longleftrightarrow> p_im p' = p_im p \<and> p_fosterParenting p' = p_fosterParenting p \<and>
     p_templateStack p' = p_templateStack p \<and> p_tokenizer p' = p_tokenizer p"

lemma pop_added: "oe_pop (p\<lparr>p_oe := xs @ [n]\<rparr>) = Inr (n, p\<lparr>p_oe := xs\<rparr>)"
  by (simp add: oe_pop_def run_simps stack_pop_snoc set_oe_def)

lemma start_void_does:
  assumes p: "in_body fe oe K p" and t: "p_tok p = tag_token StartTagToken tag as" and a: "atom_of tag \<in> set voids"
  shows "\<exists>p' m. inBodyIM R p = Inr (True, p') \<and> kept p p' \<and> p_store p' = grown_store p m \<and> p_oe p' = p_oe p \<and>
    p_afe p' = p_afe p \<and> gained p K (last oe) (element_node (atom_of tag) tag as) m"
proof -
  obtain m where m: "addElement p = Inr ((), p\<lparr>p_store := grown_store p m, p_oe := p_oe p @ [Some (brk (p_store p))]\<rparr>)"
    "gained p K (last oe) (element_node (atom_of tag) tag as) m" using adds_element [OF p t] by blast
  note steps = pop_added [where p = "p\<lparr>p_store := grown_store p m\<rparr>"] nothing_to_reconstruct [OF p] no_paragraph [OF p] m(1)
  from start_void [OF t a, of R] show ?thesis
  proof (elim insertE emptyE)
    assume "inBodyIM R p = acts [reconstructActiveFormattingElements, addElement, void oe_pop, acknowledgeSelfClosingTag,
        set_framesetOK False] (ret True) p"
    then show ?thesis using steps m(2)
      by (simp add: run_simps acknowledgeSelfClosingTag_def set_framesetOK_def) (auto simp: kept_def)
  next
    assume "inBodyIM R p = acts [addElement, void oe_pop, acknowledgeSelfClosingTag] (ret True) p"
    then show ?thesis using steps m(2)
      by (simp add: run_simps acknowledgeSelfClosingTag_def set_framesetOK_def) (auto simp: kept_def)
  next
    assume "inBodyIM R p = acts [void (popUntil buttonScope [a_P]), addElement, void oe_pop, acknowledgeSelfClosingTag,
        set_framesetOK False] (ret True) p"
    then show ?thesis using steps m(2)
      by (simp add: run_simps acknowledgeSelfClosingTag_def set_framesetOK_def) (auto simp: kept_def)
  qed
qed

lemma start_element_does:
  assumes p: "in_body fe oe K p" and t: "p_tok p = tag_token StartTagToken tag as"
    and a: "atom_of tag \<in> set blocks \<or> ordinary (atom_of tag)"
  shows "\<exists>p' m. inBodyIM R p = Inr (True, p') \<and> kept p p' \<and> p_store p' = grown_store p m \<and>
    p_oe p' = p_oe p @ [Some (brk (p_store p))] \<and> p_afe p' = p_afe p \<and>
    gained p K (last oe) (element_node (atom_of tag) tag as) m"
proof -
  obtain m where m: "addElement p = Inr ((), p\<lparr>p_store := grown_store p m, p_oe := p_oe p @ [Some (brk (p_store p))]\<rparr>)"
    "gained p K (last oe) (element_node (atom_of tag) tag as) m" using adds_element [OF p t] by blast
  have "inBodyIM R p = Inr (True, p\<lparr>p_store := grown_store p m, p_oe := p_oe p @ [Some (brk (p_store p))]\<rparr>)"
    using a start_block [OF t, of R] start_ordinary [OF t, of R] nothing_to_reconstruct [OF p] no_paragraph [OF p] m(1)
    by (auto simp: run_simps)
  with m(2) show ?thesis by (auto simp: kept_def)
qed

lemma start_format_does:
  assumes p: "in_body None oe K p" and t: "p_tok p = tag_token StartTagToken tag as" and a: "atom_of tag \<in> set formats"
  shows "\<exists>p' m. inBodyIM R p = Inr (True, p') \<and> kept p p' \<and> p_store p' = grown_store p m \<and>
    p_oe p' = p_oe p @ [Some (brk (p_store p))] \<and> p_afe p' = [Some (brk (p_store p))] \<and>
    gained p K (last oe) (element_node (atom_of tag) tag as) m"
proof -
  let ?b = "brk (p_store p)"
  obtain m where m: "addElement p = Inr ((), p\<lparr>p_store := grown_store p m, p_oe := p_oe p @ [Some ?b]\<rparr>)"
    "gained p K (last oe) (element_node (atom_of tag) tag as) m" using adds_element [OF p t] by blast
  let ?p = "p\<lparr>p_store := grown_store p m, p_oe := p_oe p @ [Some ?b], p_afe := [Some ?b]\<rparr>"
  have afe: "p_afe p = []" using in_bodyD(6) [OF p] by simp
  then have "addFormattingElement p = Inr ((), ?p)"
    using m(1) by (simp add: addFormattingElement_def Let_def run_simps set_afe_def afe_push_def parser_top_def
        oe_top_def stack_top_last)
  then have "inBodyIM R p = Inr (True, ?p)"
    using start_format [OF t a, of R] nothing_to_reconstruct [OF p] afe by (simp add: start_a_def run_simps)
  with m(2) show ?thesis by (auto simp: kept_def)
qed


text \<open>A text becomes a new node unless the last child is a text already.\<close>

definition last_no_text :: "parser \<Rightarrow> nat list \<Rightarrow> bool" where
  "last_no_text p ks \<longleftrightarrow> (\<forall>l. last_of None ks = Some l \<longrightarrow> NType (the_mem p l) \<noteq> TextNode)"

lemma text_does:
  assumes p: "in_body fe oe K p" and t: "p_tok p = text_token d" and d: "d \<noteq> []" "NUL \<notin> set d"
    and l: "last_no_text p (K (last oe))"
  shows "\<exists>p' m. inBodyIM R p = Inr (True, p') \<and> kept p p' \<and> p_store p' = grown_store p m \<and> p_oe p' = p_oe p \<and>
    p_afe p' = p_afe p \<and> gained p K (last oe) (text_node d) m"
proof -
  have nd: "no_links (text_node d)" by simp
  obtain m where m: "pbind (alloc (text_node d)) addChild p = Inr ((), p\<lparr>p_store := grown_store p m, p_oe := p_oe p\<rparr>)"
    "gained p K (last oe) (text_node d) m"
    using adds_child [OF p nd] by (auto simp: text_node_def)
  have last: "LastChild (the_mem p (last oe)) = last_of None (K (last oe))"
    using wf_dom_node(4) [OF in_bodyD(8) [OF p]] .
  have add: "addText d p = Inr ((), p\<lparr>p_store := grown_store p m, p_oe := p_oe p\<rparr>)"
    using d(1) in_bodyD(2) [OF p] top_of_body(2) [OF p] m(1) l last
    by (cases "last_of None (K (last oe))")
      (simp_all add: addText_def shouldFosterParent_def top_node_def node_at_def run_simps Let_def last_no_text_def)
  have nul: "drop_nul d = d" using d(2) by (auto simp: drop_nul_def filter_id_conv)
  have "DataAtom (the_mem p (last oe)) \<notin> set [a_Pre, a_Listing]"
    using in_bodyD(12) [OF p top_of_body(3) [OF p]] by simp
  then have "\<exists>q. body_text p = Inr (True, q) \<and> kept p q \<and> p_store q = grown_store p m \<and> p_oe q = p_oe p \<and> p_afe q = p_afe p"
    using t top_of_body(1) [OF p] nul d(1) add nothing_to_reconstruct [OF p]
    by (simp add: body_text_def node_at_def run_simps Let_def text_token_def set_framesetOK_def kept_def)
  with m(2) t show ?thesis by (auto simp: inBodyIM_def with_tok_def ask_def text_token_def)
qed

lemma end_element_does:
  assumes p: "in_body fe (xs @ [c]) K p" and t: "p_tok p = tag_token EndTagToken tag as"
    and c: "DataAtom (the_mem p c) = atom_of tag" and a: "atom_of tag \<in> set blocks \<or> ordinary (atom_of tag)"
  shows "\<exists>p'. inBodyIM R p = Inr (True, p') \<and> kept p p' \<and> p_store p' = p_store p \<and> p_oe p' = map Some xs \<and>
    p_afe p' = p_afe p"
proof -
  have "inBodyEndTagOther (atom_of tag) p = Inr ((), p\<lparr>p_oe := map Some xs\<rparr>)"
    using in_bodyD(4) [OF p] c by (simp add: inBodyEndTagOther_def run_simps set_oe_def nth_append)
  then have "inBodyIM R p = Inr (True, p\<lparr>p_oe := map Some xs\<rparr>)"
    using a end_block [OF t, of R] end_ordinary [OF t, of R] close_top(1) [OF p c] by (auto simp: run_simps)
  then show ?thesis by (simp add: kept_def)
qed

lemma end_format_does:
  assumes p: "in_body (Some c) (xs @ [c]) K p" and t: "p_tok p = tag_token EndTagToken tag as"
    and c: "DataAtom (the_mem p c) = atom_of tag" "NType (the_mem p c) = ElementNode" "Data (the_mem p c) = tag"
    and a: "atom_of tag \<in> set formats" "tag \<notin> set isSpecialElementMap"
  shows "\<exists>p'. inBodyIM R p = Inr (True, p') \<and> kept p p' \<and> p_store p' = p_store p \<and> p_oe p' = map Some xs \<and> p_afe p' = []"
proof -
  have afe: "p_afe p = [Some c]" and oe: "p_oe p = map Some xs @ [Some c]" using in_bodyD(4,6) [OF p] by simp_all
  have idx: "stack_index (p_oe p) (Some c) = int (length xs)"
    using stack_index_topmost [of "Some c" "[]" "map Some xs"] oe by simp
  have sp: "\<not> isSpecialElement (the_mem p c)"
    using in_bodyD(11) [OF p, of c] c(3) a(2) by (simp add: isSpecialElement_def)
  have pop: "pop_through (Some c) (p_oe p) = Inr (map Some xs)"
    using oe by (subst pop_through.simps) (simp add: stack_pop_snoc)
  have rem: "stack_remove None [Some c] (Some c) = []" using stack_remove_spec [of "Some c" "[]" None "[]"] by simp
  have "adoption_round (atom_of tag) p = Inr (True, p\<lparr>p_oe := map Some xs, p_afe := []\<rparr>)"
    using afe idx sp pop rem oe c(1,2) close_top(2) [OF p c(1)]
    by (simp add: adoption_round_def run_simps Let_def set_oe_def afe_remove_def set_afe_def)
  then have "inBodyEndTagFormatting (atom_of tag) p = Inr ((), p\<lparr>p_oe := map Some xs, p_afe := []\<rparr>)"
    by (simp add: inBodyEndTagFormatting_def eval_nat_numeral run_simps)
  then show ?thesis using end_format [OF t a(1), of R] by (simp add: run_simps kept_def)
qed


section \<open>One token of the loop\<close>

definition begun :: "parser \<Rightarrow> parser" where
  "begun p = (if t_Type (p_tok p) = SelfClosingTagToken
     then p\<lparr>p_hasSelfClosingToken := True, p_tok := (p_tok p)\<lparr>t_Type := StartTagToken\<rparr>\<rparr> else p)"

lemma current_in_body:
  assumes p: "in_body fe oe K p" and "inBodyIM (run d) (begun p) = Inr (True, p')"
  shows "run (Suc (Suc (Suc d))) CallCurrent p = Inr (True, p'\<lparr>p_hasSelfClosingToken := False\<rparr>)"
proof -
  let ?q = "begun p"
  have q: "p_oe ?q = map Some oe" "p_im ?q = Some InBodyIM" "p_store ?q = p_store p"
    using in_bodyD(1,4) [OF p] by (simp_all add: begun_def)
  have "last oe = oe ! (length oe - 1)" using in_bodyD(5) [OF p] by (simp add: last_conv_nth)
  then have "inForeignContent ?q = Inr (False, ?q)"
    using in_bodyD(5,11) [OF p] q top_of_body(3) [OF p]
    by (simp add: inForeignContent_def run_simps node_at_def Let_def)
  then have "run (Suc (Suc d)) CallLoop ?q = Inr (True, p')"
    using assms(2) q(2) by (simp add: call_body_def token_loop_def call_im_def run_simps mode_def)
  then show ?thesis
    by (cases "t_Type (p_tok p) = SelfClosingTagToken"; cases "p_hasSelfClosingToken p'")
      (simp_all add: run.simps(2) [of "Suc (Suc d)"] call_body_def parseCurrentToken_def run_simps begun_def del: run.simps)
qed

lemma serves_AllowCDATA [simp]: "serves (AllowCDATA b z) s e = serves z s e"
  by (cases "z_readErr z") (simp_all add: serves_def AllowCDATA_def wf_tok_def rest_def stream_def off_def end_err_def)

lemma loop_step:
  assumes p: "in_body fe oe K p" and z: "serves (p_tokenizer p) (x @ s) EOF" and x: "spelled t x"
    and s: "t_Type t = TextToken \<longrightarrow> text_ends s"
  obtains z where "serves z s EOF"
    and "\<And>p' k. inBodyIM (run d) (begun (p\<lparr>p_tokenizer := z, p_tok := t\<rparr>)) = Inr (True, p') \<Longrightarrow>
      parse_loop (Suc (Suc (Suc d))) (Suc k) p = parse_loop (Suc (Suc (Suc d))) k (p'\<lparr>p_hasSelfClosingToken := False\<rparr>)"
proof -
  have "serves (AllowCDATA False (p_tokenizer p)) (x @ s) EOF" using z by simp
  from token_step [OF this x s] obtain z1 z2 where z1: "Next (AllowCDATA False (p_tokenizer p)) = Inr z1"
    "Tokenizer_Token z1 = Inr (t, z2)" "serves z2 s EOF" by metis
  let ?p = "p\<lparr>p_tokenizer := z2, p_tok := t\<rparr>"
  have nt: "next_token p = Inr (t, ?p)"
    using z1 top_of_body(1) [OF p] in_bodyD(11) [OF p top_of_body(3) [OF p]] by (simp add: next_token_def run_simps)
  have ty: "t_Type t \<noteq> ErrorToken" using x by (auto simp: spelled_def printable_def)
  have ib: "in_body fe oe K ?p" using p by (simp add: in_body_def)
  show thesis
  proof (rule that [OF z1(3)])
    fix p' k assume "inBodyIM (run d) (begun ?p) = Inr (True, p')"
    from current_in_body [OF ib this]
    show "parse_loop (Suc (Suc (Suc d))) (Suc k) p = parse_loop (Suc (Suc (Suc d))) k (p'\<lparr>p_hasSelfClosingToken := False\<rparr>)"
      using nt ty by (simp add: run_simps del: run.simps)
  qed
qed


section \<open>Trees in memory\<close>

definition payload :: "Node \<Rightarrow> NodeType \<times> Atom \<times> string \<times> string \<times> Attribute list" where
  "payload x = (NType x, DataAtom x, Data x, Namespace x, Attr x)"

lemma html_at_cong:
  "(\<And>n. n \<in> set (ids t) \<Longrightarrow> payload (m' n) = payload (m n)) \<Longrightarrow> html_at m' t = html_at m t"
proof (induction t)
  case (IT n ts)
  have "payload (m' n) = payload (m n)" using IT.prems by simp
  moreover have "map (html_at m') ts = map (html_at m) ts" using IT by auto
  ultimately show ?case unfolding html_at.simps payload_def by (metis prod.inject)
qed

text \<open>Between \<open>p\<close> and \<open>p'\<close> the trees \<open>its\<close> have become the last children of \<open>cur\<close>, and nothing else has changed.\<close>

definition builds :: "nat \<Rightarrow> (nat \<Rightarrow> nat list) \<Rightarrow> dom_store \<Rightarrow> itree list \<Rightarrow> (nat \<Rightarrow> nat list) \<Rightarrow> dom_store \<Rightarrow> bool" where
  "builds cur K s its K' s' \<longleftrightarrow> cur < brk s \<and> brk s \<le> brk s' \<and> K' cur = K cur @ map node_of its \<and>
     (\<forall>x < brk s. (x \<noteq> cur \<longrightarrow> K' x = K x) \<and> payload (mem s' x) = payload (mem s x)) \<and>
     distinct (concat (map ids its)) \<and> (\<forall>n \<in> set (concat (map ids its)). brk s \<le> n \<and> n < brk s') \<and>
     list_all (tree_in K') its"

lemma built_nothing: "cur < brk s \<Longrightarrow> builds cur K s [] K s"
  by (simp add: builds_def)

lemma built_keeps:
  assumes "builds cur K s its K' s'" and "t \<in> set ts" and "\<forall>n \<in> set (concat (map ids ts)). n < brk s \<and> n \<noteq> cur"
  shows "tree_in K t \<Longrightarrow> tree_in K' t" and "html_at (mem s') t = html_at (mem s) t"
proof -
  have n: "n < brk s" "n \<noteq> cur" if "n \<in> set (ids t)" for n using assms(2,3) that by auto
  show "tree_in K' t" if "tree_in K t"
    using that tree_in_cong [of t K' K] n assms(1) by (simp add: builds_def)
  show "html_at (mem s') t = html_at (mem s) t" using assms(1) n by (intro html_at_cong) (simp add: builds_def)
qed

lemma built_append:
  assumes 1: "builds cur K s ts K1 s1" and 2: "builds cur K1 s1 us K2 s2"
  shows "builds cur K s (ts @ us) K2 s2" and "map (html_at (mem s2)) (ts @ us) = map (html_at (mem s1)) ts @ map (html_at (mem s2)) us"
proof -
  have new: "\<forall>n \<in> set (concat (map ids ts)). n < brk s1 \<and> n \<noteq> cur" using 1 by (fastforce simp: builds_def)
  have "list_all (tree_in K2) ts"
    using 1 built_keeps(1) [OF 2 _ new] by (auto simp: builds_def list_all_iff)
  then show "builds cur K s (ts @ us) K2 s2" using 1 2 by (fastforce simp: builds_def)
  show "map (html_at (mem s2)) (ts @ us) = map (html_at (mem s1)) ts @ map (html_at (mem s2)) us"
    using built_keeps(2) [OF 2 _ new] by simp
qed


lemma gained_payload:
  "gained p K n nd m \<Longrightarrow> payload (m x) = (if x = brk (p_store p) then payload nd else payload (the_mem p x))"
  by (simp add: gained_def same_payload_def payload_def)

text \<open>A node without children, and a node with its children below it.\<close>

lemma built_inside:
  assumes p: "in_body fe oe K p" and g: "gained p K (last oe) nd m"
    and b: "builds (brk (p_store p)) (K(last oe := K (last oe) @ [brk (p_store p)])) (grown_store p m) its K' s'"
  shows "builds (last oe) K (p_store p) [IT (brk (p_store p)) its] K' s'"
    and "payload (mem s' (brk (p_store p))) = payload nd"
proof -
  let ?b = "brk (p_store p)"
  have cur: "last oe < ?b" using in_bodyD(10) [OF p top_of_body(3) [OF p]] .
  have "K ?b = []" using untouched_kids [OF in_bodyD(8) [OF p]] in_bodyD(9) [OF p] by (simp add: untouched_def)
  then have kids: "K' ?b = map node_of its" using b cur by (simp add: builds_def)
  have pl: "payload (mem s' x) = payload (m x)" if "x \<le> ?b" for x using b that by (auto simp: builds_def)
  then show "payload (mem s' ?b) = payload nd" using gained_payload [OF g] by simp
  have "payload (mem s' x) = payload (the_mem p x)" if "x < ?b" for x
    using pl [of x] that gained_payload [OF g, of x] by simp
  with b kids cur show "builds (last oe) K (p_store p) [IT ?b its] K' s'"
    by (fastforce simp: builds_def)
qed

lemma leaf_built:
  assumes p: "in_body fe oe K p" and g: "gained p K (last oe) nd m"
  shows "builds (last oe) K (p_store p) [IT (brk (p_store p)) []] (K(last oe := K (last oe) @ [brk (p_store p)])) (grown_store p m)"
    and "payload (m (brk (p_store p))) = payload nd"
  using built_inside [OF p g built_nothing] by simp_all

lemma html_at_payload_node:
  "payload (m n) = payload (text_node d) \<Longrightarrow> html_at m (IT n ts) = HText d"
  "payload (m n) = payload (element_node a tag as) \<Longrightarrow> html_at m (IT n ts) = HElem tag as (map (html_at m) ts)"
  by (simp_all add: payload_def text_node_def element_node_def)

text \<open>The parser stays in the body.\<close>

lemma in_body_gained:
  assumes p: "in_body fe oe K p" and k: "kept p p'" and st: "p_store p' = grown_store p m" and g: "gained p K (last oe) nd m"
    and oe: "p_oe p' = map Some oe'" "oe' \<noteq> []" and fe: "p_afe p' = (case fe' of None \<Rightarrow> [] | Some a \<Rightarrow> [Some a])"
      "\<And>a. fe' = Some a \<Longrightarrow> a \<in> set oe'"
    and new: "set oe' \<subseteq> insert (brk (p_store p)) (set oe)"
      "brk (p_store p) \<in> set oe' \<Longrightarrow> Namespace nd = [] \<and> DataAtom nd \<notin> {a_P, a_Pre, a_Listing}"
  shows "in_body fe' oe' (K(last oe := K (last oe) @ [brk (p_store p)])) p'"
proof -
  let ?b = "brk (p_store p)"
  have "x < Suc ?b \<and> Namespace (m x) = [] \<and> DataAtom (m x) \<notin> {a_P, a_Pre, a_Listing}" if "x \<in> set oe'" for x
  proof (cases "x = ?b")
    case True
    then show ?thesis using gained_payload [OF g, of x] new(2) that by (simp add: payload_def)
  next
    case False
    then have x: "x \<in> set oe" using new(1) that by blast
    then show ?thesis
      using False gained_payload [OF g, of x] in_bodyD(10,11,12) [OF p x] by (simp add: payload_def)
  qed
  with p k st g oe fe show ?thesis by (simp add: in_body_def kept_def gained_def)
qed

lemma in_body_closed:
  assumes p: "in_body fe (xs @ [c]) K p" and "xs \<noteq> []" and k: "kept p p'" and st: "p_store p' = p_store p"
    and oe: "p_oe p' = map Some xs" and fe: "p_afe p' = (case fe' of None \<Rightarrow> [] | Some a \<Rightarrow> [Some a])"
      "\<And>a. fe' = Some a \<Longrightarrow> a \<in> set xs"
  shows "in_body fe' xs K p'"
  using assms by (auto simp: in_body_def kept_def)


section \<open>Reading plain HTML\<close>

lemma in_body_other [simp]:
  "in_body fe oe K (p\<lparr>p_hasSelfClosingToken := b\<rparr>) = in_body fe oe K p"
  "in_body fe oe K (p\<lparr>p_tokenizer := z\<rparr>) = in_body fe oe K p" "in_body fe oe K (p\<lparr>p_tok := t\<rparr>) = in_body fe oe K p"
  "in_body fe oe K (begun p) = in_body fe oe K p"
  by (simp_all add: in_body_def begun_def)

text \<open>From \<open>p\<close>, \<open>n\<close> rounds of the loop lead to \<open>p'\<close>, where \<open>ts\<close> have been added to the current node and \<open>s\<close> is left
  to be read.\<close>

definition takes :: "nat \<Rightarrow> nat option \<Rightarrow> nat list \<Rightarrow> (nat \<Rightarrow> nat list) \<Rightarrow> parser \<Rightarrow> string \<Rightarrow> html list \<Rightarrow> nat \<Rightarrow>
    parser \<Rightarrow> (nat \<Rightarrow> nat list) \<Rightarrow> itree list \<Rightarrow> bool" where
  "takes d fe oe K p s ts n p' K' its \<longleftrightarrow>
     (\<forall>k. parse_loop (Suc (Suc (Suc d))) (n + k) p = parse_loop (Suc (Suc (Suc d))) k p') \<and>
     in_body fe oe K' p' \<and> serves (p_tokenizer p') s EOF \<and> builds (last oe) K (p_store p) its K' (p_store p') \<and>
     map (html_at (the_mem p')) its = ts"

lemma takes_append:
  assumes 1: "takes d fe oe K p s' ts n p1 K1 its" and 2: "takes d fe oe K1 p1 s us k p2 K2 jts"
  shows "takes d fe oe K p s (ts @ us) (n + k) p2 K2 (its @ jts)"
  using assms built_append [of "last oe" K "p_store p" its K1 "p_store p1" jts K2 "p_store p2"]
  by (simp add: takes_def add.assoc)

lemma takes_no_text:
  assumes "takes d fe oe K p s [HElem tag as ks] n p' K' its"
  shows "last_no_text p' (K' (last oe))"
proof -
  obtain it where it: "its = [it]" "html_at (the_mem p') it = HElem tag as ks" using assms by (auto simp: takes_def)
  then have "NType (the_mem p' (node_of it)) = ElementNode" by (cases it) (auto split: NodeType.splits)
  moreover have "K' (last oe) = K (last oe) @ [node_of it]" using assms it by (simp add: takes_def builds_def)
  ultimately show ?thesis by (simp add: last_no_text_def)
qed

lemma takes_leaf:
  assumes p: "in_body fe oe K p" and z: "serves z s EOF"
    and step: "\<And>k. parse_loop (Suc (Suc (Suc d))) (Suc k) p = parse_loop (Suc (Suc (Suc d))) k (p'\<lparr>p_hasSelfClosingToken := False\<rparr>)"
    and q: "q = begun (p\<lparr>p_tokenizer := z, p_tok := t\<rparr>)" and k: "kept q p'" and st: "p_store p' = grown_store q m"
    and oe: "p_oe p' = p_oe q" and afe: "p_afe p' = p_afe q" and g: "gained q K (last oe) nd m"
    and h: "\<And>m n. payload (m n) = payload nd \<Longrightarrow> html_at m (IT n []) = h"
  shows "\<exists>K' it. takes d fe oe K p s [h] 1 (p'\<lparr>p_hasSelfClosingToken := False\<rparr>) K' [it]"
proof -
  let ?b = "brk (p_store p)"
  have qb: "in_body fe oe K q" and qs: "p_store q = p_store p" "p_tokenizer q = z" using p q by (simp_all add: begun_def)
  have b: "?b \<notin> set oe" using in_bodyD(10) [OF p, of ?b] by auto
  have "in_body fe oe (K(last oe := K (last oe) @ [?b])) p'"
    using in_body_gained [OF qb k st g, of oe fe] in_bodyD(4-7) [OF qb] oe afe b qs by auto
  moreover have "builds (last oe) K (p_store p) [IT ?b []] (K(last oe := K (last oe) @ [?b])) (p_store p')"
    using leaf_built(1) [OF qb g] st qs by simp
  moreover have "html_at (the_mem p') (IT ?b []) = h" using leaf_built(2) [OF qb g] h st qs by simp
  moreover have "p_tokenizer p' = z" using k qs by (simp add: kept_def)
  ultimately show ?thesis using step z unfolding takes_def by (intro exI [of _ "K(last oe := K (last oe) @ [?b])"] exI [of _ "IT ?b []"]) simp
qed

lemma takes_void:
  assumes p: "in_body fe oe K p" and z: "serves (p_tokenizer p) (x @ s) EOF" and x: "spelled (tag_token tt tag as) x"
    and tt: "tt = StartTagToken \<or> tt = SelfClosingTagToken" and a: "atom_of tag \<in> set voids"
  shows "\<exists>p' K' it. takes d fe oe K p s [HElem tag as []] 1 p' K' [it]"
proof -
  let ?t = "tag_token tt tag as"
  have "t_Type ?t = TextToken \<longrightarrow> text_ends s" using tt by (auto simp: tag_token_def)
  from loop_step [OF p z x this, of d] obtain z where z: "serves z s EOF"
    and step: "\<And>p' k. inBodyIM (run d) (begun (p\<lparr>p_tokenizer := z, p_tok := ?t\<rparr>)) = Inr (True, p') \<Longrightarrow>
      parse_loop (Suc (Suc (Suc d))) (Suc k) p = parse_loop (Suc (Suc (Suc d))) k (p'\<lparr>p_hasSelfClosingToken := False\<rparr>)" by blast
  define q where "q = begun (p\<lparr>p_tokenizer := z, p_tok := ?t\<rparr>)"
  have q: "in_body fe oe K q" "p_tok q = tag_token StartTagToken tag as"
    using p tt by (auto simp: q_def begun_def tag_token_def)
  from start_void_does [OF q a] obtain p' m where p': "inBodyIM (run d) q = Inr (True, p')" "kept q p'" "p_store p' = grown_store q m"
    "p_oe p' = p_oe q" "p_afe p' = p_afe q" "gained q K (last oe) (element_node (atom_of tag) tag as) m" by blast
  have "html_at m (IT n []) = HElem tag as []" if "payload (m n) = payload (element_node (atom_of tag) tag as)" for m n
    using html_at_payload_node(2) [of m n "atom_of tag" tag as "[]"] that by simp
  from takes_leaf [OF p z step q_def p'(2-6) this] p'(1) show ?thesis unfolding q_def by blast
qed

lemma takes_text:
  assumes p: "in_body fe oe K p" and z: "serves (p_tokenizer p) (x @ s) EOF" and x: "spelled (text_token d) x"
    and d: "d \<noteq> []" "NUL \<notin> set d" and s: "text_ends s" and l: "last_no_text p (K (last oe))"
  shows "\<exists>p' K' it. takes e fe oe K p s [HText d] 1 p' K' [it]"
proof -
  from loop_step [OF p z x, of e] s obtain z where z: "serves z s EOF"
    and step: "\<And>p' k. inBodyIM (run e) (begun (p\<lparr>p_tokenizer := z, p_tok := text_token d\<rparr>)) = Inr (True, p') \<Longrightarrow>
      parse_loop (Suc (Suc (Suc e))) (Suc k) p = parse_loop (Suc (Suc (Suc e))) k (p'\<lparr>p_hasSelfClosingToken := False\<rparr>)" by blast
  define q where "q = begun (p\<lparr>p_tokenizer := z, p_tok := text_token d\<rparr>)"
  have q: "in_body fe oe K q" "p_tok q = text_token d" "last_no_text q (K (last oe))"
    using p l by (auto simp: q_def begun_def text_token_def last_no_text_def)
  from text_does [OF q(1,2) d q(3)] obtain p' m where p': "inBodyIM (run e) q = Inr (True, p')" "kept q p'" "p_store p' = grown_store q m"
    "p_oe p' = p_oe q" "p_afe p' = p_afe q" "gained q K (last oe) (text_node d) m" by blast
  have "html_at m (IT n []) = HText d" if "payload (m n) = payload (text_node d)" for m n
    using html_at_payload_node(1) [of m n d "[]"] that by simp
  from takes_leaf [OF p z step q_def p'(2-6) this] p'(1) show ?thesis unfolding q_def by blast
qed


text \<open>An element with content: the loop goes into it and comes out again.\<close>

lemma takes_around:
  assumes p: "in_body fe oe K p" and q: "q = begun (p\<lparr>p_tokenizer := z, p_tok := t\<rparr>)"
    and step: "\<And>k. parse_loop (Suc (Suc (Suc d))) (Suc k) p = parse_loop (Suc (Suc (Suc d))) k p1"
    and st: "p_store p1 = grown_store q m" and g: "gained q K (last oe) (element_node a tag as) m"
    and inner: "takes d fe' (oe @ [brk (p_store p)]) (K(last oe := K (last oe) @ [brk (p_store p)])) p1 s' ks n p2 K2 its"
    and close: "\<And>k. parse_loop (Suc (Suc (Suc d))) (Suc k) p2 = parse_loop (Suc (Suc (Suc d))) k p3"
    and out: "in_body fe oe K2 p3" "p_store p3 = p_store p2" "serves (p_tokenizer p3) s EOF"
  shows "takes d fe oe K p s [HElem tag as ks] (n + 2) p3 K2 [IT (brk (p_store p)) its]"
proof -
  let ?b = "brk (p_store p)"
  have qb: "in_body fe oe K q" and qs: "p_store q = p_store p" using p q by (simp_all add: begun_def)
  have b: "builds ?b (K(last oe := K (last oe) @ [?b])) (grown_store p m) its K2 (p_store p2)"
    and ks: "map (html_at (the_mem p2)) its = ks"
    using inner st qs by (simp_all add: takes_def)
  note inside = built_inside [OF qb g, unfolded qs, OF b]
  have "html_at (the_mem p2) (IT ?b its) = HElem tag as ks"
    using html_at_payload_node(2) [of "the_mem p2" ?b a tag as its] inside(2) ks by simp
  moreover have "parse_loop (Suc (Suc (Suc d))) (n + 2 + k) p = parse_loop (Suc (Suc (Suc d))) k p3" for k
  proof -
    have "parse_loop (Suc (Suc (Suc d))) (n + 2 + k) p = parse_loop (Suc (Suc (Suc d))) (n + Suc k) p1" using step [of "n + Suc k"] by simp
    also have "\<dots> = parse_loop (Suc (Suc (Suc d))) (Suc k) p2" using inner unfolding takes_def by blast
    finally show ?thesis using close by simp
  qed
  ultimately show ?thesis using out inside(1) unfolding takes_def by (simp del: parse_loop.simps html_at.simps)
qed


text \<open>The element \<open>b\<close> that a start tag has opened is closed by its end tag.\<close>

lemma closing:
  assumes p: "in_body fe (oe @ [b]) K p" and z: "serves (p_tokenizer p) ((''</'' @ tag @ ''>'') @ s) EOF"
    and x: "spelled (tag_token StartTagToken tag as) x"
    and does: "\<And>q R. in_body fe (oe @ [b]) K q \<Longrightarrow> p_store q = p_store p \<Longrightarrow> p_tok q = tag_token EndTagToken tag [] \<Longrightarrow>
      \<exists>p'. inBodyIM R q = Inr (True, p') \<and> kept q p' \<and> p_store p' = p_store q \<and> p_oe p' = map Some oe \<and>
        p_afe p' = (case fe' of None \<Rightarrow> [] | Some a \<Rightarrow> [Some a])"
    and oe: "oe \<noteq> []" "\<And>a. fe' = Some a \<Longrightarrow> a \<in> set oe"
  shows "\<exists>p'. (\<forall>k. parse_loop (Suc (Suc (Suc d))) (Suc k) p = parse_loop (Suc (Suc (Suc d))) k p') \<and>
    in_body fe' oe K p' \<and> p_store p' = p_store p \<and> serves (p_tokenizer p') s EOF"
proof -
  let ?t = "tag_token EndTagToken tag []"
  have "t_Type ?t = TextToken \<longrightarrow> text_ends s" by (simp add: tag_token_def)
  from loop_step [OF p z end_tag_spelled [OF x] this, of d] obtain z where z: "serves z s EOF"
    and step: "\<And>p' k. inBodyIM (run d) (begun (p\<lparr>p_tokenizer := z, p_tok := ?t\<rparr>)) = Inr (True, p') \<Longrightarrow>
      parse_loop (Suc (Suc (Suc d))) (Suc k) p = parse_loop (Suc (Suc (Suc d))) k (p'\<lparr>p_hasSelfClosingToken := False\<rparr>)" by blast
  define q where "q = p\<lparr>p_tokenizer := z, p_tok := ?t\<rparr>"
  have q: "in_body fe (oe @ [b]) K q" "p_store q = p_store p" "p_tok q = ?t" "begun q = q" "p_tokenizer q = z"
    using p by (simp_all add: q_def begun_def tag_token_def)
  from does [OF q(1-3), of "run d"] obtain p' where p': "inBodyIM (run d) q = Inr (True, p')" "kept q p'" "p_store p' = p_store q"
    "p_oe p' = map Some oe" "p_afe p' = (case fe' of None \<Rightarrow> [] | Some a \<Rightarrow> [Some a])" by blast
  have "in_body fe' oe K p'" using in_body_closed [OF q(1) oe(1) p'(2-5) oe(2)] .
  moreover have "p_tokenizer p' = z" using p'(2) q(5) by (simp add: kept_def)
  ultimately show ?thesis
    using step [folded q_def, unfolded q(4), OF p'(1)] p'(3) q(2) z
    by (intro exI [of _ "p'\<lparr>p_hasSelfClosingToken := False\<rparr>"]) simp
qed

lemma class_not_special:
  "a \<in> set blocks \<or> ordinary a \<or> a \<in> set formats \<Longrightarrow> a \<notin> {a_P, a_Pre, a_Listing}"
proof -
  have "list_all (\<lambda>a. a \<notin> set [a_P, a_Pre, a_Listing]) (blocks @ formats)" by code_simp
  then have "a \<in> set blocks \<or> a \<in> set formats \<Longrightarrow> a \<notin> set [a_P, a_Pre, a_Listing]" by (auto simp only: list_all_iff set_append)
  moreover have "ordinary a \<Longrightarrow> a \<notin> set [a_P, a_Pre, a_Listing]" by (simp add: ordinary_def treated_def)
  ultimately show "a \<in> set blocks \<or> ordinary a \<or> a \<in> set formats \<Longrightarrow> a \<notin> {a_P, a_Pre, a_Listing}" by auto
qed

text \<open>Opening an element, which may be a formatting element, reading its content, closing it.\<close>

lemma takes_nested:
  assumes p: "in_body fe oe K p" and z: "serves (p_tokenizer p) (x @ v @ ''</'' @ tag @ ''>'' @ s) EOF"
    and x: "spelled (tag_token StartTagToken tag as) x"
    and atom: "atom_of tag \<notin> {a_P, a_Pre, a_Listing}" and fe': "fe' = fe \<or> fe' = Some (brk (p_store p))"
    and opens: "\<And>q R. in_body fe oe K q \<Longrightarrow> p_store q = p_store p \<Longrightarrow> p_tok q = tag_token StartTagToken tag as \<Longrightarrow>
      \<exists>p' m. inBodyIM R q = Inr (True, p') \<and> kept q p' \<and> p_store p' = grown_store q m \<and>
        p_oe p' = p_oe q @ [Some (brk (p_store q))] \<and> p_afe p' = (case fe' of None \<Rightarrow> [] | Some a \<Rightarrow> [Some a]) \<and>
        gained q K (last oe) (element_node (atom_of tag) tag as) m"
    and inner: "\<And>K1 p1. in_body fe' (oe @ [brk (p_store p)]) K1 p1 \<Longrightarrow> K1 (brk (p_store p)) = [] \<Longrightarrow>
      serves (p_tokenizer p1) (v @ ''</'' @ tag @ ''>'' @ s) EOF \<Longrightarrow>
      \<exists>n p2 K2 its. n \<le> length v \<and> takes d fe' (oe @ [brk (p_store p)]) K1 p1 (''</'' @ tag @ ''>'' @ s) ks n p2 K2 its"
    and closes: "\<And>q K2 R. payload (the_mem q (brk (p_store p))) = payload (element_node (atom_of tag) tag as) \<Longrightarrow>
      in_body fe' (oe @ [brk (p_store p)]) K2 q \<Longrightarrow> p_tok q = tag_token EndTagToken tag [] \<Longrightarrow>
      \<exists>p'. inBodyIM R q = Inr (True, p') \<and> kept q p' \<and> p_store p' = p_store q \<and> p_oe p' = map Some oe \<and>
        p_afe p' = (case fe of None \<Rightarrow> [] | Some a \<Rightarrow> [Some a])"
  shows "\<exists>n p' K' it. n \<le> length v + 2 \<and> takes d fe oe K p s [HElem tag as ks] n p' K' [it]"
proof -
  let ?b = "brk (p_store p)" and ?t = "tag_token StartTagToken tag as"
  let ?K = "K(last oe := K (last oe) @ [?b])"
  have "t_Type ?t = TextToken \<longrightarrow> text_ends (v @ ''</'' @ tag @ ''>'' @ s)" by (simp add: tag_token_def)
  from loop_step [OF p z x this, of d] obtain z where z: "serves z (v @ ''</'' @ tag @ ''>'' @ s) EOF"
    and step: "\<And>p' k. inBodyIM (run d) (begun (p\<lparr>p_tokenizer := z, p_tok := ?t\<rparr>)) = Inr (True, p') \<Longrightarrow>
      parse_loop (Suc (Suc (Suc d))) (Suc k) p = parse_loop (Suc (Suc (Suc d))) k (p'\<lparr>p_hasSelfClosingToken := False\<rparr>)" by blast
  define q where "q = begun (p\<lparr>p_tokenizer := z, p_tok := ?t\<rparr>)"
  have q: "in_body fe oe K q" "p_store q = p_store p" "p_tok q = ?t" "p_tokenizer q = z"
    using p by (simp_all add: q_def begun_def tag_token_def)
  from opens [OF q(1-3), of "run d"] obtain p0 m where p0: "inBodyIM (run d) q = Inr (True, p0)" "kept q p0" "p_store p0 = grown_store q m"
    "p_oe p0 = p_oe q @ [Some (brk (p_store q))]" "p_afe p0 = (case fe' of None \<Rightarrow> [] | Some a \<Rightarrow> [Some a])"
    and g: "gained q K (last oe) (element_node (atom_of tag) tag as) m" by blast
  define p1 where "p1 = p0\<lparr>p_hasSelfClosingToken := False\<rparr>"
  have b1: "in_body fe' (oe @ [?b]) ?K p0"
    using in_body_gained [OF q(1) p0(2,3) g, of "oe @ [?b]" fe'] p0(4,5) in_bodyD(4,7) [OF q(1)] q(2) fe' atom
    by (auto simp: element_node_def new_Node_def)
  have "K ?b = []" using untouched_kids [OF in_bodyD(8) [OF p]] in_bodyD(9) [OF p] by (simp add: untouched_def)
  moreover have "last oe \<noteq> ?b" using in_bodyD(10) [OF p top_of_body(3) [OF p]] by simp
  ultimately have K1: "?K ?b = []" by simp
  have z1: "serves (p_tokenizer p1) (v @ ''</'' @ tag @ ''>'' @ s) EOF" using p0(2) q(4) z by (simp add: p1_def kept_def)
  have "in_body fe' (oe @ [?b]) ?K p1" using b1 by (simp add: p1_def)
  from inner [OF this K1 z1] obtain n p2 K2 its where n: "n \<le> length v"
    and in2: "takes d fe' (oe @ [?b]) ?K p1 (''</'' @ tag @ ''>'' @ s) ks n p2 K2 its" by blast
  have p2: "in_body fe' (oe @ [?b]) K2 p2" "serves (p_tokenizer p2) ((''</'' @ tag @ ''>'') @ s) EOF"
    and bu: "builds ?b ?K (grown_store p m) its K2 (p_store p2)"
    using in2 p0(3) q(2) by (simp_all add: takes_def p1_def)
  have pl: "payload (the_mem p2 ?b) = payload (element_node (atom_of tag) tag as)"
    using built_inside(2) [OF q(1) g, unfolded q(2), OF bu] .
  have "\<exists>p'. (\<forall>k. parse_loop (Suc (Suc (Suc d))) (Suc k) p2 = parse_loop (Suc (Suc (Suc d))) k p') \<and>
      in_body fe oe K2 p' \<and> p_store p' = p_store p2 \<and> serves (p_tokenizer p') s EOF"
  proof (rule closing [OF p2 x])
    fix q R assume "in_body fe' (oe @ [?b]) K2 q" "p_store q = p_store p2" "p_tok q = tag_token EndTagToken tag []"
    with closes [of q K2 R] pl show "\<exists>p'. inBodyIM R q = Inr (True, p') \<and> kept q p' \<and> p_store p' = p_store q \<and>
        p_oe p' = map Some oe \<and> p_afe p' = (case fe of None \<Rightarrow> [] | Some a \<Rightarrow> [Some a])" by simp
  qed (use in_bodyD(5,7) [OF p] in auto)
  then obtain p3 where
    p3: "\<forall>k. parse_loop (Suc (Suc (Suc d))) (Suc k) p2 = parse_loop (Suc (Suc (Suc d))) k p3" "in_body fe oe K2 p3"
    "p_store p3 = p_store p2" "serves (p_tokenizer p3) s EOF" by blast
  have "takes d fe oe K p s [HElem tag as ks] (n + 2) p3 K2 [IT ?b its]"
    using p q_def step [folded q_def, OF p0(1), folded p1_def] _ g in2 _ p3(2-4)
    by (rule takes_around) (use p0(3) p3(1) in \<open>simp_all add: p1_def\<close>)
  with n show ?thesis by (intro exI [of _ "n + 2"]) auto
qed


lemma takes_element:
  assumes p: "in_body fe oe K p" and z: "serves (p_tokenizer p) (x @ v @ ''</'' @ tag @ ''>'' @ s) EOF"
    and x: "spelled (tag_token StartTagToken tag as) x" and a: "atom_of tag \<in> set blocks \<or> ordinary (atom_of tag)"
    and inner: "\<And>K1 p1. in_body fe (oe @ [brk (p_store p)]) K1 p1 \<Longrightarrow> K1 (brk (p_store p)) = [] \<Longrightarrow>
      serves (p_tokenizer p1) (v @ ''</'' @ tag @ ''>'' @ s) EOF \<Longrightarrow>
      \<exists>n p2 K2 its. n \<le> length v \<and> takes d fe (oe @ [brk (p_store p)]) K1 p1 (''</'' @ tag @ ''>'' @ s) ks n p2 K2 its"
  shows "\<exists>n p' K' it. n \<le> length v + 2 \<and> takes d fe oe K p s [HElem tag as ks] n p' K' [it]"
proof (rule takes_nested [OF p z x, where fe' = fe])
  show "atom_of tag \<notin> {a_P, a_Pre, a_Listing}" using class_not_special a by blast
  fix q R
  show "\<exists>p' m. inBodyIM R q = Inr (True, p') \<and> kept q p' \<and> p_store p' = grown_store q m \<and>
      p_oe p' = p_oe q @ [Some (brk (p_store q))] \<and> p_afe p' = (case fe of None \<Rightarrow> [] | Some a \<Rightarrow> [Some a]) \<and>
      gained q K (last oe) (element_node (atom_of tag) tag as) m"
    if "in_body fe oe K q" "p_tok q = tag_token StartTagToken tag as"
    using start_element_does [OF that a, of R] in_bodyD(6) [OF that(1)] by auto
  fix K2
  show "\<exists>p'. inBodyIM R q = Inr (True, p') \<and> kept q p' \<and> p_store p' = p_store q \<and> p_oe p' = map Some oe \<and>
      p_afe p' = (case fe of None \<Rightarrow> [] | Some a \<Rightarrow> [Some a])"
    if "payload (the_mem q (brk (p_store p))) = payload (element_node (atom_of tag) tag as)"
      "in_body fe (oe @ [brk (p_store p)]) K2 q" "p_tok q = tag_token EndTagToken tag []"
    using end_element_does [OF that(2,3) _ a, of R] that(1) in_bodyD(6) [OF that(2)]
    by (auto simp: payload_def element_node_def)
qed (use inner in auto)

lemma takes_format:
  assumes p: "in_body None oe K p" and z: "serves (p_tokenizer p) (x @ v @ ''</'' @ tag @ ''>'' @ s) EOF"
    and x: "spelled (tag_token StartTagToken tag as) x" and a: "atom_of tag \<in> set formats" "tag \<notin> set isSpecialElementMap"
    and inner: "\<And>K1 p1. in_body (Some (brk (p_store p))) (oe @ [brk (p_store p)]) K1 p1 \<Longrightarrow> K1 (brk (p_store p)) = [] \<Longrightarrow>
      serves (p_tokenizer p1) (v @ ''</'' @ tag @ ''>'' @ s) EOF \<Longrightarrow>
      \<exists>n p2 K2 its. n \<le> length v \<and>
        takes d (Some (brk (p_store p))) (oe @ [brk (p_store p)]) K1 p1 (''</'' @ tag @ ''>'' @ s) ks n p2 K2 its"
  shows "\<exists>n p' K' it. n \<le> length v + 2 \<and> takes d None oe K p s [HElem tag as ks] n p' K' [it]"
proof (rule takes_nested [OF p z x, where fe' = "Some (brk (p_store p))"])
  show "atom_of tag \<notin> {a_P, a_Pre, a_Listing}" using class_not_special a(1) by blast
  fix q R
  show "\<exists>p' m. inBodyIM R q = Inr (True, p') \<and> kept q p' \<and> p_store p' = grown_store q m \<and>
      p_oe p' = p_oe q @ [Some (brk (p_store q))] \<and>
      p_afe p' = (case Some (brk (p_store p)) of None \<Rightarrow> [] | Some a \<Rightarrow> [Some a]) \<and>
      gained q K (last oe) (element_node (atom_of tag) tag as) m"
    if "in_body None oe K q" "p_store q = p_store p" "p_tok q = tag_token StartTagToken tag as"
    using start_format_does [OF that(1,3) a(1), of R] that(2) by auto
  fix K2
  show "\<exists>p'. inBodyIM R q = Inr (True, p') \<and> kept q p' \<and> p_store p' = p_store q \<and> p_oe p' = map Some oe \<and>
      p_afe p' = (case None of None \<Rightarrow> [] | Some a \<Rightarrow> [Some a])"
    if "payload (the_mem q (brk (p_store p))) = payload (element_node (atom_of tag) tag as)"
      "in_body (Some (brk (p_store p))) (oe @ [brk (p_store p)]) K2 q" "p_tok q = tag_token EndTagToken tag []"
    using end_format_does [OF that(2,3) _ _ _ a, of R] that(1) by (auto simp: payload_def element_node_def)
qed (use inner in auto)

lemma spelled_nonempty: "spelled t x \<Longrightarrow> 1 \<le> length x"
proof (cases "t_Type t = TextToken")
  case False
  assume "spelled t x"
  then show ?thesis using False by (rule spelled_markup) simp
qed (auto simp: spelled_def Suc_le_eq)

lemma takes_cons:
  assumes "n \<le> j" and "takes d fe oe K p s' [h] n p1 K1 [it]"
    and "\<exists>k p' K' its. k \<le> l \<and> takes d fe oe K1 p1 s ts k p' K' its"
  shows "\<exists>n p' K' its. n \<le> j + l \<and> takes d fe oe K p s (h # ts) n p' K' its"
proof -
  from assms(3) obtain k p' K' its where "k \<le> l" and "takes d fe oe K1 p1 s ts k p' K' its" by blast
  from takes_append [OF assms(2) this(2)] this(1) assms(1) show ?thesis by (intro exI [of _ "n + k"]) auto
qed

lemma written_taken:
  "written f ts w \<Longrightarrow> f = (fe \<noteq> None) \<Longrightarrow> in_body fe oe K p \<Longrightarrow> serves (p_tokenizer p) (w @ s) EOF \<Longrightarrow> text_ends s \<Longrightarrow>
   (starts_with_text ts \<Longrightarrow> last_no_text p (K (last oe))) \<Longrightarrow>
   \<exists>n p' K' its. n \<le> length w \<and> takes d fe oe K p s ts n p' K' its"
proof (induction arbitrary: fe oe K p s rule: written.induct)
  case (w_nothing f)
  have "takes d fe oe K p s [] 0 p K []"
    using w_nothing in_bodyD(10) [OF w_nothing(2) top_of_body(3) [OF w_nothing(2)]] by (simp add: takes_def built_nothing)
  then show ?case by auto
next
  case (w_text e x f ts w)
  have ends: "text_ends (w @ s)" using written_ends_text [OF w_text(4,5) w_text.prems(4)] .
  have z: "serves (p_tokenizer p) (x @ (w @ s)) EOF" using w_text.prems(3) by simp
  from takes_text [OF w_text.prems(2) z w_text(1-3) ends, of d] w_text.prems(5) obtain p1 K1 it where
    1: "takes d fe oe K p (w @ s) [HText e] 1 p1 K1 [it]" by (auto simp: starts_with_text_def)
  then have "\<exists>k p' K' its. k \<le> length w \<and> takes d fe oe K1 p1 s ts k p' K' its"
    using w_text.prems(1,4) w_text.hyps(5) by (intro w_text.IH) (simp_all add: takes_def)
  from takes_cons [OF spelled_nonempty [OF w_text(1)] 1 this] show ?case by simp
next
  case (w_void tt tag as x f ts w)
  have z: "serves (p_tokenizer p) (x @ (w @ s)) EOF" using w_void.prems(3) by simp
  from takes_void [OF w_void.prems(2) z w_void(2,1,3), of d] obtain p1 K1 it where
    1: "takes d fe oe K p (w @ s) [HElem tag as []] 1 p1 K1 [it]" by blast
  then have "\<exists>k p' K' its. k \<le> length w \<and> takes d fe oe K1 p1 s ts k p' K' its"
    using w_void.prems(1,4) takes_no_text [OF 1] by (intro w_void.IH) (simp_all add: takes_def)
  from takes_cons [OF spelled_nonempty [OF w_void(2)] 1 this] show ?case by simp
next
  case (w_element tag as x f ks v ts w)
  let ?b = "brk (p_store p)"
  have z: "serves (p_tokenizer p) (x @ v @ ''</'' @ tag @ ''>'' @ (w @ s)) EOF" using w_element.prems(3) by simp
  have "\<exists>n p' K' it. n \<le> length v + 2 \<and> takes d fe oe K p (w @ s) [HElem tag as ks] n p' K' [it]"
  proof (rule takes_element [OF w_element.prems(2) z w_element(1,2)])
    fix K1 p1
    assume "in_body fe (oe @ [?b]) K1 p1" "K1 ?b = []" "serves (p_tokenizer p1) (v @ ''</'' @ tag @ ''>'' @ w @ s) EOF"
    then show "\<exists>n p2 K2 its. n \<le> length v \<and> takes d fe (oe @ [?b]) K1 p1 (''</'' @ tag @ ''>'' @ w @ s) ks n p2 K2 its"
      using w_element.prems(1) by (intro w_element.IH(1)) (auto simp: text_ends_def token_start_def last_no_text_def)
  qed
  then obtain n p1 K1 it where n: "n \<le> length v + 2" and 1: "takes d fe oe K p (w @ s) [HElem tag as ks] n p1 K1 [it]" by blast
  then have "\<exists>k p' K' its. k \<le> length w \<and> takes d fe oe K1 p1 s ts k p' K' its"
    using w_element.prems(1,4) takes_no_text [OF 1] by (intro w_element.IH(2)) (simp_all add: takes_def)
  moreover have "n \<le> length (x @ v @ ''</'' @ tag @ ''>'')" using n by simp
  ultimately have "\<exists>k p' K' its. k \<le> length (x @ v @ ''</'' @ tag @ ''>'') + length w \<and> takes d fe oe K p s (HElem tag as ks # ts) k p' K' its"
    using takes_cons [OF _ 1] by blast
  then show ?case by (simp only: length_append add.assoc)
next
  case (w_formatting tag as x ks v ts w)
  let ?b = "brk (p_store p)"
  have fe: "fe = None" using w_formatting.prems(1) by simp
  have z: "serves (p_tokenizer p) (x @ v @ ''</'' @ tag @ ''>'' @ (w @ s)) EOF" using w_formatting.prems(3) by simp
  have "\<exists>n p' K' it. n \<le> length v + 2 \<and> takes d None oe K p (w @ s) [HElem tag as ks] n p' K' [it]"
  proof (rule takes_format [OF w_formatting.prems(2) [unfolded fe] z w_formatting(1-3)])
    fix K1 p1
    assume "in_body (Some ?b) (oe @ [?b]) K1 p1" "K1 ?b = []" "serves (p_tokenizer p1) (v @ ''</'' @ tag @ ''>'' @ w @ s) EOF"
    then show "\<exists>n p2 K2 its. n \<le> length v \<and> takes d (Some ?b) (oe @ [?b]) K1 p1 (''</'' @ tag @ ''>'' @ w @ s) ks n p2 K2 its"
      by (intro w_formatting.IH(1)) (auto simp: text_ends_def token_start_def last_no_text_def)
  qed
  then obtain n p1 K1 it where n: "n \<le> length v + 2" and 1: "takes d None oe K p (w @ s) [HElem tag as ks] n p1 K1 [it]" by blast
  then have "\<exists>k p' K' its. k \<le> length w \<and> takes d None oe K1 p1 s ts k p' K' its"
    using w_formatting.prems(4) takes_no_text [OF 1] by (intro w_formatting.IH(2)) (simp_all add: takes_def)
  moreover have "n \<le> length (x @ v @ ''</'' @ tag @ ''>'')" using n by simp
  ultimately have "\<exists>k p' K' its. k \<le> length (x @ v @ ''</'' @ tag @ ''>'') + length w \<and> takes d None oe K p s (HElem tag as ks # ts) k p' K' its"
    using takes_cons [OF _ 1] by blast
  then show ?case by (simp only: fe length_append add.assoc)
qed

end
