(* ===== verification/Html_Parser_Fragment.thy ===== *)
theory Html_Parser_Fragment
  imports Html_Parser_Plain
begin

text \<open>
  \<open>ParseFragment\<close> on plain HTML, in the context of a \<open>div\<close> element as \<open>jsx.HTML\<close> calls it: the
  start of the parser, the end of the input, and the children taken off the root.
\<close>

section \<open>Names and their atoms\<close>

lemma declared_name: "(i, a) \<in> set atom_constants \<Longrightarrow> atom_name a = name_at (uint a)"
  using atom_constants_ok name_at_eq [of a] by (force simp: list_all_iff Html_Atom.name_ok_def)

lemma name_at_declared:
  assumes "name_at (uint a) = s" and "(i, a) \<in> set atom_constants"
  shows "atom_of s = a" and "atom_of t = a \<Longrightarrow> t = s" and "Lookup s = Inr a" and "Atom_String a = Inr s"
proof -
  have s: "atom_name a = s" using declared_name assms by metis
  have m: "map_of declared_atoms t = Some a \<longleftrightarrow> t = s" for t
    using declared_atoms_iff [of t a] assms(2) s by force
  have "s \<noteq> []" "length s = unat (atom_len a)" using declared(1,2) [OF assms(2)] s by simp_all
  then have "a \<noteq> 0" by (auto simp: atom_len_def)
  then show "atom_of t = a \<Longrightarrow> t = s" using m [of t] by (auto simp: atom_of_def split: option.splits)
  show "atom_of s = a" "Lookup s = Inr a" using m [of s] by (simp_all add: atom_of_def Lookup_declared)
  show "Atom_String a = Inr s" using declared(6) [OF assms(2)] s by simp
qed

lemma div_atom: "atom_of ''div'' = a_Div" "Lookup ''div'' = Inr a_Div" "Atom_String a_Div = Inr ''div''"
proof -
  have "name_at (uint a_Div) = ''div''" by code_simp
  moreover have "(''Div'', a_Div) \<in> set atom_constants" using declared_in_subset [OF atoms_declared] by simp
  ultimately show "atom_of ''div'' = a_Div" "Lookup ''div'' = Inr a_Div" "Atom_String a_Div = Inr ''div''"
    by (rule name_at_declared(1,3,4))+
qed

section \<open>The end of the input\<close>

lemma all_closable_returns: "\<exists>b. all_closable m (map Some xs) = Inr b"
  by (induction xs) auto

lemma tokens_end:
  assumes "serves z [] e"
  obtains z1 z2 where "Next z = Inr z1" and "Tokenizer_Token z1 = Inr (no_token, z2)" and "Err z2 = Some e"
proof -
  from assms obtain z' where r: "read_tokens 1 z = Inr ([([], no_token)], z')" "Err z' = Some e"
    using read_tokens_stop [of z] by (auto simp: serves_def)
  from r(1) obtain z1 raw t z2 where "Next z = Inr z1" "Tokenizer_Token z1 = Inr (t, z2)" "t = no_token" "z2 = z'"
    by (auto simp: go_bind_Inr_iff split: if_splits)
  with r(2) that show thesis by blast
qed

lemma loop_end:
  assumes p: "in_body fe oe K p" and z: "serves (p_tokenizer p) [] EOF"
  shows "\<exists>p'. parse_loop (Suc (Suc (Suc d))) (Suc k) p = Inr (None, p') \<and> p_store p' = p_store p"
proof -
  have "serves (AllowCDATA False (p_tokenizer p)) [] EOF" using z by simp
  then obtain z1 z2 where z1: "Next (AllowCDATA False (p_tokenizer p)) = Inr z1"
    "Tokenizer_Token z1 = Inr (no_token, z2)" "Err z2 = Some EOF" by (rule tokens_end)
  let ?p = "p\<lparr>p_tokenizer := z2, p_tok := no_token\<rparr>"
  have nt: "next_token p = Inr (no_token, ?p)"
    using z1 top_of_body(1) [OF p] in_bodyD(11) [OF p top_of_body(3) [OF p]] by (simp add: next_token_def run_simps)
  have ib: "in_body fe oe K ?p" using p by simp
  have ty: "t_Type no_token = ErrorToken" by (simp add: no_token_def)
  obtain b where "all_closable (the_mem p) (p_oe p) = Inr b"
    using all_closable_returns in_bodyD(4) [OF p] by metis
  then have "inBodyIM (run d) (begun ?p) = Inr (True, ?p)"
    using in_bodyD(3) [OF p] by (simp add: begun_def inBodyIM_def body_eof_def run_simps ty)
  from current_in_body [OF ib this] show ?thesis
    using nt z1(3) by (simp add: run_simps ty del: run.simps)
qed

section \<open>The start\<close>

lemma start_fragment_in_body:
  assumes "untouched (mem s) (brk s)" and wf: "wf_dom (mem s) K" and n: "n < brk s" and nd: "mem s n = dummy_div"
  shows "\<exists>p. start_fragment (Some n) (new_parser u s z) = Inr ((), p) \<and> p_tokenizer p = z \<and>
    in_body None [brk s + 1] (K(brk s := [brk s + 1])) p \<and> (K(brk s := [brk s + 1])) (brk s + 1) = []"
proof -
  let ?b = "brk s" and ?m = "(mem s)(brk s := document_node)" and ?html = "element_node a_Html ''html'' []"
  have b: "mem s ?b = new_Node" "mem s (Suc ?b) = new_Node" using assms(1) by (simp_all add: untouched_def)
  have wf1: "wf_dom ?m K" by (rule wf_dom_new [OF wf b(1)]) (simp add: document_node_def no_links_def new_Node_def)
  have un: "untouched ?m (Suc ?b)" using assms(1) by (simp add: untouched_def)
  have "no_links ?html" by (simp add: element_node_def no_links_def new_Node_def)
  then obtain m where m: "AppendChild ?b (Suc ?b) (?m(Suc ?b := ?html)) = Inr m"
      "wf_dom m (K(?b := K ?b @ [Suc ?b]))" "untouched m (Suc (Suc ?b))" "same_payload (?m(Suc ?b := ?html)) m"
    using new_child [OF wf1 un, of ?b] by blast
  have K: "K ?b = []" "K (Suc ?b) = []" using untouched_kids [OF wf] b by blast+
  have atom: "DataAtom (m n) = a_Div" "DataAtom (m (Suc ?b)) = a_Html" "Namespace (m (Suc ?b)) = []"
    using m(4) n nd by (simp_all add: same_payload_def element_node_def new_Node_def dummy_div_def)
  have par: "Parent (m n) = None"
  proof -
    have "detached (mem s) n" by (simp add: detached_def nd dummy_div_def new_Node_def)
    then have "detached m n" using wf_dom_detached [OF wf, of n] wf_dom_detached [OF m(2), of n] K n by auto
    then show ?thesis by (simp add: detached_def)
  qed
  have mode: "reset_mode a_Div p = None" for p by (simp add: reset_mode_def)
  show ?thesis
    using m K par by (simp add: start_fragment_def run_simps alloc_def new_parser_def append_child_def in_mem_def
      set_oe_def atom_at_def node_at_def resetInsertionMode_def set_im_def Let_def set_form_def atom mode in_body_def)
qed

section \<open>The children of the root\<close>

lemma take_children_wf:
  "wf_dom m K \<Longrightarrow> length (K n) \<le> f \<Longrightarrow>
   \<exists>m'. take_children f n (first_of (K n) None) m = Inr (K n, m') \<and> wf_dom m' (K(n := [])) \<and> same_payload m m'"
proof (induction "K n" arbitrary: m K f)
  case Nil
  then have "K(n := []) = K" by (simp add: fun_upd_idem)
  with Nil show ?case by (metis first_of_simps(1) same_payload_refl take_children.simps(1))
next
  case (Cons c cs)
  obtain m1 where m1: "RemoveChild n c m = Inr m1" "wf_dom m1 (K(n := remove1 c (K n)))" "same_payload m m1"
    using RemoveChild_wf [OF Cons.prems(1), of c n] Cons.hyps(2) by (metis list.set_intros(1))
  have K: "K n = c # cs" and K1: "K(n := remove1 c (K n)) = K(n := cs)" using Cons.hyps(2) [symmetric] by simp_all
  obtain g where f: "f = Suc g" "length cs \<le> g" using Cons.prems(2) K by (cases f) auto
  have sib: "NextSibling (m c) = first_of cs None" using wf_dom_node(5) [OF Cons.prems(1), of n] K by simp
  have "\<exists>m'. take_children g n (first_of ((K(n := cs)) n) None) m1 = Inr ((K(n := cs)) n, m') \<and>
      wf_dom m' (K(n := cs, n := [])) \<and> same_payload m1 m'"
    using Cons.hyps(1) [of "K(n := cs)" m1 g] m1(2) f(2) unfolding K1 by simp
  then obtain m' where "take_children g n (first_of cs None) m1 = Inr (cs, m')" "wf_dom m' (K(n := []))"
      "same_payload m1 m'" by auto
  with m1 f sib K show ?case by (auto intro: same_payload_trans)
qed

lemma fragment_reader: "serves (NewTokenizerFragment (strings_NewReader w) ''div'') w EOF"
proof -
  have "patient_reader (strings_NewReader w)" by (simp add: patient_reader_def strings_NewReader_def)
  then have "wf_tok (NewTokenizerFragment (strings_NewReader w) ''div'')" by (rule wf_NewTokenizerFragment)
  moreover have "ToLower_ascii ''div'' \<notin> set context_tags" by code_simp
  ultimately show ?thesis
    by (simp add: serves_def NewTokenizerFragment_def end_err_def rest_def off_def stream_def strings_NewReader_def)
qed

lemma length_kids: "wf_dom m K \<Longrightarrow> \<forall>x \<in> set (K n). x < b \<Longrightarrow> length (K n) \<le> b"
  using card_mono [of "{..<b}" "set (K n)"] wf_dom_node(1) [of m K n] by (auto simp: distinct_card)

lemma ParseFragment_written:
  assumes "clean s" and "wf_dom (mem s) K" and "n < brk s" and "mem s n = dummy_div"
    and "written False ts w" and "length w + 4 \<le> fuel"
  shows "\<exists>s' its. ParseFragment u fuel (strings_NewReader w) (Some n) s = Inr (Inr (map node_of its), s') \<and>
    forest_in s' its \<and> map (html_at (mem s')) its = ts"
proof -
  let ?b = "brk s + 1" and ?z = "NewTokenizerFragment (strings_NewReader w) ''div''"
  have tag: "context_tag (Some n) (mem s) = Inr (Inr ''div'')"
    using assms(4) by (simp add: context_tag_def dummy_div_def new_Node_def div_atom)
  have "untouched (mem s) (brk s)" using assms(1) by (simp add: clean_def untouched_def)
  from start_fragment_in_body [OF this assms(2-4), of u ?z] obtain p where
    start: "start_fragment (Some n) (new_parser u s ?z) = Inr ((), p)" and z: "p_tokenizer p = ?z"
    and p: "in_body None [?b] (K(brk s := [?b])) p" and root: "(K(brk s := [?b])) ?b = []" by blast
  obtain d where fuel: "fuel = Suc (Suc (Suc d))" using assms(6) by (cases fuel; cases "fuel - 1"; cases "fuel - 2") auto
  have "serves (p_tokenizer p) (w @ []) EOF" using fragment_reader z by simp
  then have "\<exists>j p' K' its. j \<le> length w \<and> takes d None [?b] (K(brk s := [?b])) p [] ts j p' K' its"
    using p root by (intro written_taken [OF assms(5)]) (auto simp: text_ends_def last_no_text_def)
  then obtain j p1 K1 its where j: "j \<le> length w" and "takes d None [?b] (K(brk s := [?b])) p [] ts j p1 K1 its" by blast
  then have loop: "parse_loop fuel (j + k) p = parse_loop fuel k p1" and in1: "in_body None [?b] K1 p1"
    and end1: "serves (p_tokenizer p1) [] EOF" and bt: "builds ?b (K(brk s := [?b])) (p_store p) its K1 (p_store p1)"
    and ts: "map (html_at (the_mem p1)) its = ts" for k by (simp_all add: takes_def fuel)
  obtain k where "fuel = j + Suc k" using j assms(6) by (intro that [of "fuel - j - 1"]) simp
  moreover obtain p2 where "parse_loop fuel (Suc k) p1 = Inr (None, p2)" and st: "p_store p2 = p_store p1"
    using loop_end [OF in1 end1, of d k] unfolding fuel by blast
  ultimately have run: "acts [start_fragment (Some n)] (parse_loop fuel fuel) (new_parser u s ?z) = Inr (None, p2)"
    using start loop [of "Suc k"] by (simp add: pbind_def del: parse_loop.simps)
  have wf1: "wf_dom (the_mem p1) K1" using in_bodyD(8) [OF in1] .
  have K1: "K1 ?b = map node_of its" using bt root by (simp add: builds_def)
  have ids: "distinct (concat (map ids its))" "\<forall>x \<in> set (concat (map ids its)). ?b < x \<and> x < brk (p_store p1)"
    "list_all (tree_in K1) its"
    using bt by (fastforce simp: builds_def)+
  have "\<forall>x \<in> set (K1 ?b). x < brk (p_store p1)" using ids(2) unfolding K1 using node_of_ids by fastforce
  from take_children_wf [OF wf1 length_kids [OF wf1 this]] obtain m where
    m: "take_children (brk (p_store p1)) ?b (first_of (K1 ?b) None) (the_mem p1) = Inr (K1 ?b, m)"
      "wf_dom m (K1(?b := []))" "same_payload (the_mem p1) m" by blast
  have "list_all (tree_in (K1(?b := []))) its"
    using ids(2,3) tree_in_cong [of _ "K1(?b := [])" K1] by (fastforce simp: list_all_iff)
  then have "forest_in ((p_store p1)\<lparr>mem := m\<rparr>) its" using ids(1,2) m(2) by (auto simp: forest_in_def)
  moreover have "map (html_at (mem ((p_store p1)\<lparr>mem := m\<rparr>))) its = ts" unfolding ts [symmetric] by (simp add: html_at_payload [OF m(3)])
  moreover have "ParseFragment u fuel (strings_NewReader w) (Some n) s = Inr (Inr (map node_of its), (p_store p1)\<lparr>mem := m\<rparr>)"
    using tag run m(1) wf_dom_node(3) [OF wf1, of ?b] st K1 by (simp add: ParseFragment_def del: acts.simps parse_loop.simps)
  ultimately show ?thesis by blast
qed


text \<open>The store of a program that has made no node but the context of the fragment.\<close>

definition context_store :: "Node \<Rightarrow> dom_store" where
  "context_store context = \<lparr>mem = (\<lambda>_. new_Node)(marker := scopeMarker, 1 := context), brk = 2\<rparr>"

lemma div_store_ok:
  "clean (context_store dummy_div)" "wf_dom (mem (context_store dummy_div)) (\<lambda>_. [])" "1 < brk (context_store dummy_div)"
  "mem (context_store dummy_div) 1 = dummy_div"
  by (auto simp: clean_def context_store_def marker_def wf_dom_def scopeMarker_def dummy_div_def new_Node_def)

lemma sample_tokens_spelled:
  "spelled (text_token ''a<'') ''a&lt;''" "spelled (tag_token StartTagToken ''div'' []) ''<div>''"
proof -
  have "printable (text_token ''a<'')" "printed (text_token ''a<'') = ''a&lt;''"
    by (simp_all add: text_token_def printable_def printed_def escape_spec_def escape_byte_def escapedChars_def esc_string_def)
  then show "spelled (text_token ''a<'') ''a&lt;''" using printed_spelled by metis
  have "printable (tag_token StartTagToken ''div'' [])" "printed (tag_token StartTagToken ''div'' []) = ''<div>''"
    by (simp_all add: tag_token_def printable_def printed_def attrs_text_def tag_ok_def Html_Token_Print.name_ok_def
        lower_def lower_byte_def in_range_def is_letter_def ends_name_def is_space_def raw_tags_def)
  then show "spelled (tag_token StartTagToken ''div'' []) ''<div>''" using printed_spelled by metis
qed


end
