(* ===== verification/Client_Html.thy ===== *)
theory Client_Html
  imports Client_Footer Html_Parser_Fragment
begin

text \<open>
  The client with the HTML parser of \<^verbatim>\<open>golang.org/x/net/html\<close>: \<open>jsx.HTML\<close> calls \<open>ParseFragment\<close> with
  the text and a new \<open>div\<close> element. The footer of the page is plain HTML, so the parser makes
  the tree \<open>footer_html\<close> of it, which is all that the client asks of the parser.
\<close>

section \<open>The call that jsx makes\<close>

definition parse_error_text :: "parse_error \<Rightarrow> string" where
  "parse_error_text e = (case e of ParseError s \<Rightarrow> s | ReadError _ \<Rightarrow> ''read error'')"

text \<open>The bound on the rounds is that of \<open>ParseFragment_written\<close>; \<open>parser_bound_irrelevant\<close> says that a larger
  one does not change what is returned. A panic of the parser would go through \<open>HTML\<close>; it is passed on as
  an error here, on which \<open>HTML\<close> panics as well.\<close>

definition net_html :: "unicode \<Rightarrow> parse_fragment" where
  "net_html u s context =
     (case ParseFragment u (length s + 4) (strings_NewReader s) (Some 1) (context_store context) of
        Inl _ \<Rightarrow> Inl ''panic''
      | Inr (Inl e, _) \<Rightarrow> Inl (parse_error_text e)
      | Inr (Inr elems, st) \<Rightarrow> Inr (st, elems))"

lemma parses_plain: "written False ts (TrimSpace s) \<Longrightarrow> parses_to (net_html u) s ts"
  using ParseFragment_written [OF div_store_ok, of ts "TrimSpace s" "length (TrimSpace s) + 4" u]
  by (auto simp: parses_to_def net_html_def)

section \<open>Texts without entities\<close>

definition plain :: "string \<Rightarrow> bool" where
  "plain s \<longleftrightarrow> list_all (\<lambda>c. c \<notin> {CHR ''<'', CHR ''&'', CHR 0x0D, NUL, CHR 0x22, CHR 0x27}) s"

definition plain_attrs :: "Attribute list \<Rightarrow> bool" where
  "plain_attrs as \<longleftrightarrow> list_all (\<lambda>a. Html_Token_Print.attr_ok a \<and> plain (attr_Val a)) as"

definition quoted :: "char \<Rightarrow> Attribute \<Rightarrow> string" where
  "quoted q a = attr_Key a @ ''='' @ [q] @ attr_Val a @ [q]"

lemma plain_read: "plain s \<Longrightarrow> unescape_spec f (unix s) = s"
proof -
  assume "plain s"
  then have "CHR ''&'' \<notin> set s" "CHR 0x0D \<notin> set s" by (auto simp: plain_def list_all_iff)
  then show ?thesis using unescape_spec_prefix [of s f "[]"] by (simp add: unix_id)
qed

lemma plain_text: "plain d \<Longrightarrow> d \<noteq> [] \<Longrightarrow> spelled (text_token d) d \<and> NUL \<notin> set d"
  using plain_read [of d False] by (auto simp: spelled_def text_token_def plain_def list_all_iff)

lemma plain_attrs_spelled:
  "plain_attrs as \<Longrightarrow> q = CHR 0x22 \<or> q = CHR 0x27 \<Longrightarrow> list_all2 attr_spelled as (map (quoted q) as)"
proof (induction as)
  case (Cons a as)
  then have "attr_spelled a (quoted q a)"
    using plain_read [of "attr_Val a" True]
    by (auto simp: attr_spelled_def quoted_def plain_attrs_def plain_def list_all_iff)
  with Cons show ?case by (simp add: plain_attrs_def)
qed simp

definition tag_src :: "char \<Rightarrow> string \<Rightarrow> Attribute list \<Rightarrow> string \<Rightarrow> string" where
  "tag_src q tag as cl = ''<'' @ tag @ attrs_src (map (quoted q) as) @ cl"

definition plain_tag :: "char \<Rightarrow> string \<Rightarrow> Attribute list \<Rightarrow> bool" where
  "plain_tag q tag as \<longleftrightarrow> (q = CHR 0x22 \<or> q = CHR 0x27) \<and> Html_Token_Print.name_ok tag \<and> tag \<notin> set (raw_tags (hd tag)) \<and>
     plain_attrs as"

lemma plain_tag_spelled:
  assumes "plain_tag q tag as"
  shows "spelled (tag_token StartTagToken tag as) (tag_src q tag as ''>'')"
    and "cl = ''/>'' \<or> cl = '' />'' \<Longrightarrow> spelled (tag_token SelfClosingTagToken tag as) (tag_src q tag as cl)"
proof -
  have "tag_ok (tag_token tt tag as)" for tt
    using assms by (auto simp: plain_tag_def tag_ok_def tag_token_def plain_attrs_def list_all_iff)
  moreover have "list_all2 attr_spelled as (map (quoted q) as)" using assms plain_attrs_spelled by (simp add: plain_tag_def)
  ultimately show "spelled (tag_token StartTagToken tag as) (tag_src q tag as ''>'')"
    and "cl = ''/>'' \<or> cl = '' />'' \<Longrightarrow> spelled (tag_token SelfClosingTagToken tag as) (tag_src q tag as cl)"
    using assms by (auto simp: spelled_def tag_token_def tag_src_def plain_tag_def)
qed

lemma footer_atoms: "atom_of ''a'' = a_A" "atom_of ''br'' = a_Br" "atom_of ''footer'' = a_Footer" "atom_of ''hr'' = a_Hr"
  "atom_of ''span'' = a_Span"
proof -
  have "name_at (uint a_A) = ''a''" "name_at (uint a_Br) = ''br''" "name_at (uint a_Footer) = ''footer''"
    "name_at (uint a_Hr) = ''hr''" "name_at (uint a_Span) = ''span''" by code_simp+
  moreover have "{(''A'', a_A), (''Br'', a_Br), (''Footer'', a_Footer), (''Hr'', a_Hr), (''Span'', a_Span)} \<subseteq> set atom_constants"
    using declared_in_subset [OF atoms_declared] by simp
  ultimately show "atom_of ''a'' = a_A" "atom_of ''br'' = a_Br" "atom_of ''footer'' = a_Footer" "atom_of ''hr'' = a_Hr"
    "atom_of ''span'' = a_Span" using name_at_declared(1) by blast+
qed

lemma written_text:
  "written f ts w \<Longrightarrow> plain d \<and> d \<noteq> [] \<and> \<not> starts_with_text ts \<Longrightarrow> written f (HText d # ts) (d @ w)"
  using plain_text w_text by blast

lemma written_void:
  "written f ts w \<Longrightarrow> plain_tag q tag as \<and> atom_of tag \<in> set voids \<and> (cl = ''>'' \<or> cl = ''/>'' \<or> cl = '' />'') \<Longrightarrow>
   written f (HElem tag as [] # ts) (tag_src q tag as cl @ w)"
proof -
  assume w: "written f ts w" and tag: "plain_tag q tag as \<and> atom_of tag \<in> set voids \<and> (cl = ''>'' \<or> cl = ''/>'' \<or> cl = '' />'')"
  then obtain tt where "tt = StartTagToken \<or> tt = SelfClosingTagToken" "spelled (tag_token tt tag as) (tag_src q tag as cl)"
    using plain_tag_spelled by metis
  with w tag show ?thesis using w_void by metis
qed

lemma written_element:
  "written f ks v \<Longrightarrow> written f ts w \<Longrightarrow> plain_tag q tag as \<and> (atom_of tag \<in> set blocks \<or> ordinary (atom_of tag)) \<Longrightarrow>
   written f (HElem tag as ks # ts) (tag_src q tag as ''>'' @ v @ ''</'' @ tag @ ''>'' @ w)"
  using plain_tag_spelled(1) w_element by blast

lemma written_link:
  "written True ks v \<Longrightarrow> written False ts w \<Longrightarrow> plain_tag q ''a'' as \<Longrightarrow>
   written False (HElem ''a'' as ks # ts) (tag_src q ''a'' as ''>'' @ v @ ''</'' @ ''a'' @ ''>'' @ w)"
  using plain_tag_spelled(1) by (intro w_formatting) (simp_all add: footer_atoms formats_def isSpecialElementMap_def)

section \<open>The footer\<close>


lemma trim_byte:
  assumes "c = CHR 0x09 \<or> c = CHR 0x0A"
  shows "trim_runes space_runes (c # s) = trim_runes space_runes s"
    and "trim_runes (map rev space_runes) (c # s) = trim_runes (map rev space_runes) s"
proof -
  have "trim_runes rs (c # s) = trim_runes rs s" if "find (\<lambda>r. r \<noteq> [] \<and> HasPrefix (c # s) r) rs = Some [c]" for rs
    using trim_runes_step [OF that] by simp
  then show "trim_runes space_runes (c # s) = trim_runes space_runes s"
    and "trim_runes (map rev space_runes) (c # s) = trim_runes (map rev space_runes) s"
    using assms by (auto simp: space_runes_def HasPrefix_def)
qed

lemma trim_no_byte:
  "trim_runes space_runes (CHR ''<'' # s) = CHR ''<'' # s"
  "trim_runes (map rev space_runes) (CHR ''>'' # s) = CHR ''>'' # s"
  by (rule trim_runes_stop, simp add: space_runes_def HasPrefix_def)+

lemma TrimSpace_footer:
  "TrimSpace (newline @ tabs 3 @ (''<'' @ s @ ''>'') @ newline @ tabs 2) = ''<'' @ s @ ''>''"
proof -
  have "trim_runes space_runes (newline @ tabs 3 @ (''<'' @ s @ ''>'') @ newline @ tabs 2) = ''<'' @ s @ ''>'' @ newline @ tabs 2"
    by (simp add: newline_def tabs_def numeral_3_eq_3 trim_byte trim_no_byte)
  moreover have "trim_runes (map rev space_runes) (rev (''<'' @ s @ ''>'' @ newline @ tabs 2)) = rev (''<'' @ s @ ''>'')"
    by (simp add: newline_def tabs_def numeral_2_eq_2 trim_byte trim_no_byte)
  ultimately show ?thesis by (simp add: TrimSpace_def)
qed

text \<open>The text of the footer, cut into the texts and tags that it consists of.\<close>

definition footer_kids_src :: string where
  "footer_kids_src =
     (newline @ tabs 4 @ ''Be truly unique, there are'' @ newline @ tabs 4) @
     tag_src (CHR 0x27) ''span'' [attr ''class'' ''total_combinations''] ''>'' @ [] @ ''</'' @ ''span'' @ ''>'' @
     (newline @ tabs 4) @ tag_src (CHR 0x27) ''hr'' [] ''/>'' @ (newline @ tabs 4 @ ''Artwork by '') @
     tag_src (CHR 0x27) ''a'' [attr ''href'' ''https://twitter.com/ashleymcnamara'', attr ''target'' ''_blank''] ''>'' @
       (''Ashley McNamara'' @ []) @ ''</'' @ ''a'' @ ''>'' @
     tag_src (CHR 0x27) ''br'' [] '' />'' @ ''inspired by '' @
     tag_src (CHR 0x27) ''a'' [attr ''href'' ''http://reneefrench.blogspot.co.uk/'', attr ''target'' ''_blank''] ''>'' @
       (''Renee French'' @ []) @ ''</'' @ ''a'' @ ''>'' @
     tag_src (CHR 0x27) ''br'' [] '' />'' @ (newline @ tabs 4 @ ''Original web app by '') @
     tag_src (CHR 0x27) ''a'' [attr ''href'' ''https://twitter.com/matryer'', attr ''target'' ''_blank''] ''>'' @
       (''Mat Ryer'' @ []) @ ''</'' @ ''a'' @ ''>'' @
     tag_src (CHR 0x27) ''br'' [] ''/>'' @ (newline @ tabs 4 @ ''Front-end Go React version by '') @
     tag_src (CHR 0x22) ''a'' [attr ''href'' ''https://twitter.com/_myitcv'', attr ''target'' ''_blank''] ''>'' @
       (''Paul Jolly'' @ []) @ ''</'' @ ''a'' @ ''>'' @
     (newline @ tabs 4) @ tag_src (CHR 0x27) ''hr'' [] ''>'' @ (newline @ tabs 4) @
     tag_src (CHR 0x27) ''a'' [attr ''href'' ''https://github.com/myitcv/gopherize.me/tree/master/client''] ''>'' @
       (''Source on GitHub'' @ []) @ ''</'' @ ''a'' @ ''>'' @
     tag_src (CHR 0x27) ''br'' [] ''/>'' @ (newline @ tabs 4) @
     tag_src (CHR 0x27) ''a'' [attr ''href'' ''https://github.com/matryer/gopherize.me''] ''>'' @
       (''Original source on GitHub'' @ []) @ ''</'' @ ''a'' @ ''>'' @
     (newline @ tabs 3) @ []"

lemma footer_src: "TrimSpace footer = tag_src (CHR 0x27) ''footer'' [] ''>'' @ footer_kids_src @ ''</'' @ ''footer'' @ ''>'' @ []"
proof -
  let ?s = "''footer>'' @ footer_kids_src @ ''</footer''"
  have "footer = newline @ tabs 3 @ (''<'' @ ?s @ ''>'') @ newline @ tabs 2"
    by (simp add: footer_def footer_kids_src_def tag_src_def attrs_src_def quoted_def sq_def dq_def)
  then show ?thesis using TrimSpace_footer [of ?s] by (simp add: tag_src_def attrs_src_def)
qed

lemma footer_tags:
  "plain_tag q ''footer'' [] \<and> plain_tag q ''hr'' [] \<and> plain_tag q ''br'' [] \<longleftrightarrow> q = CHR 0x22 \<or> q = CHR 0x27"
  "plain_tag q ''span'' [attr ''class'' v] \<longleftrightarrow> (q = CHR 0x22 \<or> q = CHR 0x27) \<and> plain v"
  "plain_tag q ''a'' [attr ''href'' v] \<longleftrightarrow> (q = CHR 0x22 \<or> q = CHR 0x27) \<and> plain v"
  "plain_tag q ''a'' [attr ''href'' v, attr ''target'' x] \<longleftrightarrow> (q = CHR 0x22 \<or> q = CHR 0x27) \<and> plain v \<and> plain x"
proof -
  have names: "Html_Token_Print.name_ok ''footer''" "Html_Token_Print.name_ok ''hr''" "Html_Token_Print.name_ok ''br''"
    "Html_Token_Print.name_ok ''span''" "Html_Token_Print.name_ok ''a''" by code_simp+
  have keys: "Html_Token_Print.attr_ok (attr k v) \<longleftrightarrow> Html_Token_Print.attr_ok (attr k [])" for k v
    by (simp add: Html_Token_Print.attr_ok_def attr_def)
  have "Html_Token_Print.attr_ok (attr ''class'' [])" "Html_Token_Print.attr_ok (attr ''href'' [])"
    "Html_Token_Print.attr_ok (attr ''target'' [])" by code_simp+
  then have ok: "Html_Token_Print.attr_ok (attr ''class'' v)" "Html_Token_Print.attr_ok (attr ''href'' v)"
    "Html_Token_Print.attr_ok (attr ''target'' v)" for v using keys by blast+
  show "plain_tag q ''footer'' [] \<and> plain_tag q ''hr'' [] \<and> plain_tag q ''br'' [] \<longleftrightarrow> q = CHR 0x22 \<or> q = CHR 0x27"
    "plain_tag q ''span'' [attr ''class'' v] \<longleftrightarrow> (q = CHR 0x22 \<or> q = CHR 0x27) \<and> plain v"
    "plain_tag q ''a'' [attr ''href'' v] \<longleftrightarrow> (q = CHR 0x22 \<or> q = CHR 0x27) \<and> plain v"
    "plain_tag q ''a'' [attr ''href'' v, attr ''target'' x] \<longleftrightarrow> (q = CHR 0x22 \<or> q = CHR 0x27) \<and> plain v \<and> plain x"
    by (auto simp: plain_tag_def names ok plain_attrs_def raw_tags_def)
qed

lemma plain_simps:
  "plain []" "plain (x @ y) \<longleftrightarrow> plain x \<and> plain y"
  "plain (c # s) \<longleftrightarrow> c \<notin> {CHR ''<'', CHR ''&'', CHR 0x0D, NUL, CHR 0x22, CHR 0x27} \<and> plain s"
  "plain newline" "plain (tabs n)" "newline \<noteq> []"
  by (simp_all add: plain_def newline_def tabs_def list_all_iff NUL_def ball_Un)

lemma footer_written: "written False [footer_html] (TrimSpace footer)"
proof -
  have tags: "plain_tag (CHR 0x27) ''footer'' []" "plain_tag (CHR 0x27) ''hr'' []" "plain_tag (CHR 0x27) ''br'' []"
    using footer_tags(1) [of "CHR 0x27"] by simp_all
  have atoms: "atom_of ''hr'' \<in> set voids" "atom_of ''br'' \<in> set voids" "atom_of ''footer'' \<in> set blocks"
    "ordinary (atom_of ''span'')"
    by (simp_all add: footer_atoms voids_def blocks_def ordinary_def formats_def treated_def)
  show ?thesis
    unfolding footer_src footer_html_def footer_kids_src_def
    by (intro written_link written_text written_element [where tag = "''footer''"] written_element [where tag = "''span''"]
        written_void [where tag = "''br''"] written_void [where tag = "''hr''"] w_nothing conjI)
      (simp_all add: tags atoms footer_tags plain_simps starts_with_text_def NUL_def)
qed

section \<open>The client and the parser\<close>

lemma footer_parsed: "parses_to (net_html u) footer [footer_html]"
  using parses_plain [OF footer_written] .

definition client_env :: env where
  "client_env = \<lparr>env_pf = net_html ascii_tables, env_src = (\<lambda>seed k. 0), env_now = 0\<rparr>"

lemma good_client_env: "good_env client_env"
  using footer_parsed [of ascii_tables] by (auto simp: good_env_def client_env_def fair_def)

text \<open>C16. With the HTML parser that the program is linked with, the client asks nothing of its
  environment but random sources that are fair: \<open>jsx.HTML\<close> gets from \<open>ParseFragment\<close> the tree
  \<open>footer_html\<close> for the text of the footer, white space around it trimmed, whatever tables of
  Unicode the parser is given.\<close>

theorem client_with_parser: "good_env (env\<lparr>env_pf := net_html u\<rparr>) \<longleftrightarrow> (\<forall>seed. fair (env_src env seed))"
  using footer_parsed [of u] by (simp add: good_env_def)



end
