(* ===== verification/Html_Token_Quirks.thy ===== *)
theory Html_Token_Quirks
  imports Html_Token_Data
begin

text \<open>
  Inputs on which the tokenizer does not do what its comments and the HTML specification say, by
  evaluation.
\<close>

fun first_raw :: "Tokenizer \<Rightarrow> string go" where
  "first_raw z = go_bind (Next z) Raw"

fun only_text :: "string \<times> Tokenizer \<Rightarrow> string go" where
  "only_text (s, z) = Inr s"

fun first_text :: "Tokenizer \<Rightarrow> string go" where
  "first_text z = go_bind (go_bind (Next z) Text) only_text"

text \<open>In raw text, a byte after \<open><\<close> that is not a slash is consumed and not looked at again:
  when it is itself a \<open><\<close>, the end tag it begins is missed.\<close>

lemma raw_text_misses_end_tag:
  "first_raw (NewTokenizerFragment (strings_NewReader ''a</title>b'') ''title'') = Inr ''a''"
  "first_raw (NewTokenizerFragment (strings_NewReader ''a<</title>b'') ''title'') = Inr ''a<</title>b''"
  by code_simp+

text \<open>A comment that begins with \<open>!\<close> is not closed by the dashes that follow at once.\<close>

lemma comment_misses_end:
  "first_raw (NewTokenizer (strings_NewReader ''<!--a-->x'')) = Inr ''<!--a-->''"
  "first_raw (NewTokenizer (strings_NewReader ''<!--!-->x'')) = Inr ''<!--!-->x''"
  by code_simp+

text \<open>At the end of the input, the data of a bogus comment that is a prefix of \<open>DOCTYPE\<close> is lost.\<close>

lemma bogus_comment_loses_data:
  "first_text (NewTokenizer (strings_NewReader ''<!DAC'')) = Inr ''DAC''"
  "first_text (NewTokenizer (strings_NewReader ''<!DOC'')) = Inr []"
  by code_simp+

text \<open>Comments are unescaped but printed as they are: what was one comment is read back as a shorter
  comment and text.\<close>

lemma comment_does_not_survive:
  "first_text (NewTokenizer (strings_NewReader ''<!--a--&#62;b-->'')) = Inr ''a-->b''"
  "Token_String \<lparr>t_Type = CommentToken, t_DataAtom = 0, t_Data = ''a-->b'', t_Attr = []\<rparr> = Inr ''<!--a-->b-->''"
  "first_raw (NewTokenizer (strings_NewReader ''<!--a-->b-->'')) = Inr ''<!--a-->''"
  by code_simp+

end
