(* ===== verification/Html_Render.thy ===== *)
theory Html_Render
  imports Html_Token_Data
begin

text \<open>
  \<^verbatim>\<open>golang.org/x/net/html/render.go\<close>: printing a tree of nodes, to a writer that takes every byte
  (a \<open>bytes.Buffer\<close>): what is written so far is the argument \<open>buf\<close>. An error that is returned is
  a value; the bound on the number of nodes is reached only when the pointers have a cycle.
\<close>

datatype render_error = PlaintextAbort | RenderError string

type_synonym rendered = "(render_error option \<times> string) go"

definition voidElements :: "string list" where
  "voidElements =
     [''area'', ''base'', ''br'', ''col'', ''command'', ''embed'', ''hr'', ''img'', ''input'', ''keygen'',
      ''link'', ''meta'', ''param'', ''source'', ''track'', ''wbr'']"

definition raw_text_tags :: "string list" where
  "raw_text_tags =
     [''iframe'', ''noembed'', ''noframes'', ''noscript'', ''plaintext'', ''script'', ''style'', ''xmp'']"

definition writeQuoted :: "string \<Rightarrow> string \<Rightarrow> string" where
  "writeQuoted buf s =
     (let q = (if CHR 0x22 \<in> set s then CHR 0x27 else CHR 0x22) in buf @ [q] @ s @ [q])"

text \<open>The value of the last attribute with a key.\<close>

definition doctype_id :: "string \<Rightarrow> Attribute list \<Rightarrow> string" where
  "doctype_id key as = foldl (\<lambda>v a. if attr_Key a = key then attr_Val a else v) [] as"

definition render_doctype :: "string \<Rightarrow> Node \<Rightarrow> string" where
  "render_doctype buf n =
     (let b = buf @ ''<!DOCTYPE '' @ Data n;
          p = doctype_id ''public'' (Attr n);
          s = doctype_id ''system'' (Attr n)
      in (if p \<noteq> [] then
            let b' = writeQuoted (b @ '' PUBLIC '') p
            in if s \<noteq> [] then writeQuoted (b' @ '' '') s else b'
          else if s \<noteq> [] then writeQuoted (b @ '' SYSTEM '') s
          else b) @ ''>'')"

fun render_attrs :: "string \<Rightarrow> Attribute list \<Rightarrow> string go" where
  "render_attrs buf [] = Inr buf"
| "render_attrs buf (a # as) =
     go_bind
       (escape (buf @ '' '' @
          (if attr_Namespace a \<noteq> [] then attr_Namespace a @ '':'' else []) @
          attr_Key a @ ''='' @ [CHR 0x22]) (attr_Val a))
       (\<lambda>b. render_attrs (b @ [CHR 0x22]) as)"

text \<open>An initial newline, where one would be ignored.\<close>

definition guard_newline :: "memory \<Rightarrow> Node \<Rightarrow> string" where
  "guard_newline m n =
     (case FirstChild n of
        None \<Rightarrow> []
      | Some c \<Rightarrow>
          if NType (m c) = TextNode \<and> HasPrefix (Data (m c)) [CHR 0x0A] \<and>
             Data n \<in> set [''pre'', ''listing'', ''textarea'']
          then [CHR 0x0A] else [])"

fun render1 :: "nat \<Rightarrow> memory \<Rightarrow> string \<Rightarrow> nat \<Rightarrow> rendered"
  and render_kids :: "nat \<Rightarrow> memory \<Rightarrow> bool \<Rightarrow> string \<Rightarrow> ptr \<Rightarrow> rendered" where
  "render1 0 m buf a = Inl NoReturn"
| "render1 (Suc f) m buf a =
     (let n = m a in
      case NType n of
        ErrorNode \<Rightarrow> Inr (Some (RenderError ''html: cannot render an ErrorNode node''), buf)
      | TextNode \<Rightarrow> go_bind (escape buf (Data n)) (\<lambda>b. Inr (None, b))
      | DocumentNode \<Rightarrow> render_kids f m False buf (FirstChild n)
      | CommentNode \<Rightarrow> Inr (None, buf @ ''<!--'' @ Data n @ ''-->'')
      | DoctypeNode \<Rightarrow> Inr (None, render_doctype buf n)
      | ScopeMarkerNode \<Rightarrow> Inr (Some (RenderError ''html: unknown node type''), buf)
      | ElementNode \<Rightarrow>
          go_bind (render_attrs (buf @ ''<'' @ Data n) (Attr n)) (\<lambda>b.
            if Data n \<in> set voidElements then
              (if FirstChild n \<noteq> None
               then Inr (Some (RenderError ''html: void element <%s> has child nodes''), b)
               else Inr (None, b @ ''/>''))
            else
              go_bind (render_kids f m (Data n \<in> set raw_text_tags) (b @ ''>'' @ guard_newline m n)
                  (FirstChild n)) (\<lambda>(err, b').
                if err \<noteq> None then Inr (err, b')
                else if Data n = ''plaintext'' then Inr (Some PlaintextAbort, b')
                else Inr (None, b' @ ''</'' @ Data n @ ''>''))))"
| "render_kids f m raw buf None = Inr (None, buf)"
| "render_kids 0 m raw buf (Some c) = Inl NoReturn"
| "render_kids (Suc f) m raw buf (Some c) =
     go_bind
       (if raw \<and> NType (m c) = TextNode then Inr (None, buf @ Data (m c)) else render1 f m buf c)
       (\<lambda>(err, b). if err \<noteq> None then Inr (err, b)
         else render_kids f m raw b (NextSibling (m c)))"

definition Render :: "nat \<Rightarrow> memory \<Rightarrow> nat \<Rightarrow> rendered" where
  "Render f m n =
     go_bind (render1 f m [] n) (\<lambda>(err, b).
       Inr (if err = Some PlaintextAbort then None else err, b))"

end
