(* ===== verification/Html_Parser_Roundtrip.thy ===== *)
theory Html_Parser_Roundtrip
  imports Html_Parser_Fragment Html_Render
begin

text \<open>
  Rendering plain HTML and parsing it again. \<open>plain_htmls\<close> is the class of trees, \<open>html_text\<close> what
  \<open>Render\<close> writes for them; it is one of the texts such trees may be written as.
\<close>

section \<open>Plain trees and their text\<close>

fun is_text :: "html \<Rightarrow> bool" where
  "is_text (HText d) = True"
| "is_text _ = False"

fun plain_html :: "bool \<Rightarrow> html \<Rightarrow> bool" and plain_htmls :: "bool \<Rightarrow> html list \<Rightarrow> bool" where
  "plain_html f (HText d) \<longleftrightarrow> d \<noteq> [] \<and> NUL \<notin> set d"
| "plain_html f (HElem tag as ks) \<longleftrightarrow>
     Html_Token_Print.name_ok tag \<and> tag \<notin> set (raw_tags (hd tag)) \<and> list_all Html_Token_Print.attr_ok as \<and>
     (atom_of tag \<in> set voids \<and> ks = [] \<or>
      (atom_of tag \<in> set blocks \<or> ordinary (atom_of tag)) \<and> plain_htmls f ks \<or>
      \<not> f \<and> atom_of tag \<in> set formats \<and> tag \<notin> set isSpecialElementMap \<and> plain_htmls True ks)"
| "plain_html f (HOther ty) \<longleftrightarrow> False"
| "plain_htmls f [] \<longleftrightarrow> True"
| "plain_htmls f (t # ts) \<longleftrightarrow> plain_html f t \<and> plain_htmls f ts \<and> \<not> (is_text t \<and> starts_with_text ts)"

fun html_text :: "html \<Rightarrow> string" where
  "html_text (HText d) = escape_spec d"
| "html_text (HElem tag as ks) = ''<'' @ tag @ attrs_text as @
     (if tag \<in> set voidElements then ''/>'' else ''>'' @ concat (map html_text ks) @ ''</'' @ tag @ ''>'')"
| "html_text (HOther ty) = []"

section \<open>The names that Render treats in its own way\<close>

definition render_names :: "(string \<times> string \<times> Atom) list" where
  "render_names =
     [(''Area'', ''area'', a_Area), (''Base'', ''base'', a_Base), (''Br'', ''br'', a_Br), (''Col'', ''col'', a_Col),
      (''Command'', ''command'', a_Command), (''Embed'', ''embed'', a_Embed), (''Hr'', ''hr'', a_Hr), (''Img'', ''img'', a_Img),
      (''Input'', ''input'', a_Input), (''Keygen'', ''keygen'', a_Keygen), (''Link'', ''link'', a_Link),
      (''Meta'', ''meta'', a_Meta), (''Param'', ''param'', a_Param), (''Source'', ''source'', a_Source),
      (''Track'', ''track'', a_Track), (''Wbr'', ''wbr'', a_Wbr),
      (''Iframe'', ''iframe'', a_Iframe), (''Noembed'', ''noembed'', a_Noembed), (''Noframes'', ''noframes'', a_Noframes),
      (''Noscript'', ''noscript'', a_Noscript), (''Plaintext'', ''plaintext'', a_Plaintext), (''Script'', ''script'', a_Script),
      (''Style'', ''style'', a_Style), (''Xmp'', ''xmp'', a_Xmp),
      (''Pre'', ''pre'', a_Pre), (''Listing'', ''listing'', a_Listing), (''Textarea'', ''textarea'', a_Textarea)]"

lemma render_names:
  assumes "(i, s, a) \<in> set render_names"
  shows "atom_of s = a" and "atom_of t = a \<Longrightarrow> t = s"
proof -
  have "list_all (\<lambda>(i, s, a). name_at (uint a) = s) render_names" by code_simp
  then have s: "name_at (uint a) = s" using assms by (auto simp: list_all_iff)
  have "list_all (\<lambda>(i, s, a). (i, a) \<in> set atom_constants) render_names"
    using declared_in_subset [OF atoms_declared] by (simp add: render_names_def)
  then have "(i, a) \<in> set atom_constants" using assms by (auto simp: list_all_iff)
  from name_at_declared(1,2) [OF s this] show "atom_of s = a" and "atom_of t = a \<Longrightarrow> t = s" .
qed

lemma void_names: "atom_of tag \<in> set voids \<Longrightarrow> tag \<in> set voidElements"
proof -
  assume "atom_of tag \<in> set voids"
  moreover have "list_all (\<lambda>a. list_ex (\<lambda>(i, s, b). b = a \<and> s \<in> set voidElements) render_names) voids" by code_simp
  ultimately obtain i s where s: "(i, s, atom_of tag) \<in> set render_names" "s \<in> set voidElements"
    by (fastforce simp: list_all_iff list_ex_iff)
  then show ?thesis using render_names(2) [OF s(1), of tag] by simp
qed

lemma other_names:
  assumes "atom_of tag \<in> set blocks \<or> ordinary (atom_of tag) \<or> atom_of tag \<in> set formats"
  shows "tag \<notin> set voidElements \<and> tag \<notin> set raw_text_tags \<and> tag \<notin> set [''pre'', ''listing'', ''textarea'']"
proof -
  let ?names = "voidElements @ raw_text_tags @ [''pre'', ''listing'', ''textarea'']"
  have names: "map (\<lambda>(i, s, a). s) render_names = ?names" by code_simp
  have atoms: "list_all (\<lambda>(i, s, a). a \<in> set voids \<or> a \<in> set treated) render_names" by code_simp
  have "list_all (\<lambda>a. a \<notin> set voids \<and> a \<notin> set treated) (blocks @ formats)" by code_simp
  then have no: "atom_of tag \<notin> set voids \<union> set treated" using assms by (auto simp: ordinary_def list_all_iff)
  have "tag \<notin> set ?names"
  proof
    assume "tag \<in> set ?names"
    then have "tag \<in> (\<lambda>(i, s, a). s) ` set render_names" using arg_cong [OF names, of set] by simp
    then obtain i a where a: "(i, tag, a) \<in> set render_names" by auto
    then show False using atoms no render_names(1) [OF a] by (auto simp: list_all_iff)
  qed
  then show ?thesis by simp
qed

section \<open>What Render writes\<close>

lemma render_attrs_eq: "list_all Html_Token_Print.attr_ok as \<Longrightarrow> render_attrs buf as = Inr (buf @ attrs_text as)"
  by (induction as arbitrary: buf)
    (simp_all add: escape_refines attrs_text_def attr_text_def Html_Token_Print.attr_ok_def)

lemma render_plain:
  "(\<forall>p ts b buf. chain m p ts \<longrightarrow> size_list size ts < f \<longrightarrow> plain_htmls b (map (html_at m) ts) \<longrightarrow>
     render_kids f m False buf p = Inr (None, buf @ concat (map html_text (map (html_at m) ts)))) \<and>
   (\<forall>n ts b buf. chain m (FirstChild (m n)) ts \<longrightarrow> size (IT n ts) < f \<longrightarrow> plain_html b (html_at m (IT n ts)) \<longrightarrow>
     render1 f m buf n = Inr (None, buf @ html_text (html_at m (IT n ts))))"
proof (induction f)
  case (Suc f)
  have "render_kids (Suc f) m False buf p = Inr (None, buf @ concat (map html_text (map (html_at m) ts)))"
    if ts: "chain m p ts" "size_list size ts < Suc f" "plain_htmls b (map (html_at m) ts)" for p ts b buf
  proof (cases ts)
    case (Cons t us)
    then obtain n ks where t: "t = IT n ks" "p = Some n" "chain m (FirstChild (m n)) ks" "chain m (NextSibling (m n)) us"
      using ts(1) by (cases t) auto
    have sz: "size (IT n ks) < f" "size_list size us < f" using ts(2) Cons t(1) by auto
    have pl: "plain_html b (html_at m (IT n ks))" "plain_htmls b (map (html_at m) us)"
      using ts(3) Cons t(1) by (simp_all del: html_at.simps)
    have "render1 f m buf n = Inr (None, buf @ html_text (html_at m t))"
      using Suc.IH t(3) sz(1) pl(1) unfolding t(1) by blast
    moreover have "render_kids f m False (buf @ html_text (html_at m t)) (NextSibling (m n)) =
        Inr (None, (buf @ html_text (html_at m t)) @ concat (map html_text (map (html_at m) us)))"
      using Suc.IH t(4) sz(2) pl(2) by blast
    ultimately show ?thesis using Cons t by (simp del: html_at.simps)
  qed (use ts in simp)
  moreover have "render1 (Suc f) m buf n = Inr (None, buf @ html_text (html_at m (IT n ts)))"
    if ts: "chain m (FirstChild (m n)) ts" "size (IT n ts) < Suc f" "plain_html b (html_at m (IT n ts))" for n ts b buf
  proof (cases "NType (m n)")
    case ElementNode
    let ?tag = "Data (m n)" and ?hs = "map (html_at m) ts"
    have sz: "size_list size ts < f" using ts(2) by simp
    have at: "html_at m (IT n ts) = HElem ?tag (Attr (m n)) ?hs" using ElementNode by simp
    then have as: "list_all Html_Token_Print.attr_ok (Attr (m n))" using ts(3) by simp
    show ?thesis
    proof (cases "atom_of ?tag \<in> set voids \<and> ?hs = []")
      case True
      then have "FirstChild (m n) = None" using ts(1) by simp
      then show ?thesis using True ElementNode void_names as by (simp add: render_attrs_eq Let_def)
    next
      case False
      then have "atom_of ?tag \<in> set blocks \<or> ordinary (atom_of ?tag) \<or> atom_of ?tag \<in> set formats"
        and hs: "plain_htmls b ?hs \<or> plain_htmls True ?hs" using ts(3) at by auto
      from other_names [OF this(1)] have tag: "?tag \<notin> set voidElements" "?tag \<notin> set raw_text_tags"
        "?tag \<notin> set [''pre'', ''listing'', ''textarea'']" "?tag \<noteq> ''plaintext''" by (auto simp: raw_text_tags_def)
      have "render_kids f m False buf' (FirstChild (m n)) = Inr (None, buf' @ concat (map html_text ?hs))" for buf'
        using Suc.IH ts(1) sz hs by blast
      moreover have "guard_newline m (m n) = []" using tag(3) by (simp add: guard_newline_def split: option.split)
      ultimately show ?thesis using tag ElementNode as by (simp add: render_attrs_eq Let_def)
    qed
  qed (use ts in \<open>simp_all add: escape_refines\<close>)
  ultimately show ?case by blast
qed (auto simp: size_list_conv_sum_list)

section \<open>The text of plain trees\<close>

lemma html_text_written:
  "plain_html f h \<Longrightarrow> written f ts w \<Longrightarrow> \<not> (is_text h \<and> starts_with_text ts) \<Longrightarrow> written f (h # ts) (html_text h @ w)"
  "plain_htmls f hs \<Longrightarrow> written f hs (concat (map html_text hs))"
proof (induction f h and f hs arbitrary: ts w and rule: plain_html_plain_htmls.induct)
  case (1 f d)
  have "printable (text_token d)" using 1 by (simp add: printable_def text_token_def)
  then have "spelled (text_token d) (escape_spec d)" using printed_spelled [of "text_token d"] by (simp add: printed_def text_token_def)
  with 1 show ?case by (auto intro: w_text)
next
  case (2 f tag as ks)
  have tag: "Html_Token_Print.name_ok tag" "tag \<notin> set (raw_tags (hd tag))" "list_all Html_Token_Print.attr_ok as"
    using "2.prems"(1) by simp_all
  then have p: "printable (tag_token tt tag as)" if "tt = StartTagToken \<or> tt = SelfClosingTagToken" for tt
    using that by (auto simp: printable_def tag_token_def tag_ok_def)
  have start: "spelled (tag_token StartTagToken tag as) (''<'' @ tag @ attrs_text as @ ''>'')"
    using printed_spelled [OF p, of StartTagToken] by (simp add: printed_def tag_token_def)
  have self: "spelled (tag_token SelfClosingTagToken tag as) (''<'' @ tag @ attrs_text as @ ''/>'')"
    using printed_spelled [OF p, of SelfClosingTagToken] by (simp add: printed_def tag_token_def)
  consider "atom_of tag \<in> set voids" "ks = []"
    | "atom_of tag \<in> set blocks \<or> ordinary (atom_of tag)" "plain_htmls f ks"
    | "\<not> f" "atom_of tag \<in> set formats" "tag \<notin> set isSpecialElementMap" "plain_htmls True ks"
    using "2.prems"(1) by auto
  then show ?case
  proof cases
    case 1
    then show ?thesis using w_void [OF _ self 1(1) "2.prems"(2)] void_names by simp
  next
    case 2
    have "tag \<notin> set voidElements" using other_names [of tag] 2(1) by blast
    with w_element [OF start 2(1) "2.IH"(1) [OF 2(2)] "2.prems"(2)] show ?thesis by simp
  next
    case 3
    then have f: "f = False" by simp
    have "tag \<notin> set voidElements" using other_names [of tag] 3(2) by blast
    with w_formatting [OF start 3(2,3) "2.IH"(2) [OF 3(4)] "2.prems"(2) [unfolded f]] show ?thesis by (simp add: f)
  qed
qed (simp_all add: w_nothing)

section \<open>The round trip\<close>

lemma Render_plain:
  assumes "forest_in st its" and "t \<in> set its" and "plain_html f (html_at (mem st) t)"
  shows "Render (Suc (2 * brk st)) (mem st) (node_of t) = Inr (None, html_text (html_at (mem st) t))"
proof -
  obtain n ts where t: "t = IT n ts" by (cases t)
  obtain K where "wf_dom (mem st) K" "tree_in K t" using assms(1,2) by (auto simp: forest_in_def list_all_iff)
  then have "chain (mem st) (FirstChild (mem st n)) ts" unfolding t by (rule chain_tree)
  moreover have "size_list size its < Suc (2 * brk st)" using assms(1) by (intro size_list_brk) (auto simp: forest_in_def)
  then have "size (IT n ts) < Suc (2 * brk st)" using size_list_estimation' [OF assms(2), of "size t" size] unfolding t by simp
  ultimately have "render1 (Suc (2 * brk st)) (mem st) [] n = Inr (None, [] @ html_text (html_at (mem st) t))"
    using render_plain [of "mem st" "Suc (2 * brk st)"] assms(3) unfolding t by blast
  then show ?thesis by (simp add: Render_def t)
qed

lemma plain_htmls_each: "plain_htmls f hs \<Longrightarrow> h \<in> set hs \<Longrightarrow> plain_html f h"
  by (induction hs) auto

text \<open>C15. Plain HTML survives printing: \<open>Render\<close> writes a text for each tree of a forest of plain trees, and
  \<open>ParseFragment\<close> of these texts, one after the other, returns a forest of the same trees.\<close>

theorem plain_html_roundtrip:
  assumes "forest_in st its" and "plain_htmls False (map (html_at (mem st)) its)"
    and "clean s" and "wf_dom (mem s) K" and "n < brk s" and "mem s n = dummy_div"
  shows "\<exists>ws. map (\<lambda>t. Render (Suc (2 * brk st)) (mem st) (node_of t)) its = map (\<lambda>w. Inr (None, w)) ws \<and>
    (\<forall>fuel \<ge> length (concat ws) + 4. \<exists>s' jts.
      ParseFragment u fuel (strings_NewReader (concat ws)) (Some n) s = Inr (Inr (map node_of jts), s') \<and>
      forest_in s' jts \<and> map (html_at (mem s')) jts = map (html_at (mem st)) its)"
proof (intro exI [of _ "map html_text (map (html_at (mem st)) its)"] conjI allI impI)
  show "map (\<lambda>t. Render (Suc (2 * brk st)) (mem st) (node_of t)) its =
      map (\<lambda>w. Inr (None, w)) (map html_text (map (html_at (mem st)) its))"
    using Render_plain [OF assms(1)] plain_htmls_each [OF assms(2)] by auto
  show "\<exists>s' jts. ParseFragment u fuel (strings_NewReader (concat (map html_text (map (html_at (mem st)) its)))) (Some n) s =
      Inr (Inr (map node_of jts), s') \<and> forest_in s' jts \<and> map (html_at (mem s')) jts = map (html_at (mem st)) its"
    if "length (concat (map html_text (map (html_at (mem st)) its))) + 4 \<le> fuel" for fuel
    using ParseFragment_written [OF assms(3-6) html_text_written(2) [OF assms(2)] that] .
qed

definition two_roots :: dom_store where
  "two_roots = \<lparr>mem = (\<lambda>_. new_Node)(0 := dummy_div, 1 := text_node ''a<''), brk = 2\<rparr>"

lemma two_roots_ok:
  "forest_in two_roots [IT 0 [], IT 1 []]"
  "map (html_at (mem two_roots)) [IT 0 [], IT 1 []] = [HElem ''div'' [] [], HText ''a<'']"
  "plain_htmls False [HElem ''div'' [] [], HText ''a<'']"
proof -
  have "wf_dom (mem two_roots) (\<lambda>_. [])"
    by (auto simp: wf_dom_def two_roots_def dummy_div_def text_node_def new_Node_def)
  then show "forest_in two_roots [IT 0 [], IT 1 []]" by (auto simp: forest_in_def two_roots_def)
  show "map (html_at (mem two_roots)) [IT 0 [], IT 1 []] = [HElem ''div'' [] [], HText ''a<'']"
    by (simp add: two_roots_def dummy_div_def text_node_def new_Node_def)
  show "plain_htmls False [HElem ''div'' [] [], HText ''a<'']"
    by (simp add: div_atom blocks_def Html_Token_Print.name_ok_def raw_tags_def NUL_def starts_with_text_def lower_def lower_byte_def in_range_def
        is_letter_def ends_name_def is_space_def)
qed

theorem plain_html_roundtrip_witness:
  "\<exists>ws. map (\<lambda>t. Render 5 (mem two_roots) (node_of t)) [IT 0 [], IT 1 []] = map (\<lambda>w. Inr (None, w)) ws \<and>
    (\<exists>s' jts. ParseFragment ascii_tables (length (concat ws) + 4) (strings_NewReader (concat ws)) (Some 1) (context_store dummy_div) =
        Inr (Inr (map node_of jts), s') \<and>
      map (html_at (mem s')) jts = [HElem ''div'' [] [], HText ''a<''])"
proof -
  have "Suc (2 * brk two_roots) = 5" by (simp add: two_roots_def)
  with plain_html_roundtrip [OF two_roots_ok(1) two_roots_ok(3) [folded two_roots_ok(2)] div_store_ok, of ascii_tables]
  show ?thesis unfolding two_roots_ok(2) by fastforce
qed

end
