(* ===== verification/Spec2Isabelle.thy ===== *)
theory Spec2Isabelle
  imports Client_Reach Client_Html Html_Token_Quirks Html_Parser_Roundtrip
begin

text \<open>
  This is a verification of the client of gopherize.me (\<^verbatim>\<open>src/client\<close>), a page that lets its user put
  together a picture of a gopher, and of the code it runs on: the Go binding of React and its
  HTML literals (\<^verbatim>\<open>src/_vendor/src/myitcv.io/react\<close>) and the HTML package below them
  (\<^verbatim>\<open>src/_vendor/src/golang.org/x/net/html\<close>).

  The program and its parts. \<open>main\<close> mounts one component \<open>Outer\<close>, which holds the current
  gopher and shows a \<open>Preview\<close> of it and a \<open>Chooser\<close>. The chooser shows one \<open>Panel\<close> per
  category of the configuration, keeps which of them is open, and calls back into \<open>Outer\<close>
  through the interface \<open>UpdateGopher\<close>. Clicks are handled by values with an \<open>OnClick\<close>
  method. React renders a component again when its state was set or when its props differ;
  everything else on the screen stays. The footer is HTML text, which the package \<open>jsx\<close>
  turns into elements with the help of the HTML package.

  How Go is modelled. A function that may panic returns \<open>'a go\<close>, a sum of a panic and a result.
  A pointer is an index into a list that only grows; Go strings are byte lists; \<open>int32\<close> is
  \<open>int\<close> with the wrap-around written out. A loop that need not end is a \<open>partial_function\<close> in
  the option monad, or has fuel, and it is proved that it returns. State is passed explicitly:
  \<open>world\<close> holds the heaps of the client, the instances React has created, the updates that were
  asked for and the messages shown; \<open>page\<close> adds what is on the screen.

  The theories, in the order of the imports:
    \<^item> \<open>Go_Prelude\<close>: panics, slices, pointers, JavaScript objects. \<open>Go_Strings\<close> and \<open>Go_Rand\<close>:
      what is used of \<open>strings\<close>, \<open>strconv\<close>, \<open>path/filepath\<close> and \<open>math/rand\<close>.
    \<^item> \<open>Gopher_Config\<close>: \<^verbatim>\<open>client/gopher.go\<close>, the eight categories with all their options.
    \<^item> \<open>React_Core\<close>, \<open>React_Elements\<close>: \<^verbatim>\<open>react.go\<close>, \<^verbatim>\<open>custom_elements.go\<close>, \<^verbatim>\<open>gen_react_cssGen.go\<close>
      and the forty-four element functions of \<^verbatim>\<open>gen_react_coreGen.go\<close>; one class per component
      type.
    \<^item> \<open>Html_Node\<close>: \<^verbatim>\<open>node.go\<close>, nodes with five pointers each in a memory; the operations refine
      those on lists of children. \<open>Html_Entity\<close>, \<open>Html_Escape\<close>: \<^verbatim>\<open>entity.go\<close> and \<^verbatim>\<open>escape.go\<close>; the
      in-place unescaping refines one that builds a new string, and undoes escaping.
      \<open>Html_Atom\<close>: the table of names of the package \<open>atom\<close>, and that looking names up in it is exact.
    \<^item> \<open>Go_Io\<close>: readers, with the locale \<open>io_reader\<close> for what every reader promises. \<open>Html_Token\<close>,
      \<open>Html_Token_Data\<close>: \<^verbatim>\<open>token.go\<close>, the tokenizer with its buffer, its spans and the data of its
      tokens; all its loops end. \<open>Html_Token_Buffer\<close>, \<open>Html_Token_Next\<close>: every operation runs on a
      tokenizer as on its settled form \<open>norm\<close>, which has all the input in its buffer, does not panic,
      and leaves spans that are ordered. \<open>Html_Token_Value\<close>: the conversions in place compute
      \<open>token_of\<close>. \<open>Html_Token_Stream\<close>: the loop of a client over any reader; nothing is lost, the
      end is reached, the buffer is invisible. \<open>Html_Token_Print\<close>: printed tokens are read back.
      \<open>Html_Token_Quirks\<close>: inputs on which the tokenizer goes wrong.
    \<^item> \<open>Html_Foreign\<close>: \<^verbatim>\<open>const.go\<close>, \<^verbatim>\<open>doctype.go\<close> and \<^verbatim>\<open>foreign.go\<close>. \<open>Html_Parser_State\<close>: the struct
      \<open>parser\<close> of \<^verbatim>\<open>parse.go\<close>, a monad of parser states and panics, and the operations on the stack of
      open elements and on the list of active formatting elements. \<open>Html_Parser_Modes\<close>,
      \<open>Html_Parser_Body\<close>: the twenty-one insertion modes, foreign content, and the adoption agency.
      \<open>Html_Parser\<close>: implied tokens, the loops and \<open>Parse\<close>, \<open>ParseFragment\<close>. \<open>Html_Render\<close>: \<^verbatim>\<open>render.go\<close>.
    \<^item> \<open>Html_Parser_Depth\<close>: a larger bound does not change a result of the model. \<open>Html_Parser_Invariant\<close>,
      \<open>Html_Parser_Sweep\<close>: the locale \<open>parser_invariant\<close> lists the writes that tree construction makes;
      what allows these is kept by every mode, every call and the whole loop. \<open>Html_Parser_Frame\<close>: such
      an invariant, and that the parser leaves the nodes of its caller alone. \<open>Html_Parser_Plain\<close>: the relation
      \<open>written\<close> between trees of plain HTML and the texts they may be written as, and the parser on such a
      text, token by token. \<open>Html_Parser_Fragment\<close>: \<open>ParseFragment\<close> returns these trees.
      \<open>Html_Parser_Roundtrip\<close>: what \<open>Render\<close> writes for them is parsed to them again.
    \<^item> \<open>Jsx_Parse\<close>, \<open>Jsx_Html\<close>: the package \<open>jsx\<close>; which HTML it accepts, what it makes of it, and
      what its cache and its removal of blank text do.
    \<^item> \<open>Client_State\<close>: props, states, handlers and the world. \<open>Client_Panel\<close> (with \<open>Preview\<close>),
      \<open>Client_Chooser\<close>, \<open>Client_Outer\<close>: the components with their generated code. The locale
      \<open>pure_component\<close> is what React relies on when it leaves a component alone; the locale
      \<open>gopher_updater\<close> is the contract of the interface \<open>UpdateGopher\<close>. \<open>Outer\<close> fulfils it, and so
      does, towards its user, the whole page.
    \<^item> \<open>Client_Page\<close>: the click handlers, and what React does with the client: mounting, patching
      the screen by position and class, forced updates once a handler has returned.
    \<^item> \<open>Client_Screen\<close>, \<open>Client_Update\<close>: the invariant of the page. Everything on the screen is what
      its component would render now, every handler on it refers to what exists, and mounting,
      patching and forced updates keep it so.
    \<^item> \<open>Client_Footer\<close>: the tree of the footer, that \<open>jsx\<close> accepts it, and the environment the client
      needs. \<open>Client_Html\<close>: \<open>jsx\<close> with the modelled parser, which parses the footer to that tree.
      \<open>Client_Main\<close>: \<open>main\<close> with \<open>react.Render\<close>, and a click as a whole.
    \<^item> \<open>Client_View\<close>, \<open>Client_Reach\<close>: the page as a function of the selection and the open panel, the
      abstract machine it refines, and the reachable pages.

  Parameters and hypotheses. \<open>env\<close> has the function \<open>html.ParseFragment\<close> that \<open>jsx\<close> calls, the random sources and
  the clock; \<open>good_env\<close> asks that the parser returns the tree \<open>footer_html\<close> for the text of the
  footer, in a memory whose pointers are consistent, and that random sources do not stay in the
  upper half of their range forever. The first is no assumption about the program: \<open>Client_Html\<close> proves it
  for \<open>net_html\<close>, the modelled \<open>ParseFragment\<close>, and the examples below run on \<open>client_env\<close>, which has that
  parser. \<open>url.Parse\<close> and the \<open>document\<close>, its URL and its elements by id, are arguments of \<open>main\<close>;
  \<open>blackfriday.MarkdownCommon\<close> is one of \<open>Markdown\<close>.

  Bounds. \<open>nesting\<close> is three: an outer, a chooser, a panel. The fuel of \<open>jsx\<close> is twice the number
  of nodes of the memory, more than the size of any tree in it; that it suffices is part of
  \<open>HTML_parsed\<close>. \<open>read_tokens\<close> takes the number of tokens to read at most; one more than there are
  bytes is enough. The functions of the parser call each other without an end in sight, and on
  some texts there is none; \<open>Parse\<close> and \<open>ParseFragment\<close> take a bound on the depth of those calls and
  on the number of rounds, and are \<open>NoReturn\<close> when it is used up. A larger bound never changes
  another result, so what the code computes is what the model computes with any bound that is enough; for plain
  HTML as many rounds as there are bytes and four more are enough (\<open>Html_Parser_Fragment\<close>).

  Not modelled: React itself, which is JavaScript, beyond what \<open>Client_Page\<close> says of it;
  generators and tools that run at build time; the other vendored packages, the tables of the
  package \<open>unicode\<close> (the parser has them as an argument) and writers that fail while a tree is
  rendered. Panic messages keep their format string without operands.

  The properties of single components are at the ends of their theories. Those below span the
  client as a whole.
\<close>

section \<open>The page\<close>

text \<open>A page to try the properties on: no query in the URL, the element of \<^verbatim>\<open>client/index.html\<close> to put it into, and
  the HTML parser of the program.\<close>

definition example_document :: document where
  "example_document =
     \<lparr>document_URL = ''http://localhost:8080/myitcv.io/gopherize.me/client/'', elements_by_id = [''gopherize.me'' \<mapsto> 0]\<rparr>"

definition example_parse :: "string \<Rightarrow> string + string" where
  "example_parse u = Inr []"

lemma example_page:
  "\<exists>p. main client_env example_parse example_document init_world = Inr (0, p) \<and>
     reachable client_env example_parse example_document p \<and> in_order client_env [] p \<and>
     view_of p = \<lparr>v_parts = default_parts hack_categories, v_open = 0, v_alerts = []\<rparr> \<and>
     ResetClick (page_chooser p) \<in> set (tree_handlers (screen p)) \<and> example_parse (document_URL example_document) = Inr []"
proof -
  obtain p where p: "main client_env example_parse example_document init_world = Inr (0, p)" "in_order client_env [] p"
      "view_of p = \<lparr>v_parts = default_parts hack_categories, v_open = 0, v_alerts = []\<rparr>"
    using main_in_order [OF good_client_env, of example_parse example_document "[]" 0]
    by (auto simp: example_parse_def example_document_def)
  then have "ResetClick (page_chooser p) \<in> set (tree_handlers (screen p))"
    unfolding in_order_handlers [OF good_client_env p(2)] by simp
  with p reachable.start [OF p(1)] show ?thesis by (auto simp: example_parse_def)
qed

text \<open>C1. No click can crash the client. On every page that \<open>main\<close> and clicks can lead to, every
  handler that is shown returns without a panic, has prevented the default action of the
  browser, and leads to a page that is again reachable. The environment has to parse the
  footer of the page to its tree and to provide fair random sources.\<close>

theorem no_click_panics:
  assumes "good_env env" and "url_Parse (document_URL d) = Inr rawQuery" and "reachable env url_Parse d p"
    and "h \<in> set (tree_handlers (screen p))"
  shows "\<exists>w1 p'. run_OnClick h \<lparr>defaultPrevented = False\<rparr> (page_world p) = Inr (\<lparr>defaultPrevented = True\<rparr>, w1) \<and>
    click env h p = Inr p' \<and> reachable env url_Parse d p'"
proof -
  have "in_order env rawQuery p" by (rule reachable_in_order [of env url_Parse d]) (fact assms)+
  from click_in_order [OF assms(1) this assms(4)] reachable.step [OF assms(3,4)] show ?thesis by blast
qed

theorem no_click_panics_witness:
  "\<exists>p w1 p'. reachable client_env example_parse example_document p \<and>
     run_OnClick (ResetClick (page_chooser p)) \<lparr>defaultPrevented = False\<rparr> (page_world p) =
       Inr (\<lparr>defaultPrevented = True\<rparr>, w1) \<and>
     click client_env (ResetClick (page_chooser p)) p = Inr p' \<and> reachable client_env example_parse example_document p'"
  using example_page no_click_panics [OF good_client_env, of example_parse example_document "[]"] by blast

text \<open>C2. Every click does to the page what the abstract machine \<open>page_step\<close> says: opening a panel
  changes only which panel is open, choosing an item only that part of the selection,
  shuffling yields some selection the configuration offers, resetting the default one, and
  saving only adds the message; with four components, their instances, the heap of gophers
  and the two ways of updating the screen underneath.\<close>

theorem click_refines_page_step:
  assumes "good_env env" and "url_Parse (document_URL d) = Inr rawQuery" and "reachable env url_Parse d p"
    and "h \<in> set (tree_handlers (screen p))" and "click env h p = Inr p'"
  shows "page_step h (view_of p) (view_of p')"
proof -
  have "in_order env rawQuery p" by (rule reachable_in_order [of env url_Parse d]) (fact assms)+
  from click_in_order [OF assms(1) this assms(4)] assms(5) show ?thesis by auto
qed

theorem click_refines_page_step_witness:
  "\<exists>p p'. reachable client_env example_parse example_document p \<and>
     click client_env (ResetClick (page_chooser p)) p = Inr p' \<and>
     page_step (ResetClick (page_chooser p)) (view_of p) (view_of p')"
proof -
  obtain p where p: "reachable client_env example_parse example_document p" "in_order client_env [] p"
      "ResetClick (page_chooser p) \<in> set (tree_handlers (screen p))" "example_parse (document_URL example_document) = Inr []"
    using example_page by blast
  from click_in_order [OF good_client_env p(2,3)] obtain p' where
    p': "click client_env (ResetClick (page_chooser p)) p = Inr p'" by blast
  with click_refines_page_step [OF good_client_env p(4,1,3) p'] p show ?thesis by blast
qed

text \<open>C3. The screen is never stale: on every reachable page the HTML that is shown is the function
  \<open>page_view\<close> of the selected parts and of the open panel alone, although most components are
  not rendered again after a click. The preview stacks the images of the selected parts, the
  panel that is open, and no other, offers the options of its category.\<close>

theorem screen_shows_selection:
  assumes "good_env env" and "url_Parse (document_URL d) = Inr rawQuery" and "reachable env url_Parse d p"
  shows "paint (screen p) =
    page_view (footer_elem env) rawQuery (page_outer p) (page_chooser p) (page_parts p) (page_open p)"
proof -
  have "in_order env rawQuery p" by (rule reachable_in_order [of env url_Parse d]) (fact assms)+
  then show ?thesis using page_painted(1) [OF env_ok_footer [OF assms(1)]] unfolding in_order_def by blast
qed

theorem screen_shows_selection_witness:
  "\<exists>p. reachable client_env example_parse example_document p \<and>
     paint (screen p) = page_view (footer_elem client_env) [] (page_outer p) (page_chooser p)
       (default_parts hack_categories) 0"
proof -
  obtain p where p: "reachable client_env example_parse example_document p" "example_parse (document_URL example_document) = Inr []"
      "view_of p = \<lparr>v_parts = default_parts hack_categories, v_open = 0, v_alerts = []\<rparr>"
    using example_page by blast
  have "page_parts p = default_parts hack_categories" "page_open p = 0" using p(3) by (simp_all flip: view_of_sel)
  with screen_shows_selection [OF good_client_env p(2,1)] p(1) show ?thesis by auto
qed

text \<open>C4. What the page shows always makes sense: the selection names for each category one of its
  options, and the open panel is one of the panels.\<close>

theorem selection_fits:
  assumes "good_env env" and "url_Parse (document_URL d) = Inr rawQuery" and "reachable env url_Parse d p"
  shows "fits hack_categories (page_parts p) \<and> 0 \<le> page_open p \<and> page_open p < int (length hack_categories)"
proof -
  have ord: "in_order env rawQuery p" by (rule reachable_in_order [of env url_Parse d]) (fact assms)+
  then have "fits hack_categories (page_parts p)"
    using page_painted(5) [OF env_ok_footer [OF assms(1)]] unfolding in_order_def by blast
  with ord show ?thesis by (auto simp: in_order_def)
qed

theorem selection_fits_witness:
  "\<exists>p. reachable client_env example_parse example_document p \<and> fits hack_categories (page_parts p) \<and> 0 \<le> page_open p"
  using example_page selection_fits [OF good_client_env, of example_parse example_document "[]"] by blast

text \<open>C5. Every gopher the configuration offers can be made by clicking, from every reachable page,
  with two clicks for each of the eight categories.\<close>

theorem every_gopher_by_clicks:
  assumes "good_env env" and "url_Parse (document_URL d) = Inr rawQuery" and "reachable env url_Parse d p"
    and "fits hack_categories ps"
  shows "\<exists>hs p'. clicks env p hs p' \<and> length hs = 16 \<and> reachable env url_Parse d p' \<and> page_parts p' = ps"
proof -
  have "in_order env rawQuery p" by (rule reachable_in_order [of env url_Parse d]) (fact assms)+
  from all_gophers_by_clicks [OF assms(1) this assms(4)] obtain hs p' where
    "clicks env p hs p'" "length hs = 16" "page_parts p' = ps" by (auto simp: length_hack_categories)
  with reachable_clicks [OF _ assms(3)] show ?thesis by blast
qed

theorem every_gopher_by_clicks_witness:
  "\<exists>p hs p'. reachable client_env example_parse example_document p \<and> clicks client_env p hs p' \<and> length hs = 16 \<and>
     page_parts p' = default_parts hack_categories"
proof -
  obtain p where p: "reachable client_env example_parse example_document p" "example_parse (document_URL example_document) = Inr []"
    using example_page by blast
  from every_gopher_by_clicks [OF good_client_env p(2,1) fits_default [OF wf_hack_categories]] p(1)
  show ?thesis by blast
qed

text \<open>C6. What can be clicked on a reachable page: the three buttons, the heading of each panel, and
  the options of the open panel, each with the handler of the instances on the page.\<close>

theorem clickable_exactly:
  assumes "good_env env" and "url_Parse (document_URL d) = Inr rawQuery" and "reachable env url_Parse d p"
  shows "set (tree_handlers (screen p)) =
    {ShuffleClick (page_chooser p), ResetClick (page_chooser p), SaveClick (page_chooser p)} \<union>
    {ExpandClick (Some (page_chooser p)) (int i) | i. i < length hack_categories} \<union>
    {ChooseItemClick (Some (page_outer p)) (int i) v | i v. i < length hack_categories \<and> page_open p = int i \<and>
       v \<in> set (Options (hack_categories ! i))}"
  by (rule in_order_handlers [OF assms(1)]) (rule reachable_in_order [of env url_Parse d], (fact assms)+)

theorem clickable_exactly_witness:
  "\<exists>p. reachable client_env example_parse example_document p \<and>
     ExpandClick (Some (page_chooser p)) 7 \<in> set (tree_handlers (screen p)) \<and>
     ExpandClick (Some (page_chooser p)) 8 \<notin> set (tree_handlers (screen p))"
proof -
  obtain p where p: "reachable client_env example_parse example_document p" "example_parse (document_URL example_document) = Inr []"
    using example_page by blast
  have "(7::int) = int 7" by simp
  then show ?thesis using clickable_exactly [OF good_client_env p(2,1)] p(1)
    by (auto simp: length_hack_categories intro!: exI [of _ p])
qed

text \<open>C7. A click never replaces a component instance, so no state is lost to a remount, and no click
  writes to a gopher that exists: gophers are immutable.\<close>

theorem click_keeps_instances_and_heap:
  assumes "good_env env" and "url_Parse (document_URL d) = Inr rawQuery" and "reachable env url_Parse d p"
    and "h \<in> set (tree_handlers (screen p))" and "click env h p = Inr p'"
  shows "insts (screen p') = insts (screen p) \<and> page_outer p' = page_outer p \<and> page_chooser p' = page_chooser p \<and>
    (\<forall>g ps. gopher_parts (page_world p) g = Inr ps \<longrightarrow> gopher_parts (page_world p') g = Inr ps)"
proof -
  have "in_order env rawQuery p" by (rule reachable_in_order [of env url_Parse d]) (fact assms)+
  from click_in_order [OF assms(1) this assms(4)] assms(5)
  have "insts (screen p') = insts (screen p)" "grows (page_world p) (page_world p')" by auto
  then show ?thesis using grows_gopher_parts by (simp add: page_outer_def page_chooser_def)
qed

theorem click_keeps_instances_and_heap_witness:
  "\<exists>p p'. reachable client_env example_parse example_document p \<and>
     click client_env (ResetClick (page_chooser p)) p = Inr p' \<and> insts (screen p') = insts (screen p)"
proof -
  obtain p where p: "reachable client_env example_parse example_document p" "in_order client_env [] p"
      "ResetClick (page_chooser p) \<in> set (tree_handlers (screen p))" "example_parse (document_URL example_document) = Inr []"
    using example_page by blast
  from click_in_order [OF good_client_env p(2,3)] obtain p' where
    p': "click client_env (ResetClick (page_chooser p)) p = Inr p'" by blast
  with click_keeps_instances_and_heap [OF good_client_env p(4,1,3) p'] p show ?thesis by blast
qed

text \<open>C8. \<open>main\<close> panics exactly when the URL of the document does not parse, with that error, or when the
  document has no element with the id of the page's container, with the error of React; otherwise it
  puts up, in that element, a page with the default gopher, the first panel open and no message.\<close>

theorem main_puts_up_page:
  assumes "good_env env"
  shows "case url_Parse (document_URL d) of
      Inl err \<Rightarrow> main env url_Parse d init_world = Inl (PanicWith err)
    | Inr rawQuery \<Rightarrow>
        (case elements_by_id d ''gopherize.me'' of
           None \<Rightarrow> main env url_Parse d init_world = Inl (PanicWith ''Target container is not a DOM element.'')
         | Some c \<Rightarrow> \<exists>p. main env url_Parse d init_world = Inr (c, p) \<and>
             view_of p = \<lparr>v_parts = default_parts hack_categories, v_open = 0, v_alerts = []\<rparr>)"
proof (cases "url_Parse (document_URL d)")
  case (Inl err)
  then show ?thesis by (simp add: main_errors(1))
next
  case (Inr rawQuery)
  show ?thesis
  proof (cases "elements_by_id d ''gopherize.me''")
    case None
    with Inr main_errors(2) [of url_Parse d rawQuery, OF Inr None] show ?thesis by simp
  next
    case (Some c)
    with Inr main_in_order [of env url_Parse d, OF assms Inr Some] show ?thesis by auto
  qed
qed

theorem main_puts_up_page_witness:
  "main client_env (\<lambda>u. Inl ''invalid URL'') example_document init_world = Inl (PanicWith ''invalid URL'') \<and>
   main client_env example_parse (example_document\<lparr>elements_by_id := Map.empty\<rparr>) init_world =
     Inl (PanicWith ''Target container is not a DOM element.'') \<and>
   (\<exists>p. main client_env example_parse example_document init_world = Inr (0, p))"
  using main_puts_up_page [OF good_client_env, of "\<lambda>u. Inl ''invalid URL''" example_document]
    main_puts_up_page [OF good_client_env, of example_parse "example_document\<lparr>elements_by_id := Map.empty\<rparr>"]
    main_puts_up_page [OF good_client_env, of example_parse example_document]
  by (auto simp: example_parse_def example_document_def)

end
